(* ===== verification/Rift_Prelude.thy ===== *)
theory Rift_Prelude
  imports Main "HOL-Library.Word" "HOL-Library.List_Lexorder"
begin

text \<open>
  Shared vocabulary of the development: the Rust result type, machine integers and their
  big-endian byte form, the ordered map the code uses everywhere (\<open>BTreeMap\<close>), and
  three interfaces that several components implement: state machines with an invariant,
  allocators of never-repeated identifiers, and cursor-paged listings.
\<close>

named_theorems result_simps \<open>equations for Result-valued code\<close>
named_theorems be_simps \<open>big-endian integer encodings\<close>
named_theorems bt_simps \<open>ordered-map equations\<close>

section \<open>Results, options and machine integers\<close>

type_synonym byte = "8 word"
type_synonym bytes = "byte list"
type_synonym u16 = "16 word"
type_synonym u32 = "32 word"
type_synonym u64 = "64 word"
type_synonym ('e, 'a) result = "'e + 'a"

abbreviation Ok :: "'a \<Rightarrow> ('e, 'a) result" where
  "Ok \<equiv> Inr"

abbreviation Err :: "'e \<Rightarrow> ('e, 'a) result" where
  "Err \<equiv> Inl"

text \<open>The \<open>?\<close> operator of Rust: leave with the error, continue with the value.\<close>

fun and_then :: "('e, 'a) result \<Rightarrow> ('a \<Rightarrow> ('e, 'b) result) \<Rightarrow> ('e, 'b) result" where
  "and_then (Inl e) f = Inl e"
| "and_then (Inr a) f = f a"

fun map_err :: "('e \<Rightarrow> 'f) \<Rightarrow> ('e, 'a) result \<Rightarrow> ('f, 'a) result" where
  "map_err g (Inl e) = Inl (g e)"
| "map_err g (Inr a) = Inr a"

fun ok_or :: "'a option \<Rightarrow> 'e \<Rightarrow> ('e, 'a) result" where
  "ok_or None e = Inl e"
| "ok_or (Some a) e = Inr a"

definition is_ok :: "('e, 'a) result \<Rightarrow> bool" where
  "is_ok r = (case r of Err _ \<Rightarrow> False | Ok _ \<Rightarrow> True)"

text \<open>Checked and saturating arithmetic on an unsigned word.\<close>

definition checked_add :: "'w::len word \<Rightarrow> 'w word \<Rightarrow> 'w word option" where
  "checked_add a b = (if unat a + unat b < 2 ^ LENGTH('w) then Some (a + b) else None)"

definition saturating_add :: "'w::len word \<Rightarrow> 'w word \<Rightarrow> 'w word" where
  "saturating_add a b = (if unat a + unat b < 2 ^ LENGTH('w) then a + b else - 1)"

definition saturating_sub :: "'w::len word \<Rightarrow> 'w word \<Rightarrow> 'w word" where
  "saturating_sub a b = (if b \<le> a then a - b else 0)"

definition saturating_mul :: "'w::len word \<Rightarrow> 'w word \<Rightarrow> 'w word" where
  "saturating_mul a b = (if unat a * unat b < 2 ^ LENGTH('w) then a * b else - 1)"

text \<open>\<open>usize\<close> on a 64-bit target is a natural number below \<open>2 ^ 64\<close>.\<close>

definition USIZE_MAX :: nat where
  "USIZE_MAX = 2 ^ 64 - 1"

definition usize_saturating_add :: "nat \<Rightarrow> nat \<Rightarrow> nat" where
  "usize_saturating_add a b = min (a + b) USIZE_MAX"

text \<open>The kinds of \<open>std::io::Error\<close> the code distinguishes; every other kind is a number.\<close>

datatype io_error_kind =
    NotFound | AlreadyExists | UnexpectedEof | WriteZero | IoKind nat

section \<open>The external codec\<close>

text \<open>
  Postcard is not part of the repository. A codec for one type is its serializer
  (\<open>None\<close> is a serialization error) and its deserializer, which returns the value and the
  unread bytes. \<open>postcard_ok\<close> is the documented round trip: decoding an encoded value
  followed by any bytes gives the value and leaves exactly those bytes.
\<close>

record 'a postcard =
  to_stdvec :: "'a \<Rightarrow> bytes option"
  take_from_bytes :: "bytes \<Rightarrow> ('a \<times> bytes) option"

definition postcard_ok :: "'a postcard \<Rightarrow> bool" where
  "postcard_ok pc = (\<forall>v p rest. to_stdvec pc v = Some p \<longrightarrow> take_from_bytes pc (p @ rest) = Some (v, rest))"

text \<open>BLAKE3 is external too; its documented output is 32 bytes.\<close>

definition digest_ok :: "(bytes \<Rightarrow> bytes) \<Rightarrow> bool" where
  "digest_ok blake3 = (\<forall>m. length (blake3 m) = 32)"

text \<open>The subslice \<open>bytes[from..from + count]\<close> of a buffer that is long enough.\<close>

definition slice :: "bytes \<Rightarrow> nat \<Rightarrow> nat \<Rightarrow> bytes" where
  "slice bs from count = take count (drop from bs)"

text \<open>
  Concrete instances for examples: a codec that writes the position of a value in a table as
  one byte, and a digest that is always zero.
\<close>

fun table_index :: "'a list \<Rightarrow> 'a \<Rightarrow> nat option" where
  "table_index [] v = None"
| "table_index (w # ws) v = (if w = v then Some 0 else map_option Suc (table_index ws v))"

definition table_codec :: "'a list \<Rightarrow> 'a postcard" where
  "table_codec vs =
     \<lparr>to_stdvec = (\<lambda>v. map_option (\<lambda>i. [of_nat i]) (table_index (take 256 vs) v)),
      take_from_bytes = (\<lambda>bs. case bs of
          [] \<Rightarrow> None
        | b # rest \<Rightarrow> if unat b < length (take 256 vs) then Some (vs ! unat b, rest) else None)\<rparr>"

definition zero_digest :: "bytes \<Rightarrow> bytes" where
  "zero_digest m = replicate 32 0"

section \<open>Big-endian byte strings\<close>

text \<open>
  \<open>be_encode k v\<close> is the low \<open>k\<close> bytes of \<open>v\<close>, most significant first
  (\<open>to_be_bytes\<close>); \<open>be_decode\<close> reads such a string back (\<open>from_be_bytes\<close>).
\<close>

fun be_encode :: "nat \<Rightarrow> nat \<Rightarrow> bytes" where
  "be_encode 0 v = []"
| "be_encode (Suc k) v = be_encode k (v div 256) @ [of_nat (v mod 256)]"

definition be_decode :: "bytes \<Rightarrow> nat" where
  "be_decode bs = foldl (\<lambda>acc b. acc * 256 + unat b) 0 bs"

section \<open>Ordered maps\<close>

text \<open>
  \<open>BTreeMap\<close>: an association list kept in strictly increasing key order. Iteration order,
  range queries and length are those of the list.
\<close>

type_synonym ('k, 'v) btree = "('k \<times> 'v) list"

fun bt_insert :: "'k::linorder \<Rightarrow> 'v \<Rightarrow> ('k, 'v) btree \<Rightarrow> ('k, 'v) btree" where
  "bt_insert k v [] = [(k, v)]"
| "bt_insert k v (e # m) =
     (if k < fst e then (k, v) # e # m
      else if k = fst e then (k, v) # m
      else e # bt_insert k v m)"

definition bt_remove :: "'k \<Rightarrow> ('k, 'v) btree \<Rightarrow> ('k, 'v) btree" where
  "bt_remove k m = filter (\<lambda>e. fst e \<noteq> k) m"

definition bt_get :: "('k, 'v) btree \<Rightarrow> 'k \<Rightarrow> 'v option" where
  "bt_get m k = map_of m k"

definition bt_contains :: "('k, 'v) btree \<Rightarrow> 'k \<Rightarrow> bool" where
  "bt_contains m k = (bt_get m k \<noteq> None)"

text \<open>\<open>get_mut\<close> followed by an in-place update: absent keys are left absent.\<close>

definition bt_adjust :: "'k \<Rightarrow> ('v \<Rightarrow> 'v) \<Rightarrow> ('k, 'v) btree \<Rightarrow> ('k, 'v) btree" where
  "bt_adjust k f m = map (\<lambda>e. if fst e = k then (k, f (snd e)) else e) m"

definition bt_keys :: "('k, 'v) btree \<Rightarrow> 'k list" where
  "bt_keys m = map fst m"

definition bt_values :: "('k, 'v) btree \<Rightarrow> 'v list" where
  "bt_values m = map snd m"

definition bt_wf :: "('k::linorder, 'v) btree \<Rightarrow> bool" where
  "bt_wf m = sorted_wrt (<) (bt_keys m)"

section \<open>State machines\<close>

text \<open>States reachable from an initial predicate by a step relation.\<close>

inductive reachable :: "('s \<Rightarrow> bool) \<Rightarrow> ('s \<Rightarrow> 's \<Rightarrow> bool) \<Rightarrow> 's \<Rightarrow> bool"
  for initial :: "'s \<Rightarrow> bool" and step :: "'s \<Rightarrow> 's \<Rightarrow> bool" where
  reach_init: "initial s \<Longrightarrow> reachable initial step s"
| reach_step: "reachable initial step s \<Longrightarrow> step s t \<Longrightarrow> reachable initial step t"

text \<open>Sequencing with \<open>?\<close> of fallible operations on a state.\<close>

definition st_bind ::
  "('s \<Rightarrow> ('e, 'a) result \<times> 's) \<Rightarrow> ('a \<Rightarrow> 's \<Rightarrow> ('e, 'b) result \<times> 's) \<Rightarrow> 's \<Rightarrow> ('e, 'b) result \<times> 's" where
  "st_bind f g s = (case f s of (Err e, t) \<Rightarrow> (Err e, t) | (Ok a, t) \<Rightarrow> g a t)"

text \<open>The value of a successful operation mapped to another type.\<close>

definition reply :: "('a \<Rightarrow> 'b) \<Rightarrow> ('e, 'a) result \<times> 's \<Rightarrow> ('e, 'b) result \<times> 's" where
  "reply f r = (case r of (Ok a, s) \<Rightarrow> (Ok (f a), s) | (Err e, s) \<Rightarrow> (Err e, s))"

text \<open>The results and the final state of a sequence of operations.\<close>

fun run_ops :: "('op \<Rightarrow> 's \<Rightarrow> 'r \<times> 's) \<Rightarrow> 'op list \<Rightarrow> 's \<Rightarrow> 'r list \<times> 's" where
  "run_ops exec [] s = ([], s)"
| "run_ops exec (op # ops) s =
     (case exec op s of (r, s') \<Rightarrow> (case run_ops exec ops s' of (rs, t) \<Rightarrow> (r # rs, t)))"

section \<open>Identifier allocation and paged listings\<close>

text \<open>The identifiers that \<open>n\<close> successive calls of an allocator hand out.\<close>

fun alloc_run :: "('s \<Rightarrow> ('e, 'i) result \<times> 's) \<Rightarrow> nat \<Rightarrow> 's \<Rightarrow> 'i list" where
  "alloc_run alloc 0 s = []"
| "alloc_run alloc (Suc n) s =
     (case alloc s of
        (Err _, s') \<Rightarrow> alloc_run alloc n s'
      | (Ok i, s') \<Rightarrow> i # alloc_run alloc n s')"

text \<open>
  A client that follows cursors until none is returned; the fuel bounds the number of pages
  and running out of it is \<open>None\<close>.
\<close>

fun collect_pages ::
  "nat \<Rightarrow> ('k option \<Rightarrow> 'v list \<times> 'k option) \<Rightarrow> 'k option \<Rightarrow> 'v list option" where
  "collect_pages 0 page after = None"
| "collect_pages (Suc fuel) page after =
     (case page after of
        (vs, None) \<Rightarrow> Some vs
      | (vs, Some k) \<Rightarrow> map_option (\<lambda>ws. vs @ ws) (collect_pages fuel page (Some k)))"

text \<open>The elements strictly after an exclusive cursor.\<close>

definition after_cursor :: "('v \<Rightarrow> 'k::linorder) \<Rightarrow> 'k option \<Rightarrow> 'v list \<Rightarrow> 'v list" where
  "after_cursor key c vs = (case c of None \<Rightarrow> vs | Some k \<Rightarrow> filter (\<lambda>v. k < key v) vs)"

section \<open>Lemmas on results and integers\<close>

lemma and_then_Ok_iff [result_simps]:
  "and_then r f = Ok b \<longleftrightarrow> (\<exists>a. r = Ok a \<and> f a = Ok b)"
  by (cases r) auto

lemma and_then_Err_iff [result_simps]:
  "and_then r f = Err e \<longleftrightarrow> r = Err e \<or> (\<exists>a. r = Ok a \<and> f a = Err e)"
  by (cases r) auto

lemma map_err_Ok_iff [result_simps, simp]: "map_err g r = Ok a \<longleftrightarrow> r = Ok a"
  by (cases r) auto

lemma map_err_Err_iff [result_simps]: "map_err g r = Err e \<longleftrightarrow> (\<exists>d. r = Err d \<and> e = g d)"
  by (cases r) auto

lemma ok_or_Ok_iff [result_simps, simp]: "ok_or x e = Ok a \<longleftrightarrow> x = Some a"
  by (cases x) auto

lemma ok_or_Err_iff [result_simps, simp]: "ok_or x e = Err d \<longleftrightarrow> x = None \<and> d = e"
  by (cases x) auto

lemma st_bind_Ok:
  "st_bind f g s = (Ok b, t) \<longleftrightarrow> (\<exists>a u. f s = (Ok a, u) \<and> g a u = (Ok b, t))"
  by (auto simp: st_bind_def split: prod.splits sum.splits)

lemma st_bind_Err:
  "st_bind f g s = (Err e, t) \<longleftrightarrow> f s = (Err e, t) \<or> (\<exists>a u. f s = (Ok a, u) \<and> g a u = (Err e, t))"
  by (auto simp: st_bind_def split: prod.splits sum.splits)

lemma st_bind_step [simp]: "f s = (Ok a, t) \<Longrightarrow> st_bind f g s = g a t"
  by (simp add: st_bind_def)

lemma reply_Ok: "reply f r = (Ok b, s) \<longleftrightarrow> (\<exists>a. r = (Ok a, s) \<and> b = f a)"
  by (auto simp: reply_def split: prod.splits sum.splits)

lemma reply_Err: "reply f r = (Err e, s) \<longleftrightarrow> r = (Err e, s)"
  by (auto simp: reply_def split: prod.splits sum.splits)

lemma is_ok_iff [simp]: "is_ok r \<longleftrightarrow> (\<exists>a. r = Ok a)"
  by (cases r) (auto simp: is_ok_def)

lemma checked_add_SomeD:
  "checked_add a b = Some c \<Longrightarrow> unat c = unat a + unat b"
  by (auto simp: checked_add_def unat_word_ariths split: if_splits)

lemma checked_add_None_iff:
  "checked_add a (b::'w::len word) = None \<longleftrightarrow> 2 ^ LENGTH('w) \<le> unat a + unat b"
  by (auto simp: checked_add_def)

lemma unat_minus_one_word: "unat (- 1 :: 'w::len word) = 2 ^ LENGTH('w) - 1"
  by (simp add: unsigned_minus_1_eq_mask mask_eq_exp_minus_1)

lemma unat_bound: "unat (a :: 'w::len word) < 2 ^ LENGTH('w)"
  by (rule unsigned_less)

lemma unat_saturating_sub: "unat (saturating_sub a b) = unat a - unat b"
  by (auto simp: saturating_sub_def word_le_nat_alt unat_sub_if')

lemma saturating_add_mono: "unat a \<le> unat (saturating_add a (b::'w::len word))"
proof (cases "unat a + unat b < 2 ^ LENGTH('w)")
  case True
  then show ?thesis by (simp add: saturating_add_def unat_word_ariths)
next
  case False
  have "unat a \<le> 2 ^ LENGTH('w) - 1"
    using unat_bound [of a] by linarith
  with False show ?thesis by (simp add: saturating_add_def unat_minus_one_word)
qed

lemma postcard_okD:
  "postcard_ok pc \<Longrightarrow> to_stdvec pc v = Some p \<Longrightarrow> take_from_bytes pc (p @ rest) = Some (v, rest)"
  by (auto simp: postcard_ok_def)

lemma postcard_ok_whole:
  "postcard_ok pc \<Longrightarrow> to_stdvec pc v = Some p \<Longrightarrow> take_from_bytes pc p = Some (v, [])"
  using postcard_okD [of pc v p "[]"] by simp

lemma postcard_inject:
  "postcard_ok pc \<Longrightarrow> to_stdvec pc v = Some p \<Longrightarrow> to_stdvec pc w = Some p \<Longrightarrow> v = w"
  using postcard_ok_whole [of pc v p] postcard_ok_whole [of pc w p] by simp

lemma digest_okD [simp]: "digest_ok blake3 \<Longrightarrow> length (blake3 m) = 32"
  by (simp add: digest_ok_def)

lemma table_index_Some: "table_index vs v = Some i \<Longrightarrow> i < length vs \<and> vs ! i = v"
  by (induction vs arbitrary: i) (auto split: if_splits)

lemma table_codec_ok: "postcard_ok (table_codec vs)"
proof -
  have "take_from_bytes (table_codec vs) ([of_nat i] @ rest) = Some (v, rest)"
    if "table_index (take 256 vs) v = Some i" for v i rest
  proof -
    from table_index_Some [OF that] have i: "i < length (take 256 vs)" "vs ! i = v" by auto
    then have "unat (of_nat i :: byte) = i" by (simp add: unat_of_nat take_bit_eq_mod)
    with i show ?thesis by (simp add: table_codec_def)
  qed
  then show ?thesis by (auto simp: postcard_ok_def table_codec_def)
qed

lemma zero_digest_ok: "digest_ok zero_digest"
  by (simp add: digest_ok_def zero_digest_def)

lemma slice_append_skip [simp]: "length pre \<le> i \<Longrightarrow> slice (pre @ bs) i n = slice bs (i - length pre) n"
  by (simp add: slice_def)

lemma slice_append_exact: "n = length a \<Longrightarrow> slice (a @ bs) 0 n = a"
  by (simp add: slice_def)

lemma length_slice [simp]: "length (slice bs i n) = min n (length bs - i)"
  by (simp add: slice_def)

lemma slice_append_left: "i + n \<le> length a \<Longrightarrow> slice (a @ b) i n = slice a i n"
  by (simp add: slice_def)

section \<open>Lemmas on big-endian encodings\<close>

lemma length_be_encode [be_simps, simp]: "length (be_encode k v) = k"
  by (induction k v rule: be_encode.induct) auto

lemma be_encode_numeral [be_simps]:
  "be_encode (numeral k) v = be_encode (pred_numeral k) (v div 256) @ [of_nat (v mod 256)]"
  unfolding numeral_eq_Suc [of k] by (rule be_encode.simps)

lemma be_decode_append_one:
  "be_decode (bs @ [b]) = be_decode bs * 256 + unat b"
  by (simp add: be_decode_def)

lemma unat_of_nat_byte: "unat (of_nat (v mod 256) :: byte) = v mod 256"
  by (simp add: unat_of_nat take_bit_eq_mod)

lemma be_decode_encode [be_simps]: "be_decode (be_encode k v) = v mod 256 ^ k"
proof (induction k v rule: be_encode.induct)
  case (1 v)
  then show ?case by (simp add: be_decode_def)
next
  case (2 k v)
  have "be_decode (be_encode (Suc k) v) = (v div 256) mod 256 ^ k * 256 + v mod 256"
    by (simp add: be_decode_append_one "2.IH" unat_of_nat_byte)
  also have "\<dots> = v mod 256 ^ Suc k"
    using mod_mult2_eq [of v 256 "256 ^ k"] by (simp add: mult.commute)
  finally show ?case .
qed

lemma be_decode_bound: "be_decode bs < 256 ^ length bs"
proof (induction bs rule: rev_induct)
  case Nil
  then show ?case by (simp add: be_decode_def)
next
  case (snoc b bs)
  have "unat b < 256" using unat_bound [of b] by simp
  with snoc.IH show ?case
    by (simp add: be_decode_append_one)
qed

lemma be_encode_decode [be_simps]: "be_encode (length bs) (be_decode bs) = bs"
proof (induction bs rule: rev_induct)
  case Nil
  then show ?case by simp
next
  case (snoc b bs)
  have b: "unat b < 256" using unat_bound [of b] by simp
  then have "(be_decode bs * 256 + unat b) div 256 = be_decode bs"
    and "(be_decode bs * 256 + unat b) mod 256 = unat b"
    by simp_all
  with snoc.IH show ?case
    by (simp add: be_decode_append_one)
qed

lemma be_encode_inject:
  "v < 256 ^ k \<Longrightarrow> w < 256 ^ k \<Longrightarrow> be_encode k v = be_encode k w \<longleftrightarrow> v = w"
  by (metis be_decode_encode mod_less)

section \<open>Lemmas on ordered maps\<close>

lemma bt_keys_simps [bt_simps, simp]: "bt_keys [] = []" "bt_keys (e # m) = fst e # bt_keys m"
  by (simp_all add: bt_keys_def)

lemma bt_wf_Nil [bt_simps, simp]: "bt_wf []"
  by (simp add: bt_wf_def)

lemma bt_wf_Cons [bt_simps]:
  "bt_wf (e # m) \<longleftrightarrow> (\<forall>k \<in> set (bt_keys m). fst e < k) \<and> bt_wf m"
  by (simp add: bt_wf_def)

lemma set_bt_keys_insert: "set (bt_keys (bt_insert k v m)) = insert k (set (bt_keys m))"
  by (induction m) auto

lemma bt_wf_insert: "bt_wf m \<Longrightarrow> bt_wf (bt_insert k v m)"
proof (induction m)
  case Nil
  then show ?case by (simp add: bt_wf_def)
next
  case (Cons e m)
  then show ?case
    by (auto simp: bt_wf_Cons set_bt_keys_insert)
qed

lemma bt_wf_remove: "bt_wf m \<Longrightarrow> bt_wf (bt_remove k m)"
  by (induction m) (auto simp: bt_remove_def bt_wf_Cons bt_keys_def)

lemma bt_keys_adjust [bt_simps, simp]: "bt_keys (bt_adjust k f m) = bt_keys m"
  by (auto simp: bt_adjust_def bt_keys_def)

lemma bt_wf_adjust [simp]: "bt_wf (bt_adjust k f m) = bt_wf m"
  by (simp add: bt_wf_def)

lemma length_bt_adjust [bt_simps, simp]: "length (bt_adjust k f m) = length m"
  by (simp add: bt_adjust_def)

lemma bt_wf_distinct: "bt_wf m \<Longrightarrow> distinct (bt_keys m)"
  by (simp add: bt_wf_def strict_sorted_iff)

lemma bt_get_Nil [bt_simps, simp]: "bt_get [] k = None"
  by (simp add: bt_get_def)

lemma bt_get_insert [bt_simps, simp]:
  "bt_get (bt_insert k v m) j = (if j = k then Some v else bt_get m j)"
  by (induction m) (auto simp: bt_get_def)

lemma bt_get_remove [bt_simps, simp]:
  "bt_get (bt_remove k m) j = (if j = k then None else bt_get m j)"
  by (induction m) (auto simp: bt_get_def bt_remove_def)

lemma bt_get_adjust [bt_simps, simp]:
  "bt_get (bt_adjust k f m) j = (if j = k then map_option f (bt_get m j) else bt_get m j)"
  by (induction m) (auto simp: bt_get_def bt_adjust_def)

lemma bt_get_None_iff: "bt_get m k = None \<longleftrightarrow> k \<notin> set (bt_keys m)"
  by (auto simp: bt_get_def bt_keys_def map_of_eq_None_iff)

lemma bt_contains_iff [bt_simps]: "bt_contains m k \<longleftrightarrow> k \<in> set (bt_keys m)"
  using bt_get_None_iff [of m k] by (auto simp: bt_contains_def)

lemma bt_get_SomeD: "bt_get m k = Some v \<Longrightarrow> (k, v) \<in> set m"
  by (simp add: bt_get_def map_of_SomeD)

lemma bt_get_iff_mem: "bt_wf m \<Longrightarrow> bt_get m k = Some v \<longleftrightarrow> (k, v) \<in> set m"
  using bt_wf_distinct [of m] by (simp add: bt_get_def bt_keys_def)

lemma set_bt_remove [simp]: "set (bt_remove k m) = {e \<in> set m. fst e \<noteq> k}"
  by (auto simp: bt_remove_def)

lemma length_bt_insert:
  "bt_wf m \<Longrightarrow>
     length (bt_insert k v m) = (if bt_contains m k then length m else Suc (length m))"
  by (induction m) (auto simp: bt_wf_Cons bt_contains_iff)

lemma length_bt_insert_le: "length (bt_insert k v m) \<le> Suc (length m)"
  by (induction m) auto

lemma length_bt_remove_le: "length (bt_remove k m) \<le> length m"
  by (simp add: bt_remove_def)

lemma length_bt_remove:
  "bt_wf m \<Longrightarrow> bt_contains m k \<Longrightarrow> length m = Suc (length (bt_remove k m))"
proof (induction m)
  case Nil
  then show ?case by (simp add: bt_contains_def)
next
  case (Cons e m)
  show ?case
  proof (cases "fst e = k")
    case True
    with Cons.prems(1) have "k \<notin> set (bt_keys m)" by (auto simp: bt_wf_Cons)
    then have "bt_remove k m = m"
      by (auto simp: bt_remove_def bt_keys_def filter_id_conv)
    with True show ?thesis by (simp add: bt_remove_def)
  next
    case False
    with Cons show ?thesis
      by (auto simp: bt_wf_Cons bt_contains_iff bt_remove_def)
  qed
qed

lemma set_bt_insert:
  "bt_wf m \<Longrightarrow> set (bt_insert k v m) = insert (k, v) {e \<in> set m. fst e \<noteq> k}"
proof (induction m)
  case Nil
  then show ?case by simp
next
  case (Cons e m)
  then show ?case
    by (cases e) (auto simp: bt_wf_Cons bt_keys_def)
qed

section \<open>Interfaces\<close>

text \<open>A state machine with an inductive invariant.\<close>

locale invariant_machine =
  fixes initial :: "'s \<Rightarrow> bool"
    and step :: "'s \<Rightarrow> 's \<Rightarrow> bool"
    and inv :: "'s \<Rightarrow> bool"
  assumes inv_initial: "initial s \<Longrightarrow> inv s"
    and inv_step: "inv s \<Longrightarrow> step s t \<Longrightarrow> inv t"
begin

lemma reachable_inv: "reachable initial step s \<Longrightarrow> inv s"
  by (induction rule: reachable.induct) (blast intro: inv_initial inv_step)+

end

text \<open>
  An allocator of identifiers: \<open>issued s i\<close> says that \<open>i\<close> was handed out before
  state \<open>s\<close>. A successful call returns an identifier that was not issued before, and no call
  withdraws one.
\<close>

locale id_allocator =
  fixes alloc :: "'s \<Rightarrow> ('e, 'i) result \<times> 's"
    and issued :: "'s \<Rightarrow> 'i \<Rightarrow> bool"
  assumes alloc_fresh: "alloc s = (Ok i, s') \<Longrightarrow> \<not> issued s i"
    and alloc_issues: "alloc s = (Ok i, s') \<Longrightarrow> issued s' i"
    and alloc_keeps: "alloc s = (r, s') \<Longrightarrow> issued s j \<Longrightarrow> issued s' j"
begin

lemma alloc_run_fresh: "i \<in> set (alloc_run alloc n s) \<Longrightarrow> \<not> issued s i"
proof (induction n arbitrary: s)
  case 0
  then show ?case by simp
next
  case (Suc n)
  obtain r s' where a: "alloc s = (r, s')" by (cases "alloc s")
  show ?case
  proof (cases "i \<in> set (alloc_run alloc n s')")
    case True
    then have "\<not> issued s' i" by (rule Suc.IH)
    with a show ?thesis by (blast dest: alloc_keeps)
  next
    case False
    with Suc.prems a have "r = Ok i" by (cases r) auto
    with a show ?thesis by (blast dest: alloc_fresh)
  qed
qed

lemma alloc_run_distinct: "distinct (alloc_run alloc n s)"
proof (induction n arbitrary: s)
  case 0
  then show ?case by simp
next
  case (Suc n)
  obtain r s' where a: "alloc s = (r, s')" by (cases "alloc s")
  show ?case
  proof (cases r)
    case (Inl e)
    with a Suc.IH [of s'] show ?thesis by simp
  next
    case (Inr i)
    with a have "issued s' i" by (blast dest: alloc_issues)
    then have "i \<notin> set (alloc_run alloc n s')" by (blast dest: alloc_run_fresh)
    with a Inr Suc.IH [of s'] show ?thesis by simp
  qed
qed

end

text \<open>
  A listing served in pages, for every valid state \<open>s\<close> and positive request \<open>n\<close>: a page
  holds the first entries after the cursor, up to the positive bound \<open>limit n\<close>, and names its
  last key exactly when something is left.
\<close>

locale cursor_listing =
  fixes valid :: "'s \<Rightarrow> bool"
    and entries :: "'s \<Rightarrow> 'v list"
    and key :: "'v \<Rightarrow> 'k::linorder"
    and limit :: "nat \<Rightarrow> nat"
    and page :: "'s \<Rightarrow> nat \<Rightarrow> 'k option \<Rightarrow> 'v list \<times> 'k option"
  assumes keys_sorted: "valid s \<Longrightarrow> sorted_wrt (<) (map key (entries s))"
    and limit_pos: "0 < n \<Longrightarrow> 0 < limit n"
    and page_entries: "valid s \<Longrightarrow> 0 < n \<Longrightarrow>
          fst (page s n c) = take (limit n) (after_cursor key c (entries s))"
    and page_cursor: "valid s \<Longrightarrow> 0 < n \<Longrightarrow> snd (page s n c) =
          (if limit n < length (after_cursor key c (entries s))
           then Some (key (last (take (limit n) (after_cursor key c (entries s))))) else None)"
begin

lemma after_cursor_sorted: "valid s \<Longrightarrow> sorted_wrt (<) (map key (after_cursor key c (entries s)))"
  using keys_sorted [of s]
  by (auto simp: after_cursor_def sorted_wrt_map sorted_wrt_filter split: option.split)

lemma page_advances:
  assumes ok: "valid s" "0 < n"
    and rest: "rest = after_cursor key c (entries s)" and more: "limit n < length rest"
  shows "after_cursor key (Some (key (last (take (limit n) rest)))) (entries s) = drop (limit n) rest"
proof -
  let ?k = "key (last (take (limit n) rest))"
  have ne: "take (limit n) rest \<noteq> []" using more limit_pos [OF ok(2)] by auto
  have sorted: "sorted_wrt (<) (map key (take (limit n) rest @ drop (limit n) rest))"
    using after_cursor_sorted [OF ok(1), of c] rest by simp
  have low: "\<not> ?k < key v" if "v \<in> set (take (limit n) rest)" for v
  proof -
    obtain ws where ws: "take (limit n) rest = ws @ [last (take (limit n) rest)]"
      using ne append_butlast_last_id [symmetric] by metis
    from sorted have "sorted_wrt (<) (map key (take (limit n) rest))"
      unfolding map_append sorted_wrt_append by blast
    then have "\<forall>w \<in> set ws. key w < ?k"
      by (subst (asm) ws) (simp add: sorted_wrt_append)
    moreover have "v \<in> set ws \<or> v = last (take (limit n) rest)"
      using that by (subst (asm) ws) auto
    ultimately show ?thesis by auto
  qed
  have high: "?k < key v" if "v \<in> set (drop (limit n) rest)" for v
    using sorted last_in_set [OF ne] that
    unfolding map_append sorted_wrt_append by auto
  have filt: "filter (\<lambda>v. ?k < key v) rest = drop (limit n) rest"
    by (subst append_take_drop_id [of "limit n" rest, symmetric], subst filter_append)
      (use low high in \<open>auto simp: filter_empty_conv filter_id_conv\<close>)
  have keep: "filter (\<lambda>v. ?k < key v) rest = filter (\<lambda>v. ?k < key v) (entries s)"
  proof (cases c)
    case None
    with rest show ?thesis by (simp add: after_cursor_def)
  next
    case (Some k0)
    have "last (take (limit n) rest) \<in> set rest"
      using last_in_set [OF ne] by (rule in_set_takeD)
    with Some rest have "k0 < ?k" by (simp add: after_cursor_def)
    then show ?thesis
      using Some rest by (auto simp: after_cursor_def intro: filter_cong)
  qed
  from filt keep show ?thesis by (simp add: after_cursor_def)
qed

lemma collect_from:
  "valid s \<Longrightarrow> 0 < n \<Longrightarrow> length (after_cursor key c (entries s)) < fuel \<Longrightarrow>
     collect_pages fuel (page s n) c = Some (after_cursor key c (entries s))"
proof (induction fuel arbitrary: c)
  case 0
  then show ?case by simp
next
  case (Suc fuel)
  let ?rest = "after_cursor key c (entries s)"
  have pg: "page s n c = (take (limit n) ?rest,
      if limit n < length ?rest then Some (key (last (take (limit n) ?rest))) else None)"
    using page_entries [of s n c] page_cursor [of s n c] Suc.prems by (simp add: prod_eq_iff)
  show ?case
  proof (cases "limit n < length ?rest")
    case True
    then have adv: "after_cursor key (Some (key (last (take (limit n) ?rest)))) (entries s)
        = drop (limit n) ?rest"
      by (rule page_advances [OF Suc.prems(1,2) refl])
    from True Suc.prems limit_pos [of n] have "length (drop (limit n) ?rest) < fuel" by simp
    with adv have "collect_pages fuel (page s n) (Some (key (last (take (limit n) ?rest))))
        = Some (drop (limit n) ?rest)"
      by (metis Suc.IH Suc.prems(1,2))
    with pg True show ?thesis by simp
  next
    case False
    with pg show ?thesis by simp
  qed
qed

lemma collect_all:
  "valid s \<Longrightarrow> 0 < n \<Longrightarrow> length (entries s) < fuel \<Longrightarrow>
     collect_pages fuel (page s n) None = Some (entries s)"
  using collect_from [of s n None fuel] by (simp add: after_cursor_def)

end

text \<open>
  Operations whose state carries a counter per key. No operation lowers a counter, and an
  operation that fences a key raises its counter when it succeeds, unless the counter is
  saturated. A counter read before a successful fencing operation is therefore out of date
  after it.
\<close>

locale generation_fence =
  fixes exec :: "'op \<Rightarrow> 's \<Rightarrow> ('e, unit) result \<times> 's"
    and gen :: "'s \<Rightarrow> 'k \<Rightarrow> u64"
    and fences :: "'op \<Rightarrow> 'k \<Rightarrow> bool"
  assumes gen_mono: "exec op s = (r, t) \<Longrightarrow> unat (gen s k) \<le> unat (gen t k)"
    and gen_fence: "exec op s = (Ok (), t) \<Longrightarrow> fences op k \<Longrightarrow> unat (gen s k) < 2 ^ 64 - 1 \<Longrightarrow>
          unat (gen s k) < unat (gen t k)"
begin

lemma run_mono: "run_ops exec ops s = (rs, t) \<Longrightarrow> unat (gen s k) \<le> unat (gen t k)"
proof (induction ops arbitrary: s rs)
  case Nil
  then show ?case by simp
next
  case (Cons op ops)
  obtain r s' where "exec op s = (r, s')" by (cases "exec op s")
  moreover obtain rs' where "run_ops exec ops s' = (rs', t)"
    using Cons.prems calculation by (auto split: prod.splits)
  ultimately show ?case using Cons.IH gen_mono le_trans by metis
qed

lemma run_fence:
  "run_ops exec ops s = (rs, t) \<Longrightarrow> (op, Ok ()) \<in> set (zip ops rs) \<Longrightarrow> fences op k \<Longrightarrow>
     unat (gen s k) < 2 ^ 64 - 1 \<Longrightarrow> gen t k \<noteq> gen s k"
proof (induction ops arbitrary: s rs)
  case Nil
  then show ?case by simp
next
  case (Cons op' ops)
  obtain r s' where step: "exec op' s = (r, s')" by (cases "exec op' s")
  then obtain rs' where rest: "run_ops exec ops s' = (rs', t)" and rs: "rs = r # rs'"
    using Cons.prems(1) by (auto split: prod.splits)
  have up: "unat (gen s k) \<le> unat (gen s' k)" using step by (rule gen_mono)
  have later: "unat (gen s' k) \<le> unat (gen t k)" using rest by (rule run_mono)
  show ?case
  proof (cases "gen s' k = gen s k")
    case True
    with step Cons.prems(3,4) have "\<not> (op' = op \<and> r = Ok ())"
      using gen_fence by fastforce
    with Cons.prems(2) rs have "(op, Ok ()) \<in> set (zip ops rs')" by auto
    with Cons.IH [OF rest] Cons.prems(3,4) True show ?thesis by simp
  next
    case False
    with up have "unat (gen s k) < unat (gen s' k)"
      by (metis le_neq_implies_less word_unat_eq_iff)
    with later show ?thesis by auto
  qed
qed

end

end
