(* ===== verification/Rift_Core.thy ===== *)
theory Rift_Core
  imports Rift_Prelude
begin

text \<open>
  The platform-independent types of \<open>crates/rift-core\<close>: device and transfer identities,
  trust states, trusted peers and local source paths. A Rust \<open>str\<close> is the \<open>string\<close> of
  its UTF-8 bytes, so \<open>length\<close> is \<open>str::len\<close>. Native paths are modelled for Unix
  targets (an absolute path starts with a slash); the Windows path syntax is not modelled.
\<close>

section \<open>Device identities\<close>

definition DEVICE_ID_LEN :: nat where
  "DEVICE_ID_LEN = 32"

definition MAX_DEVICE_NAME_LEN :: nat where
  "MAX_DEVICE_NAME_LEN = 128"

definition MAX_PLATFORM_LEN :: nat where
  "MAX_PLATFORM_LEN = 64"

datatype device_id = DeviceId (did_bytes: bytes)

datatype device_id_error = DeviceIdError nat

text \<open>The array type \<open>[u8; 32]\<close>.\<close>

definition device_id_wf :: "device_id \<Rightarrow> bool" where
  "device_id_wf d = (length (did_bytes d) = DEVICE_ID_LEN)"

definition device_from_slice :: "bytes \<Rightarrow> (device_id_error, device_id) result" where
  "device_from_slice bs =
     (if length bs = DEVICE_ID_LEN then Ok (DeviceId bs) else Err (DeviceIdError (length bs)))"

text \<open>The derived order compares the bytes lexicographically.\<close>

instantiation device_id :: linorder
begin

definition less_eq_device_id :: "device_id \<Rightarrow> device_id \<Rightarrow> bool" where
  "less_eq_device_id a b = (did_bytes a \<le> did_bytes b)"

definition less_device_id :: "device_id \<Rightarrow> device_id \<Rightarrow> bool" where
  "less_device_id a b = (did_bytes a < did_bytes b)"

instance
  by standard
    (auto simp: less_eq_device_id_def less_device_id_def device_id.expand less_le_not_le
      intro: device_id.expand)

end

section \<open>Transfer identities\<close>

definition TRANSFER_ID_LEN :: nat where
  "TRANSFER_ID_LEN = 16"

datatype transfer_id = TransferId (tid_bytes: bytes)

datatype transfer_id_error = ByteLength | TextLength | NonCanonicalHex

definition transfer_id_wf :: "transfer_id \<Rightarrow> bool" where
  "transfer_id_wf t = (length (tid_bytes t) = TRANSFER_ID_LEN)"

definition transfer_from_slice :: "bytes \<Rightarrow> (transfer_id_error, transfer_id) result" where
  "transfer_from_slice bs =
     (if length bs = TRANSFER_ID_LEN then Ok (TransferId bs) else Err ByteLength)"

instantiation transfer_id :: linorder
begin

definition less_eq_transfer_id :: "transfer_id \<Rightarrow> transfer_id \<Rightarrow> bool" where
  "less_eq_transfer_id a b = (tid_bytes a \<le> tid_bytes b)"

definition less_transfer_id :: "transfer_id \<Rightarrow> transfer_id \<Rightarrow> bool" where
  "less_transfer_id a b = (tid_bytes a < tid_bytes b)"

instance
  by standard
    (auto simp: less_eq_transfer_id_def less_transfer_id_def transfer_id.expand less_le_not_le
      intro: transfer_id.expand)

end

text \<open>ASCII classification of one byte of text.\<close>

definition is_ascii_digit :: "char \<Rightarrow> bool" where
  "is_ascii_digit c = (48 \<le> (of_char c :: nat) \<and> (of_char c :: nat) \<le> 57)"

definition is_lower_hex :: "char \<Rightarrow> bool" where
  "is_lower_hex c =
     (is_ascii_digit c \<or> (97 \<le> (of_char c :: nat) \<and> (of_char c :: nat) \<le> 102))"

text \<open>
  \<open>hex_decode\<close> stands for \<open>hex::decode_to_slice\<close>, which is not part of the repository;
  \<open>None\<close> is its error.
\<close>

definition transfer_from_str ::
  "(string \<Rightarrow> bytes option) \<Rightarrow> string \<Rightarrow> (transfer_id_error, transfer_id) result" where
  "transfer_from_str hex_decode value =
     (if length value \<noteq> TRANSFER_ID_LEN * 2 then Err TextLength
      else if \<not> list_all is_lower_hex value then Err NonCanonicalHex
      else (case hex_decode value of
              None \<Rightarrow> Err NonCanonicalHex
            | Some bs \<Rightarrow> Ok (TransferId bs)))"

text \<open>The \<open>{byte:02x}\<close> formatting of \<open>Display\<close>.\<close>

definition hex_digit :: "nat \<Rightarrow> char" where
  "hex_digit n = char_of (if n < 10 then 48 + n else 87 + n)"

definition fmt_byte :: "byte \<Rightarrow> string" where
  "fmt_byte b = [hex_digit (unat b div 16), hex_digit (unat b mod 16)]"

definition transfer_display :: "transfer_id \<Rightarrow> string" where
  "transfer_display t = concat (map fmt_byte (tid_bytes t))"

text \<open>
  The documented behaviour of the hex decoder on lowercase text: it inverts the two-digit
  formatting of a byte string. \<open>example_hex_decode\<close> is a decoder that has it.
\<close>

definition hex_decode_ok :: "(string \<Rightarrow> bytes option) \<Rightarrow> bool" where
  "hex_decode_ok hex_decode =
     (\<forall>s bs. list_all is_lower_hex s \<longrightarrow> (hex_decode s = Some bs \<longleftrightarrow> s = concat (map fmt_byte bs)))"

definition nibble :: "char \<Rightarrow> nat" where
  "nibble c = (if is_ascii_digit c then of_char c - 48 else of_char c - 87)"

fun example_hex_decode :: "string \<Rightarrow> bytes option" where
  "example_hex_decode [] = Some []"
| "example_hex_decode [c] = None"
| "example_hex_decode (a # b # rest) =
     (if is_lower_hex a \<and> is_lower_hex b
      then map_option (\<lambda>bs. of_nat (16 * nibble a + nibble b) # bs) (example_hex_decode rest)
      else None)"

section \<open>Trust states and trusted peers\<close>

datatype trust_state = TrustState_Trusted | TrustState_Revoked

record trusted_peer =
  tp_device_id :: device_id
  tp_device_name :: string
  tp_platform :: string

section \<open>Local source paths\<close>

definition MAX_SOURCE_PATH_LEN :: nat where
  "MAX_SOURCE_PATH_LEN = 4096"

datatype source_path = SourcePath (sp_text: string)

datatype source_path_error = SourcePath_Length | NotAbsolute | NonUtf8 | Nul

definition path_is_absolute :: "string \<Rightarrow> bool" where
  "path_is_absolute p = (case p of [] \<Rightarrow> False | c # _ \<Rightarrow> c = CHR ''/'')"

definition source_path_new :: "string \<Rightarrow> (source_path_error, source_path) result" where
  "source_path_new value =
     (if value = [] \<or> MAX_SOURCE_PATH_LEN < length value then Err SourcePath_Length
      else if char_of (0::nat) \<in> set value then Err Nul
      else if \<not> path_is_absolute value then Err NotAbsolute
      else Ok (SourcePath value))"

text \<open>
  A native path as the operating system gives it: \<open>to_str\<close> is \<open>None\<close> when some
  component is not UTF-8.
\<close>

definition source_path_from_path :: "string option \<Rightarrow> (source_path_error, source_path) result" where
  "source_path_from_path to_str = and_then (ok_or to_str NonUtf8) source_path_new"

text \<open>
  \<open>Path::file_name\<close> on Unix: empty and \<open>.\<close> components are skipped, and a path whose
  last component is \<open>..\<close> has no file name.
\<close>

fun split_on :: "char \<Rightarrow> string \<Rightarrow> string list" where
  "split_on d [] = [[]]"
| "split_on d (c # cs) =
     (if c = d then [] # split_on d cs
      else (case split_on d cs of [] \<Rightarrow> [[c]] | w # ws \<Rightarrow> (c # w) # ws))"

definition path_file_name :: "source_path \<Rightarrow> string option" where
  "path_file_name p =
     (case rev (filter (\<lambda>w. w \<noteq> [] \<and> w \<noteq> ''.'') (split_on (CHR ''/'') (sp_text p))) of
        [] \<Rightarrow> None
      | w # _ \<Rightarrow> if w = ''..'' then None else Some w)"

section \<open>Lemmas\<close>

lemma device_from_slice_wf: "device_from_slice bs = Ok d \<Longrightarrow> device_id_wf d \<and> did_bytes d = bs"
  by (auto simp: device_from_slice_def device_id_wf_def split: if_splits)

lemma length_transfer_display [simp]:
  "length (transfer_display t) = 2 * length (tid_bytes t)"
  by (simp add: transfer_display_def fmt_byte_def length_concat comp_def sum_list_triv)

lemma of_char_hex_digit: "n < 16 \<Longrightarrow> (of_char (hex_digit n) :: nat) = (if n < 10 then 48 + n else 87 + n)"
  by (simp add: hex_digit_def of_char_of)

lemma is_lower_hex_digit: "n < 16 \<Longrightarrow> is_lower_hex (hex_digit n)"
  by (simp add: is_lower_hex_def is_ascii_digit_def of_char_hex_digit)

lemma hex_digit_inject: "m < 16 \<Longrightarrow> n < 16 \<Longrightarrow> hex_digit m = hex_digit n \<Longrightarrow> m = n"
proof -
  assume "m < 16" "n < 16" "hex_digit m = hex_digit n"
  then have "(if m < 10 then 48 + m else 87 + m) = (if n < 10 then 48 + n else 87 + n)"
    using of_char_hex_digit by metis
  with \<open>m < 16\<close> \<open>n < 16\<close> show ?thesis by (simp split: if_splits)
qed

lemma byte_nibbles: "unat (b::byte) div 16 < 16" "unat (b::byte) mod 16 < 16"
  using unat_bound [of b] by simp_all

lemma list_all_fmt_byte: "list_all is_lower_hex (fmt_byte b)"
  by (simp add: fmt_byte_def is_lower_hex_digit byte_nibbles)

lemma transfer_display_lower_hex: "list_all is_lower_hex (transfer_display t)"
  by (induction "tid_bytes t" arbitrary: t)
    (simp_all add: transfer_display_def list_all_iff, metis list_all_fmt_byte list_all_iff)

lemma fmt_byte_inject: "fmt_byte a = fmt_byte b \<Longrightarrow> a = b"
proof -
  assume "fmt_byte a = fmt_byte b"
  then have "unat a div 16 = unat b div 16" and "unat a mod 16 = unat b mod 16"
    by (auto simp: fmt_byte_def intro: hex_digit_inject byte_nibbles)
  then have "unat a = unat b"
    by (metis div_mult_mod_eq)
  then show ?thesis by (simp add: word_unat_eq_iff)
qed

lemma concat_fmt_inject: "concat (map fmt_byte as) = concat (map fmt_byte bs) \<Longrightarrow> as = bs"
proof (induction as arbitrary: bs)
  case Nil
  then show ?case by (cases bs) (auto simp: fmt_byte_def)
next
  case (Cons a as)
  then obtain b bs' where bs: "bs = b # bs'"
    by (cases bs) (auto simp: fmt_byte_def)
  with Cons.prems have eq: "fmt_byte a @ concat (map fmt_byte as)
      = fmt_byte b @ concat (map fmt_byte bs')" by simp
  moreover have "length (fmt_byte a) = length (fmt_byte b)" by (simp add: fmt_byte_def)
  ultimately have "fmt_byte a = fmt_byte b \<and>
      concat (map fmt_byte as) = concat (map fmt_byte bs')"
    using append_eq_append_conv by blast
  with Cons.IH bs show ?case by (auto dest: fmt_byte_inject)
qed

lemma transfer_display_inject: "transfer_display s = transfer_display t \<Longrightarrow> s = t"
  by (auto simp: transfer_display_def intro: transfer_id.expand dest: concat_fmt_inject)

lemma source_path_new_Ok_iff:
  "source_path_new v = Ok p \<longleftrightarrow>
     p = SourcePath v \<and> v \<noteq> [] \<and> length v \<le> MAX_SOURCE_PATH_LEN \<and>
     char_of (0::nat) \<notin> set v \<and> path_is_absolute v"
  by (auto simp: source_path_new_def)

lemma nibble_lower_hex: "is_lower_hex c \<Longrightarrow> nibble c < 16 \<and> hex_digit (nibble c) = c"
proof -
  assume c: "is_lower_hex c"
  then have lt: "nibble c < 16"
    by (auto simp: is_lower_hex_def is_ascii_digit_def nibble_def)
  moreover have "(of_char (hex_digit (nibble c)) :: nat) = of_char c"
    using c of_char_hex_digit [OF lt] by (auto simp: is_lower_hex_def is_ascii_digit_def nibble_def)
  ultimately show ?thesis by (simp only: of_char_eq_iff simp_thms)
qed

lemma fmt_byte_of_nibbles:
  assumes "m < 16" and "n < 16"
  shows "fmt_byte (of_nat (16 * m + n)) = [hex_digit m, hex_digit n]"
proof -
  have "unat (of_nat (16 * m + n) :: byte) = 16 * m + n"
    unfolding unat_of_nat take_bit_eq_mod using assms by simp
  with assms show ?thesis by (simp add: fmt_byte_def del: of_nat_add of_nat_mult)
qed

lemma example_hex_decode_iff:
  "list_all is_lower_hex s \<Longrightarrow> example_hex_decode s = Some bs \<longleftrightarrow> s = concat (map fmt_byte bs)"
proof (induction s arbitrary: bs rule: example_hex_decode.induct)
  case 1
  then show ?case by (cases bs) (auto simp: fmt_byte_def)
next
  case (2 c)
  have "length (concat (map fmt_byte bs)) = 2 * length bs"
    using length_transfer_display [of "TransferId bs"] by (simp add: transfer_display_def)
  then have "[c] \<noteq> concat (map fmt_byte bs)"
    by (metis One_nat_def length_Cons list.size(3) nat.simps(1) nat_mult_eq_1_iff numeral_One numeral_eq_iff
        semiring_norm(85))
  then show ?case by simp
next
  case (3 a b rest)
  have ab: "nibble a < 16" "hex_digit (nibble a) = a" "nibble b < 16" "hex_digit (nibble b) = b"
    using "3.prems" nibble_lower_hex by auto
  have IH: "example_hex_decode rest = Some cs \<longleftrightarrow> rest = concat (map fmt_byte cs)" for cs
    using "3.IH" "3.prems" by simp
  show ?case
  proof (cases bs)
    case Nil
    then show ?thesis by auto
  next
    case (Cons c cs)
    have "[a, b] = fmt_byte c \<longleftrightarrow> of_nat (16 * nibble a + nibble b) = c"
      using fmt_byte_of_nibbles [OF ab(1,3)] ab(2,4) fmt_byte_inject by metis
    moreover have "a # b # rest = fmt_byte c @ concat (map fmt_byte cs) \<longleftrightarrow>
        [a, b] = fmt_byte c \<and> rest = concat (map fmt_byte cs)"
      by (simp add: fmt_byte_def)
    ultimately show ?thesis
      using Cons "3.prems" IH by auto
  qed
qed

lemma example_hex_ok: "hex_decode_ok example_hex_decode"
  using example_hex_decode_iff by (simp add: hex_decode_ok_def)

lemma transfer_from_str_iff:
  assumes "hex_decode_ok hex_decode"
  shows "transfer_from_str hex_decode s = Ok t \<longleftrightarrow> transfer_id_wf t \<and> s = transfer_display t"
proof
  assume ok: "transfer_from_str hex_decode s = Ok t"
  then have s: "length s = 32" "list_all is_lower_hex s" "hex_decode s = Some (tid_bytes t)"
    by (auto simp: transfer_from_str_def TRANSFER_ID_LEN_def split: if_splits option.splits)
  with assms have "s = transfer_display t"
    by (auto simp: hex_decode_ok_def transfer_display_def)
  with s(1) show "transfer_id_wf t \<and> s = transfer_display t"
    by (simp add: transfer_id_wf_def TRANSFER_ID_LEN_def)
next
  assume t: "transfer_id_wf t \<and> s = transfer_display t"
  then have low: "list_all is_lower_hex s" by (simp add: transfer_display_lower_hex)
  with assms t have "hex_decode s = Some (tid_bytes t)"
    by (auto simp: hex_decode_ok_def transfer_display_def)
  with low t show "transfer_from_str hex_decode s = Ok t"
    by (simp add: transfer_from_str_def transfer_id_wf_def)
qed

section \<open>Properties\<close>

text \<open>
  The text form of a transfer identity is canonical. A string parses to an identity of 16 bytes
  exactly when it is the display of that identity, so parsing inverts printing and two different
  strings never name one transfer.
\<close>

theorem transfer_id_text_canonical:
  assumes "hex_decode_ok hex_decode"
  shows "transfer_from_str hex_decode s = Ok t \<longleftrightarrow> transfer_id_wf t \<and> s = transfer_display t"
  by (rule transfer_from_str_iff [OF assms])

theorem transfer_id_text_canonical_witness:
  "transfer_from_str example_hex_decode (transfer_display (TransferId (replicate 16 171))) =
     Ok (TransferId (replicate 16 171))"
  using transfer_id_text_canonical [OF example_hex_ok]
  by (simp add: transfer_id_wf_def TRANSFER_ID_LEN_def)

end
