(* ===== verification/Io_Streams.thy ===== *)
theory Io_Streams
  imports Rift_Prelude
begin

text \<open>
  The asynchronous byte streams the code is generic over (Tokio's \<open>AsyncRead\<close> and
  \<open>AsyncWrite\<close>). A reader is the bytes that will arrive and what happens after them; a
  writer is the bytes it accepted, the number it will still accept and what happens after that.
  An operation that waits forever is \<open>Pending\<close>, which is what a deadline turns into an error.
\<close>

section \<open>Outcomes\<close>

datatype 'a poll = Ready 'a | Pending

datatype stream_end = Eof | Stalls | Fails io_error_kind

record reader =
  rd_bytes :: bytes
  rd_end :: stream_end

record writer =
  wr_bytes :: bytes
  wr_room :: nat
  wr_end :: stream_end

text \<open>An asynchronous, fallible operation on a state, and its sequencing with \<open>?\<close>.\<close>

type_synonym ('s, 'e, 'a) io = "'s \<Rightarrow> ('e, 'a) result poll \<times> 's"

definition io_bind :: "('s, 'e, 'a) io \<Rightarrow> ('a \<Rightarrow> ('s, 'e, 'b) io) \<Rightarrow> ('s, 'e, 'b) io" where
  "io_bind f g s =
     (case f s of
        (Pending, s') \<Rightarrow> (Pending, s')
      | (Ready (Err e), s') \<Rightarrow> (Ready (Err e), s')
      | (Ready (Ok a), s') \<Rightarrow> g a s')"

definition io_return :: "('e, 'a) result \<Rightarrow> ('s, 'e, 'a) io" where
  "io_return r s = (Ready r, s)"

definition io_map_err :: "('e \<Rightarrow> 'f) \<Rightarrow> ('s, 'e, 'a) io \<Rightarrow> ('s, 'f, 'a) io" where
  "io_map_err h f s =
     (case f s of
        (Pending, s') \<Rightarrow> (Pending, s')
      | (Ready r, s') \<Rightarrow> (Ready (map_err h r), s'))"

text \<open>\<open>tokio::time::timeout\<close>: an operation that would wait forever ends with the error.\<close>

definition io_timeout :: "'e \<Rightarrow> ('s, 'e, 'a) io \<Rightarrow> 's \<Rightarrow> ('e, 'a) result \<times> 's" where
  "io_timeout e f s =
     (case f s of
        (Pending, s') \<Rightarrow> (Err e, s')
      | (Ready r, s') \<Rightarrow> (r, s'))"

section \<open>Exact reads and whole writes\<close>

definition read_exact :: "nat \<Rightarrow> ('z reader_scheme, io_error_kind, bytes) io" where
  "read_exact n r =
     (if n \<le> length (rd_bytes r)
      then (Ready (Ok (take n (rd_bytes r))), r\<lparr>rd_bytes := drop n (rd_bytes r)\<rparr>)
      else (case rd_end r of
          Eof \<Rightarrow> (Ready (Err UnexpectedEof), r\<lparr>rd_bytes := []\<rparr>)
        | Stalls \<Rightarrow> (Pending, r\<lparr>rd_bytes := []\<rparr>)
        | Fails e \<Rightarrow> (Ready (Err e), r\<lparr>rd_bytes := []\<rparr>)))"

definition write_all :: "bytes \<Rightarrow> (writer, io_error_kind, unit) io" where
  "write_all bs w =
     (if length bs \<le> wr_room w
      then (Ready (Ok ()), w\<lparr>wr_bytes := wr_bytes w @ bs, wr_room := wr_room w - length bs\<rparr>)
      else (let w' = w\<lparr>wr_bytes := wr_bytes w @ take (wr_room w) bs, wr_room := 0\<rparr> in
        (case wr_end w of
           Eof \<Rightarrow> (Ready (Err WriteZero), w')
         | Stalls \<Rightarrow> (Pending, w')
         | Fails e \<Rightarrow> (Ready (Err e), w'))))"

section \<open>Reads of any size\<close>

text \<open>A byte stream and the most bytes each of its next reads returns, in any order the system chooses.\<close>

record chunk_reader = reader +
  rd_chunks :: "nat list"

definition read_some :: "nat \<Rightarrow> (chunk_reader, io_error_kind, bytes) io" where
  "read_some n r =
     (let limit = (case rd_chunks r of [] \<Rightarrow> n | c # _ \<Rightarrow> min n (max 1 c));
          r' = r\<lparr>rd_chunks := drop 1 (rd_chunks r)\<rparr> in
      if rd_bytes r = [] then
        (case rd_end r of
           Eof \<Rightarrow> (Ready (Ok []), r')
         | Stalls \<Rightarrow> (Pending, r')
         | Fails e \<Rightarrow> (Ready (Err e), r'))
      else (Ready (Ok (take limit (rd_bytes r))), r'\<lparr>rd_bytes := drop limit (rd_bytes r)\<rparr>))"

section \<open>Lemmas\<close>

lemma io_bind_Ok:
  "io_bind f g s = (Ready (Ok b), t) \<longleftrightarrow> (\<exists>a u. f s = (Ready (Ok a), u) \<and> g a u = (Ready (Ok b), t))"
  by (auto simp: io_bind_def split: prod.splits poll.splits sum.splits)

lemma io_bind_step [simp]: "f s = (Ready (Ok a), u) \<Longrightarrow> io_bind f g s = g a u"
  by (simp add: io_bind_def)

lemma io_bind_err [simp]: "f s = (Ready (Err e), u) \<Longrightarrow> io_bind f g s = (Ready (Err e), u)"
  by (simp add: io_bind_def)

lemma io_bind_pending [simp]: "f s = (Pending, u) \<Longrightarrow> io_bind f g s = (Pending, u)"
  by (simp add: io_bind_def)

lemma io_return_simp [simp]: "io_return r s = (Ready r, s)"
  by (simp add: io_return_def)

lemma io_map_err_Ok [simp]: "io_map_err h f s = (Ready (Ok a), t) \<longleftrightarrow> f s = (Ready (Ok a), t)"
  by (auto simp: io_map_err_def split: prod.splits poll.splits)

lemma io_map_err_Err: "f s = (Ready (Err e), t) \<Longrightarrow> io_map_err h f s = (Ready (Err (h e)), t)"
  by (simp add: io_map_err_def)

lemma io_timeout_Ok: "io_timeout e f s = (Ok a, t) \<longleftrightarrow> f s = (Ready (Ok a), t)"
  by (auto simp: io_timeout_def split: prod.splits poll.splits)

text \<open>A deadline always produces a result.\<close>

lemma io_timeout_Pending: "f s = (Pending, t) \<Longrightarrow> io_timeout e f s = (Err e, t)"
  by (simp add: io_timeout_def)

lemma read_exact_Ok:
  "read_exact n r = (Ready (Ok bs), t) \<longleftrightarrow>
     length bs = n \<and> rd_bytes r = bs @ rd_bytes t \<and> t = r\<lparr>rd_bytes := rd_bytes t\<rparr>"
proof
  assume "read_exact n r = (Ready (Ok bs), t)"
  then show "length bs = n \<and> rd_bytes r = bs @ rd_bytes t \<and> t = r\<lparr>rd_bytes := rd_bytes t\<rparr>"
    by (auto simp: read_exact_def split: if_splits stream_end.splits)
next
  assume t: "length bs = n \<and> rd_bytes r = bs @ rd_bytes t \<and> t = r\<lparr>rd_bytes := rd_bytes t\<rparr>"
  then have "rd_bytes r = bs @ rd_bytes t" "length bs = n" by simp_all
  with t show "read_exact n r = (Ready (Ok bs), t)"
    by (simp add: read_exact_def)
qed

lemma read_exact_append:
  "length bs = n \<Longrightarrow> read_exact n \<lparr>rd_bytes = bs @ rest, rd_end = e\<rparr> =
     (Ready (Ok bs), \<lparr>rd_bytes = rest, rd_end = e\<rparr>)"
  by (simp add: read_exact_def)

text \<open>A read returns part of what comes next, or nothing only at the end of the stream.\<close>

lemma read_some_Ok:
  assumes "read_some n r = (Ready (Ok bs), t)"
  shows "rd_bytes r = bs @ rd_bytes t" and "rd_end t = rd_end r" and "length bs \<le> n" and "0 < n \<Longrightarrow> bs = [] \<Longrightarrow> rd_bytes r = [] \<and> rd_end r = Eof"
  using assms by (auto simp: read_some_def Let_def split: if_splits stream_end.splits list.splits)

lemma write_all_Ok:
  "write_all bs w = (Ready (Ok u), t) \<longleftrightarrow>
     length bs \<le> wr_room w \<and> t = w\<lparr>wr_bytes := wr_bytes w @ bs, wr_room := wr_room w - length bs\<rparr>"
  by (auto simp: write_all_def Let_def split: if_splits stream_end.splits)

end
