(* ===== verification/Transfer_Wire.thy ===== *)
theory Transfer_Wire
  imports Rift_Core Io_Streams
begin

text \<open>
  The transfer part of \<open>crates/rift-protocol\<close>: portable file names and immutable transfer
  metadata (\<open>transfer.rs\<close>), and the small header that starts every binary data stream
  (\<open>data.rs\<close>). Text is a string of UTF-8 bytes; slicing a \<open>str\<close> checks the character
  boundary. Postcard is a parameter.
\<close>

section \<open>Portable file names\<close>

definition MAX_TRANSFER_FILE_NAME_LEN :: nat where
  "MAX_TRANSFER_FILE_NAME_LEN = 255"

definition MAX_TRANSFER_BYTES :: u64 where
  "MAX_TRANSFER_BYTES = push_bit 40 1"

datatype transfer_file_name = TransferFileName (name_text: string)

datatype transfer_metadata_error = FileNameLength | UnsafeFileName | Metadata_FileTooLarge

definition is_ascii_control :: "char \<Rightarrow> bool" where
  "is_ascii_control c = ((of_char c :: nat) < 32 \<or> (of_char c :: nat) = 127)"

definition ascii_lower :: "char \<Rightarrow> char" where
  "ascii_lower c =
     (if 65 \<le> (of_char c :: nat) \<and> (of_char c :: nat) \<le> 90 then char_of ((of_char c :: nat) + 32) else c)"

definition eq_ignore_ascii_case :: "string \<Rightarrow> string \<Rightarrow> bool" where
  "eq_ignore_ascii_case a b = (map ascii_lower a = map ascii_lower b)"

text \<open>\<open>str::is_char_boundary\<close>: the byte at the index does not continue a character.\<close>

definition is_char_boundary :: "string \<Rightarrow> nat \<Rightarrow> bool" where
  "is_char_boundary s i =
     (i = 0 \<or> i = length s \<or>
      i < length s \<and> ((of_char (s ! i) :: nat) < 128 \<or> 192 \<le> (of_char (s ! i) :: nat)))"

definition str_get_to :: "string \<Rightarrow> nat \<Rightarrow> string option" where
  "str_get_to s i = (if is_char_boundary s i then Some (take i s) else None)"

definition str_get_from :: "string \<Rightarrow> nat \<Rightarrow> string option" where
  "str_get_from s i = (if is_char_boundary s i then Some (drop i s) else None)"

definition unsafe_byte :: "char \<Rightarrow> bool" where
  "unsafe_byte c = (is_ascii_control c \<or> c \<in> set ''/<>:|?*'' \<or> c = CHR 0x5C \<or> c = CHR 0x22)"

definition ends_with_any :: "string \<Rightarrow> string \<Rightarrow> bool" where
  "ends_with_any s cs = (s \<noteq> [] \<and> last s \<in> set cs)"

definition name_stem :: "string \<Rightarrow> string" where
  "name_stem value = rev (dropWhile (\<lambda>c. c = CHR '' '') (rev (takeWhile (\<lambda>c. c \<noteq> CHR ''.'') value)))"

definition device_suffixes :: "string list" where
  "device_suffixes =
     [''1'', ''2'', ''3'', ''4'', ''5'', ''6'', ''7'', ''8'', ''9'',
      [CHR 0xC2, CHR 0xB9], [CHR 0xC2, CHR 0xB2], [CHR 0xC2, CHR 0xB3]]"

definition reserved_stem :: "string \<Rightarrow> bool" where
  "reserved_stem stem =
     (list_ex (eq_ignore_ascii_case stem) [''CON'', ''PRN'', ''AUX'', ''NUL''] \<or>
      list_ex (\<lambda>prefix.
        (case str_get_to stem 3 of None \<Rightarrow> False | Some part \<Rightarrow> eq_ignore_ascii_case part prefix) \<and>
        (case str_get_from stem 3 of None \<Rightarrow> False | Some suffix \<Rightarrow> suffix \<in> set device_suffixes))
        [''COM'', ''LPT''])"

definition file_name_new :: "string \<Rightarrow> (transfer_metadata_error, transfer_file_name) result" where
  "file_name_new value =
     (if value = [] \<or> MAX_TRANSFER_FILE_NAME_LEN < length value then Err FileNameLength
      else if ends_with_any value ''. '' \<or> list_ex unsafe_byte value then Err UnsafeFileName
      else if reserved_stem (name_stem value) then Err UnsafeFileName
      else Ok (TransferFileName value))"

section \<open>Transfer metadata\<close>

record transfer_metadata =
  tm_file_name :: transfer_file_name
  tm_byte_len :: u64
  tm_blake3 :: bytes

definition validate_byte_len :: "u64 \<Rightarrow> (transfer_metadata_error, unit) result" where
  "validate_byte_len byte_len = (if MAX_TRANSFER_BYTES < byte_len then Err Metadata_FileTooLarge else Ok ())"

definition metadata_new ::
  "transfer_file_name \<Rightarrow> u64 \<Rightarrow> bytes \<Rightarrow> (transfer_metadata_error, transfer_metadata) result" where
  "metadata_new file_name byte_len digest =
     and_then (validate_byte_len byte_len) (\<lambda>_.
       Ok \<lparr>tm_file_name = file_name, tm_byte_len = byte_len, tm_blake3 = digest\<rparr>)"

text \<open>What the hand-written deserializers of the file name and the length accept.\<close>

definition metadata_visit :: "transfer_metadata \<Rightarrow> bool" where
  "metadata_visit m =
     (is_ok (file_name_new (name_text (tm_file_name m))) \<and> is_ok (validate_byte_len (tm_byte_len m)))"

datatype transfer_failure_code = Code_Integrity | Code_SourceChanged | Code_Io | Code_Resource | Code_Protocol

datatype transfer_terminal_status =
    Status_Completed
  | Status_Rejected
  | Status_Cancelled
  | Status_Failed transfer_failure_code

section \<open>Data stream headers\<close>

definition FRAME_LENGTH_PREFIX_LEN :: nat where
  "FRAME_LENGTH_PREFIX_LEN = 4"

definition MAX_DATA_STREAM_HEADER_LEN :: nat where
  "MAX_DATA_STREAM_HEADER_LEN = 256"

datatype data_stream_header =
  BlobV1 (dh_transfer_id: transfer_id) (dh_offset: u64) (dh_remaining_len: u64)

datatype data_header_error =
    DH_Prefix io_error_kind
  | DH_Payload io_error_kind
  | DH_TooLarge nat
  | DH_FrameLengthMismatch
  | DH_Decode
  | DH_Encode
  | DH_TrailingPayload
  | DH_Write io_error_kind
  | DH_FileTooLarge
  | DH_InvalidOffset
  | DH_RemainingLengthMismatch

definition header_validate :: "data_stream_header \<Rightarrow> u64 \<Rightarrow> (data_header_error, unit) result" where
  "header_validate h total_len =
     (if MAX_TRANSFER_BYTES < total_len then Err DH_FileTooLarge
      else if total_len < dh_offset h then Err DH_InvalidOffset
      else if dh_remaining_len h \<noteq> total_len - dh_offset h then Err DH_RemainingLengthMismatch
      else Ok ())"

definition header_validate_bounds :: "data_stream_header \<Rightarrow> (data_header_error, unit) result" where
  "header_validate_bounds h =
     and_then (ok_or (checked_add (dh_offset h) (dh_remaining_len h)) DH_FileTooLarge)
       (header_validate h)"

definition header_length :: "bytes \<Rightarrow> (data_header_error, nat) result" where
  "header_length prefix =
     (let n = be_decode prefix in
      if MAX_DATA_STREAM_HEADER_LEN < n then Err (DH_TooLarge n) else Ok n)"

definition decode_header_payload ::
  "data_stream_header postcard \<Rightarrow> bytes \<Rightarrow> (data_header_error, data_stream_header) result" where
  "decode_header_payload pc payload =
     (case take_from_bytes pc payload of
        None \<Rightarrow> Err DH_Decode
      | Some (header, trailing) \<Rightarrow>
          if trailing \<noteq> [] then Err DH_TrailingPayload
          else and_then (header_validate_bounds header) (\<lambda>_. Ok header))"

text \<open>\<open>postcard::to_slice\<close> fails when the value does not fit the fixed buffer.\<close>

definition encode_data_header ::
  "data_stream_header postcard \<Rightarrow> data_stream_header \<Rightarrow> (data_header_error, bytes) result" where
  "encode_data_header pc header =
     and_then (header_validate_bounds header) (\<lambda>_.
       case to_stdvec pc header of
         None \<Rightarrow> Err DH_Encode
       | Some payload \<Rightarrow>
           if MAX_DATA_STREAM_HEADER_LEN < length payload then Err DH_Encode
           else Ok (be_encode FRAME_LENGTH_PREFIX_LEN (length payload) @ payload))"

definition decode_data_header ::
  "data_stream_header postcard \<Rightarrow> bytes \<Rightarrow> (data_header_error, data_stream_header) result" where
  "decode_data_header pc frame =
     (if length frame < FRAME_LENGTH_PREFIX_LEN then Err (DH_Prefix UnexpectedEof)
      else and_then (header_length (take FRAME_LENGTH_PREFIX_LEN frame)) (\<lambda>n.
        let payload = drop FRAME_LENGTH_PREFIX_LEN frame in
        if length payload \<noteq> n then Err DH_FrameLengthMismatch
        else decode_header_payload pc payload))"

definition read_data_header ::
  "data_stream_header postcard \<Rightarrow> (reader, data_header_error, data_stream_header) io" where
  "read_data_header pc =
     io_bind (io_map_err DH_Prefix (read_exact FRAME_LENGTH_PREFIX_LEN)) (\<lambda>prefix.
     io_bind (io_return (header_length prefix)) (\<lambda>n.
     io_bind (io_map_err DH_Payload (read_exact n)) (\<lambda>payload.
     io_return (decode_header_payload pc payload))))"

definition write_data_header ::
  "data_stream_header postcard \<Rightarrow> data_stream_header \<Rightarrow> (writer, data_header_error, unit) io" where
  "write_data_header pc header =
     io_bind (io_return (encode_data_header pc header)) (\<lambda>frame.
     io_map_err DH_Write (write_all frame))"

section \<open>Example values\<close>

definition example_header :: data_stream_header where
  "example_header = BlobV1 (TransferId (replicate 16 9)) 5 7"

definition example_header_codec :: "data_stream_header postcard" where
  "example_header_codec = table_codec [example_header]"

section \<open>Lemmas\<close>

lemma unat_MAX_TRANSFER_BYTES: "unat MAX_TRANSFER_BYTES = 2 ^ 40"
  by (simp add: MAX_TRANSFER_BYTES_def push_bit_eq_mult)

lemma header_validate_Ok:
  "header_validate h total_len = Ok u \<longleftrightarrow>
     unat total_len \<le> 2 ^ 40 \<and> unat (dh_offset h) + unat (dh_remaining_len h) = unat total_len"
proof -
  have "dh_remaining_len h = total_len - dh_offset h \<longleftrightarrow>
      unat (dh_offset h) + unat (dh_remaining_len h) = unat total_len" if "dh_offset h \<le> total_len"
    using that unat_sub [OF that] by (auto simp: word_unat_eq_iff word_le_nat_alt)
  moreover have "unat (dh_offset h) + unat (dh_remaining_len h) = unat total_len \<Longrightarrow> dh_offset h \<le> total_len"
    by (simp add: word_le_nat_alt)
  ultimately show ?thesis
    by (auto simp: header_validate_def not_less word_le_nat_alt word_less_nat_alt unat_MAX_TRANSFER_BYTES
        split: if_splits)
qed

lemma header_validate_bounds_Ok:
  "header_validate_bounds h = Ok u \<longleftrightarrow> unat (dh_offset h) + unat (dh_remaining_len h) \<le> 2 ^ 40"
proof
  assume "header_validate_bounds h = Ok u"
  then obtain c where "checked_add (dh_offset h) (dh_remaining_len h) = Some c" "header_validate h c = Ok u"
    by (auto simp: header_validate_bounds_def result_simps)
  then show "unat (dh_offset h) + unat (dh_remaining_len h) \<le> 2 ^ 40"
    by (simp add: header_validate_Ok)
next
  assume le: "unat (dh_offset h) + unat (dh_remaining_len h) \<le> 2 ^ 40"
  then obtain c where c: "checked_add (dh_offset h) (dh_remaining_len h) = Some c"
    by (simp add: checked_add_def)
  from checked_add_SomeD [OF c] le have "header_validate h c = Ok ()"
    by (simp add: header_validate_Ok)
  with c show "header_validate_bounds h = Ok u"
    by (simp add: header_validate_bounds_def)
qed

lemma encode_data_header_Ok:
  "encode_data_header pc h = Ok frame \<longleftrightarrow>
     (\<exists>p. to_stdvec pc h = Some p \<and> length p \<le> 256 \<and>
       unat (dh_offset h) + unat (dh_remaining_len h) \<le> 2 ^ 40 \<and> frame = be_encode 4 (length p) @ p)"
  by (auto simp: encode_data_header_def result_simps header_validate_bounds_Ok
      MAX_DATA_STREAM_HEADER_LEN_def FRAME_LENGTH_PREFIX_LEN_def split: option.splits)

lemma header_length_encode: "n \<le> 256 \<Longrightarrow> header_length (be_encode 4 n) = Ok n"
  by (simp add: header_length_def be_decode_encode MAX_DATA_STREAM_HEADER_LEN_def)

text \<open>Splitting a path at its separators.\<close>

lemma split_on_not_Nil [simp]: "split_on d s \<noteq> []"
  by (induction s) (auto split: list.splits)

lemma split_on_single: "d \<notin> set w \<Longrightarrow> split_on d w = [w]"
  by (induction w) auto

lemma last_split_on: "d \<notin> set w \<Longrightarrow> last (split_on d (s @ d # w)) = w"
proof (induction s)
  case Nil
  then show ?case by (simp add: split_on_single)
next
  case (Cons c s)
  obtain v vs where vs: "split_on d (s @ d # w) = v # vs"
    using split_on_not_Nil [of d "s @ d # w"] by (cases "split_on d (s @ d # w)") auto
  have two: "vs \<noteq> []"
    using vs
  proof (induction s arbitrary: v vs)
    case Nil
    then show ?case by auto
  next
    case (Cons a s)
    then show ?case by (auto split: if_splits list.splits)
  qed
  with Cons vs show ?case by auto
qed

lemma path_file_name_join:
  assumes "CHR ''/'' \<notin> set w" and "w \<noteq> []" and "w \<noteq> ''.''" and "w \<noteq> ''..''"
  shows "path_file_name (SourcePath (dir @ CHR ''/'' # w)) = Some w"
proof -
  have "split_on (CHR ''/'') (dir @ CHR ''/'' # w) =
      butlast (split_on (CHR ''/'') (dir @ CHR ''/'' # w)) @ [w]"
    using last_split_on [OF assms(1), of dir] append_butlast_last_id split_on_not_Nil by metis
  then obtain pre where "split_on (CHR ''/'') (dir @ CHR ''/'' # w) = pre @ [w]" by blast
  with assms show ?thesis by (simp add: path_file_name_def)
qed

lemma file_name_new_Ok:
  "file_name_new v = Ok n \<longleftrightarrow>
     n = TransferFileName v \<and> v \<noteq> [] \<and> length v \<le> 255 \<and> last v \<notin> set ''. '' \<and>
     list_all (\<lambda>c. \<not> unsafe_byte c) v \<and> \<not> reserved_stem (name_stem v)"
  by (auto simp: file_name_new_def MAX_TRANSFER_FILE_NAME_LEN_def ends_with_any_def list_ex_iff
      list_all_iff)

lemma safe_byte: "\<not> unsafe_byte c \<Longrightarrow> 32 \<le> (of_char c :: nat) \<and> c \<notin> set ''/:*?'' \<and> c \<noteq> CHR 0x5C"
  by (simp add: unsafe_byte_def is_ascii_control_def)

section \<open>Properties\<close>

text \<open>
  A file name accepted from a peer is one plain path component. It has no separator, control
  byte, colon or wildcard, it is neither \<open>.\<close> nor \<open>..\<close>, it is at most 255 bytes, and joining
  it to any directory gives a path whose last component is exactly that name, so it cannot leave
  the directory.
\<close>

theorem transfer_file_name_stays_inside:
  assumes "file_name_new v = Ok n"
  shows "name_text n = v \<and> v \<noteq> [] \<and> length v \<le> 255 \<and> v \<noteq> ''.'' \<and> v \<noteq> ''..'' \<and>
    list_all (\<lambda>c. 32 \<le> (of_char c :: nat) \<and> c \<notin> set ''/:*?'' \<and> c \<noteq> CHR 0x5C) v \<and>
    path_file_name (SourcePath (dir @ CHR ''/'' # v)) = Some v"
proof -
  from assms have v: "n = TransferFileName v" "v \<noteq> []" "length v \<le> 255" "last v \<notin> set ''. ''"
    "list_all (\<lambda>c. \<not> unsafe_byte c) v" by (simp_all add: file_name_new_Ok)
  then have dots: "v \<noteq> ''.''" "v \<noteq> ''..''" by auto
  have safe: "list_all (\<lambda>c. 32 \<le> (of_char c :: nat) \<and> c \<notin> set ''/:*?'' \<and> c \<noteq> CHR 0x5C) v"
    using v(5) by (rule list.pred_mono_strong) (rule safe_byte)
  have "unsafe_byte (CHR ''/'')" by (simp add: unsafe_byte_def)
  with v(5) have "CHR ''/'' \<notin> set v" by (metis list_all_iff)
  with v dots safe path_file_name_join show ?thesis by simp
qed

theorem transfer_file_name_stays_inside_witness:
  "file_name_new ''a.txt'' = Ok (TransferFileName ''a.txt'') \<and>
   path_file_name (SourcePath (''/in'' @ CHR ''/'' # ''a.txt'')) = Some ''a.txt''"
proof -
  have "file_name_new ''a.txt'' = Ok (TransferFileName ''a.txt'')" by code_simp
  with transfer_file_name_stays_inside [OF this, of "''/in''"] show ?thesis by blast
qed

text \<open>
  Data stream headers survive the wire. Decoding an encoded header, or reading it from a stream
  that continues with raw file bytes, gives the header back and leaves exactly the raw bytes; and
  every encoded header describes a range that ends within the 1 TiB limit without wrapping around.
\<close>

theorem data_header_roundtrip:
  assumes "postcard_ok pc" and "encode_data_header pc h = Ok frame"
  shows "decode_data_header pc frame = Ok h \<and>
    read_data_header pc \<lparr>rd_bytes = frame @ raw, rd_end = e\<rparr> = (Ready (Ok h), \<lparr>rd_bytes = raw, rd_end = e\<rparr>) \<and>
    unat (dh_offset h) + unat (dh_remaining_len h) \<le> 2 ^ 40"
proof -
  from assms(2) obtain p where p: "to_stdvec pc h = Some p" "length p \<le> 256"
    "unat (dh_offset h) + unat (dh_remaining_len h) \<le> 2 ^ 40" "frame = be_encode 4 (length p) @ p"
    by (auto simp: encode_data_header_Ok)
  have payload: "decode_header_payload pc p = Ok h"
    using postcard_ok_whole [OF assms(1) p(1)] p(3)
    by (simp add: decode_header_payload_def result_simps header_validate_bounds_Ok)
  have "decode_data_header pc frame = Ok h"
    using p payload by (simp add: decode_data_header_def FRAME_LENGTH_PREFIX_LEN_def header_length_encode)
  moreover have "read_data_header pc \<lparr>rd_bytes = frame @ raw, rd_end = e\<rparr> =
      (Ready (Ok h), \<lparr>rd_bytes = raw, rd_end = e\<rparr>)"
    using p payload
    by (simp add: read_data_header_def io_bind_def io_map_err_def read_exact_append
        FRAME_LENGTH_PREFIX_LEN_def header_length_encode)
  ultimately show ?thesis using p(3) by simp
qed

theorem data_header_roundtrip_witness:
  "read_data_header example_header_codec \<lparr>rd_bytes = [0, 0, 0, 1, 0] @ [42], rd_end = Eof\<rparr> =
     (Ready (Ok example_header), \<lparr>rd_bytes = [42], rd_end = Eof\<rparr>)"
proof -
  have "postcard_ok example_header_codec" by (simp add: example_header_codec_def table_codec_ok)
  moreover have "encode_data_header example_header_codec example_header = Ok [0, 0, 0, 1, 0]"
    by (simp add: encode_data_header_Ok example_header_codec_def table_codec_def example_header_def
        be_encode_numeral)
  ultimately show ?thesis using data_header_roundtrip by blast
qed

text \<open>
  An oversized data header is refused before its payload is touched: when the four length bytes
  declare more than 256 bytes, reading fails with that length and has consumed only those four bytes.
\<close>

theorem data_header_oversize_stops_early:
  assumes "256 < n" and "n < 2 ^ 32"
  shows "read_data_header pc \<lparr>rd_bytes = be_encode 4 n @ rest, rd_end = e\<rparr> =
    (Ready (Err (DH_TooLarge n)), \<lparr>rd_bytes = rest, rd_end = e\<rparr>)"
  using assms
  by (simp add: read_data_header_def io_bind_def io_map_err_def read_exact_append
      FRAME_LENGTH_PREFIX_LEN_def header_length_def be_decode_encode MAX_DATA_STREAM_HEADER_LEN_def)

theorem data_header_oversize_stops_early_witness:
  "read_data_header example_header_codec \<lparr>rd_bytes = be_encode 4 257 @ [1], rd_end = Stalls\<rparr> =
    (Ready (Err (DH_TooLarge 257)), \<lparr>rd_bytes = [1], rd_end = Stalls\<rparr>)"
  by (rule data_header_oversize_stops_early) simp_all

end
