(* ===== verification/Transfer_State.thy ===== *)
theory Transfer_State
  imports Transfer_Wire
begin

text \<open>
  The logical transfer of \<open>crates/rift-transfer/src/state.rs\<close>: one function per method of
  \<open>LogicalTransfer\<close>, each returning its result next to the new transfer. The lemmas show the
  invariant of every reachable transfer, that worker attempts are fenced by fresh numbers, that
  terminal outcomes are final and that an incoming transfer completes only through verification.
\<close>

section \<open>Data\<close>

datatype transfer_direction = Outgoing | Incoming

datatype transfer_attempt = TransferAttempt (attempt_number: u64)

datatype transfer_state =
    St_Queued
  | St_Offered
  | St_PendingOffer
  | St_Accepted u64
  | St_Sending transfer_attempt
  | St_Receiving transfer_attempt
  | St_Completing transfer_attempt
  | St_WaitingForTerminal transfer_attempt
  | St_Paused
  | St_TerminalAwaitingAck transfer_terminal_status
  | St_Settled transfer_terminal_status

datatype offer_replay =
    Replay_Pending
  | Replay_Accept u64
  | Replay_Terminal transfer_terminal_status

datatype transition_error =
    WrongDirection | UnexpectedState | InvalidOffset | ConflictingMetadata | WrongTransfer
  | StaleAttempt | AttemptExhausted | ConflictingTerminal

record logical_transfer =
  lt_peer :: device_id
  lt_transfer_id :: transfer_id
  lt_metadata :: transfer_metadata
  lt_direction :: transfer_direction
  lt_state :: transfer_state
  lt_next_attempt :: u64

section \<open>Operations\<close>

definition transfer_new ::
  "device_id \<Rightarrow> transfer_id \<Rightarrow> transfer_metadata \<Rightarrow> transfer_direction \<Rightarrow> logical_transfer" where
  "transfer_new peer i metadata direction =
     \<lparr>lt_peer = peer, lt_transfer_id = i, lt_metadata = metadata, lt_direction = direction,
      lt_state = (case direction of Outgoing \<Rightarrow> St_Queued | Incoming \<Rightarrow> St_PendingOffer),
      lt_next_attempt = 0\<rparr>"

definition check_offset :: "u64 \<Rightarrow> logical_transfer \<Rightarrow> (transition_error, unit) result" where
  "check_offset offset t = (if tm_byte_len (lt_metadata t) < offset then Err InvalidOffset else Ok ())"

definition require_direction :: "transfer_direction \<Rightarrow> logical_transfer \<Rightarrow> (transition_error, unit) result" where
  "require_direction direction t = (if lt_direction t = direction then Ok () else Err WrongDirection)"

definition allocate_attempt ::
  "logical_transfer \<Rightarrow> (transition_error, transfer_attempt) result \<times> logical_transfer" where
  "allocate_attempt t =
     (case checked_add (lt_next_attempt t) 1 of
        None \<Rightarrow> (Err AttemptExhausted, t)
      | Some n \<Rightarrow> (Ok (TransferAttempt n), t\<lparr>lt_next_attempt := n\<rparr>))"

text \<open>A guard that reads the transfer, and the final assignment of the state.\<close>

definition guard :: "(logical_transfer \<Rightarrow> ('e, 'a) result) \<Rightarrow> logical_transfer \<Rightarrow> ('e, 'a) result \<times> logical_transfer" where
  "guard g t = (g t, t)"

definition set_state :: "transfer_state \<Rightarrow> 'a \<Rightarrow> logical_transfer \<Rightarrow> ('e, 'a) result \<times> logical_transfer" where
  "set_state s a t = (Ok a, t\<lparr>lt_state := s\<rparr>)"

definition offer_sent :: "logical_transfer \<Rightarrow> (transition_error, unit) result \<times> logical_transfer" where
  "offer_sent =
     st_bind (guard (require_direction Outgoing)) (\<lambda>_.
     st_bind (guard (\<lambda>t. if lt_state t \<in> {St_Queued, St_Paused, St_Offered} then Ok () else Err UnexpectedState)) (\<lambda>_.
     set_state St_Offered ()))"

definition accept_received :: "u64 \<Rightarrow> logical_transfer \<Rightarrow> (transition_error, unit) result \<times> logical_transfer" where
  "accept_received offset =
     st_bind (guard (require_direction Outgoing)) (\<lambda>_.
     st_bind (guard (check_offset offset)) (\<lambda>_.
     st_bind (guard (\<lambda>t. if lt_state t = St_Offered then Ok () else Err UnexpectedState)) (\<lambda>_.
     set_state (St_Accepted offset) ())))"

definition acceptance_persisted :: "u64 \<Rightarrow> logical_transfer \<Rightarrow> (transition_error, unit) result \<times> logical_transfer" where
  "acceptance_persisted offset =
     st_bind (guard (require_direction Incoming)) (\<lambda>_.
     st_bind (guard (check_offset offset)) (\<lambda>_.
     st_bind (guard (\<lambda>t. case lt_state t of
         St_PendingOffer \<Rightarrow> if offset = 0 then Ok () else Err UnexpectedState
       | St_Paused \<Rightarrow> Ok ()
       | St_Accepted _ \<Rightarrow> Ok ()
       | _ \<Rightarrow> Err UnexpectedState)) (\<lambda>_.
     set_state (St_Accepted offset) ())))"

definition replay_offer ::
  "transfer_metadata \<Rightarrow> u64 \<Rightarrow> logical_transfer \<Rightarrow> (transition_error, offer_replay) result" where
  "replay_offer metadata durable_offset t =
     and_then (require_direction Incoming t) (\<lambda>_.
       if metadata \<noteq> lt_metadata t then Err ConflictingMetadata
       else (case lt_state t of
           St_PendingOffer \<Rightarrow> Ok Replay_Pending
         | St_TerminalAwaitingAck status \<Rightarrow> Ok (Replay_Terminal status)
         | St_Settled status \<Rightarrow> Ok (Replay_Terminal status)
         | St_Accepted _ \<Rightarrow> and_then (check_offset durable_offset t) (\<lambda>_. Ok (Replay_Accept durable_offset))
         | St_Paused \<Rightarrow> and_then (check_offset durable_offset t) (\<lambda>_. Ok (Replay_Accept durable_offset))
         | St_Receiving _ \<Rightarrow> and_then (check_offset durable_offset t) (\<lambda>_. Ok (Replay_Accept durable_offset))
         | St_Completing _ \<Rightarrow> and_then (check_offset durable_offset t) (\<lambda>_. Ok (Replay_Accept durable_offset))
         | _ \<Rightarrow> Err UnexpectedState))"

definition start_send ::
  "logical_transfer \<Rightarrow> (transition_error, transfer_attempt \<times> u64) result \<times> logical_transfer" where
  "start_send =
     st_bind (guard (require_direction Outgoing)) (\<lambda>_.
     st_bind (guard (\<lambda>t. case lt_state t of St_Accepted offset \<Rightarrow> Ok offset | _ \<Rightarrow> Err UnexpectedState)) (\<lambda>offset.
     st_bind allocate_attempt (\<lambda>attempt.
     set_state (St_Sending attempt) (attempt, offset))))"

definition start_receive ::
  "data_stream_header \<Rightarrow> logical_transfer \<Rightarrow> (transition_error, transfer_attempt) result \<times> logical_transfer" where
  "start_receive header =
     st_bind (guard (require_direction Incoming)) (\<lambda>_.
     st_bind (guard (\<lambda>t. if dh_transfer_id header \<noteq> lt_transfer_id t then Err WrongTransfer else Ok ())) (\<lambda>_.
     st_bind (guard (\<lambda>t. map_err (\<lambda>_. InvalidOffset) (header_validate header (tm_byte_len (lt_metadata t))))) (\<lambda>_.
     st_bind (guard (\<lambda>t. if lt_state t \<noteq> St_Accepted (dh_offset header) then Err UnexpectedState else Ok ())) (\<lambda>_.
     st_bind allocate_attempt (\<lambda>attempt.
     set_state (St_Receiving attempt) attempt)))))"

definition send_finished :: "transfer_attempt \<Rightarrow> logical_transfer \<Rightarrow> (transition_error, unit) result \<times> logical_transfer" where
  "send_finished attempt =
     st_bind (guard (require_direction Outgoing)) (\<lambda>_.
     st_bind (guard (\<lambda>t. if lt_state t \<noteq> St_Sending attempt then Err StaleAttempt else Ok ())) (\<lambda>_.
     set_state (St_WaitingForTerminal attempt) ()))"

definition payload_verified :: "transfer_attempt \<Rightarrow> logical_transfer \<Rightarrow> (transition_error, unit) result \<times> logical_transfer" where
  "payload_verified attempt =
     st_bind (guard (require_direction Incoming)) (\<lambda>_.
     st_bind (guard (\<lambda>t. if lt_state t \<noteq> St_Receiving attempt then Err StaleAttempt else Ok ())) (\<lambda>_.
     set_state (St_Completing attempt) ()))"

definition current_attempt :: "logical_transfer \<Rightarrow> transfer_attempt option" where
  "current_attempt t =
     (case lt_state t of
        St_Sending a \<Rightarrow> Some a
      | St_Receiving a \<Rightarrow> Some a
      | St_Completing a \<Rightarrow> Some a
      | St_WaitingForTerminal a \<Rightarrow> Some a
      | _ \<Rightarrow> None)"

definition pause :: "logical_transfer \<Rightarrow> transfer_attempt option \<times> logical_transfer" where
  "pause t =
     (case lt_state t of
        St_Sending a \<Rightarrow> (Some a, t\<lparr>lt_state := St_Paused\<rparr>)
      | St_Receiving a \<Rightarrow> (Some a, t\<lparr>lt_state := St_Paused\<rparr>)
      | St_Completing a \<Rightarrow> (Some a, t\<lparr>lt_state := St_Paused\<rparr>)
      | St_WaitingForTerminal a \<Rightarrow> (Some a, t\<lparr>lt_state := St_Paused\<rparr>)
      | St_Offered \<Rightarrow> (None, t\<lparr>lt_state := St_Paused\<rparr>)
      | St_Accepted _ \<Rightarrow> (None, t\<lparr>lt_state := St_Paused\<rparr>)
      | _ \<Rightarrow> (None, t))"

definition terminal_status :: "logical_transfer \<Rightarrow> transfer_terminal_status option" where
  "terminal_status t =
     (case lt_state t of
        St_TerminalAwaitingAck s \<Rightarrow> Some s
      | St_Settled s \<Rightarrow> Some s
      | _ \<Rightarrow> None)"

text \<open>The checks of \<open>terminal_persisted\<close> for a transfer without a terminal state, in order.\<close>

definition terminal_allowed ::
  "transfer_terminal_status \<Rightarrow> transfer_attempt option \<Rightarrow> logical_transfer \<Rightarrow> (transition_error, unit) result" where
  "terminal_allowed status worker_attempt t =
     and_then (if status = Status_Completed then require_direction Incoming t else Ok ()) (\<lambda>_.
     and_then (case worker_attempt of
         Some attempt \<Rightarrow> if current_attempt t \<noteq> Some attempt then Err StaleAttempt else Ok ()
       | None \<Rightarrow> Ok ()) (\<lambda>_.
     case status of
       Status_Completed \<Rightarrow>
         and_then (ok_or worker_attempt StaleAttempt) (\<lambda>attempt.
           if lt_state t \<noteq> St_Completing attempt then Err StaleAttempt else Ok ())
     | Status_Rejected \<Rightarrow>
         and_then (require_direction Incoming t) (\<lambda>_.
           if lt_state t \<noteq> St_PendingOffer then Err UnexpectedState else Ok ())
     | _ \<Rightarrow> Ok ()))"

definition terminal_persisted ::
  "transfer_terminal_status \<Rightarrow> transfer_attempt option \<Rightarrow> logical_transfer \<Rightarrow>
     (transition_error, unit) result \<times> logical_transfer" where
  "terminal_persisted status worker_attempt t =
     (case terminal_status t of
        Some existing \<Rightarrow> (if existing = status then Ok () else Err ConflictingTerminal, t)
      | None \<Rightarrow>
          (case terminal_allowed status worker_attempt t of
             Err e \<Rightarrow> (Err e, t)
           | Ok _ \<Rightarrow> (Ok (), t\<lparr>lt_state := St_TerminalAwaitingAck status\<rparr>)))"

definition peer_terminal_persisted ::
  "transfer_terminal_status \<Rightarrow> logical_transfer \<Rightarrow> (transition_error, unit) result \<times> logical_transfer" where
  "peer_terminal_persisted status t =
     (if terminal_status t \<noteq> None then (Ok (), t)
      else (case (if status \<in> {Status_Completed, Status_Rejected} then require_direction Outgoing t else Ok ()) of
          Err e \<Rightarrow> (Err e, t)
        | Ok _ \<Rightarrow> (Ok (), t\<lparr>lt_state := St_Settled status\<rparr>)))"

definition terminal_ack_received :: "logical_transfer \<Rightarrow> (transition_error, unit) result \<times> logical_transfer" where
  "terminal_ack_received t =
     (case lt_state t of
        St_TerminalAwaitingAck status \<Rightarrow> (Ok (), t\<lparr>lt_state := St_Settled status\<rparr>)
      | St_Settled _ \<Rightarrow> (Ok (), t)
      | _ \<Rightarrow> (Err UnexpectedState, t))"

section \<open>The transfer as a transition system\<close>

text \<open>A reply carries the attempt an operation started or invalidated.\<close>

datatype transfer_op =
    Op_OfferSent
  | Op_AcceptReceived u64
  | Op_AcceptancePersisted u64
  | Op_StartSend
  | Op_StartReceive data_stream_header
  | Op_SendFinished transfer_attempt
  | Op_PayloadVerified transfer_attempt
  | Op_Pause
  | Op_TerminalPersisted transfer_terminal_status "transfer_attempt option"
  | Op_PeerTerminal transfer_terminal_status
  | Op_TerminalAck

fun transfer_exec ::
  "transfer_op \<Rightarrow> logical_transfer \<Rightarrow> (transition_error, transfer_attempt option) result \<times> logical_transfer" where
  "transfer_exec Op_OfferSent t = reply (\<lambda>_. None) (offer_sent t)"
| "transfer_exec (Op_AcceptReceived n) t = reply (\<lambda>_. None) (accept_received n t)"
| "transfer_exec (Op_AcceptancePersisted n) t = reply (\<lambda>_. None) (acceptance_persisted n t)"
| "transfer_exec Op_StartSend t = reply (\<lambda>(a, _). Some a) (start_send t)"
| "transfer_exec (Op_StartReceive h) t = reply Some (start_receive h t)"
| "transfer_exec (Op_SendFinished a) t = reply (\<lambda>_. None) (send_finished a t)"
| "transfer_exec (Op_PayloadVerified a) t = reply (\<lambda>_. None) (payload_verified a t)"
| "transfer_exec Op_Pause t = (case pause t of (a, t') \<Rightarrow> (Ok a, t'))"
| "transfer_exec (Op_TerminalPersisted st w) t = reply (\<lambda>_. None) (terminal_persisted st w t)"
| "transfer_exec (Op_PeerTerminal st) t = reply (\<lambda>_. None) (peer_terminal_persisted st t)"
| "transfer_exec Op_TerminalAck t = reply (\<lambda>_. None) (terminal_ack_received t)"

definition transfer_initial :: "logical_transfer \<Rightarrow> bool" where
  "transfer_initial t = (\<exists>peer i m d. t = transfer_new peer i m d)"

definition transfer_step :: "logical_transfer \<Rightarrow> logical_transfer \<Rightarrow> bool" where
  "transfer_step s t = (\<exists>op. t = snd (transfer_exec op s))"

text \<open>Attempts handed out so far, the attempt a worker's result names, and starting operations.\<close>

definition attempt_issued :: "logical_transfer \<Rightarrow> transfer_attempt \<Rightarrow> bool" where
  "attempt_issued t a = (0 < unat (attempt_number a) \<and> unat (attempt_number a) \<le> unat (lt_next_attempt t))"

fun op_attempt :: "transfer_op \<Rightarrow> transfer_attempt option" where
  "op_attempt (Op_SendFinished a) = Some a"
| "op_attempt (Op_PayloadVerified a) = Some a"
| "op_attempt (Op_TerminalPersisted _ w) = w"
| "op_attempt _ = None"

fun op_starts :: "transfer_op \<Rightarrow> bool" where
  "op_starts Op_StartSend = True"
| "op_starts (Op_StartReceive _) = True"
| "op_starts _ = False"

definition transfer_inv :: "logical_transfer \<Rightarrow> bool" where
  "transfer_inv t =
     (case lt_state t of
        St_Queued \<Rightarrow> lt_direction t = Outgoing
      | St_Offered \<Rightarrow> lt_direction t = Outgoing
      | St_PendingOffer \<Rightarrow> lt_direction t = Incoming
      | St_Accepted n \<Rightarrow> n \<le> tm_byte_len (lt_metadata t)
      | St_Sending a \<Rightarrow> lt_direction t = Outgoing \<and> attempt_issued t a
      | St_Receiving a \<Rightarrow> lt_direction t = Incoming \<and> attempt_issued t a
      | St_Completing a \<Rightarrow> lt_direction t = Incoming \<and> attempt_issued t a
      | St_WaitingForTerminal a \<Rightarrow> lt_direction t = Outgoing \<and> attempt_issued t a
      | St_Paused \<Rightarrow> True
      | St_TerminalAwaitingAck st \<Rightarrow> st \<in> {Status_Completed, Status_Rejected} \<longrightarrow> lt_direction t = Incoming
      | St_Settled _ \<Rightarrow> True)"

text \<open>What the successful operations of a run (\<open>S\<close>) account for in an incoming transfer.\<close>

definition accepted_in ::
  "(transfer_op \<times> (transition_error, transfer_attempt option) result) set \<Rightarrow> bool" where
  "accepted_in S = (\<exists>n. (Op_AcceptancePersisted n, Ok None) \<in> S)"

definition received_in ::
  "(transfer_op \<times> (transition_error, transfer_attempt option) result) set \<Rightarrow> logical_transfer \<Rightarrow>
     transfer_attempt \<Rightarrow> bool" where
  "received_in S t a = (\<exists>h. (Op_StartReceive h, Ok (Some a)) \<in> S \<and> dh_transfer_id h = lt_transfer_id t \<and>
     header_validate h (tm_byte_len (lt_metadata t)) = Ok ())"

definition transfer_history ::
  "(transfer_op \<times> (transition_error, transfer_attempt option) result) set \<Rightarrow> logical_transfer \<Rightarrow> bool" where
  "transfer_history S t =
     (lt_direction t = Incoming \<longrightarrow>
       (case lt_state t of
          St_PendingOffer \<Rightarrow> True
        | St_Receiving a \<Rightarrow> accepted_in S \<and> received_in S t a
        | St_Completing a \<Rightarrow> accepted_in S \<and> received_in S t a \<and> (Op_PayloadVerified a, Ok None) \<in> S
        | St_TerminalAwaitingAck Status_Completed \<Rightarrow> accepted_in S \<and>
            (\<exists>a. received_in S t a \<and> (Op_PayloadVerified a, Ok None) \<in> S \<and>
               (Op_TerminalPersisted Status_Completed (Some a), Ok None) \<in> S)
        | St_Settled Status_Completed \<Rightarrow> accepted_in S \<and>
            (\<exists>a. received_in S t a \<and> (Op_PayloadVerified a, Ok None) \<in> S \<and>
               (Op_TerminalPersisted Status_Completed (Some a), Ok None) \<in> S)
        | St_TerminalAwaitingAck _ \<Rightarrow> True
        | St_Settled _ \<Rightarrow> True
        | _ \<Rightarrow> accepted_in S))"

section \<open>The abstract lifecycle\<close>

text \<open>
  What a transfer promises to its owner: at most one worker at a time, each with a number one above all
  earlier ones, until an outcome that never changes. The number of attempts so far is part of the state.
\<close>

datatype lifecycle = Idle | Working nat | Finished transfer_terminal_status

inductive lifecycle_step :: "nat \<times> lifecycle \<Rightarrow> nat \<times> lifecycle \<Rightarrow> bool" where
  stay: "lifecycle_step l l"
| start: "Suc n < 2 ^ 64 \<Longrightarrow> lifecycle_step (n, Idle) (Suc n, Working (Suc n))"
| stop: "lifecycle_step (n, Working a) (n, Idle)"
| finish: "l = Idle \<or> l = Working a \<Longrightarrow> lifecycle_step (n, l) (n, Finished st)"

definition lifecycle_of :: "logical_transfer \<Rightarrow> nat \<times> lifecycle" where
  "lifecycle_of t = (unat (lt_next_attempt t),
     case terminal_status t of
       Some st \<Rightarrow> Finished st
     | None \<Rightarrow> (case current_attempt t of Some a \<Rightarrow> Working (unat (attempt_number a)) | None \<Rightarrow> Idle))"

section \<open>Example values\<close>

definition example_transfer :: "transfer_direction \<Rightarrow> logical_transfer" where
  "example_transfer d = transfer_new (DeviceId (replicate 32 1)) (TransferId (replicate 16 2))
     \<lparr>tm_file_name = TransferFileName ''notes.txt'', tm_byte_len = 5, tm_blake3 = replicate 32 0\<rparr> d"

definition completed_run :: "transfer_op list" where
  "completed_run = [Op_AcceptancePersisted 0, Op_StartReceive (BlobV1 (TransferId (replicate 16 2)) 0 5),
     Op_Pause, Op_AcceptancePersisted 3, Op_StartReceive (BlobV1 (TransferId (replicate 16 2)) 3 2),
     Op_PayloadVerified (TransferAttempt 2), Op_TerminalPersisted Status_Completed (Some (TransferAttempt 2)),
     Op_TerminalAck]"

section \<open>Lemmas\<close>

lemma guard_Ok [simp]: "guard g t = (Ok a, u) \<longleftrightarrow> g t = Ok a \<and> u = t"
  by (auto simp: guard_def)

lemma guard_Err [simp]: "guard g t = (Err e, u) \<longleftrightarrow> g t = Err e \<and> u = t"
  by (auto simp: guard_def)

lemma set_state_Ok [simp]: "set_state s a t = (Ok b, u) \<longleftrightarrow> b = a \<and> u = t\<lparr>lt_state := s\<rparr>"
  by (auto simp: set_state_def)

lemma set_state_Err [simp]: "set_state s a t \<noteq> (Err e, u)"
  by (simp add: set_state_def)

lemma require_direction_Ok [simp]: "require_direction d t = Ok u \<longleftrightarrow> lt_direction t = d"
  by (auto simp: require_direction_def)

lemma check_offset_Ok [simp]: "check_offset n t = Ok u \<longleftrightarrow> n \<le> tm_byte_len (lt_metadata t)"
  by (auto simp: check_offset_def not_less)

lemma allocate_attempt_Ok:
  "allocate_attempt t = (Ok a, u) \<longleftrightarrow>
     unat (lt_next_attempt t) + 1 < 2 ^ 64 \<and> a = TransferAttempt (lt_next_attempt t + 1) \<and>
     u = t\<lparr>lt_next_attempt := lt_next_attempt t + 1\<rparr>"
  by (auto simp: allocate_attempt_def checked_add_def)

lemma allocate_attempt_Err: "allocate_attempt t = (Err e, u) \<Longrightarrow> u = t"
  by (auto simp: allocate_attempt_def split: option.splits)

lemma unat_next: "unat (n :: u64) + 1 < 2 ^ 64 \<Longrightarrow> unat (n + 1) = unat n + 1"
  by (simp add: unat_word_ariths)

interpretation attempt_ids: id_allocator allocate_attempt attempt_issued
proof
  fix s i s'
  assume "allocate_attempt s = (Ok i, s')"
  then show "\<not> attempt_issued s i" and "attempt_issued s' i"
    by (auto simp: allocate_attempt_Ok attempt_issued_def unat_next)
next
  fix s r s' j
  assume "allocate_attempt s = (r, s')" and "attempt_issued s j"
  then show "attempt_issued s' j"
    by (cases r) (auto simp: allocate_attempt_Ok attempt_issued_def unat_next dest: allocate_attempt_Err)
qed

text \<open>Every operation either fails and changes nothing or makes exactly its transition.\<close>

lemma offer_sent_Ok: "offer_sent t = (Ok u, t') \<longleftrightarrow>
    lt_direction t = Outgoing \<and> lt_state t \<in> {St_Queued, St_Paused, St_Offered} \<and> t' = t\<lparr>lt_state := St_Offered\<rparr>"
  by (auto simp: offer_sent_def st_bind_Ok split: if_splits)

lemma accept_received_Ok: "accept_received n t = (Ok u, t') \<longleftrightarrow>
    lt_direction t = Outgoing \<and> n \<le> tm_byte_len (lt_metadata t) \<and> lt_state t = St_Offered \<and>
    t' = t\<lparr>lt_state := St_Accepted n\<rparr>"
  by (auto simp: accept_received_def st_bind_Ok split: if_splits)

lemma acceptance_persisted_Ok: "acceptance_persisted n t = (Ok u, t') \<longleftrightarrow>
    lt_direction t = Incoming \<and> n \<le> tm_byte_len (lt_metadata t) \<and>
    (lt_state t = St_PendingOffer \<and> n = 0 \<or> lt_state t = St_Paused \<or> (\<exists>m. lt_state t = St_Accepted m)) \<and>
    t' = t\<lparr>lt_state := St_Accepted n\<rparr>"
  by (cases "lt_state t") (auto simp: acceptance_persisted_def st_bind_Ok split: if_splits)

lemma start_send_Ok: "start_send t = (Ok (a, n), t') \<longleftrightarrow>
    lt_direction t = Outgoing \<and> lt_state t = St_Accepted n \<and> unat (lt_next_attempt t) + 1 < 2 ^ 64 \<and>
    a = TransferAttempt (lt_next_attempt t + 1) \<and>
    t' = t\<lparr>lt_next_attempt := lt_next_attempt t + 1, lt_state := St_Sending a\<rparr>"
  by (cases "lt_state t") (auto simp: start_send_def st_bind_Ok allocate_attempt_Ok)

lemma start_receive_Ok: "start_receive h t = (Ok a, t') \<longleftrightarrow>
    lt_direction t = Incoming \<and> dh_transfer_id h = lt_transfer_id t \<and>
    header_validate h (tm_byte_len (lt_metadata t)) = Ok () \<and> lt_state t = St_Accepted (dh_offset h) \<and>
    unat (lt_next_attempt t) + 1 < 2 ^ 64 \<and> a = TransferAttempt (lt_next_attempt t + 1) \<and>
    t' = t\<lparr>lt_next_attempt := lt_next_attempt t + 1, lt_state := St_Receiving a\<rparr>"
  by (auto simp: start_receive_def st_bind_Ok allocate_attempt_Ok split: if_splits)

lemma send_finished_Ok: "send_finished a t = (Ok u, t') \<longleftrightarrow>
    lt_direction t = Outgoing \<and> lt_state t = St_Sending a \<and> t' = t\<lparr>lt_state := St_WaitingForTerminal a\<rparr>"
  by (auto simp: send_finished_def st_bind_Ok split: if_splits)

lemma payload_verified_Ok: "payload_verified a t = (Ok u, t') \<longleftrightarrow>
    lt_direction t = Incoming \<and> lt_state t = St_Receiving a \<and> t' = t\<lparr>lt_state := St_Completing a\<rparr>"
  by (auto simp: payload_verified_def st_bind_Ok split: if_splits)

lemma terminal_allowed_Ok: "terminal_allowed st w t = Ok u \<longleftrightarrow>
    (w = None \<or> current_attempt t = w) \<and>
    (case st of
       Status_Completed \<Rightarrow> lt_direction t = Incoming \<and> (\<exists>a. w = Some a \<and> lt_state t = St_Completing a)
     | Status_Rejected \<Rightarrow> lt_direction t = Incoming \<and> lt_state t = St_PendingOffer
     | _ \<Rightarrow> True)"
  by (cases st; cases w) (auto simp: terminal_allowed_def result_simps split: if_splits)

lemma terminal_persisted_Ok: "terminal_persisted st w t = (Ok u, t') \<longleftrightarrow>
    (terminal_status t = Some st \<and> t' = t) \<or>
    (terminal_status t = None \<and> terminal_allowed st w t = Ok () \<and> t' = t\<lparr>lt_state := St_TerminalAwaitingAck st\<rparr>)"
  by (cases "terminal_status t"; cases "terminal_allowed st w t") (auto simp: terminal_persisted_def)

lemma peer_terminal_persisted_Ok: "peer_terminal_persisted st t = (Ok u, t') \<longleftrightarrow>
    (terminal_status t \<noteq> None \<and> t' = t) \<or>
    (terminal_status t = None \<and> (st \<in> {Status_Completed, Status_Rejected} \<longrightarrow> lt_direction t = Outgoing) \<and>
     t' = t\<lparr>lt_state := St_Settled st\<rparr>)"
  by (cases "require_direction Outgoing t")
    (auto simp: peer_terminal_persisted_def require_direction_def split: if_splits)

lemma terminal_ack_received_Ok: "terminal_ack_received t = (Ok u, t') \<longleftrightarrow>
    (\<exists>st. (lt_state t = St_TerminalAwaitingAck st \<or> lt_state t = St_Settled st) \<and> t' = t\<lparr>lt_state := St_Settled st\<rparr>)"
  by (cases "lt_state t") (auto simp: terminal_ack_received_def)

lemma pause_result: "pause t = (a, t') \<longleftrightarrow> a = current_attempt t \<and>
    t' = (if current_attempt t \<noteq> None \<or> lt_state t = St_Offered \<or> (\<exists>n. lt_state t = St_Accepted n)
          then t\<lparr>lt_state := St_Paused\<rparr> else t)"
  by (cases "lt_state t") (auto simp: pause_def current_attempt_def)

lemmas transfer_ops_Ok = offer_sent_Ok accept_received_Ok acceptance_persisted_Ok start_send_Ok start_receive_Ok
  send_finished_Ok payload_verified_Ok terminal_persisted_Ok peer_terminal_persisted_Ok terminal_ack_received_Ok

lemma transfer_ops_Err:
  "offer_sent t = (Err e, t') \<Longrightarrow> t' = t"
  "accept_received n t = (Err e, t') \<Longrightarrow> t' = t"
  "acceptance_persisted n t = (Err e, t') \<Longrightarrow> t' = t"
  "start_send t = (Err e, t') \<Longrightarrow> t' = t"
  "start_receive h t = (Err e, t') \<Longrightarrow> t' = t"
  "send_finished a t = (Err e, t') \<Longrightarrow> t' = t"
  "payload_verified a t = (Err e, t') \<Longrightarrow> t' = t"
  "terminal_persisted st w t = (Err e, t') \<Longrightarrow> t' = t"
  "peer_terminal_persisted st t = (Err e, t') \<Longrightarrow> t' = t"
  "terminal_ack_received t = (Err e, t') \<Longrightarrow> t' = t"
  by (auto simp: offer_sent_def accept_received_def acceptance_persisted_def start_send_def start_receive_def
      send_finished_def payload_verified_def terminal_persisted_def peer_terminal_persisted_def
      terminal_ack_received_def st_bind_Err dest: allocate_attempt_Err
      split: option.splits sum.splits transfer_state.splits if_splits)

lemma transfer_exec_Err: "transfer_exec op t = (Err e, t') \<Longrightarrow> t' = t"
  by (cases op) (auto simp: reply_Err dest: transfer_ops_Err split: prod.splits)

lemma transfer_exec_Ok_inv: "transfer_exec op t = (Ok r, t') \<Longrightarrow> transfer_inv t \<Longrightarrow> transfer_inv t'"
  by (cases op)
    (auto simp: reply_Ok transfer_ops_Ok pause_result transfer_inv_def terminal_allowed_Ok attempt_issued_def unat_next
      split: prod.splits if_splits transfer_terminal_status.splits)

lemma transfer_exec_inv: "transfer_inv t \<Longrightarrow> transfer_inv (snd (transfer_exec op t))"
  by (cases "transfer_exec op t"; cases "fst (transfer_exec op t)")
    (auto dest: transfer_exec_Err transfer_exec_Ok_inv)

lemma transfer_new_inv: "transfer_inv (transfer_new peer i m d)"
  by (cases d) (simp_all add: transfer_new_def transfer_inv_def)

interpretation transfer_machine: invariant_machine transfer_initial transfer_step transfer_inv
proof
  fix s
  show "transfer_initial s \<Longrightarrow> transfer_inv s"
    by (auto simp: transfer_initial_def transfer_new_inv)
next
  fix s t
  show "transfer_inv s \<Longrightarrow> transfer_step s t \<Longrightarrow> transfer_inv t"
    using transfer_exec_inv by (auto simp: transfer_step_def)
qed

text \<open>The identity of a transfer never changes.\<close>

lemma transfer_exec_Ok_frame:
  "transfer_exec op t = (Ok r, t') \<Longrightarrow> lt_peer t' = lt_peer t \<and> lt_transfer_id t' = lt_transfer_id t \<and>
     lt_metadata t' = lt_metadata t \<and> lt_direction t' = lt_direction t"
  by (cases op) (auto simp: reply_Ok transfer_ops_Ok pause_result split: prod.splits if_splits)

lemma transfer_exec_frame:
  "transfer_exec op t = (r, t') \<Longrightarrow> lt_peer t' = lt_peer t \<and> lt_transfer_id t' = lt_transfer_id t \<and>
     lt_metadata t' = lt_metadata t \<and> lt_direction t' = lt_direction t"
  by (cases r) (auto dest: transfer_exec_Err transfer_exec_Ok_frame)

text \<open>Fencing of superseded attempts.\<close>

lemma current_attempt_simps [simp]:
  "current_attempt (t\<lparr>lt_state := s\<rparr>) = (case s of St_Sending a \<Rightarrow> Some a | St_Receiving a \<Rightarrow> Some a
     | St_Completing a \<Rightarrow> Some a | St_WaitingForTerminal a \<Rightarrow> Some a | _ \<Rightarrow> None)"
  by (simp add: current_attempt_def)

lemma transfer_exec_fence:
  assumes "attempt_issued s a" and "current_attempt s \<noteq> Some a" and "transfer_exec op s = (r, t)"
  shows "attempt_issued t a \<and> current_attempt t \<noteq> Some a \<and> \<not> (op_starts op \<and> r = Ok (Some a))"
proof (cases r)
  case (Inl e)
  with assms transfer_exec_Err show ?thesis by blast
next
  case (Inr x)
  have "\<not> attempt_issued s (TransferAttempt (lt_next_attempt s + 1))" if "unat (lt_next_attempt s) + 1 < 2 ^ 64"
    using that by (simp add: attempt_issued_def unat_next)
  with assms(1) have fresh: "a \<noteq> TransferAttempt (lt_next_attempt s + 1)" if "unat (lt_next_attempt s) + 1 < 2 ^ 64"
    using that by auto
  show ?thesis
    using Inr assms fresh
    by (cases op)
      (auto simp: reply_Ok transfer_ops_Ok pause_result attempt_issued_def unat_next current_attempt_def
        split: prod.splits if_splits)
qed

lemma superseded_inert:
  assumes "current_attempt t \<noteq> Some a" and "op_attempt op = Some a"
  shows "snd (transfer_exec op t) = t"
proof -
  obtain r u where run: "transfer_exec op t = (r, u)" by fastforce
  have "u = t"
  proof (cases r)
    case (Inl e)
    with run transfer_exec_Err show ?thesis by auto
  next
    case (Inr x)
    with assms run show ?thesis
      by (cases op) (auto simp: reply_Ok transfer_ops_Ok terminal_allowed_Ok current_attempt_def)
  qed
  with run show ?thesis by simp
qed

lemma transfer_run_fence:
  "attempt_issued s a \<Longrightarrow> current_attempt s \<noteq> Some a \<Longrightarrow> run_ops transfer_exec ops s = (rs, t) \<Longrightarrow>
     attempt_issued t a \<and> current_attempt t \<noteq> Some a \<and>
     (\<forall>op r. (op, r) \<in> set (zip ops rs) \<longrightarrow> \<not> (op_starts op \<and> r = Ok (Some a)))"
proof (induction ops arbitrary: s rs)
  case Nil
  then show ?case by simp
next
  case (Cons op ops)
  obtain r s1 where step: "transfer_exec op s = (r, s1)" by fastforce
  obtain rs1 where rest: "run_ops transfer_exec ops s1 = (rs1, t)" and rs: "rs = r # rs1"
    using Cons.prems(3) step by (auto split: prod.splits)
  from transfer_exec_fence [OF Cons.prems(1,2) step] Cons.IH [OF _ _ rest] rs show ?case by auto
qed

text \<open>Terminal outcomes are final.\<close>

lemma transfer_exec_terminal:
  assumes "terminal_status s = Some st" and "transfer_exec op s = (r, t)"
  shows "terminal_status t = Some st \<and> \<not> (op_starts op \<and> is_ok r)"
proof (cases r)
  case (Inl e)
  with assms transfer_exec_Err show ?thesis by auto
next
  case (Inr x)
  with assms show ?thesis
    by (cases op)
      (auto simp: reply_Ok transfer_ops_Ok pause_result terminal_status_def current_attempt_def
        split: prod.splits if_splits transfer_state.splits)
qed

lemma transfer_run_terminal:
  "terminal_status s = Some st \<Longrightarrow> run_ops transfer_exec ops s = (rs, t) \<Longrightarrow>
     terminal_status t = Some st \<and> (\<forall>op r. (op, r) \<in> set (zip ops rs) \<longrightarrow> \<not> (op_starts op \<and> is_ok r))"
proof (induction ops arbitrary: s rs)
  case Nil
  then show ?case by simp
next
  case (Cons op ops)
  obtain r s1 where step: "transfer_exec op s = (r, s1)" by fastforce
  obtain rs1 where rest: "run_ops transfer_exec ops s1 = (rs1, t)" and rs: "rs = r # rs1"
    using Cons.prems(2) step by (auto split: prod.splits)
  from transfer_exec_terminal [OF Cons.prems(1) step] Cons.IH [OF _ rest] rs show ?case by (auto simp del: is_ok_iff)
qed

text \<open>What a run accounts for.\<close>

lemma accepted_in_mono: "accepted_in S \<Longrightarrow> S \<subseteq> T \<Longrightarrow> accepted_in T"
  by (auto simp: accepted_in_def)

lemma received_in_mono: "received_in S t a \<Longrightarrow> S \<subseteq> T \<Longrightarrow> received_in T t a"
  by (auto simp: received_in_def)

lemma received_in_update [simp]:
  "received_in S (t\<lparr>lt_state := x\<rparr>) a = received_in S t a"
  "received_in S (t\<lparr>lt_next_attempt := n\<rparr>) a = received_in S t a"
  by (simp_all add: received_in_def)

lemma transfer_history_mono:
  assumes "transfer_history S t" and "S \<subseteq> T"
  shows "transfer_history T t"
  using assms accepted_in_mono [of S T] received_in_mono [of S t _ T]
  by (cases "lt_state t") (auto simp: transfer_history_def split: transfer_terminal_status.splits)

lemma transfer_exec_Ok_history:
  assumes "transfer_inv t" and "transfer_history S t" and "transfer_exec op t = (Ok r, t')" and "(op, Ok r) \<in> S"
  shows "transfer_history S t'"
proof (cases "lt_direction t")
  case Outgoing
  with transfer_exec_Ok_frame [OF assms(3)] show ?thesis by (simp add: transfer_history_def)
next
  case Incoming
  note base = assms Incoming
  show ?thesis
  proof (cases op)
    case (Op_AcceptancePersisted n)
    then have "accepted_in S" using base by (auto simp: accepted_in_def reply_Ok)
    with Op_AcceptancePersisted base show ?thesis
      by (auto simp: reply_Ok acceptance_persisted_Ok transfer_history_def)
  next
    case (Op_StartReceive h)
    then have "received_in S t (the r)" using base by (auto simp: received_in_def reply_Ok start_receive_Ok)
    with Op_StartReceive base show ?thesis
      by (auto simp: reply_Ok start_receive_Ok transfer_history_def)
  next
    case (Op_TerminalPersisted st w)
    with base show ?thesis
      by (cases st)
        (auto simp: reply_Ok terminal_persisted_Ok terminal_allowed_Ok transfer_history_def terminal_status_def)
  next
    case (Op_PeerTerminal st)
    with base show ?thesis
      by (cases st) (auto simp: reply_Ok peer_terminal_persisted_Ok transfer_history_def)
  next
    case Op_TerminalAck
    with base show ?thesis
      by (auto simp: reply_Ok terminal_ack_received_Ok transfer_history_def split: transfer_terminal_status.splits)
  next
    case Op_Pause
    with base show ?thesis
      by (cases "lt_state t") (auto simp: pause_def transfer_history_def)
  qed (use base in \<open>auto simp: reply_Ok transfer_ops_Ok transfer_history_def\<close>)
qed

lemma transfer_exec_history:
  assumes "transfer_inv t" and "transfer_history S t" and "transfer_exec op t = (r, t')"
  shows "transfer_history (insert (op, r) S) t'"
proof (cases r)
  case (Inl e)
  with assms transfer_exec_Err have "t' = t" by blast
  with assms(2) show ?thesis by (auto intro: transfer_history_mono)
next
  case (Inr x)
  have "transfer_history (insert (op, r) S) t" using assms(2) by (auto intro: transfer_history_mono)
  with Inr transfer_exec_Ok_history [OF assms(1)] assms(3) show ?thesis by simp
qed

lemma transfer_run_history:
  "transfer_inv t \<Longrightarrow> transfer_history S t \<Longrightarrow> run_ops transfer_exec ops t = (rs, t') \<Longrightarrow>
     transfer_inv t' \<and> transfer_history (S \<union> set (zip ops rs)) t' \<and> lt_direction t' = lt_direction t"
proof (induction ops arbitrary: t rs S)
  case Nil
  then show ?case by simp
next
  case (Cons op ops)
  obtain r t1 where step: "transfer_exec op t = (r, t1)" by fastforce
  obtain rs1 where rest: "run_ops transfer_exec ops t1 = (rs1, t')" and rs: "rs = r # rs1"
    using Cons.prems(3) step by (auto split: prod.splits)
  have "transfer_inv t1" using transfer_exec_inv [OF Cons.prems(1), of op] step by simp
  moreover have "transfer_history (insert (op, r) S) t1"
    using transfer_exec_history [OF Cons.prems(1,2) step] .
  ultimately show ?case using Cons.IH [OF _ _ rest] transfer_exec_frame [OF step] rs by fastforce
qed

lemma reachable_transfer_run:
  "reachable transfer_initial transfer_step s \<Longrightarrow>
     reachable transfer_initial transfer_step (snd (run_ops transfer_exec ops s))"
proof (induction ops arbitrary: s)
  case Nil
  then show ?case by simp
next
  case (Cons op ops)
  have "reachable transfer_initial transfer_step (snd (transfer_exec op s))"
    by (rule reach_step [OF Cons.prems]) (auto simp: transfer_step_def)
  from Cons.IH [OF this] show ?case by (simp add: case_prod_beta)
qed

lemma reachable_example: "reachable transfer_initial transfer_step (example_transfer d)"
  by (rule reach_init) (auto simp: transfer_initial_def example_transfer_def)

text \<open>Simulation of the abstract lifecycle.\<close>

lemma lifecycle_working: "terminal_status s = None \<Longrightarrow> current_attempt s = Some a \<Longrightarrow>
    lifecycle_of s = (unat (lt_next_attempt s), Working (unat (attempt_number a)))"
  by (simp add: lifecycle_of_def)

lemma lifecycle_idle: "terminal_status s = None \<Longrightarrow> current_attempt s = None \<Longrightarrow>
    lifecycle_of s = (unat (lt_next_attempt s), Idle)"
  by (simp add: lifecycle_of_def)

lemma lifecycle_finish:
  assumes "terminal_status s = None" and "terminal_status t = Some st" and "lt_next_attempt t = lt_next_attempt s"
  shows "lifecycle_step (lifecycle_of s) (lifecycle_of t)"
  using assms by (cases "current_attempt s") (auto simp: lifecycle_of_def intro: lifecycle_step.finish)

lemma transfer_exec_Ok_lifecycle:
  assumes "transfer_exec op s = (Ok r, t)"
  shows "lifecycle_step (lifecycle_of s) (lifecycle_of t)"
proof (cases op)
  case Op_StartSend
  with assms obtain n where "lt_state s = St_Accepted n" "unat (lt_next_attempt s) + 1 < 2 ^ 64"
    "t = s\<lparr>lt_next_attempt := lt_next_attempt s + 1, lt_state := St_Sending (TransferAttempt (lt_next_attempt s + 1))\<rparr>"
    by (auto simp: reply_Ok start_send_Ok)
  then show ?thesis
    using lifecycle_step.start [of "unat (lt_next_attempt s)"]
    by (simp add: lifecycle_of_def terminal_status_def current_attempt_def unat_next)
next
  case (Op_StartReceive h)
  with assms have "lt_state s = St_Accepted (dh_offset h)" "unat (lt_next_attempt s) + 1 < 2 ^ 64"
    "t = s\<lparr>lt_next_attempt := lt_next_attempt s + 1, lt_state := St_Receiving (TransferAttempt (lt_next_attempt s + 1))\<rparr>"
    by (auto simp: reply_Ok start_receive_Ok)
  then show ?thesis
    using lifecycle_step.start [of "unat (lt_next_attempt s)"]
    by (simp add: lifecycle_of_def terminal_status_def current_attempt_def unat_next)
next
  case Op_Pause
  with assms show ?thesis
    by (cases "lt_state s")
      (auto simp: pause_def lifecycle_of_def terminal_status_def current_attempt_def intro: lifecycle_step.stay lifecycle_step.stop)
next
  case (Op_TerminalPersisted st w)
  with assms consider "t = s" | "terminal_status s = None" "t = s\<lparr>lt_state := St_TerminalAwaitingAck st\<rparr>"
    by (auto simp: reply_Ok terminal_persisted_Ok)
  then show ?thesis
    by cases (auto simp: terminal_status_def intro: lifecycle_step.stay lifecycle_finish)
next
  case (Op_PeerTerminal st)
  with assms consider "t = s" | "terminal_status s = None" "t = s\<lparr>lt_state := St_Settled st\<rparr>"
    by (auto simp: reply_Ok peer_terminal_persisted_Ok)
  then show ?thesis
    by cases (auto simp: terminal_status_def intro: lifecycle_step.stay lifecycle_finish)
qed (use assms in \<open>auto simp: reply_Ok transfer_ops_Ok lifecycle_of_def terminal_status_def current_attempt_def
       intro: lifecycle_step.stay\<close>)

lemma transfer_exec_lifecycle: "lifecycle_step (lifecycle_of s) (lifecycle_of (snd (transfer_exec op s)))"
proof (cases "fst (transfer_exec op s)")
  case (Inl e)
  then have "snd (transfer_exec op s) = s" by (metis prod.collapse transfer_exec_Err)
  then show ?thesis by (simp add: lifecycle_step.stay)
next
  case (Inr r)
  then show ?thesis by (metis prod.collapse transfer_exec_Ok_lifecycle)
qed

lemmas transfer_eval = reply_def st_bind_def guard_def set_state_def require_direction_def check_offset_def
  allocate_attempt_def checked_add_def header_validate_def MAX_TRANSFER_BYTES_def acceptance_persisted_def
  start_receive_def pause_def payload_verified_def terminal_persisted_def terminal_allowed_def terminal_status_def
  current_attempt_def terminal_ack_received_def

lemma example_run:
  "run_ops transfer_exec (take 3 completed_run) (example_transfer Incoming) =
     ([Ok None, Ok (Some (TransferAttempt 1)), Ok (Some (TransferAttempt 1))],
      (example_transfer Incoming)\<lparr>lt_state := St_Paused, lt_next_attempt := 1\<rparr>)"
  "run_ops transfer_exec completed_run (example_transfer Incoming) =
     ([Ok None, Ok (Some (TransferAttempt 1)), Ok (Some (TransferAttempt 1)), Ok None,
       Ok (Some (TransferAttempt 2)), Ok None, Ok None, Ok None],
      (example_transfer Incoming)\<lparr>lt_state := St_Settled Status_Completed, lt_next_attempt := 2\<rparr>)"
  by (simp_all add: completed_run_def example_transfer_def transfer_new_def transfer_eval)

section \<open>Properties\<close>

text \<open>
  C26: a superseded attempt is inert for ever. Once an attempt number was handed out and is no longer the
  current one, no sequence of operations makes it current again or hands it out again, and any worker
  result that still names it leaves the transfer unchanged.
\<close>

theorem superseded_attempt_is_inert:
  assumes "attempt_issued s a" and "current_attempt s \<noteq> Some a" and "run_ops transfer_exec ops s = (rs, t)"
  shows "current_attempt t \<noteq> Some a \<and>
    (\<forall>op. op_attempt op = Some a \<longrightarrow> snd (transfer_exec op t) = t) \<and>
    (\<forall>op. op_starts op \<longrightarrow> (op, Ok (Some a)) \<notin> set (zip ops rs))"
  using transfer_run_fence [OF assms] superseded_inert by blast

theorem superseded_attempt_is_inert_witness:
  "let s = snd (run_ops transfer_exec (take 3 completed_run) (example_transfer Incoming));
       t = snd (run_ops transfer_exec [Op_AcceptancePersisted 3,
             Op_StartReceive (BlobV1 (TransferId (replicate 16 2)) 3 2)] s) in
     attempt_issued s (TransferAttempt 1) \<and>
     snd (transfer_exec (Op_PayloadVerified (TransferAttempt 1)) t) = t"
proof -
  let ?s = "snd (run_ops transfer_exec (take 3 completed_run) (example_transfer Incoming))"
  let ?ops = "[Op_AcceptancePersisted 3, Op_StartReceive (BlobV1 (TransferId (replicate 16 2)) 3 2)]"
  have "attempt_issued ?s (TransferAttempt 1)" "current_attempt ?s \<noteq> Some (TransferAttempt 1)"
    by (simp_all add: example_run(1) attempt_issued_def current_attempt_def)
  moreover obtain rs t where run: "run_ops transfer_exec ?ops ?s = (rs, t)" by fastforce
  moreover have "op_attempt (Op_PayloadVerified (TransferAttempt 1)) = Some (TransferAttempt 1)" by simp
  ultimately show ?thesis using superseded_attempt_is_inert [OF _ _ run]
    unfolding Let_def run snd_conv by blast
qed

text \<open>
  Terminal outcomes are final. Once a transfer has a terminal outcome, every sequence of operations
  keeps exactly that outcome, and none of them starts another attempt.
\<close>

theorem transfer_terminal_final:
  assumes "terminal_status s = Some st" and "run_ops transfer_exec ops s = (rs, t)"
  shows "terminal_status t = Some st \<and> current_attempt t = None \<and>
    (\<forall>op r. (op, r) \<in> set (zip ops rs) \<and> op_starts op \<longrightarrow> (\<exists>e. r = Err e))"
proof -
  have "current_attempt t = None" if "terminal_status t = Some st"
    using that by (auto simp: terminal_status_def current_attempt_def split: transfer_state.splits)
  moreover have "\<exists>e. r = Err e" if "\<not> is_ok r" for r :: "(transition_error, transfer_attempt option) result"
    using that by (cases r) auto
  ultimately show ?thesis using transfer_run_terminal [OF assms] by blast
qed

theorem transfer_terminal_final_witness:
  "let s = snd (run_ops transfer_exec completed_run (example_transfer Incoming)) in
     terminal_status (snd (run_ops transfer_exec [Op_Pause, Op_TerminalPersisted Status_Cancelled None] s)) =
       Some Status_Completed"
proof -
  let ?s = "snd (run_ops transfer_exec completed_run (example_transfer Incoming))"
  let ?ops = "[Op_Pause, Op_TerminalPersisted Status_Cancelled None]"
  have "terminal_status ?s = Some Status_Completed" by (simp add: example_run(2) terminal_status_def)
  moreover obtain rs t where run: "run_ops transfer_exec ?ops ?s = (rs, t)" by fastforce
  ultimately show ?thesis using transfer_terminal_final [OF _ run]
    unfolding Let_def run snd_conv by blast
qed

text \<open>
  C17: an incoming transfer completes only through verification. In any run from a new incoming transfer
  that ends with the outcome completed, the acceptance was persisted, a data stream of exactly this
  transfer with a valid range started an attempt, that same attempt was verified, and its completion was
  persisted.
\<close>

theorem incoming_completes_verified:
  assumes "run_ops transfer_exec ops (transfer_new peer i m Incoming) = (rs, t)"
    and "terminal_status t = Some Status_Completed"
  shows "\<exists>n h a. {(Op_AcceptancePersisted n, Ok None), (Op_StartReceive h, Ok (Some a)),
      (Op_PayloadVerified a, Ok None), (Op_TerminalPersisted Status_Completed (Some a), Ok None)} \<subseteq> set (zip ops rs) \<and>
    dh_transfer_id h = i \<and> header_validate h (tm_byte_len m) = Ok ()"
proof -
  have start: "transfer_history {} (transfer_new peer i m Incoming)"
    by (simp add: transfer_history_def transfer_new_def)
  have frame: "run_ops transfer_exec ops s = (rs, t) \<Longrightarrow> lt_transfer_id t = lt_transfer_id s \<and> lt_metadata t = lt_metadata s"
    for ops s rs t
  proof (induction ops arbitrary: s rs)
    case (Cons op ops)
    then show ?case by (fastforce split: prod.splits dest: transfer_exec_frame)
  qed simp
  from transfer_run_history [OF transfer_new_inv start assms(1)] frame [OF assms(1)] assms(2) show ?thesis
    by (auto simp: transfer_history_def terminal_status_def accepted_in_def received_in_def transfer_new_def
        split: transfer_state.splits)
qed

theorem incoming_completes_verified_witness:
  "let (rs, t) = run_ops transfer_exec completed_run (example_transfer Incoming) in
     terminal_status t = Some Status_Completed \<and> (\<exists>a. (Op_PayloadVerified a, Ok None) \<in> set (zip completed_run rs))"
proof -
  obtain rs t where run: "run_ops transfer_exec completed_run (example_transfer Incoming) = (rs, t)" by fastforce
  have "terminal_status (snd (run_ops transfer_exec completed_run (example_transfer Incoming))) = Some Status_Completed"
    by (simp add: example_run(2) terminal_status_def)
  then have st: "terminal_status t = Some Status_Completed" using run by simp
  have "\<exists>a. (Op_PayloadVerified a, Ok None) \<in> set (zip completed_run rs)"
    using incoming_completes_verified [OF run [unfolded example_transfer_def] st] by blast
  with run st show ?thesis by simp
qed

text \<open>
  C27: a logical transfer implements the abstract lifecycle. Every operation, successful or not, is a step
  of the lifecycle (or none), so any run of operations is a run of the lifecycle: one worker at a time,
  numbered without gaps below the 64-bit limit, and an outcome that ends everything.
\<close>

theorem transfer_refines_lifecycle:
  "lifecycle_step (lifecycle_of s) (lifecycle_of (snd (transfer_exec op s))) \<and>
   lifecycle_step\<^sup>*\<^sup>* (lifecycle_of s) (lifecycle_of (snd (run_ops transfer_exec ops s)))"
proof -
  have "lifecycle_step\<^sup>*\<^sup>* (lifecycle_of s) (lifecycle_of (snd (run_ops transfer_exec ops s)))"
  proof (induction ops arbitrary: s)
    case (Cons op ops)
    from transfer_exec_lifecycle [of s op] Cons.IH [of "snd (transfer_exec op s)"] show ?case
      by (simp add: case_prod_beta)
  qed simp
  with transfer_exec_lifecycle show ?thesis by blast
qed

end
