(* ===== verification/Transfer_Stream.thy ===== *)
theory Transfer_Stream
  imports Transfer_Wire Io_Streams
begin

text \<open>
  The payload loops of \<open>crates/rift-transfer/src/streaming.rs\<close> and the source preparation of
  \<open>crates/rift-transfer/src/source.rs\<close>. The world of one attempt is the local file (source or
  staging), the incoming and outgoing stream, the progress reports, and a schedule of what the
  environment does to each awaited step: cancel it, let it expire, fail it, or complete it with at
  most some number of bytes. Another process may rewrite a source file before any operation on it.
  A hasher is the bytes it absorbed. Byte counts are natural numbers; every count in a loop is at
  most the 64-bit length of the file.
\<close>

section \<open>The world of an attempt\<close>

definition STREAM_BUFFER_SIZE :: nat where
  "STREAM_BUFFER_SIZE = 64 * 1024"

datatype transfer_io_error =
    Io_Cancelled
  | Io_IdleTimeout
  | Io_InvalidIdleTimeout
  | Io_InvalidRange
  | Io_SourceChanged
  | Io_ShortPayload
  | Io_ExtraPayload
  | Io_Integrity
  | Io_InvalidPartial
  | Io_LocalIo io_error_kind
  | Io_StreamIo io_error_kind

datatype step_event = Cancel | Expire | Fault io_error_kind | Go nat

record disk_file =
  df_regular :: bool
  df_bytes :: bytes
  df_pos :: nat
  df_rewrites :: "bytes option list"

record progress =
  pg_last :: nat
  pg_step :: nat
  pg_reports :: "nat list"

record attempt_world =
  aw_schedule :: "step_event list"
  aw_file :: disk_file
  aw_in :: reader
  aw_out :: writer
  aw_progress :: progress

definition control_new :: "nat \<Rightarrow> (transfer_io_error, unit) result" where
  "control_new idle_timeout = (if idle_timeout = 0 then Err Io_InvalidIdleTimeout else Ok ())"

text \<open>
  One awaited operation. It is told the largest number of bytes it may move (\<open>None\<close>: no limit); an
  operation that would wait forever meets the idle deadline.
\<close>

type_synonym 'a file_op = "nat option \<Rightarrow> attempt_world \<Rightarrow> (io_error_kind, 'a) result poll \<times> attempt_world"

definition settle ::
  "(io_error_kind \<Rightarrow> transfer_io_error) \<Rightarrow> (io_error_kind, 'a) result poll \<times> attempt_world \<Rightarrow>
     (transfer_io_error, 'a) result \<times> attempt_world" where
  "settle wrap r =
     (case r of
        (Pending, w) \<Rightarrow> (Err Io_IdleTimeout, w)
      | (Ready a, w) \<Rightarrow> (map_err wrap a, w))"

definition control_step ::
  "(io_error_kind \<Rightarrow> transfer_io_error) \<Rightarrow> 'a file_op \<Rightarrow> attempt_world \<Rightarrow>
     (transfer_io_error, 'a) result \<times> attempt_world" where
  "control_step wrap op w =
     (case aw_schedule w of
        [] \<Rightarrow> settle wrap (op None w)
      | ev # evs \<Rightarrow>
          (let w' = w\<lparr>aw_schedule := evs\<rparr> in
           case ev of
             Cancel \<Rightarrow> (Err Io_Cancelled, w')
           | Expire \<Rightarrow> (Err Io_IdleTimeout, w')
           | Fault k \<Rightarrow> (Err (wrap k), w')
           | Go k \<Rightarrow> settle wrap (op (Some k) w')))"

section \<open>Operations on files and streams\<close>

definition budget :: "nat option \<Rightarrow> nat \<Rightarrow> nat" where
  "budget limit n = (case limit of None \<Rightarrow> n | Some k \<Rightarrow> min k n)"

text \<open>A read of available bytes returns at least one of them.\<close>

definition read_count :: "nat option \<Rightarrow> nat \<Rightarrow> nat" where
  "read_count limit n = (if n = 0 then 0 else max 1 (budget limit n))"

definition file_touch :: "disk_file \<Rightarrow> disk_file" where
  "file_touch f =
     (case df_rewrites f of
        [] \<Rightarrow> f
      | None # rs \<Rightarrow> f\<lparr>df_rewrites := rs\<rparr>
      | Some bs # rs \<Rightarrow> f\<lparr>df_bytes := bs, df_rewrites := rs\<rparr>)"

definition file_seek_start :: "unit file_op" where
  "file_seek_start limit w = (Ready (Ok ()), w\<lparr>aw_file := (file_touch (aw_file w))\<lparr>df_pos := 0\<rparr>\<rparr>)"

definition file_seek_end :: "nat file_op" where
  "file_seek_end limit w =
     (let f = file_touch (aw_file w); n = length (df_bytes f) in
      (Ready (Ok n), w\<lparr>aw_file := f\<lparr>df_pos := n\<rparr>\<rparr>))"

definition file_metadata :: "(bool \<times> nat) file_op" where
  "file_metadata limit w =
     (let f = file_touch (aw_file w) in
      (Ready (Ok (df_regular f, length (df_bytes f))), w\<lparr>aw_file := f\<rparr>))"

definition file_read :: "nat \<Rightarrow> bytes file_op" where
  "file_read count limit w =
     (let f = file_touch (aw_file w); avail = take count (drop (df_pos f) (df_bytes f));
          n = read_count limit (length avail) in
      (Ready (Ok (take n avail)), w\<lparr>aw_file := f\<lparr>df_pos := df_pos f + n\<rparr>\<rparr>))"

definition overwrite :: "bytes \<Rightarrow> nat \<Rightarrow> bytes \<Rightarrow> bytes" where
  "overwrite bs pos new =
     take pos (bs @ replicate (pos - length bs) 0) @ new @ drop (pos + length new) bs"

definition file_write :: "bytes \<Rightarrow> nat file_op" where
  "file_write chunk limit w =
     (let f = file_touch (aw_file w); n = budget limit (length chunk) in
      (Ready (Ok n), w\<lparr>aw_file := f\<lparr>df_bytes := overwrite (df_bytes f) (df_pos f) (take n chunk),
                                    df_pos := df_pos f + n\<rparr>\<rparr>))"

definition file_flush :: "unit file_op" where
  "file_flush limit w = (Ready (Ok ()), w)"

definition net_read :: "nat \<Rightarrow> bytes file_op" where
  "net_read count limit w =
     (let r = aw_in w; avail = take count (rd_bytes r); n = read_count limit (length avail) in
      if n = 0 then (case rd_end r of
          Eof \<Rightarrow> (Ready (Ok []), w)
        | Stalls \<Rightarrow> (Pending, w)
        | Fails e \<Rightarrow> (Ready (Err e), w))
      else (Ready (Ok (take n avail)), w\<lparr>aw_in := r\<lparr>rd_bytes := drop n (rd_bytes r)\<rparr>\<rparr>))"

definition net_write :: "bytes \<Rightarrow> nat file_op" where
  "net_write chunk limit w =
     (let s = aw_out w; n = budget limit (min (length chunk) (wr_room s)) in
      if wr_room s = 0 then (case wr_end s of
          Eof \<Rightarrow> (Ready (Ok 0), w)
        | Stalls \<Rightarrow> (Pending, w)
        | Fails e \<Rightarrow> (Ready (Err e), w))
      else (Ready (Ok n), w\<lparr>aw_out := s\<lparr>wr_bytes := wr_bytes s @ take n chunk, wr_room := wr_room s - n\<rparr>\<rparr>))"

section \<open>Progress\<close>

definition progress_new :: "nat \<Rightarrow> nat \<Rightarrow> progress" where
  "progress_new total_len offset =
     \<lparr>pg_last = offset, pg_step = max (1024 * 1024) ((total_len + 99) div 100), pg_reports = []\<rparr>"

definition progress_observe :: "nat \<Rightarrow> progress \<Rightarrow> progress" where
  "progress_observe total_len p =
     (if pg_step p \<le> total_len - pg_last p
      then p\<lparr>pg_last := total_len, pg_reports := pg_reports p @ [total_len]\<rparr> else p)"

definition observe :: "nat \<Rightarrow> attempt_world \<Rightarrow> attempt_world" where
  "observe n w = w\<lparr>aw_progress := progress_observe n (aw_progress w)\<rparr>"

section \<open>Hashing\<close>

function hash_prefix ::
  "nat \<Rightarrow> bytes \<Rightarrow> attempt_world \<Rightarrow> (transfer_io_error, bytes) result \<times> attempt_world" where
  "hash_prefix remaining hasher w =
     (if remaining = 0 then (Ok hasher, w)
      else (case control_step Io_LocalIo (file_read (min remaining STREAM_BUFFER_SIZE)) w of
          (Err e, w') \<Rightarrow> (Err e, w')
        | (Ok bs, w') \<Rightarrow>
            if bs = [] then (Err Io_SourceChanged, w')
            else hash_prefix (remaining - length bs) (hasher @ bs) w'))"
  by pat_completeness auto
termination
  by (relation "measure (\<lambda>(remaining, hasher, w). remaining)") auto

declare hash_prefix.simps [simp del]

definition require_source_eof :: "attempt_world \<Rightarrow> (transfer_io_error, unit) result \<times> attempt_world" where
  "require_source_eof =
     st_bind (control_step Io_LocalIo (file_read 1)) (\<lambda>extra w.
       (if extra \<noteq> [] then Err Io_SourceChanged else Ok (), w))"

definition hash_source ::
  "(bytes \<Rightarrow> bytes) \<Rightarrow> nat \<Rightarrow> attempt_world \<Rightarrow> (transfer_io_error, bytes) result \<times> attempt_world" where
  "hash_source blake3 byte_len =
     (if unat MAX_TRANSFER_BYTES < byte_len then (\<lambda>w. (Err Io_InvalidRange, w))
      else st_bind (control_step Io_LocalIo file_seek_start) (\<lambda>_.
           st_bind (hash_prefix byte_len []) (\<lambda>hasher.
           st_bind require_source_eof (\<lambda>_ w.
           (Ok (blake3 hasher), w)))))"

section \<open>Sending and receiving\<close>

text \<open>The inner loop that writes one buffer, and the outer loop around it.\<close>

function write_chunk ::
  "(io_error_kind \<Rightarrow> transfer_io_error) \<Rightarrow> (bytes \<Rightarrow> nat file_op) \<Rightarrow> bytes \<Rightarrow> nat \<Rightarrow> attempt_world \<Rightarrow>
     (transfer_io_error, unit) result \<times> attempt_world" where
  "write_chunk wrap write chunk total_len w =
     (if chunk = [] then (Ok (), w)
      else (case control_step wrap (write chunk) w of
          (Err e, w') \<Rightarrow> (Err e, w')
        | (Ok n, w') \<Rightarrow>
            if n = 0 then (Err (wrap WriteZero), w')
            else write_chunk wrap write (drop n chunk) (total_len + n) (observe (total_len + n) w')))"
  by pat_completeness auto
termination
  by (relation "measure (\<lambda>(wrap, write, chunk, total_len, w). length chunk)") auto

declare write_chunk.simps [simp del]

function copy_loop ::
  "(io_error_kind \<Rightarrow> transfer_io_error) \<Rightarrow> (nat \<Rightarrow> bytes file_op) \<Rightarrow> transfer_io_error \<Rightarrow>
   (io_error_kind \<Rightarrow> transfer_io_error) \<Rightarrow> (bytes \<Rightarrow> nat file_op) \<Rightarrow>
   nat \<Rightarrow> nat \<Rightarrow> bytes \<Rightarrow> attempt_world \<Rightarrow> (transfer_io_error, bytes) result \<times> attempt_world" where
  "copy_loop rwrap read short wwrap write byte_len total_len hasher w =
     (if total_len < byte_len
      then (case control_step rwrap (read (min (byte_len - total_len) STREAM_BUFFER_SIZE)) w of
          (Err e, w') \<Rightarrow> (Err e, w')
        | (Ok bs, w') \<Rightarrow>
            if bs = [] then (Err short, w')
            else (case write_chunk wwrap write bs total_len w' of
                (Err e, w'') \<Rightarrow> (Err e, w'')
              | (Ok _, w'') \<Rightarrow>
                  copy_loop rwrap read short wwrap write byte_len (total_len + length bs) (hasher @ bs) w''))
      else (Ok hasher, w))"
  by pat_completeness auto
termination
  by (relation "measure (\<lambda>(rwrap, read, short, wwrap, write, byte_len, total_len, hasher, w). byte_len - total_len)")
    (auto intro!: diff_less_mono2)

declare copy_loop.simps [simp del]

definition send_loop ::
  "nat \<Rightarrow> nat \<Rightarrow> bytes \<Rightarrow> attempt_world \<Rightarrow> (transfer_io_error, bytes) result \<times> attempt_world" where
  "send_loop = copy_loop Io_LocalIo file_read Io_SourceChanged Io_StreamIo net_write"

definition receive_loop ::
  "nat \<Rightarrow> nat \<Rightarrow> bytes \<Rightarrow> attempt_world \<Rightarrow> (transfer_io_error, bytes) result \<times> attempt_world" where
  "receive_loop = copy_loop Io_StreamIo net_read Io_ShortPayload Io_LocalIo file_write"

definition begin_progress :: "nat \<Rightarrow> nat \<Rightarrow> attempt_world \<Rightarrow> (transfer_io_error, unit) result \<times> attempt_world" where
  "begin_progress byte_len offset w = (Ok (), w\<lparr>aw_progress := progress_new byte_len offset\<rparr>)"

definition send_payload ::
  "(bytes \<Rightarrow> bytes) \<Rightarrow> transfer_metadata \<Rightarrow> u64 \<Rightarrow> attempt_world \<Rightarrow> (transfer_io_error, unit) result \<times> attempt_world" where
  "send_payload blake3 metadata offset =
     (let byte_len = unat (tm_byte_len metadata); off = unat offset in
      if byte_len < off then (\<lambda>w. (Err Io_InvalidRange, w))
      else st_bind (hash_source blake3 byte_len) (\<lambda>digest.
      if digest \<noteq> tm_blake3 metadata then (\<lambda>w. (Err Io_SourceChanged, w))
      else st_bind (control_step Io_LocalIo file_seek_start) (\<lambda>_.
           st_bind (hash_prefix off []) (\<lambda>prefix.
           st_bind (begin_progress byte_len off) (\<lambda>_.
           st_bind (send_loop byte_len off prefix) (\<lambda>hasher.
           st_bind require_source_eof (\<lambda>_ w.
           (if blake3 hasher \<noteq> tm_blake3 metadata then Err Io_SourceChanged else Ok (), w))))))))"

definition rename_partial :: "(transfer_io_error, 'a) result \<times> 's \<Rightarrow> (transfer_io_error, 'a) result \<times> 's" where
  "rename_partial r =
     (case r of (x, w) \<Rightarrow> (map_err (\<lambda>e. if e = Io_SourceChanged then Io_InvalidPartial else e) x, w))"

definition receive_payload ::
  "(bytes \<Rightarrow> bytes) \<Rightarrow> transfer_metadata \<Rightarrow> u64 \<Rightarrow> attempt_world \<Rightarrow> (transfer_io_error, unit) result \<times> attempt_world" where
  "receive_payload blake3 metadata offset =
     (let byte_len = unat (tm_byte_len metadata); off = unat offset in
      if byte_len < off then (\<lambda>w. (Err Io_InvalidRange, w))
      else st_bind (control_step Io_LocalIo file_seek_end) (\<lambda>actual.
      if actual \<noteq> off then (\<lambda>w. (Err Io_InvalidPartial, w))
      else st_bind (control_step Io_LocalIo file_seek_start) (\<lambda>_.
           st_bind (\<lambda>w. rename_partial (hash_prefix off [] w)) (\<lambda>prefix.
           st_bind (begin_progress byte_len off) (\<lambda>_.
           st_bind (receive_loop byte_len off prefix) (\<lambda>hasher.
           st_bind (control_step Io_StreamIo (net_read 1)) (\<lambda>extra.
           if extra \<noteq> [] then (\<lambda>w. (Err Io_ExtraPayload, w))
           else if blake3 hasher \<noteq> tm_blake3 metadata then (\<lambda>w. (Err Io_Integrity, w))
           else control_step Io_LocalIo file_flush)))))))"

section \<open>Source preparation\<close>

datatype source_preparation_error =
    Prep_InvalidLimit
  | Prep_MissingFileName
  | Prep_Metadata transfer_metadata_error
  | Prep_NotRegular
  | Prep_TooLarge
  | Prep_Io transfer_io_error

definition prep_io :: "('s \<Rightarrow> (transfer_io_error, 'a) result \<times> 's) \<Rightarrow> 's \<Rightarrow> (source_preparation_error, 'a) result \<times> 's" where
  "prep_io f w = (case f w of (r, w') \<Rightarrow> (map_err Prep_Io r, w'))"

definition prepare_source ::
  "(bytes \<Rightarrow> bytes) \<Rightarrow> source_path \<Rightarrow> u64 \<Rightarrow> attempt_world \<Rightarrow>
     (source_preparation_error, transfer_metadata) result \<times> attempt_world" where
  "prepare_source blake3 path max_file_bytes =
     (if max_file_bytes = 0 \<or> MAX_TRANSFER_BYTES < max_file_bytes then (\<lambda>w. (Err Prep_InvalidLimit, w))
      else st_bind (\<lambda>w. (ok_or (path_file_name path) Prep_MissingFileName, w)) (\<lambda>name.
      st_bind (\<lambda>w. (map_err Prep_Metadata (file_name_new name), w)) (\<lambda>file_name.
      st_bind (prep_io (control_step Io_LocalIo file_metadata)) (\<lambda>(regular, len).
      if \<not> regular then (\<lambda>w. (Err Prep_NotRegular, w))
      else if unat max_file_bytes < len then (\<lambda>w. (Err Prep_TooLarge, w))
      else st_bind (prep_io (hash_source blake3 len)) (\<lambda>digest.
           st_bind (prep_io (control_step Io_LocalIo file_metadata)) (\<lambda>(_, len') w.
           (if len' \<noteq> len then Err (Prep_Io Io_SourceChanged)
            else map_err Prep_Metadata (metadata_new file_name (of_nat len) digest), w)))))))"

section \<open>Schedules and examples\<close>

text \<open>A schedule that only splits reads and writes, and a file nobody else writes.\<close>

definition quiet :: "step_event list \<Rightarrow> bool" where
  "quiet evs = list_all (\<lambda>e. case e of Go k \<Rightarrow> 0 < k | _ \<Rightarrow> False) evs"

definition owned :: "attempt_world \<Rightarrow> bool" where
  "owned w = (df_rewrites (aw_file w) = [])"

definition same_streams :: "attempt_world \<Rightarrow> attempt_world \<Rightarrow> bool" where
  "same_streams w w' = (aw_in w' = aw_in w \<and> aw_out w' = aw_out w)"

definition example_content :: bytes where
  "example_content = [104, 101, 108, 108, 111]"

definition example_payload :: transfer_metadata where
  "example_payload = \<lparr>tm_file_name = TransferFileName ''notes.txt'', tm_byte_len = 5, tm_blake3 = replicate 32 0\<rparr>"

definition example_world :: "step_event list \<Rightarrow> bytes \<Rightarrow> bytes \<Rightarrow> attempt_world" where
  "example_world evs content incoming =
     \<lparr>aw_schedule = evs,
      aw_file = \<lparr>df_regular = True, df_bytes = content, df_pos = 0, df_rewrites = []\<rparr>,
      aw_in = \<lparr>rd_bytes = incoming, rd_end = Eof\<rparr>,
      aw_out = \<lparr>wr_bytes = [], wr_room = 100, wr_end = Stalls\<rparr>,
      aw_progress = progress_new 0 0\<rparr>"

section \<open>Lemmas on single steps\<close>

lemma control_step_elim:
  assumes "control_step wrap op w = (r, w')"
  obtains (interrupted) e evs where "r = Err e" "w' = w\<lparr>aw_schedule := evs\<rparr>" "\<not> quiet (aw_schedule w)"
  | (ran) limit evs p where "op limit (w\<lparr>aw_schedule := evs\<rparr>) = (p, w')" "(r, w') = settle wrap (p, w')"
      "quiet (aw_schedule w) \<Longrightarrow> quiet evs \<and> limit \<noteq> Some 0"
proof (cases "aw_schedule w")
  case Nil
  obtain p w1 where op: "op None w = (p, w1)" by fastforce
  with assms Nil have "settle wrap (p, w1) = (r, w')" by (simp add: control_step_def)
  then have "w1 = w'" by (auto simp: settle_def split: poll.splits)
  moreover have "w\<lparr>aw_schedule := []\<rparr> = w" using Nil by (cases w) simp
  ultimately show ?thesis
    using that(2) [of None "[]" p] op \<open>settle wrap (p, w1) = (r, w')\<close> by (simp add: quiet_def)
next
  case (Cons ev evs)
  show ?thesis
  proof (cases ev)
    case (Go k)
    obtain p w1 where op: "op (Some k) (w\<lparr>aw_schedule := evs\<rparr>) = (p, w1)" by fastforce
    with assms Cons Go have run: "settle wrap (p, w1) = (r, w')" by (simp add: control_step_def)
    then have "w1 = w'" by (auto simp: settle_def split: poll.splits)
    with that(2) [of "Some k" evs p] op run Cons Go show ?thesis by (simp add: quiet_def)
  qed (use assms Cons that(1) in \<open>auto simp: control_step_def quiet_def\<close>)
qed

lemma file_touch_owned [simp]: "df_rewrites f = [] \<Longrightarrow> file_touch f = f"
  by (simp add: file_touch_def)

lemma read_count_le: "read_count limit n \<le> n"
  by (auto simp: read_count_def budget_def split: option.splits)

lemma read_count_zero: "read_count limit n = 0 \<longleftrightarrow> n = 0"
  by (auto simp: read_count_def)

text \<open>A read never touches the streams; of an owned file it returns the next bytes.\<close>

lemma file_read_step:
  assumes "control_step wrap (file_read count) w = (r, w')"
  shows "same_streams w w' \<and> aw_progress w' = aw_progress w \<and> (\<forall>bs. r = Ok bs \<longrightarrow> length bs \<le> count) \<and>
    (owned w \<longrightarrow> owned w' \<and> df_bytes (aw_file w') = df_bytes (aw_file w) \<and>
      (\<forall>bs. r = Ok bs \<longrightarrow> bs = take (length bs) (drop (df_pos (aw_file w)) (df_bytes (aw_file w))) \<and>
         df_pos (aw_file w') = df_pos (aw_file w) + length bs \<and>
         (bs = [] \<longrightarrow> count = 0 \<or> length (df_bytes (aw_file w)) \<le> df_pos (aw_file w)))) \<and>
    (quiet (aw_schedule w) \<longrightarrow> quiet (aw_schedule w') \<and> (\<exists>bs. r = Ok bs))"
  using assms
proof (cases rule: control_step_elim)
  case (interrupted e evs)
  then show ?thesis by (auto simp: same_streams_def owned_def)
next
  case (ran limit evs p)
  define f where "f = file_touch (aw_file w)"
  define avail where "avail = take count (drop (df_pos f) (df_bytes f))"
  define n where "n = read_count limit (length avail)"
  have n: "n \<le> length avail" "n = 0 \<longleftrightarrow> avail = []"
    by (simp_all add: n_def read_count_le read_count_zero)
  from ran(1) have p: "p = Ready (Ok (take n avail))"
    "w' = w\<lparr>aw_schedule := evs, aw_file := f\<lparr>df_pos := df_pos f + n\<rparr>\<rparr>"
    by (auto simp: file_read_def Let_def f_def avail_def n_def)
  define bs where "bs = take n avail"
  have len: "length bs = n" using n(1) by (simp add: bs_def)
  have "length bs \<le> count" using n(1) len by (simp add: avail_def)
  moreover have "bs = take (length bs) (drop (df_pos f) (df_bytes f))"
    using n(1) unfolding len by (simp add: bs_def avail_def min_absorb1)
  moreover have "bs = [] \<longleftrightarrow> count = 0 \<or> length (df_bytes f) \<le> df_pos f"
    using n(2) len by (auto simp: avail_def)
  moreover have "r = Ok bs" using ran(2) p(1) by (simp add: settle_def bs_def)
  moreover have "df_pos (aw_file w') = df_pos f + length bs" "df_bytes (aw_file w') = df_bytes f"
    "df_rewrites (aw_file w') = df_rewrites f" "aw_schedule w' = evs" "same_streams w w'"
    "aw_progress w' = aw_progress w"
    using p(2) len by (simp_all add: same_streams_def)
  ultimately show ?thesis
    using ran(3) unfolding owned_def f_def by auto
qed

lemma next_bytes:
  "bs = take (length bs) (drop p xs) \<Longrightarrow> drop p xs = bs @ drop (p + length bs) (xs :: 'a list)"
  by (metis append_take_drop_id drop_drop add.commute)

lemma net_read_step:
  assumes "control_step wrap (net_read count) w = (r, w')"
  shows "aw_file w' = aw_file w \<and> aw_out w' = aw_out w \<and> rd_end (aw_in w') = rd_end (aw_in w) \<and>
    (case r of
       Ok bs \<Rightarrow> rd_bytes (aw_in w) = bs @ rd_bytes (aw_in w') \<and> length bs \<le> count \<and>
         (bs = [] \<and> 0 < count \<longrightarrow> rd_bytes (aw_in w) = [] \<and> rd_end (aw_in w) = Eof)
     | Err _ \<Rightarrow> rd_bytes (aw_in w') = rd_bytes (aw_in w)) \<and>
    (quiet (aw_schedule w) \<longrightarrow> quiet (aw_schedule w') \<and>
      (rd_bytes (aw_in w) \<noteq> [] \<and> 0 < count \<longrightarrow> (\<exists>bs. r = Ok bs \<and> bs \<noteq> [])) \<and>
      (rd_end (aw_in w) = Eof \<longrightarrow> is_ok r))"
  using assms
proof (cases rule: control_step_elim)
  case (interrupted e evs)
  then show ?thesis by simp
next
  case (ran limit evs p)
  define avail where "avail = take count (rd_bytes (aw_in w))"
  define n where "n = read_count limit (length avail)"
  have "n \<le> length avail" "n = 0 \<longleftrightarrow> avail = []" by (simp_all add: n_def read_count_le read_count_zero)
  then have n: "n \<le> length avail" "n = 0 \<longleftrightarrow> count = 0 \<or> rd_bytes (aw_in w) = []" "length avail \<le> count"
    by (auto simp: avail_def)
  show ?thesis
  proof (cases "n = 0")
    case True
    with ran n(2) show ?thesis
      by (cases "rd_end (aw_in w)") (auto simp: net_read_def Let_def n_def avail_def settle_def)
  next
    case False
    have "take n avail @ drop n (rd_bytes (aw_in w)) = rd_bytes (aw_in w)"
      using n(1) by (simp add: avail_def min_absorb1)
    moreover have "p = Ready (Ok (take n avail))"
      "w' = w\<lparr>aw_schedule := evs, aw_in := (aw_in w)\<lparr>rd_bytes := drop n (rd_bytes (aw_in w))\<rparr>\<rparr>"
      using ran(1) False by (auto simp: net_read_def Let_def n_def avail_def)
    moreover have "take n avail \<noteq> []" "length (take n avail) \<le> count" using n False by auto
    ultimately show ?thesis using ran(2,3) by (auto simp: settle_def)
  qed
qed

lemma net_write_step:
  assumes "control_step wrap (net_write chunk) w = (r, w')"
  shows "aw_file w' = aw_file w \<and> aw_in w' = aw_in w \<and>
    (\<exists>n \<le> length chunk. wr_bytes (aw_out w') = wr_bytes (aw_out w) @ take n chunk \<and> n \<le> wr_room (aw_out w) \<and>
       wr_room (aw_out w') = wr_room (aw_out w) - n \<and> (\<forall>m. r = Ok m \<longrightarrow> m = n)) \<and>
    (quiet (aw_schedule w) \<longrightarrow> quiet (aw_schedule w') \<and>
      (chunk \<noteq> [] \<and> length chunk \<le> wr_room (aw_out w) \<longrightarrow> (\<exists>n. r = Ok n \<and> 0 < n)))"
  using assms
proof (cases rule: control_step_elim)
  case (interrupted e evs)
  then show ?thesis by (auto intro!: exI [of _ 0])
next
  case (ran limit evs p)
  define n where "n = budget limit (min (length chunk) (wr_room (aw_out w)))"
  have n: "n \<le> length chunk" "n \<le> wr_room (aw_out w)"
    by (auto simp: n_def budget_def split: option.splits)
  show ?thesis
  proof (cases "wr_room (aw_out w) = 0")
    case True
    with ran show ?thesis
      by (cases "wr_end (aw_out w)") (auto simp: net_write_def Let_def settle_def intro!: exI [of _ 0])
  next
    case False
    have "0 < n" if "limit \<noteq> Some 0" "chunk \<noteq> []"
      using that False by (auto simp: n_def budget_def split: option.splits)
    moreover have "p = Ready (Ok n)" "w' = w\<lparr>aw_schedule := evs, aw_out := (aw_out w)\<lparr>wr_bytes :=
        wr_bytes (aw_out w) @ take n chunk, wr_room := wr_room (aw_out w) - n\<rparr>\<rparr>"
      using ran(1) False by (auto simp: net_write_def Let_def n_def)
    ultimately show ?thesis using ran(2,3) n by (auto simp: settle_def intro!: exI [of _ n])
  qed
qed

lemma file_write_step:
  assumes "control_step wrap (file_write chunk) w = (r, w')" and "owned w"
    and "df_pos (aw_file w) = length (df_bytes (aw_file w))"
  shows "same_streams w w' \<and> owned w' \<and> df_pos (aw_file w') = length (df_bytes (aw_file w')) \<and>
    (\<exists>n \<le> length chunk. df_bytes (aw_file w') = df_bytes (aw_file w) @ take n chunk \<and> (\<forall>m. r = Ok m \<longrightarrow> m = n)) \<and>
    (quiet (aw_schedule w) \<longrightarrow> quiet (aw_schedule w') \<and> (chunk \<noteq> [] \<longrightarrow> (\<exists>n. r = Ok n \<and> 0 < n)))"
  using assms(1)
proof (cases rule: control_step_elim)
  case (interrupted e evs)
  with assms show ?thesis by (auto simp: same_streams_def owned_def intro!: exI [of _ 0])
next
  case (ran limit evs p)
  define n where "n = budget limit (length chunk)"
  have n: "n \<le> length chunk" "limit \<noteq> Some 0 \<Longrightarrow> chunk \<noteq> [] \<Longrightarrow> 0 < n"
    by (auto simp: n_def budget_def split: option.splits)
  moreover have "p = Ready (Ok n)" "w' = w\<lparr>aw_schedule := evs, aw_file := (aw_file w)\<lparr>df_bytes :=
      df_bytes (aw_file w) @ take n chunk, df_pos := df_pos (aw_file w) + n\<rparr>\<rparr>"
    using ran(1) assms(2,3) n(1) by (auto simp: file_write_def Let_def n_def owned_def overwrite_def)
  ultimately show ?thesis
    using ran(2,3) assms(2,3) by (auto simp: settle_def owned_def same_streams_def intro!: exI [of _ n])
qed

lemma same_streams_trans [trans]: "same_streams u v \<Longrightarrow> same_streams v w \<Longrightarrow> same_streams u w"
  by (simp add: same_streams_def)

lemma hash_prefix_spec:
  "hash_prefix n h w = (r, w') \<Longrightarrow>
     same_streams w w' \<and> (\<forall>h'. r = Ok h' \<longrightarrow> (\<exists>xs. h' = h @ xs \<and> length xs = n)) \<and>
     (owned w \<longrightarrow> owned w' \<and> df_bytes (aw_file w') = df_bytes (aw_file w) \<and>
       (\<forall>h'. r = Ok h' \<longrightarrow> h' = h @ take n (drop (df_pos (aw_file w)) (df_bytes (aw_file w))) \<and>
          df_pos (aw_file w') = df_pos (aw_file w) + n)) \<and>
     (owned w \<and> quiet (aw_schedule w) \<and> df_pos (aw_file w) + n \<le> length (df_bytes (aw_file w)) \<longrightarrow>
       quiet (aw_schedule w') \<and> is_ok r)"
proof (induction n h w arbitrary: r w' rule: hash_prefix.induct)
  case (1 n h w)
  show ?case
  proof (cases "n = 0")
    case True
    with "1.prems" show ?thesis by (auto simp: hash_prefix.simps same_streams_def)
  next
    case False
    obtain x w1 where step: "control_step Io_LocalIo (file_read (min n STREAM_BUFFER_SIZE)) w = (x, w1)" by fastforce
    have count: "min n STREAM_BUFFER_SIZE \<noteq> 0" using False by (simp add: STREAM_BUFFER_SIZE_def)
    note read = file_read_step [OF step]
    show ?thesis
    proof (cases x)
      case (Inl e)
      with "1.prems" False step have "r = Err e" "w' = w1" by (simp_all add: hash_prefix.simps)
      with read Inl show ?thesis by auto
    next
      case ok: (Inr bs)
      show ?thesis
      proof (cases "bs = []")
        case True
        with "1.prems" False step ok have r: "r = Err Io_SourceChanged" "w' = w1" by (simp_all add: hash_prefix.simps)
        have "length (df_bytes (aw_file w)) \<le> df_pos (aw_file w)" if "owned w"
          using read that ok True count by auto
        with read r False show ?thesis by auto
      next
        case nonempty: False
        with "1.prems" False step ok have rest: "hash_prefix (n - length bs) (h @ bs) w1 = (r, w')"
          by (simp add: hash_prefix.simps)
        have le: "length bs \<le> n" using read ok by auto
        note ih = "1.IH" [OF False step [symmetric] ok nonempty rest]
        have split: "bs @ take (n - length bs) (drop (df_pos (aw_file w) + length bs) (df_bytes (aw_file w))) =
            take n (drop (df_pos (aw_file w)) (df_bytes (aw_file w)))" if "owned w"
        proof -
          have "bs = take (length bs) (drop (df_pos (aw_file w)) (df_bytes (aw_file w)))"
            using read ok that by auto
          moreover have "take n xs = take (length bs) xs @ take (n - length bs) (drop (length bs) xs)" for xs :: bytes
            using le by (metis le_add_diff_inverse take_add)
          ultimately show ?thesis by (metis drop_drop add.commute)
        qed
        have "\<exists>xs. h' = h @ xs \<and> length xs = n" if "r = Ok h'" for h'
        proof -
          from ih that obtain xs where "h' = (h @ bs) @ xs" "length xs = n - length bs" by blast
          then show ?thesis using le by (intro exI [of _ "bs @ xs"]) simp
        qed
        with ih read ok le split show ?thesis by (auto intro: same_streams_trans)
      qed
    qed
  qed
qed

lemma observe_frame [simp]:
  "aw_schedule (observe n w) = aw_schedule w" "aw_file (observe n w) = aw_file w" "aw_in (observe n w) = aw_in w"
  "aw_out (observe n w) = aw_out w"
  by (simp_all add: observe_def)

section \<open>The copy loop\<close>

text \<open>
  What the copy loop relies on. The reader: it returns at most what was asked and leaves the sink
  alone; while steady it returns the next of the bytes left. The sink: every write appends a prefix of
  the chunk and reports its length. On a quiet schedule both make progress.
\<close>

locale payload_copy =
  fixes rwrap :: "io_error_kind \<Rightarrow> transfer_io_error"
    and fetch :: "nat \<Rightarrow> bytes file_op"
    and short :: transfer_io_error
    and wwrap :: "io_error_kind \<Rightarrow> transfer_io_error"
    and emit :: "bytes \<Rightarrow> nat file_op"
    and steady :: "attempt_world \<Rightarrow> bool"
    and left :: "attempt_world \<Rightarrow> bytes"
    and ready :: "attempt_world \<Rightarrow> bool"
    and taken :: "attempt_world \<Rightarrow> bytes"
    and room :: "nat \<Rightarrow> attempt_world \<Rightarrow> bool"
  assumes read_sink: "control_step rwrap (fetch c) w = (r, w') \<Longrightarrow> ready w \<Longrightarrow>
        ready w' \<and> taken w' = taken w \<and> (\<forall>k. room k w \<longrightarrow> room k w') \<and> (\<forall>bs. r = Ok bs \<longrightarrow> length bs \<le> c)"
    and read_left: "control_step rwrap (fetch c) w = (r, w') \<Longrightarrow> steady w \<Longrightarrow>
        steady w' \<and> (case r of Ok bs \<Rightarrow> left w = bs @ left w' | Err _ \<Rightarrow> True)"
    and read_live: "control_step rwrap (fetch c) w = (r, w') \<Longrightarrow> steady w \<Longrightarrow> quiet (aw_schedule w) \<Longrightarrow>
        0 < c \<Longrightarrow> left w \<noteq> [] \<Longrightarrow> quiet (aw_schedule w') \<and> (\<exists>bs. r = Ok bs \<and> bs \<noteq> [])"
    and write_sink: "control_step wwrap (emit chunk) w = (q, w') \<Longrightarrow> ready w \<Longrightarrow>
        ready w' \<and> (\<exists>n \<le> length chunk. taken w' = taken w @ take n chunk \<and> (\<forall>m. q = Ok m \<longrightarrow> m = n) \<and>
          (\<forall>k. room (n + k) w \<longrightarrow> room k w'))"
    and write_left: "control_step wwrap (emit chunk) w = (q, w') \<Longrightarrow> steady w \<Longrightarrow> steady w' \<and> left w' = left w"
    and write_live: "control_step wwrap (emit chunk) w = (q, w') \<Longrightarrow> ready w \<Longrightarrow> quiet (aw_schedule w) \<Longrightarrow>
        chunk \<noteq> [] \<Longrightarrow> room (length chunk) w \<Longrightarrow> quiet (aw_schedule w') \<and> (\<exists>n. q = Ok n \<and> 0 < n)"
    and observe_keeps: "ready (observe n w) = ready w" "taken (observe n w) = taken w"
        "steady (observe n w) = steady w" "left (observe n w) = left w" "room k (observe n w) = room k w"
    and room_mono: "room k w \<Longrightarrow> j \<le> k \<Longrightarrow> room j w"
begin

lemma write_chunk_spec:
  "write_chunk wwrap emit chunk t w = (r, w') \<Longrightarrow> ready w \<Longrightarrow>
     ready w' \<and> (\<exists>n \<le> length chunk. taken w' = taken w @ take n chunk \<and> (is_ok r \<longrightarrow> n = length chunk) \<and>
        (\<forall>k. room (n + k) w \<longrightarrow> room k w')) \<and>
     (steady w \<longrightarrow> steady w' \<and> left w' = left w) \<and>
     (quiet (aw_schedule w) \<and> room (length chunk) w \<longrightarrow> quiet (aw_schedule w') \<and> is_ok r)"
proof (induction "length chunk" arbitrary: chunk t w rule: less_induct)
  case less
  show ?case
  proof (cases "chunk = []")
    case True
    with less.prems show ?thesis by (auto simp: write_chunk.simps)
  next
    case False
    obtain x w1 where step: "control_step wwrap (emit chunk) w = (x, w1)" by fastforce
    from write_sink [OF step less.prems(2)] obtain n where n: "ready w1" "n \<le> length chunk"
      "taken w1 = taken w @ take n chunk" "\<forall>m. x = Ok m \<longrightarrow> m = n" "\<forall>k. room (n + k) w \<longrightarrow> room k w1" by blast
    note live = write_live [OF step less.prems(2) _ False]
    show ?thesis
    proof (cases "\<exists>m. x = Ok m \<and> 0 < m")
      case False
      then have r: "r = Err (case x of Err e \<Rightarrow> e | Ok _ \<Rightarrow> wwrap WriteZero)" "w' = w1"
        using less.prems(1) step \<open>chunk \<noteq> []\<close> by (auto simp: write_chunk.simps split: sum.splits)
      with False live n write_left [OF step] show ?thesis by auto
    next
      case True
      then have x: "x = Ok n" "0 < n" using n(4) by auto
      let ?w = "observe (t + n) w1"
      have rest: "write_chunk wwrap emit (drop n chunk) (t + n) ?w = (r, w')"
        using less.prems(1) step False x by (simp add: write_chunk.simps)
      have "length (drop n chunk) < length chunk" using False x by simp
      from less.hyps [OF this rest, unfolded observe_keeps observe_frame length_drop, OF n(1)] obtain m where m: "ready w'" "m \<le> length chunk - n"
        "taken w' = taken w1 @ take m (drop n chunk)" "is_ok r \<longrightarrow> m = length chunk - n"
        "\<forall>k. room (m + k) w1 \<longrightarrow> room k w'" "steady w1 \<longrightarrow> steady w' \<and> left w' = left w1"
        "quiet (aw_schedule w1) \<and> room (length chunk - n) w1 \<longrightarrow> quiet (aw_schedule w') \<and> is_ok r"
        by blast
      have taken: "taken w' = taken w @ take (n + m) chunk" using n(3) m(3) by (simp add: take_add)
      have "room k w'" if "room (n + m + k) w" for k
        using that n(5) m(5) by (simp add: add.assoc)
      moreover have "quiet (aw_schedule w') \<and> is_ok r" if "quiet (aw_schedule w)" "room (length chunk) w"
        using live [OF that] n(2,5) that(2) m(7) by (metis le_add_diff_inverse)
      ultimately show ?thesis
        using m(1,2,4,6) n(2) taken write_left [OF step] by (auto intro!: exI [of _ "n + m"] simp del: is_ok_iff)
    qed
  qed
qed

text \<open>One turn of the outer loop: a non-empty read and the writes of its bytes.\<close>

lemma copy_turn:
  assumes "control_step rwrap (fetch c) w = (Ok bs, w1)" and "bs \<noteq> []" and "0 < c"
    and "write_chunk wwrap emit bs t w1 = (y, w2)" and "ready w"
  shows "ready w2 \<and> length bs \<le> c \<and>
     (\<exists>n \<le> length bs. taken w2 = taken w @ take n bs \<and> (is_ok y \<longrightarrow> n = length bs) \<and>
        (\<forall>k. room (n + k) w \<longrightarrow> room k w2)) \<and>
     (steady w \<longrightarrow> steady w2 \<and> left w = bs @ left w2) \<and>
     (steady w \<and> quiet (aw_schedule w) \<and> room (length bs) w \<longrightarrow> quiet (aw_schedule w2) \<and> is_ok y)"
proof -
  note rs = read_sink [OF assms(1,5)]
  then have "ready w1" by blast
  from write_chunk_spec [OF assms(4) this] obtain n where n: "ready w2" "n \<le> length bs"
    "taken w2 = taken w1 @ take n bs" "is_ok y \<longrightarrow> n = length bs" "\<forall>k. room (n + k) w1 \<longrightarrow> room k w2"
    "steady w1 \<longrightarrow> steady w2 \<and> left w2 = left w1"
    "quiet (aw_schedule w1) \<and> room (length bs) w1 \<longrightarrow> quiet (aw_schedule w2) \<and> is_ok y" by metis
  have left: "steady w1 \<and> left w = bs @ left w1" if "steady w" using read_left [OF assms(1) that] by simp
  moreover have "quiet (aw_schedule w1)" if "steady w" "quiet (aw_schedule w)"
    using read_live [OF assms(1) that assms(3)] left [OF that(1)] assms(2) by simp
  ultimately show ?thesis using n rs by metis
qed

lemma copy_loop_stop:
  assumes "copy_loop rwrap fetch short wwrap emit byte_len t h w = (r, w')" and "t < byte_len" and "ready w"
    and "control_step rwrap (fetch (min (byte_len - t) STREAM_BUFFER_SIZE)) w = (x, w1)"
    and "\<not> (\<exists>bs. x = Ok bs \<and> bs \<noteq> [])"
  shows "ready w' \<and> taken w' = taken w \<and> \<not> is_ok r \<and> (steady w \<longrightarrow> steady w') \<and>
    \<not> (steady w \<and> quiet (aw_schedule w) \<and> byte_len - t \<le> length (left w))"
proof -
  have c: "0 < min (byte_len - t) STREAM_BUFFER_SIZE" using assms(2) by (simp add: STREAM_BUFFER_SIZE_def)
  have "\<exists>e. r = Err e" "w' = w1"
    using assms by (auto simp: copy_loop.simps split: sum.splits)
  moreover have "left w \<noteq> []" if "byte_len - t \<le> length (left w)" using that assms(2) by auto
  ultimately show ?thesis
    using read_live [OF assms(4) _ _ c] assms(5) read_sink [OF assms(4,3)] read_left [OF assms(4)] by auto
qed

lemma copy_loop_spec:
  "copy_loop rwrap fetch short wwrap emit byte_len t h w = (r, w') \<Longrightarrow> ready w \<Longrightarrow>
     ready w' \<and> (\<exists>ys. taken w' = taken w @ ys \<and> length ys \<le> byte_len - t \<and>
        (\<forall>h'. r = Ok h' \<longrightarrow> h' = h @ ys \<and> length ys = byte_len - t) \<and>
        (steady w \<longrightarrow> steady w' \<and> (\<exists>zs. left w = ys @ zs \<and> (is_ok r \<longrightarrow> zs = left w')))) \<and>
     (steady w \<and> quiet (aw_schedule w) \<and> byte_len - t \<le> length (left w) \<and> room (byte_len - t) w \<longrightarrow>
        quiet (aw_schedule w') \<and> is_ok r)"
proof (induction "byte_len - t" arbitrary: t h w rule: less_induct)
  case less
  let ?c = "min (byte_len - t) STREAM_BUFFER_SIZE"
  obtain x w1 where step: "control_step rwrap (fetch ?c) w = (x, w1)" by fastforce
  consider (finished) "\<not> t < byte_len" | (stop) "t < byte_len" "\<not> (\<exists>bs. x = Ok bs \<and> bs \<noteq> [])"
    | (turn) bs where "t < byte_len" "x = Ok bs" "bs \<noteq> []" by blast
  then show ?case
  proof cases
    case finished
    with less.prems show ?thesis by (auto simp: copy_loop.simps)
  next
    case stop
    from copy_loop_stop [OF less.prems(1) stop(1) less.prems(2) step stop(2)] show ?thesis
      by (auto intro!: exI [of _ "[]"])
  next
    case turn
    have c: "0 < ?c" using turn(1) by (simp add: STREAM_BUFFER_SIZE_def)
    obtain y w2 where chunk: "write_chunk wwrap emit bs t w1 = (y, w2)" by fastforce
    from copy_turn [OF step [unfolded turn(2)] turn(3) c chunk less.prems(2)] obtain n where n: "ready w2"
      "length bs \<le> byte_len - t" "n \<le> length bs" "taken w2 = taken w @ take n bs" "is_ok y \<longrightarrow> n = length bs"
      "\<forall>k. room (n + k) w \<longrightarrow> room k w2" "steady w \<longrightarrow> steady w2 \<and> left w = bs @ left w2"
      "steady w \<and> quiet (aw_schedule w) \<and> room (length bs) w \<longrightarrow> quiet (aw_schedule w2) \<and> is_ok y" by (metis min.boundedE)
    show ?thesis
    proof (cases y)
      case (Inl e)
      then have r: "r = Err e" "w' = w2"
        using less.prems(1) step turn chunk by (simp_all add: copy_loop.simps)
      have "\<exists>zs. left w = take n bs @ zs" if "steady w"
        using n(7) that by (metis append_take_drop_id append.assoc)
      moreover have "\<not> quiet (aw_schedule w)" if "steady w" "room (byte_len - t) w"
        using n(8) that Inl room_mono [OF that(2) n(2)] by auto
      ultimately show ?thesis using r n(1-4,7) by (auto intro!: exI [of _ "take n bs"])
    next
      case (Inr u)
      then have rest: "copy_loop rwrap fetch short wwrap emit byte_len (t + length bs) (h @ bs) w2 = (r, w')"
        and full: "n = length bs"
        using less.prems(1) step turn chunk n(5) by (simp_all add: copy_loop.simps)
      have "byte_len - (t + length bs) < byte_len - t" using turn by (simp add: diff_less_mono2)
      note ih = less.hyps [OF this rest n(1)]
      have "quiet (aw_schedule w') \<and> is_ok r"
        if "steady w" "quiet (aw_schedule w)" "byte_len - t \<le> length (left w)" "room (byte_len - t) w"
      proof -
        have "room (byte_len - (t + length bs)) w2"
          using n(2,6) full that(4) by (metis diff_diff_left le_add_diff_inverse)
        moreover have "quiet (aw_schedule w2)" using n(8) that room_mono [OF that(4) n(2)] by blast
        ultimately show ?thesis using ih n(7) that(1,3) n(2) by auto
      qed
      moreover obtain ys where ys: "taken w' = taken w2 @ ys" "length ys \<le> byte_len - (t + length bs)"
        "\<forall>h'. r = Ok h' \<longrightarrow> h' = (h @ bs) @ ys \<and> length ys = byte_len - (t + length bs)"
        "steady w2 \<longrightarrow> steady w' \<and> (\<exists>zs. left w2 = ys @ zs \<and> (is_ok r \<longrightarrow> zs = left w'))"
        using ih by (elim conjE exE) (rule that)
      moreover have "taken w' = taken w @ bs @ ys" using ys(1) n(4) full by simp
      moreover have "length (bs @ ys) \<le> byte_len - t"
        "\<forall>h'. r = Ok h' \<longrightarrow> h' = h @ bs @ ys \<and> length (bs @ ys) = byte_len - t"
        using ys(2,3) n(2) by auto
      moreover have "steady w' \<and> (\<exists>zs. left w = (bs @ ys) @ zs \<and> (is_ok r \<longrightarrow> zs = left w'))" if "steady w"
        using ys(4) n(7) that by (metis append.assoc)
      ultimately show ?thesis using conjunct1 [OF ih] by blast
    qed
  qed
qed

end

text \<open>Sending copies from a file, which is steady while nobody rewrites it, to the stream.\<close>

interpretation sending: payload_copy Io_LocalIo file_read Io_SourceChanged Io_StreamIo net_write
  owned "\<lambda>w. drop (df_pos (aw_file w)) (df_bytes (aw_file w))"
  "\<lambda>_. True" "\<lambda>w. wr_bytes (aw_out w)" "\<lambda>k w. k \<le> wr_room (aw_out w)"
proof (unfold_locales, goal_cases)
  case (1 c w r w')
  then show ?case using file_read_step [of Io_LocalIo c w r w'] by (auto simp: same_streams_def)
next
  case (2 c w r w')
  then show ?case using file_read_step [of Io_LocalIo c w r w']
    by (auto split: sum.splits intro: next_bytes)
next
  case (3 c w r w')
  then show ?case using file_read_step [of Io_LocalIo c w r w'] by auto
next
  case (4 chunk w q w')
  then show ?case using net_write_step [of Io_StreamIo chunk w q w'] by fastforce
next
  case (5 chunk w q w')
  then show ?case using net_write_step [of Io_StreamIo chunk w q w'] by (simp add: owned_def)
next
  case (6 chunk w q w')
  then show ?case using net_write_step [of Io_StreamIo chunk w q w'] by auto
qed (simp_all add: owned_def)

text \<open>Receiving copies from the stream to the end of an exclusively owned file.\<close>

interpretation receiving: payload_copy Io_StreamIo net_read Io_ShortPayload Io_LocalIo file_write
  "\<lambda>w. rd_end (aw_in w) = e" "\<lambda>w. rd_bytes (aw_in w)"
  "\<lambda>w. owned w \<and> df_pos (aw_file w) = length (df_bytes (aw_file w))" "\<lambda>w. df_bytes (aw_file w)" "\<lambda>_ _. True" for e
proof (unfold_locales, goal_cases)
  case (1 c w r w')
  then show ?case using net_read_step [of Io_StreamIo c w r w'] by (auto simp: owned_def)
next
  case (2 c w r w')
  then show ?case using net_read_step [of Io_StreamIo c w r w'] by (auto split: sum.splits)
next
  case (3 c w r w')
  then show ?case using net_read_step [of Io_StreamIo c w r w'] by auto
next
  case (4 chunk w q w')
  then show ?case using file_write_step [of Io_LocalIo chunk w q w'] by auto
next
  case (5 chunk w q w')
  then show ?case
    by (cases rule: control_step_elim) (auto simp: file_write_def Let_def)
next
  case (6 chunk w q w')
  then show ?case using file_write_step [of Io_LocalIo chunk w q w'] by auto
qed (simp_all add: owned_def)

section \<open>Whole operations\<close>

lemma seek_start_step:
  assumes "control_step wrap file_seek_start w = (r, w')"
  shows "same_streams w w' \<and>
    (owned w \<longrightarrow> owned w' \<and> df_bytes (aw_file w') = df_bytes (aw_file w) \<and> (is_ok r \<longrightarrow> df_pos (aw_file w') = 0)) \<and>
    (quiet (aw_schedule w) \<longrightarrow> quiet (aw_schedule w') \<and> is_ok r)"
  using assms by (cases rule: control_step_elim) (auto simp: file_seek_start_def settle_def same_streams_def owned_def)

lemma seek_end_step:
  assumes "control_step wrap file_seek_end w = (r, w')" and "owned w"
  shows "same_streams w w' \<and> owned w' \<and> df_bytes (aw_file w') = df_bytes (aw_file w) \<and>
    (\<forall>n. r = Ok n \<longrightarrow> n = length (df_bytes (aw_file w))) \<and>
    (quiet (aw_schedule w) \<longrightarrow> quiet (aw_schedule w') \<and> is_ok r)"
  using assms
  by (cases rule: control_step_elim) (auto simp: file_seek_end_def settle_def same_streams_def owned_def Let_def)

lemma flush_step:
  assumes "control_step wrap file_flush w = (r, w')"
  shows "aw_file w' = aw_file w \<and> aw_in w' = aw_in w \<and> (quiet (aw_schedule w) \<longrightarrow> is_ok r)"
  using assms by (cases rule: control_step_elim) (auto simp: file_flush_def settle_def)

lemma require_source_eof_spec:
  assumes "require_source_eof w = (r, w')"
  shows "same_streams w w' \<and>
    (owned w \<longrightarrow> owned w' \<and> df_bytes (aw_file w') = df_bytes (aw_file w) \<and>
      (is_ok r \<longrightarrow> length (df_bytes (aw_file w)) \<le> df_pos (aw_file w))) \<and>
    (owned w \<and> quiet (aw_schedule w) \<and> length (df_bytes (aw_file w)) \<le> df_pos (aw_file w) \<longrightarrow>
      quiet (aw_schedule w') \<and> is_ok r)"
proof -
  obtain x w1 where step: "control_step Io_LocalIo (file_read 1) w = (x, w1)" by fastforce
  note read = file_read_step [OF step]
  show ?thesis
  proof (cases x)
    case (Inl e)
    then have "r = Err e" "w' = w1" using assms step by (simp_all add: require_source_eof_def st_bind_def)
    with read Inl show ?thesis by auto
  next
    case (Inr bs)
    then have r: "r = (if bs \<noteq> [] then Err Io_SourceChanged else Ok ())" "w' = w1"
      using assms step by (auto simp: require_source_eof_def st_bind_def)
    have "bs = []" if "owned w" "length (df_bytes (aw_file w)) \<le> df_pos (aw_file w)"
      using read Inr that by auto
    with read r Inr show ?thesis by auto
  qed
qed

lemma hash_source_spec:
  assumes "hash_source blake3 n w = (r, w')"
  shows "same_streams w w' \<and> (\<forall>d. r = Ok d \<longrightarrow> (\<exists>xs. length xs = n \<and> d = blake3 xs)) \<and>
    (owned w \<longrightarrow> owned w' \<and> df_bytes (aw_file w') = df_bytes (aw_file w) \<and>
      (\<forall>d. r = Ok d \<longrightarrow> n = length (df_bytes (aw_file w)) \<and> d = blake3 (df_bytes (aw_file w)))) \<and>
    (owned w \<and> quiet (aw_schedule w) \<and> n = length (df_bytes (aw_file w)) \<and> n \<le> unat MAX_TRANSFER_BYTES \<longrightarrow>
      quiet (aw_schedule w') \<and> is_ok r)"
proof (cases "unat MAX_TRANSFER_BYTES < n")
  case True
  with assms show ?thesis by (auto simp: hash_source_def same_streams_def)
next
  case small: False
  obtain a w1 where s1: "control_step Io_LocalIo file_seek_start w = (a, w1)" by fastforce
  obtain b w2 where s2: "hash_prefix n [] w1 = (b, w2)" by fastforce
  obtain c w3 where s3: "require_source_eof w2 = (c, w3)" by fastforce
  note f1 = seek_start_step [OF s1] and f2 = hash_prefix_spec [OF s2] and f3 = require_source_eof_spec [OF s3]
  have run: "(r, w') = (case a of Err e \<Rightarrow> (Err e, w1) | Ok _ \<Rightarrow> (case b of Err e \<Rightarrow> (Err e, w2) | Ok h \<Rightarrow>
      (case c of Err e \<Rightarrow> (Err e, w3) | Ok _ \<Rightarrow> (Ok (blake3 h), w3))))"
    using assms small s1 s2 s3 by (auto simp: hash_source_def st_bind_def split: sum.splits)
  show ?thesis
  proof (cases "is_ok a \<and> is_ok b")
    case False
    with run f1 f2 small show ?thesis by (auto split: sum.splits simp: same_streams_def)
  next
    case True
    then obtain h where ok: "a = Ok ()" "b = Ok h" by auto
    have xs: "length h = n" using f2 ok(2) by auto
    have owned: "owned w2 \<and> df_bytes (aw_file w2) = df_bytes (aw_file w) \<and> df_pos (aw_file w2) = n \<and>
        h = take n (df_bytes (aw_file w))" if "owned w"
      using f1 f2 ok that by auto
    have "n = length (df_bytes (aw_file w)) \<and> blake3 h = blake3 (df_bytes (aw_file w))" if "owned w" "is_ok c"
      using owned [OF that(1)] f3 that(2) xs by auto
    moreover have "quiet (aw_schedule w3) \<and> is_ok c" if "owned w" "quiet (aw_schedule w)" "n = length (df_bytes (aw_file w))"
      using f1 f2 f3 owned [OF that(1)] that by auto
    moreover have "same_streams w w3" using f1 f2 f3 by (metis same_streams_trans)
    ultimately show ?thesis using run ok xs owned f3 small by (cases c) auto
  qed
qed

lemma begin_progress_simps [simp]:
  "begin_progress n k w = (r, w') \<longleftrightarrow> r = Ok () \<and> w' = w\<lparr>aw_progress := progress_new n k\<rparr>"
  by (auto simp: begin_progress_def)

lemma send_payload_Ok:
  assumes "send_payload blake3 m offset w = (Ok u, w')"
  shows "\<exists>content. length content = unat (tm_byte_len m) \<and> blake3 content = tm_blake3 m \<and>
    unat offset \<le> unat (tm_byte_len m) \<and>
    wr_bytes (aw_out w') = wr_bytes (aw_out w) @ drop (unat offset) content"
proof -
  let ?n = "unat (tm_byte_len m)" and ?k = "unat offset"
  from assms obtain d w1 w2 pre w3 h w4 where k: "?k \<le> ?n"
    and s1: "hash_source blake3 ?n w = (Ok d, w1)" and s2: "control_step Io_LocalIo file_seek_start w1 = (Ok (), w2)"
    and s3: "hash_prefix ?k [] w2 = (Ok pre, w3)"
    and s4: "send_loop ?n ?k pre (w3\<lparr>aw_progress := progress_new ?n ?k\<rparr>) = (Ok h, w4)"
    and s5: "require_source_eof w4 = (Ok (), w')" and d: "blake3 h = tm_blake3 m"
    by (auto simp: send_payload_def Let_def st_bind_Ok not_less split: if_splits)
  from hash_prefix_spec [OF s3] have pre: "length pre = ?k" by auto
  from sending.copy_loop_spec [OF s4 [unfolded send_loop_def]] obtain ys where ys: "h = pre @ ys" "length ys = ?n - ?k"
    "wr_bytes (aw_out w4) = wr_bytes (aw_out w3) @ ys" by auto
  have "aw_out w3 = aw_out w" "aw_out w' = aw_out w4"
    using hash_source_spec [OF s1] seek_start_step [OF s2] hash_prefix_spec [OF s3] require_source_eof_spec [OF s5]
    by (auto simp: same_streams_def)
  with k pre ys d show ?thesis by (intro exI [of _ h]) simp
qed

lemma send_payload_changed:
  assumes "owned w" and "send_payload blake3 m offset w = (r, w')"
    and "\<not> (length (df_bytes (aw_file w)) = unat (tm_byte_len m) \<and> blake3 (df_bytes (aw_file w)) = tm_blake3 m)"
  shows "(\<exists>e. r = Err e) \<and> aw_out w' = aw_out w"
proof -
  obtain x w1 where s1: "hash_source blake3 (unat (tm_byte_len m)) w = (x, w1)" by fastforce
  from hash_source_spec [OF s1] assms(1,3) have "aw_out w1 = aw_out w" "\<forall>d. x = Ok d \<longrightarrow> d \<noteq> tm_blake3 m"
    by (auto simp: same_streams_def)
  with assms(2) s1 show ?thesis
    by (cases x) (auto simp: send_payload_def Let_def st_bind_def split: if_splits)
qed

lemma send_payload_live:
  assumes "owned w" and "quiet (aw_schedule w)" and "length (df_bytes (aw_file w)) = unat (tm_byte_len m)"
    and "blake3 (df_bytes (aw_file w)) = tm_blake3 m" and "tm_byte_len m \<le> MAX_TRANSFER_BYTES"
    and "offset \<le> tm_byte_len m" and "unat (tm_byte_len m) - unat offset \<le> wr_room (aw_out w)"
  shows "\<exists>w'. send_payload blake3 m offset w = (Ok (), w') \<and>
    wr_bytes (aw_out w') = wr_bytes (aw_out w) @ drop (unat offset) (df_bytes (aw_file w))"
proof -
  let ?n = "unat (tm_byte_len m)" and ?k = "unat offset" and ?X = "df_bytes (aw_file w)"
  have k: "?k \<le> ?n" "?n \<le> unat MAX_TRANSFER_BYTES" using assms(5,6) by (simp_all add: word_le_nat_alt)
  obtain a w1 where s1: "hash_source blake3 ?n w = (a, w1)" by fastforce
  from hash_source_spec [OF s1] assms(1-4) k(2) have f1: "a = Ok (tm_blake3 m)" "same_streams w w1" "owned w1"
    "quiet (aw_schedule w1)" "df_bytes (aw_file w1) = ?X" by auto
  obtain b w2 where s2: "control_step Io_LocalIo file_seek_start w1 = (b, w2)" by fastforce
  from seek_start_step [OF s2] f1 have f2: "b = Ok ()" "same_streams w1 w2" "owned w2" "quiet (aw_schedule w2)"
    "df_bytes (aw_file w2) = ?X" "df_pos (aw_file w2) = 0" by auto
  obtain c w3 where s3: "hash_prefix ?k [] w2 = (c, w3)" by fastforce
  from hash_prefix_spec [OF s3] f2 assms(3) k(1) have f3: "c = Ok (take ?k ?X)" "same_streams w2 w3" "owned w3"
    "quiet (aw_schedule w3)" "df_bytes (aw_file w3) = ?X" "df_pos (aw_file w3) = ?k" by auto
  define w4 where "w4 = w3\<lparr>aw_progress := progress_new ?n ?k\<rparr>"
  have out: "aw_out w4 = aw_out w" using f1(2) f2(2) f3(2) by (simp add: w4_def same_streams_def)
  obtain d w5 where s4: "send_loop ?n ?k (take ?k ?X) w4 = (d, w5)" by fastforce
  have "is_ok d \<and> quiet (aw_schedule w5)"
    using sending.copy_loop_spec [OF s4 [unfolded send_loop_def]] f3 assms(3,7) out by (auto simp: w4_def owned_def)
  then obtain h where h: "d = Ok h" "quiet (aw_schedule w5)" by auto
  from sending.copy_loop_spec [OF s4 [unfolded send_loop_def]] h(1) f3(3,5,6) obtain ys zs where ys: "h = take ?k ?X @ ys"
    "length ys = ?n - ?k" "wr_bytes (aw_out w5) = wr_bytes (aw_out w4) @ ys" "drop ?k ?X = ys @ zs"
    "zs = drop (df_pos (aw_file w5)) (df_bytes (aw_file w5))" "owned w5"
    by (auto simp: w4_def owned_def)
  have "zs = []" using ys(2,4) assms(3) by (metis append_eq_append_conv append_Nil2 length_drop)
  with ys have whole: "drop ?k ?X = ys" "h = ?X" "length (df_bytes (aw_file w5)) \<le> df_pos (aw_file w5)"
    by (simp_all, metis append_take_drop_id)
  obtain g w6 where s5: "require_source_eof w5 = (g, w6)" by fastforce
  from require_source_eof_spec [OF s5] ys(6) h(2) whole(3) have "g = Ok ()" "aw_out w6 = aw_out w5"
    by (auto simp: same_streams_def)
  moreover have "send_payload blake3 m offset w = (Ok (), w6)"
    using s1 s2 s3 s4 s5 f1(1) f2(1) f3(1) h(1) whole(2) calculation(1) k(1) assms(4)
    by (simp add: send_payload_def Let_def st_bind_def begin_progress_def flip: w4_def)
  ultimately show ?thesis using ys(3) whole(1) out by simp
qed

lemma rename_partial_Ok [simp]: "rename_partial x = (Ok a, w) \<longleftrightarrow> x = (Ok a, w)"
  by (cases x) (auto simp: rename_partial_def)

text \<open>The part of a reception before its loop leaves file and stream as they were.\<close>

lemma receive_prelude:
  assumes "owned w" and "control_step Io_LocalIo file_seek_end w = (a, w1)"
    and "control_step Io_LocalIo file_seek_start w1 = (b, w2)" and "hash_prefix k [] w2 = (c, w3)"
  shows "\<forall>v \<in> {w1, w2, w3}. owned v \<and> df_bytes (aw_file v) = df_bytes (aw_file w) \<and> same_streams w v"
    and "is_ok b \<Longrightarrow> c = Ok h \<Longrightarrow> a = Ok k \<Longrightarrow>
      h = df_bytes (aw_file w) \<and> k = length (df_bytes (aw_file w)) \<and> df_pos (aw_file w3) = k"
    and "quiet (aw_schedule w) \<Longrightarrow> k = length (df_bytes (aw_file w)) \<Longrightarrow>
      a = Ok k \<and> b = Ok () \<and> is_ok c \<and> quiet (aw_schedule w3)"
proof -
  note f1 = seek_end_step [OF assms(2,1)] and f2 = seek_start_step [OF assms(3)] and f3 = hash_prefix_spec [OF assms(4)]
  show "\<forall>v \<in> {w1, w2, w3}. owned v \<and> df_bytes (aw_file v) = df_bytes (aw_file w) \<and> same_streams w v"
    using f1 f2 f3 by (auto intro: same_streams_trans)
  show "h = df_bytes (aw_file w) \<and> k = length (df_bytes (aw_file w)) \<and> df_pos (aw_file w3) = k"
    if "is_ok b" "c = Ok h" "a = Ok k"
    using f1 f2 f3 that by auto
  show "a = Ok k \<and> b = Ok () \<and> is_ok c \<and> quiet (aw_schedule w3)"
    if "quiet (aw_schedule w)" "k = length (df_bytes (aw_file w))"
    using f1 f2 f3 that by auto
qed

lemma receive_payload_Ok:
  assumes "receive_payload blake3 m offset w = (Ok u, w')" and "owned w"
  shows "length (df_bytes (aw_file w)) = unat offset \<and> rd_end (aw_in w) = Eof \<and>
    df_bytes (aw_file w') = df_bytes (aw_file w) @ rd_bytes (aw_in w) \<and>
    length (df_bytes (aw_file w')) = unat (tm_byte_len m) \<and> blake3 (df_bytes (aw_file w')) = tm_blake3 m"
proof -
  let ?n = "unat (tm_byte_len m)" and ?k = "unat offset"
  from assms(1) obtain w1 w2 pre w3 h w5 w6 where k: "?k \<le> ?n"
    and s1: "control_step Io_LocalIo file_seek_end w = (Ok ?k, w1)"
    and s2: "control_step Io_LocalIo file_seek_start w1 = (Ok (), w2)" and s3: "hash_prefix ?k [] w2 = (Ok pre, w3)"
    and s4: "receive_loop ?n ?k pre (w3\<lparr>aw_progress := progress_new ?n ?k\<rparr>) = (Ok h, w5)"
    and s5: "control_step Io_StreamIo (net_read 1) w5 = (Ok [], w6)" and d: "blake3 h = tm_blake3 m"
    and s6: "control_step Io_LocalIo file_flush w6 = (Ok u, w')"
    by (auto simp: receive_payload_def Let_def st_bind_Ok not_less split: if_splits)
  note pre = receive_prelude(1) [OF assms(2) s1 s2 s3] receive_prelude(2) [OF assms(2) s1 s2 s3 _ refl refl]
  from receiving.copy_loop_spec [OF s4 [unfolded receive_loop_def], of "rd_end (aw_in w)"] pre obtain ys where ys: "h = pre @ ys"
    "length ys = ?n - ?k" "df_bytes (aw_file w5) = df_bytes (aw_file w) @ ys"
    "rd_bytes (aw_in w) = ys @ rd_bytes (aw_in w5)" "rd_end (aw_in w5) = rd_end (aw_in w)"
    by (auto simp: owned_def same_streams_def)
  from net_read_step [OF s5] flush_step [OF s6] ys pre k d show ?thesis by auto
qed

lemma receive_payload_partial:
  assumes "receive_payload blake3 m offset w = (r, w')" and "owned w"
  shows "\<exists>ys zs. df_bytes (aw_file w') = df_bytes (aw_file w) @ ys \<and> rd_bytes (aw_in w) = ys @ zs \<and>
    length (df_bytes (aw_file w')) \<le> max (length (df_bytes (aw_file w))) (unat (tm_byte_len m))"
proof -
  let ?n = "unat (tm_byte_len m)" and ?k = "unat offset"
  obtain a w1 where s1: "control_step Io_LocalIo file_seek_end w = (a, w1)" by fastforce
  obtain b w2 where s2: "control_step Io_LocalIo file_seek_start w1 = (b, w2)" by fastforce
  obtain c w3 where s3: "hash_prefix ?k [] w2 = (c, w3)" by fastforce
  define w4 where "w4 = w3\<lparr>aw_progress := progress_new ?n ?k\<rparr>"
  obtain d w5 where s4: "receive_loop ?n ?k (projr c) w4 = (d, w5)" by fastforce
  obtain x w6 where s5: "control_step Io_StreamIo (net_read 1) w5 = (x, w6)" by fastforce
  obtain g w7 where s6: "control_step Io_LocalIo file_flush w6 = (g, w7)" by fastforce
  have cases: "w' \<in> {w, w1, w2, w3} \<or> (a = Ok ?k \<and> is_ok b \<and> is_ok c \<and> w' \<in> {w5, w6, w7})"
    using assms(1) s1 s2 s3 s4 s5 s6
    by (auto simp: receive_payload_def Let_def st_bind_def begin_progress_def rename_partial_def
        split: sum.splits if_splits simp flip: w4_def)
  note pre = receive_prelude(1) [OF assms(2) s1 s2 s3]
  show ?thesis
  proof (cases "w' \<in> {w, w1, w2, w3}")
    case True
    with pre have "df_bytes (aw_file w') = df_bytes (aw_file w)" by auto
    then show ?thesis by (intro exI [of _ "[]"] exI [of _ "rd_bytes (aw_in w)"]) simp
  next
    case False
    with cases obtain h where ok: "a = Ok ?k" "is_ok b" "c = Ok h" and w': "w' \<in> {w5, w6, w7}" by auto
    note at = receive_prelude(2) [OF assms(2) s1 s2 s3 ok(2,3,1)]
    have w4: "owned w4" "df_bytes (aw_file w4) = df_bytes (aw_file w)" "rd_bytes (aw_in w4) = rd_bytes (aw_in w)"
      "df_pos (aw_file w4) = length (df_bytes (aw_file w))"
      using pre at by (auto simp: w4_def owned_def same_streams_def)
    from receiving.copy_loop_spec [OF s4 [unfolded receive_loop_def], of "rd_end (aw_in w4)"] w4
    obtain ys zs where "df_bytes (aw_file w5) = df_bytes (aw_file w) @ ys" "length ys \<le> ?n - ?k"
      "rd_bytes (aw_in w) = ys @ zs" by auto
    moreover have "aw_file w' = aw_file w5" using w' net_read_step [OF s5] flush_step [OF s6] by auto
    ultimately show ?thesis using at by auto
  qed
qed

lemma receive_payload_live:
  assumes "owned w" and "quiet (aw_schedule w)" and "length (df_bytes (aw_file w)) = unat offset"
    and "length (df_bytes (aw_file w) @ rd_bytes (aw_in w)) = unat (tm_byte_len m)"
    and "blake3 (df_bytes (aw_file w) @ rd_bytes (aw_in w)) = tm_blake3 m" and "rd_end (aw_in w) = Eof"
  shows "\<exists>w'. receive_payload blake3 m offset w = (Ok (), w')"
proof -
  let ?n = "unat (tm_byte_len m)" and ?k = "unat offset"
  obtain a w1 where s1: "control_step Io_LocalIo file_seek_end w = (a, w1)" by fastforce
  obtain b w2 where s2: "control_step Io_LocalIo file_seek_start w1 = (b, w2)" by fastforce
  obtain c w3 where s3: "hash_prefix ?k [] w2 = (c, w3)" by fastforce
  note pre = receive_prelude(1) [OF assms(1) s1 s2 s3]
  from receive_prelude(3) [OF assms(1) s1 s2 s3 assms(2)] assms(3) obtain h where
    ok: "a = Ok ?k" "b = Ok ()" "c = Ok h" "quiet (aw_schedule w3)" by auto
  have at: "h = df_bytes (aw_file w)" "df_pos (aw_file w3) = ?k"
    using receive_prelude(2) [OF assms(1) s1 s2 s3 _ ok(3,1)] ok(2) by auto
  define w4 where "w4 = w3\<lparr>aw_progress := progress_new ?n ?k\<rparr>"
  have w4: "owned w4" "df_bytes (aw_file w4) = df_bytes (aw_file w)" "aw_in w4 = aw_in w"
    "df_pos (aw_file w4) = length (df_bytes (aw_file w))" "quiet (aw_schedule w4)"
    using pre at assms(3) ok(4) by (auto simp: w4_def owned_def same_streams_def)
  obtain d w5 where s4: "receive_loop ?n ?k h w4 = (d, w5)" by fastforce
  note loop = receiving.copy_loop_spec [OF s4 [unfolded receive_loop_def], of "rd_end (aw_in w)"]
  have "is_ok d \<and> quiet (aw_schedule w5)" using loop w4 assms(3,4) by auto
  then obtain h' where d: "d = Ok h'" "quiet (aw_schedule w5)" by auto
  from loop w4 d(1) assms(3) obtain ys where ys: "h' = h @ ys" "length ys = ?n - ?k" "rd_end (aw_in w5) = rd_end (aw_in w)"
    "rd_bytes (aw_in w) = ys @ rd_bytes (aw_in w5)" by auto
  have rest: "rd_bytes (aw_in w5) = []" using ys(2,4) assms(3,4) by (metis add_diff_cancel_left' append_self_conv append_eq_append_conv append_Nil2 length_append)
  obtain x w6 where s5: "control_step Io_StreamIo (net_read 1) w5 = (x, w6)" by fastforce
  from net_read_step [OF s5] rest d(2) ys(3) assms(6) have x: "x = Ok []" "quiet (aw_schedule w6)" by auto
  obtain g w7 where s6: "control_step Io_LocalIo file_flush w6 = (g, w7)" by fastforce
  with flush_step [OF s6] x(2) have "g = Ok ()" by auto
  moreover have "blake3 h' = tm_blake3 m" using ys(1,4) at(1) rest assms(5) by simp
  ultimately have "receive_payload blake3 m offset w = (Ok (), w7)"
    using s1 s2 s3 s4 s5 s6 ok x(1) d(1) assms(3,4)
    by (simp add: receive_payload_def Let_def st_bind_def begin_progress_def rename_partial_def flip: w4_def)
  then show ?thesis by blast
qed

lemma file_metadata_step:
  assumes "control_step wrap file_metadata w = (r, w')" and "owned w"
  shows "owned w' \<and> aw_file w' = aw_file w \<and>
    (\<forall>x. r = Ok x \<longrightarrow> x = (df_regular (aw_file w), length (df_bytes (aw_file w))))"
  using assms by (cases rule: control_step_elim) (auto simp: file_metadata_def settle_def owned_def Let_def)

lemma prep_io_Ok: "prep_io f w = (Ok a, w') \<longleftrightarrow> f w = (Ok a, w')"
  by (cases "f w") (auto simp: prep_io_def)

section \<open>Properties\<close>

text \<open>
  C7: a reception that succeeds produced the promised file. The staging file it owns had exactly the
  accepted offset, now holds its old bytes followed by the whole stream up to its clean end, has the
  exact length of the offer, and its digest is the offered digest.
\<close>

theorem receive_payload_verified:
  assumes "receive_payload blake3 m offset w = (Ok (), w')" and "owned w"
  shows "length (df_bytes (aw_file w)) = unat offset \<and> rd_end (aw_in w) = Eof \<and>
    df_bytes (aw_file w') = df_bytes (aw_file w) @ rd_bytes (aw_in w) \<and>
    length (df_bytes (aw_file w')) = unat (tm_byte_len m) \<and> blake3 (df_bytes (aw_file w')) = tm_blake3 m"
  by (rule receive_payload_Ok [OF assms])

theorem receive_payload_verified_witness:
  "\<exists>w'. receive_payload zero_digest example_payload 2
      (example_world [Go 1, Go 1, Go 1, Go 1] (take 2 example_content) (drop 2 example_content)) = (Ok (), w') \<and>
    df_bytes (aw_file w') = example_content"
proof -
  let ?w = "example_world [Go 1, Go 1, Go 1, Go 1] (take 2 example_content) (drop 2 example_content)"
  have "owned ?w" "quiet (aw_schedule ?w)" "length (df_bytes (aw_file ?w)) = unat (2 :: u64)"
    "length (df_bytes (aw_file ?w) @ rd_bytes (aw_in ?w)) = unat (tm_byte_len example_payload)"
    "zero_digest (df_bytes (aw_file ?w) @ rd_bytes (aw_in ?w)) = tm_blake3 example_payload" "rd_end (aw_in ?w) = Eof"
    by (simp_all add: owned_def quiet_def example_world_def example_content_def example_payload_def zero_digest_def)
  with receive_payload_live obtain w' where run: "receive_payload zero_digest example_payload 2 ?w = (Ok (), w')" by blast
  from receive_payload_verified [OF this \<open>owned ?w\<close>] run show ?thesis by (simp add: example_world_def)
qed

text \<open>
  C28: whatever happens to a reception, its staging file stays a valid partial. On every outcome,
  including cancellation, deadlines and I/O errors at any step, the file keeps its old bytes and gains
  only a prefix of the stream, never past the offered length.
\<close>

theorem receive_keeps_valid_partial:
  assumes "receive_payload blake3 m offset w = (r, w')" and "owned w"
  shows "\<exists>ys zs. df_bytes (aw_file w') = df_bytes (aw_file w) @ ys \<and> rd_bytes (aw_in w) = ys @ zs \<and>
    length (df_bytes (aw_file w')) \<le> max (length (df_bytes (aw_file w))) (unat (tm_byte_len m))"
  by (rule receive_payload_partial [OF assms])

theorem receive_keeps_valid_partial_witness:
  "let w' = snd (receive_payload zero_digest example_payload 2
      (example_world [Go 1, Go 1, Go 1, Go 1, Go 1, Go 1, Cancel] (take 2 example_content) (drop 2 example_content))) in
   length (df_bytes (aw_file w')) \<le> 5"
proof -
  let ?w = "example_world [Go 1, Go 1, Go 1, Go 1, Go 1, Go 1, Cancel] (take 2 example_content) (drop 2 example_content)"
  obtain r w' where run: "receive_payload zero_digest example_payload 2 ?w = (r, w')" by fastforce
  have "owned ?w" by (simp add: owned_def example_world_def)
  from receive_keeps_valid_partial [OF run this] show ?thesis
    unfolding run Let_def snd_conv by (auto simp: example_world_def example_content_def example_payload_def)
qed

text \<open>
  A sender only ever delivers the offered file. If a send succeeds, then even if other processes
  rewrote the source at any moment, the bytes written are the suffix of one byte string with the offered
  length and digest; and if the source no one else touches is not the offered file, the send fails
  before a single byte is written.
\<close>

theorem send_payload_sound:
  assumes "send_payload blake3 m offset w = (r, w')"
  shows "(r = Ok () \<longrightarrow> (\<exists>content. length content = unat (tm_byte_len m) \<and> blake3 content = tm_blake3 m \<and>
      unat offset \<le> unat (tm_byte_len m) \<and>
      wr_bytes (aw_out w') = wr_bytes (aw_out w) @ drop (unat offset) content)) \<and>
    (owned w \<and> (length (df_bytes (aw_file w)) \<noteq> unat (tm_byte_len m) \<or> blake3 (df_bytes (aw_file w)) \<noteq> tm_blake3 m) \<longrightarrow>
      (\<exists>e. r = Err e) \<and> aw_out w' = aw_out w)"
  using send_payload_Ok [of blake3 m offset w "()" w'] send_payload_changed [of w blake3 m offset r w'] assms by blast

theorem send_payload_sound_witness:
  "\<exists>e. fst (send_payload zero_digest example_payload 0 (example_world [] [1, 2, 3] [])) = Err e"
proof -
  let ?w = "example_world [] [1, 2, 3] []"
  obtain r w' where run: "send_payload zero_digest example_payload 0 ?w = (r, w')" by fastforce
  have "owned ?w" "length (df_bytes (aw_file ?w)) \<noteq> unat (tm_byte_len example_payload)"
    by (simp_all add: owned_def example_world_def example_payload_def)
  with send_payload_sound [OF run] run show ?thesis by simp
qed

text \<open>
  C29: a resumed transfer delivers the file. When the sender's source is the offered file, the receiver
  holds its first \<open>offset\<close> bytes and the stream carries what the sender writes, both sides succeed for
  every way the environment splits reads and writes, and the receiver ends with the whole file.
\<close>

theorem resumed_transfer_delivers:
  assumes "owned s" and "quiet (aw_schedule s)" and "owned v" and "quiet (aw_schedule v)"
    and "content = df_bytes (aw_file s)" and "length content = unat (tm_byte_len m)" and "blake3 content = tm_blake3 m"
    and "tm_byte_len m \<le> MAX_TRANSFER_BYTES" and "offset \<le> tm_byte_len m"
    and "wr_bytes (aw_out s) = []" and "length content \<le> wr_room (aw_out s)"
    and "df_bytes (aw_file v) = take (unat offset) content"
    and "aw_in v = \<lparr>rd_bytes = wr_bytes (aw_out (snd (send_payload blake3 m offset s))), rd_end = Eof\<rparr>"
  shows "\<exists>s' v'. send_payload blake3 m offset s = (Ok (), s') \<and> receive_payload blake3 m offset v = (Ok (), v') \<and>
    df_bytes (aw_file v') = content"
proof -
  have k: "unat offset \<le> length content" using assms(6,9) by (simp add: word_le_nat_alt)
  have "unat (tm_byte_len m) - unat offset \<le> wr_room (aw_out s)" using assms(6,11) by simp
  then obtain s' where send: "send_payload blake3 m offset s = (Ok (), s')" "wr_bytes (aw_out s') = drop (unat offset) content"
    using send_payload_live [of s m blake3 offset] assms by auto
  then have inc: "rd_bytes (aw_in v) = drop (unat offset) content" "rd_end (aw_in v) = Eof" using assms(13) by simp_all
  then have whole: "df_bytes (aw_file v) @ rd_bytes (aw_in v) = content" using assms(12) by simp
  obtain v' where recv: "receive_payload blake3 m offset v = (Ok (), v')"
    using receive_payload_live [of v offset m blake3] assms(3,4,6,7,12) whole inc k by auto
  from receive_payload_Ok [OF recv assms(3)] whole send recv show ?thesis by simp
qed

theorem resumed_transfer_delivers_witness:
  "\<exists>s' v'. send_payload zero_digest example_payload 2 (example_world [Go 2, Go 3] example_content []) = (Ok (), s') \<and>
     receive_payload zero_digest example_payload 2
       (example_world [Go 1] (take 2 example_content) (wr_bytes (aw_out (snd
         (send_payload zero_digest example_payload 2 (example_world [Go 2, Go 3] example_content [])))))) = (Ok (), v') \<and>
     df_bytes (aw_file v') = example_content"
  by (rule resumed_transfer_delivers)
    (simp_all add: owned_def quiet_def example_world_def example_content_def example_payload_def zero_digest_def
      MAX_TRANSFER_BYTES_def)

text \<open>
  Preparation describes the source exactly. The metadata of a source that nobody rewrites has its
  length, within the configured limit, its digest, and the last component of the path as a file name
  that passed the portable-name checks; only regular files are prepared.
\<close>

theorem prepare_source_exact:
  assumes "prepare_source blake3 path max_file_bytes w = (Ok m, w')" and "owned w"
  shows "unat (tm_byte_len m) = length (df_bytes (aw_file w)) \<and> tm_blake3 m = blake3 (df_bytes (aw_file w)) \<and>
    tm_byte_len m \<le> max_file_bytes \<and> max_file_bytes \<le> MAX_TRANSFER_BYTES \<and> df_regular (aw_file w) \<and>
    (\<exists>name. path_file_name path = Some name \<and> file_name_new name = Ok (tm_file_name m))"
proof -
  from assms(1) obtain name fn w1 len digest w2 x where limit: "max_file_bytes \<le> MAX_TRANSFER_BYTES"
    and name: "path_file_name path = Some name" "file_name_new name = Ok fn"
    and s1: "control_step Io_LocalIo file_metadata w = (Ok (True, len), w1)" and len: "len \<le> unat max_file_bytes"
    and s2: "hash_source blake3 len w1 = (Ok digest, w2)"
    and s3: "control_step Io_LocalIo file_metadata w2 = (Ok (x, len), w')"
    and m: "metadata_new fn (of_nat len) digest = Ok m"
    by (auto simp: prepare_source_def st_bind_Ok prep_io_Ok not_less split: if_splits)
  note f1 = file_metadata_step [OF s1 assms(2)]
  then have "owned w1" "aw_file w1 = aw_file w" by simp_all
  with hash_source_spec [OF s2] f1 have f2: "len = length (df_bytes (aw_file w))" "digest = blake3 (df_bytes (aw_file w))"
    "df_regular (aw_file w)" by auto
  have "unat max_file_bytes < 2 ^ 64" using unsigned_less [of max_file_bytes] by simp
  then have u: "unat (of_nat len :: u64) = len"
    using len by (simp add: unat_of_nat take_bit_eq_mod)
  have "m = \<lparr>tm_file_name = fn, tm_byte_len = of_nat len, tm_blake3 = digest\<rparr>"
    using m by (auto simp: metadata_new_def result_simps)
  with f2 u len limit name show ?thesis by (simp add: word_le_nat_alt)
qed

theorem prepare_source_exact_witness:
  "\<exists>m w'. prepare_source zero_digest (SourcePath ''/home/notes.txt'') 10 (example_world [] [1, 2, 3] []) = (Ok m, w') \<and>
     unat (tm_byte_len m) = 3"
proof -
  have name: "path_file_name (SourcePath ''/home/notes.txt'') = Some ''notes.txt''" by code_simp
  have valid: "file_name_new ''notes.txt'' = Ok (TransferFileName ''notes.txt'')" by code_simp
  obtain m w' where run:
    "prepare_source zero_digest (SourcePath ''/home/notes.txt'') 10 (example_world [] [1, 2, 3] []) = (Ok m, w')"
    by (simp add: prepare_source_def name valid st_bind_def prep_io_def control_step_def settle_def file_metadata_def
        hash_source_def hash_prefix.simps require_source_eof_def file_seek_start_def file_read_def read_count_def
        budget_def Let_def example_world_def metadata_new_def validate_byte_len_def MAX_TRANSFER_BYTES_def
        STREAM_BUFFER_SIZE_def)
  have "owned (example_world [] [1, 2, 3] [])" by (simp add: owned_def example_world_def)
  from prepare_source_exact [OF run this] run show ?thesis by (simp add: example_world_def)
qed

end
