(* ===== verification/Transfer_Record.thy ===== *)
theory Transfer_Record
  imports Transfer_Stream
begin

text \<open>
  The private on-disk transfer records of \<open>crates/rift-transfer/src/record.rs\<close>: the checksummed
  envelope, its decoder, the reader that takes a record from an open file under an attempt's control,
  and the binding of markers to their manifest. The file is the one of the attempt's world, read from
  its current position.
\<close>

section \<open>Data\<close>

definition MAX_TRANSFER_RECORD_PAYLOAD_LEN :: nat where
  "MAX_TRANSFER_RECORD_PAYLOAD_LEN = 8 * 1024"

definition XFER_MAGIC :: bytes where
  "XFER_MAGIC = [82, 73, 70, 84, 88, 70, 69, 82]"

definition XFER_VERSION :: nat where
  "XFER_VERSION = 1"

definition XFER_HEADER_LEN :: nat where
  "XFER_HEADER_LEN = 14"

definition XFER_CHECKSUM_LEN :: nat where
  "XFER_CHECKSUM_LEN = 32"

definition MAX_TRANSFER_RECORD_LEN :: nat where
  "MAX_TRANSFER_RECORD_LEN = XFER_HEADER_LEN + MAX_TRANSFER_RECORD_PAYLOAD_LEN + XFER_CHECKSUM_LEN"

datatype manifest_source = Manifest_Outgoing source_path | Manifest_Incoming

record transfer_manifest =
  mf_transfer_id :: transfer_id
  mf_peer :: device_id
  mf_metadata :: transfer_metadata
  mf_source :: manifest_source

datatype terminal_origin = Origin_Local | Origin_Peer

datatype transfer_record =
    Rec_Manifest transfer_manifest
  | Rec_Accepted bytes
  | Rec_Terminal bytes transfer_terminal_status terminal_origin

datatype transfer_record_error =
    Rec_Io transfer_io_error
  | Rec_Length
  | Rec_Magic
  | Rec_Version
  | Rec_TooLarge
  | Rec_Checksum
  | Rec_Decode
  | Rec_TrailingPayload
  | Rec_Encode
  | Rec_NotMarker
  | Rec_ManifestMismatch
  | Rec_InvalidRole

text \<open>What the hand-written deserializers inside a record accept.\<close>

fun record_visit :: "transfer_record \<Rightarrow> bool" where
  "record_visit (Rec_Manifest m) =
     (metadata_visit (mf_metadata m) \<and>
      (case mf_source m of
         Manifest_Outgoing p \<Rightarrow> source_path_new (sp_text p) = Ok p
       | Manifest_Incoming \<Rightarrow> True))"
| "record_visit (Rec_Accepted _) = True"
| "record_visit (Rec_Terminal _ _ _) = True"

section \<open>The envelope\<close>

text \<open>\<open>postcard::to_slice\<close> fails when the value does not fit the fixed buffer.\<close>

definition encode_transfer_record ::
  "(bytes \<Rightarrow> bytes) \<Rightarrow> transfer_record postcard \<Rightarrow> transfer_record \<Rightarrow> (transfer_record_error, bytes) result" where
  "encode_transfer_record blake3 pc r =
     (case to_stdvec pc r of
        None \<Rightarrow> Err Rec_Encode
      | Some payload \<Rightarrow>
          if MAX_TRANSFER_RECORD_PAYLOAD_LEN < length payload then Err Rec_Encode
          else (let body = XFER_MAGIC @ be_encode 2 XFER_VERSION @ be_encode 4 (length payload) @ payload in
            Ok (body @ blake3 body)))"

definition payload_length :: "bytes \<Rightarrow> (transfer_record_error, nat) result" where
  "payload_length header =
     (if take 8 header \<noteq> XFER_MAGIC then Err Rec_Magic
      else if be_decode (slice header 8 2) \<noteq> XFER_VERSION then Err Rec_Version
      else (let n = be_decode (slice header 10 4) in
        if MAX_TRANSFER_RECORD_PAYLOAD_LEN < n then Err Rec_TooLarge
        else if n = 0 then Err Rec_Length
        else Ok n))"

definition decode_record_payload ::
  "transfer_record postcard \<Rightarrow> bytes \<Rightarrow> (transfer_record_error, transfer_record) result" where
  "decode_record_payload pc payload =
     (case take_from_bytes pc payload of
        None \<Rightarrow> Err Rec_Decode
      | Some (r, trailing) \<Rightarrow>
          if \<not> record_visit r then Err Rec_Decode
          else if trailing \<noteq> [] then Err Rec_TrailingPayload
          else Ok r)"

definition decode_transfer_record ::
  "(bytes \<Rightarrow> bytes) \<Rightarrow> transfer_record postcard \<Rightarrow> bytes \<Rightarrow> (transfer_record_error, transfer_record) result" where
  "decode_transfer_record blake3 pc bs =
     (if length bs < XFER_HEADER_LEN then Err Rec_Length
      else and_then (payload_length (take XFER_HEADER_LEN bs)) (\<lambda>n.
        if length bs \<noteq> XFER_HEADER_LEN + n + XFER_CHECKSUM_LEN then Err Rec_Length
        else if blake3 (take (XFER_HEADER_LEN + n) bs) \<noteq> drop (XFER_HEADER_LEN + n) bs then Err Rec_Checksum
        else decode_record_payload pc (slice bs XFER_HEADER_LEN n)))"

section \<open>Markers\<close>

definition record_digest ::
  "(bytes \<Rightarrow> bytes) \<Rightarrow> transfer_record postcard \<Rightarrow> transfer_manifest \<Rightarrow> (transfer_record_error, bytes) result" where
  "record_digest blake3 pc m =
     and_then (encode_transfer_record blake3 pc (Rec_Manifest m)) (\<lambda>bs. Ok (blake3 bs))"

definition marker_role :: "transfer_record \<Rightarrow> bool \<Rightarrow> (transfer_record_error, unit) result" where
  "marker_role r incoming =
     (case r of
        Rec_Accepted _ \<Rightarrow> if \<not> incoming then Err Rec_InvalidRole else Ok ()
      | Rec_Terminal _ status origin \<Rightarrow>
          if status \<in> {Status_Completed, Status_Rejected} \<and> incoming \<noteq> (origin = Origin_Local)
          then Err Rec_InvalidRole else Ok ()
      | _ \<Rightarrow> Ok ())"

definition validate_marker ::
  "(bytes \<Rightarrow> bytes) \<Rightarrow> transfer_record postcard \<Rightarrow> transfer_manifest \<Rightarrow> transfer_record \<Rightarrow>
     (transfer_record_error, unit) result" where
  "validate_marker blake3 pc m r =
     and_then (case r of
         Rec_Manifest _ \<Rightarrow> Err Rec_NotMarker
       | Rec_Accepted d \<Rightarrow> Ok d
       | Rec_Terminal d _ _ \<Rightarrow> Ok d) (\<lambda>binding.
     and_then (record_digest blake3 pc m) (\<lambda>digest.
       if binding \<noteq> digest then Err Rec_ManifestMismatch
       else marker_role r (mf_source m = Manifest_Incoming)))"

section \<open>Reading from an open file\<close>

definition rec_step :: "'a file_op \<Rightarrow> attempt_world \<Rightarrow> (transfer_record_error, 'a) result \<times> attempt_world" where
  "rec_step op w = (case control_step Io_LocalIo op w of (r, w') \<Rightarrow> (map_err Rec_Io r, w'))"

function read_record_bytes ::
  "nat \<Rightarrow> attempt_world \<Rightarrow> (transfer_record_error, bytes) result \<times> attempt_world" where
  "read_record_bytes n w =
     (if n = 0 then (Ok [], w)
      else (case rec_step (file_read n) w of
          (Err e, w') \<Rightarrow> (Err e, w')
        | (Ok bs, w') \<Rightarrow>
            if bs = [] then (Err Rec_Length, w')
            else (case read_record_bytes (n - length bs) w' of
                (Err e, w'') \<Rightarrow> (Err e, w'')
              | (Ok rest, w'') \<Rightarrow> (Ok (bs @ rest), w''))))"
  by pat_completeness auto
termination
  by (relation "measure (\<lambda>(n, w). n)") auto

declare read_record_bytes.simps [simp del]

definition read_transfer_record ::
  "(bytes \<Rightarrow> bytes) \<Rightarrow> transfer_record postcard \<Rightarrow> attempt_world \<Rightarrow>
     (transfer_record_error, transfer_record) result \<times> attempt_world" where
  "read_transfer_record blake3 pc =
     st_bind (read_record_bytes XFER_HEADER_LEN) (\<lambda>header.
     st_bind (\<lambda>w. (payload_length header, w)) (\<lambda>n.
     st_bind (read_record_bytes (n + XFER_CHECKSUM_LEN)) (\<lambda>body.
     st_bind (rec_step (file_read 1)) (\<lambda>extra w.
       (if extra \<noteq> [] then Err Rec_Length else decode_transfer_record blake3 pc (header @ body), w)))))"

section \<open>Example values\<close>

definition example_manifest :: transfer_manifest where
  "example_manifest = \<lparr>mf_transfer_id = TransferId (replicate 16 2), mf_peer = DeviceId (replicate 32 1),
     mf_metadata = \<lparr>tm_file_name = TransferFileName ''notes.txt'', tm_byte_len = 5, tm_blake3 = replicate 32 0\<rparr>,
     mf_source = Manifest_Incoming\<rparr>"

definition example_record_codec :: "transfer_record postcard" where
  "example_record_codec = table_codec [Rec_Manifest example_manifest, Rec_Accepted (replicate 32 0),
     Rec_Terminal (replicate 32 0) Status_Completed Origin_Local]"

definition example_envelope :: "byte \<Rightarrow> bytes" where
  "example_envelope b = XFER_MAGIC @ [0, 1, 0, 0, 0, 1, b] @ replicate 32 0"

section \<open>Lemmas on the envelope\<close>

lemma length_XFER_MAGIC [simp]: "length XFER_MAGIC = 8"
  by (simp add: XFER_MAGIC_def)

lemma slice_take: "i + n \<le> k \<Longrightarrow> slice (take k bs) i n = slice bs i n"
  by (simp add: slice_def drop_take min_absorb1)

lemma header_split:
  assumes "14 \<le> length bs"
  shows "take 14 bs = take 8 bs @ slice bs 8 2 @ slice bs 10 4"
proof -
  have "take (8 + (2 + 4)) bs = take 8 bs @ take (2 + 4) (drop 8 bs)" by (rule take_add)
  also have "take (2 + 4) (drop 8 bs) = take 2 (drop 8 bs) @ take 4 (drop 2 (drop 8 bs))" by (rule take_add)
  finally show ?thesis by (simp add: slice_def)
qed

lemma payload_length_Ok:
  assumes "length header = XFER_HEADER_LEN"
  shows "payload_length header = Ok n \<longleftrightarrow>
    header = XFER_MAGIC @ be_encode 2 XFER_VERSION @ be_encode 4 n \<and> 0 < n \<and> n \<le> MAX_TRANSFER_RECORD_PAYLOAD_LEN"
proof
  assume ok: "payload_length header = Ok n"
  have len: "length (slice header 8 2) = 2" "length (slice header 10 4) = 4"
    using assms by (simp_all add: slice_def XFER_HEADER_LEN_def)
  from ok have f: "take 8 header = XFER_MAGIC" "be_decode (slice header 8 2) = XFER_VERSION"
    "be_decode (slice header 10 4) = n" "0 < n" "n \<le> MAX_TRANSFER_RECORD_PAYLOAD_LEN"
    by (auto simp: payload_length_def Let_def split: if_splits)
  have "header = take 8 header @ slice header 8 2 @ slice header 10 4"
    using header_split [of header] assms by (simp add: XFER_HEADER_LEN_def)
  then show "header = XFER_MAGIC @ be_encode 2 XFER_VERSION @ be_encode 4 n \<and> 0 < n \<and>
      n \<le> MAX_TRANSFER_RECORD_PAYLOAD_LEN"
    using f be_encode_decode [of "slice header 8 2"] be_encode_decode [of "slice header 10 4"] len by metis
next
  assume h: "header = XFER_MAGIC @ be_encode 2 XFER_VERSION @ be_encode 4 n \<and> 0 < n \<and>
      n \<le> MAX_TRANSFER_RECORD_PAYLOAD_LEN"
  then have "take 8 header = XFER_MAGIC" "slice header 8 2 = be_encode 2 XFER_VERSION"
    "slice header 10 4 = be_encode 4 n"
    by (simp_all add: slice_def)
  with h show "payload_length header = Ok n"
    by (simp add: payload_length_def be_decode_encode XFER_VERSION_def MAX_TRANSFER_RECORD_PAYLOAD_LEN_def)
qed

lemma decode_record_payload_Ok:
  "decode_record_payload pc payload = Ok r \<longleftrightarrow> take_from_bytes pc payload = Some (r, []) \<and> record_visit r"
  by (auto simp: decode_record_payload_def split: option.splits if_splits)

text \<open>A byte string is accepted exactly when it is the envelope of a payload.\<close>

lemma decode_transfer_record_Ok:
  assumes "digest_ok blake3"
  shows "decode_transfer_record blake3 pc bs = Ok r \<longleftrightarrow>
    (\<exists>payload. let body = XFER_MAGIC @ be_encode 2 XFER_VERSION @ be_encode 4 (length payload) @ payload in
       bs = body @ blake3 body \<and> 0 < length payload \<and> length payload \<le> MAX_TRANSFER_RECORD_PAYLOAD_LEN \<and>
       decode_record_payload pc payload = Ok r)"
proof
  assume ok: "decode_transfer_record blake3 pc bs = Ok r"
  let ?h = "take XFER_HEADER_LEN bs"
  from ok have len: "XFER_HEADER_LEN \<le> length bs" by (auto simp: decode_transfer_record_def split: if_splits)
  with ok obtain n where n: "payload_length ?h = Ok n" "length bs = XFER_HEADER_LEN + n + XFER_CHECKSUM_LEN"
    "blake3 (take (XFER_HEADER_LEN + n) bs) = drop (XFER_HEADER_LEN + n) bs"
    "decode_record_payload pc (slice bs XFER_HEADER_LEN n) = Ok r"
    by (auto simp: decode_transfer_record_def result_simps split: if_splits)
  define payload where "payload = slice bs XFER_HEADER_LEN n"
  have pl: "length payload = n" using n(2) by (simp add: payload_def slice_def)
  from n(1) len have h: "?h = XFER_MAGIC @ be_encode 2 XFER_VERSION @ be_encode 4 n" "0 < n"
    "n \<le> MAX_TRANSFER_RECORD_PAYLOAD_LEN"
    by (simp_all add: payload_length_Ok)
  have "take (XFER_HEADER_LEN + n) bs = ?h @ payload" by (simp add: payload_def slice_def take_add)
  then have body: "take (XFER_HEADER_LEN + n) bs = XFER_MAGIC @ be_encode 2 XFER_VERSION @ be_encode 4 n @ payload"
    using h(1) by simp
  have "bs = take (XFER_HEADER_LEN + n) bs @ drop (XFER_HEADER_LEN + n) bs" by simp
  with body n(3) have "bs = (XFER_MAGIC @ be_encode 2 XFER_VERSION @ be_encode 4 n @ payload) @
      blake3 (XFER_MAGIC @ be_encode 2 XFER_VERSION @ be_encode 4 n @ payload)" by metis
  with pl h(2,3) n(4) show "\<exists>payload. let body = XFER_MAGIC @ be_encode 2 XFER_VERSION @ be_encode 4 (length payload) @ payload in
       bs = body @ blake3 body \<and> 0 < length payload \<and> length payload \<le> MAX_TRANSFER_RECORD_PAYLOAD_LEN \<and>
       decode_record_payload pc payload = Ok r"
    unfolding Let_def payload_def by metis
next
  assume "\<exists>payload. let body = XFER_MAGIC @ be_encode 2 XFER_VERSION @ be_encode 4 (length payload) @ payload in
       bs = body @ blake3 body \<and> 0 < length payload \<and> length payload \<le> MAX_TRANSFER_RECORD_PAYLOAD_LEN \<and>
       decode_record_payload pc payload = Ok r"
  then obtain payload where p: "0 < length payload" "length payload \<le> MAX_TRANSFER_RECORD_PAYLOAD_LEN"
    "decode_record_payload pc payload = Ok r" and
    bs: "bs = (XFER_MAGIC @ be_encode 2 XFER_VERSION @ be_encode 4 (length payload) @ payload) @
      blake3 (XFER_MAGIC @ be_encode 2 XFER_VERSION @ be_encode 4 (length payload) @ payload)"
    unfolding Let_def by blast
  define h where "h = XFER_MAGIC @ be_encode 2 XFER_VERSION @ be_encode 4 (length payload)"
  have h: "length h = XFER_HEADER_LEN" "payload_length h = Ok (length payload)"
    using p(1,2) by (simp_all add: h_def XFER_HEADER_LEN_def payload_length_Ok)
  have bs': "bs = h @ payload @ blake3 (h @ payload)" using bs by (simp add: h_def)
  have "length (blake3 (h @ payload)) = XFER_CHECKSUM_LEN"
    using assms by (simp add: digest_ok_def XFER_CHECKSUM_LEN_def)
  with bs' h p(3) show "decode_transfer_record blake3 pc bs = Ok r"
    by (simp add: decode_transfer_record_def slice_def)
qed

lemma encode_transfer_record_Ok:
  "encode_transfer_record blake3 pc r = Ok bs \<longleftrightarrow>
    (\<exists>payload. to_stdvec pc r = Some payload \<and> length payload \<le> MAX_TRANSFER_RECORD_PAYLOAD_LEN \<and>
       (let body = XFER_MAGIC @ be_encode 2 XFER_VERSION @ be_encode 4 (length payload) @ payload in
        bs = body @ blake3 body))"
  by (auto simp: encode_transfer_record_def Let_def split: option.splits if_splits)

text \<open>What was encoded decodes to itself and fits the ceiling.\<close>

lemma decode_encoded_record:
  assumes "digest_ok blake3" and "postcard_ok pc"
    and "encode_transfer_record blake3 pc q = Ok cs" and "record_visit q" and "to_stdvec pc q \<noteq> Some []"
  shows "decode_transfer_record blake3 pc cs = Ok q \<and> length cs \<le> MAX_TRANSFER_RECORD_LEN"
proof -
  from assms(3) obtain payload where p: "to_stdvec pc q = Some payload"
    "length payload \<le> MAX_TRANSFER_RECORD_PAYLOAD_LEN"
    "cs = (XFER_MAGIC @ be_encode 2 XFER_VERSION @ be_encode 4 (length payload) @ payload) @
       blake3 (XFER_MAGIC @ be_encode 2 XFER_VERSION @ be_encode 4 (length payload) @ payload)"
    unfolding encode_transfer_record_Ok Let_def by blast
  have "take_from_bytes pc (payload @ []) = Some (q, [])"
    using assms(2) p(1) unfolding postcard_ok_def by blast
  then have "decode_record_payload pc payload = Ok q" using assms(4) by (simp add: decode_record_payload_Ok)
  moreover have "0 < length payload" using assms(5) p(1) by auto
  moreover have "length cs \<le> MAX_TRANSFER_RECORD_LEN"
    using p(2,3) assms(1)
    by (simp add: digest_ok_def MAX_TRANSFER_RECORD_LEN_def XFER_HEADER_LEN_def XFER_CHECKSUM_LEN_def)
  ultimately show ?thesis using p(2,3) unfolding decode_transfer_record_Ok [OF assms(1)] Let_def by blast
qed

section \<open>Lemmas on reading\<close>

lemma rec_step_read:
  assumes "rec_step (file_read n) w = (r, w')" and "owned w"
  shows "owned w' \<and> df_bytes (aw_file w') = df_bytes (aw_file w) \<and>
    (\<forall>bs. r = Ok bs \<longrightarrow> bs = take (length bs) (drop (df_pos (aw_file w)) (df_bytes (aw_file w))) \<and> length bs \<le> n \<and>
       df_pos (aw_file w') = df_pos (aw_file w) + length bs \<and>
       (bs = [] \<longrightarrow> n = 0 \<or> length (df_bytes (aw_file w)) \<le> df_pos (aw_file w))) \<and>
    (quiet (aw_schedule w) \<longrightarrow> quiet (aw_schedule w') \<and> is_ok r)"
proof -
  obtain x w1 where step: "control_step Io_LocalIo (file_read n) w = (x, w1)" by fastforce
  with assms(1) have "r = map_err Rec_Io x" "w' = w1" by (simp_all add: rec_step_def)
  with file_read_step [OF step] assms(2) show ?thesis by (cases x) auto
qed

lemma read_record_bytes_spec:
  "read_record_bytes n w = (r, w') \<Longrightarrow> owned w \<Longrightarrow>
    owned w' \<and> df_bytes (aw_file w') = df_bytes (aw_file w) \<and>
    (\<forall>bs. r = Ok bs \<longrightarrow> bs = take n (drop (df_pos (aw_file w)) (df_bytes (aw_file w))) \<and> length bs = n \<and>
       df_pos (aw_file w') = df_pos (aw_file w) + n) \<and>
    (quiet (aw_schedule w) \<longrightarrow> quiet (aw_schedule w') \<and>
       (if df_pos (aw_file w) + n \<le> length (df_bytes (aw_file w)) \<or> n = 0 then is_ok r else r = Err Rec_Length))"
proof (induction n w arbitrary: r w' rule: read_record_bytes.induct)
  case (1 n w)
  show ?case
  proof (cases "n = 0")
    case True
    with "1.prems" show ?thesis by (auto simp: read_record_bytes.simps)
  next
    case False
    obtain x w1 where step: "rec_step (file_read n) w = (x, w1)" by fastforce
    note read = rec_step_read [OF step "1.prems"(2)]
    show ?thesis
    proof (cases "\<exists>bs. x = Ok bs \<and> bs \<noteq> []")
      case stop: False
      then have "r = Err (case x of Err e \<Rightarrow> e | Ok _ \<Rightarrow> Rec_Length)" "w' = w1"
        using "1.prems"(1) step False by (auto simp: read_record_bytes.simps split: sum.splits)
      with read stop False show ?thesis by (auto split: sum.splits)
    next
      case True
      then obtain bs where x: "x = Ok bs" "bs \<noteq> []" by blast
      obtain y w2 where rest: "read_record_bytes (n - length bs) w1 = (y, w2)" by fastforce
      have r: "r = map_sum id (append bs) y" "w' = w2"
        using "1.prems"(1) step False x rest by (auto simp: read_record_bytes.simps split: sum.splits)
      note ih = "1.IH" [OF False step [symmetric] x rest]
      from read x have b: "bs = take (length bs) (drop (df_pos (aw_file w)) (df_bytes (aw_file w)))"
        "length bs \<le> n" "df_pos (aw_file w1) = df_pos (aw_file w) + length bs" "owned w1"
        "df_bytes (aw_file w1) = df_bytes (aw_file w)" by auto
      have "length bs \<le> length (df_bytes (aw_file w)) - df_pos (aw_file w)"
        using b(1) by (metis length_drop length_take min.cobounded1)
      then have "df_pos (aw_file w) + length bs \<le> length (df_bytes (aw_file w))"
        using x(2) by (cases "df_pos (aw_file w) \<le> length (df_bytes (aw_file w))") auto
      moreover have "bs @ take (n - length bs) (drop (df_pos (aw_file w) + length bs) (df_bytes (aw_file w))) =
          take n (drop (df_pos (aw_file w)) (df_bytes (aw_file w)))"
        by (subst next_bytes [OF b(1)]) (simp add: b(2))
      moreover have "quiet (aw_schedule w) \<longrightarrow> quiet (aw_schedule w1)" using read by blast
      ultimately show ?thesis using ih [OF b(4)] r b(2,3,5) by (cases y) (auto split: if_splits)
    qed
  qed
qed

lemma read_is_decode:
  assumes "owned w" and "quiet (aw_schedule w)"
  shows "fst (read_transfer_record blake3 pc w) =
    decode_transfer_record blake3 pc (drop (df_pos (aw_file w)) (df_bytes (aw_file w)))"
proof -
  let ?X = "drop (df_pos (aw_file w)) (df_bytes (aw_file w))"
  obtain a w1 where s1: "read_record_bytes XFER_HEADER_LEN w = (a, w1)" by fastforce
  note f1 = read_record_bytes_spec [OF s1 assms(1)]
  show ?thesis
  proof (cases "length ?X < XFER_HEADER_LEN")
    case True
    then have "a = Err Rec_Length" using f1 assms(2) by (auto simp: XFER_HEADER_LEN_def split: if_splits)
    with s1 True show ?thesis by (simp add: read_transfer_record_def decode_transfer_record_def st_bind_def)
  next
    case False
    define h where "h = take XFER_HEADER_LEN ?X"
    from False f1 assms(2) have a: "a = Ok h" "owned w1" "quiet (aw_schedule w1)"
      "df_bytes (aw_file w1) = df_bytes (aw_file w)" "df_pos (aw_file w1) = df_pos (aw_file w) + XFER_HEADER_LEN"
      by (auto simp: h_def XFER_HEADER_LEN_def split: if_splits)
    show ?thesis
    proof (cases "payload_length h")
      case (Inl e)
      with s1 a(1) False show ?thesis
        by (simp add: read_transfer_record_def decode_transfer_record_def st_bind_def flip: h_def)
    next
      case (Inr n)
      let ?m = "n + XFER_CHECKSUM_LEN"
      obtain b w2 where s2: "read_record_bytes ?m w1 = (b, w2)" by fastforce
      note f2 = read_record_bytes_spec [OF s2 a(2)]
      obtain c w3 where s3: "rec_step (file_read 1) w2 = (c, w3)" by fastforce
      note f3 = rec_step_read [OF s3]
      have dec: "decode_transfer_record blake3 pc ?X = Err Rec_Length" if "length ?X \<noteq> XFER_HEADER_LEN + ?m"
        using False Inr that by (simp add: decode_transfer_record_def add.assoc flip: h_def)
      have run: "fst (read_transfer_record blake3 pc w) = and_then b (\<lambda>body. and_then c (\<lambda>extra.
          if extra \<noteq> [] then Err Rec_Length else decode_transfer_record blake3 pc (h @ body)))"
        using s1 a(1) Inr s2 s3 by (cases b; cases c) (auto simp: read_transfer_record_def st_bind_def)
      show ?thesis
      proof (cases "length ?X < XFER_HEADER_LEN + ?m")
        case True
        then have b: "b = Err Rec_Length" using f2 a(3,4,5) by (auto simp: XFER_CHECKSUM_LEN_def split: if_splits)
        have "length ?X \<noteq> XFER_HEADER_LEN + ?m" using True by linarith
        then show ?thesis unfolding run b and_then.simps by (rule sym [OF dec])
      next
        case big: False
        then have "df_pos (aw_file w1) + ?m \<le> length (df_bytes (aw_file w1))"
          using a(4,5) by (simp add: XFER_HEADER_LEN_def XFER_CHECKSUM_LEN_def)
        with f2 a(3) obtain body where ok: "b = Ok body" by auto
        with f2 a(4,5) have b: "b = Ok body" "body = take ?m (drop XFER_HEADER_LEN ?X)"
          "owned w2" "df_bytes (aw_file w2) = df_bytes (aw_file w)"
          "df_pos (aw_file w2) = df_pos (aw_file w) + XFER_HEADER_LEN + ?m"
          by (simp_all add: add.commute)
        have quiet2: "quiet (aw_schedule w2)" using f2 a(3) by blast
        from f3 [OF b(3)] quiet2 obtain extra where c: "c = Ok extra" by auto
        have extra: "extra = [] \<longleftrightarrow> length ?X = XFER_HEADER_LEN + ?m"
          using f3 [OF b(3)] c b(4,5) big by auto
        have "h @ body = take (XFER_HEADER_LEN + ?m) ?X" using b(2) by (simp add: h_def take_add)
        then have "h @ body = ?X" if "extra = []" using extra that by (metis order_refl take_all)
        with dec extra show ?thesis unfolding run b(1) c and_then.simps by (metis (full_types))
      qed
    qed
  qed
qed

lemma read_record_quiet:
  assumes "read_transfer_record blake3 pc w = (Ok r, w')" and "owned w" and "quiet (aw_schedule w)"
  shows "quiet (aw_schedule w')"
proof -
  from assms(1) obtain h w1 n b w2 x where s: "read_record_bytes XFER_HEADER_LEN w = (Ok h, w1)"
    "read_record_bytes n w1 = (Ok b, w2)" "rec_step (file_read 1) w2 = (Ok x, w')"
    by (auto simp: read_transfer_record_def st_bind_Ok)
  from read_record_bytes_spec [OF s(1) assms(2)] assms(3) have 1: "owned w1" "quiet (aw_schedule w1)" by blast+
  from read_record_bytes_spec [OF s(2) 1(1)] 1(2) have 2: "owned w2" "quiet (aw_schedule w2)" by blast+
  from rec_step_read [OF s(3) 2(1)] 2(2) show ?thesis by blast
qed

lemma example_record_codec_ok [simp]: "postcard_ok example_record_codec"
  by (simp add: example_record_codec_def table_codec_ok)

lemma example_manifest_visit: "record_visit (Rec_Manifest example_manifest)"
proof -
  have "file_name_new ''notes.txt'' = Ok (TransferFileName ''notes.txt'')" by code_simp
  then show ?thesis
    by (simp add: example_manifest_def metadata_visit_def validate_byte_len_def MAX_TRANSFER_BYTES_def)
qed

lemma example_encodings:
  "encode_transfer_record zero_digest example_record_codec (Rec_Manifest example_manifest) = Ok (example_envelope 0)"
  "encode_transfer_record zero_digest example_record_codec (Rec_Accepted (replicate 32 0)) = Ok (example_envelope 1)"
  "encode_transfer_record zero_digest example_record_codec
     (Rec_Terminal (replicate 32 0) Status_Completed Origin_Local) = Ok (example_envelope 2)"
  by (simp_all add: encode_transfer_record_Ok Let_def example_record_codec_def table_codec_def example_envelope_def
      zero_digest_def be_encode_numeral XFER_VERSION_def MAX_TRANSFER_RECORD_PAYLOAD_LEN_def)

lemma example_payload_bytes:
  "to_stdvec example_record_codec (Rec_Manifest example_manifest) = Some [0]"
  "to_stdvec example_record_codec (Rec_Accepted (replicate 32 0)) = Some [1]"
  by (simp_all add: example_record_codec_def table_codec_def)

section \<open>Properties\<close>

text \<open>
  The envelope of a transfer record is exact. A byte string decodes to a record precisely when it is
  the magic, the version, the length and a non-empty bounded payload followed by the digest of all of
  these, and the payload decodes to the record with nothing left over; so no record is accepted with a
  changed header, length, payload or checksum, and every encoded record decodes to itself.
\<close>

theorem record_envelope_exact:
  assumes "digest_ok blake3" and "postcard_ok pc"
  shows "(decode_transfer_record blake3 pc bs = Ok r \<longleftrightarrow>
      (\<exists>payload. let body = XFER_MAGIC @ be_encode 2 XFER_VERSION @ be_encode 4 (length payload) @ payload in
        bs = body @ blake3 body \<and> 0 < length payload \<and> length payload \<le> MAX_TRANSFER_RECORD_PAYLOAD_LEN \<and>
        take_from_bytes pc payload = Some (r, []) \<and> record_visit r)) \<and>
    (encode_transfer_record blake3 pc q = Ok cs \<and> record_visit q \<and> to_stdvec pc q \<noteq> Some [] \<longrightarrow>
      decode_transfer_record blake3 pc cs = Ok q \<and> length cs \<le> MAX_TRANSFER_RECORD_LEN)"
  using decode_encoded_record [OF assms, of q cs]
  by (auto simp: decode_transfer_record_Ok [OF assms(1)] decode_record_payload_Ok)

theorem record_envelope_exact_witness:
  "decode_transfer_record zero_digest example_record_codec (example_envelope 0) = Ok (Rec_Manifest example_manifest)"
  using record_envelope_exact [OF zero_digest_ok example_record_codec_ok, of "[]" "Rec_Accepted []"
      "Rec_Manifest example_manifest" "example_envelope 0"]
    example_encodings(1) example_manifest_visit example_payload_bytes(1) by simp

text \<open>
  C31: reading a record from an open file is decoding the rest of the file. However the environment splits
  the reads of a file that nobody else writes, the incremental reader returns exactly what the decoder
  says of all bytes from the current position to the end, errors included.
\<close>

theorem read_record_equals_decode:
  assumes "owned w" and "quiet (aw_schedule w)"
  shows "fst (read_transfer_record blake3 pc w) =
    decode_transfer_record blake3 pc (drop (df_pos (aw_file w)) (df_bytes (aw_file w)))"
  by (rule read_is_decode [OF assms])

theorem read_record_equals_decode_witness:
  "fst (read_transfer_record zero_digest example_record_codec (example_world [Go 1, Go 3] (example_envelope 7) [])) =
     decode_transfer_record zero_digest example_record_codec (example_envelope 7)"
  using read_record_equals_decode [of "example_world [Go 1, Go 3] (example_envelope 7) []" zero_digest example_record_codec]
  by (simp add: owned_def quiet_def example_world_def)

text \<open>
  A marker belongs to one manifest. If one acceptance or terminal marker validates against two
  manifests, then either the manifests are equal or their encodings, which differ, have the same digest;
  and an acceptance validates only for an incoming manifest, a completion or rejection only when the
  receiving side decided it.
\<close>

theorem marker_binds_manifest:
  assumes "postcard_ok pc" and "validate_marker blake3 pc m r = Ok ()" and "validate_marker blake3 pc m' r = Ok ()"
  shows "(m = m' \<or> (\<exists>x y. encode_transfer_record blake3 pc (Rec_Manifest m) = Ok x \<and>
      encode_transfer_record blake3 pc (Rec_Manifest m') = Ok y \<and> x \<noteq> y \<and> blake3 x = blake3 y)) \<and>
    (case r of
       Rec_Manifest _ \<Rightarrow> False
     | Rec_Accepted _ \<Rightarrow> mf_source m = Manifest_Incoming
     | Rec_Terminal _ status origin \<Rightarrow> status \<in> {Status_Completed, Status_Rejected} \<longrightarrow>
         (mf_source m = Manifest_Incoming \<longleftrightarrow> origin = Origin_Local))"
proof -
  obtain x y where enc: "encode_transfer_record blake3 pc (Rec_Manifest m) = Ok x"
    "encode_transfer_record blake3 pc (Rec_Manifest m') = Ok y" "blake3 x = blake3 y"
    using assms(2,3) by (auto simp: validate_marker_def record_digest_def result_simps split: if_splits)
  have "m = m'" if "x = y"
  proof -
    from enc that obtain p q where pq: "to_stdvec pc (Rec_Manifest m) = Some p" "to_stdvec pc (Rec_Manifest m') = Some q"
      "length p \<le> MAX_TRANSFER_RECORD_PAYLOAD_LEN" "length q \<le> MAX_TRANSFER_RECORD_PAYLOAD_LEN"
      "(XFER_MAGIC @ be_encode 2 XFER_VERSION @ be_encode 4 (length p) @ p) @
         blake3 (XFER_MAGIC @ be_encode 2 XFER_VERSION @ be_encode 4 (length p) @ p) =
       (XFER_MAGIC @ be_encode 2 XFER_VERSION @ be_encode 4 (length q) @ q) @
         blake3 (XFER_MAGIC @ be_encode 2 XFER_VERSION @ be_encode 4 (length q) @ q)"
      unfolding encode_transfer_record_Ok Let_def by blast
    then have "be_encode 4 (length p) = be_encode 4 (length q)" by simp
    then have "length p = length q" using pq(3,4)
      by (simp add: be_encode_inject MAX_TRANSFER_RECORD_PAYLOAD_LEN_def)
    with pq(5) have "p = q" by simp
    moreover have "take_from_bytes pc p = Some (Rec_Manifest m, [])" "take_from_bytes pc q = Some (Rec_Manifest m', [])"
      using assms(1) pq(1,2) unfolding postcard_ok_def by (metis append_Nil2)+
    ultimately show ?thesis by simp
  qed
  moreover have "case r of Rec_Manifest _ \<Rightarrow> False
     | Rec_Accepted _ \<Rightarrow> mf_source m = Manifest_Incoming
     | Rec_Terminal _ status origin \<Rightarrow> status \<in> {Status_Completed, Status_Rejected} \<longrightarrow>
         (mf_source m = Manifest_Incoming \<longleftrightarrow> origin = Origin_Local)"
    using assms(2) by (auto simp: validate_marker_def marker_role_def result_simps split: transfer_record.splits if_splits)
  ultimately show ?thesis using enc by blast
qed

theorem marker_binds_manifest_witness:
  "validate_marker zero_digest example_record_codec example_manifest (Rec_Accepted (replicate 32 0)) = Ok () \<and>
   mf_source example_manifest = Manifest_Incoming"
proof -
  have ok: "validate_marker zero_digest example_record_codec example_manifest (Rec_Accepted (replicate 32 0)) = Ok ()"
    by (simp add: validate_marker_def record_digest_def example_encodings marker_role_def zero_digest_def)
      (simp add: example_manifest_def)
  from marker_binds_manifest [OF example_record_codec_ok ok ok] ok show ?thesis by simp
qed

end
