(* ===== verification/Transfer_Store.thy ===== *)
theory Transfer_Store
  imports Transfer_Record
begin

text \<open>
  The startup scan of \<open>crates/rift-transfer/src/store.rs\<close> on Unix. The state directory is the
  metadata and the entries that the operating system reports, in the order it reports them; every
  awaited call goes through the attempt's control. A record file carries its metadata before the open
  and of the opened handle, which differ when the path was replaced in between.
\<close>

section \<open>Data\<close>

definition MAX_DURABLE_TRANSFERS :: nat where
  "MAX_DURABLE_TRANSFERS = 4096"

definition MAX_DURABLE_TRANSFERS_PER_PEER :: nat where
  "MAX_DURABLE_TRANSFERS_PER_PEER = 64"

record fs_meta =
  fm_symlink :: bool
  fm_dir :: bool
  fm_file :: bool
  fm_mode :: nat
  fm_nlink :: nat
  fm_dev :: nat
  fm_ino :: nat
  fm_len :: nat

text \<open>An entry's name is \<open>None\<close> when it is not UTF-8.\<close>

record fs_file =
  ff_name :: "string option"
  ff_before :: fs_meta
  ff_opened :: fs_meta
  ff_bytes :: bytes

record fs_dir =
  fd_name :: "string option"
  fd_meta :: fs_meta
  fd_files :: "fs_file list"

record state_directory =
  sd_meta :: fs_meta
  sd_dirs :: "fs_dir list"

record stored_transfer =
  sx_manifest :: transfer_manifest
  sx_accepted :: bool
  sx_terminal :: "(transfer_terminal_status \<times> terminal_origin) option"

datatype transfer_store_error =
    Sto_Io transfer_io_error
  | Sto_Record transfer_record_error
  | Sto_RecordLimit
  | Sto_PeerRecordLimit
  | Sto_InvalidEntry
  | Sto_UnsafeEntry
  | Sto_InsecurePermissions
  | Sto_RecordTooLarge
  | Sto_WrongRecordKind
  | Sto_MissingManifest
  | Sto_ManifestIdMismatch
  | Sto_InconsistentMarkers

type_synonym 'a scan = "attempt_world \<Rightarrow> (transfer_store_error, 'a) result \<times> attempt_world"

text \<open>An awaited call of the file system that returns \<open>v\<close>, and a check without I/O.\<close>

definition fs_op :: "'a \<Rightarrow> 'a file_op" where
  "fs_op v limit w = (Ready (Ok v), w)"

definition store_step :: "'a file_op \<Rightarrow> 'a scan" where
  "store_step op w = (case control_step Io_LocalIo op w of (r, w') \<Rightarrow> (map_err Sto_Io r, w'))"

definition check :: "(transfer_store_error, 'a) result \<Rightarrow> 'a scan" where
  "check r w = (r, w)"

section \<open>Entries\<close>

definition is_link :: "fs_meta \<Rightarrow> bool" where
  "is_link m = fm_symlink m"

text \<open>The permission bits of the mode, \<open>mode & 0o7777\<close>.\<close>

definition validate_permissions :: "fs_meta \<Rightarrow> nat \<Rightarrow> (transfer_store_error, unit) result" where
  "validate_permissions m expected =
     (if fm_mode m mod 4096 \<noteq> expected then Err Sto_InsecurePermissions else Ok ())"

definition PRIVATE_DIR :: nat where
  "PRIVATE_DIR = 448"

definition PRIVATE_FILE :: nat where
  "PRIVATE_FILE = 384"

definition validate_directory :: "fs_meta \<Rightarrow> unit scan" where
  "validate_directory m =
     st_bind (store_step (fs_op m)) (\<lambda>metadata.
     check (if is_link metadata \<or> \<not> fm_dir metadata then Err Sto_UnsafeEntry
            else validate_permissions metadata PRIVATE_DIR))"

definition validate_file :: "fs_meta \<Rightarrow> (transfer_store_error, unit) result" where
  "validate_file m =
     (if is_link m \<or> \<not> fm_file m then Err Sto_UnsafeEntry
      else if fm_nlink m \<noteq> 1 then Err Sto_UnsafeEntry
      else and_then (validate_permissions m PRIVATE_FILE) (\<lambda>_.
        if MAX_TRANSFER_RECORD_LEN < fm_len m then Err Sto_RecordTooLarge else Ok ()))"

text \<open>Opening a path makes its content the file of the attempt, at the start.\<close>

definition fs_open :: "fs_file \<Rightarrow> unit file_op" where
  "fs_open f limit w =
     (Ready (Ok ()), w\<lparr>aw_file := \<lparr>df_regular = fm_file (ff_opened f), df_bytes = ff_bytes f, df_pos = 0, df_rewrites = []\<rparr>\<rparr>)"

definition read_record ::
  "(bytes \<Rightarrow> bytes) \<Rightarrow> transfer_record postcard \<Rightarrow> fs_file \<Rightarrow> transfer_record scan" where
  "read_record blake3 pc f =
     st_bind (store_step (fs_op (ff_before f))) (\<lambda>before.
     st_bind (check (validate_file before)) (\<lambda>_.
     st_bind (store_step (fs_open f)) (\<lambda>_.
     st_bind (store_step (fs_op (ff_opened f))) (\<lambda>opened.
     st_bind (check (validate_file opened)) (\<lambda>_.
     st_bind (check (if fm_dev before \<noteq> fm_dev opened \<or> fm_ino before \<noteq> fm_ino opened
                     then Err Sto_UnsafeEntry else Ok ())) (\<lambda>_ w.
     case read_transfer_record blake3 pc w of (r, w') \<Rightarrow> (map_err Sto_Record r, w')))))))"

section \<open>One transfer directory\<close>

record found_records =
  fr_manifest :: "transfer_manifest option"
  fr_accepted :: "transfer_record option"
  fr_terminal :: "transfer_record option"

definition nothing_found :: found_records where
  "nothing_found = \<lparr>fr_manifest = None, fr_accepted = None, fr_terminal = None\<rparr>"

definition place_record :: "string \<Rightarrow> transfer_record \<Rightarrow> found_records \<Rightarrow> (transfer_store_error, found_records) result" where
  "place_record name r found =
     (case r of
        Rec_Manifest m \<Rightarrow>
          if name = ''manifest'' \<and> fr_manifest found = None then Ok (found\<lparr>fr_manifest := Some m\<rparr>)
          else Err Sto_WrongRecordKind
      | Rec_Accepted _ \<Rightarrow>
          if name = ''accepted'' \<and> fr_accepted found = None then Ok (found\<lparr>fr_accepted := Some r\<rparr>)
          else Err Sto_WrongRecordKind
      | Rec_Terminal _ _ _ \<Rightarrow>
          if name = ''terminal'' \<and> fr_terminal found = None then Ok (found\<lparr>fr_terminal := Some r\<rparr>)
          else Err Sto_WrongRecordKind)"

definition record_name :: "string option \<Rightarrow> (transfer_store_error, string) result" where
  "record_name n =
     and_then (ok_or n Sto_InvalidEntry) (\<lambda>name.
       if name \<notin> {''manifest'', ''accepted'', ''terminal''} then Err Sto_InvalidEntry else Ok name)"

fun scan_files ::
  "(bytes \<Rightarrow> bytes) \<Rightarrow> transfer_record postcard \<Rightarrow> fs_file list \<Rightarrow> nat \<Rightarrow> found_records \<Rightarrow> found_records scan" where
  "scan_files blake3 pc [] count found = st_bind (store_step (fs_op ())) (\<lambda>_. check (Ok found))"
| "scan_files blake3 pc (f # fs) count found =
     st_bind (store_step (fs_op ())) (\<lambda>_.
     if 3 < count + 1 then check (Err Sto_InvalidEntry)
     else st_bind (check (record_name (ff_name f))) (\<lambda>name.
     st_bind (read_record blake3 pc f) (\<lambda>r.
     st_bind (check (place_record name r found)) (\<lambda>found'.
     scan_files blake3 pc fs (count + 1) found'))))"

definition store_marker ::
  "(bytes \<Rightarrow> bytes) \<Rightarrow> transfer_record postcard \<Rightarrow> transfer_manifest \<Rightarrow> transfer_record option \<Rightarrow>
     (transfer_store_error, unit) result" where
  "store_marker blake3 pc m marker =
     (case marker of
        None \<Rightarrow> Ok ()
      | Some r \<Rightarrow> map_err Sto_Record (validate_marker blake3 pc m r))"

definition terminal_outcome ::
  "transfer_manifest \<Rightarrow> bool \<Rightarrow> transfer_record option \<Rightarrow>
     (transfer_store_error, (transfer_terminal_status \<times> terminal_origin) option) result" where
  "terminal_outcome m accepted terminal =
     (case terminal of
        None \<Rightarrow> Ok None
      | Some (Rec_Terminal _ status origin) \<Rightarrow>
          if mf_source m = Manifest_Incoming \<and>
             (status = Status_Completed \<and> \<not> accepted \<or> status = Status_Rejected \<and> accepted)
          then Err Sto_InconsistentMarkers
          else Ok (Some (status, origin))
      | Some _ \<Rightarrow> Err Sto_WrongRecordKind)"

definition resolve_records ::
  "(bytes \<Rightarrow> bytes) \<Rightarrow> transfer_record postcard \<Rightarrow> transfer_id \<Rightarrow> found_records \<Rightarrow>
     (transfer_store_error, stored_transfer) result" where
  "resolve_records blake3 pc i found =
     and_then (ok_or (fr_manifest found) Sto_MissingManifest) (\<lambda>m.
     if mf_transfer_id m \<noteq> i then Err Sto_ManifestIdMismatch
     else and_then (store_marker blake3 pc m (fr_accepted found)) (\<lambda>_.
          and_then (store_marker blake3 pc m (fr_terminal found)) (\<lambda>_.
          and_then (terminal_outcome m (fr_accepted found \<noteq> None) (fr_terminal found)) (\<lambda>outcome.
          Ok \<lparr>sx_manifest = m, sx_accepted = (fr_accepted found \<noteq> None), sx_terminal = outcome\<rparr>))))"

definition scan_record ::
  "(bytes \<Rightarrow> bytes) \<Rightarrow> transfer_record postcard \<Rightarrow> fs_dir \<Rightarrow> transfer_id \<Rightarrow> stored_transfer scan" where
  "scan_record blake3 pc d i =
     st_bind (validate_directory (fd_meta d)) (\<lambda>_.
     st_bind (store_step (fs_op ())) (\<lambda>_.
     st_bind (scan_files blake3 pc (fd_files d) 0 nothing_found) (\<lambda>found.
     check (resolve_records blake3 pc i found))))"

section \<open>The whole store\<close>

definition directory_id ::
  "(string \<Rightarrow> bytes option) \<Rightarrow> string option \<Rightarrow> (transfer_store_error, transfer_id) result" where
  "directory_id hex_decode n =
     and_then (ok_or n Sto_InvalidEntry) (\<lambda>name.
     map_err (\<lambda>_. Sto_InvalidEntry) (transfer_from_str hex_decode name))"

definition peer_count :: "(device_id \<times> nat) list \<Rightarrow> device_id \<Rightarrow> nat" where
  "peer_count counts d = (case bt_get counts d of None \<Rightarrow> 0 | Some n \<Rightarrow> n)"

definition admit_record ::
  "transfer_id \<Rightarrow> stored_transfer \<Rightarrow> (transfer_id \<times> stored_transfer) list \<Rightarrow> (device_id \<times> nat) list \<Rightarrow>
     (transfer_store_error, (transfer_id \<times> stored_transfer) list \<times> (device_id \<times> nat) list) result" where
  "admit_record i r records counts =
     (let peer = mf_peer (sx_manifest r); n = peer_count counts peer in
      if n = MAX_DURABLE_TRANSFERS_PER_PEER then Err Sto_PeerRecordLimit
      else if bt_contains records i then Err Sto_InvalidEntry
      else Ok (bt_insert i r records, bt_insert peer (n + 1) counts))"

fun scan_dirs ::
  "(bytes \<Rightarrow> bytes) \<Rightarrow> transfer_record postcard \<Rightarrow> (string \<Rightarrow> bytes option) \<Rightarrow> fs_dir list \<Rightarrow> (transfer_id \<times> stored_transfer) list \<Rightarrow>
     (device_id \<times> nat) list \<Rightarrow> (transfer_id \<times> stored_transfer) list scan" where
  "scan_dirs blake3 pc hex_decode [] records counts = st_bind (store_step (fs_op ())) (\<lambda>_. check (Ok records))"
| "scan_dirs blake3 pc hex_decode (d # ds) records counts =
     st_bind (store_step (fs_op ())) (\<lambda>_.
     if length records = MAX_DURABLE_TRANSFERS then check (Err Sto_RecordLimit)
     else st_bind (check (directory_id hex_decode (fd_name d))) (\<lambda>i.
     st_bind (scan_record blake3 pc d i) (\<lambda>r.
     st_bind (check (admit_record i r records counts)) (\<lambda>(records', counts').
     scan_dirs blake3 pc hex_decode ds records' counts'))))"

definition scan_transfer_state ::
  "(bytes \<Rightarrow> bytes) \<Rightarrow> transfer_record postcard \<Rightarrow> (string \<Rightarrow> bytes option) \<Rightarrow> state_directory \<Rightarrow> (transfer_id \<times> stored_transfer) list scan" where
  "scan_transfer_state blake3 pc hex_decode s =
     st_bind (validate_directory (sd_meta s)) (\<lambda>_.
     st_bind (store_step (fs_op ())) (\<lambda>_.
     scan_dirs blake3 pc hex_decode (sd_dirs s) [] []))"

section \<open>Reference definitions\<close>

text \<open>What the markers of one directory must say about each other and about the manifest.\<close>

definition consistent :: "transfer_id \<Rightarrow> stored_transfer \<Rightarrow> bool" where
  "consistent i r =
     (let incoming = mf_source (sx_manifest r) = Manifest_Incoming in
      mf_transfer_id (sx_manifest r) = i \<and> (sx_accepted r \<longrightarrow> incoming) \<and>
      (case sx_terminal r of
         None \<Rightarrow> True
       | Some (status, origin) \<Rightarrow>
           (status \<in> {Status_Completed, Status_Rejected} \<longrightarrow> incoming = (origin = Origin_Local)) \<and>
           (incoming \<and> status = Status_Completed \<longrightarrow> sx_accepted r) \<and>
           (incoming \<and> status = Status_Rejected \<longrightarrow> \<not> sx_accepted r)))"

definition private_dir :: "fs_meta \<Rightarrow> bool" where
  "private_dir m = (\<not> fm_symlink m \<and> fm_dir m \<and> fm_mode m mod 4096 = 448)"

definition private_file :: "fs_meta \<Rightarrow> bool" where
  "private_file m = (\<not> fm_symlink m \<and> fm_file m \<and> fm_nlink m = 1 \<and> fm_mode m mod 4096 = 384 \<and>
     fm_len m \<le> MAX_TRANSFER_RECORD_LEN)"

definition safe_file :: "fs_file \<Rightarrow> bool" where
  "safe_file f = (private_file (ff_before f) \<and> private_file (ff_opened f) \<and>
     fm_dev (ff_before f) = fm_dev (ff_opened f) \<and> fm_ino (ff_before f) = fm_ino (ff_opened f))"

definition safe_dir :: "fs_dir \<Rightarrow> bool" where
  "safe_dir d = (private_dir (fd_meta d) \<and> length (fd_files d) \<le> 3 \<and> list_all safe_file (fd_files d))"

definition peer_records :: "(transfer_id \<times> stored_transfer) list \<Rightarrow> device_id \<Rightarrow> nat" where
  "peer_records records d = length (filter (\<lambda>e. mf_peer (sx_manifest (snd e)) = d) records)"

text \<open>The directory that holds a stored transfer, as its writer lays it out.\<close>

definition file_meta :: "bytes \<Rightarrow> fs_meta" where
  "file_meta bs = \<lparr>fm_symlink = False, fm_dir = False, fm_file = True, fm_mode = 33152, fm_nlink = 1,
     fm_dev = 0, fm_ino = 0, fm_len = length bs\<rparr>"

definition dir_meta :: fs_meta where
  "dir_meta = \<lparr>fm_symlink = False, fm_dir = True, fm_file = False, fm_mode = 16832, fm_nlink = 2,
     fm_dev = 0, fm_ino = 0, fm_len = 0\<rparr>"

definition record_file ::
  "(bytes \<Rightarrow> bytes) \<Rightarrow> transfer_record postcard \<Rightarrow> string \<Rightarrow> transfer_record \<Rightarrow> fs_file" where
  "record_file blake3 pc name r =
     (let bs = (case encode_transfer_record blake3 pc r of Err _ \<Rightarrow> [] | Ok bs \<Rightarrow> bs) in
      \<lparr>ff_name = Some name, ff_before = file_meta bs, ff_opened = file_meta bs, ff_bytes = bs\<rparr>)"

definition manifest_digest :: "(bytes \<Rightarrow> bytes) \<Rightarrow> transfer_record postcard \<Rightarrow> transfer_manifest \<Rightarrow> bytes" where
  "manifest_digest blake3 pc m = (case record_digest blake3 pc m of Err _ \<Rightarrow> [] | Ok d \<Rightarrow> d)"

definition stored_markers ::
  "(bytes \<Rightarrow> bytes) \<Rightarrow> transfer_record postcard \<Rightarrow> stored_transfer \<Rightarrow> (string \<times> transfer_record) list" where
  "stored_markers blake3 pc r =
     (let d = manifest_digest blake3 pc (sx_manifest r) in
      (if sx_accepted r then [(''accepted'', Rec_Accepted d)] else []) @
      (case sx_terminal r of
         None \<Rightarrow> []
       | Some (status, origin) \<Rightarrow> [(''terminal'', Rec_Terminal d status origin)]))"

definition stored_records ::
  "(bytes \<Rightarrow> bytes) \<Rightarrow> transfer_record postcard \<Rightarrow> stored_transfer \<Rightarrow> (string \<times> transfer_record) list" where
  "stored_records blake3 pc r = (''manifest'', Rec_Manifest (sx_manifest r)) # stored_markers blake3 pc r"

definition stored_dir ::
  "(bytes \<Rightarrow> bytes) \<Rightarrow> transfer_record postcard \<Rightarrow> transfer_id \<times> stored_transfer \<Rightarrow> fs_dir" where
  "stored_dir blake3 pc e =
     \<lparr>fd_name = Some (transfer_display (fst e)), fd_meta = dir_meta,
      fd_files = map (\<lambda>(name, q). record_file blake3 pc name q) (stored_records blake3 pc (snd e))\<rparr>"

fun place_all :: "(string \<times> transfer_record) list \<Rightarrow> found_records \<Rightarrow> (transfer_store_error, found_records) result" where
  "place_all [] found = Ok found"
| "place_all ((name, q) # qs) found = and_then (place_record name q found) (place_all qs)"

definition writable ::
  "(bytes \<Rightarrow> bytes) \<Rightarrow> transfer_record postcard \<Rightarrow> transfer_record \<Rightarrow> bool" where
  "writable blake3 pc q =
     (is_ok (encode_transfer_record blake3 pc q) \<and> record_visit q \<and> to_stdvec pc q \<noteq> Some [])"

definition found_kinds :: "found_records \<Rightarrow> bool" where
  "found_kinds found =
     ((case fr_accepted found of Some (Rec_Accepted _) \<Rightarrow> True | None \<Rightarrow> True | _ \<Rightarrow> False) \<and>
      (case fr_terminal found of Some (Rec_Terminal _ _ _) \<Rightarrow> True | None \<Rightarrow> True | _ \<Rightarrow> False))"

text \<open>The bounds and counters that every turn of the scan keeps.\<close>

definition scan_inv :: "(transfer_id \<times> stored_transfer) list \<Rightarrow> (device_id \<times> nat) list \<Rightarrow> bool" where
  "scan_inv records counts =
     (bt_wf records \<and> length records \<le> MAX_DURABLE_TRANSFERS \<and> (\<forall>(i, r) \<in> set records. consistent i r) \<and>
      (\<forall>d. peer_count counts d = peer_records records d \<and> peer_records records d \<le> MAX_DURABLE_TRANSFERS_PER_PEER))"

text \<open>A scan step whose result does not depend on how the environment schedules it.\<close>

definition determined :: "'a scan \<Rightarrow> (transfer_store_error, 'a) result \<Rightarrow> bool" where
  "determined m r = (\<forall>w. quiet (aw_schedule w) \<longrightarrow>
     fst (m w) = r \<and> (is_ok r \<longrightarrow> quiet (aw_schedule (snd (m w)))))"

definition storable ::
  "(bytes \<Rightarrow> bytes) \<Rightarrow> transfer_record postcard \<Rightarrow> transfer_id \<times> stored_transfer \<Rightarrow> bool" where
  "storable blake3 pc e = (transfer_id_wf (fst e) \<and> consistent (fst e) (snd e) \<and>
     list_all (\<lambda>(name, q). writable blake3 pc q) (stored_records blake3 pc (snd e)))"

section \<open>Example values\<close>

definition example_stored :: "transfer_id \<times> stored_transfer" where
  "example_stored = (TransferId (replicate 16 2),
     \<lparr>sx_manifest = example_manifest, sx_accepted = True, sx_terminal = Some (Status_Completed, Origin_Local)\<rparr>)"

definition example_state :: state_directory where
  "example_state = \<lparr>sd_meta = dir_meta, sd_dirs = [stored_dir zero_digest example_record_codec example_stored]\<rparr>"

section \<open>Lemmas on single entries\<close>

lemma check_simps [simp]: "check r w = (r, w)"
  by (simp add: check_def)

lemma store_step_op:
  assumes "store_step (fs_op v) w = (r, w')"
  shows "(\<forall>a. r = Ok a \<longrightarrow> a = v) \<and> (quiet (aw_schedule w) \<longrightarrow> r = Ok v \<and> quiet (aw_schedule w'))"
proof -
  obtain x where step: "control_step Io_LocalIo (fs_op v) w = (x, w')" and r: "r = map_err Sto_Io x"
    using assms by (auto simp: store_step_def split: prod.splits)
  from step show ?thesis
    by (rule control_step_elim) (auto simp: r fs_op_def settle_def)
qed

lemma store_step_op_Ok: "store_step (fs_op v) w = (Ok a, w') \<Longrightarrow> a = v"
  using store_step_op [of v w "Ok a" w'] by simp

lemma store_step_op_frame: "store_step (fs_op v) w = (r, w') \<Longrightarrow> aw_file w' = aw_file w"
  by (auto simp: store_step_def control_step_def fs_op_def settle_def Let_def
      split: list.splits step_event.splits prod.splits)

lemma store_step_open:
  assumes "store_step (fs_open f) w = (r, w')" and "quiet (aw_schedule w)"
  shows "r = Ok () \<and> quiet (aw_schedule w') \<and> owned w' \<and> df_pos (aw_file w') = 0 \<and> df_bytes (aw_file w') = ff_bytes f"
proof -
  obtain x where step: "control_step Io_LocalIo (fs_open f) w = (x, w')" and r: "r = map_err Sto_Io x"
    using assms by (auto simp: store_step_def split: prod.splits)
  from step show ?thesis
    by (rule control_step_elim) (use assms(2) in \<open>auto simp: r fs_open_def settle_def owned_def\<close>)
qed

lemma validate_file_Ok: "validate_file m = Ok u \<longleftrightarrow> private_file m"
  by (auto simp: validate_file_def private_file_def is_link_def validate_permissions_def PRIVATE_FILE_def result_simps)

lemma validate_directory_Ok: "validate_directory m w = (Ok u, w') \<Longrightarrow> private_dir m"
  by (auto simp: validate_directory_def st_bind_Ok private_dir_def is_link_def validate_permissions_def
      PRIVATE_DIR_def split: if_splits dest!: store_step_op_Ok)

lemma read_record_safe: "read_record blake3 pc f w = (Ok r, w') \<Longrightarrow> safe_file f"
  by (auto simp: read_record_def st_bind_Ok safe_file_def validate_file_Ok split: if_splits dest!: store_step_op_Ok)

section \<open>What a successful scan found\<close>

lemma place_record_kinds: "place_record name r found = Ok found' \<Longrightarrow> found_kinds found \<Longrightarrow> found_kinds found'"
  by (auto simp: place_record_def found_kinds_def split: transfer_record.splits if_splits option.splits)

lemma scan_files_Ok:
  "scan_files blake3 pc fs count found w = (Ok found', w') \<Longrightarrow> count \<le> 3 \<Longrightarrow> found_kinds found \<Longrightarrow>
    count + length fs \<le> 3 \<and> list_all safe_file fs \<and> found_kinds found'"
proof (induction fs arbitrary: count found w)
  case Nil
  then show ?case by (auto simp: st_bind_Ok)
next
  case (Cons f fs)
  from Cons.prems(1) obtain w1 name w2 r w3 next_found where s: "count + 1 \<le> 3"
    "read_record blake3 pc f w2 = (Ok r, w3)" "place_record name r found = Ok next_found"
    "scan_files blake3 pc fs (count + 1) next_found w3 = (Ok found', w')"
    by (auto simp: st_bind_Ok split: if_splits)
  from Cons.IH [OF s(4,1) place_record_kinds [OF s(3) Cons.prems(3)]] read_record_safe [OF s(2)]
  show ?case by simp
qed

lemma resolve_records_Ok:
  assumes "resolve_records blake3 pc i found = Ok r" and "found_kinds found"
  shows "consistent i r"
proof -
  from assms(1) obtain m where m: "fr_manifest found = Some m" "mf_transfer_id m = i"
    "store_marker blake3 pc m (fr_accepted found) = Ok ()" "store_marker blake3 pc m (fr_terminal found) = Ok ()"
    "sx_manifest r = m" "sx_accepted r = (fr_accepted found \<noteq> None)"
    "terminal_outcome m (fr_accepted found \<noteq> None) (fr_terminal found) = Ok (sx_terminal r)"
    by (auto simp: resolve_records_def result_simps split: if_splits)
  have acc: "mf_source m = Manifest_Incoming" if "fr_accepted found \<noteq> None"
    using that m(3) assms(2)
    by (auto simp: store_marker_def found_kinds_def validate_marker_def marker_role_def result_simps
        split: transfer_record.splits if_splits)
  have role: "status \<in> {Status_Completed, Status_Rejected} \<longrightarrow>
      (mf_source m = Manifest_Incoming) = (origin = Origin_Local)" if "fr_terminal found = Some (Rec_Terminal d status origin)"
    for d status origin
    using that m(4) by (auto simp: store_marker_def validate_marker_def marker_role_def result_simps split: if_splits)
  show ?thesis
  proof (cases "fr_terminal found")
    case None
    with m(2,5,6,7) acc show ?thesis by (simp add: consistent_def terminal_outcome_def Let_def)
  next
    case (Some q)
    with assms(2) obtain d status origin where q: "q = Rec_Terminal d status origin"
      by (cases q) (simp_all add: found_kinds_def)
    then have "sx_terminal r = Some (status, origin)"
      "\<not> (mf_source m = Manifest_Incoming \<and> (status = Status_Completed \<and> \<not> sx_accepted r \<or>
        status = Status_Rejected \<and> sx_accepted r))"
      using Some m(6,7) by (simp_all add: terminal_outcome_def split: if_splits)
    moreover have "sx_accepted r \<longrightarrow> mf_source m = Manifest_Incoming" using acc m(6) by simp
    moreover have "status \<in> {Status_Completed, Status_Rejected} \<longrightarrow>
      (mf_source m = Manifest_Incoming) = (origin = Origin_Local)" using role Some q by simp
    ultimately show ?thesis unfolding consistent_def Let_def m(2,5)
      by (cases status; cases "mf_source m = Manifest_Incoming"; simp)
  qed
qed

lemma scan_record_Ok:
  assumes "scan_record blake3 pc d i w = (Ok r, w')"
  shows "safe_dir d \<and> consistent i r"
proof -
  from assms obtain w1 u w2 found where s: "validate_directory (fd_meta d) w = (Ok u, w1)"
    "scan_files blake3 pc (fd_files d) 0 nothing_found w2 = (Ok found, w')"
    "resolve_records blake3 pc i found = Ok r"
    by (auto simp: scan_record_def st_bind_Ok)
  have "found_kinds nothing_found" by (simp add: found_kinds_def nothing_found_def)
  from scan_files_Ok [OF s(2) _ this] resolve_records_Ok [OF s(3)] validate_directory_Ok [OF s(1)]
  show ?thesis by (auto simp: safe_dir_def)
qed

lemma peer_records_insert:
  "bt_wf records \<Longrightarrow> \<not> bt_contains records i \<Longrightarrow> peer_records (bt_insert i r records) d =
     peer_records records d + (if mf_peer (sx_manifest r) = d then 1 else 0)"
  by (induction records) (auto simp: peer_records_def bt_wf_Cons bt_contains_iff)

lemma admit_record_inv:
  assumes "admit_record i r records counts = Ok (records', counts')" and "scan_inv records counts"
    and "consistent i r" and "length records \<noteq> MAX_DURABLE_TRANSFERS"
  shows "scan_inv records' counts' \<and> records' = bt_insert i r records \<and> i \<notin> set (bt_keys records)"
proof -
  from assms(1) have a: "peer_count counts (mf_peer (sx_manifest r)) \<noteq> MAX_DURABLE_TRANSFERS_PER_PEER"
    "\<not> bt_contains records i" "records' = bt_insert i r records"
    "counts' = bt_insert (mf_peer (sx_manifest r)) (peer_count counts (mf_peer (sx_manifest r)) + 1) counts"
    by (auto simp: admit_record_def Let_def split: if_splits)
  have wf: "bt_wf records" using assms(2) by (simp add: scan_inv_def)
  have eq: "peer_count counts d = peer_records records d" "peer_records records d \<le> MAX_DURABLE_TRANSFERS_PER_PEER" for d
    using assms(2) by (auto simp: scan_inv_def)
  have cnt: "peer_count counts' d = peer_records records' d" for d
    using peer_records_insert [OF wf a(2), of r d] eq(1) [of d] by (simp add: a(3,4) peer_count_def)
  have "peer_records records' d \<le> MAX_DURABLE_TRANSFERS_PER_PEER" for d
    using peer_records_insert [OF wf a(2), of r d] eq [of d] a(1) by (auto simp: a(3))
  with cnt have "peer_count counts' d = peer_records records' d \<and> peer_records records' d \<le> MAX_DURABLE_TRANSFERS_PER_PEER" for d
    by blast
  moreover have "length records' \<le> MAX_DURABLE_TRANSFERS"
    using assms(2,4) a(2,3) wf by (simp add: length_bt_insert scan_inv_def)
  moreover have "\<forall>(j, q) \<in> set records'. consistent j q"
    using assms(2,3) a(3) wf by (auto simp: set_bt_insert scan_inv_def)
  ultimately show ?thesis using a(2,3) wf by (simp add: scan_inv_def bt_wf_insert bt_contains_iff)
qed

lemma scan_dirs_Ok:
  "scan_dirs blake3 pc hex_decode ds records counts w = (Ok out, w') \<Longrightarrow> scan_inv records counts \<Longrightarrow>
    list_all safe_dir ds \<and> (\<exists>counts'. scan_inv out counts') \<and> length out = length records + length ds \<and>
    (\<exists>ids. list_all2 (\<lambda>d i. directory_id hex_decode (fd_name d) = Ok i) ds ids \<and>
       set (bt_keys out) = set (bt_keys records) \<union> set ids)"
proof (induction ds arbitrary: records counts w)
  case Nil
  then show ?case by (auto simp: st_bind_Ok)
next
  case (Cons d ds)
  from Cons.prems(1) obtain i w1 r w2 records' counts' where s: "length records \<noteq> MAX_DURABLE_TRANSFERS"
    "directory_id hex_decode (fd_name d) = Ok i" "scan_record blake3 pc d i w1 = (Ok r, w2)"
    "admit_record i r records counts = Ok (records', counts')"
    "scan_dirs blake3 pc hex_decode ds records' counts' w2 = (Ok out, w')"
    by (auto simp: st_bind_Ok split: if_splits prod.splits)
  have sc: "safe_dir d" "consistent i r" using scan_record_Ok [OF s(3)] by auto
  note adm = admit_record_inv [OF s(4) Cons.prems(2) sc(2) s(1)]
  then have len: "length records' = length records + 1" and keys: "set (bt_keys records') = insert i (set (bt_keys records))"
    using Cons.prems(2) by (auto simp: length_bt_insert scan_inv_def bt_contains_iff set_bt_keys_insert)
  from Cons.IH [OF s(5)] adm obtain ids where "list_all2 (\<lambda>d i. directory_id hex_decode (fd_name d) = Ok i) ds ids"
    "set (bt_keys out) = set (bt_keys records') \<union> set ids" by blast
  then have "list_all2 (\<lambda>d i. directory_id hex_decode (fd_name d) = Ok i) (d # ds) (i # ids)"
    "set (bt_keys out) = set (bt_keys records) \<union> set (i # ids)" using s(2) keys by auto
  with Cons.IH [OF s(5)] adm sc(1) len show ?case by auto
qed

section \<open>Scans that nothing interrupts\<close>

lemma determined_bind:
  assumes "determined m r" and "\<And>a. r = Ok a \<Longrightarrow> determined (g a) (h a)"
  shows "determined (st_bind m g) (and_then r h)"
proof (unfold determined_def, intro allI impI)
  fix w :: attempt_world assume q: "quiet (aw_schedule w)"
  obtain x w' where m: "m w = (x, w')" by fastforce
  with assms(1) q have x: "x = r" "is_ok r \<longrightarrow> quiet (aw_schedule w')" by (auto simp: determined_def)
  show "fst (st_bind m g w) = and_then r h \<and>
      (is_ok (and_then r h) \<longrightarrow> quiet (aw_schedule (snd (st_bind m g w))))"
  proof (cases r)
    case (Inl e)
    with m x show ?thesis by (simp add: st_bind_def)
  next
    case (Inr a)
    with m x assms(2) [of a] show ?thesis by (simp add: determined_def)
  qed
qed

lemma determined_check [simp, intro]: "determined (check r) r"
  by (simp add: determined_def)

lemma determined_op [simp, intro]: "determined (store_step (fs_op v)) (Ok v)"
proof (unfold determined_def, intro allI impI)
  fix w :: attempt_world assume q: "quiet (aw_schedule w)"
  obtain x w' where m: "store_step (fs_op v) w = (x, w')" by fastforce
  have "x = Ok v" "quiet (aw_schedule w')" using store_step_op [OF m] q by blast+
  with m show "fst (store_step (fs_op v) w) = Ok v \<and> (is_ok (Ok v) \<longrightarrow> quiet (aw_schedule (snd (store_step (fs_op v) w))))" by simp
qed

lemma determined_seq: "determined m (Ok a) \<Longrightarrow> determined (g a) r \<Longrightarrow> determined (st_bind m g) r"
  using determined_bind [of m "Ok a" g "\<lambda>_. r"] by simp

lemma determined_then: "determined (g ()) r \<Longrightarrow> determined (st_bind (store_step (fs_op ())) g) r"
  by (rule determined_seq [OF determined_op])

lemma determined_directory: "private_dir m \<Longrightarrow> determined (validate_directory m) (Ok ())"
  unfolding validate_directory_def
  by (rule determined_seq [OF determined_op])
    (auto simp: private_dir_def is_link_def validate_permissions_def PRIVATE_DIR_def)

lemma determined_read_record:
  assumes "safe_file f" and "decode_transfer_record blake3 pc (ff_bytes f) = Ok r"
  shows "determined (read_record blake3 pc f) (Ok r)"
proof -
  let ?tail = "st_bind (store_step (fs_open f)) (\<lambda>_.
     st_bind (store_step (fs_op (ff_opened f))) (\<lambda>opened.
     st_bind (check (validate_file opened)) (\<lambda>_.
     st_bind (check (if fm_dev (ff_before f) \<noteq> fm_dev opened \<or> fm_ino (ff_before f) \<noteq> fm_ino opened
                     then Err Sto_UnsafeEntry else Ok ())) (\<lambda>_ w.
     case read_transfer_record blake3 pc w of (r, w') \<Rightarrow> (map_err Sto_Record r, w')))))"
  have tail: "determined ?tail (Ok r)"
  proof (unfold determined_def, intro allI impI)
    fix w :: attempt_world assume q: "quiet (aw_schedule w)"
    obtain x w1 where s1: "store_step (fs_open f) w = (x, w1)" by fastforce
    note o1 = store_step_open [OF s1 q]
    obtain y w2 where s2: "store_step (fs_op (ff_opened f)) w1 = (y, w2)" by fastforce
    have o2: "y = Ok (ff_opened f)" "quiet (aw_schedule w2)" "aw_file w2 = aw_file w1"
      using store_step_op [OF s2] store_step_op_frame [OF s2] o1 by blast+
    obtain z w3 where s3: "read_transfer_record blake3 pc w2 = (z, w3)" by fastforce
    have own: "owned w2" using o1 o2(3) by (simp add: owned_def)
    have z: "z = Ok r" using read_is_decode [OF own o2(2), of blake3 pc] s3 o1 o2(3) assms(2) by simp
    with read_record_quiet [of blake3 pc w2 r w3] s3 own o2(2) have "quiet (aw_schedule w3)" by simp
    moreover obtain u where "validate_file (ff_opened f) = Ok u" using assms(1) validate_file_Ok by (auto simp: safe_file_def)
    ultimately show "fst (?tail w) = Ok r \<and> (is_ok (Ok r :: (transfer_store_error, transfer_record) result) \<longrightarrow>
        quiet (aw_schedule (snd (?tail w))))"
      using s1 o1 s2 o2(1) s3 z assms(1) by (simp add: st_bind_def safe_file_def)
  qed
  obtain u where "validate_file (ff_before f) = Ok u" using assms(1) validate_file_Ok by (auto simp: safe_file_def)
  then have "determined (check (validate_file (ff_before f))) (Ok u)" using determined_check by metis
  from determined_seq [OF this tail] show ?thesis
    unfolding read_record_def by (rule determined_seq [OF determined_op])
qed

lemma record_file_safe:
  assumes "digest_ok blake3" and "postcard_ok pc" and "writable blake3 pc q"
  shows "safe_file (record_file blake3 pc name q) \<and>
    decode_transfer_record blake3 pc (ff_bytes (record_file blake3 pc name q)) = Ok q"
proof -
  obtain bs where bs: "encode_transfer_record blake3 pc q = Ok bs" "record_visit q" "to_stdvec pc q \<noteq> Some []"
    using assms(3) by (auto simp: writable_def)
  from decode_encoded_record [OF assms(1,2) bs] bs(1) show ?thesis
    by (simp add: record_file_def safe_file_def private_file_def file_meta_def)
qed

lemma determined_scan_files:
  assumes "digest_ok blake3" and "postcard_ok pc"
  shows "list_all (\<lambda>(name, q). writable blake3 pc q \<and> name \<in> {''manifest'', ''accepted'', ''terminal''}) qs \<Longrightarrow>
    count + length qs \<le> 3 \<Longrightarrow> place_all qs found = Ok found' \<Longrightarrow>
    determined (scan_files blake3 pc (map (\<lambda>(name, q). record_file blake3 pc name q) qs) count found) (Ok found')"
proof (induction qs arbitrary: count found)
  case Nil
  then show ?case by (simp add: determined_then)
next
  case (Cons e qs)
  obtain name q where e: "e = (name, q)" by fastforce
  let ?f = "record_file blake3 pc name q"
  from Cons.prems(3) e obtain found1 where place: "place_record name q found = Ok found1" "place_all qs found1 = Ok found'"
    by (auto simp: result_simps)
  have rest: "determined (scan_files blake3 pc (map (\<lambda>(name, q). record_file blake3 pc name q) qs) (count + 1) found1) (Ok found')"
    using Cons.IH [of "count + 1" found1] Cons.prems(1,2) place(2) by simp
  have "record_name (ff_name ?f) = Ok name"
    using Cons.prems(1) e by (auto simp: record_name_def record_file_def Let_def)
  then have name: "determined (check (record_name (ff_name ?f))) (Ok name)" by simp
  have placed: "determined (check (place_record name q found)) (Ok found1)" using place(1) by simp
  have read: "determined (read_record blake3 pc ?f) (Ok q)"
    using determined_read_record record_file_safe [OF assms] Cons.prems(1) e by simp
  have small: "\<not> 3 < count + 1" using Cons.prems(2) by simp
  show ?case
    unfolding e list.map prod.case scan_files.simps if_not_P [OF small]
    by (intro determined_then determined_seq [OF name] determined_seq [OF read] determined_seq [OF placed] rest)
qed

lemma stored_records_place:
  "place_all (stored_records blake3 pc r) nothing_found = Ok \<lparr>fr_manifest = Some (sx_manifest r),
     fr_accepted = (if sx_accepted r then Some (Rec_Accepted (manifest_digest blake3 pc (sx_manifest r))) else None),
     fr_terminal = map_option (\<lambda>(status, origin). Rec_Terminal (manifest_digest blake3 pc (sx_manifest r)) status origin)
       (sx_terminal r)\<rparr>"
  by (auto simp: stored_records_def stored_markers_def place_record_def nothing_found_def Let_def split: option.splits)

lemma marker_valid:
  assumes "writable blake3 pc (Rec_Manifest m)"
  shows "validate_marker blake3 pc m (Rec_Accepted (manifest_digest blake3 pc m)) =
      marker_role (Rec_Accepted (manifest_digest blake3 pc m)) (mf_source m = Manifest_Incoming)"
    "validate_marker blake3 pc m (Rec_Terminal (manifest_digest blake3 pc m) status origin) =
      marker_role (Rec_Terminal (manifest_digest blake3 pc m) status origin) (mf_source m = Manifest_Incoming)"
  using assms by (auto simp: validate_marker_def manifest_digest_def record_digest_def writable_def)

lemma resolve_stored:
  assumes "consistent i r" and "writable blake3 pc (Rec_Manifest (sx_manifest r))"
  shows "and_then (place_all (stored_records blake3 pc r) nothing_found) (resolve_records blake3 pc i) = Ok r"
proof -
  obtain m accepted outcome where r: "r = \<lparr>sx_manifest = m, sx_accepted = accepted, sx_terminal = outcome\<rparr>"
    by (cases r)
  have m: "writable blake3 pc (Rec_Manifest m)" using assms(2) r by simp
  show ?thesis
  proof (cases outcome)
    case None
    with assms(1) r show ?thesis
      by (auto simp: stored_records_place resolve_records_def consistent_def Let_def store_marker_def
          marker_valid [OF m] marker_role_def terminal_outcome_def)
  next
    case (Some x)
    then obtain status origin where "outcome = Some (status, origin)" by (cases x) auto
    with assms(1) r show ?thesis
      by (cases status)
        (auto simp: stored_records_place resolve_records_def consistent_def Let_def store_marker_def
          marker_valid [OF m] marker_role_def terminal_outcome_def)
  qed
qed

lemma determined_scan_record:
  assumes "digest_ok blake3" and "postcard_ok pc" and "storable blake3 pc (i, r)"
  shows "determined (scan_record blake3 pc (stored_dir blake3 pc (i, r)) i) (Ok r)"
proof -
  have w: "list_all (\<lambda>(name, q). writable blake3 pc q) (stored_records blake3 pc r)" "consistent i r"
    using assms(3) by (auto simp: storable_def)
  then have m: "writable blake3 pc (Rec_Manifest (sx_manifest r))" by (simp add: stored_records_def)
  obtain found where found: "place_all (stored_records blake3 pc r) nothing_found = Ok found"
    by (simp add: stored_records_place)
  have "list_all (\<lambda>(name, q). writable blake3 pc q \<and> name \<in> {''manifest'', ''accepted'', ''terminal''})
      (stored_records blake3 pc r)" "0 + length (stored_records blake3 pc r) \<le> 3"
    using w(1) by (auto simp: stored_records_def stored_markers_def Let_def split: option.splits)
  note files = determined_scan_files [OF assms(1,2) this found]
  have "resolve_records blake3 pc i found = Ok r" using resolve_stored [OF w(2) m] found by simp
  then have "determined (check (resolve_records blake3 pc i found)) (Ok r)" by simp
  with files have "determined (st_bind (scan_files blake3 pc (fd_files (stored_dir blake3 pc (i, r))) 0 nothing_found)
      (\<lambda>found. check (resolve_records blake3 pc i found))) (Ok r)"
    by (simp add: stored_dir_def determined_seq)
  then show ?thesis
    unfolding scan_record_def
    by (intro determined_seq [OF determined_directory] determined_then)
      (simp_all add: stored_dir_def dir_meta_def private_dir_def)
qed

lemma admit_record_room:
  assumes "scan_inv records counts" and "i \<notin> set (bt_keys records)"
    and "peer_records records (mf_peer (sx_manifest r)) < MAX_DURABLE_TRANSFERS_PER_PEER"
  obtains counts' where "admit_record i r records counts = Ok (bt_insert i r records, counts')"
  using assms by (auto simp: admit_record_def Let_def scan_inv_def bt_contains_iff)

lemma determined_scan_dirs:
  assumes "digest_ok blake3" and "postcard_ok pc" and "hex_decode_ok hex_decode"
  shows "list_all (storable blake3 pc) es \<Longrightarrow> distinct (map fst es) \<Longrightarrow> scan_inv records counts \<Longrightarrow>
    set (map fst es) \<inter> set (bt_keys records) = {} \<Longrightarrow> length records + length es \<le> MAX_DURABLE_TRANSFERS \<Longrightarrow>
    (\<And>d. peer_records records d + peer_records es d \<le> MAX_DURABLE_TRANSFERS_PER_PEER) \<Longrightarrow>
    \<exists>out. determined (scan_dirs blake3 pc hex_decode (map (stored_dir blake3 pc) es) records counts) (Ok out) \<and>
      bt_wf out \<and> set out = set records \<union> set es"
proof (induction es arbitrary: records counts)
  case Nil
  then show ?case by (auto simp: scan_inv_def intro!: exI [of _ records] determined_then)
next
  case (Cons e es)
  obtain i r where e: "e = (i, r)" by fastforce
  let ?d = "stored_dir blake3 pc (i, r)" and ?peer = "mf_peer (sx_manifest r)"
  have st: "storable blake3 pc (i, r)" "consistent i r" "transfer_id_wf i"
    using Cons.prems(1) e by (simp_all add: storable_def)
  have fresh: "i \<notin> set (bt_keys records)" and wf: "bt_wf records"
    using Cons.prems(3,4) e by (auto simp: scan_inv_def)
  have "peer_records records ?peer < MAX_DURABLE_TRANSFERS_PER_PEER"
    using Cons.prems(6) [of ?peer] e by (simp add: peer_records_def)
  with admit_record_room [OF Cons.prems(3) fresh] obtain counts' where
    adm: "admit_record i r records counts = Ok (bt_insert i r records, counts')" by blast
  have len: "length records \<noteq> MAX_DURABLE_TRANSFERS" using Cons.prems(5) by simp
  have inv: "scan_inv (bt_insert i r records) counts'"
    using admit_record_inv [OF adm Cons.prems(3) st(2) len] by blast
  have peers: "peer_records (bt_insert i r records) d + peer_records es d \<le> MAX_DURABLE_TRANSFERS_PER_PEER" for d
    using Cons.prems(6) [of d] peer_records_insert [OF wf, of i r d] fresh e
    by (auto simp: peer_records_def bt_contains_iff split: if_splits)
  have "\<exists>out. determined (scan_dirs blake3 pc hex_decode (map (stored_dir blake3 pc) es) (bt_insert i r records) counts') (Ok out) \<and>
      bt_wf out \<and> set out = set (bt_insert i r records) \<union> set es"
    using Cons.IH [OF _ _ inv _ _ peers] Cons.prems(1,2,4,5) e fresh wf
    by (auto simp: set_bt_keys_insert length_bt_insert bt_contains_iff)
  then obtain out where out: "determined (scan_dirs blake3 pc hex_decode (map (stored_dir blake3 pc) es)
      (bt_insert i r records) counts') (Ok out)" "bt_wf out" "set out = set (bt_insert i r records) \<union> set es" by blast
  have "directory_id hex_decode (fd_name ?d) = Ok i"
    using transfer_from_str_iff [OF assms(3)] st(3) by (simp add: directory_id_def stored_dir_def)
  then have ident: "determined (check (directory_id hex_decode (fd_name ?d))) (Ok i)" by simp
  have admitted: "determined (check (admit_record i r records counts)) (Ok (bt_insert i r records, counts'))" using adm by simp
  have "determined (scan_dirs blake3 pc hex_decode (map (stored_dir blake3 pc) (e # es)) records counts) (Ok out)"
    unfolding e list.map scan_dirs.simps if_not_P [OF len]
    by (intro determined_then determined_seq [OF ident] determined_seq [OF determined_scan_record [OF assms(1,2) st(1)]]
        determined_seq [OF admitted]) (use out(1) in simp)
  moreover have "set out = set records \<union> set (e # es)"
    using out(3) fresh wf e by (auto simp: set_bt_insert bt_keys_def)
  ultimately show ?case using out(2) by blast
qed

lemma scan_state_determined:
  assumes "digest_ok blake3" and "postcard_ok pc" and "hex_decode_ok hex_decode"
    and "private_dir (sd_meta s)" and "sd_dirs s = map (stored_dir blake3 pc) es"
    and "list_all (storable blake3 pc) es" and "distinct (map fst es)" and "length es \<le> MAX_DURABLE_TRANSFERS"
    and "\<And>d. peer_records es d \<le> MAX_DURABLE_TRANSFERS_PER_PEER"
  obtains records where "determined (scan_transfer_state blake3 pc hex_decode s) (Ok records)"
    "bt_wf records" "set records = set es"
proof -
  have "scan_inv [] []" by (simp add: scan_inv_def peer_count_def peer_records_def)
  from determined_scan_dirs [OF assms(1-3) assms(6,7) this] assms(8,9)
  obtain out where "determined (scan_dirs blake3 pc hex_decode (sd_dirs s) [] []) (Ok out)" "bt_wf out" "set out = set es"
    by (auto simp: assms(5) peer_records_def)
  then show ?thesis
    by (intro that [of out])
      (auto simp: scan_transfer_state_def intro!: determined_seq [OF determined_directory [OF assms(4)]] determined_then)
qed

lemma example_storable: "storable zero_digest example_record_codec example_stored"
proof -
  have d: "manifest_digest zero_digest example_record_codec example_manifest = replicate 32 0"
    by (simp add: manifest_digest_def record_digest_def example_encodings zero_digest_def)
  have w: "writable zero_digest example_record_codec (Rec_Manifest example_manifest)"
    "writable zero_digest example_record_codec (Rec_Accepted (replicate 32 0))"
    "writable zero_digest example_record_codec (Rec_Terminal (replicate 32 0) Status_Completed Origin_Local)"
    using example_encodings example_manifest_visit
    by (simp_all add: writable_def example_record_codec_def table_codec_def)
  have "transfer_id_wf (TransferId (replicate 16 2))" by (simp add: transfer_id_wf_def TRANSFER_ID_LEN_def)
  moreover have "consistent (fst example_stored) (snd example_stored)"
    by (simp add: example_stored_def consistent_def example_manifest_def)
  moreover have "list_all (\<lambda>(name, q). writable zero_digest example_record_codec q)
      (stored_records zero_digest example_record_codec (snd example_stored))"
    using w d by (simp add: example_stored_def stored_records_def stored_markers_def Let_def)
  ultimately show ?thesis by (simp add: storable_def example_stored_def)
qed

section \<open>Properties\<close>

text \<open>
  C18: a snapshot returned by the startup scan is complete and trustworthy. It holds one record for every
  directory entry and no other, in identity order, at most 4096 in all and 64 for one peer; every entry
  that was read is a private unlinked directory or file that was not replaced while it was opened; and
  every record names its own directory and has markers that fit its manifest and each other: an
  acceptance only for an incoming transfer, a completion of one only after the acceptance, a rejection
  only without it, and either of them only by the receiving side.
\<close>

theorem scan_snapshot_sound:
  assumes "scan_transfer_state blake3 pc hex_decode s w = (Ok records, w')"
  shows "bt_wf records \<and> length records = length (sd_dirs s) \<and> length records \<le> MAX_DURABLE_TRANSFERS \<and>
    (\<forall>d. peer_records records d \<le> MAX_DURABLE_TRANSFERS_PER_PEER) \<and>
    private_dir (sd_meta s) \<and> list_all safe_dir (sd_dirs s) \<and>
    (\<forall>(i, r) \<in> set records. consistent i r) \<and>
    (\<exists>ids. list_all2 (\<lambda>d i. directory_id hex_decode (fd_name d) = Ok i) (sd_dirs s) ids \<and>
       set (bt_keys records) = set ids)"
proof -
  from assms obtain w1 w2 u where v: "validate_directory (sd_meta s) w = (Ok u, w1)"
    and s: "scan_dirs blake3 pc hex_decode (sd_dirs s) [] [] w2 = (Ok records, w')"
    by (auto simp: scan_transfer_state_def st_bind_Ok)
  have "scan_inv [] []" by (simp add: scan_inv_def peer_count_def peer_records_def)
  from scan_dirs_Ok [OF s this] validate_directory_Ok [OF v] show ?thesis by (auto simp: scan_inv_def)
qed

theorem scan_snapshot_sound_witness:
  "\<exists>records w. scan_transfer_state zero_digest example_record_codec example_hex_decode example_state (example_world [] [] []) =
      (Ok records, w) \<and> length records = 1 \<and> (\<forall>(i, r) \<in> set records. consistent i r)"
proof -
  obtain records where "determined (scan_transfer_state zero_digest example_record_codec example_hex_decode example_state) (Ok records)"
    by (rule scan_state_determined [OF zero_digest_ok example_record_codec_ok example_hex_ok, of example_state "[example_stored]"])
      (auto simp: example_state_def example_storable dir_meta_def private_dir_def peer_records_def
        MAX_DURABLE_TRANSFERS_def MAX_DURABLE_TRANSFERS_PER_PEER_def)
  then have "fst (scan_transfer_state zero_digest example_record_codec example_hex_decode example_state (example_world [] [] [])) = Ok records"
    by (simp add: determined_def example_world_def quiet_def)
  then obtain w where run: "scan_transfer_state zero_digest example_record_codec example_hex_decode example_state (example_world [] [] []) =
      (Ok records, w)" by (metis prod.collapse)
  with scan_snapshot_sound [OF run] show ?thesis by (auto simp: example_state_def)
qed

text \<open>
  The startup scan recovers every consistent store. When a private state directory holds, in any order,
  the directories of a list of transfers with distinct identities within the bounds, and nothing
  interrupts the scan, it returns exactly these transfers, whatever way the reads are split.
\<close>

theorem scan_recovers_store:
  assumes "digest_ok blake3" and "postcard_ok pc" and "hex_decode_ok hex_decode" and "quiet (aw_schedule w)"
    and "private_dir (sd_meta s)" and "sd_dirs s = map (stored_dir blake3 pc) es"
    and "list_all (storable blake3 pc) es" and "distinct (map fst es)" and "length es \<le> MAX_DURABLE_TRANSFERS"
    and "\<And>d. peer_records es d \<le> MAX_DURABLE_TRANSFERS_PER_PEER"
  shows "\<exists>records. fst (scan_transfer_state blake3 pc hex_decode s w) = Ok records \<and> bt_wf records \<and> set records = set es"
proof -
  obtain records where "determined (scan_transfer_state blake3 pc hex_decode s) (Ok records)"
    "bt_wf records" "set records = set es"
    by (rule scan_state_determined [OF assms(1-3) assms(5-9)]) (use assms(10) in auto)
  with assms(4) show ?thesis by (auto simp: determined_def)
qed

theorem scan_recovers_store_witness:
  "\<exists>records. fst (scan_transfer_state zero_digest example_record_codec example_hex_decode example_state
      (example_world [Go 1, Go 2, Go 3] [] [])) = Ok records \<and> bt_wf records \<and> set records = {example_stored}"
  using scan_recovers_store [OF zero_digest_ok example_record_codec_ok example_hex_ok,
      of "example_world [Go 1, Go 2, Go 3] [] []" example_state "[example_stored]"]
  by (auto simp: example_state_def example_world_def quiet_def example_storable dir_meta_def private_dir_def
      peer_records_def MAX_DURABLE_TRANSFERS_def MAX_DURABLE_TRANSFERS_PER_PEER_def)

end
