(* ===== verification/Wire_Protocol.thy ===== *)
theory Wire_Protocol
  imports Transfer_Wire
begin

text \<open>
  The control protocol of \<open>crates/rift-protocol/src/lib.rs\<close>: Hello, pairing commitments and
  transcripts, the control message set, the bounded length-prefixed frames and the operations that
  run over a control channel. The byte arrays of fixed length are byte lists. Postcard and BLAKE3 are
  parameters: a codec here is the derived one, and \<open>visit\<close> is what the hand-written
  deserializers of a type additionally accept.
\<close>

section \<open>Constants\<close>

definition PROTOCOL_VERSION :: u16 where
  "PROTOCOL_VERSION = 1"

definition MAX_CONTROL_FRAME_LEN :: nat where
  "MAX_CONTROL_FRAME_LEN = 1024 * 1024"

definition MAX_CAPABILITIES :: nat where
  "MAX_CAPABILITIES = 64"

definition PAIRING_ID_LEN :: nat where
  "PAIRING_ID_LEN = 16"

definition PAIRING_NONCE_LEN :: nat where
  "PAIRING_NONCE_LEN = 32"

definition ascii :: "string \<Rightarrow> bytes" where
  "ascii s = map of_char s"

definition PAIRING_COMMITMENT_DOMAIN :: bytes where
  "PAIRING_COMMITMENT_DOMAIN = ascii ''rift-pairing-commitment-v1''"

definition PAIRING_DOMAIN :: bytes where
  "PAIRING_DOMAIN = ascii ''rift-pairing-v1''"

definition PAIRING_CODE_MODULUS :: nat where
  "PAIRING_CODE_MODULUS = 1000000"

section \<open>Hello\<close>

datatype capability = Capability (cap_value: u16)

definition PAIRING_V1 :: capability where
  "PAIRING_V1 = Capability 2"

definition BLOB_TRANSFER_V1 :: capability where
  "BLOB_TRANSFER_V1 = Capability 1"

definition cap_is_known :: "capability \<Rightarrow> bool" where
  "cap_is_known c = (cap_value c = cap_value BLOB_TRANSFER_V1 \<or> cap_value c = cap_value PAIRING_V1)"

record hello_metadata =
  hm_device_name :: string
  hm_platform :: string
  hm_capabilities :: "capability list"

record hello =
  h_protocol_version :: u16
  h_device_id :: device_id
  h_device_name :: string
  h_platform :: string
  h_capabilities :: "capability list"

datatype metadata_field = Field_DeviceName | Field_Platform

datatype message_kind =
    Kind_Hello | Kind_Ping | Kind_Pong | Kind_PairingRequest | Kind_PairingResponse
  | Kind_PairingDecision | Kind_PairingComplete | Kind_PairingReveal | Kind_ConnectionIntent
  | Kind_ConnectionIntentResult | Kind_TransferOffer | Kind_TransferAccept
  | Kind_TransferTerminal | Kind_TransferTerminalAck

datatype frame_error =
    Frame_Encode
  | Frame_Decode
  | TruncatedLengthPrefix io_error_kind
  | TruncatedPayload io_error_kind
  | FrameTooLarge nat nat
  | PayloadLengthMismatch nat nat
  | TrailingPayload nat
  | Frame_Write io_error_kind

datatype handshake_error =
    Handshake_Frame frame_error
  | HandshakeTimeout
  | UnsupportedProtocolVersion u16
  | IdentityMismatch device_id device_id
  | InvalidMetadata metadata_field nat nat
  | TooManyCapabilities nat nat
  | Handshake_UnexpectedMessage message_kind message_kind

datatype control_error =
    Control_Frame frame_error
  | Control_UnexpectedMessage message_kind message_kind
  | NonceMismatch u64 u64

definition validate_metadata ::
  "string \<Rightarrow> string \<Rightarrow> capability list \<Rightarrow> (handshake_error, unit) result" where
  "validate_metadata device_name platform capabilities =
     (if MAX_DEVICE_NAME_LEN < length device_name
      then Err (InvalidMetadata Field_DeviceName (length device_name) MAX_DEVICE_NAME_LEN)
      else if MAX_PLATFORM_LEN < length platform
      then Err (InvalidMetadata Field_Platform (length platform) MAX_PLATFORM_LEN)
      else if MAX_CAPABILITIES < length capabilities
      then Err (TooManyCapabilities (length capabilities) MAX_CAPABILITIES)
      else Ok ())"

definition validate_hello_metadata :: "hello \<Rightarrow> (handshake_error, unit) result" where
  "validate_hello_metadata h = validate_metadata (h_device_name h) (h_platform h) (h_capabilities h)"

definition hello_metadata_new ::
  "string \<Rightarrow> string \<Rightarrow> capability list \<Rightarrow> (handshake_error, hello_metadata) result" where
  "hello_metadata_new device_name platform capabilities =
     and_then (validate_metadata device_name platform capabilities) (\<lambda>_.
       Ok \<lparr>hm_device_name = device_name, hm_platform = platform, hm_capabilities = capabilities\<rparr>)"

definition hello_new :: "device_id \<Rightarrow> hello_metadata \<Rightarrow> (handshake_error, hello) result" where
  "hello_new device_id metadata =
     (let h = \<lparr>h_protocol_version = PROTOCOL_VERSION, h_device_id = device_id,
               h_device_name = hm_device_name metadata, h_platform = hm_platform metadata,
               h_capabilities = hm_capabilities metadata\<rparr> in
      and_then (validate_hello_metadata h) (\<lambda>_. Ok h))"

definition hello_metadata_of :: "hello \<Rightarrow> hello_metadata" where
  "hello_metadata_of h =
     \<lparr>hm_device_name = h_device_name h, hm_platform = h_platform h, hm_capabilities = h_capabilities h\<rparr>"

definition validate_hello :: "hello \<Rightarrow> device_id \<Rightarrow> (handshake_error, unit) result" where
  "validate_hello h authenticated_remote_id =
     (if h_protocol_version h \<noteq> PROTOCOL_VERSION
      then Err (UnsupportedProtocolVersion (h_protocol_version h))
      else and_then (validate_hello_metadata h) (\<lambda>_.
        if h_device_id h \<noteq> authenticated_remote_id
        then Err (IdentityMismatch authenticated_remote_id (h_device_id h))
        else Ok ()))"

text \<open>What the bounded string and capability visitors of a received Hello accept.\<close>

definition bounded_string_visit :: "nat \<Rightarrow> string \<Rightarrow> bool" where
  "bounded_string_visit maximum value = (length value \<le> maximum)"

definition bounded_capabilities_visit :: "capability list \<Rightarrow> bool" where
  "bounded_capabilities_visit cs = (length cs \<le> MAX_CAPABILITIES)"

definition hello_visit :: "hello \<Rightarrow> bool" where
  "hello_visit h =
     (bounded_string_visit MAX_DEVICE_NAME_LEN (h_device_name h) \<and>
      bounded_string_visit MAX_PLATFORM_LEN (h_platform h) \<and>
      bounded_capabilities_visit (h_capabilities h))"

section \<open>Pairing commitments and transcripts\<close>

datatype pairing_commitment_role = Role_Initiator | Role_Responder

fun role_discriminator :: "pairing_commitment_role \<Rightarrow> byte" where
  "role_discriminator Role_Initiator = 0"
| "role_discriminator Role_Responder = 1"

datatype pairing_commitment = PairingCommitment bytes

text \<open>The bytes the hasher absorbs, in order.\<close>

definition commitment_input ::
  "pairing_commitment_role \<Rightarrow> device_id \<Rightarrow> device_id \<Rightarrow> bytes \<Rightarrow> bytes \<Rightarrow> bytes" where
  "commitment_input role initiator responder pairing_id nonce =
     PAIRING_COMMITMENT_DOMAIN @ be_encode 2 (unat PROTOCOL_VERSION) @ [role_discriminator role] @
     did_bytes initiator @ did_bytes responder @ pairing_id @ nonce"

definition commitment_derive ::
  "(bytes \<Rightarrow> bytes) \<Rightarrow> pairing_commitment_role \<Rightarrow> device_id \<Rightarrow> device_id \<Rightarrow> bytes \<Rightarrow> bytes \<Rightarrow> pairing_commitment" where
  "commitment_derive blake3 role initiator responder pairing_id nonce =
     PairingCommitment (blake3 (commitment_input role initiator responder pairing_id nonce))"

definition commitment_verifies ::
  "(bytes \<Rightarrow> bytes) \<Rightarrow> pairing_commitment \<Rightarrow> pairing_commitment_role \<Rightarrow> device_id \<Rightarrow> device_id \<Rightarrow>
     bytes \<Rightarrow> bytes \<Rightarrow> bool" where
  "commitment_verifies blake3 c role initiator responder pairing_id nonce =
     (c = commitment_derive blake3 role initiator responder pairing_id nonce)"

record pairing_transcript =
  pt_initiator :: device_id
  pt_responder :: device_id
  pt_pairing_id :: bytes
  pt_initiator_nonce :: bytes
  pt_responder_nonce :: bytes

definition transcript_input :: "pairing_transcript \<Rightarrow> bytes" where
  "transcript_input t =
     PAIRING_DOMAIN @ be_encode 2 (unat PROTOCOL_VERSION) @ did_bytes (pt_initiator t) @
     did_bytes (pt_responder t) @ pt_pairing_id t @ pt_initiator_nonce t @ pt_responder_nonce t"

datatype pairing_code = PairingCode (code_value: nat)

definition transcript_code :: "(bytes \<Rightarrow> bytes) \<Rightarrow> pairing_transcript \<Rightarrow> pairing_code" where
  "transcript_code blake3 t =
     PairingCode (be_decode (take 4 (blake3 (transcript_input t))) mod PAIRING_CODE_MODULUS)"

section \<open>Control messages\<close>

datatype connection_purpose = AuthorizedSession | Pairing

datatype control_message =
    Msg_Hello hello
  | Ping u64
  | Pong u64
  | PairingRequest bytes pairing_commitment
  | PairingResponse bytes pairing_commitment
  | PairingDecision bytes bool
  | PairingComplete bytes
  | PairingReveal bytes bytes
  | ConnectionIntent connection_purpose
  | ConnectionIntentResult bool
  | TransferOffer transfer_id transfer_metadata
  | TransferAccept transfer_id u64
  | TransferTerminal transfer_id transfer_terminal_status
  | TransferTerminalAck transfer_id

fun message_kind_of :: "control_message \<Rightarrow> message_kind" where
  "message_kind_of (Msg_Hello _) = Kind_Hello"
| "message_kind_of (Ping _) = Kind_Ping"
| "message_kind_of (Pong _) = Kind_Pong"
| "message_kind_of (PairingRequest _ _) = Kind_PairingRequest"
| "message_kind_of (PairingResponse _ _) = Kind_PairingResponse"
| "message_kind_of (PairingDecision _ _) = Kind_PairingDecision"
| "message_kind_of (PairingComplete _) = Kind_PairingComplete"
| "message_kind_of (PairingReveal _ _) = Kind_PairingReveal"
| "message_kind_of (ConnectionIntent _) = Kind_ConnectionIntent"
| "message_kind_of (ConnectionIntentResult _) = Kind_ConnectionIntentResult"
| "message_kind_of (TransferOffer _ _) = Kind_TransferOffer"
| "message_kind_of (TransferAccept _ _) = Kind_TransferAccept"
| "message_kind_of (TransferTerminal _ _) = Kind_TransferTerminal"
| "message_kind_of (TransferTerminalAck _) = Kind_TransferTerminalAck"

datatype pairing_message =
    PM_Request bytes pairing_commitment
  | PM_Response bytes pairing_commitment
  | PM_Decision bytes bool
  | PM_Complete bytes
  | PM_Reveal bytes bytes

fun pairing_kind :: "pairing_message \<Rightarrow> message_kind" where
  "pairing_kind (PM_Request _ _) = Kind_PairingRequest"
| "pairing_kind (PM_Response _ _) = Kind_PairingResponse"
| "pairing_kind (PM_Decision _ _) = Kind_PairingDecision"
| "pairing_kind (PM_Complete _) = Kind_PairingComplete"
| "pairing_kind (PM_Reveal _ _) = Kind_PairingReveal"

definition into_pairing :: "control_message \<Rightarrow> (message_kind, pairing_message) result" where
  "into_pairing m =
     (case m of
        PairingRequest i c \<Rightarrow> Ok (PM_Request i c)
      | PairingResponse i c \<Rightarrow> Ok (PM_Response i c)
      | PairingDecision i a \<Rightarrow> Ok (PM_Decision i a)
      | PairingComplete i \<Rightarrow> Ok (PM_Complete i)
      | PairingReveal i n \<Rightarrow> Ok (PM_Reveal i n)
      | message \<Rightarrow> Err (message_kind_of message))"

fun from_pairing :: "pairing_message \<Rightarrow> control_message" where
  "from_pairing (PM_Request i c) = PairingRequest i c"
| "from_pairing (PM_Response i c) = PairingResponse i c"
| "from_pairing (PM_Decision i a) = PairingDecision i a"
| "from_pairing (PM_Complete i) = PairingComplete i"
| "from_pairing (PM_Reveal i n) = PairingReveal i n"

fun message_visit :: "control_message \<Rightarrow> bool" where
  "message_visit (Msg_Hello h) = hello_visit h"
| "message_visit (TransferOffer _ m) = metadata_visit m"
| "message_visit _ = True"

section \<open>Frames\<close>

definition ensure_frame_size :: "nat \<Rightarrow> (frame_error, unit) result" where
  "ensure_frame_size n =
     (if MAX_CONTROL_FRAME_LEN < n then Err (FrameTooLarge n MAX_CONTROL_FRAME_LEN) else Ok ())"

definition declared_length :: "bytes \<Rightarrow> nat" where
  "declared_length prefix = be_decode prefix"

definition decode_payload ::
  "('a \<Rightarrow> bool) \<Rightarrow> 'a postcard \<Rightarrow> bytes \<Rightarrow> (frame_error, 'a) result" where
  "decode_payload visit pc payload =
     (case take_from_bytes pc payload of
        None \<Rightarrow> Err Frame_Decode
      | Some (v, remaining) \<Rightarrow>
          if \<not> visit v then Err Frame_Decode
          else if remaining = [] then Ok v
          else Err (TrailingPayload (length remaining)))"

definition encode_frame :: "'a postcard \<Rightarrow> 'a \<Rightarrow> (frame_error, bytes) result" where
  "encode_frame pc v =
     and_then (ok_or (to_stdvec pc v) Frame_Encode) (\<lambda>payload.
     and_then (ensure_frame_size (length payload)) (\<lambda>_.
     if 2 ^ 32 \<le> length payload then Err (FrameTooLarge (length payload) MAX_CONTROL_FRAME_LEN)
     else Ok (be_encode FRAME_LENGTH_PREFIX_LEN (length payload) @ payload)))"

definition decode_frame ::
  "('a \<Rightarrow> bool) \<Rightarrow> 'a postcard \<Rightarrow> bytes \<Rightarrow> (frame_error, 'a) result" where
  "decode_frame visit pc frame =
     (if length frame < FRAME_LENGTH_PREFIX_LEN then Err (TruncatedLengthPrefix UnexpectedEof)
      else
        let declared = declared_length (take FRAME_LENGTH_PREFIX_LEN frame);
            payload = drop FRAME_LENGTH_PREFIX_LEN frame in
        and_then (ensure_frame_size declared) (\<lambda>_.
          if declared \<noteq> length payload then Err (PayloadLengthMismatch declared (length payload))
          else decode_payload visit pc payload))"

definition encode_message :: "control_message postcard \<Rightarrow> control_message \<Rightarrow> (frame_error, bytes) result" where
  "encode_message pc m = encode_frame pc m"

definition decode_message :: "control_message postcard \<Rightarrow> bytes \<Rightarrow> (frame_error, control_message) result" where
  "decode_message pc frame = decode_frame message_visit pc frame"

definition write_value :: "'a postcard \<Rightarrow> 'a \<Rightarrow> (writer, frame_error, unit) io" where
  "write_value pc v =
     io_bind (io_return (encode_frame pc v)) (\<lambda>frame.
     io_bind (io_map_err Frame_Write (write_all (take FRAME_LENGTH_PREFIX_LEN frame))) (\<lambda>_.
     io_map_err Frame_Write (write_all (drop FRAME_LENGTH_PREFIX_LEN frame))))"

definition read_value :: "('a \<Rightarrow> bool) \<Rightarrow> 'a postcard \<Rightarrow> (reader, frame_error, 'a) io" where
  "read_value visit pc =
     io_bind (io_map_err TruncatedLengthPrefix (read_exact FRAME_LENGTH_PREFIX_LEN)) (\<lambda>prefix.
     io_bind (io_return (ensure_frame_size (declared_length prefix))) (\<lambda>_.
     io_bind (io_map_err TruncatedPayload (read_exact (declared_length prefix))) (\<lambda>payload.
     io_return (decode_payload visit pc payload))))"

definition write_message :: "control_message postcard \<Rightarrow> control_message \<Rightarrow> (writer, frame_error, unit) io" where
  "write_message pc m = write_value pc m"

definition read_message :: "control_message postcard \<Rightarrow> (reader, frame_error, control_message) io" where
  "read_message pc = read_value message_visit pc"

section \<open>Control channels\<close>

record control_channel =
  ch_send :: writer
  ch_recv :: reader

definition on_send :: "(writer, 'e, 'a) io \<Rightarrow> (control_channel, 'e, 'a) io" where
  "on_send f c = (case f (ch_send c) of (r, w) \<Rightarrow> (r, c\<lparr>ch_send := w\<rparr>))"

definition on_recv :: "(reader, 'e, 'a) io \<Rightarrow> (control_channel, 'e, 'a) io" where
  "on_recv f c = (case f (ch_recv c) of (r, w) \<Rightarrow> (r, c\<lparr>ch_recv := w\<rparr>))"

text \<open>The match on the first received message.\<close>

definition expect_hello :: "device_id \<Rightarrow> control_message \<Rightarrow> (handshake_error, hello) result" where
  "expect_hello authenticated_remote_id received =
     (case received of
        Msg_Hello peer \<Rightarrow> and_then (validate_hello peer authenticated_remote_id) (\<lambda>_. Ok peer)
      | other \<Rightarrow> Err (Handshake_UnexpectedMessage Kind_Hello (message_kind_of other)))"

definition exchange_hello ::
  "control_message postcard \<Rightarrow> device_id \<Rightarrow> hello_metadata \<Rightarrow> device_id \<Rightarrow>
     (control_channel, handshake_error, hello) io" where
  "exchange_hello pc local_device_id local_metadata authenticated_remote_id =
     io_bind (io_return (hello_new local_device_id local_metadata)) (\<lambda>local.
     io_bind (io_map_err Handshake_Frame (on_send (write_message pc (Msg_Hello local)))) (\<lambda>_.
     io_bind (io_map_err Handshake_Frame (on_recv (read_message pc))) (\<lambda>received.
     io_return (expect_hello authenticated_remote_id received))))"

definition exchange_hello_with_timeout ::
  "control_message postcard \<Rightarrow> device_id \<Rightarrow> hello_metadata \<Rightarrow> device_id \<Rightarrow> control_channel \<Rightarrow>
     (handshake_error, hello) result \<times> control_channel" where
  "exchange_hello_with_timeout pc local_device_id local_metadata authenticated_remote_id =
     io_timeout HandshakeTimeout
       (exchange_hello pc local_device_id local_metadata authenticated_remote_id)"

definition ping :: "control_message postcard \<Rightarrow> u64 \<Rightarrow> (control_channel, control_error, unit) io" where
  "ping pc nonce =
     io_bind (io_map_err Control_Frame (on_send (write_message pc (Ping nonce)))) (\<lambda>_.
     io_bind (io_map_err Control_Frame (on_recv (read_message pc))) (\<lambda>received.
     io_return (case received of
         Pong actual \<Rightarrow> if actual = nonce then Ok () else Err (NonceMismatch nonce actual)
       | other \<Rightarrow> Err (Control_UnexpectedMessage Kind_Pong (message_kind_of other)))))"

definition respond_to_ping :: "control_message postcard \<Rightarrow> (control_channel, control_error, u64) io" where
  "respond_to_ping pc =
     io_bind (io_map_err Control_Frame (on_recv (read_message pc))) (\<lambda>received.
     case received of
       Ping nonce \<Rightarrow>
         io_bind (io_map_err Control_Frame (on_send (write_message pc (Pong nonce)))) (\<lambda>_.
         io_return (Ok nonce))
     | other \<Rightarrow> io_return (Err (Control_UnexpectedMessage Kind_Ping (message_kind_of other))))"

text \<open>Several messages in a row, as the owner of a control stream writes and reads them.\<close>

fun write_messages :: "control_message postcard \<Rightarrow> control_message list \<Rightarrow> (writer, frame_error, unit) io" where
  "write_messages pc [] = io_return (Ok ())"
| "write_messages pc (m # ms) = io_bind (write_message pc m) (\<lambda>_. write_messages pc ms)"

fun read_messages :: "control_message postcard \<Rightarrow> nat \<Rightarrow> (reader, frame_error, control_message list) io" where
  "read_messages pc 0 = io_return (Ok [])"
| "read_messages pc (Suc n) =
     io_bind (read_message pc) (\<lambda>m. io_bind (read_messages pc n) (\<lambda>ms. io_return (Ok (m # ms))))"

section \<open>Example values\<close>

definition example_metadata :: hello_metadata where
  "example_metadata = \<lparr>hm_device_name = ''alice'', hm_platform = ''linux'', hm_capabilities = [PAIRING_V1]\<rparr>"

definition alice_id :: device_id where
  "alice_id = DeviceId (replicate 32 1)"

definition bob_id :: device_id where
  "bob_id = DeviceId (replicate 32 2)"

definition example_hello :: "device_id \<Rightarrow> hello" where
  "example_hello d = \<lparr>h_protocol_version = PROTOCOL_VERSION, h_device_id = d,
     h_device_name = ''alice'', h_platform = ''linux'', h_capabilities = [PAIRING_V1]\<rparr>"

definition example_message_codec :: "control_message postcard" where
  "example_message_codec =
     table_codec [Msg_Hello (example_hello alice_id), Msg_Hello (example_hello bob_id), Ping 7, Pong 7]"

definition open_writer :: writer where
  "open_writer = \<lparr>wr_bytes = [], wr_room = 1000, wr_end = Stalls\<rparr>"

section \<open>Lemmas\<close>

lemma encode_frame_Ok:
  "encode_frame pc v = Ok f \<longleftrightarrow>
     (\<exists>p. to_stdvec pc v = Some p \<and> length p \<le> MAX_CONTROL_FRAME_LEN \<and> f = be_encode 4 (length p) @ p)"
  by (cases "to_stdvec pc v")
    (auto simp: encode_frame_def ensure_frame_size_def MAX_CONTROL_FRAME_LEN_def
      FRAME_LENGTH_PREFIX_LEN_def)

lemma declared_length_encode: "n \<le> MAX_CONTROL_FRAME_LEN \<Longrightarrow> declared_length (be_encode 4 n) = n"
  by (simp add: declared_length_def be_decode_encode MAX_CONTROL_FRAME_LEN_def)

lemma decode_payload_encoded:
  "postcard_ok pc \<Longrightarrow> to_stdvec pc v = Some p \<Longrightarrow> visit v \<Longrightarrow> decode_payload visit pc p = Ok v"
  by (simp add: decode_payload_def postcard_ok_whole)

lemma decode_encode_frame:
  assumes "postcard_ok pc" and "encode_frame pc v = Ok f" and "visit v"
  shows "decode_frame visit pc f = Ok v"
proof -
  from assms(2) obtain p where p: "to_stdvec pc v = Some p" "length p \<le> MAX_CONTROL_FRAME_LEN"
    "f = be_encode 4 (length p) @ p" by (auto simp: encode_frame_Ok)
  then show ?thesis
    using decode_payload_encoded [OF assms(1) p(1)] assms(3) declared_length_encode [OF p(2)]
    by (simp add: decode_frame_def FRAME_LENGTH_PREFIX_LEN_def ensure_frame_size_def)
qed

text \<open>Reading the frame of a value consumes that frame and nothing else.\<close>

lemma read_value_frame:
  assumes "postcard_ok pc" and "encode_frame pc v = Ok f" and "visit v"
  shows "read_value visit pc \<lparr>rd_bytes = f @ rest, rd_end = e\<rparr> =
    (Ready (Ok v), \<lparr>rd_bytes = rest, rd_end = e\<rparr>)"
proof -
  from assms(2) obtain p where p: "to_stdvec pc v = Some p" "length p \<le> MAX_CONTROL_FRAME_LEN"
    "f = be_encode 4 (length p) @ p" by (auto simp: encode_frame_Ok)
  then show ?thesis
    using decode_payload_encoded [OF assms(1) p(1)] assms(3) declared_length_encode [OF p(2)]
    by (simp add: read_value_def io_bind_def io_map_err_def read_exact_append
        FRAME_LENGTH_PREFIX_LEN_def ensure_frame_size_def)
qed

lemma write_value_Ok:
  "encode_frame pc v = Ok f \<Longrightarrow>
     write_value pc v w = (Ready (Ok u), t) \<longleftrightarrow>
       length f \<le> wr_room w \<and> t = w\<lparr>wr_bytes := wr_bytes w @ f, wr_room := wr_room w - length f\<rparr>"
  by (auto simp: write_value_def io_bind_Ok write_all_Ok encode_frame_Ok FRAME_LENGTH_PREFIX_LEN_def)

lemma write_value_sends:
  "write_value pc v w = (Ready (Ok u), t) \<Longrightarrow>
     \<exists>f. encode_frame pc v = Ok f \<and> wr_bytes t = wr_bytes w @ f"
  by (cases "encode_frame pc v") (auto simp: write_value_Ok, simp add: write_value_def)

lemma on_send_Ok: "on_send f c = (Ready (Ok a), d) \<longleftrightarrow>
    (\<exists>w. f (ch_send c) = (Ready (Ok a), w) \<and> d = c\<lparr>ch_send := w\<rparr>)"
  by (auto simp: on_send_def split: prod.splits)

lemma on_recv_Ok: "on_recv f c = (Ready (Ok a), d) \<longleftrightarrow>
    (\<exists>r. f (ch_recv c) = (Ready (Ok a), r) \<and> d = c\<lparr>ch_recv := r\<rparr>)"
  by (auto simp: on_recv_def split: prod.splits)

lemma hello_new_Ok:
  "hello_new d m = Ok h \<longleftrightarrow>
     h = \<lparr>h_protocol_version = PROTOCOL_VERSION, h_device_id = d, h_device_name = hm_device_name m,
          h_platform = hm_platform m, h_capabilities = hm_capabilities m\<rparr> \<and>
     validate_hello_metadata h = Ok ()"
  by (auto simp: hello_new_def result_simps Let_def)

lemma hello_visit_iff: "hello_visit h \<longleftrightarrow> validate_hello_metadata h = Ok ()"
  by (auto simp: hello_visit_def validate_hello_metadata_def validate_metadata_def
      bounded_string_visit_def bounded_capabilities_visit_def)

lemma validate_hello_Ok:
  "validate_hello h d = Ok u \<longleftrightarrow>
     h_protocol_version h = PROTOCOL_VERSION \<and> validate_hello_metadata h = Ok () \<and> h_device_id h = d"
  by (auto simp: validate_hello_def result_simps)

lemma hello_new_valid: "hello_new d m = Ok h \<Longrightarrow> validate_hello h d = Ok () \<and> hello_visit h"
  by (auto simp: hello_new_Ok validate_hello_Ok hello_visit_iff)

lemma into_from_pairing [simp]: "into_pairing (from_pairing m) = Ok m"
  by (cases m) (simp_all add: into_pairing_def)

lemma into_pairing_Ok: "into_pairing m = Ok p \<longleftrightarrow> m = from_pairing p"
  by (cases m; cases p) (auto simp: into_pairing_def)

lemma from_pairing_inject [simp]: "from_pairing p = from_pairing q \<longleftrightarrow> p = q"
  by (metis into_from_pairing sum.inject(2))

lemma kind_from_pairing [simp]: "message_kind_of (from_pairing p) = pairing_kind p"
  by (cases p) simp_all

text \<open>What is absorbed by the hasher determines every field.\<close>

lemma role_discriminator_inject [simp]: "role_discriminator a = role_discriminator b \<longleftrightarrow> a = b"
  by (cases a; cases b) simp_all

lemma commitment_input_inject:
  assumes "commitment_input role i r pid n = commitment_input role' i' r' pid' n'"
    and "device_id_wf i" "device_id_wf r" "device_id_wf i'" "device_id_wf r'"
    and "length pid = PAIRING_ID_LEN" "length pid' = PAIRING_ID_LEN"
  shows "role = role' \<and> i = i' \<and> r = r' \<and> pid = pid' \<and> n = n'"
  using assms
  by (cases i; cases r; cases i'; cases r') (auto simp: commitment_input_def device_id_wf_def)

lemma one_byte_differs: "(118 :: byte) \<noteq> 99"
  by simp

lemma transcript_input_inject:
  assumes "transcript_input s = transcript_input t"
    and "device_id_wf (pt_initiator s)" "device_id_wf (pt_initiator t)"
    and "device_id_wf (pt_responder s)" "device_id_wf (pt_responder t)"
    and "length (pt_pairing_id s) = length (pt_pairing_id t)"
    and "length (pt_initiator_nonce s) = length (pt_initiator_nonce t)"
  shows "s = t"
proof -
  have "did_bytes (pt_initiator s) = did_bytes (pt_initiator t) \<and>
      did_bytes (pt_responder s) = did_bytes (pt_responder t) \<and> pt_pairing_id s = pt_pairing_id t \<and>
      pt_initiator_nonce s = pt_initiator_nonce t \<and> pt_responder_nonce s = pt_responder_nonce t"
    using assms by (simp add: transcript_input_def device_id_wf_def)
  then show ?thesis by (cases s; cases t) (auto intro: device_id.expand)
qed

lemma write_messages_frames:
  "write_messages pc ms w = (Ready (Ok u), t) \<Longrightarrow>
     \<exists>fs. map (encode_frame pc) ms = map Ok fs \<and> wr_bytes t = wr_bytes w @ concat fs"
proof (induction ms arbitrary: w)
  case Nil
  then show ?case by simp
next
  case (Cons m ms)
  then obtain v x where x: "write_value pc m w = (Ready (Ok v), x)"
    and rest: "write_messages pc ms x = (Ready (Ok u), t)"
    by (auto simp: io_bind_Ok write_message_def)
  from write_value_sends [OF x] obtain f where f: "encode_frame pc m = Ok f" "wr_bytes x = wr_bytes w @ f"
    by blast
  from Cons.IH [OF rest] obtain fs where "map (encode_frame pc) ms = map Ok fs"
    "wr_bytes t = wr_bytes x @ concat fs" by blast
  with f show ?case by (intro exI [of _ "f # fs"]) simp
qed

lemma read_messages_frames:
  "postcard_ok pc \<Longrightarrow> map (encode_frame pc) ms = map Ok fs \<Longrightarrow> list_all message_visit ms \<Longrightarrow>
     read_messages pc (length ms) \<lparr>rd_bytes = concat fs @ rest, rd_end = e\<rparr> =
     (Ready (Ok ms), \<lparr>rd_bytes = rest, rd_end = e\<rparr>)"
proof (induction ms arbitrary: fs)
  case Nil
  then show ?case by simp
next
  case (Cons m ms)
  then obtain f gs where fs: "fs = f # gs" "encode_frame pc m = Ok f" "map (encode_frame pc) ms = map Ok gs"
    by (cases fs) auto
  have "read_value message_visit pc \<lparr>rd_bytes = f @ concat gs @ rest, rd_end = e\<rparr> =
      (Ready (Ok m), \<lparr>rd_bytes = concat gs @ rest, rd_end = e\<rparr>)"
    using Cons.prems fs by (intro read_value_frame) simp_all
  moreover have "read_messages pc (length ms) \<lparr>rd_bytes = concat gs @ rest, rd_end = e\<rparr> =
      (Ready (Ok ms), \<lparr>rd_bytes = rest, rd_end = e\<rparr>)"
    using Cons fs by simp
  ultimately show ?case using fs by (simp add: read_message_def)
qed

lemma example_codec_ok [simp]: "postcard_ok example_message_codec"
  by (simp add: example_message_codec_def table_codec_ok)

lemma example_frames:
  "encode_frame example_message_codec (Msg_Hello (example_hello alice_id)) = Ok [0, 0, 0, 1, 0]"
  "encode_frame example_message_codec (Msg_Hello (example_hello bob_id)) = Ok [0, 0, 0, 1, 1]"
  "encode_frame example_message_codec (Ping 7) = Ok [0, 0, 0, 1, 2]"
  "encode_frame example_message_codec (Pong 7) = Ok [0, 0, 0, 1, 3]"
proof -
  have "example_hello alice_id \<noteq> example_hello bob_id"
    by (simp add: example_hello_def alice_id_def bob_id_def numeral_eq_Suc)
  then show "encode_frame example_message_codec (Msg_Hello (example_hello alice_id)) = Ok [0, 0, 0, 1, 0]"
    "encode_frame example_message_codec (Msg_Hello (example_hello bob_id)) = Ok [0, 0, 0, 1, 1]"
    "encode_frame example_message_codec (Ping 7) = Ok [0, 0, 0, 1, 2]"
    "encode_frame example_message_codec (Pong 7) = Ok [0, 0, 0, 1, 3]"
    by (simp_all add: encode_frame_Ok example_message_codec_def table_codec_def be_encode_numeral
        MAX_CONTROL_FRAME_LEN_def)
qed

lemma example_hello_new: "hello_new d example_metadata = Ok (example_hello d)"
  by (simp add: hello_new_Ok example_metadata_def example_hello_def validate_hello_metadata_def
      validate_metadata_def MAX_DEVICE_NAME_LEN_def MAX_PLATFORM_LEN_def MAX_CAPABILITIES_def)

lemma exchange_hello_peer:
  assumes "exchange_hello_with_timeout pc local_id meta remote_id c = (Ok peer, d)"
  shows "h_device_id peer = remote_id \<and> h_protocol_version peer = PROTOCOL_VERSION \<and>
    length (h_device_name peer) \<le> MAX_DEVICE_NAME_LEN \<and> length (h_platform peer) \<le> MAX_PLATFORM_LEN \<and>
    length (h_capabilities peer) \<le> MAX_CAPABILITIES \<and>
    (\<exists>own frame. hello_new local_id meta = Ok own \<and> encode_message pc (Msg_Hello own) = Ok frame \<and>
       wr_bytes (ch_send d) = wr_bytes (ch_send c) @ frame)"
proof -
  from assms obtain own c1 c2 received where run:
    "hello_new local_id meta = Ok own"
    "on_send (write_message pc (Msg_Hello own)) c = (Ready (Ok ()), c1)"
    "on_recv (read_message pc) c1 = (Ready (Ok received), c2)"
    "d = c2" "expect_hello remote_id received = Ok peer"
    by (auto simp: exchange_hello_with_timeout_def io_timeout_Ok exchange_hello_def io_bind_Ok)
  from run(5) have valid: "validate_hello peer remote_id = Ok ()"
    by (auto simp: expect_hello_def result_simps split: control_message.splits)
  from run(2) obtain w where w: "write_value pc (Msg_Hello own) (ch_send c) = (Ready (Ok ()), w)"
    "c1 = c\<lparr>ch_send := w\<rparr>" by (auto simp: on_send_Ok write_message_def)
  have "ch_send d = w" using run(3,4) w(2) by (auto simp: on_recv_Ok)
  with write_value_sends [OF w(1)] run(1) have "\<exists>own frame. hello_new local_id meta = Ok own \<and>
      encode_message pc (Msg_Hello own) = Ok frame \<and> wr_bytes (ch_send d) = wr_bytes (ch_send c) @ frame"
    by (auto simp: encode_message_def)
  then show ?thesis
    using valid by (auto simp: validate_hello_Ok validate_hello_metadata_def validate_metadata_def
        split: if_splits)
qed

section \<open>Properties\<close>

text \<open>
  C25: control messages keep their boundaries on a stream. If a sequence of messages was written, then
  a reader of the written bytes, followed by anything, gets exactly those messages in order and
  leaves exactly what follows; each message is one that a receiver's validation accepts.
\<close>

theorem control_stream_roundtrip:
  assumes "postcard_ok pc" and "list_all message_visit ms"
    and "write_messages pc ms w = (Ready (Ok ()), t)"
  shows "\<exists>sent. wr_bytes t = wr_bytes w @ sent \<and>
    (\<forall>rest e. read_messages pc (length ms) \<lparr>rd_bytes = sent @ rest, rd_end = e\<rparr> =
       (Ready (Ok ms), \<lparr>rd_bytes = rest, rd_end = e\<rparr>))"
  using write_messages_frames [OF assms(3)] read_messages_frames [OF assms(1) _ assms(2)] by blast

theorem control_stream_roundtrip_witness:
  "\<exists>sent. wr_bytes (snd (write_messages example_message_codec [Ping 7, Pong 7] open_writer)) = sent \<and>
    (\<forall>rest e. read_messages example_message_codec 2 \<lparr>rd_bytes = sent @ rest, rd_end = e\<rparr> =
       (Ready (Ok [Ping 7, Pong 7]), \<lparr>rd_bytes = rest, rd_end = e\<rparr>))"
proof -
  have "write_messages example_message_codec [Ping 7, Pong 7] open_writer =
      (Ready (Ok ()), \<lparr>wr_bytes = [0, 0, 0, 1, 2, 0, 0, 0, 1, 3], wr_room = 990, wr_end = Stalls\<rparr>)"
    by (simp add: write_message_def write_value_def example_frames io_bind_def io_map_err_def
        write_all_def open_writer_def FRAME_LENGTH_PREFIX_LEN_def)
  from control_stream_roundtrip [OF example_codec_ok _ this] this show ?thesis
    by (simp add: open_writer_def numeral_2_eq_2)
qed

text \<open>
  A frame that declares more than one mebibyte is refused before any payload is read or
  allocated: the read fails with the declared length after consuming only the four prefix bytes.
\<close>

theorem control_frame_oversize_stops_early:
  assumes "MAX_CONTROL_FRAME_LEN < n" and "n < 2 ^ 32"
  shows "read_value visit pc \<lparr>rd_bytes = be_encode 4 n @ rest, rd_end = e\<rparr> =
    (Ready (Err (FrameTooLarge n MAX_CONTROL_FRAME_LEN)), \<lparr>rd_bytes = rest, rd_end = e\<rparr>)"
  using assms
  by (simp add: read_value_def io_bind_def io_map_err_def read_exact_append FRAME_LENGTH_PREFIX_LEN_def
      declared_length_def be_decode_encode ensure_frame_size_def)

theorem control_frame_oversize_stops_early_witness:
  "read_value message_visit example_message_codec \<lparr>rd_bytes = be_encode 4 2000000 @ [5], rd_end = Eof\<rparr> =
    (Ready (Err (FrameTooLarge 2000000 MAX_CONTROL_FRAME_LEN)), \<lparr>rd_bytes = [5], rd_end = Eof\<rparr>)"
  by (rule control_frame_oversize_stops_early) (simp_all add: MAX_CONTROL_FRAME_LEN_def)

text \<open>
  A Hello exchange that succeeds within its deadline returns a Hello of the supported version
  whose claimed identity is the identity the transport authenticated and whose metadata is within
  bounds, and it has sent exactly the frame of the local Hello.
\<close>

theorem exchange_hello_authenticates:
  assumes "exchange_hello_with_timeout pc local_id meta remote_id c = (Ok peer, d)"
  shows "h_device_id peer = remote_id \<and> h_protocol_version peer = PROTOCOL_VERSION \<and>
    length (h_device_name peer) \<le> MAX_DEVICE_NAME_LEN \<and> length (h_platform peer) \<le> MAX_PLATFORM_LEN \<and>
    length (h_capabilities peer) \<le> MAX_CAPABILITIES \<and>
    (\<exists>own frame. hello_new local_id meta = Ok own \<and> encode_message pc (Msg_Hello own) = Ok frame \<and>
       wr_bytes (ch_send d) = wr_bytes (ch_send c) @ frame)"
  by (rule exchange_hello_peer [OF assms])

theorem exchange_hello_authenticates_witness:
  "let c = \<lparr>ch_send = open_writer, ch_recv = \<lparr>rd_bytes = [0, 0, 0, 1, 1], rd_end = Stalls\<rparr>\<rparr>;
       (r, d) = exchange_hello_with_timeout example_message_codec alice_id example_metadata bob_id c in
     r = Ok (example_hello bob_id) \<and> h_device_id (example_hello bob_id) = bob_id"
proof -
  let ?c = "\<lparr>ch_send = open_writer, ch_recv = \<lparr>rd_bytes = [0, 0, 0, 1, 1] @ [], rd_end = Stalls\<rparr>\<rparr>"
  have valid: "hello_visit (example_hello bob_id)" "validate_hello (example_hello bob_id) bob_id = Ok ()"
    using hello_new_valid [OF example_hello_new] by simp_all
  have read: "read_value message_visit example_message_codec \<lparr>rd_bytes = [0, 0, 0, 1, 1] @ [], rd_end = Stalls\<rparr> =
      (Ready (Ok (Msg_Hello (example_hello bob_id))), \<lparr>rd_bytes = [], rd_end = Stalls\<rparr>)"
    using valid(1) by (intro read_value_frame) (simp_all add: example_frames)
  obtain d where "exchange_hello_with_timeout example_message_codec alice_id example_metadata bob_id ?c =
      (Ok (example_hello bob_id), d)"
    using read valid(2)
    by (simp add: exchange_hello_with_timeout_def io_timeout_def exchange_hello_def expect_hello_def example_hello_new
        io_bind_def io_map_err_def on_send_def on_recv_def write_message_def write_value_def example_frames
        write_all_def open_writer_def FRAME_LENGTH_PREFIX_LEN_def read_message_def)
  with exchange_hello_authenticates [OF this] show ?thesis by simp
qed

text \<open>
  Two peers with valid metadata always complete the Hello exchange: when each side's stream
  delivers the other's frame and accepts its own, each returns the other's Hello and leaves the bytes
  that follow it for the next operation.
\<close>

theorem exchange_hello_completes:
  assumes "postcard_ok pc" and "hello_new a ma = Ok ha" and "hello_new b mb = Ok hb"
    and "encode_message pc (Msg_Hello ha) = Ok fa" and "encode_message pc (Msg_Hello hb) = Ok fb"
    and "length fa \<le> wr_room w" and "length fb \<le> wr_room v"
  shows "exchange_hello pc a ma b \<lparr>ch_send = w, ch_recv = \<lparr>rd_bytes = fb @ x, rd_end = e\<rparr>\<rparr> =
      (Ready (Ok hb), \<lparr>ch_send = w\<lparr>wr_bytes := wr_bytes w @ fa, wr_room := wr_room w - length fa\<rparr>,
                       ch_recv = \<lparr>rd_bytes = x, rd_end = e\<rparr>\<rparr>) \<and>
    exchange_hello pc b mb a \<lparr>ch_send = v, ch_recv = \<lparr>rd_bytes = fa @ y, rd_end = e'\<rparr>\<rparr> =
      (Ready (Ok ha), \<lparr>ch_send = v\<lparr>wr_bytes := wr_bytes v @ fb, wr_room := wr_room v - length fb\<rparr>,
                       ch_recv = \<lparr>rd_bytes = y, rd_end = e'\<rparr>\<rparr>)"
proof -
  have frames: "encode_frame pc (Msg_Hello ha) = Ok fa" "encode_frame pc (Msg_Hello hb) = Ok fb"
    using assms(4,5) by (simp_all add: encode_message_def)
  have valid: "validate_hello ha a = Ok ()" "hello_visit ha" "validate_hello hb b = Ok ()" "hello_visit hb"
    using hello_new_valid assms(2,3) by blast+
  have reads: "read_value message_visit pc \<lparr>rd_bytes = fa @ y, rd_end = e'\<rparr> =
      (Ready (Ok (Msg_Hello ha)), \<lparr>rd_bytes = y, rd_end = e'\<rparr>)"
    "read_value message_visit pc \<lparr>rd_bytes = fb @ x, rd_end = e\<rparr> =
      (Ready (Ok (Msg_Hello hb)), \<lparr>rd_bytes = x, rd_end = e\<rparr>)"
    using valid frames assms(1) by (simp_all add: read_value_frame)
  have writes: "write_value pc (Msg_Hello ha) w =
      (Ready (Ok ()), w\<lparr>wr_bytes := wr_bytes w @ fa, wr_room := wr_room w - length fa\<rparr>)"
    "write_value pc (Msg_Hello hb) v =
      (Ready (Ok ()), v\<lparr>wr_bytes := wr_bytes v @ fb, wr_room := wr_room v - length fb\<rparr>)"
    using assms(6,7) frames by (simp_all add: write_value_Ok)
  show ?thesis
    using reads writes valid assms(2,3)
    by (simp add: exchange_hello_def expect_hello_def io_bind_def io_map_err_def on_send_def on_recv_def
        write_message_def read_message_def)
qed

theorem exchange_hello_completes_witness:
  "fst (exchange_hello example_message_codec alice_id example_metadata bob_id
     \<lparr>ch_send = open_writer, ch_recv = \<lparr>rd_bytes = [0, 0, 0, 1, 1] @ [], rd_end = Eof\<rparr>\<rparr>) =
   Ready (Ok (example_hello bob_id))"
  using exchange_hello_completes [OF example_codec_ok example_hello_new example_hello_new, of alice_id
      "[0, 0, 0, 1, 0]" bob_id "[0, 0, 0, 1, 1]" open_writer open_writer]
  by (simp add: encode_message_def example_frames open_writer_def)

text \<open>
  A pairing commitment binds its context. If one commitment verifies for two openings, the
  openings agree on role, both identities, attempt and nonce, or they exhibit two different inputs
  with the same BLAKE3 digest.
\<close>

theorem pairing_commitment_binding:
  assumes "commitment_verifies blake3 c role i r pid n" and "commitment_verifies blake3 c role' i' r' pid' n'"
    and "device_id_wf i" and "device_id_wf r" and "device_id_wf i'" and "device_id_wf r'"
    and "length pid = PAIRING_ID_LEN" and "length pid' = PAIRING_ID_LEN"
  shows "(role = role' \<and> i = i' \<and> r = r' \<and> pid = pid' \<and> n = n') \<or>
    (commitment_input role i r pid n \<noteq> commitment_input role' i' r' pid' n' \<and>
     blake3 (commitment_input role i r pid n) = blake3 (commitment_input role' i' r' pid' n'))"
  using assms commitment_input_inject [of role i r pid n role' i' r' pid' n']
  by (auto simp: commitment_verifies_def commitment_derive_def)

theorem pairing_commitment_binding_witness:
  "commitment_verifies id (commitment_derive id Role_Initiator alice_id bob_id (replicate 16 0) [1])
     Role_Initiator alice_id bob_id (replicate 16 0) [1] \<and>
   \<not> commitment_verifies id (commitment_derive id Role_Initiator alice_id bob_id (replicate 16 0) [1])
     Role_Responder alice_id bob_id (replicate 16 0) [1]"
proof -
  let ?c = "commitment_derive id Role_Initiator alice_id bob_id (replicate 16 0) [1]"
  have v: "commitment_verifies id ?c Role_Initiator alice_id bob_id (replicate 16 0) [1]"
    by (simp add: commitment_verifies_def)
  moreover have "\<not> commitment_verifies id ?c Role_Responder alice_id bob_id (replicate 16 0) [1]"
  proof
    assume "commitment_verifies id ?c Role_Responder alice_id bob_id (replicate 16 0) [1]"
    from pairing_commitment_binding [OF v this] show False
      by (simp add: device_id_wf_def alice_id_def bob_id_def DEVICE_ID_LEN_def PAIRING_ID_LEN_def)
  qed
  ultimately show ?thesis by blast
qed

text \<open>
  Verification codes. The code is always below one million; the bytes that are hashed determine
  every field of a well-formed transcript, so exchanging an identity, the attempt or a nonce changes
  the hashed input; and no transcript input is ever a commitment input, so a published commitment
  never reveals a code digest.
\<close>

theorem pairing_code_input_binding:
  assumes "device_id_wf (pt_initiator s)" and "device_id_wf (pt_initiator t)"
    and "device_id_wf (pt_responder s)" and "device_id_wf (pt_responder t)"
    and "length (pt_pairing_id s) = PAIRING_ID_LEN" and "length (pt_pairing_id t) = PAIRING_ID_LEN"
    and "length (pt_initiator_nonce s) = PAIRING_NONCE_LEN"
    and "length (pt_initiator_nonce t) = PAIRING_NONCE_LEN"
  shows "code_value (transcript_code blake3 s) < 1000000 \<and>
    (transcript_input s = transcript_input t \<longleftrightarrow> s = t) \<and>
    (\<forall>role i r pid n. transcript_input s \<noteq> commitment_input role i r pid n)"
proof -
  have "transcript_input s ! 13 = 118" "commitment_input role i r pid n ! 13 = 99" for role i r pid n
    by (simp_all add: transcript_input_def commitment_input_def PAIRING_DOMAIN_def ascii_def
        PAIRING_COMMITMENT_DOMAIN_def nth_append)
  then have "transcript_input s \<noteq> commitment_input role i r pid n" for role i r pid n
    by (metis (mono_tags) one_byte_differs)
  with assms transcript_input_inject [of s t] show ?thesis
    by (auto simp: transcript_code_def PAIRING_CODE_MODULUS_def)
qed

theorem pairing_code_input_binding_witness:
  "let s = \<lparr>pt_initiator = alice_id, pt_responder = bob_id, pt_pairing_id = replicate 16 0,
            pt_initiator_nonce = replicate 32 1, pt_responder_nonce = replicate 32 2\<rparr>;
       t = s\<lparr>pt_initiator := bob_id, pt_responder := alice_id\<rparr> in
   code_value (transcript_code id s) < 1000000 \<and> (transcript_input s = transcript_input t \<longleftrightarrow> s = t)"
  using pairing_code_input_binding [of "\<lparr>pt_initiator = alice_id, pt_responder = bob_id,
     pt_pairing_id = replicate 16 0, pt_initiator_nonce = replicate 32 1,
     pt_responder_nonce = replicate 32 2\<rparr>" "\<lparr>pt_initiator = bob_id, pt_responder = alice_id,
     pt_pairing_id = replicate 16 0, pt_initiator_nonce = replicate 32 1,
     pt_responder_nonce = replicate 32 2\<rparr>" id]
  by (simp add: device_id_wf_def alice_id_def bob_id_def DEVICE_ID_LEN_def PAIRING_ID_LEN_def
      PAIRING_NONCE_LEN_def)

text \<open>
  Ping and pong fit together. A peer that reads a ping sends the pong of the same nonce and
  reports that nonce; the pinging side succeeds exactly when the pong it reads carries its own nonce,
  and reports a mismatch otherwise.
\<close>

theorem ping_pong_matches:
  assumes "postcard_ok pc" and "encode_message pc (Ping n) = Ok fp"
    and "encode_message pc (Pong n) = Ok fn" and "encode_message pc (Pong k) = Ok fk"
    and "length fp \<le> wr_room w" and "length fn \<le> wr_room v"
  shows "respond_to_ping pc \<lparr>ch_send = v, ch_recv = \<lparr>rd_bytes = fp @ x, rd_end = e\<rparr>\<rparr> =
      (Ready (Ok n), \<lparr>ch_send = v\<lparr>wr_bytes := wr_bytes v @ fn, wr_room := wr_room v - length fn\<rparr>,
                      ch_recv = \<lparr>rd_bytes = x, rd_end = e\<rparr>\<rparr>) \<and>
    ping pc n \<lparr>ch_send = w, ch_recv = \<lparr>rd_bytes = fk @ y, rd_end = e'\<rparr>\<rparr> =
      (Ready (if k = n then Ok () else Err (NonceMismatch n k)),
       \<lparr>ch_send = w\<lparr>wr_bytes := wr_bytes w @ fp, wr_room := wr_room w - length fp\<rparr>,
        ch_recv = \<lparr>rd_bytes = y, rd_end = e'\<rparr>\<rparr>)"
proof -
  have frames: "encode_frame pc (Ping n) = Ok fp" "encode_frame pc (Pong n) = Ok fn"
    "encode_frame pc (Pong k) = Ok fk"
    using assms(2-4) by (simp_all add: encode_message_def)
  have reads: "read_value message_visit pc \<lparr>rd_bytes = fp @ x, rd_end = e\<rparr> =
      (Ready (Ok (Ping n)), \<lparr>rd_bytes = x, rd_end = e\<rparr>)"
    "read_value message_visit pc \<lparr>rd_bytes = fk @ y, rd_end = e'\<rparr> =
      (Ready (Ok (Pong k)), \<lparr>rd_bytes = y, rd_end = e'\<rparr>)"
    using frames assms(1) by (simp_all add: read_value_frame)
  have writes: "write_value pc (Ping n) w =
      (Ready (Ok ()), w\<lparr>wr_bytes := wr_bytes w @ fp, wr_room := wr_room w - length fp\<rparr>)"
    "write_value pc (Pong n) v =
      (Ready (Ok ()), v\<lparr>wr_bytes := wr_bytes v @ fn, wr_room := wr_room v - length fn\<rparr>)"
    using assms(5,6) frames by (simp_all add: write_value_Ok)
  from reads writes show ?thesis
    by (simp add: ping_def respond_to_ping_def io_bind_def io_map_err_def on_send_def on_recv_def
        write_message_def read_message_def)
qed

theorem ping_pong_matches_witness:
  "fst (ping example_message_codec 7
     \<lparr>ch_send = open_writer, ch_recv = \<lparr>rd_bytes = [0, 0, 0, 1, 3] @ [], rd_end = Eof\<rparr>\<rparr>) = Ready (Ok ())"
  using ping_pong_matches [OF example_codec_ok, of 7 "[0, 0, 0, 1, 2]" "[0, 0, 0, 1, 3]" 7 "[0, 0, 0, 1, 3]"
      open_writer open_writer]
  by (simp add: encode_message_def example_frames open_writer_def)

end
