(* ===== verification/Transport.thy ===== *)
theory Transport
  imports Wire_Protocol
begin

text \<open>
  The disposable connection of \<open>crates/rift-transport-iroh/src/lib.rs\<close>: configuration and
  error classification, the bounded registry of peer hints, the bootstrap that ends in a validated
  Hello, the one-shot connection intent and the control operations with their deadlines. Iroh is not
  part of the repository: its error values keep only the distinctions the code makes, the dial, the
  stream establishment, the external lookup and the check of a public key are parameters. A deadline
  turns an operation that would wait forever into an error, and every failed control operation poisons
  the connection.
\<close>

section \<open>Configuration and errors\<close>

definition MAX_PEER_HINTS :: nat where
  "MAX_PEER_HINTS = 4096"

definition MAX_HINT_PATHS :: nat where
  "MAX_HINT_PATHS = 32"

text \<open>Durations are nanoseconds. An external lookup answers whether it knows a route to an identity.\<close>

datatype address_lookup =
    Lookup_Disabled
  | Lookup_N0
  | Lookup_Memory "device_id \<Rightarrow> bool"

record endpoint_config =
  ec_address_lookup :: address_lookup
  ec_connection_timeout :: nat
  ec_handshake_timeout :: nat

datatype connection_error = CE_Reset | CE_TimedOut | CE_ApplicationClosed | CE_Other nat

datatype connecting_error = Connecting_ConnectionError connection_error | Connecting_Other nat

datatype connect_error =
    Connect_NoAddress
  | Connect_Connecting connecting_error
  | Connect_Connection connection_error
  | Connect_Other nat

datatype transport_error =
    IntentRejected
  | IntentFrame frame_error
  | UnexpectedIntentMessage message_kind message_kind
  | IntentSequence
  | InvalidDeviceId
  | Unresolved device_id
  | SelfConnect
  | HintCapacityExceeded
  | HintRegistryPoisoned
  | InvalidConfiguration string
  | InvalidBindAddress
  | Bind
  | ConnectTimeout
  | Connect connect_error
  | AcceptTimeout
  | EndpointClosed
  | AcceptStart connection_error
  | Accept connecting_error
  | ControlStreamOpenTimeout
  | ControlStreamAcceptTimeout
  | ControlStream connection_error
  | Handshake handshake_error
  | Control control_error
  | PairingFrame frame_error
  | UnexpectedPairingMessage message_kind
  | ControlConnectionPoisoned
  | ControlTimeout

definition config_validate :: "endpoint_config \<Rightarrow> (transport_error, unit) result" where
  "config_validate c =
     (if ec_connection_timeout c = 0
      then Err (InvalidConfiguration ''connection_timeout must be greater than zero'')
      else if ec_handshake_timeout c = 0
      then Err (InvalidConfiguration ''handshake_timeout must be greater than zero'')
      else Ok ())"

fun retryable_connection_error :: "connection_error \<Rightarrow> bool" where
  "retryable_connection_error CE_Reset = True"
| "retryable_connection_error CE_TimedOut = True"
| "retryable_connection_error CE_ApplicationClosed = True"
| "retryable_connection_error (CE_Other _) = False"

fun retryable_frame_error :: "frame_error \<Rightarrow> bool" where
  "retryable_frame_error (TruncatedLengthPrefix _) = True"
| "retryable_frame_error (TruncatedPayload _) = True"
| "retryable_frame_error (Frame_Write _) = True"
| "retryable_frame_error _ = False"

definition is_retryable :: "transport_error \<Rightarrow> bool" where
  "is_retryable e =
     (case e of
        ConnectTimeout \<Rightarrow> True
      | AcceptTimeout \<Rightarrow> True
      | ControlStreamOpenTimeout \<Rightarrow> True
      | ControlStreamAcceptTimeout \<Rightarrow> True
      | ControlTimeout \<Rightarrow> True
      | Connect Connect_NoAddress \<Rightarrow> True
      | Connect (Connect_Connecting (Connecting_ConnectionError s)) \<Rightarrow> retryable_connection_error s
      | Connect (Connect_Connection s) \<Rightarrow> retryable_connection_error s
      | ControlStream s \<Rightarrow> retryable_connection_error s
      | AcceptStart s \<Rightarrow> retryable_connection_error s
      | Accept (Connecting_ConnectionError s) \<Rightarrow> retryable_connection_error s
      | Handshake HandshakeTimeout \<Rightarrow> True
      | Handshake (Handshake_Frame f) \<Rightarrow> retryable_frame_error f
      | IntentFrame f \<Rightarrow> retryable_frame_error f
      | PairingFrame f \<Rightarrow> retryable_frame_error f
      | Control (Control_Frame f) \<Rightarrow> retryable_frame_error f
      | _ \<Rightarrow> False)"

definition handshake_failure_category :: "handshake_error \<Rightarrow> string" where
  "handshake_failure_category e =
     (case e of
        Handshake_Frame _ \<Rightarrow> ''frame''
      | HandshakeTimeout \<Rightarrow> ''timeout''
      | UnsupportedProtocolVersion _ \<Rightarrow> ''unsupported_version''
      | IdentityMismatch _ _ \<Rightarrow> ''identity_mismatch''
      | InvalidMetadata _ _ _ \<Rightarrow> ''invalid_metadata''
      | TooManyCapabilities _ _ \<Rightarrow> ''too_many_capabilities''
      | Handshake_UnexpectedMessage _ _ \<Rightarrow> ''unexpected_message'')"

section \<open>The endpoint and its peer hints\<close>

text \<open>A peer address is an identity and its paths, which are opaque.\<close>

record endpoint_addr =
  ea_id :: device_id
  ea_addrs :: "nat list"

record rift_endpoint =
  ep_device_id :: device_id
  ep_config :: endpoint_config
  ep_hint_ids :: "(device_id, unit) btree"
  ep_hint_poisoned :: bool

definition remember_peer_addr ::
  "endpoint_addr \<Rightarrow> rift_endpoint \<Rightarrow> (transport_error, device_id) result \<times> rift_endpoint" where
  "remember_peer_addr peer ep =
     (let device_id = ea_id peer in
      if device_id = ep_device_id ep then (Err SelfConnect, ep)
      else if MAX_HINT_PATHS < length (ea_addrs peer) then (Err HintCapacityExceeded, ep)
      else if ea_addrs peer = [] then (Ok device_id, ep)
      else if ep_hint_poisoned ep then (Err HintRegistryPoisoned, ep)
      else if \<not> bt_contains (ep_hint_ids ep) device_id \<and> MAX_PEER_HINTS \<le> length (ep_hint_ids ep)
      then (Err HintCapacityExceeded, ep)
      else (Ok device_id, ep\<lparr>ep_hint_ids := bt_insert device_id () (ep_hint_ids ep)\<rparr>))"

text \<open>\<open>valid_key\<close> is Iroh's check that 32 bytes are a public key.\<close>

definition forget_peer_addr ::
  "(device_id \<Rightarrow> bool) \<Rightarrow> device_id \<Rightarrow> rift_endpoint \<Rightarrow> (transport_error, unit) result \<times> rift_endpoint" where
  "forget_peer_addr valid_key device_id ep =
     (if \<not> valid_key device_id then (Err InvalidDeviceId, ep)
      else if ep_hint_poisoned ep then (Err HintRegistryPoisoned, ep)
      else (Ok (), ep\<lparr>ep_hint_ids := bt_remove device_id (ep_hint_ids ep)\<rparr>))"

definition has_route_source ::
  "(device_id \<Rightarrow> bool) \<Rightarrow> device_id \<Rightarrow> rift_endpoint \<Rightarrow> (transport_error, bool) result" where
  "has_route_source valid_key device_id ep =
     (if \<not> valid_key device_id then Err InvalidDeviceId
      else if ep_hint_poisoned ep then Err HintRegistryPoisoned
      else
        let external = (case ec_address_lookup (ep_config ep) of
            Lookup_Disabled \<Rightarrow> False
          | Lookup_N0 \<Rightarrow> True
          | Lookup_Memory known \<Rightarrow> known device_id) in
        Ok (external \<or> bt_contains (ep_hint_ids ep) device_id))"

text \<open>\<open>dial\<close> is Iroh's connection attempt to an identity, with its deadline applied.\<close>

definition connect_device ::
  "(device_id \<Rightarrow> bool) \<Rightarrow> (device_id \<Rightarrow> (transport_error, 'c) result) \<Rightarrow> device_id \<Rightarrow> rift_endpoint \<Rightarrow>
     (transport_error, 'c) result" where
  "connect_device valid_key dial device_id ep =
     (if device_id = ep_device_id ep then Err SelfConnect
      else if \<not> valid_key device_id then Err InvalidDeviceId
      else and_then (has_route_source valid_key device_id ep) (\<lambda>known.
        if \<not> known then Err (Unresolved device_id) else dial device_id))"

definition connect ::
  "(device_id \<Rightarrow> bool) \<Rightarrow> (device_id \<Rightarrow> (transport_error, 'c) result) \<Rightarrow> endpoint_addr \<Rightarrow> rift_endpoint \<Rightarrow>
     (transport_error, 'c) result \<times> rift_endpoint" where
  "connect valid_key dial peer ep =
     (case remember_peer_addr peer ep of
        (Err e, ep') \<Rightarrow> (Err e, ep')
      | (Ok device_id, ep') \<Rightarrow> (connect_device valid_key dial device_id ep', ep'))"

section \<open>Bootstrapped connections\<close>

datatype intent_phase = Fresh | AwaitingDecision | Finished

record bootstrapped =
  bc_control :: "control_channel option"
  bc_closed :: bool
  bc_local_device_id :: device_id
  bc_peer_hello :: hello
  bc_intent_phase :: intent_phase

definition bc_remote_device_id :: "bootstrapped \<Rightarrow> device_id" where
  "bc_remote_device_id c = h_device_id (bc_peer_hello c)"

definition bc_close :: "bootstrapped \<Rightarrow> bootstrapped" where
  "bc_close c = c\<lparr>bc_closed := True\<rparr>"

definition poison :: "bootstrapped \<Rightarrow> bootstrapped" where
  "poison c = c\<lparr>bc_control := None, bc_closed := True\<rparr>"

text \<open>
  \<open>control_result\<close> is the outcome of opening or accepting the control stream on the
  authenticated connection to \<open>remote_device_id\<close>. Every failure closes the connection.
\<close>

definition bootstrap ::
  "control_message postcard \<Rightarrow> rift_endpoint \<Rightarrow> device_id \<Rightarrow> hello_metadata \<Rightarrow>
     (transport_error, control_channel) result \<Rightarrow> (transport_error, bootstrapped) result \<times> bool" where
  "bootstrap pc ep remote_device_id metadata control_result =
     (case control_result of
        Err e \<Rightarrow> (Err e, True)
      | Ok control \<Rightarrow>
          (case exchange_hello_with_timeout pc (ep_device_id ep) metadata remote_device_id control of
             (Err e, _) \<Rightarrow> (Err (Handshake e), True)
           | (Ok peer_hello, control') \<Rightarrow>
               (Ok \<lparr>bc_control = Some control', bc_closed = False, bc_local_device_id = ep_device_id ep,
                   bc_peer_hello = peer_hello, bc_intent_phase = Fresh\<rparr>, False)))"

text \<open>
  One control operation under a deadline: it needs an unpoisoned connection, and a failure or a
  missed deadline poisons it.
\<close>

definition with_control ::
  "('e \<Rightarrow> transport_error) \<Rightarrow> (control_channel, 'e, 'a) io \<Rightarrow> bootstrapped \<Rightarrow>
     (transport_error, 'a) result \<times> bootstrapped" where
  "with_control wrap f c =
     (case bc_control c of
        None \<Rightarrow> (Err ControlConnectionPoisoned, c)
      | Some control \<Rightarrow>
          (case f control of
             (Ready (Ok a), control') \<Rightarrow> (Ok a, c\<lparr>bc_control := Some control'\<rparr>)
           | (Ready (Err e), _) \<Rightarrow> (Err (wrap e), poison c)
           | (Pending, _) \<Rightarrow> (Err ControlTimeout, poison c)))"

section \<open>The connection intent\<close>

definition require_intent_phase ::
  "intent_phase \<Rightarrow> bootstrapped \<Rightarrow> (transport_error, unit) result \<times> bootstrapped" where
  "require_intent_phase phase c =
     (if bc_control c = None then (Err ControlConnectionPoisoned, c)
      else if bc_intent_phase c \<noteq> phase then (Err IntentSequence, poison c)
      else (Ok (), c))"

definition write_intent ::
  "control_message postcard \<Rightarrow> control_message \<Rightarrow> bootstrapped \<Rightarrow> (transport_error, unit) result \<times> bootstrapped" where
  "write_intent pc message = with_control IntentFrame (on_send (write_message pc message))"

definition read_intent ::
  "control_message postcard \<Rightarrow> bootstrapped \<Rightarrow> (transport_error, control_message) result \<times> bootstrapped" where
  "read_intent pc = with_control IntentFrame (on_recv (read_message pc))"

definition request_intent ::
  "control_message postcard \<Rightarrow> connection_purpose \<Rightarrow> bootstrapped \<Rightarrow>
     (transport_error, unit) result \<times> bootstrapped" where
  "request_intent pc purpose c =
     (case require_intent_phase Fresh c of
        (Err e, c1) \<Rightarrow> (Err e, c1)
      | (Ok _, c1) \<Rightarrow>
          (case write_intent pc (ConnectionIntent purpose) (c1\<lparr>bc_intent_phase := Finished\<rparr>) of
             (Err e, c2) \<Rightarrow> (Err e, c2)
           | (Ok _, c2) \<Rightarrow>
               (case read_intent pc c2 of
                  (Err e, c3) \<Rightarrow> (Err e, c3)
                | (Ok message, c3) \<Rightarrow>
                    (case message of
                       ConnectionIntentResult accepted \<Rightarrow>
                         if accepted then (Ok (), c3) else (Err IntentRejected, poison c3)
                     | other \<Rightarrow> (Err (UnexpectedIntentMessage Kind_ConnectionIntentResult
                                   (message_kind_of other)), poison c3)))))"

definition receive_intent ::
  "control_message postcard \<Rightarrow> bootstrapped \<Rightarrow> (transport_error, connection_purpose) result \<times> bootstrapped" where
  "receive_intent pc c =
     (case require_intent_phase Fresh c of
        (Err e, c1) \<Rightarrow> (Err e, c1)
      | (Ok _, c1) \<Rightarrow>
          (case read_intent pc (c1\<lparr>bc_intent_phase := AwaitingDecision\<rparr>) of
             (Err e, c2) \<Rightarrow> (Err e, c2)
           | (Ok message, c2) \<Rightarrow>
               (case message of
                  ConnectionIntent purpose \<Rightarrow> (Ok purpose, c2)
                | other \<Rightarrow> (Err (UnexpectedIntentMessage Kind_ConnectionIntent
                              (message_kind_of other)), poison c2))))"

definition send_intent_result ::
  "control_message postcard \<Rightarrow> bool \<Rightarrow> bootstrapped \<Rightarrow> (transport_error, unit) result \<times> bootstrapped" where
  "send_intent_result pc accepted c =
     (case require_intent_phase AwaitingDecision c of
        (Err e, c1) \<Rightarrow> (Err e, c1)
      | (Ok _, c1) \<Rightarrow>
          (case write_intent pc (ConnectionIntentResult accepted) (c1\<lparr>bc_intent_phase := Finished\<rparr>) of
             (Err e, c2) \<Rightarrow> (Err e, c2)
           | (Ok _, c2) \<Rightarrow> (Ok (), if accepted then c2 else poison c2)))"

section \<open>Pairing and authorized control\<close>

definition send_pairing ::
  "control_message postcard \<Rightarrow> pairing_message \<Rightarrow> bootstrapped \<Rightarrow> (transport_error, unit) result \<times> bootstrapped" where
  "send_pairing pc message = with_control PairingFrame (on_send (write_message pc (from_pairing message)))"

definition receive_pairing ::
  "control_message postcard \<Rightarrow> bootstrapped \<Rightarrow> (transport_error, pairing_message) result \<times> bootstrapped" where
  "receive_pairing pc c =
     (case with_control PairingFrame (on_recv (read_message pc)) c of
        (Err e, c1) \<Rightarrow> (Err e, c1)
      | (Ok message, c1) \<Rightarrow>
          (case into_pairing message of
             Ok pairing \<Rightarrow> (Ok pairing, c1)
           | Err received \<Rightarrow> (Err (UnexpectedPairingMessage received), poison c1)))"

definition bc_ping ::
  "control_message postcard \<Rightarrow> u64 \<Rightarrow> bootstrapped \<Rightarrow> (transport_error, unit) result \<times> bootstrapped" where
  "bc_ping pc nonce = with_control Control (ping pc nonce)"

definition bc_respond_to_ping ::
  "control_message postcard \<Rightarrow> bootstrapped \<Rightarrow> (transport_error, u64) result \<times> bootstrapped" where
  "bc_respond_to_ping pc = with_control Control (respond_to_ping pc)"

text \<open>
  One turn of the authorized control loop. The first byte of a frame is awaited without a deadline,
  so a quiet stream is \<open>Serve_Idle\<close>; the rest of the frame is read under the deadline from the
  stream with that byte put back in front.
\<close>

datatype serve_turn =
    Serve_Continue control_channel
  | Serve_Idle
  | Serve_Failed transport_error

definition serve_once :: "control_message postcard \<Rightarrow> control_channel \<Rightarrow> serve_turn" where
  "serve_once pc control =
     (case read_exact 1 (ch_recv control) of
        (Pending, _) \<Rightarrow> Serve_Idle
      | (Ready (Err e), _) \<Rightarrow> Serve_Failed (Control (Control_Frame (TruncatedLengthPrefix e)))
      | (Ready (Ok first), recv) \<Rightarrow>
          (case read_message pc (recv\<lparr>rd_bytes := first @ rd_bytes recv\<rparr>) of
             (Pending, _) \<Rightarrow> Serve_Failed ControlTimeout
           | (Ready (Err e), _) \<Rightarrow> Serve_Failed (Control (Control_Frame e))
           | (Ready (Ok message), recv') \<Rightarrow>
               (case message of
                  Ping nonce \<Rightarrow>
                    (case write_message pc (Pong nonce) (ch_send control) of
                       (Pending, _) \<Rightarrow> Serve_Failed ControlTimeout
                     | (Ready (Err e), _) \<Rightarrow> Serve_Failed (Control (Control_Frame e))
                     | (Ready (Ok _), send') \<Rightarrow> Serve_Continue \<lparr>ch_send = send', ch_recv = recv'\<rparr>)
                | other \<Rightarrow> Serve_Failed (Control (Control_UnexpectedMessage Kind_Ping
                              (message_kind_of other))))))"

text \<open>
  The loop, for at most \<open>fuel\<close> turns; it returns only with an error, and \<open>Pending\<close> is a
  session that is still waiting for its next frame. Every turn consumes a frame, so one more turn
  than there are bytes is enough.
\<close>

fun serve_control ::
  "nat \<Rightarrow> control_message postcard \<Rightarrow> bootstrapped \<Rightarrow> (transport_error, unit) result poll option \<times> bootstrapped" where
  "serve_control 0 pc c = (None, c)"
| "serve_control (Suc fuel) pc c =
     (case bc_control c of
        None \<Rightarrow> (Some (Ready (Err ControlConnectionPoisoned)), c)
      | Some control \<Rightarrow>
          (case serve_once pc control of
             Serve_Idle \<Rightarrow> (Some Pending, c)
           | Serve_Failed e \<Rightarrow> (Some (Ready (Err e)), poison c)
           | Serve_Continue control' \<Rightarrow> serve_control fuel pc (c\<lparr>bc_control := Some control'\<rparr>)))"

section \<open>Operations as machines\<close>

datatype conn_op =
    Op_RequestIntent connection_purpose
  | Op_ReceiveIntent
  | Op_SendIntentResult bool
  | Op_SendPairing pairing_message
  | Op_ReceivePairing
  | Op_Ping u64
  | Op_RespondToPing

definition discard :: "('e, 'a) result \<times> 's \<Rightarrow> ('e, unit) result \<times> 's" where
  "discard r = (and_then (fst r) (\<lambda>_. Ok ()), snd r)"

fun conn_exec ::
  "control_message postcard \<Rightarrow> conn_op \<Rightarrow> bootstrapped \<Rightarrow> (transport_error, unit) result \<times> bootstrapped" where
  "conn_exec pc (Op_RequestIntent p) c = request_intent pc p c"
| "conn_exec pc Op_ReceiveIntent c = discard (receive_intent pc c)"
| "conn_exec pc (Op_SendIntentResult b) c = send_intent_result pc b c"
| "conn_exec pc (Op_SendPairing m) c = send_pairing pc m c"
| "conn_exec pc Op_ReceivePairing c = discard (receive_pairing pc c)"
| "conn_exec pc (Op_Ping n) c = bc_ping pc n c"
| "conn_exec pc Op_RespondToPing c = discard (bc_respond_to_ping pc c)"

datatype hint_op = Remember endpoint_addr | Forget_Hint device_id

fun hint_exec ::
  "(device_id \<Rightarrow> bool) \<Rightarrow> hint_op \<Rightarrow> rift_endpoint \<Rightarrow> (transport_error, unit) result \<times> rift_endpoint" where
  "hint_exec valid_key (Remember a) ep = discard (remember_peer_addr a ep)"
| "hint_exec valid_key (Forget_Hint d) ep = forget_peer_addr valid_key d ep"

definition hint_inv :: "rift_endpoint \<Rightarrow> bool" where
  "hint_inv ep =
     (bt_wf (ep_hint_ids ep) \<and> length (ep_hint_ids ep) \<le> MAX_PEER_HINTS \<and>
      \<not> bt_contains (ep_hint_ids ep) (ep_device_id ep))"

definition hint_initial :: "rift_endpoint \<Rightarrow> bool" where
  "hint_initial ep = (ep_hint_ids ep = [])"

definition hint_step :: "(device_id \<Rightarrow> bool) \<Rightarrow> rift_endpoint \<Rightarrow> rift_endpoint \<Rightarrow> bool" where
  "hint_step valid_key s t = (\<exists>op. t = snd (hint_exec valid_key op s))"

section \<open>Example values\<close>

definition example_conn :: "bytes \<Rightarrow> bootstrapped" where
  "example_conn incoming =
     \<lparr>bc_control = Some \<lparr>ch_send = open_writer, ch_recv = \<lparr>rd_bytes = incoming, rd_end = Stalls\<rparr>\<rparr>,
      bc_closed = False, bc_local_device_id = alice_id, bc_peer_hello = example_hello bob_id,
      bc_intent_phase = Fresh\<rparr>"

definition example_endpoint :: rift_endpoint where
  "example_endpoint =
     \<lparr>ep_device_id = alice_id,
      ep_config = \<lparr>ec_address_lookup = Lookup_Disabled, ec_connection_timeout = 1, ec_handshake_timeout = 1\<rparr>,
      ep_hint_ids = [], ep_hint_poisoned = False\<rparr>"

definition intent_codec :: "control_message postcard" where
  "intent_codec = table_codec [ConnectionIntent Pairing, ConnectionIntentResult True, ConnectionIntentResult False]"

section \<open>Lemmas on connections\<close>

lemma poison_simps [simp]:
  "bc_control (poison c) = None" "bc_closed (poison c)" "bc_intent_phase (poison c) = bc_intent_phase c"
  "bc_peer_hello (poison c) = bc_peer_hello c" "bc_local_device_id (poison c) = bc_local_device_id c"
  by (simp_all add: poison_def)

lemma with_control_Ok:
  "with_control wrap f c = (Ok a, d) \<longleftrightarrow>
     (\<exists>ctl ctl'. bc_control c = Some ctl \<and> f ctl = (Ready (Ok a), ctl') \<and> d = c\<lparr>bc_control := Some ctl'\<rparr>)"
  by (auto simp: with_control_def split: option.splits prod.splits poll.splits sum.splits)

lemma with_control_Err:
  "with_control wrap f c = (Err e, d) \<Longrightarrow> bc_control d = None \<and> (bc_closed d \<or> d = c)"
  by (auto simp: with_control_def split: option.splits prod.splits poll.splits sum.splits)

lemma with_control_None [simp]:
  "bc_control c = None \<Longrightarrow> with_control wrap f c = (Err ControlConnectionPoisoned, c)"
  by (simp add: with_control_def)

lemma conn_exec_poisoned: "bc_control c = None \<Longrightarrow> conn_exec pc op c = (Err ControlConnectionPoisoned, c)"
  by (cases op)
    (simp_all add: request_intent_def receive_intent_def send_intent_result_def require_intent_phase_def
      send_pairing_def receive_pairing_def bc_ping_def bc_respond_to_ping_def discard_def)

lemma require_intent_phase_elim:
  assumes "require_intent_phase ph c = (r, d)"
  obtains (refused) e where "r = Err e" "bc_control d = None" "bc_closed d \<or> d = c"
  | (passed) "r = Ok ()" "d = c" "bc_control c \<noteq> None" "bc_intent_phase c = ph"
  using assms by (auto simp: require_intent_phase_def split: if_splits)

lemma request_intent_Err:
  assumes "request_intent pc p c = (Err e, d)"
  shows "bc_control d = None \<and> (bc_closed d \<or> d = c)"
proof -
  obtain r c1 where r: "require_intent_phase Fresh c = (r, c1)" by fastforce
  obtain w c2 where w: "write_intent pc (ConnectionIntent p) (c1\<lparr>bc_intent_phase := Finished\<rparr>) = (w, c2)"
    by fastforce
  obtain m c3 where m: "read_intent pc c2 = (m, c3)" by fastforce
  show ?thesis
    using r
  proof (cases rule: require_intent_phase_elim)
    case (refused e')
    with assms r show ?thesis by (simp add: request_intent_def)
  next
    case passed
    have werr: "bc_closed c2" if "w = Err x" for x
      using w passed(2,3) that by (auto simp: write_intent_def with_control_def split: option.splits
          prod.splits poll.splits sum.splits)
    have rerr: "bc_closed c3" if "w = Ok x" "m = Err y" for x y
      using w m that by (auto simp: write_intent_def read_intent_def with_control_def
          split: option.splits prod.splits poll.splits sum.splits)
    show ?thesis
      using assms r w m passed werr rerr
      by (cases w; cases m)
        (auto simp: request_intent_def write_intent_def read_intent_def dest!: with_control_Err
          split: control_message.splits if_splits)
  qed
qed

lemma receive_intent_Err:
  assumes "receive_intent pc c = (Err e, d)"
  shows "bc_control d = None \<and> (bc_closed d \<or> d = c)"
proof -
  obtain r c1 where r: "require_intent_phase Fresh c = (r, c1)" by fastforce
  obtain m c2 where m: "read_intent pc (c1\<lparr>bc_intent_phase := AwaitingDecision\<rparr>) = (m, c2)" by fastforce
  show ?thesis
    using r
  proof (cases rule: require_intent_phase_elim)
    case (refused e')
    with assms r show ?thesis by (simp add: receive_intent_def)
  next
    case passed
    have rerr: "bc_closed c2" if "m = Err y" for y
      using m passed(2,3) that by (auto simp: read_intent_def with_control_def
          split: option.splits prod.splits poll.splits sum.splits)
    show ?thesis
      using assms r m passed rerr
      by (cases m)
        (auto simp: receive_intent_def read_intent_def dest!: with_control_Err
          split: control_message.splits)
  qed
qed

lemma send_intent_result_Err:
  assumes "send_intent_result pc b c = (Err e, d)"
  shows "bc_control d = None \<and> (bc_closed d \<or> d = c)"
proof -
  obtain r c1 where r: "require_intent_phase AwaitingDecision c = (r, c1)" by fastforce
  obtain w c2 where w: "write_intent pc (ConnectionIntentResult b) (c1\<lparr>bc_intent_phase := Finished\<rparr>) = (w, c2)"
    by fastforce
  show ?thesis
    using r
  proof (cases rule: require_intent_phase_elim)
    case (refused e')
    with assms r show ?thesis by (simp add: send_intent_result_def)
  next
    case passed
    have werr: "bc_closed c2" if "w = Err x" for x
      using w passed(2,3) that by (auto simp: write_intent_def with_control_def split: option.splits
          prod.splits poll.splits sum.splits)
    show ?thesis
      using assms r w passed werr
      by (cases w)
        (auto simp: send_intent_result_def write_intent_def dest!: with_control_Err)
  qed
qed

lemma receive_pairing_Err:
  assumes "receive_pairing pc c = (Err e, d)"
  shows "bc_control d = None \<and> (bc_closed d \<or> d = c)"
proof -
  obtain m c1 where m: "with_control PairingFrame (on_recv (read_message pc)) c = (m, c1)" by fastforce
  with assms show ?thesis
    by (cases m) (auto simp: receive_pairing_def dest: with_control_Err split: sum.splits)
qed

lemma conn_exec_Err:
  "conn_exec pc op c = (Err e, d) \<Longrightarrow> bc_control d = None \<and> (bc_closed d \<or> d = c)"
proof (cases op)
  case Op_ReceiveIntent
  then show "conn_exec pc op c = (Err e, d) \<Longrightarrow> ?thesis"
    by (cases "receive_intent pc c") (auto simp: discard_def result_simps dest: receive_intent_Err)
next
  case Op_ReceivePairing
  then show "conn_exec pc op c = (Err e, d) \<Longrightarrow> ?thesis"
    by (cases "receive_pairing pc c") (auto simp: discard_def result_simps dest: receive_pairing_Err)
next
  case Op_RespondToPing
  then show "conn_exec pc op c = (Err e, d) \<Longrightarrow> ?thesis"
    by (cases "bc_respond_to_ping pc c")
      (auto simp: discard_def result_simps bc_respond_to_ping_def dest: with_control_Err)
qed (auto simp: send_pairing_def bc_ping_def dest: request_intent_Err send_intent_result_Err with_control_Err)

text \<open>Reading and writing one message on an open connection.\<close>

lemma with_control_read:
  assumes "postcard_ok pc" and "encode_frame pc m = Ok f" and "message_visit m"
    and "bc_control c = Some \<lparr>ch_send = w, ch_recv = \<lparr>rd_bytes = f @ x, rd_end = e\<rparr>\<rparr>"
  shows "with_control wrap (on_recv (read_message pc)) c =
    (Ok m, c\<lparr>bc_control := Some \<lparr>ch_send = w, ch_recv = \<lparr>rd_bytes = x, rd_end = e\<rparr>\<rparr>\<rparr>)"
  using assms read_value_frame [of pc m f message_visit x e]
  by (simp add: with_control_def on_recv_def read_message_def)

lemma with_control_write:
  assumes "encode_frame pc m = Ok f" and "length f \<le> wr_room w"
    and "bc_control c = Some \<lparr>ch_send = w, ch_recv = r\<rparr>"
  shows "with_control wrap (on_send (write_message pc m)) c =
    (Ok (), c\<lparr>bc_control := Some \<lparr>ch_send = w\<lparr>wr_bytes := wr_bytes w @ f, wr_room := wr_room w - length f\<rparr>,
                                  ch_recv = r\<rparr>\<rparr>)"
proof -
  have "write_value pc m w = (Ready (Ok ()), w\<lparr>wr_bytes := wr_bytes w @ f, wr_room := wr_room w - length f\<rparr>)"
    using assms by (simp add: write_value_Ok)
  with assms show ?thesis by (simp add: with_control_def on_send_def write_message_def)
qed

lemma split_first: "encode_frame pc m = Ok f \<Longrightarrow> \<exists>b fs. f = b # fs"
  by (cases f) (auto simp: encode_frame_Ok be_encode_numeral)

lemma serve_once_ping:
  assumes "postcard_ok pc" and "encode_frame pc (Ping n) = Ok f" and "encode_frame pc (Pong n) = Ok g"
    and "length g \<le> wr_room w"
  shows "serve_once pc \<lparr>ch_send = w, ch_recv = \<lparr>rd_bytes = f @ x, rd_end = e\<rparr>\<rparr> =
    Serve_Continue \<lparr>ch_send = w\<lparr>wr_bytes := wr_bytes w @ g, wr_room := wr_room w - length g\<rparr>,
                    ch_recv = \<lparr>rd_bytes = x, rd_end = e\<rparr>\<rparr>"
proof -
  obtain b fs where f: "f = b # fs" using split_first [OF assms(2)] by blast
  have "read_value message_visit pc \<lparr>rd_bytes = f @ x, rd_end = e\<rparr> =
      (Ready (Ok (Ping n)), \<lparr>rd_bytes = x, rd_end = e\<rparr>)"
    using assms(1,2) by (simp add: read_value_frame)
  moreover have "write_value pc (Pong n) w =
      (Ready (Ok ()), w\<lparr>wr_bytes := wr_bytes w @ g, wr_room := wr_room w - length g\<rparr>)"
    using assms(3,4) by (simp add: write_value_Ok)
  ultimately show ?thesis
    using f by (simp add: serve_once_def read_exact_def read_message_def write_message_def)
qed

lemma serve_once_other:
  assumes "postcard_ok pc" and "encode_frame pc m = Ok f" and "message_visit m"
    and "message_kind_of m \<noteq> Kind_Ping"
  shows "serve_once pc \<lparr>ch_send = w, ch_recv = \<lparr>rd_bytes = f @ x, rd_end = e\<rparr>\<rparr> =
    Serve_Failed (Control (Control_UnexpectedMessage Kind_Ping (message_kind_of m)))"
proof -
  obtain b fs where f: "f = b # fs" using split_first [OF assms(2)] by blast
  have "read_value message_visit pc \<lparr>rd_bytes = f @ x, rd_end = e\<rparr> =
      (Ready (Ok m), \<lparr>rd_bytes = x, rd_end = e\<rparr>)"
    using assms(1-3) by (simp add: read_value_frame)
  with f assms(4) show ?thesis
    by (cases m) (simp_all add: serve_once_def read_exact_def read_message_def)
qed

lemma serve_pings:
  assumes "postcard_ok pc"
  shows "map (\<lambda>n. encode_message pc (Ping n)) ns = map Ok pings \<Longrightarrow>
    map (\<lambda>n. encode_message pc (Pong n)) ns = map Ok pongs \<Longrightarrow>
    length (concat pongs) \<le> wr_room w \<Longrightarrow>
    bc_control c = Some \<lparr>ch_send = w, ch_recv = \<lparr>rd_bytes = concat pings @ rest, rd_end = e\<rparr>\<rparr> \<Longrightarrow>
    length ns \<le> fuel \<Longrightarrow>
    \<exists>d s. serve_control fuel pc c = serve_control (fuel - length ns) pc d \<and>
      bc_control d = Some \<lparr>ch_send = s, ch_recv = \<lparr>rd_bytes = rest, rd_end = e\<rparr>\<rparr> \<and>
      wr_bytes s = wr_bytes w @ concat pongs"
proof (induction ns arbitrary: pings pongs w c fuel)
  case Nil
  then show ?case by (intro exI [of _ c] exI [of _ w]) simp
next
  case (Cons n ns)
  obtain p ps where p: "pings = p # ps" "encode_frame pc (Ping n) = Ok p"
    "map (\<lambda>n. encode_message pc (Ping n)) ns = map Ok ps"
    using Cons.prems(1) by (cases pings) (auto simp: encode_message_def)
  obtain q qs where q: "pongs = q # qs" "encode_frame pc (Pong n) = Ok q"
    "map (\<lambda>n. encode_message pc (Pong n)) ns = map Ok qs"
    using Cons.prems(2) by (cases pongs) (auto simp: encode_message_def)
  obtain k where k: "fuel = Suc k" using Cons.prems(5) by (cases fuel) auto
  let ?w = "w\<lparr>wr_bytes := wr_bytes w @ q, wr_room := wr_room w - length q\<rparr>"
  let ?c = "c\<lparr>bc_control := Some \<lparr>ch_send = ?w, ch_recv = \<lparr>rd_bytes = concat ps @ rest, rd_end = e\<rparr>\<rparr>\<rparr>"
  have "serve_once pc \<lparr>ch_send = w, ch_recv = \<lparr>rd_bytes = p @ concat ps @ rest, rd_end = e\<rparr>\<rparr> =
      Serve_Continue \<lparr>ch_send = ?w, ch_recv = \<lparr>rd_bytes = concat ps @ rest, rd_end = e\<rparr>\<rparr>"
    using serve_once_ping [OF assms p(2) q(2)] Cons.prems(3) q(1) by simp
  then have "serve_control fuel pc c = serve_control k pc ?c"
    using Cons.prems(4) p(1) k by simp
  moreover have "\<exists>d s. serve_control k pc ?c = serve_control (k - length ns) pc d \<and>
      bc_control d = Some \<lparr>ch_send = s, ch_recv = \<lparr>rd_bytes = rest, rd_end = e\<rparr>\<rparr> \<and>
      wr_bytes s = wr_bytes ?w @ concat qs"
    using Cons.prems(3,5) q(1) k by (intro Cons.IH [OF p(3) q(3)]) simp_all
  ultimately show ?case using q(1) k by simp
qed

section \<open>Lemmas on peer hints\<close>

lemma hint_exec_inv: "hint_inv ep \<Longrightarrow> hint_inv (snd (hint_exec valid_key op ep))"
proof (cases op)
  case (Remember a)
  assume inv: "hint_inv ep"
  have "length (bt_insert (ea_id a) () (ep_hint_ids ep)) \<le> MAX_PEER_HINTS"
    if "bt_contains (ep_hint_ids ep) (ea_id a) \<or> length (ep_hint_ids ep) < MAX_PEER_HINTS"
    using inv that by (auto simp: hint_inv_def length_bt_insert)
  with inv Remember show ?thesis
    by (auto simp: remember_peer_addr_def discard_def Let_def hint_inv_def bt_wf_insert bt_contains_iff
        set_bt_keys_insert not_le)
next
  case (Forget_Hint d)
  assume inv: "hint_inv ep"
  have "length (bt_remove d (ep_hint_ids ep)) \<le> MAX_PEER_HINTS"
    using inv length_bt_remove_le [of d "ep_hint_ids ep"] by (simp add: hint_inv_def)
  with inv Forget_Hint show ?thesis
    by (auto simp: forget_peer_addr_def hint_inv_def bt_wf_remove bt_contains_def)
qed

interpretation hint_machine: invariant_machine hint_initial "hint_step valid_key" hint_inv for valid_key
proof
  fix s
  show "hint_initial s \<Longrightarrow> hint_inv s"
    by (simp add: hint_initial_def hint_inv_def bt_contains_def)
next
  fix s t
  show "hint_inv s \<Longrightarrow> hint_step valid_key s t \<Longrightarrow> hint_inv t"
    using hint_exec_inv by (auto simp: hint_step_def)
qed

text \<open>The Hello of a bootstrapped connection is the authenticated peer's.\<close>

lemma bootstrap_peer:
  assumes "bootstrap pc ep remote meta control = (Ok c, closed)"
  shows "bc_remote_device_id c = remote \<and> bc_local_device_id c = ep_device_id ep \<and>
    h_protocol_version (bc_peer_hello c) = PROTOCOL_VERSION \<and>
    length (h_device_name (bc_peer_hello c)) \<le> MAX_DEVICE_NAME_LEN \<and>
    length (h_platform (bc_peer_hello c)) \<le> MAX_PLATFORM_LEN \<and>
    length (h_capabilities (bc_peer_hello c)) \<le> MAX_CAPABILITIES \<and>
    bc_control c \<noteq> None \<and> \<not> bc_closed c \<and> bc_intent_phase c = Fresh"
proof -
  from assms obtain ch h ch' where run: "control = Ok ch"
    "exchange_hello_with_timeout pc (ep_device_id ep) meta remote ch = (Ok h, ch')"
    "c = \<lparr>bc_control = Some ch', bc_closed = False, bc_local_device_id = ep_device_id ep,
          bc_peer_hello = h, bc_intent_phase = Fresh\<rparr>"
    by (cases control; cases "exchange_hello_with_timeout pc (ep_device_id ep) meta remote (projr control)";
        cases "fst (exchange_hello_with_timeout pc (ep_device_id ep) meta remote (projr control))")
      (auto simp: bootstrap_def)
  from exchange_hello_peer [OF run(2)] run(3) show ?thesis
    by (simp add: bc_remote_device_id_def)
qed

section \<open>Properties\<close>

text \<open>
  A control connection is fail-stop. Any intent, pairing or ping operation that fails leaves the
  connection without its control stream and closed, and from then on every further sequence of
  operations is refused with the poisoned error and changes nothing.
\<close>

theorem connection_is_fail_stop:
  assumes "conn_exec pc op c = (Err e, d)"
  shows "bc_control d = None \<and> (bc_closed d \<or> d = c) \<and>
    run_ops (conn_exec pc) ops d = (replicate (length ops) (Err ControlConnectionPoisoned), d)"
proof -
  from conn_exec_Err [OF assms] have d: "bc_control d = None" "bc_closed d \<or> d = c" by simp_all
  have "run_ops (conn_exec pc) ops d = (replicate (length ops) (Err ControlConnectionPoisoned), d)"
    by (induction ops) (simp_all add: conn_exec_poisoned [OF d(1)])
  with d show ?thesis by blast
qed

theorem connection_is_fail_stop_witness:
  "let d = snd (conn_exec intent_codec (Op_SendIntentResult True) (example_conn [])) in
     bc_closed d \<and> fst (run_ops (conn_exec intent_codec) [Op_Ping 1, Op_ReceiveIntent] d) =
       replicate 2 (Err ControlConnectionPoisoned)"
proof -
  have run: "conn_exec intent_codec (Op_SendIntentResult True) (example_conn []) =
      (Err IntentSequence, poison (example_conn []))"
    by (simp add: send_intent_result_def require_intent_phase_def example_conn_def)
  from connection_is_fail_stop [OF run, of "[Op_Ping 1, Op_ReceiveIntent]"] show ?thesis
    unfolding run snd_conv Let_def by (simp add: numeral_2_eq_2)
qed

text \<open>
  The intent exchange agrees. On connected streams the acceptor receives exactly the purpose the
  dialer requested, and the dialer's request succeeds exactly when the acceptor's result was positive;
  after a rejection neither side keeps a usable connection.
\<close>

theorem intent_agreement:
  assumes "postcard_ok pc"
    and "encode_message pc (ConnectionIntent p) = Ok fp" and "encode_message pc (ConnectionIntentResult b) = Ok fb"
    and "bc_control d = Some \<lparr>ch_send = w, ch_recv = \<lparr>rd_bytes = fb @ x, rd_end = e\<rparr>\<rparr>"
    and "bc_control a = Some \<lparr>ch_send = v, ch_recv = \<lparr>rd_bytes = fp @ y, rd_end = e'\<rparr>\<rparr>"
    and "bc_intent_phase d = Fresh" and "bc_intent_phase a = Fresh"
    and "length fp \<le> wr_room w" and "length fb \<le> wr_room v"
  shows "\<exists>a1 a2 d1. receive_intent pc a = (Ok p, a1) \<and> send_intent_result pc b a1 = (Ok (), a2) \<and>
    request_intent pc p d = (if b then Ok () else Err IntentRejected, d1) \<and>
    bc_intent_phase a2 = Finished \<and> bc_intent_phase d1 = Finished \<and>
    (b \<longrightarrow> (\<exists>s r. bc_control a2 = Some \<lparr>ch_send = s, ch_recv = r\<rparr> \<and> wr_bytes s = wr_bytes v @ fb) \<and>
           (\<exists>s r. bc_control d1 = Some \<lparr>ch_send = s, ch_recv = r\<rparr> \<and> wr_bytes s = wr_bytes w @ fp)) \<and>
    (\<not> b \<longrightarrow> bc_control a2 = None \<and> bc_control d1 = None)"
proof -
  have frames: "encode_frame pc (ConnectionIntent p) = Ok fp" "encode_frame pc (ConnectionIntentResult b) = Ok fb"
    using assms(2,3) by (simp_all add: encode_message_def)
  note rd = with_control_read [OF assms(1)] and wr = with_control_write
  have acc: "receive_intent pc a = (Ok p, a\<lparr>bc_intent_phase := AwaitingDecision, bc_control :=
      Some \<lparr>ch_send = v, ch_recv = \<lparr>rd_bytes = y, rd_end = e'\<rparr>\<rparr>\<rparr>)"
    using assms(5,7) frames
    by (simp add: receive_intent_def require_intent_phase_def read_intent_def rd [where x = y and e = e'])
  show ?thesis
    using assms acc frames
    by (simp add: request_intent_def send_intent_result_def require_intent_phase_def write_intent_def
        read_intent_def wr rd [where x = x and e = e])
qed

theorem intent_agreement_witness:
  "receive_intent intent_codec (example_conn ([0, 0, 0, 1, 0] @ [])) =
     (Ok Pairing, snd (receive_intent intent_codec (example_conn ([0, 0, 0, 1, 0] @ [])))) \<and>
   fst (request_intent intent_codec Pairing (example_conn ([0, 0, 0, 1, 2] @ []))) = Err IntentRejected"
proof -
  have ok: "postcard_ok intent_codec" by (simp add: intent_codec_def table_codec_ok)
  have f: "encode_message intent_codec (ConnectionIntent Pairing) = Ok [0, 0, 0, 1, 0]"
    "encode_message intent_codec (ConnectionIntentResult False) = Ok [0, 0, 0, 1, 2]"
    by (simp_all add: encode_message_def encode_frame_Ok intent_codec_def table_codec_def be_encode_numeral
        MAX_CONTROL_FRAME_LEN_def)
  have c: "bc_control (example_conn bs) = Some \<lparr>ch_send = open_writer, ch_recv = \<lparr>rd_bytes = bs, rd_end = Stalls\<rparr>\<rparr>"
    "bc_intent_phase (example_conn bs) = Fresh" for bs
    by (simp_all add: example_conn_def)
  have "length [0, 0, 0, 1, 0 :: byte] \<le> wr_room open_writer" "length [0, 0, 0, 1, 2 :: byte] \<le> wr_room open_writer"
    by (simp_all add: open_writer_def)
  from intent_agreement [OF ok f c(1) c(1) c(2) c(2) this, of "[]" "[]"] show ?thesis
    by (metis fst_conv snd_conv)
qed

text \<open>
  The registry of peer hints is bounded. In every state reachable by remembering and forgetting
  hints it holds at most 4096 identities and never the local one; a successful remember of an address
  with paths makes the identity dialable, and a forget with no external lookup makes it unreachable.
\<close>

theorem peer_hints_bounded:
  assumes "reachable hint_initial (hint_step valid_key) ep"
  shows "length (ep_hint_ids ep) \<le> MAX_PEER_HINTS \<and> \<not> bt_contains (ep_hint_ids ep) (ep_device_id ep) \<and>
    (\<forall>a d ep'. remember_peer_addr a ep = (Ok d, ep') \<and> ea_addrs a \<noteq> [] \<and> valid_key d \<longrightarrow>
       d = ea_id a \<and> has_route_source valid_key d ep' = Ok True) \<and>
    (\<forall>d ep'. forget_peer_addr valid_key d ep = (Ok (), ep') \<and>
       ec_address_lookup (ep_config ep) = Lookup_Disabled \<longrightarrow>
       has_route_source valid_key d ep' = Ok False)"
  using hint_machine.reachable_inv [OF assms]
  by (auto simp: hint_inv_def remember_peer_addr_def forget_peer_addr_def has_route_source_def Let_def
      bt_contains_def split: if_splits)

theorem peer_hints_bounded_witness:
  "length (ep_hint_ids (snd (hint_exec (\<lambda>_. True) (Remember \<lparr>ea_id = bob_id, ea_addrs = [4]\<rparr>) example_endpoint)))
     \<le> MAX_PEER_HINTS"
proof -
  have "reachable hint_initial (hint_step (\<lambda>_. True)) example_endpoint"
    by (rule reach_init) (simp add: hint_initial_def example_endpoint_def)
  then have "reachable hint_initial (hint_step (\<lambda>_. True))
      (snd (hint_exec (\<lambda>_. True) (Remember \<lparr>ea_id = bob_id, ea_addrs = [4]\<rparr>) example_endpoint))"
    by (rule reach_step) (unfold hint_step_def, blast)
  from peer_hints_bounded [OF this] show ?thesis by simp
qed

text \<open>
  C24: bootstrap authenticates. A bootstrapped connection carries a Hello whose identity is the one the
  transport authenticated, of the supported version, with its device name, its platform and its capabilities within
  their bounds; it is open, and no intent has been exchanged on it. Every failure closes the connection.
\<close>

theorem bootstrap_authenticates:
  assumes "bootstrap pc ep remote meta control = (r, closed)"
  shows "(\<forall>c. r = Ok c \<longrightarrow> \<not> closed \<and> bc_remote_device_id c = remote \<and> bc_local_device_id c = ep_device_id ep \<and>
      h_protocol_version (bc_peer_hello c) = PROTOCOL_VERSION \<and>
      length (h_device_name (bc_peer_hello c)) \<le> MAX_DEVICE_NAME_LEN \<and>
      length (h_platform (bc_peer_hello c)) \<le> MAX_PLATFORM_LEN \<and>
      length (h_capabilities (bc_peer_hello c)) \<le> MAX_CAPABILITIES \<and>
      bc_control c \<noteq> None \<and> \<not> bc_closed c \<and> bc_intent_phase c = Fresh) \<and>
    (\<forall>e. r = Err e \<longrightarrow> closed)"
proof (intro conjI allI impI)
  fix c assume "r = Ok c"
  with assms have run: "bootstrap pc ep remote meta control = (Ok c, closed)" by simp
  then show "\<not> closed" by (auto simp: bootstrap_def split: sum.splits prod.splits)
qed (use assms bootstrap_peer in \<open>auto simp: bootstrap_def split: sum.splits prod.splits\<close>)

theorem bootstrap_authenticates_witness:
  "\<exists>c. bootstrap example_message_codec example_endpoint bob_id example_metadata
     (Ok \<lparr>ch_send = open_writer, ch_recv = \<lparr>rd_bytes = [0, 0, 0, 1, 1] @ [], rd_end = Stalls\<rparr>\<rparr>) = (Ok c, False) \<and>
     bc_remote_device_id c = bob_id \<and> length (h_capabilities (bc_peer_hello c)) \<le> MAX_CAPABILITIES"
proof -
  have valid: "hello_visit (example_hello bob_id)" "validate_hello (example_hello bob_id) bob_id = Ok ()"
    using hello_new_valid [OF example_hello_new] by simp_all
  have read: "read_value message_visit example_message_codec \<lparr>rd_bytes = [0, 0, 0, 1, 1] @ [], rd_end = Stalls\<rparr> =
      (Ready (Ok (Msg_Hello (example_hello bob_id))), \<lparr>rd_bytes = [], rd_end = Stalls\<rparr>)"
    using valid(1) by (intro read_value_frame) (simp_all add: example_frames)
  obtain c where "bootstrap example_message_codec example_endpoint bob_id example_metadata
     (Ok \<lparr>ch_send = open_writer, ch_recv = \<lparr>rd_bytes = [0, 0, 0, 1, 1] @ [], rd_end = Stalls\<rparr>\<rparr>) = (Ok c, False)"
    using read valid(2)
    by (simp add: bootstrap_def exchange_hello_with_timeout_def io_timeout_def exchange_hello_def
        expect_hello_def example_hello_new io_bind_def io_map_err_def on_send_def on_recv_def
        write_message_def write_value_def example_frames write_all_def open_writer_def
        FRAME_LENGTH_PREFIX_LEN_def read_message_def example_endpoint_def)
  with bootstrap_authenticates show ?thesis by blast
qed

text \<open>
  An authorized session only answers pings. When its stream delivers any number of pings and then
  stays quiet, the control loop sends exactly their pongs in order and keeps waiting; when a different
  message follows, it fails with that message's kind and the connection is poisoned.
\<close>

theorem authorized_control_answers_pings:
  assumes "postcard_ok pc"
    and "map (\<lambda>n. encode_message pc (Ping n)) ns = map Ok pings"
    and "map (\<lambda>n. encode_message pc (Pong n)) ns = map Ok pongs"
    and "length (concat pongs) \<le> wr_room w"
    and "bc_control c = Some \<lparr>ch_send = w, ch_recv = \<lparr>rd_bytes = concat pings @ rest, rd_end = e\<rparr>\<rparr>"
    and "length ns < fuel"
  shows "(rest = [] \<and> e = Stalls \<longrightarrow>
      (\<exists>d s r. serve_control fuel pc c = (Some Pending, d) \<and>
        bc_control d = Some \<lparr>ch_send = s, ch_recv = r\<rparr> \<and> wr_bytes s = wr_bytes w @ concat pongs)) \<and>
    (\<forall>m f. encode_message pc m = Ok f \<and> message_visit m \<and> message_kind_of m \<noteq> Kind_Ping \<and> rest = f \<longrightarrow>
      (\<exists>d. serve_control fuel pc c =
        (Some (Ready (Err (Control (Control_UnexpectedMessage Kind_Ping (message_kind_of m))))), d) \<and>
        bc_control d = None \<and> bc_closed d))"
proof -
  obtain d s where run: "serve_control fuel pc c = serve_control (fuel - length ns) pc d"
    "bc_control d = Some \<lparr>ch_send = s, ch_recv = \<lparr>rd_bytes = rest, rd_end = e\<rparr>\<rparr>"
    "wr_bytes s = wr_bytes w @ concat pongs"
    using serve_pings [OF assms(1-5)] assms(6) by (metis less_imp_le)
  obtain k where k: "fuel - length ns = Suc k" using assms(6) by (metis Suc_diff_Suc)
  have quiet: "serve_control fuel pc c = (Some Pending, d)" if "rest = []" "e = Stalls"
    using run that k by (simp add: serve_once_def read_exact_def)
  have other: "serve_control fuel pc c =
      (Some (Ready (Err (Control (Control_UnexpectedMessage Kind_Ping (message_kind_of m))))), poison d)"
    if "encode_message pc m = Ok f" "message_visit m" "message_kind_of m \<noteq> Kind_Ping" "rest = f" for m f
  proof -
    have "serve_once pc \<lparr>ch_send = s, ch_recv = \<lparr>rd_bytes = f @ [], rd_end = e\<rparr>\<rparr> =
        Serve_Failed (Control (Control_UnexpectedMessage Kind_Ping (message_kind_of m)))"
      by (rule serve_once_other [OF assms(1)]) (use that(1-3) in \<open>simp_all add: encode_message_def\<close>)
    with run k that(4) show ?thesis by simp
  qed
  from quiet other run(2,3) show ?thesis by (metis poison_simps(1,2))
qed

theorem authorized_control_answers_pings_witness:
  "\<exists>d s r. serve_control 2 example_message_codec (example_conn (concat [[0, 0, 0, 1, 2]] @ [])) = (Some Pending, d) \<and>
     bc_control d = Some \<lparr>ch_send = s, ch_recv = r\<rparr> \<and> wr_bytes s = [0, 0, 0, 1, 3]"
  using authorized_control_answers_pings [OF example_codec_ok, of "[7]" "[[0, 0, 0, 1, 2]]" "[[0, 0, 0, 1, 3]]"
      open_writer "example_conn (concat [[0, 0, 0, 1, 2]] @ [])" "[]" Stalls 2]
  by (simp add: encode_message_def example_frames open_writer_def example_conn_def)

end
