(* ===== verification/Trust_Journal.thy ===== *)
theory Trust_Journal
  imports Rift_Core
begin

text \<open>
  The durable trust store of \<open>crates/rift-trust/src/lib.rs\<close>: an append-only journal of
  checksummed records, its replay, the in-memory decisions and pairing generations, and the
  commit path with its rollback and poisoning. The journal file is its byte content; a
  \<open>persist_env\<close> says which file operation of one commit fails and how many bytes of the
  record reached the file first. Postcard and BLAKE3 are parameters.
\<close>

section \<open>Constants and data\<close>

definition JOURNAL_MAGIC :: bytes where
  "JOURNAL_MAGIC = [0x52, 0x49, 0x46, 0x54, 0x54, 0x52, 0x53, 0x54]"

definition JOURNAL_VERSION :: nat where
  "JOURNAL_VERSION = 1"

definition HEADER_LEN :: nat where
  "HEADER_LEN = 10"

definition LENGTH_PREFIX_LEN :: nat where
  "LENGTH_PREFIX_LEN = 4"

definition CHECKSUM_LEN :: nat where
  "CHECKSUM_LEN = 32"

definition MAX_RECORD_LEN :: nat where
  "MAX_RECORD_LEN = 1024"

definition MAX_STORE_SIZE :: nat where
  "MAX_STORE_SIZE = 16 * 1024 * 1024"

definition MAX_RECORDS :: nat where
  "MAX_RECORDS = 100000"

definition MAX_LIST_PAGE_SIZE :: nat where
  "MAX_LIST_PAGE_SIZE = 128"

datatype trust_mutation =
    Trust trusted_peer
  | Revoke device_id
  | Forget device_id

datatype trust_entry =
    Entry_Trusted trusted_peer
  | Entry_Revoked device_id

fun entry_device_id :: "trust_entry \<Rightarrow> device_id" where
  "entry_device_id (Entry_Trusted peer) = tp_device_id peer"
| "entry_device_id (Entry_Revoked device_id) = device_id"

fun entry_state :: "trust_entry \<Rightarrow> trust_state" where
  "entry_state (Entry_Trusted _) = TrustState_Trusted"
| "entry_state (Entry_Revoked _) = TrustState_Revoked"

record trust_page =
  page_entries :: "trust_entry list"
  page_next_cursor :: "device_id option"

datatype trust_store_error =
    Trust_Io string io_error_kind
  | TruncatedHeader nat nat
  | InvalidMagic
  | UnsupportedVersion nat
  | StoreTooLarge nat nat
  | Trust_RecordTooLarge nat nat nat
  | TooManyRecords nat
  | CorruptRecord nat nat string
  | Trust_MetadataTooLong string nat nat
  | InvalidPageLimit
  | Trust_Encode
  | RevokedIdentity device_id
  | StaleTrustAttempt
  | StorePoisoned
  | RollbackFailed trust_store_error trust_store_error

datatype stored_decision =
    Decision_Trusted trusted_peer
  | Decision_Revoked

type_synonym decisions = "(device_id, stored_decision) btree"

record trust_store =
  ts_file :: bytes
  ts_decisions :: decisions
  ts_file_len :: nat
  ts_record_count :: nat
  ts_generations :: "(device_id, u64) btree"
  ts_poisoned :: bool

record replay_result =
  rr_decisions :: decisions
  rr_valid_len :: nat
  rr_record_count :: nat

text \<open>
  The outcomes of the file operations of one commit: \<open>None\<close> is success. A failed append
  has written the given number of bytes.
\<close>

record persist_env =
  pe_append :: "(nat \<times> io_error_kind) option"
  pe_flush :: "io_error_kind option"
  pe_sync :: "io_error_kind option"
  pe_truncate :: "io_error_kind option"
  pe_rollback_sync :: "io_error_kind option"

text \<open>The outcomes of the file operations of opening a store.\<close>

record open_env =
  oe_create :: "io_error_kind option"
  oe_header :: "(nat \<times> string \<times> io_error_kind) option"
  oe_open :: "io_error_kind option"
  oe_inspect :: "io_error_kind option"
  oe_read :: "io_error_kind option"
  oe_truncate :: "io_error_kind option"
  oe_sync :: "io_error_kind option"
  oe_seek :: "io_error_kind option"

section \<open>Validation and application of mutations\<close>

definition validate_peer :: "trusted_peer \<Rightarrow> (trust_store_error, unit) result" where
  "validate_peer peer =
     (if MAX_DEVICE_NAME_LEN < length (tp_device_name peer)
      then Err (Trust_MetadataTooLong ''device_name'' (length (tp_device_name peer)) MAX_DEVICE_NAME_LEN)
      else if MAX_PLATFORM_LEN < length (tp_platform peer)
      then Err (Trust_MetadataTooLong ''platform'' (length (tp_platform peer)) MAX_PLATFORM_LEN)
      else Ok ())"

fun validate_mutation :: "trust_mutation \<Rightarrow> (trust_store_error, unit) result" where
  "validate_mutation (Trust peer) = validate_peer peer"
| "validate_mutation (Revoke _) = Ok ()"
| "validate_mutation (Forget _) = Ok ()"

fun decision_entry :: "device_id \<Rightarrow> stored_decision \<Rightarrow> trust_entry" where
  "decision_entry device_id (Decision_Trusted peer) = Entry_Trusted peer"
| "decision_entry device_id Decision_Revoked = Entry_Revoked device_id"

fun validate_transition :: "decisions \<Rightarrow> trust_mutation \<Rightarrow> (trust_store_error, unit) result" where
  "validate_transition ds (Trust peer) =
     (if bt_get ds (tp_device_id peer) = Some Decision_Revoked
      then Err (RevokedIdentity (tp_device_id peer)) else Ok ())"
| "validate_transition ds (Revoke _) = Ok ()"
| "validate_transition ds (Forget _) = Ok ()"

fun apply_mutation :: "trust_mutation \<Rightarrow> decisions \<Rightarrow> decisions" where
  "apply_mutation (Trust peer) ds = bt_insert (tp_device_id peer) (Decision_Trusted peer) ds"
| "apply_mutation (Revoke device_id) ds = bt_insert device_id Decision_Revoked ds"
| "apply_mutation (Forget device_id) ds = bt_remove device_id ds"

definition encode_record :: "(bytes \<Rightarrow> bytes) \<Rightarrow> bytes \<Rightarrow> (trust_store_error, bytes) result" where
  "encode_record blake3 payload =
     (if 2 ^ 32 \<le> length payload then Err (Trust_RecordTooLarge 0 (length payload) MAX_RECORD_LEN)
      else Ok (be_encode LENGTH_PREFIX_LEN (length payload) @ payload @ blake3 payload))"

section \<open>Replay\<close>

definition journal_header :: bytes where
  "journal_header = JOURNAL_MAGIC @ be_encode 2 JOURNAL_VERSION"

definition validate_header :: "bytes \<Rightarrow> (trust_store_error, unit) result" where
  "validate_header bs =
     (if length bs < HEADER_LEN then Err (TruncatedHeader (length bs) HEADER_LEN)
      else if take (length JOURNAL_MAGIC) bs \<noteq> JOURNAL_MAGIC then Err InvalidMagic
      else let version = be_decode (slice bs (length JOURNAL_MAGIC) 2) in
        if version \<noteq> JOURNAL_VERSION then Err (UnsupportedVersion version) else Ok ())"

text \<open>
  One iteration of the loop of \<open>replay\<close>: \<open>None\<close> is the \<open>break\<close> on an
  incomplete tail, otherwise the mutation and the offset after its record.
\<close>

definition replay_record ::
  "(bytes \<Rightarrow> bytes) \<Rightarrow> trust_mutation postcard \<Rightarrow> bytes \<Rightarrow> nat \<Rightarrow> nat \<Rightarrow> decisions \<Rightarrow>
     (trust_store_error, (trust_mutation \<times> nat) option) result" where
  "replay_record blake3 pc bs offset record_count ds =
     (if length bs - offset < LENGTH_PREFIX_LEN then Ok None
      else
        let declared = be_decode (slice bs offset LENGTH_PREFIX_LEN) in
        if MAX_RECORD_LEN < declared
        then Err (Trust_RecordTooLarge record_count declared MAX_RECORD_LEN)
        else if length bs - offset < LENGTH_PREFIX_LEN + declared + CHECKSUM_LEN then Ok None
        else if MAX_RECORDS \<le> record_count then Err (TooManyRecords MAX_RECORDS)
        else
          let payload = slice bs (offset + LENGTH_PREFIX_LEN) declared;
              checksum = slice bs (offset + LENGTH_PREFIX_LEN + declared) CHECKSUM_LEN in
          if checksum \<noteq> blake3 payload
          then Err (CorruptRecord record_count offset ''checksum mismatch'')
          else (case take_from_bytes pc payload of
              None \<Rightarrow> Err (CorruptRecord record_count offset ''invalid mutation encoding'')
            | Some (mutation, remaining) \<Rightarrow>
                if remaining \<noteq> []
                then Err (CorruptRecord record_count offset ''trailing mutation bytes'')
                else if \<not> is_ok (validate_mutation mutation)
                then Err (CorruptRecord record_count offset ''invalid trusted-peer metadata'')
                else if \<not> is_ok (validate_transition ds mutation)
                then Err (CorruptRecord record_count offset
                       ''revoked identity trusted without intervening forget'')
                else Ok (Some (mutation, offset + (LENGTH_PREFIX_LEN + declared + CHECKSUM_LEN)))))"

function replay_from ::
  "(bytes \<Rightarrow> bytes) \<Rightarrow> trust_mutation postcard \<Rightarrow> bytes \<Rightarrow> nat \<Rightarrow> nat \<Rightarrow> decisions \<Rightarrow>
     (trust_store_error, replay_result) result" where
  "replay_from blake3 pc bs offset record_count ds =
     (if offset < length bs
      then (case replay_record blake3 pc bs offset record_count ds of
          Err e \<Rightarrow> Err e
        | Ok None \<Rightarrow> Ok \<lparr>rr_decisions = ds, rr_valid_len = offset, rr_record_count = record_count\<rparr>
        | Ok (Some (mutation, next)) \<Rightarrow>
            replay_from blake3 pc bs next (record_count + 1) (apply_mutation mutation ds))
      else Ok \<lparr>rr_decisions = ds, rr_valid_len = offset, rr_record_count = record_count\<rparr>)"
  by pat_completeness auto

termination
  by (relation "measure (\<lambda>(_, _, bs, offset, _, _). length bs - offset)")
    (auto simp: replay_record_def Let_def LENGTH_PREFIX_LEN_def CHECKSUM_LEN_def
      split: if_splits option.splits)

declare replay_from.simps [simp del]

definition replay ::
  "(bytes \<Rightarrow> bytes) \<Rightarrow> trust_mutation postcard \<Rightarrow> bytes \<Rightarrow> (trust_store_error, replay_result) result" where
  "replay blake3 pc bs = and_then (validate_header bs) (\<lambda>_. replay_from blake3 pc bs HEADER_LEN 0 [])"

section \<open>Opening\<close>

definition from_parts :: "bytes \<Rightarrow> decisions \<Rightarrow> nat \<Rightarrow> nat \<Rightarrow> trust_store" where
  "from_parts file ds file_len record_count =
     \<lparr>ts_file = file, ts_decisions = ds, ts_file_len = file_len, ts_record_count = record_count,
      ts_generations = [], ts_poisoned = False\<rparr>"

text \<open>
  Writing the header of a new file: on a failure the given number of bytes is in the file and
  the operation named in the error is the one that failed.
\<close>

definition write_header :: "open_env \<Rightarrow> (trust_store_error, unit) result \<times> bytes" where
  "write_header env =
     (case oe_header env of
        Some (k, operation, e) \<Rightarrow> (Err (Trust_Io operation e), take k journal_header)
      | None \<Rightarrow> (Ok (), journal_header))"

definition io_check :: "string \<Rightarrow> io_error_kind option \<Rightarrow> (trust_store_error, unit) result" where
  "io_check operation r = (case r of None \<Rightarrow> Ok () | Some e \<Rightarrow> Err (Trust_Io operation e))"

text \<open>
  The result and the file left behind. \<open>metadata().len()\<close> is the length of the file,
  which its single owner does not change while it is read.
\<close>

definition open_existing ::
  "(bytes \<Rightarrow> bytes) \<Rightarrow> trust_mutation postcard \<Rightarrow> open_env \<Rightarrow> bytes \<Rightarrow>
     (trust_store_error, trust_store) result \<times> bytes" where
  "open_existing blake3 pc env file =
     (case and_then (io_check ''open'' (oe_open env)) (\<lambda>_. io_check ''inspect'' (oe_inspect env)) of
        Err e \<Rightarrow> (Err e, file)
      | Ok _ \<Rightarrow>
          if MAX_STORE_SIZE < length file then (Err (StoreTooLarge (length file) MAX_STORE_SIZE), file)
          else (case and_then (io_check ''read'' (oe_read env)) (\<lambda>_. replay blake3 pc file) of
              Err e \<Rightarrow> (Err e, file)
            | Ok rr \<Rightarrow>
                (let recovered =
                   (if rr_valid_len rr = length file then (Ok (), file)
                    else (case oe_truncate env of
                        Some e \<Rightarrow> (Err (Trust_Io ''truncate incomplete tail'' e), file)
                      | None \<Rightarrow> (io_check ''sync recovered journal'' (oe_sync env),
                                 take (rr_valid_len rr) file))) in
                 (case and_then (fst recovered) (\<lambda>_. io_check ''seek'' (oe_seek env)) of
                    Err e \<Rightarrow> (Err e, snd recovered)
                  | Ok _ \<Rightarrow>
                      (Ok (from_parts (snd recovered) (rr_decisions rr) (rr_valid_len rr)
                         (rr_record_count rr)), snd recovered)))))"

text \<open>\<open>None\<close> is an absent path, which \<open>create_new\<close> creates.\<close>

definition open_store ::
  "(bytes \<Rightarrow> bytes) \<Rightarrow> trust_mutation postcard \<Rightarrow> open_env \<Rightarrow> bytes option \<Rightarrow>
     (trust_store_error, trust_store) result \<times> bytes option" where
  "open_store blake3 pc env path =
     (case oe_create env of
        None \<Rightarrow>
          (case path of
             None \<Rightarrow>
               (case write_header env of
                  (Err e, file) \<Rightarrow> (Err e, Some file)
                | (Ok _, file) \<Rightarrow> (Ok (from_parts file [] HEADER_LEN 0), Some file))
           | Some file \<Rightarrow>
               (case open_existing blake3 pc env file of (r, file') \<Rightarrow> (r, Some file')))
      | Some e \<Rightarrow>
          if e = AlreadyExists
          then (case path of
              None \<Rightarrow> (Err (Trust_Io ''open'' NotFound), None)
            | Some file \<Rightarrow>
                (case open_existing blake3 pc env file of (r, file') \<Rightarrow> (r, Some file')))
          else (Err (Trust_Io ''create'' e), path))"

section \<open>Queries\<close>

definition entry :: "trust_store \<Rightarrow> device_id \<Rightarrow> trust_entry option" where
  "entry s device_id = map_option (decision_entry device_id) (bt_get (ts_decisions s) device_id)"

definition trust_state_of :: "trust_store \<Rightarrow> device_id \<Rightarrow> trust_state option" where
  "trust_state_of s device_id = map_option entry_state (entry s device_id)"

definition current_generation :: "trust_store \<Rightarrow> device_id \<Rightarrow> u64" where
  "current_generation s device_id =
     (case bt_get (ts_generations s) device_id of None \<Rightarrow> 0 | Some g \<Rightarrow> g)"

definition peer_of :: "trust_store \<Rightarrow> device_id \<Rightarrow> trusted_peer option" where
  "peer_of s device_id =
     (case entry s device_id of
        Some (Entry_Trusted peer) \<Rightarrow> Some peer
      | Some (Entry_Revoked _) \<Rightarrow> None
      | None \<Rightarrow> None)"

definition list_entries :: "trust_store \<Rightarrow> trust_entry list" where
  "list_entries s = map (\<lambda>(device_id, d). decision_entry device_id d) (ts_decisions s)"

definition list_page ::
  "trust_store \<Rightarrow> device_id option \<Rightarrow> nat \<Rightarrow> (trust_store_error, trust_page) result" where
  "list_page s after requested =
     (if requested = 0 then Err InvalidPageLimit
      else
        let limit = min requested MAX_LIST_PAGE_SIZE;
            range = (case after of
                Some a \<Rightarrow> filter (\<lambda>(device_id, _). a < device_id) (ts_decisions s)
              | None \<Rightarrow> ts_decisions s);
            entries = map (\<lambda>(device_id, d). decision_entry device_id d)
              (take (usize_saturating_add limit 1) range);
            has_more = limit < length entries;
            page = take limit entries in
        Ok \<lparr>page_entries = page,
            page_next_cursor =
              (if has_more \<and> page \<noteq> [] then Some (entry_device_id (last page)) else None)\<rparr>)"

section \<open>Commit\<close>

definition persist_record ::
  "persist_env \<Rightarrow> bytes \<Rightarrow> bytes \<Rightarrow> (trust_store_error, unit) result \<times> bytes" where
  "persist_record env file rec =
     (case pe_append env of
        Some (k, e) \<Rightarrow> (Err (Trust_Io ''append'' e), file @ take k rec)
      | None \<Rightarrow>
          (and_then (io_check ''flush'' (pe_flush env)) (\<lambda>_. io_check ''sync'' (pe_sync env)),
           file @ rec))"

definition rollback_record ::
  "persist_env \<Rightarrow> bytes \<Rightarrow> nat \<Rightarrow> (trust_store_error, unit) result \<times> bytes" where
  "rollback_record env file previous_len =
     (case pe_truncate env of
        Some e \<Rightarrow> (Err (Trust_Io ''truncate failed commit'' e), file)
      | None \<Rightarrow> (io_check ''sync failed-commit rollback'' (pe_rollback_sync env),
                 take previous_len file))"

definition bump_generation :: "trust_mutation \<Rightarrow> (device_id, u64) btree \<Rightarrow> (device_id, u64) btree" where
  "bump_generation mutation gens =
     (case mutation of
        Forget device_id \<Rightarrow>
          bt_insert device_id
            (saturating_add (case bt_get gens device_id of None \<Rightarrow> 0 | Some g \<Rightarrow> g) 1) gens
      | Trust _ \<Rightarrow> gens
      | Revoke _ \<Rightarrow> gens)"

text \<open>The part of \<open>commit\<close> before the store is locked: the record to append.\<close>

definition prepare_record ::
  "(bytes \<Rightarrow> bytes) \<Rightarrow> trust_mutation postcard \<Rightarrow> trust_mutation \<Rightarrow> (trust_store_error, bytes) result" where
  "prepare_record blake3 pc mutation =
     and_then (validate_mutation mutation) (\<lambda>_.
     and_then (ok_or (to_stdvec pc mutation) Trust_Encode) (\<lambda>payload.
     if MAX_RECORD_LEN < length payload
     then Err (Trust_RecordTooLarge 0 (length payload) MAX_RECORD_LEN)
     else encode_record blake3 payload))"

text \<open>The checks \<open>commit\<close> makes under the lock before it writes.\<close>

definition commit_guard ::
  "trust_store \<Rightarrow> trust_mutation \<Rightarrow> (device_id \<times> u64) option \<Rightarrow> bytes \<Rightarrow> (trust_store_error, nat) result" where
  "commit_guard s mutation expected rec =
     (if ts_poisoned s then Err StorePoisoned
      else if (case expected of None \<Rightarrow> False
               | Some (device_id, g) \<Rightarrow> current_generation s device_id \<noteq> g)
      then Err StaleTrustAttempt
      else and_then (validate_transition (ts_decisions s) mutation) (\<lambda>_.
        if MAX_RECORDS \<le> ts_record_count s then Err (TooManyRecords MAX_RECORDS)
        else let next_len = usize_saturating_add (ts_file_len s) (length rec) in
          if MAX_STORE_SIZE < next_len then Err (StoreTooLarge next_len MAX_STORE_SIZE)
          else Ok next_len))"

definition commit ::
  "(bytes \<Rightarrow> bytes) \<Rightarrow> trust_mutation postcard \<Rightarrow> persist_env \<Rightarrow> trust_mutation \<Rightarrow>
     (device_id \<times> u64) option \<Rightarrow> trust_store \<Rightarrow> (trust_store_error, unit) result \<times> trust_store" where
  "commit blake3 pc env mutation expected s =
     (case prepare_record blake3 pc mutation of
        Err e \<Rightarrow> (Err e, s)
      | Ok rec \<Rightarrow>
          (case commit_guard s mutation expected rec of
             Err e \<Rightarrow> (Err e, s)
           | Ok next_len \<Rightarrow>
               (case persist_record env (ts_file s) rec of
                  (Err commit_error, file) \<Rightarrow>
                    (case rollback_record env file (ts_file_len s) of
                       (Err rollback_error, file') \<Rightarrow>
                         (Err (RollbackFailed commit_error rollback_error),
                          s\<lparr>ts_file := file', ts_poisoned := True\<rparr>)
                     | (Ok _, file') \<Rightarrow>
                         (Err commit_error, s\<lparr>ts_file := file', ts_poisoned := True\<rparr>))
                | (Ok _, file) \<Rightarrow>
                    (Ok (), s\<lparr>ts_file := file,
                        ts_decisions := apply_mutation mutation (ts_decisions s),
                        ts_generations := bump_generation mutation (ts_generations s),
                        ts_file_len := next_len,
                        ts_record_count := ts_record_count s + 1\<rparr>))))"

definition trust ::
  "(bytes \<Rightarrow> bytes) \<Rightarrow> trust_mutation postcard \<Rightarrow> persist_env \<Rightarrow> trusted_peer \<Rightarrow>
     trust_store \<Rightarrow> (trust_store_error, unit) result \<times> trust_store" where
  "trust blake3 pc env peer s =
     (case validate_peer peer of
        Err e \<Rightarrow> (Err e, s)
      | Ok _ \<Rightarrow> commit blake3 pc env (Trust peer) None s)"

definition trust_if_generation ::
  "(bytes \<Rightarrow> bytes) \<Rightarrow> trust_mutation postcard \<Rightarrow> persist_env \<Rightarrow> trusted_peer \<Rightarrow> u64 \<Rightarrow>
     trust_store \<Rightarrow> (trust_store_error, unit) result \<times> trust_store" where
  "trust_if_generation blake3 pc env peer generation s =
     (case validate_peer peer of
        Err e \<Rightarrow> (Err e, s)
      | Ok _ \<Rightarrow> commit blake3 pc env (Trust peer) (Some (tp_device_id peer, generation)) s)"

definition revoke ::
  "(bytes \<Rightarrow> bytes) \<Rightarrow> trust_mutation postcard \<Rightarrow> persist_env \<Rightarrow> device_id \<Rightarrow>
     trust_store \<Rightarrow> (trust_store_error, unit) result \<times> trust_store" where
  "revoke blake3 pc env device_id s = commit blake3 pc env (Revoke device_id) None s"

definition forget ::
  "(bytes \<Rightarrow> bytes) \<Rightarrow> trust_mutation postcard \<Rightarrow> persist_env \<Rightarrow> device_id \<Rightarrow>
     trust_store \<Rightarrow> (trust_store_error, unit) result \<times> trust_store" where
  "forget blake3 pc env device_id s = commit blake3 pc env (Forget device_id) None s"

section \<open>Operations as a machine\<close>

text \<open>
  The mutating operations of the store, each with the outcome of its file operations, and
  reopening, with a crash that leaves the file as it is.
\<close>

datatype trust_op =
    Op_Trust persist_env trusted_peer
  | Op_TrustIf persist_env trusted_peer u64
  | Op_Revoke persist_env device_id
  | Op_Forget persist_env device_id

fun trust_exec ::
  "(bytes \<Rightarrow> bytes) \<Rightarrow> trust_mutation postcard \<Rightarrow> trust_op \<Rightarrow> trust_store \<Rightarrow>
     (trust_store_error, unit) result \<times> trust_store" where
  "trust_exec blake3 pc (Op_Trust env peer) s = trust blake3 pc env peer s"
| "trust_exec blake3 pc (Op_TrustIf env peer g) s = trust_if_generation blake3 pc env peer g s"
| "trust_exec blake3 pc (Op_Revoke env d) s = revoke blake3 pc env d s"
| "trust_exec blake3 pc (Op_Forget env d) s = forget blake3 pc env d s"

fun op_forgets :: "trust_op \<Rightarrow> device_id \<Rightarrow> bool" where
  "op_forgets (Op_Forget env d) k = (d = k)"
| "op_forgets (Op_Trust env p) k = False"
| "op_forgets (Op_TrustIf env p g) k = False"
| "op_forgets (Op_Revoke env d) k = False"

definition trust_initial :: "trust_store \<Rightarrow> bool" where
  "trust_initial s = (s = from_parts journal_header [] HEADER_LEN 0)"

inductive trust_step ::
  "(bytes \<Rightarrow> bytes) \<Rightarrow> trust_mutation postcard \<Rightarrow> trust_store \<Rightarrow> trust_store \<Rightarrow> bool"
  for blake3 pc where
  step_op: "trust_exec blake3 pc op s = (r, t) \<Longrightarrow> trust_step blake3 pc s t"
| step_reopen: "open_existing blake3 pc env (ts_file s) = (Ok t, file) \<Longrightarrow> trust_step blake3 pc s t"

text \<open>The file holds exactly the journal of the decisions in memory.\<close>

definition durable :: "(bytes \<Rightarrow> bytes) \<Rightarrow> trust_mutation postcard \<Rightarrow> trust_store \<Rightarrow> bool" where
  "durable blake3 pc s =
     (ts_file_len s = length (ts_file s) \<and>
      replay blake3 pc (ts_file s) =
        Ok \<lparr>rr_decisions = ts_decisions s, rr_valid_len = length (ts_file s),
            rr_record_count = ts_record_count s\<rparr>)"

definition decision_wf :: "device_id \<times> stored_decision \<Rightarrow> bool" where
  "decision_wf e =
     (case snd e of
        Decision_Trusted peer \<Rightarrow> tp_device_id peer = fst e \<and> validate_peer peer = Ok ()
      | Decision_Revoked \<Rightarrow> True)"

definition decisions_wf :: "decisions \<Rightarrow> bool" where
  "decisions_wf ds = (bt_wf ds \<and> list_all decision_wf ds)"

definition trust_inv :: "(bytes \<Rightarrow> bytes) \<Rightarrow> trust_mutation postcard \<Rightarrow> trust_store \<Rightarrow> bool" where
  "trust_inv blake3 pc s =
     (decisions_wf (ts_decisions s) \<and> ts_file_len s \<le> MAX_STORE_SIZE \<and>
      ts_record_count s \<le> MAX_RECORDS \<and> (\<not> ts_poisoned s \<longrightarrow> durable blake3 pc s))"

text \<open>A page query as the pair of its entries and cursor; an invalid request gives nothing.\<close>

definition trust_page_of ::
  "trust_store \<Rightarrow> nat \<Rightarrow> device_id option \<Rightarrow> trust_entry list \<times> device_id option" where
  "trust_page_of s n after =
     (case list_page s after n of
        Err _ \<Rightarrow> ([], None)
      | Ok pg \<Rightarrow> (page_entries pg, page_next_cursor pg))"

section \<open>Example values\<close>

definition example_id :: device_id where
  "example_id = DeviceId (replicate 32 7)"

definition example_peer :: trusted_peer where
  "example_peer = \<lparr>tp_device_id = example_id, tp_device_name = ''bob'', tp_platform = ''linux''\<rparr>"

definition example_codec :: "trust_mutation postcard" where
  "example_codec = table_codec [Trust example_peer, Revoke example_id, Forget example_id]"

definition quiet_env :: persist_env where
  "quiet_env = \<lparr>pe_append = None, pe_flush = None, pe_sync = None, pe_truncate = None,
                pe_rollback_sync = None\<rparr>"

definition empty_store :: trust_store where
  "empty_store = from_parts journal_header [] HEADER_LEN 0"

definition trusted_store :: trust_store where
  "trusted_store = empty_store\<lparr>ts_file := journal_header @ [0, 0, 0, 1, 0] @ replicate 32 0,
     ts_decisions := [(example_id, Decision_Trusted example_peer)],
     ts_file_len := 47, ts_record_count := 1\<rparr>"

section \<open>Replay lemmas\<close>

lemmas trust_lens = LENGTH_PREFIX_LEN_def CHECKSUM_LEN_def HEADER_LEN_def

lemma io_check_iff [simp]:
  "io_check operation r = Ok u \<longleftrightarrow> r = None"
  "io_check operation r = Err e \<longleftrightarrow> (\<exists>k. r = Some k \<and> e = Trust_Io operation k)"
  by (auto simp: io_check_def split: option.splits)

lemma validate_mutation_Ok: "validate_mutation m = Ok u \<longleftrightarrow> validate_mutation m = Ok ()"
  by simp

lemma bt_wf_apply [simp]: "bt_wf ds \<Longrightarrow> bt_wf (apply_mutation m ds)"
  by (cases m) (simp_all add: bt_wf_insert bt_wf_remove)

lemma header_valid: "validate_header (journal_header @ rest) = Ok ()"
  by (simp add: validate_header_def journal_header_def HEADER_LEN_def JOURNAL_MAGIC_def
      JOURNAL_VERSION_def slice_def be_decode_encode)

lemma length_journal_header [simp]: "length journal_header = HEADER_LEN"
  by (simp add: journal_header_def JOURNAL_MAGIC_def HEADER_LEN_def)

lemma replay_header:
  "replay_from blake3 pc journal_header HEADER_LEN rc ds =
     Ok \<lparr>rr_decisions = ds, rr_valid_len = HEADER_LEN, rr_record_count = rc\<rparr>"
  by (subst replay_from.simps) simp

lemma validate_header_append: "validate_header bs = Ok () \<Longrightarrow> validate_header (bs @ rest) = Ok ()"
  by (auto simp: validate_header_def slice_append_left JOURNAL_MAGIC_def HEADER_LEN_def Let_def
      split: if_splits)

lemma validate_header_length: "validate_header bs = Ok () \<Longrightarrow> HEADER_LEN \<le> length bs"
  by (auto simp: validate_header_def split: if_splits)

text \<open>One complete valid record is consumed and applied.\<close>

lemma replay_record_step:
  assumes "digest_ok blake3" and "postcard_ok pc" and "to_stdvec pc m = Some p"
    and "length p \<le> MAX_RECORD_LEN" and "rc < MAX_RECORDS"
    and "validate_mutation m = Ok ()" and "validate_transition ds m = Ok ()"
  shows "replay_record blake3 pc (pre @ be_encode 4 (length p) @ p @ blake3 p @ rest) (length pre) rc ds =
         Ok (Some (m, length pre + (4 + length p + 32)))"
proof -
  let ?bs = "pre @ be_encode 4 (length p) @ p @ blake3 p @ rest"
  have "length p < 256 ^ 4" using assms(4) by (simp add: MAX_RECORD_LEN_def)
  then have dec: "be_decode (slice ?bs (length pre) 4) = length p"
    by (simp add: slice_append_exact be_decode_encode)
  have pay: "slice ?bs (length pre + 4) (length p) = p"
    by (simp add: slice_append_exact)
  have sum: "slice ?bs (length pre + 4 + length p) 32 = blake3 p"
    using assms(1) by (simp add: slice_append_exact)
  show ?thesis
    unfolding replay_record_def trust_lens dec Let_def pay sum
    using assms by (simp add: postcard_ok_whole)
qed

lemma replay_from_record:
  assumes "digest_ok blake3" and "postcard_ok pc" and "to_stdvec pc m = Some p"
    and "length p \<le> MAX_RECORD_LEN" and "rc < MAX_RECORDS"
    and "validate_mutation m = Ok ()" and "validate_transition ds m = Ok ()"
  shows "replay_from blake3 pc (pre @ be_encode 4 (length p) @ p @ blake3 p @ rest) (length pre) rc ds =
         replay_from blake3 pc (pre @ be_encode 4 (length p) @ p @ blake3 p @ rest)
           (length pre + (4 + length p + 32)) (rc + 1) (apply_mutation m ds)"
  by (subst replay_from.simps) (simp add: replay_record_step [OF assms, simplified])

text \<open>A record of which only a proper prefix is in the file ends the replay at its start.\<close>

lemma replay_record_torn:
  assumes "digest_ok blake3" and "length p \<le> MAX_RECORD_LEN"
    and "k < length (be_encode 4 (length p) @ p @ blake3 p)"
  shows "replay_record blake3 pc (pre @ take k (be_encode 4 (length p) @ p @ blake3 p)) (length pre) rc ds =
         Ok None"
proof (cases "k < 4")
  case True
  then show ?thesis by (simp add: replay_record_def trust_lens)
next
  case False
  let ?tail = "be_encode 4 (length p) @ p @ blake3 p"
  have "length p < 256 ^ 4" using assms(2) by (simp add: MAX_RECORD_LEN_def)
  moreover have "slice (pre @ take k ?tail) (length pre) 4 = be_encode 4 (length p)"
    using False by (simp add: slice_def)
  ultimately have dec: "be_decode (slice (pre @ take k ?tail) (length pre) 4) = length p"
    by (simp add: be_decode_encode)
  have "length (pre @ take k ?tail) - length pre < 4 + length p + 32"
    using assms(1,3) by simp
  with assms(2) show ?thesis
    unfolding replay_record_def trust_lens dec Let_def by auto
qed

lemma replay_from_torn:
  assumes "digest_ok blake3" and "length p \<le> MAX_RECORD_LEN"
    and "k < length (be_encode 4 (length p) @ p @ blake3 p)"
  shows "replay_from blake3 pc (pre @ take k (be_encode 4 (length p) @ p @ blake3 p)) (length pre) rc ds =
         Ok \<lparr>rr_decisions = ds, rr_valid_len = length pre, rr_record_count = rc\<rparr>"
  unfolding replay_from.simps [where offset = "length pre"] replay_record_torn [OF assms] by simp

text \<open>A replay that used the whole buffer continues where appended bytes begin.\<close>

lemma replay_record_next:
  assumes "replay_record blake3 pc bs offset rc ds = Ok (Some (m, next))"
  shows "offset < next" and "offset < length bs \<Longrightarrow> next \<le> length bs" and "rc < MAX_RECORDS"
    and "validate_mutation m = Ok ()" and "validate_transition ds m = Ok ()"
  using assms by (auto simp: replay_record_def Let_def trust_lens split: if_splits option.splits)

lemma replay_record_append:
  assumes "replay_record blake3 pc bs offset rc ds = Ok (Some (m, next))" and "offset < length bs"
  shows "replay_record blake3 pc (bs @ x) offset rc ds = Ok (Some (m, next))"
proof -
  define declared where "declared = be_decode (slice bs offset LENGTH_PREFIX_LEN)"
  have len: "offset + (LENGTH_PREFIX_LEN + declared + CHECKSUM_LEN) \<le> length bs"
    using assms unfolding replay_record_def declared_def [symmetric] Let_def
    by (auto split: if_splits)
  then have "slice (bs @ x) offset LENGTH_PREFIX_LEN = slice bs offset LENGTH_PREFIX_LEN"
    and "slice (bs @ x) (offset + LENGTH_PREFIX_LEN) declared = slice bs (offset + LENGTH_PREFIX_LEN) declared"
    and "slice (bs @ x) (offset + LENGTH_PREFIX_LEN + declared) CHECKSUM_LEN =
         slice bs (offset + LENGTH_PREFIX_LEN + declared) CHECKSUM_LEN"
    by (simp_all add: slice_append_left)
  moreover have "\<not> length (bs @ x) - offset < LENGTH_PREFIX_LEN + declared + CHECKSUM_LEN"
    using len by simp
  ultimately show ?thesis
    using assms by (simp add: replay_record_def declared_def [symmetric] Let_def split: if_splits)
qed

lemma replay_from_extend:
  "replay_from blake3 pc bs offset rc ds = Ok r \<Longrightarrow> rr_valid_len r = length bs \<Longrightarrow>
     replay_from blake3 pc (bs @ x) offset rc ds =
     replay_from blake3 pc (bs @ x) (length bs) (rr_record_count r) (rr_decisions r)"
proof (induction blake3 pc bs offset rc ds rule: replay_from.induct)
  case (1 blake3 pc bs offset rc ds)
  show ?case
  proof (cases "offset < length bs")
    case False
    with "1.prems" show ?thesis by (subst (asm) replay_from.simps) auto
  next
    case True
    with "1.prems" obtain m nxt where
      step: "replay_record blake3 pc bs offset rc ds = Ok (Some (m, nxt))"
      by (subst (asm) replay_from.simps) (auto split: sum.splits option.splits)
    then have app: "replay_record blake3 pc (bs @ x) offset rc ds = Ok (Some (m, nxt))"
      using True by (rule replay_record_append)
    have "replay_from blake3 pc bs nxt (rc + 1) (apply_mutation m ds) = Ok r"
      using "1.prems"(1) True step by (subst (asm) replay_from.simps) simp
    then have "replay_from blake3 pc (bs @ x) nxt (rc + 1) (apply_mutation m ds) =
        replay_from blake3 pc (bs @ x) (length bs) (rr_record_count r) (rr_decisions r)"
      using "1.IH" [OF True step] "1.prems"(2) by blast
    with True app show ?thesis by (subst replay_from.simps) simp
  qed
qed

lemma replay_record_take:
  assumes "replay_record blake3 pc bs offset rc ds = Ok (Some (m, next))" and "next \<le> n"
    and "offset < length bs"
  shows "replay_record blake3 pc (take n bs) offset rc ds = Ok (Some (m, next))"
proof -
  define declared where "declared = be_decode (slice bs offset LENGTH_PREFIX_LEN)"
  have nxt: "next = offset + (LENGTH_PREFIX_LEN + declared + CHECKSUM_LEN)"
    and len: "next \<le> length bs"
    using assms(1,3) unfolding replay_record_def declared_def [symmetric] Let_def
    by (auto split: if_splits option.splits)
  then have "slice (take n bs) offset LENGTH_PREFIX_LEN = slice bs offset LENGTH_PREFIX_LEN"
    and "slice (take n bs) (offset + LENGTH_PREFIX_LEN) declared = slice bs (offset + LENGTH_PREFIX_LEN) declared"
    and "slice (take n bs) (offset + LENGTH_PREFIX_LEN + declared) CHECKSUM_LEN =
         slice bs (offset + LENGTH_PREFIX_LEN + declared) CHECKSUM_LEN"
    using assms(2) by (simp_all add: slice_def drop_take min_def)
  moreover have "\<not> length (take n bs) - offset < LENGTH_PREFIX_LEN + declared + CHECKSUM_LEN"
    using nxt len assms(2) by simp
  ultimately show ?thesis
    using assms by (simp add: replay_record_def declared_def [symmetric] Let_def split: if_splits)
qed

lemma replay_from_bounds:
  "replay_from blake3 pc bs offset rc ds = Ok r \<Longrightarrow> offset \<le> length bs \<Longrightarrow> rc \<le> MAX_RECORDS \<Longrightarrow>
     offset \<le> rr_valid_len r \<and> rr_valid_len r \<le> length bs \<and> rr_record_count r \<le> MAX_RECORDS"
proof (induction blake3 pc bs offset rc ds rule: replay_from.induct)
  case (1 blake3 pc bs offset rc ds)
  show ?case
  proof (cases "\<exists>m nxt. offset < length bs \<and> replay_record blake3 pc bs offset rc ds = Ok (Some (m, nxt))")
    case False
    with "1.prems" show ?thesis
      by (subst (asm) replay_from.simps) (auto split: if_splits sum.splits option.splits)
  next
    case True
    then obtain m nxt where lt: "offset < length bs"
      and step: "replay_record blake3 pc bs offset rc ds = Ok (Some (m, nxt))" by blast
    have "replay_from blake3 pc bs nxt (rc + 1) (apply_mutation m ds) = Ok r"
      using "1.prems"(1) lt step by (subst (asm) replay_from.simps) simp
    with "1.IH" [OF lt step] replay_record_next [OF step] lt show ?thesis by fastforce
  qed
qed

text \<open>Truncating to the valid length changes nothing the replay reports.\<close>

lemma replay_from_truncate:
  "replay_from blake3 pc bs offset rc ds = Ok r \<Longrightarrow> offset \<le> length bs \<Longrightarrow> rc \<le> MAX_RECORDS \<Longrightarrow>
     replay_from blake3 pc (take (rr_valid_len r) bs) offset rc ds = Ok r"
proof (induction blake3 pc bs offset rc ds rule: replay_from.induct)
  case (1 blake3 pc bs offset rc ds)
  show ?case
  proof (cases "\<exists>m nxt. offset < length bs \<and> replay_record blake3 pc bs offset rc ds = Ok (Some (m, nxt))")
    case False
    with "1.prems" have "r = \<lparr>rr_decisions = ds, rr_valid_len = offset, rr_record_count = rc\<rparr>"
      by (subst (asm) replay_from.simps) (auto split: if_splits sum.splits option.splits)
    then show ?thesis by (subst replay_from.simps) simp
  next
    case True
    then obtain m nxt where lt: "offset < length bs"
      and step: "replay_record blake3 pc bs offset rc ds = Ok (Some (m, nxt))" by blast
    note nxt = replay_record_next [OF step]
    have rest: "replay_from blake3 pc bs nxt (rc + 1) (apply_mutation m ds) = Ok r"
      using "1.prems"(1) lt step by (subst (asm) replay_from.simps) simp
    then have "nxt \<le> rr_valid_len r"
      using replay_from_bounds [OF rest] nxt lt by simp
    then have "replay_record blake3 pc (take (rr_valid_len r) bs) offset rc ds = Ok (Some (m, nxt))"
      using step lt by (intro replay_record_take)
    moreover have "replay_from blake3 pc (take (rr_valid_len r) bs) nxt (rc + 1) (apply_mutation m ds) = Ok r"
      using "1.IH" [OF lt step] rest nxt lt by simp
    moreover have "offset < length (take (rr_valid_len r) bs)"
      using nxt(1) \<open>nxt \<le> rr_valid_len r\<close> lt by simp
    ultimately show ?thesis by (subst replay_from.simps) simp
  qed
qed

lemma decisions_wf_apply:
  "decisions_wf ds \<Longrightarrow> validate_mutation m = Ok () \<Longrightarrow> decisions_wf (apply_mutation m ds)"
  by (cases m)
    (auto simp: decisions_wf_def decision_wf_def list_all_iff set_bt_insert bt_wf_insert bt_wf_remove)

lemma replay_from_decisions_wf:
  "replay_from blake3 pc bs offset rc ds = Ok r \<Longrightarrow> decisions_wf ds \<Longrightarrow> decisions_wf (rr_decisions r)"
proof (induction blake3 pc bs offset rc ds rule: replay_from.induct)
  case (1 blake3 pc bs offset rc ds)
  show ?case
  proof (cases "\<exists>m nxt. offset < length bs \<and> replay_record blake3 pc bs offset rc ds = Ok (Some (m, nxt))")
    case False
    with "1.prems" show ?thesis
      by (subst (asm) replay_from.simps) (auto split: if_splits sum.splits option.splits)
  next
    case True
    then obtain m nxt where lt: "offset < length bs"
      and step: "replay_record blake3 pc bs offset rc ds = Ok (Some (m, nxt))" by blast
    have "replay_from blake3 pc bs nxt (rc + 1) (apply_mutation m ds) = Ok r"
      using "1.prems"(1) lt step by (subst (asm) replay_from.simps) simp
    with "1.IH" [OF lt step] "1.prems"(2) replay_record_next(4) [OF step] decisions_wf_apply
    show ?thesis by blast
  qed
qed

lemma replay_Ok:
  "replay blake3 pc bs = Ok r \<longleftrightarrow>
     validate_header bs = Ok () \<and> replay_from blake3 pc bs HEADER_LEN 0 [] = Ok r"
  by (simp add: replay_def result_simps)

lemma validate_header_take:
  "validate_header bs = Ok () \<Longrightarrow> HEADER_LEN \<le> n \<Longrightarrow> validate_header (take n bs) = Ok ()"
  by (auto simp: validate_header_def slice_def drop_take Let_def JOURNAL_MAGIC_def HEADER_LEN_def
      min_def split: if_splits)

lemma replay_truncate:
  assumes "replay blake3 pc bs = Ok r"
  shows "replay blake3 pc (take (rr_valid_len r) bs) = Ok r"
    and "rr_valid_len r \<le> length bs" and "rr_record_count r \<le> MAX_RECORDS"
    and "decisions_wf (rr_decisions r)"
proof -
  from assms have hdr: "validate_header bs = Ok ()"
    and run: "replay_from blake3 pc bs HEADER_LEN 0 [] = Ok r" by (simp_all add: replay_Ok)
  note len = validate_header_length [OF hdr]
  note bounds = replay_from_bounds [OF run len]
  show "rr_valid_len r \<le> length bs" "rr_record_count r \<le> MAX_RECORDS"
    using bounds by simp_all
  show "replay blake3 pc (take (rr_valid_len r) bs) = Ok r"
    using bounds validate_header_take [OF hdr] replay_from_truncate [OF run len]
    by (simp add: replay_Ok)
  show "decisions_wf (rr_decisions r)"
    using replay_from_decisions_wf [OF run] by (simp add: decisions_wf_def)
qed

section \<open>Commit lemmas\<close>

lemma prepare_record_Ok:
  "prepare_record blake3 pc m = Ok rec \<longleftrightarrow>
     (\<exists>p. validate_mutation m = Ok () \<and> to_stdvec pc m = Some p \<and> length p \<le> MAX_RECORD_LEN \<and>
          rec = be_encode 4 (length p) @ p @ blake3 p)"
  by (cases "validate_mutation m"; cases "to_stdvec pc m")
    (auto simp: prepare_record_def encode_record_def LENGTH_PREFIX_LEN_def MAX_RECORD_LEN_def)

lemma commit_guard_Ok:
  "commit_guard s m expected rec = Ok next_len \<longleftrightarrow>
     \<not> ts_poisoned s \<and> (\<forall>d g. expected = Some (d, g) \<longrightarrow> current_generation s d = g) \<and>
     validate_transition (ts_decisions s) m = Ok () \<and> ts_record_count s < MAX_RECORDS \<and>
     next_len = ts_file_len s + length rec \<and> next_len \<le> MAX_STORE_SIZE"
  by (auto simp: commit_guard_def result_simps usize_saturating_add_def USIZE_MAX_def
      MAX_STORE_SIZE_def Let_def split: option.splits if_splits)

text \<open>The three ways a commit ends.\<close>

lemma commit_elim:
  assumes "commit blake3 pc env m expected s = (r, t)"
  obtains (rejected) e where "r = Err e" "t = s"
  | (failed) e rec next_len content k where "r = Err e" "prepare_record blake3 pc m = Ok rec"
      "commit_guard s m expected rec = Ok next_len"
      "t = s\<lparr>ts_file := content, ts_poisoned := True\<rparr>"
      "content = take (ts_file_len s) (ts_file s @ take k rec) \<or>
       content = ts_file s @ take k rec \<and> (\<exists>a b. e = RollbackFailed a b)"
  | (committed) rec next_len where "r = Ok ()" "prepare_record blake3 pc m = Ok rec"
      "commit_guard s m expected rec = Ok next_len"
      "t = s\<lparr>ts_file := ts_file s @ rec, ts_decisions := apply_mutation m (ts_decisions s),
             ts_generations := bump_generation m (ts_generations s), ts_file_len := next_len,
             ts_record_count := ts_record_count s + 1\<rparr>"
proof (cases "prepare_record blake3 pc m")
  case (Inl e)
  with assms rejected show thesis by (auto simp: commit_def)
next
  case rec: (Inr rec)
  show thesis
  proof (cases "commit_guard s m expected rec")
    case (Inl e)
    with rec assms rejected show thesis by (auto simp: commit_def)
  next
    case guard: (Inr next_len)
    obtain pr content where persist: "persist_record env (ts_file s) rec = (pr, content)"
      by (cases "persist_record env (ts_file s) rec")
    have content: "\<exists>k. content = ts_file s @ take k rec"
    proof (cases "pe_append env")
      case None
      with persist have "content = ts_file s @ take (length rec) rec"
        by (simp add: persist_record_def)
      then show ?thesis by blast
    next
      case (Some a)
      with persist show ?thesis by (cases a) (auto simp: persist_record_def)
    qed
    show thesis
    proof (cases pr)
      case (Inr u)
      then have "content = ts_file s @ rec"
        using persist by (auto simp: persist_record_def split: option.splits)
      with Inr rec guard persist assms committed show thesis by (auto simp: commit_def)
    next
      case (Inl e)
      obtain k where k: "content = ts_file s @ take k rec" using content by blast
      obtain rr content' where rb: "rollback_record env content (ts_file_len s) = (rr, content')"
        by (cases "rollback_record env content (ts_file_len s)")
      obtain e' where r: "r = Err e'" and t: "t = s\<lparr>ts_file := content', ts_poisoned := True\<rparr>"
        and e': "(\<exists>a b. e' = RollbackFailed a b) \<or> rr = Ok ()"
        using assms rec guard persist Inl rb by (cases rr) (auto simp: commit_def)
      have "content' = take (ts_file_len s) content \<or> content' = content \<and> rr \<noteq> Ok ()"
        using rb by (auto simp: rollback_record_def split: option.splits)
      with failed [OF r rec guard t] e' k show thesis by blast
    qed
  qed
qed

text \<open>
  What a restart finds when any number of bytes of the record reached the end of the journal:
  the old decisions until the record is complete, the new ones then.
\<close>

lemma replay_append_record:
  assumes ok: "digest_ok blake3" "postcard_ok pc" and dur: "durable blake3 pc s"
    and rec: "prepare_record blake3 pc m = Ok rec" and guard: "commit_guard s m expected rec = Ok next_len"
  shows "replay blake3 pc (ts_file s @ take k rec) =
    Ok (if k < length rec
        then \<lparr>rr_decisions = ts_decisions s, rr_valid_len = length (ts_file s),
              rr_record_count = ts_record_count s\<rparr>
        else \<lparr>rr_decisions = apply_mutation m (ts_decisions s), rr_valid_len = next_len,
              rr_record_count = ts_record_count s + 1\<rparr>)"
proof -
  obtain p where p: "validate_mutation m = Ok ()" "to_stdvec pc m = Some p"
    "length p \<le> MAX_RECORD_LEN" "rec = be_encode 4 (length p) @ p @ blake3 p"
    using rec by (auto simp: prepare_record_Ok)
  have trans: "validate_transition (ts_decisions s) m = Ok ()" "ts_record_count s < MAX_RECORDS"
    "next_len = ts_file_len s + length rec"
    using guard by (simp_all add: commit_guard_Ok)
  have old: "validate_header (ts_file s) = Ok ()" "ts_file_len s = length (ts_file s)"
    "replay_from blake3 pc (ts_file s) HEADER_LEN 0 [] =
      Ok \<lparr>rr_decisions = ts_decisions s, rr_valid_len = length (ts_file s),
          rr_record_count = ts_record_count s\<rparr>"
    using dur by (simp_all add: durable_def replay_Ok)
  have from_end: "replay_from blake3 pc (ts_file s @ x) HEADER_LEN 0 [] =
      replay_from blake3 pc (ts_file s @ x) (length (ts_file s)) (ts_record_count s) (ts_decisions s)" for x
    using replay_from_extend [OF old(3)] by simp
  show ?thesis
  proof (cases "k < length rec")
    case True
    then show ?thesis
      using replay_from_torn [OF ok(1) p(3), of k] p(4)
      by (simp add: replay_Ok validate_header_append [OF old(1)] from_end)
  next
    case False
    have "replay_from blake3 pc (ts_file s @ rec) (length (ts_file s)) (ts_record_count s) (ts_decisions s) =
        replay_from blake3 pc (ts_file s @ rec) next_len (ts_record_count s + 1) (apply_mutation m (ts_decisions s))"
      using replay_from_record [OF ok p(2,3) trans(2) p(1) trans(1), of "ts_file s" "[]"]
        p(4) trans(3) old(2) ok(1) by (simp add: add.commute add.left_commute)
    also have "\<dots> = Ok \<lparr>rr_decisions = apply_mutation m (ts_decisions s), rr_valid_len = next_len,
              rr_record_count = ts_record_count s + 1\<rparr>"
      using trans(3) old(2) by (subst replay_from.simps) simp
    finally show ?thesis
      using False by (simp add: replay_Ok validate_header_append [OF old(1)] from_end)
  qed
qed

lemma commit_inv:
  assumes ok: "digest_ok blake3" "postcard_ok pc" and inv: "trust_inv blake3 pc s"
    and run: "commit blake3 pc env m expected s = (r, t)"
  shows "trust_inv blake3 pc t"
  using run
proof (cases rule: commit_elim)
  case (rejected e)
  with inv show ?thesis by simp
next
  case (failed e rec next_len content k)
  with inv show ?thesis by (simp add: trust_inv_def)
next
  case (committed rec next_len)
  then have guard: "\<not> ts_poisoned s" "ts_record_count s < MAX_RECORDS"
    "next_len = ts_file_len s + length rec" "next_len \<le> MAX_STORE_SIZE"
    by (simp_all add: commit_guard_Ok)
  with inv have dur: "durable blake3 pc s" by (simp add: trust_inv_def)
  have "durable blake3 pc t"
    using replay_append_record [OF ok dur committed(2,3), of "length rec"] committed(4) guard(3) dur
    by (simp add: durable_def)
  moreover have "decisions_wf (ts_decisions t)"
    using inv committed(2,4) by (auto simp: trust_inv_def prepare_record_Ok intro: decisions_wf_apply)
  ultimately show ?thesis
    using committed(4) guard(2,4) by (simp add: trust_inv_def)
qed

text \<open>Every mutating operation is a commit or does nothing.\<close>

lemma trust_exec_elim:
  assumes "trust_exec blake3 pc op s = (r, t)"
  obtains (noop) e where "r = Err e" "t = s"
  | (commits) env m expected where "commit blake3 pc env m expected s = (r, t)"
      "\<And>d. op_forgets op d \<longleftrightarrow> m = Forget d"
proof (cases op)
  case (Op_Trust env peer)
  show thesis
  proof (cases "validate_peer peer")
    case (Inl e)
    show thesis by (rule noop [of e]) (use assms Op_Trust Inl in \<open>auto simp: trust_def\<close>)
  next
    case (Inr u)
    show thesis
      by (rule commits [of env "Trust peer" None]) (use assms Op_Trust Inr in \<open>auto simp: trust_def\<close>)
  qed
next
  case (Op_TrustIf env peer g)
  show thesis
  proof (cases "validate_peer peer")
    case (Inl e)
    show thesis
      by (rule noop [of e]) (use assms Op_TrustIf Inl in \<open>auto simp: trust_if_generation_def\<close>)
  next
    case (Inr u)
    show thesis
      by (rule commits [of env "Trust peer" "Some (tp_device_id peer, g)"])
        (use assms Op_TrustIf Inr in \<open>auto simp: trust_if_generation_def\<close>)
  qed
next
  case (Op_Revoke env d)
  show thesis by (rule commits [of env "Revoke d" None]) (use assms Op_Revoke in \<open>auto simp: revoke_def\<close>)
next
  case (Op_Forget env d)
  show thesis by (rule commits [of env "Forget d" None]) (use assms Op_Forget in \<open>auto simp: forget_def\<close>)
qed

lemma trust_exec_inv:
  assumes "digest_ok blake3" and "postcard_ok pc" and "trust_inv blake3 pc s"
    and "trust_exec blake3 pc op s = (r, t)"
  shows "trust_inv blake3 pc t"
  using assms(4)
proof (cases rule: trust_exec_elim)
  case (noop e)
  with assms(3) show ?thesis by simp
next
  case (commits env m expected)
  from assms(1-3) commits(1) show ?thesis by (rule commit_inv)
qed

text \<open>Opening an existing journal establishes the invariant, whatever the file holds.\<close>

lemma open_existing_Ok:
  assumes "open_existing blake3 pc env content = (Ok t, content')"
  obtains rr where "replay blake3 pc content = Ok rr" "content' = take (rr_valid_len rr) content"
    "t = from_parts content' (rr_decisions rr) (rr_valid_len rr) (rr_record_count rr)"
    "length content \<le> MAX_STORE_SIZE"
proof -
  from assms have env: "oe_open env = None" "oe_inspect env = None" "oe_read env = None"
    and size: "length content \<le> MAX_STORE_SIZE"
    by (auto simp: open_existing_def io_check_def not_less split: option.splits if_splits)
  with assms obtain rr where rr: "replay blake3 pc content = Ok rr"
    by (cases "replay blake3 pc content") (auto simp: open_existing_def io_check_def)
  have "content' = take (rr_valid_len rr) content \<and>
      t = from_parts content' (rr_decisions rr) (rr_valid_len rr) (rr_record_count rr)"
  proof (cases "rr_valid_len rr = length content")
    case True
    with assms env size rr show ?thesis
      by (cases "oe_seek env") (auto simp: open_existing_def io_check_def)
  next
    case False
    with assms env size rr show ?thesis
      by (cases "oe_seek env"; cases "oe_sync env"; cases "oe_truncate env")
        (auto simp: open_existing_def io_check_def)
  qed
  with rr size that show thesis by blast
qed

lemma open_existing_inv:
  assumes "open_existing blake3 pc env content = (Ok t, content')"
  shows "trust_inv blake3 pc t"
  using assms
proof (rule open_existing_Ok)
  fix rr
  assume rr: "replay blake3 pc content = Ok rr" "content' = take (rr_valid_len rr) content"
    "t = from_parts content' (rr_decisions rr) (rr_valid_len rr) (rr_record_count rr)"
    "length content \<le> MAX_STORE_SIZE"
  note tr = replay_truncate [OF rr(1)]
  have "durable blake3 pc t"
    using rr(2,3) tr(1,2) by (cases rr) (simp add: durable_def from_parts_def)
  with tr rr(3,4) show ?thesis by (simp add: trust_inv_def from_parts_def)
qed

interpretation trust_machine: invariant_machine trust_initial "trust_step blake3 pc"
  "\<lambda>s. digest_ok blake3 \<longrightarrow> postcard_ok pc \<longrightarrow> trust_inv blake3 pc s" for blake3 pc
proof
  fix s
  assume "trust_initial s"
  then show "digest_ok blake3 \<longrightarrow> postcard_ok pc \<longrightarrow> trust_inv blake3 pc s"
    using header_valid [of "[]"]
    by (simp add: trust_initial_def trust_inv_def durable_def from_parts_def decisions_wf_def
        replay_Ok replay_header, simp add: HEADER_LEN_def MAX_STORE_SIZE_def)
next
  fix s t
  assume "digest_ok blake3 \<longrightarrow> postcard_ok pc \<longrightarrow> trust_inv blake3 pc s"
    and "trust_step blake3 pc s t"
  then show "digest_ok blake3 \<longrightarrow> postcard_ok pc \<longrightarrow> trust_inv blake3 pc t"
    by (auto elim!: trust_step.cases intro: trust_exec_inv open_existing_inv)
qed

lemma commit_rejected_poisoned:
  "ts_poisoned s \<Longrightarrow> \<exists>e. commit blake3 pc env m expected s = (Err e, s)"
  by (cases "prepare_record blake3 pc m") (simp_all add: commit_def commit_guard_def)

lemma trust_exec_poisoned: "ts_poisoned s \<Longrightarrow> \<exists>e. trust_exec blake3 pc op s = (Err e, s)"
  by (cases op)
    (auto simp: trust_def trust_if_generation_def revoke_def forget_def commit_rejected_poisoned
      split: sum.splits)

text \<open>Generations only move when a forget commits.\<close>

lemma current_generation_commit:
  assumes "commit blake3 pc env m expected s = (r, t)"
  shows "current_generation t d =
    (if r = Ok () \<and> m = Forget d then saturating_add (current_generation s d) 1
     else current_generation s d)"
  using assms
proof (cases rule: commit_elim)
  case (committed rec next_len)
  then show ?thesis
    by (cases m) (auto simp: current_generation_def bump_generation_def)
qed (auto simp: current_generation_def)

lemma unat_saturating_add_one: "unat (g::u64) < 2 ^ 64 - 1 \<Longrightarrow> unat (saturating_add g 1) = unat g + 1"
  by (simp add: saturating_add_def unat_word_ariths)

interpretation trust_fence: generation_fence "trust_exec blake3 pc" current_generation op_forgets
  for blake3 pc
proof
  fix op s r t k
  assume "trust_exec blake3 pc op s = (r, t)"
  then show "unat (current_generation s k) \<le> unat (current_generation t k)"
    by (cases rule: trust_exec_elim)
      (auto simp: current_generation_commit saturating_add_mono)
next
  fix op s t k
  assume "trust_exec blake3 pc op s = (Ok (), t)" and "op_forgets op k"
    and "unat (current_generation s k) < 2 ^ 64 - 1"
  then show "unat (current_generation s k) < unat (current_generation t k)"
    by (cases rule: trust_exec_elim)
      (auto simp: current_generation_commit unat_saturating_add_one)
qed

text \<open>A revocation outlives every operation that does not forget the identity.\<close>

lemma trust_exec_revoked:
  assumes run: "trust_exec blake3 pc op s = (r, t)" and no: "\<not> op_forgets op d"
    and rev: "bt_get (ts_decisions s) d = Some Decision_Revoked"
  shows "bt_get (ts_decisions t) d = Some Decision_Revoked"
  using run
proof (cases rule: trust_exec_elim)
  case (noop e)
  with rev show ?thesis by simp
next
  case (commits env m expected)
  from commits(1) show ?thesis
  proof (cases rule: commit_elim)
    case (committed rec next_len)
    then have "validate_transition (ts_decisions s) m = Ok ()" by (simp add: commit_guard_Ok)
    with rev no commits(2) committed(4) show ?thesis
      by (cases m) (auto split: if_splits)
  qed (use rev in auto)
qed

lemma run_revoked:
  "run_ops (trust_exec blake3 pc) ops s = (rs, t) \<Longrightarrow> list_all (\<lambda>op. \<not> op_forgets op d) ops \<Longrightarrow>
     bt_get (ts_decisions s) d = Some Decision_Revoked \<Longrightarrow>
     bt_get (ts_decisions t) d = Some Decision_Revoked"
  by (induction ops arbitrary: s rs) (auto split: prod.splits dest: trust_exec_revoked)

lemma entry_revoked_iff:
  "decisions_wf (ts_decisions s) \<Longrightarrow>
     entry s d = Some (Entry_Revoked d) \<longleftrightarrow> bt_get (ts_decisions s) d = Some Decision_Revoked"
  by (auto simp: entry_def elim: decision_entry.elims)

text \<open>The listing in pages.\<close>

lemma key_decision_entry: "decision_wf e \<Longrightarrow> entry_device_id (decision_entry (fst e) (snd e)) = fst e"
  by (cases "snd e") (auto simp: decision_wf_def)

lemma after_cursor_list_entries:
  assumes "list_all decision_wf ds"
  shows "after_cursor entry_device_id c (map (\<lambda>(d, v). decision_entry d v) ds) =
    map (\<lambda>(d, v). decision_entry d v)
      (case c of Some a \<Rightarrow> filter (\<lambda>(d, _). a < d) ds | None \<Rightarrow> ds)"
proof (cases c)
  case (Some a)
  have "filter (\<lambda>e. a < entry_device_id ((\<lambda>(d, v). decision_entry d v) e)) ds = filter (\<lambda>(d, _). a < d) ds"
    using assms key_decision_entry by (intro filter_cong) (auto simp: list_all_iff)
  with Some show ?thesis by (simp add: after_cursor_def filter_map comp_def)
qed (simp add: after_cursor_def)

lemma take_Suc_min: "min n MAX_LIST_PAGE_SIZE + 1 \<le> USIZE_MAX"
  by (simp add: USIZE_MAX_def MAX_LIST_PAGE_SIZE_def min_def)

interpretation trust_listing: cursor_listing "\<lambda>s. decisions_wf (ts_decisions s)" list_entries
  entry_device_id "\<lambda>n. min n MAX_LIST_PAGE_SIZE" trust_page_of
proof
  fix s :: trust_store
  assume wf: "decisions_wf (ts_decisions s)"
  then have "map entry_device_id (list_entries s) = bt_keys (ts_decisions s)"
    using key_decision_entry by (auto simp: list_entries_def bt_keys_def decisions_wf_def list_all_iff)
  with wf show "sorted_wrt (<) (map entry_device_id (list_entries s))"
    by (simp add: decisions_wf_def bt_wf_def)
next
  fix n :: nat
  show "0 < n \<Longrightarrow> 0 < min n MAX_LIST_PAGE_SIZE" by (simp add: MAX_LIST_PAGE_SIZE_def)
next
  fix s :: trust_store and n :: nat and c
  assume wf: "decisions_wf (ts_decisions s)" and n: "0 < n"
  let ?rest = "after_cursor entry_device_id c (list_entries s)" and ?k = "min n MAX_LIST_PAGE_SIZE"
  have rest: "?rest = map (\<lambda>(d, v). decision_entry d v)
      (case c of Some a \<Rightarrow> filter (\<lambda>(d, _). a < d) (ts_decisions s) | None \<Rightarrow> ts_decisions s)"
    using wf after_cursor_list_entries by (simp add: list_entries_def decisions_wf_def)
  have k: "0 < ?k" "usize_saturating_add ?k 1 = Suc ?k"
    using n take_Suc_min [of n] by (simp_all add: MAX_LIST_PAGE_SIZE_def usize_saturating_add_def)
  have page: "list_page s c n = Ok \<lparr>page_entries = take ?k ?rest, page_next_cursor =
      (if ?k < length ?rest then Some (entry_device_id (last (take ?k ?rest))) else None)\<rparr>"
    using n k unfolding list_page_def Let_def rest by (auto simp: take_map min_def)
  show "fst (trust_page_of s n c) = take ?k ?rest"
    by (simp add: trust_page_of_def page)
  show "snd (trust_page_of s n c) =
      (if ?k < length ?rest then Some (entry_device_id (last (take ?k ?rest))) else None)"
    by (simp add: trust_page_of_def page)
qed

lemma reachable_trust_inv:
  "reachable trust_initial (trust_step blake3 pc) s \<Longrightarrow> digest_ok blake3 \<Longrightarrow> postcard_ok pc \<Longrightarrow>
     trust_inv blake3 pc s"
  using trust_machine.reachable_inv by blast

lemma reachable_durable:
  "reachable trust_initial (trust_step blake3 pc) s \<Longrightarrow> digest_ok blake3 \<Longrightarrow> postcard_ok pc \<Longrightarrow>
     \<not> ts_poisoned s \<Longrightarrow> durable blake3 pc s"
  using reachable_trust_inv by (auto simp: trust_inv_def)

lemma reachable_empty: "reachable trust_initial (trust_step blake3 pc) empty_store"
  by (rule reach_init) (simp add: trust_initial_def empty_store_def)

lemma reachable_op:
  "reachable trust_initial (trust_step blake3 pc) s \<Longrightarrow>
     reachable trust_initial (trust_step blake3 pc) (snd (trust_exec blake3 pc op s))"
  using step_op [of blake3 pc op s "fst (trust_exec blake3 pc op s)"]
  by (auto intro: reach_step)

text \<open>The example commits, evaluated.\<close>

lemma example_peer_simps [simp]:
  "tp_device_id example_peer = example_id" "validate_peer example_peer = Ok ()"
  by (simp_all add: example_peer_def validate_peer_def MAX_DEVICE_NAME_LEN_def MAX_PLATFORM_LEN_def)

lemma example_prepare:
  "prepare_record zero_digest example_codec (Trust example_peer) = Ok ([0, 0, 0, 1, 0] @ replicate 32 0)"
  "prepare_record zero_digest example_codec (Revoke example_id) = Ok ([0, 0, 0, 1, 1] @ replicate 32 0)"
  "prepare_record zero_digest example_codec (Forget example_id) = Ok ([0, 0, 0, 1, 2] @ replicate 32 0)"
  by (simp_all add: prepare_record_Ok example_codec_def table_codec_def zero_digest_def be_encode_numeral
      MAX_RECORD_LEN_def)

lemma commit_quiet:
  "prepare_record blake3 pc m = Ok rec \<Longrightarrow> commit_guard s m expected rec = Ok next_len \<Longrightarrow>
     commit blake3 pc quiet_env m expected s =
       (Ok (), s\<lparr>ts_file := ts_file s @ rec, ts_decisions := apply_mutation m (ts_decisions s),
             ts_generations := bump_generation m (ts_generations s), ts_file_len := next_len,
             ts_record_count := ts_record_count s + 1\<rparr>)"
  by (simp add: commit_def persist_record_def quiet_env_def io_check_def)

lemma trusted_store_eq:
  "trust zero_digest example_codec quiet_env example_peer empty_store = (Ok (), trusted_store)"
  by (simp add: trust_def commit_quiet [OF example_prepare(1), where next_len = 47] commit_guard_Ok empty_store_def
      from_parts_def trusted_store_def bump_generation_def MAX_RECORDS_def MAX_STORE_SIZE_def HEADER_LEN_def)

lemma reachable_trusted:
  "reachable trust_initial (trust_step zero_digest example_codec) trusted_store"
  using reachable_op [OF reachable_empty, of zero_digest example_codec "Op_Trust quiet_env example_peer"]
  by (simp add: trusted_store_eq)

lemma example_ok [simp]: "postcard_ok example_codec"
  by (simp add: example_codec_def table_codec_ok)

section \<open>Properties\<close>

text \<open>
  C2: in every state the store can reach from a newly created journal, through any sequence of
  operations with any file failures and any reopening, an unpoisoned store's file replays to
  exactly the decisions it holds in memory, uses the whole file, and respects the journal bounds.
\<close>

theorem trust_journal_durable:
  assumes "digest_ok blake3" and "postcard_ok pc"
    and "reachable trust_initial (trust_step blake3 pc) s" and "\<not> ts_poisoned s"
  shows "replay blake3 pc (ts_file s) =
           Ok \<lparr>rr_decisions = ts_decisions s, rr_valid_len = length (ts_file s),
               rr_record_count = ts_record_count s\<rparr> \<and>
         length (ts_file s) \<le> MAX_STORE_SIZE \<and> ts_record_count s \<le> MAX_RECORDS"
  using reachable_trust_inv [OF assms(3,1,2)] assms(4)
  by (auto simp: trust_inv_def durable_def)

theorem trust_journal_durable_witness:
  "replay zero_digest example_codec (ts_file trusted_store) =
     Ok \<lparr>rr_decisions = [(example_id, Decision_Trusted example_peer)],
         rr_valid_len = 47, rr_record_count = 1\<rparr>"
  using trust_journal_durable [OF zero_digest_ok example_ok reachable_trusted]
  by (simp add: trusted_store_def empty_store_def from_parts_def HEADER_LEN_def)

text \<open>
  C15: a crash at any byte of a commit is harmless. If a commit succeeds, then for every number
  of bytes of its record that had reached the file, replaying that file gives the decisions
  before the commit while the record is incomplete, and the decisions after it once it is complete.
\<close>

theorem commit_crash_consistent:
  assumes "digest_ok blake3" and "postcard_ok pc"
    and "reachable trust_initial (trust_step blake3 pc) s"
    and "commit blake3 pc env m expected s = (Ok (), t)"
  shows "\<exists>rec. ts_file t = ts_file s @ rec \<and> rec \<noteq> [] \<and>
    (\<forall>k. \<exists>rr. replay blake3 pc (ts_file s @ take k rec) = Ok rr \<and>
       rr_decisions rr = (if k < length rec then ts_decisions s else ts_decisions t))"
  using assms(4)
proof (cases rule: commit_elim)
  case (committed rec next_len)
  then have "durable blake3 pc s"
    using reachable_durable [OF assms(3,1,2)] by (simp add: commit_guard_Ok)
  note crash = replay_append_record [OF assms(1,2) this committed(2,3)]
  have "rec \<noteq> []" using committed(2) by (auto simp: prepare_record_Ok be_encode_numeral)
  with crash committed(4) show ?thesis by (intro exI [of _ rec]) auto
qed auto

theorem commit_crash_consistent_witness:
  "\<exists>rec. ts_file trusted_store = ts_file empty_store @ rec \<and> rec \<noteq> [] \<and>
    (\<forall>k. \<exists>rr. replay zero_digest example_codec (ts_file empty_store @ take k rec) = Ok rr \<and>
       rr_decisions rr = (if k < length rec then [] else ts_decisions trusted_store))"
proof -
  have "commit zero_digest example_codec quiet_env (Trust example_peer) None empty_store =
      (Ok (), trusted_store)"
    using trusted_store_eq by (simp add: trust_def)
  moreover have "ts_decisions empty_store = []" by (simp add: empty_store_def from_parts_def)
  ultimately show ?thesis
    using commit_crash_consistent [OF zero_digest_ok example_ok reachable_empty] by metis
qed

text \<open>
  A failed commit is atomic. It leaves the decisions, generations, length and count in memory
  as they were; if it touched the file the store is poisoned, and the file replays to the
  unchanged decisions, except that when the rollback itself failed it may replay to the decisions
  with the rejected mutation applied.
\<close>

theorem commit_failure_atomic:
  assumes "digest_ok blake3" and "postcard_ok pc"
    and "reachable trust_initial (trust_step blake3 pc) s" and "\<not> ts_poisoned s"
    and "commit blake3 pc env m expected s = (Err e, t)"
  shows "ts_decisions t = ts_decisions s \<and> ts_generations t = ts_generations s \<and>
    ts_file_len t = ts_file_len s \<and> ts_record_count t = ts_record_count s \<and>
    (t = s \<or> ts_poisoned t) \<and>
    (\<exists>rr. replay blake3 pc (ts_file t) = Ok rr \<and>
       (rr_decisions rr = ts_decisions s \<or>
        (\<exists>a b. e = RollbackFailed a b) \<and> rr_decisions rr = apply_mutation m (ts_decisions s)))"
proof -
  note dur = reachable_durable [OF assms(3,1,2,4)]
  then have old: "replay blake3 pc (ts_file s) = Ok \<lparr>rr_decisions = ts_decisions s,
      rr_valid_len = length (ts_file s), rr_record_count = ts_record_count s\<rparr>"
    and len: "ts_file_len s = length (ts_file s)" by (simp_all add: durable_def)
  from assms(5) show ?thesis
  proof (cases rule: commit_elim)
    case (rejected e')
    with old show ?thesis by simp
  next
    case (failed e' rec next_len content k)
    have "\<exists>rr. replay blake3 pc content = Ok rr \<and>
       (rr_decisions rr = ts_decisions s \<or>
        (\<exists>a b. e = RollbackFailed a b) \<and> rr_decisions rr = apply_mutation m (ts_decisions s))"
    proof (cases "content = ts_file s")
      case True
      with old show ?thesis by simp
    next
      case False
      with failed(1,5) len have "content = ts_file s @ take k rec" "\<exists>a b. e = RollbackFailed a b"
        by auto
      with replay_append_record [OF assms(1,2) dur failed(2,3), of k] show ?thesis
        by (cases "k < length rec") auto
    qed
    with failed(4) show ?thesis by simp
  qed simp
qed

theorem commit_failure_atomic_witness:
  "\<exists>t. commit zero_digest example_codec (quiet_env\<lparr>pe_sync := Some (IoKind 5)\<rparr>) (Revoke example_id)
          None trusted_store = (Err (Trust_Io ''sync'' (IoKind 5)), t) \<and>
       ts_poisoned t \<and> ts_decisions t = ts_decisions trusted_store"
proof -
  let ?env = "quiet_env\<lparr>pe_sync := Some (IoKind 5)\<rparr>"
  have run: "commit zero_digest example_codec ?env (Revoke example_id) None trusted_store =
      (Err (Trust_Io ''sync'' (IoKind 5)), trusted_store\<lparr>ts_poisoned := True\<rparr>)"
    by (simp add: commit_def example_prepare commit_guard_def persist_record_def rollback_record_def
        io_check_def quiet_env_def trusted_store_def empty_store_def from_parts_def
        usize_saturating_add_def USIZE_MAX_def MAX_RECORDS_def MAX_STORE_SIZE_def HEADER_LEN_def)
  have "\<not> ts_poisoned trusted_store"
    by (simp add: trusted_store_def empty_store_def from_parts_def)
  from commit_failure_atomic [OF zero_digest_ok example_ok reachable_trusted this run] run
  show ?thesis by simp
qed

text \<open>
  C16: a revoked identity stays revoked through any sequence of operations, whatever their results,
  as long as none of them forgets it, and no attempt to trust it succeeds meanwhile.
\<close>

theorem revocation_is_sticky:
  assumes "bt_get (ts_decisions s) d = Some Decision_Revoked"
    and "list_all (\<lambda>op. \<not> op_forgets op d) ops"
    and "run_ops (trust_exec blake3 pc) ops s = (rs, t)"
  shows "entry t d = Some (Entry_Revoked d) \<and> peer_of t d = None \<and>
    (\<forall>env p g. tp_device_id p = d \<longrightarrow> (\<exists>e. trust_if_generation blake3 pc env p g t = (Err e, t)))"
proof -
  have rev: "bt_get (ts_decisions t) d = Some Decision_Revoked"
    using run_revoked [OF assms(3,2,1)] .
  have "\<exists>e. trust_if_generation blake3 pc env p g t = (Err e, t)" if "tp_device_id p = d" for env p g
    using rev that
    by (cases "validate_peer p"; cases "prepare_record blake3 pc (Trust p)")
      (auto simp: trust_if_generation_def commit_def commit_guard_def)
  with rev show ?thesis by (simp add: entry_def peer_of_def)
qed

theorem revocation_is_sticky_witness:
  "let s = trusted_store\<lparr>ts_decisions := [(example_id, Decision_Revoked)]\<rparr> in
     entry (snd (run_ops (trust_exec zero_digest example_codec)
       [Op_Trust quiet_env example_peer, Op_Revoke quiet_env example_id] s)) example_id
       = Some (Entry_Revoked example_id)"
proof -
  let ?s = "trusted_store\<lparr>ts_decisions := [(example_id, Decision_Revoked)]\<rparr>"
  let ?ops = "[Op_Trust quiet_env example_peer, Op_Revoke quiet_env example_id]"
  have "bt_get (ts_decisions ?s) example_id = Some Decision_Revoked" by (simp add: bt_get_def)
  moreover have "list_all (\<lambda>op. \<not> op_forgets op example_id) ?ops" by simp
  ultimately show ?thesis
    using revocation_is_sticky [of ?s example_id ?ops zero_digest example_codec]
    by (metis prod.collapse)
qed

text \<open>
  Forgetting a peer fences every pairing that began before it. If the generation of a peer was
  read in some state and a forget of that peer succeeds in any later sequence of operations, then a
  trust commit with the generation read first fails and changes nothing (below the saturation point
  of the 64-bit counter).
\<close>

theorem forget_fences_pairing:
  assumes "run_ops (trust_exec blake3 pc) ops s = (rs, t)"
    and "(Op_Forget env (tp_device_id p), Ok ()) \<in> set (zip ops rs)"
    and "unat (current_generation s (tp_device_id p)) < 2 ^ 64 - 1"
  shows "\<exists>e. trust_if_generation blake3 pc env' p (current_generation s (tp_device_id p)) t = (Err e, t)"
proof -
  have "current_generation t (tp_device_id p) \<noteq> current_generation s (tp_device_id p)"
    using trust_fence.run_fence [OF assms(1,2) _ assms(3)] by simp
  then show ?thesis
    by (cases "validate_peer p"; cases "prepare_record blake3 pc (Trust p)")
      (auto simp: trust_if_generation_def commit_def commit_guard_def)
qed

theorem forget_fences_pairing_witness:
  "let (rs, t) = run_ops (trust_exec zero_digest example_codec) [Op_Forget quiet_env example_id] trusted_store
   in rs = [Ok ()] \<and> current_generation trusted_store example_id = 0 \<and>
      (\<exists>e. trust_if_generation zero_digest example_codec quiet_env example_peer 0 t = (Err e, t))"
proof -
  let ?run = "run_ops (trust_exec zero_digest example_codec) [Op_Forget quiet_env example_id] trusted_store"
  have g: "current_generation trusted_store example_id = 0"
    by (simp add: current_generation_def trusted_store_def empty_store_def from_parts_def)
  have "commit_guard trusted_store (Forget example_id) None ([0, 0, 0, 1, 2] @ replicate 32 0) = Ok 84"
    by (simp add: commit_guard_Ok trusted_store_def empty_store_def from_parts_def MAX_RECORDS_def
        MAX_STORE_SIZE_def)
  then obtain t where run: "?run = ([Ok ()], t)"
    by (simp add: forget_def commit_quiet [OF example_prepare(3)])
  have "\<exists>e. trust_if_generation zero_digest example_codec quiet_env example_peer
      (current_generation trusted_store (tp_device_id example_peer)) t = (Err e, t)"
    by (rule forget_fences_pairing [OF run, of quiet_env]) (simp_all add: g)
  with run g show ?thesis by simp
qed

text \<open>
  A client that asks for pages of any positive size and follows the returned cursors until none
  is left gets every decision exactly once, in identity order.
\<close>

theorem trust_pages_complete:
  assumes "digest_ok blake3" and "postcard_ok pc"
    and "reachable trust_initial (trust_step blake3 pc) s"
    and "0 < n" and "length (ts_decisions s) < fuel"
  shows "collect_pages fuel (trust_page_of s n) None = Some (list_entries s) \<and>
    sorted_wrt (<) (map entry_device_id (list_entries s))"
proof -
  have wf: "decisions_wf (ts_decisions s)"
    using reachable_trust_inv [OF assms(3,1,2)] by (simp add: trust_inv_def)
  moreover have "length (list_entries s) < fuel" using assms(5) by (simp add: list_entries_def)
  ultimately show ?thesis
    using trust_listing.collect_all [OF wf assms(4)] trust_listing.keys_sorted [OF wf] by simp
qed

theorem trust_pages_complete_witness:
  "collect_pages 2 (trust_page_of trusted_store 1) None = Some [Entry_Trusted example_peer]"
  using trust_pages_complete [OF zero_digest_ok example_ok reachable_trusted, of 1 2]
  by (simp add: list_entries_def trusted_store_def)

text \<open>
  A poisoned store is frozen: every operation returns an error and changes neither the file nor
  anything in memory.
\<close>

theorem poisoned_store_frozen:
  assumes "ts_poisoned s" and "run_ops (trust_exec blake3 pc) ops s = (rs, t)"
  shows "t = s \<and> list_all (\<lambda>r. \<not> is_ok r) rs"
  using assms(2)
proof (induction ops arbitrary: rs)
  case Nil
  then show ?case by simp
next
  case (Cons op ops)
  from trust_exec_poisoned [OF assms(1)] obtain e where "trust_exec blake3 pc op s = (Err e, s)" by blast
  with Cons show ?case by (auto split: prod.splits)
qed

theorem poisoned_store_frozen_witness:
  "snd (run_ops (trust_exec zero_digest example_codec) [Op_Forget quiet_env example_id]
     (trusted_store\<lparr>ts_poisoned := True\<rparr>)) = trusted_store\<lparr>ts_poisoned := True\<rparr>"
  using poisoned_store_frozen [of "trusted_store\<lparr>ts_poisoned := True\<rparr>" zero_digest example_codec
      "[Op_Forget quiet_env example_id]"]
  by (simp split: prod.splits)

text \<open>
  Replay fails closed. If a complete record after any valid journal carries a checksum that is
  not the digest of its payload, the whole replay is refused with the record's index and offset,
  whatever follows, so no partially replayed decision set is exposed.
\<close>

theorem replay_rejects_corruption:
  assumes "durable blake3 pc s" and "ts_record_count s < MAX_RECORDS"
    and "length p \<le> MAX_RECORD_LEN" and "length c = CHECKSUM_LEN" and "c \<noteq> blake3 p"
  shows "replay blake3 pc (ts_file s @ be_encode LENGTH_PREFIX_LEN (length p) @ p @ c @ rest) =
    Err (CorruptRecord (ts_record_count s) (length (ts_file s)) ''checksum mismatch'')"
proof -
  let ?bs = "ts_file s @ be_encode 4 (length p) @ p @ c @ rest"
  have "length p < 256 ^ 4" using assms(3) by (simp add: MAX_RECORD_LEN_def)
  then have dec: "be_decode (slice ?bs (length (ts_file s)) 4) = length p"
    by (simp add: slice_append_exact be_decode_encode)
  have pay: "slice ?bs (length (ts_file s) + 4) (length p) = p"
    by (simp add: slice_append_exact)
  have sum: "slice ?bs (length (ts_file s) + 4 + length p) 32 = c"
    using assms(4) by (simp add: slice_append_exact CHECKSUM_LEN_def)
  have rec: "replay_record blake3 pc ?bs (length (ts_file s)) (ts_record_count s) (ts_decisions s) =
      Err (CorruptRecord (ts_record_count s) (length (ts_file s)) ''checksum mismatch'')"
    unfolding replay_record_def trust_lens dec Let_def pay sum
    using assms(2-5) by (simp add: CHECKSUM_LEN_def)
  have old: "validate_header (ts_file s) = Ok ()" "replay_from blake3 pc (ts_file s) HEADER_LEN 0 [] =
      Ok \<lparr>rr_decisions = ts_decisions s, rr_valid_len = length (ts_file s),
          rr_record_count = ts_record_count s\<rparr>"
    using assms(1) by (simp_all add: durable_def replay_Ok)
  have "replay_from blake3 pc ?bs HEADER_LEN 0 [] =
      replay_from blake3 pc ?bs (length (ts_file s)) (ts_record_count s) (ts_decisions s)"
    using replay_from_extend [OF old(2)] by simp
  also have "\<dots> = Err (CorruptRecord (ts_record_count s) (length (ts_file s)) ''checksum mismatch'')"
    by (subst replay_from.simps) (simp add: rec)
  finally show ?thesis
    using validate_header_append [OF old(1)] by (simp add: replay_def LENGTH_PREFIX_LEN_def)
qed

theorem replay_rejects_corruption_witness:
  "replay zero_digest example_codec
     (ts_file trusted_store @ be_encode LENGTH_PREFIX_LEN 1 @ [2] @ replicate 32 1 @ []) =
   Err (CorruptRecord 1 47 ''checksum mismatch'')"
proof -
  have s: "ts_record_count trusted_store = 1" "length (ts_file trusted_store) = 47" "\<not> ts_poisoned trusted_store"
    by (simp_all add: trusted_store_def empty_store_def from_parts_def HEADER_LEN_def)
  have "durable zero_digest example_codec trusted_store"
    by (rule reachable_durable [OF reachable_trusted zero_digest_ok example_ok s(3)])
  from replay_rejects_corruption [OF this, of "[2]" "replicate 32 1" "[]"] s show ?thesis
    by (simp add: MAX_RECORDS_def MAX_RECORD_LEN_def CHECKSUM_LEN_def zero_digest_def)
qed

end
