(* ===== verification/Session_Pairing.thy ===== *)
theory Session_Pairing
  imports Transport Trust_Journal
begin

text \<open>
  The session layer of \<open>crates/rift-session/src/lib.rs\<close>: the pairing state machine, the two
  pairing roles over a disposable connection, the confirmation that commits durable trust, and the
  admission policy. Operations that await in the middle take the trust store as it is at each lock
  acquisition, so any interleaving with other users of the store is covered. Random material and
  instants (nanoseconds) are arguments; an operation returns the final state of the connection it
  owned next to its result.
\<close>

section \<open>Data\<close>

datatype pairing_phase =
    Phase_AwaitingRequest | Phase_AwaitingResponse | Phase_AwaitingReveal | Phase_AwaitingLocalDecision
  | Phase_AwaitingRemoteDecision | Phase_CommittingTrust | Phase_AwaitingCompletion | Phase_Complete
  | Phase_Rejected | Phase_Failed

datatype session_error =
    PurposeNotAllowed device_id connection_purpose
  | Session_Intent transport_error
  | InvalidPairingTimeout
  | PeerRevoked device_id

datatype pairing_error =
    Pairing_Randomness
  | PairingUnsupported device_id
  | Pairing_Timeout pairing_phase
  | Pairing_Transport pairing_phase transport_error
  | Pairing_UnexpectedMessage pairing_phase message_kind message_kind
  | PairingIdMismatch pairing_phase
  | CommitmentMismatch pairing_phase
  | DuplicateDecision pairing_phase
  | CompletionTooEarly pairing_phase
  | AlreadyFinished pairing_phase
  | Pairing_Rejected bool bool
  | Pairing_Trust trust_store_error

datatype pairing_role = PRole_Initiator | PRole_Responder

record pairing_machine =
  pm_role :: pairing_role
  pm_phase :: pairing_phase
  pm_pairing_id :: "bytes option"
  pm_local_accepted :: "bool option"
  pm_remote_accepted :: "bool option"

record initiator_material =
  im_pairing_id :: bytes
  im_nonce :: bytes

record responder_material =
  rm_nonce :: bytes

record authorized_connection =
  ac_trust_generation :: u64
  ac_connection :: bootstrapped
  ac_peer :: trusted_peer

record pairable_connection =
  pb_trust_generation :: u64
  pb_connection :: bootstrapped
  pb_pairing_timeout :: nat

datatype session_admission =
    Admission_Authorized authorized_connection
  | Admission_Pairable pairable_connection

record pending_pairing =
  pp_connection :: "bootstrapped option"
  pp_peer :: trusted_peer
  pp_pairing_id :: bytes
  pp_code :: pairing_code
  pp_machine :: pairing_machine
  pp_deadline :: nat
  pp_trust_generation :: u64

section \<open>The pairing state machine\<close>

definition machine_initiator :: "bytes \<Rightarrow> pairing_machine" where
  "machine_initiator pairing_id =
     \<lparr>pm_role = PRole_Initiator, pm_phase = Phase_AwaitingResponse, pm_pairing_id = Some pairing_id,
      pm_local_accepted = None, pm_remote_accepted = None\<rparr>"

definition machine_responder :: pairing_machine where
  "machine_responder =
     \<lparr>pm_role = PRole_Responder, pm_phase = Phase_AwaitingRequest, pm_pairing_id = None,
      pm_local_accepted = None, pm_remote_accepted = None\<rparr>"

definition expected_kind :: "pairing_phase \<Rightarrow> pairing_role \<Rightarrow> message_kind" where
  "expected_kind phase role =
     (case phase of
        Phase_AwaitingRequest \<Rightarrow> Kind_PairingRequest
      | Phase_AwaitingResponse \<Rightarrow> Kind_PairingResponse
      | Phase_AwaitingReveal \<Rightarrow> Kind_PairingReveal
      | Phase_AwaitingLocalDecision \<Rightarrow> Kind_PairingDecision
      | Phase_AwaitingRemoteDecision \<Rightarrow> Kind_PairingDecision
      | Phase_CommittingTrust \<Rightarrow> Kind_PairingComplete
      | Phase_AwaitingCompletion \<Rightarrow> Kind_PairingComplete
      | _ \<Rightarrow> (case role of
            PRole_Initiator \<Rightarrow> Kind_PairingResponse
          | PRole_Responder \<Rightarrow> Kind_PairingRequest))"

definition phase_terminal :: "pairing_phase \<Rightarrow> bool" where
  "phase_terminal ph = (ph \<in> {Phase_Complete, Phase_Rejected, Phase_Failed})"

definition require_active :: "pairing_phase \<Rightarrow> pairing_machine \<Rightarrow> (pairing_error, unit) result" where
  "require_active expected m =
     (if phase_terminal (pm_phase m) then Err (AlreadyFinished (pm_phase m))
      else if pm_phase m = expected then Ok ()
      else Err (Pairing_UnexpectedMessage (pm_phase m) (expected_kind expected (pm_role m))
                  (expected_kind (pm_phase m) (pm_role m))))"

definition require_pairing_id :: "bytes \<Rightarrow> pairing_machine \<Rightarrow> (pairing_error, unit) result" where
  "require_pairing_id received m =
     (if pm_pairing_id m = Some received then Ok () else Err (PairingIdMismatch (pm_phase m)))"

definition unexpected :: "pairing_machine \<Rightarrow> message_kind \<Rightarrow> pairing_message \<Rightarrow> pairing_error" where
  "unexpected m expected message = Pairing_UnexpectedMessage (pm_phase m) expected (pairing_kind message)"

definition receive_request ::
  "pairing_message \<Rightarrow> pairing_machine \<Rightarrow> (pairing_error, bytes \<times> pairing_commitment) result \<times> pairing_machine" where
  "receive_request message m =
     (case require_active Phase_AwaitingRequest m of
        Err e \<Rightarrow> (Err e, m)
      | Ok _ \<Rightarrow>
          (case message of
             PM_Request pairing_id commitment \<Rightarrow>
               (Ok (pairing_id, commitment),
                m\<lparr>pm_pairing_id := Some pairing_id, pm_phase := Phase_AwaitingReveal\<rparr>)
           | other \<Rightarrow> (Err (unexpected m Kind_PairingRequest other), m)))"

definition receive_response ::
  "pairing_message \<Rightarrow> pairing_machine \<Rightarrow> (pairing_error, pairing_commitment) result \<times> pairing_machine" where
  "receive_response message m =
     (case require_active Phase_AwaitingResponse m of
        Err e \<Rightarrow> (Err e, m)
      | Ok _ \<Rightarrow>
          (case message of
             PM_Response pairing_id commitment \<Rightarrow>
               (case require_pairing_id pairing_id m of
                  Err e \<Rightarrow> (Err e, m)
                | Ok _ \<Rightarrow> (Ok commitment, m\<lparr>pm_phase := Phase_AwaitingReveal\<rparr>))
           | other \<Rightarrow> (Err (unexpected m Kind_PairingResponse other), m)))"

definition receive_reveal ::
  "pairing_message \<Rightarrow> pairing_machine \<Rightarrow> (pairing_error, bytes) result \<times> pairing_machine" where
  "receive_reveal message m =
     (case require_active Phase_AwaitingReveal m of
        Err e \<Rightarrow> (Err e, m)
      | Ok _ \<Rightarrow>
          (case message of
             PM_Reveal pairing_id nonce \<Rightarrow>
               (case require_pairing_id pairing_id m of
                  Err e \<Rightarrow> (Err e, m)
                | Ok _ \<Rightarrow> (Ok nonce, m\<lparr>pm_phase := Phase_AwaitingLocalDecision\<rparr>))
           | other \<Rightarrow> (Err (unexpected m Kind_PairingReveal other), m)))"

definition local_decision ::
  "bool \<Rightarrow> pairing_machine \<Rightarrow> (pairing_error, unit) result \<times> pairing_machine" where
  "local_decision accepted m =
     (if pm_local_accepted m \<noteq> None then (Err (DuplicateDecision (pm_phase m)), m)
      else (case require_active Phase_AwaitingLocalDecision m of
          Err e \<Rightarrow> (Err e, m)
        | Ok _ \<Rightarrow> (Ok (), m\<lparr>pm_local_accepted := Some accepted, pm_phase := Phase_AwaitingRemoteDecision\<rparr>)))"

definition remote_decision ::
  "pairing_message \<Rightarrow> pairing_machine \<Rightarrow> (pairing_error, bool) result \<times> pairing_machine" where
  "remote_decision message m =
     (if pm_remote_accepted m \<noteq> None \<or> pm_phase m = Phase_CommittingTrust
      then (Err (DuplicateDecision (pm_phase m)), m)
      else (case require_active Phase_AwaitingRemoteDecision m of
          Err e \<Rightarrow> (Err e, m)
        | Ok _ \<Rightarrow>
            (case message of
               PM_Decision pairing_id accepted \<Rightarrow>
                 (case require_pairing_id pairing_id m of
                    Err e \<Rightarrow> (Err e, m)
                  | Ok _ \<Rightarrow>
                      (Ok accepted,
                       m\<lparr>pm_remote_accepted := Some accepted,
                         pm_phase := (if pm_local_accepted m = Some True \<and> accepted
                                      then Phase_CommittingTrust else Phase_Rejected)\<rparr>))
             | PM_Complete _ \<Rightarrow> (Err (CompletionTooEarly (pm_phase m)), m)
             | other \<Rightarrow> (Err (unexpected m Kind_PairingDecision other), m))))"

definition trust_committed :: "pairing_machine \<Rightarrow> (pairing_error, unit) result \<times> pairing_machine" where
  "trust_committed m =
     (case require_active Phase_CommittingTrust m of
        Err e \<Rightarrow> (Err e, m)
      | Ok _ \<Rightarrow> (Ok (), m\<lparr>pm_phase := Phase_AwaitingCompletion\<rparr>))"

definition remote_completion ::
  "pairing_message \<Rightarrow> pairing_machine \<Rightarrow> (pairing_error, unit) result \<times> pairing_machine" where
  "remote_completion message m =
     (case require_active Phase_AwaitingCompletion m of
        Err e \<Rightarrow> (Err e, m)
      | Ok _ \<Rightarrow>
          (case message of
             PM_Complete pairing_id \<Rightarrow>
               (case require_pairing_id pairing_id m of
                  Err e \<Rightarrow> (Err e, m)
                | Ok _ \<Rightarrow> (Ok (), m\<lparr>pm_phase := Phase_Complete\<rparr>))
           | PM_Decision _ _ \<Rightarrow> (Err (DuplicateDecision (pm_phase m)), m)
           | other \<Rightarrow> (Err (unexpected m Kind_PairingComplete other), m)))"

definition machine_fail :: "pairing_machine \<Rightarrow> pairing_machine" where
  "machine_fail m = m\<lparr>pm_phase := Phase_Failed\<rparr>"

section \<open>Pairing over a connection\<close>

definition trusted_peer_from_hello :: "hello \<Rightarrow> trusted_peer" where
  "trusted_peer_from_hello h =
     \<lparr>tp_device_id = h_device_id h, tp_device_name = h_device_name h, tp_platform = h_platform h\<rparr>"

definition supports_pairing :: "bootstrapped \<Rightarrow> bool" where
  "supports_pairing c = (PAIRING_V1 \<in> set (h_capabilities (bc_peer_hello c)))"

definition close_on_error ::
  "pairing_phase \<Rightarrow> (transport_error, 'a) result \<times> bootstrapped \<Rightarrow> (pairing_error, 'a) result \<times> bootstrapped" where
  "close_on_error phase r =
     (case r of
        (Ok a, c) \<Rightarrow> (Ok a, c)
      | (Err e, c) \<Rightarrow>
          (Err (if e = ControlTimeout then Pairing_Timeout phase else Pairing_Transport phase e), bc_close c))"

definition send_or_close ::
  "control_message postcard \<Rightarrow> pairing_message \<Rightarrow> pairing_phase \<Rightarrow> bootstrapped \<Rightarrow>
     (pairing_error, unit) result \<times> bootstrapped" where
  "send_or_close pc message phase c = close_on_error phase (send_pairing pc message c)"

definition receive_or_close ::
  "control_message postcard \<Rightarrow> pairing_phase \<Rightarrow> bootstrapped \<Rightarrow>
     (pairing_error, pairing_message) result \<times> bootstrapped" where
  "receive_or_close pc phase c = close_on_error phase (receive_pairing pc c)"

text \<open>A step of the machine whose error closes the connection.\<close>

definition or_close :: "('e, 'a) result \<Rightarrow> bootstrapped \<Rightarrow> ('e, 'a) result \<times> bootstrapped" where
  "or_close r c = (r, if is_ok r then c else bc_close c)"

definition pending_new ::
  "bootstrapped \<Rightarrow> trusted_peer \<Rightarrow> bytes \<Rightarrow> pairing_code \<Rightarrow> pairing_machine \<Rightarrow> nat \<Rightarrow> u64 \<Rightarrow> nat \<Rightarrow> pending_pairing" where
  "pending_new connection peer pairing_id code m timeout generation now =
     \<lparr>pp_connection = Some connection, pp_peer = peer, pp_pairing_id = pairing_id, pp_code = code,
      pp_machine = m, pp_deadline = now + timeout, pp_trust_generation = generation\<rparr>"

definition require_pairing_capability :: "bootstrapped \<Rightarrow> (pairing_error, unit) result \<times> bootstrapped" where
  "require_pairing_capability c =
     or_close (if supports_pairing c then Ok () else Err (PairingUnsupported (bc_remote_device_id c))) c"

text \<open>\<open>now\<close> is the instant at which the pending pairing is created.\<close>

definition initiate_pairing ::
  "control_message postcard \<Rightarrow> (bytes \<Rightarrow> bytes) \<Rightarrow> nat \<Rightarrow> initiator_material \<Rightarrow> pairable_connection \<Rightarrow>
     (pairing_error, pending_pairing) result \<times> bootstrapped" where
  "initiate_pairing pc blake3 now material p =
     (let peer = trusted_peer_from_hello (bc_peer_hello (pb_connection p));
          local = bc_local_device_id (pb_connection p);
          pid = im_pairing_id material;
          m0 = machine_initiator pid in
      st_bind require_pairing_capability (\<lambda>_.
      st_bind (send_or_close pc (PM_Request pid
        (commitment_derive blake3 Role_Initiator local (tp_device_id peer) pid (im_nonce material)))
        (pm_phase m0)) (\<lambda>_.
      st_bind (receive_or_close pc (pm_phase m0)) (\<lambda>response.
      case receive_response response m0 of (r1, m1) \<Rightarrow>
      st_bind (or_close r1) (\<lambda>responder_commitment.
      st_bind (send_or_close pc (PM_Reveal pid (im_nonce material)) (pm_phase m1)) (\<lambda>_.
      st_bind (receive_or_close pc (pm_phase m1)) (\<lambda>reveal.
      case receive_reveal reveal m1 of (r2, m2) \<Rightarrow>
      st_bind (or_close r2) (\<lambda>responder_nonce.
      if \<not> commitment_verifies blake3 responder_commitment Role_Responder local (tp_device_id peer) pid responder_nonce
      then or_close (Err (CommitmentMismatch Phase_AwaitingReveal))
      else (\<lambda>c. (Ok (pending_new c peer pid
        (transcript_code blake3 \<lparr>pt_initiator = local, pt_responder = tp_device_id peer, pt_pairing_id = pid,
           pt_initiator_nonce = im_nonce material, pt_responder_nonce = responder_nonce\<rparr>)
        m2 (pb_pairing_timeout p) (pb_trust_generation p) now), c)))))))))
      (pb_connection p))"

definition respond_to_pairing ::
  "control_message postcard \<Rightarrow> (bytes \<Rightarrow> bytes) \<Rightarrow> nat \<Rightarrow> responder_material \<Rightarrow> pairable_connection \<Rightarrow>
     (pairing_error, pending_pairing) result \<times> bootstrapped" where
  "respond_to_pairing pc blake3 now material p =
     (let peer = trusted_peer_from_hello (bc_peer_hello (pb_connection p));
          local = bc_local_device_id (pb_connection p);
          m0 = machine_responder in
      st_bind require_pairing_capability (\<lambda>_.
      st_bind (receive_or_close pc (pm_phase m0)) (\<lambda>request.
      case receive_request request m0 of (r1, m1) \<Rightarrow>
      st_bind (or_close r1) (\<lambda>(pid, initiator_commitment).
      st_bind (send_or_close pc (PM_Response pid
        (commitment_derive blake3 Role_Responder (tp_device_id peer) local pid (rm_nonce material)))
        (pm_phase m1)) (\<lambda>_.
      st_bind (send_or_close pc (PM_Reveal pid (rm_nonce material)) (pm_phase m1)) (\<lambda>_.
      st_bind (receive_or_close pc (pm_phase m1)) (\<lambda>reveal.
      case receive_reveal reveal m1 of (r2, m2) \<Rightarrow>
      st_bind (or_close r2) (\<lambda>initiator_nonce.
      if \<not> commitment_verifies blake3 initiator_commitment Role_Initiator (tp_device_id peer) local pid initiator_nonce
      then or_close (Err (CommitmentMismatch Phase_AwaitingReveal))
      else (\<lambda>c. (Ok (pending_new c peer pid
        (transcript_code blake3 \<lparr>pt_initiator = tp_device_id peer, pt_responder = local, pt_pairing_id = pid,
           pt_initiator_nonce = initiator_nonce, pt_responder_nonce = rm_nonce material\<rparr>)
        m2 (pb_pairing_timeout p) (pb_trust_generation p) now), c)))))))))
      (pb_connection p))"

section \<open>Confirmation\<close>

text \<open>
  The decision exchange before the trust commit, and the completion exchange after it. \<open>now\<close> is
  the instant of the call; the trust store is the one found when the commit takes its lock.
\<close>

definition confirm_decide ::
  "control_message postcard \<Rightarrow> bool \<Rightarrow> pending_pairing \<Rightarrow> bootstrapped \<Rightarrow>
     (pairing_error, pairing_machine) result \<times> bootstrapped" where
  "confirm_decide pc accepted pp c0 =
     (case local_decision accepted (pp_machine pp) of (r1, m1) \<Rightarrow>
      st_bind (or_close r1) (\<lambda>_.
      st_bind (send_or_close pc (PM_Decision (pp_pairing_id pp) accepted) (pm_phase m1)) (\<lambda>_.
      st_bind (receive_or_close pc (pm_phase m1)) (\<lambda>decision.
      case remote_decision decision m1 of (r2, m2) \<Rightarrow>
      st_bind (or_close r2) (\<lambda>remote_accepted.
      or_close (if \<not> accepted \<or> \<not> remote_accepted
                then Err (Pairing_Rejected accepted remote_accepted) else Ok m2))))) c0)"

definition confirm_complete ::
  "control_message postcard \<Rightarrow> pending_pairing \<Rightarrow> pairing_machine \<Rightarrow> bootstrapped \<Rightarrow>
     (pairing_error, unit) result \<times> bootstrapped" where
  "confirm_complete pc pp m2 c0 =
     (case trust_committed m2 of (r3, m3) \<Rightarrow>
      st_bind (or_close r3) (\<lambda>_.
      st_bind (send_or_close pc (PM_Complete (pp_pairing_id pp)) (pm_phase m3)) (\<lambda>_.
      st_bind (receive_or_close pc (pm_phase m3)) (\<lambda>complete.
      case remote_completion complete m3 of (r4, m4) \<Rightarrow> or_close r4))) c0)"

definition confirm ::
  "control_message postcard \<Rightarrow> trust_mutation postcard \<Rightarrow> (bytes \<Rightarrow> bytes) \<Rightarrow> persist_env \<Rightarrow> nat \<Rightarrow> bool \<Rightarrow>
     pending_pairing \<Rightarrow> trust_store \<Rightarrow>
     (pairing_error, authorized_connection) result \<times> bootstrapped option \<times> trust_store" where
  "confirm pc tpc blake3 env now accepted pp store =
     (case pp_connection pp of
        None \<Rightarrow> (Err (AlreadyFinished (pm_phase (pp_machine pp))), None, store)
      | Some c0 \<Rightarrow>
          if pp_deadline pp \<le> now
          then (Err (Pairing_Timeout Phase_AwaitingLocalDecision), Some (bc_close c0), store)
          else (case confirm_decide pc accepted pp c0 of
              (Err e, c1) \<Rightarrow> (Err e, Some c1, store)
            | (Ok m2, c1) \<Rightarrow>
                (case trust_if_generation blake3 tpc env (pp_peer pp) (pp_trust_generation pp) store of
                   (Err e, store') \<Rightarrow> (Err (Pairing_Trust e), Some (bc_close c1), store')
                 | (Ok _, store') \<Rightarrow>
                     (case confirm_complete pc pp m2 c1 of
                        (Err e, c2) \<Rightarrow> (Err e, Some c2, store')
                      | (Ok _, c2) \<Rightarrow>
                          (Ok \<lparr>ac_trust_generation = pp_trust_generation pp, ac_connection = c2,
                               ac_peer = pp_peer pp\<rparr>, Some c2, store')))))"

section \<open>Admission\<close>

definition purpose_allowed :: "trust_entry option \<Rightarrow> connection_purpose \<Rightarrow> bool" where
  "purpose_allowed e purpose =
     (case (e, purpose) of
        (Some (Entry_Trusted _), AuthorizedSession) \<Rightarrow> True
      | (None, Pairing) \<Rightarrow> True
      | _ \<Rightarrow> False)"

definition local_purpose_error :: "device_id \<Rightarrow> trust_entry option \<Rightarrow> connection_purpose \<Rightarrow> session_error" where
  "local_purpose_error device_id e purpose =
     (case e of
        Some (Entry_Revoked _) \<Rightarrow> PeerRevoked device_id
      | _ \<Rightarrow> PurposeNotAllowed device_id purpose)"

text \<open>\<open>s3\<close> and \<open>s4\<close> are the trust store at the two reads of the final admission.\<close>

definition admit ::
  "nat \<Rightarrow> trust_store \<Rightarrow> trust_store \<Rightarrow> connection_purpose \<Rightarrow> u64 \<Rightarrow> bootstrapped \<Rightarrow>
     (session_error, session_admission) result \<times> bootstrapped" where
  "admit timeout s3 s4 purpose generation c =
     (let device_id = bc_remote_device_id c in
      if current_generation s3 device_id \<noteq> generation
      then (Err (PurposeNotAllowed device_id purpose), bc_close c)
      else (case (entry s4 device_id, purpose) of
          (Some (Entry_Trusted peer), AuthorizedSession) \<Rightarrow>
            (Ok (Admission_Authorized \<lparr>ac_trust_generation = generation, ac_connection = c, ac_peer = peer\<rparr>), c)
        | (None, Pairing) \<Rightarrow>
            (Ok (Admission_Pairable \<lparr>pb_trust_generation = generation, pb_connection = c,
                                     pb_pairing_timeout = timeout\<rparr>), c)
        | (e, p) \<Rightarrow> (Err (local_purpose_error device_id e p), bc_close c)))"

definition prepare_outbound ::
  "control_message postcard \<Rightarrow> nat \<Rightarrow> trust_store \<Rightarrow> trust_store \<Rightarrow> trust_store \<Rightarrow> trust_store \<Rightarrow>
     connection_purpose \<Rightarrow> bootstrapped \<Rightarrow> (session_error, session_admission) result \<times> bootstrapped" where
  "prepare_outbound pc timeout s1 s2 s3 s4 purpose c =
     (let device_id = bc_remote_device_id c;
          generation = current_generation s1 device_id;
          e = entry s2 device_id in
      if \<not> purpose_allowed e purpose then (Err (local_purpose_error device_id e purpose), bc_close c)
      else (case request_intent pc purpose c of
          (Err t, c1) \<Rightarrow> (Err (Session_Intent t), c1)
        | (Ok _, c1) \<Rightarrow> admit timeout s3 s4 purpose generation c1))"

definition accept_inbound ::
  "control_message postcard \<Rightarrow> nat \<Rightarrow> trust_store \<Rightarrow> trust_store \<Rightarrow> trust_store \<Rightarrow> trust_store \<Rightarrow>
     bootstrapped \<Rightarrow> (session_error, session_admission) result \<times> bootstrapped" where
  "accept_inbound pc timeout s1 s2 s3 s4 c =
     (let device_id = bc_remote_device_id c;
          generation = current_generation s1 device_id in
      case receive_intent pc c of
        (Err t, c1) \<Rightarrow> (Err (Session_Intent t), c1)
      | (Ok purpose, c1) \<Rightarrow>
          (let e = entry s2 device_id; accepted = purpose_allowed e purpose in
           case send_intent_result pc accepted c1 of
             (Err t, c2) \<Rightarrow> (Err (Session_Intent t), c2)
           | (Ok _, c2) \<Rightarrow>
               if \<not> accepted then (Err (local_purpose_error device_id e purpose), c2)
               else admit timeout s3 s4 purpose generation c2))"

definition session_with_config :: "nat \<Rightarrow> (session_error, nat) result" where
  "session_with_config pairing_timeout =
     (if pairing_timeout = 0 then Err InvalidPairingTimeout else Ok pairing_timeout)"

definition pairing_metadata :: "string \<Rightarrow> string \<Rightarrow> (handshake_error, hello_metadata) result" where
  "pairing_metadata device_name platform = hello_metadata_new device_name platform [PAIRING_V1]"

text \<open>Each \<open>fill\<close> is the outcome of one request to the operating system's random source.\<close>

definition initiator_generate :: "bytes option \<Rightarrow> bytes option \<Rightarrow> (pairing_error, initiator_material) result" where
  "initiator_generate fill_id fill_nonce =
     and_then (ok_or fill_id Pairing_Randomness) (\<lambda>pairing_id.
     and_then (ok_or fill_nonce Pairing_Randomness) (\<lambda>nonce.
     Ok \<lparr>im_pairing_id = pairing_id, im_nonce = nonce\<rparr>))"

definition responder_generate :: "bytes option \<Rightarrow> (pairing_error, responder_material) result" where
  "responder_generate fill_nonce =
     and_then (ok_or fill_nonce Pairing_Randomness) (\<lambda>nonce. Ok \<lparr>rm_nonce = nonce\<rparr>)"

section \<open>The machine as a transition system\<close>

datatype pairing_event =
    Ev_Request pairing_message
  | Ev_Response pairing_message
  | Ev_Reveal pairing_message
  | Ev_Local bool
  | Ev_Remote pairing_message
  | Ev_Committed
  | Ev_Completion pairing_message
  | Ev_Fail

fun machine_exec :: "pairing_event \<Rightarrow> pairing_machine \<Rightarrow> (pairing_error, unit) result \<times> pairing_machine" where
  "machine_exec (Ev_Request msg) m = discard (receive_request msg m)"
| "machine_exec (Ev_Response msg) m = discard (receive_response msg m)"
| "machine_exec (Ev_Reveal msg) m = discard (receive_reveal msg m)"
| "machine_exec (Ev_Local b) m = local_decision b m"
| "machine_exec (Ev_Remote msg) m = discard (remote_decision msg m)"
| "machine_exec Ev_Committed m = trust_committed m"
| "machine_exec (Ev_Completion msg) m = remote_completion msg m"
| "machine_exec Ev_Fail m = (Ok (), machine_fail m)"

definition machine_initial :: "pairing_machine \<Rightarrow> bool" where
  "machine_initial m = (m = machine_responder \<or> (\<exists>pid. m = machine_initiator pid))"

definition machine_step :: "pairing_machine \<Rightarrow> pairing_machine \<Rightarrow> bool" where
  "machine_step s t = (\<exists>ev. t = snd (machine_exec ev s))"

definition machine_inv :: "pairing_machine \<Rightarrow> bool" where
  "machine_inv m =
     (let l = pm_local_accepted m; r = pm_remote_accepted m; known = (pm_pairing_id m \<noteq> None) in
      (known \<or> r = None) \<and>
      (case pm_phase m of
         Phase_AwaitingRequest \<Rightarrow> l = None \<and> r = None
       | Phase_AwaitingResponse \<Rightarrow> known \<and> l = None \<and> r = None
       | Phase_AwaitingReveal \<Rightarrow> known \<and> l = None \<and> r = None
       | Phase_AwaitingLocalDecision \<Rightarrow> known \<and> l = None \<and> r = None
       | Phase_AwaitingRemoteDecision \<Rightarrow> known \<and> l \<noteq> None \<and> r = None
       | Phase_CommittingTrust \<Rightarrow> known \<and> l = Some True \<and> r = Some True
       | Phase_AwaitingCompletion \<Rightarrow> known \<and> l = Some True \<and> r = Some True
       | Phase_Complete \<Rightarrow> known \<and> l = Some True \<and> r = Some True
       | Phase_Rejected \<Rightarrow> known \<and> l \<noteq> None \<and> r \<noteq> None \<and> \<not> (l = Some True \<and> r = Some True)
       | Phase_Failed \<Rightarrow> True))"

text \<open>
  What the successful events so far (\<open>S\<close>) account for in a machine.
\<close>

definition machine_history ::
  "(pairing_event \<times> (pairing_error, unit) result) set \<Rightarrow> pairing_machine \<Rightarrow> bool" where
  "machine_history S m =
     ((case pm_local_accepted m of None \<Rightarrow> True | Some b \<Rightarrow> (Ev_Local b, Ok ()) \<in> S) \<and>
      (case (pm_remote_accepted m, pm_pairing_id m) of
         (None, _) \<Rightarrow> True
       | (Some b, None) \<Rightarrow> False
       | (Some b, Some pid) \<Rightarrow> (Ev_Remote (PM_Decision pid b), Ok ()) \<in> S) \<and>
      (case (pm_phase m, pm_pairing_id m) of
         (Phase_AwaitingCompletion, _) \<Rightarrow> (Ev_Committed, Ok ()) \<in> S
       | (Phase_Complete, None) \<Rightarrow> False
       | (Phase_Complete, Some pid) \<Rightarrow>
           (Ev_Committed, Ok ()) \<in> S \<and> (Ev_Completion (PM_Complete pid), Ok ()) \<in> S
       | _ \<Rightarrow> True))"

text \<open>An operation that closes its connection whenever it fails.\<close>

definition closing :: "(bootstrapped \<Rightarrow> ('e, 'a) result \<times> bootstrapped) \<Rightarrow> bool" where
  "closing f = (\<forall>s e t. f s = (Err e, t) \<longrightarrow> bc_closed t)"

text \<open>A connection with the given sending side and incoming bytes, and a writer that took some bytes.\<close>

definition wired :: "bootstrapped \<Rightarrow> writer \<Rightarrow> bytes \<Rightarrow> stream_end \<Rightarrow> bootstrapped" where
  "wired c w bs e = c\<lparr>bc_control := Some \<lparr>ch_send = w, ch_recv = \<lparr>rd_bytes = bs, rd_end = e\<rparr>\<rparr>\<rparr>"

definition sent :: "writer \<Rightarrow> bytes \<Rightarrow> writer" where
  "sent w bs = w\<lparr>wr_bytes := wr_bytes w @ bs, wr_room := wr_room w - length bs\<rparr>"

section \<open>Example values\<close>

definition example_pid :: bytes where
  "example_pid = replicate 16 1"

definition example_messages :: "pairing_message list" where
  "example_messages =
     [PM_Request example_pid (PairingCommitment (replicate 32 0)),
      PM_Response example_pid (PairingCommitment (replicate 32 0)),
      PM_Reveal example_pid (replicate 32 3), PM_Reveal example_pid (replicate 32 4),
      PM_Decision example_pid True, PM_Complete example_pid]"

definition session_codec :: "control_message postcard" where
  "session_codec = table_codec (map from_pairing example_messages @
     [ConnectionIntent Pairing, ConnectionIntentResult True])"

definition bob_peer :: trusted_peer where
  "bob_peer = trusted_peer_from_hello (example_hello bob_id)"

definition session_trust_codec :: "trust_mutation postcard" where
  "session_trust_codec = table_codec [Trust bob_peer, Forget bob_id]"

definition example_pairable :: "device_id \<Rightarrow> device_id \<Rightarrow> bytes \<Rightarrow> pairable_connection" where
  "example_pairable local remote incoming =
     \<lparr>pb_trust_generation = 0, pb_connection =
        (example_conn incoming)\<lparr>bc_local_device_id := local, bc_peer_hello := example_hello remote\<rparr>,
      pb_pairing_timeout = 60\<rparr>"

definition example_pending :: pending_pairing where
  "example_pending = pending_new (example_conn ([0, 0, 0, 1, 4] @ [0, 0, 0, 1, 5] @ [])) bob_peer example_pid
     (PairingCode 0) ((machine_initiator example_pid)\<lparr>pm_phase := Phase_AwaitingLocalDecision\<rparr>) 60 0 0"

section \<open>Lemmas on the machine\<close>

lemma require_active_Ok [simp]:
  "require_active ph m = Ok u \<longleftrightarrow> pm_phase m = ph \<and> \<not> phase_terminal ph"
  by (auto simp: require_active_def)

lemma require_pairing_id_Ok [simp]: "require_pairing_id i m = Ok u \<longleftrightarrow> pm_pairing_id m = Some i"
  by (auto simp: require_pairing_id_def)

lemma phase_terminal_simps [simp]:
  "\<not> phase_terminal Phase_AwaitingRequest" "\<not> phase_terminal Phase_AwaitingResponse"
  "\<not> phase_terminal Phase_AwaitingReveal" "\<not> phase_terminal Phase_AwaitingLocalDecision"
  "\<not> phase_terminal Phase_AwaitingRemoteDecision" "\<not> phase_terminal Phase_CommittingTrust"
  "\<not> phase_terminal Phase_AwaitingCompletion"
  by (simp_all add: phase_terminal_def)

text \<open>Each operation either fails and changes nothing or makes exactly its transition.\<close>

lemma receive_request_Ok:
  "receive_request msg m = (Ok x, m') \<longleftrightarrow>
     (\<exists>pid c. msg = PM_Request pid c \<and> x = (pid, c) \<and> pm_phase m = Phase_AwaitingRequest \<and>
        m' = m\<lparr>pm_pairing_id := Some pid, pm_phase := Phase_AwaitingReveal\<rparr>)"
  by (cases msg) (auto simp: receive_request_def require_active_def require_pairing_id_def split: if_splits)

lemma receive_response_Ok:
  "receive_response msg m = (Ok x, m') \<longleftrightarrow>
     (\<exists>pid. msg = PM_Response pid x \<and> pm_phase m = Phase_AwaitingResponse \<and> pm_pairing_id m = Some pid \<and>
        m' = m\<lparr>pm_phase := Phase_AwaitingReveal\<rparr>)"
  by (cases msg) (auto simp: receive_response_def require_active_def require_pairing_id_def split: if_splits)

lemma receive_reveal_Ok:
  "receive_reveal msg m = (Ok x, m') \<longleftrightarrow>
     (\<exists>pid. msg = PM_Reveal pid x \<and> pm_phase m = Phase_AwaitingReveal \<and> pm_pairing_id m = Some pid \<and>
        m' = m\<lparr>pm_phase := Phase_AwaitingLocalDecision\<rparr>)"
  by (cases msg) (auto simp: receive_reveal_def require_active_def require_pairing_id_def split: if_splits)

lemma local_decision_Ok:
  "local_decision b m = (Ok u, m') \<longleftrightarrow>
     pm_local_accepted m = None \<and> pm_phase m = Phase_AwaitingLocalDecision \<and>
     m' = m\<lparr>pm_local_accepted := Some b, pm_phase := Phase_AwaitingRemoteDecision\<rparr>"
  by (auto simp: local_decision_def require_active_def split: if_splits)

lemma remote_decision_Ok:
  "remote_decision msg m = (Ok b, m') \<longleftrightarrow>
     (\<exists>pid. msg = PM_Decision pid b \<and> pm_remote_accepted m = None \<and>
        pm_phase m = Phase_AwaitingRemoteDecision \<and> pm_pairing_id m = Some pid \<and>
        m' = m\<lparr>pm_remote_accepted := Some b,
               pm_phase := (if pm_local_accepted m = Some True \<and> b then Phase_CommittingTrust else Phase_Rejected)\<rparr>)"
  by (cases msg) (auto simp: remote_decision_def require_active_def require_pairing_id_def split: if_splits)

lemma trust_committed_Ok:
  "trust_committed m = (Ok u, m') \<longleftrightarrow>
     pm_phase m = Phase_CommittingTrust \<and> m' = m\<lparr>pm_phase := Phase_AwaitingCompletion\<rparr>"
  by (auto simp: trust_committed_def require_active_def split: if_splits)

lemma remote_completion_Ok:
  "remote_completion msg m = (Ok u, m') \<longleftrightarrow>
     (\<exists>pid. msg = PM_Complete pid \<and> pm_phase m = Phase_AwaitingCompletion \<and> pm_pairing_id m = Some pid \<and>
        m' = m\<lparr>pm_phase := Phase_Complete\<rparr>)"
  by (cases msg) (auto simp: remote_completion_def require_active_def require_pairing_id_def split: if_splits)

lemmas machine_ops_Ok = receive_request_Ok receive_response_Ok receive_reveal_Ok local_decision_Ok
  remote_decision_Ok trust_committed_Ok remote_completion_Ok

lemma machine_ops_Err:
  "receive_request msg m = (Err e, m') \<Longrightarrow> m' = m"
  "receive_response msg m = (Err e, m') \<Longrightarrow> m' = m"
  "receive_reveal msg m = (Err e, m') \<Longrightarrow> m' = m"
  "local_decision b m = (Err e, m') \<Longrightarrow> m' = m"
  "remote_decision msg m = (Err e, m') \<Longrightarrow> m' = m"
  "trust_committed m = (Err e, m') \<Longrightarrow> m' = m"
  "remote_completion msg m = (Err e, m') \<Longrightarrow> m' = m"
  by (auto simp: receive_request_def receive_response_def receive_reveal_def local_decision_def
      remote_decision_def trust_committed_def remote_completion_def
      split: sum.splits pairing_message.splits if_splits)

lemma discard_Ok: "discard r = (Ok u, m') \<longleftrightarrow> (\<exists>x. r = (Ok x, m'))"
  by (cases r; cases "fst r") (auto simp: discard_def)

lemma discard_Err: "discard r = (Err e, m') \<longleftrightarrow> r = (Err e, m')"
  by (cases r; cases "fst r") (auto simp: discard_def)

lemma machine_exec_Err: "machine_exec ev m = (Err e, m') \<Longrightarrow> m' = m"
  by (cases ev) (auto simp: discard_Err dest: machine_ops_Err)

lemma machine_exec_Ok_inv: "machine_exec ev m = (Ok u, m') \<Longrightarrow> machine_inv m \<Longrightarrow> machine_inv m'"
  by (cases ev) (auto simp: discard_Ok machine_ops_Ok machine_fail_def machine_inv_def Let_def)

lemma machine_exec_inv: "machine_inv m \<Longrightarrow> machine_inv (snd (machine_exec ev m))"
  by (cases "machine_exec ev m"; cases "fst (machine_exec ev m)")
    (auto dest: machine_exec_Err machine_exec_Ok_inv)

lemma machine_history_mono: "machine_history S m \<Longrightarrow> S \<subseteq> T \<Longrightarrow> machine_history T m"
  by (cases "pm_phase m") (auto simp: machine_history_def split: option.splits)

lemma machine_exec_Ok_history:
  assumes "machine_inv m" and "machine_history S m" and "machine_exec ev m = (Ok u, m')" and "(ev, Ok ()) \<in> S"
  shows "machine_history S m'"
  using assms
  by (cases ev)
    (auto simp: discard_Ok machine_ops_Ok machine_fail_def machine_inv_def machine_history_def Let_def
      split: option.splits)

lemma machine_exec_history:
  assumes "machine_inv m" and "machine_history S m" and "machine_exec ev m = (r, m')"
  shows "machine_history (insert (ev, r) S) m'"
proof (cases r)
  case (Inl e)
  with assms machine_exec_Err have "m' = m" by blast
  with assms(2) show ?thesis by (auto intro: machine_history_mono)
next
  case (Inr u)
  have "machine_history (insert (ev, r) S) m" using assms(2) by (auto intro: machine_history_mono)
  with Inr machine_exec_Ok_history [OF assms(1)] assms(3) show ?thesis by simp
qed

lemma machine_run_history:
  "machine_inv m \<Longrightarrow> machine_history S m \<Longrightarrow> run_ops machine_exec evs m = (rs, m') \<Longrightarrow>
     machine_inv m' \<and> machine_history (S \<union> set (zip evs rs)) m'"
proof (induction evs arbitrary: m rs S)
  case Nil
  then show ?case by simp
next
  case (Cons ev evs)
  obtain r m1 where step: "machine_exec ev m = (r, m1)" by fastforce
  obtain rs1 where rest: "run_ops machine_exec evs m1 = (rs1, m')" and rs: "rs = r # rs1"
    using Cons.prems(3) step by (auto split: prod.splits)
  have "machine_inv m1" using machine_exec_inv [OF Cons.prems(1), of ev] step by simp
  moreover have "machine_history (insert (ev, r) S) m1"
    using machine_exec_history [OF Cons.prems(1,2) step] .
  ultimately show ?case using Cons.IH [OF _ _ rest] rs by fastforce
qed

interpretation pairing_states: invariant_machine machine_initial machine_step machine_inv
proof
  fix s
  show "machine_initial s \<Longrightarrow> machine_inv s"
    by (auto simp: machine_initial_def machine_responder_def machine_initiator_def machine_inv_def Let_def)
next
  fix s t
  show "machine_inv s \<Longrightarrow> machine_step s t \<Longrightarrow> machine_inv t"
    using machine_exec_inv by (auto simp: machine_step_def)
qed

lemma machine_terminal:
  "phase_terminal (pm_phase m) \<Longrightarrow> ev \<noteq> Ev_Fail \<Longrightarrow> \<exists>e. machine_exec ev m = (Err e, m)"
  by (cases ev; cases "machine_exec ev m"; cases "fst (machine_exec ev m)")
    (auto simp: discard_Ok discard_Err machine_ops_Ok dest: machine_ops_Err)

section \<open>Lemmas on pairing connections\<close>

lemma bc_close_simps [simp]:
  "bc_closed (bc_close c)" "bc_control (bc_close c) = bc_control c"
  by (simp_all add: bc_close_def)

lemma close_on_error_Ok [simp]: "close_on_error ph r = (Ok a, c) \<longleftrightarrow> r = (Ok a, c)"
  by (auto simp: close_on_error_def split: prod.splits sum.splits)

lemma close_on_error_Err: "close_on_error ph r = (Err e, c) \<Longrightarrow> bc_closed c"
  by (auto simp: close_on_error_def split: prod.splits sum.splits)

lemma or_close_Ok [simp]: "or_close r c = (Ok a, d) \<longleftrightarrow> r = Ok a \<and> d = c"
  by (auto simp: or_close_def)

lemma or_close_Err [simp]: "or_close r c = (Err e, d) \<longleftrightarrow> r = Err e \<and> d = bc_close c"
  by (auto simp: or_close_def)

lemma send_or_close_Ok:
  "send_or_close pc msg ph c = (Ok u, d) \<longleftrightarrow>
     (\<exists>ctl w. bc_control c = Some ctl \<and> write_message pc (from_pairing msg) (ch_send ctl) = (Ready (Ok u), w) \<and>
        d = c\<lparr>bc_control := Some (ctl\<lparr>ch_send := w\<rparr>)\<rparr>)"
  by (auto simp: send_or_close_def send_pairing_def with_control_Ok on_send_Ok)

lemma receive_or_close_Ok:
  "receive_or_close pc ph c = (Ok msg, d) \<longleftrightarrow>
     (\<exists>ctl r. bc_control c = Some ctl \<and> read_message pc (ch_recv ctl) = (Ready (Ok (from_pairing msg)), r) \<and>
        d = c\<lparr>bc_control := Some (ctl\<lparr>ch_recv := r\<rparr>)\<rparr>)"
proof -
  have "receive_pairing pc c = (Ok msg, d) \<longleftrightarrow>
      with_control PairingFrame (on_recv (read_message pc)) c = (Ok (from_pairing msg), d)"
    by (cases "with_control PairingFrame (on_recv (read_message pc)) c")
      (auto simp: receive_pairing_def into_pairing_Ok split: sum.splits)
  then show ?thesis by (auto simp: receive_or_close_def with_control_Ok on_recv_Ok)
qed

lemma send_or_close_Err: "send_or_close pc msg ph c = (Err e, d) \<Longrightarrow> bc_closed d"
  by (auto simp: send_or_close_def dest: close_on_error_Err)

lemma receive_or_close_Err: "receive_or_close pc ph c = (Err e, d) \<Longrightarrow> bc_closed d"
  by (auto simp: receive_or_close_def dest: close_on_error_Err)

lemmas closing_Err = send_or_close_Err receive_or_close_Err

text \<open>The pairing exchange, message by message.\<close>

lemma require_pairing_capability_Ok [simp]:
  "require_pairing_capability c = (Ok u, d) \<longleftrightarrow> supports_pairing c \<and> d = c"
  by (auto simp: require_pairing_capability_def)

lemma confirm_decide_Ok:
  assumes "confirm_decide pc accepted pp c0 = (Ok m2, c1)"
  shows "\<exists>ctl r ctl'. bc_control c0 = Some ctl \<and>
    read_message pc (ch_recv ctl) = (Ready (Ok (PairingDecision (the (pm_pairing_id (pp_machine pp))) True)), r) \<and>
    bc_control c1 = Some ctl' \<and> ch_recv ctl' = r \<and> accepted \<and>
    pm_phase (pp_machine pp) = Phase_AwaitingLocalDecision \<and> pm_phase m2 = Phase_CommittingTrust \<and>
    pm_pairing_id m2 = pm_pairing_id (pp_machine pp)"
proof -
  obtain r1 m1 where ld: "local_decision accepted (pp_machine pp) = (r1, m1)" by fastforce
  with assms obtain u ca cb msg where run: "r1 = Ok u"
    "send_or_close pc (PM_Decision (pp_pairing_id pp) accepted) (pm_phase m1) c0 = (Ok (), ca)"
    "receive_or_close pc (pm_phase m1) ca = (Ok msg, cb)"
    "(case remote_decision msg m1 of (r2, m2) \<Rightarrow>
      st_bind (or_close r2) (\<lambda>remote_accepted. or_close (if \<not> accepted \<or> \<not> remote_accepted
                then Err (Pairing_Rejected accepted remote_accepted) else Ok m2))) cb = (Ok m2, c1)"
    by (auto simp: confirm_decide_def st_bind_Ok)
  obtain r2 m2' where rd: "remote_decision msg m1 = (r2, m2')" by fastforce
  with run(4) obtain b where b: "r2 = Ok b" "accepted" "b" "m2' = m2" "c1 = cb"
    by (auto simp: st_bind_Ok split: if_splits)
  from ld run(1) have m1: "pm_phase (pp_machine pp) = Phase_AwaitingLocalDecision"
    "m1 = (pp_machine pp)\<lparr>pm_local_accepted := Some accepted, pm_phase := Phase_AwaitingRemoteDecision\<rparr>"
    by (simp_all add: local_decision_Ok)
  from rd b m1(2) obtain pid where pid: "msg = PM_Decision pid True" "pm_pairing_id (pp_machine pp) = Some pid"
    "pm_phase m2 = Phase_CommittingTrust" "pm_pairing_id m2 = Some pid"
    by (auto simp: remote_decision_Ok)
  from run(2) obtain ctl w where w: "bc_control c0 = Some ctl" "ca = c0\<lparr>bc_control := Some (ctl\<lparr>ch_send := w\<rparr>)\<rparr>"
    by (auto simp: send_or_close_Ok)
  from run(3) w(2) pid(1) obtain r where "read_message pc (ch_recv ctl) = (Ready (Ok (PairingDecision pid True)), r)"
    "cb = ca\<lparr>bc_control := Some (ctl\<lparr>ch_send := w, ch_recv := r\<rparr>)\<rparr>"
    by (auto simp: receive_or_close_Ok)
  with w pid m1(1) b show ?thesis by auto
qed

lemma confirm_complete_Ok:
  assumes "confirm_complete pc pp m2 c1 = (Ok u, c2)" and "pm_pairing_id m2 = Some pid"
  shows "\<exists>ctl r. bc_control c1 = Some ctl \<and>
    read_message pc (ch_recv ctl) = (Ready (Ok (PairingComplete pid)), r)"
proof -
  obtain r3 m3 where tc: "trust_committed m2 = (r3, m3)" by fastforce
  with assms obtain v ca cb msg where run: "r3 = Ok v"
    "send_or_close pc (PM_Complete (pp_pairing_id pp)) (pm_phase m3) c1 = (Ok (), ca)"
    "receive_or_close pc (pm_phase m3) ca = (Ok msg, cb)"
    "(case remote_completion msg m3 of (r4, m4) \<Rightarrow> or_close r4) cb = (Ok u, c2)"
    by (auto simp: confirm_complete_def st_bind_Ok)
  obtain r4 m4 where rc: "remote_completion msg m3 = (r4, m4)" by fastforce
  with run(4) have "r4 = Ok u" by simp
  with rc have "\<exists>pid'. msg = PM_Complete pid' \<and> pm_pairing_id m3 = Some pid'"
    by (auto simp: remote_completion_Ok)
  moreover have "pm_pairing_id m3 = Some pid" using tc run(1) assms(2) by (auto simp: trust_committed_Ok)
  ultimately have "msg = PM_Complete pid" by simp
  with run(2,3) show ?thesis by (auto simp: send_or_close_Ok receive_or_close_Ok)
qed

lemma closing_bind:
  "closing f \<Longrightarrow> (\<And>a. closing (g a)) \<Longrightarrow> closing (st_bind f g)"
  by (fastforce simp: closing_def st_bind_Err)

lemma closing_case_prod: "(\<And>x y. closing (f x y)) \<Longrightarrow> closing (case p of (x, y) \<Rightarrow> f x y)"
  by (cases p) simp

lemma closing_if: "(b \<Longrightarrow> closing f) \<Longrightarrow> (\<not> b \<Longrightarrow> closing g) \<Longrightarrow> closing (if b then f else g)"
  by simp

lemma closing_leaf:
  "closing (or_close r)" "closing (send_or_close pc msg ph)" "closing (receive_or_close pc ph)"
  "closing require_pairing_capability" "closing (\<lambda>c. (Ok (f c), c))"
  by (auto simp: closing_def require_pairing_capability_def dest: closing_Err)

lemmas closing_rules = closing_bind closing_case_prod closing_if closing_leaf

lemma confirm_decide_eq:
  "confirm_decide pc accepted pp =
     (case local_decision accepted (pp_machine pp) of (r1, m1) \<Rightarrow>
      st_bind (or_close r1) (\<lambda>_.
      st_bind (send_or_close pc (PM_Decision (pp_pairing_id pp) accepted) (pm_phase m1)) (\<lambda>_.
      st_bind (receive_or_close pc (pm_phase m1)) (\<lambda>decision.
      case remote_decision decision m1 of (r2, m2) \<Rightarrow>
      st_bind (or_close r2) (\<lambda>remote_accepted.
      or_close (if \<not> accepted \<or> \<not> remote_accepted
                then Err (Pairing_Rejected accepted remote_accepted) else Ok m2))))))"
  by (rule ext) (simp add: confirm_decide_def split: prod.splits)

lemma confirm_complete_eq:
  "confirm_complete pc pp m2 =
     (case trust_committed m2 of (r3, m3) \<Rightarrow>
      st_bind (or_close r3) (\<lambda>_.
      st_bind (send_or_close pc (PM_Complete (pp_pairing_id pp)) (pm_phase m3)) (\<lambda>_.
      st_bind (receive_or_close pc (pm_phase m3)) (\<lambda>complete.
      case remote_completion complete m3 of (r4, m4) \<Rightarrow> or_close r4))))"
  by (rule ext) (simp add: confirm_complete_def split: prod.splits)

lemma closingD: "f s = (Err e, t) \<Longrightarrow> closing f \<Longrightarrow> bc_closed t"
  by (auto simp: closing_def)

lemma initiate_pairing_Err: "initiate_pairing pc blake3 now mat p = (Err e, c) \<Longrightarrow> bc_closed c"
  unfolding initiate_pairing_def Let_def by (erule closingD) (intro closing_rules)

lemma respond_to_pairing_Err: "respond_to_pairing pc blake3 now mat p = (Err e, c) \<Longrightarrow> bc_closed c"
  unfolding respond_to_pairing_def Let_def by (erule closingD) (intro closing_rules)

lemma confirm_decide_Err: "confirm_decide pc accepted pp c0 = (Err e, c1) \<Longrightarrow> bc_closed c1"
proof -
  have "closing (confirm_decide pc accepted pp)"
    unfolding confirm_decide_eq by (intro closing_rules)
  then show "confirm_decide pc accepted pp c0 = (Err e, c1) \<Longrightarrow> ?thesis" by (auto simp: closing_def)
qed

lemma confirm_complete_Err: "confirm_complete pc pp m2 c1 = (Err e, c2) \<Longrightarrow> bc_closed c2"
proof -
  have "closing (confirm_complete pc pp m2)"
    unfolding confirm_complete_eq by (intro closing_rules)
  then show "confirm_complete pc pp m2 c1 = (Err e, c2) \<Longrightarrow> ?thesis" by (auto simp: closing_def)
qed

lemma trust_if_generation_Ok:
  assumes "trust_if_generation blake3 tpc env p g s = (Ok u, t)"
  shows "entry t (tp_device_id p) = Some (Entry_Trusted p)" and "current_generation s (tp_device_id p) = g"
    and "bt_get (ts_decisions s) (tp_device_id p) \<noteq> Some Decision_Revoked" and "\<not> ts_poisoned s"
    and "\<And>d. d \<noteq> tp_device_id p \<Longrightarrow> entry t d = entry s d"
proof -
  have c: "commit blake3 tpc env (Trust p) (Some (tp_device_id p, g)) s = (Ok u, t)"
    using assms by (auto simp: trust_if_generation_def split: sum.splits)
  show "entry t (tp_device_id p) = Some (Entry_Trusted p)" "current_generation s (tp_device_id p) = g"
    "bt_get (ts_decisions s) (tp_device_id p) \<noteq> Some Decision_Revoked" "\<not> ts_poisoned s"
    "\<And>d. d \<noteq> tp_device_id p \<Longrightarrow> entry t d = entry s d"
    using c by (cases rule: commit_elim; auto simp: commit_guard_Ok entry_def split: if_splits)+
qed

lemma trust_if_generation_Err_entry:
  "trust_if_generation blake3 tpc env p g s = (Err e, t) \<Longrightarrow> entry t d = entry s d"
proof -
  assume run: "trust_if_generation blake3 tpc env p g s = (Err e, t)"
  show ?thesis
  proof (cases "validate_peer p")
    case (Inl e')
    with run show ?thesis by (simp add: trust_if_generation_def)
  next
    case (Inr u)
    with run have "commit blake3 tpc env (Trust p) (Some (tp_device_id p, g)) s = (Err e, t)"
      by (simp add: trust_if_generation_def)
    then show ?thesis by (cases rule: commit_elim) (auto simp: entry_def)
  qed
qed

lemma visit_from_pairing [simp]: "message_visit (from_pairing m)"
  by (cases m) simp_all

lemma wired_simps [simp]:
  "bc_control (wired c w bs e) = Some \<lparr>ch_send = w, ch_recv = \<lparr>rd_bytes = bs, rd_end = e\<rparr>\<rparr>"
  "wr_bytes (sent w bs) = wr_bytes w @ bs" "wr_room (sent w bs) = wr_room w - length bs"
  "supports_pairing (wired c w bs e) = supports_pairing c"
  by (simp_all add: wired_def sent_def supports_pairing_def)

lemma wired_self:
  "bc_control c = Some \<lparr>ch_send = w, ch_recv = \<lparr>rd_bytes = bs, rd_end = e\<rparr>\<rparr> \<Longrightarrow> c = wired c w bs e"
  by (simp add: wired_def)

lemma send_wired:
  assumes "encode_message pc (from_pairing m) = Ok f" and "length f \<le> wr_room w"
  shows "send_or_close pc m ph (wired c w bs e) = (Ok (), wired c (sent w f) bs e)"
  using with_control_write [OF _ assms(2), of pc "from_pairing m" "wired c w bs e" _ PairingFrame] assms(1)
  by (simp add: send_or_close_def send_pairing_def encode_message_def) (simp add: wired_def sent_def)

lemma receive_wired:
  assumes "postcard_ok pc" and "encode_message pc (from_pairing m) = Ok f"
  shows "receive_or_close pc ph (wired c w (f @ x) e) = (Ok m, wired c w x e)"
  using with_control_read [OF assms(1) _ visit_from_pairing, of m f "wired c w (f @ x) e" w x e PairingFrame] assms(2)
  by (simp add: receive_or_close_def receive_pairing_def encode_message_def) (simp add: wired_def)

lemma machine_steps:
  "receive_response (PM_Response pid c) (machine_initiator pid) =
     (Ok c, (machine_initiator pid)\<lparr>pm_phase := Phase_AwaitingReveal\<rparr>)"
  "receive_request (PM_Request pid c) machine_responder =
     (Ok (pid, c), machine_responder\<lparr>pm_pairing_id := Some pid, pm_phase := Phase_AwaitingReveal\<rparr>)"
  "pm_phase m = Phase_AwaitingReveal \<Longrightarrow> pm_pairing_id m = Some pid \<Longrightarrow>
     receive_reveal (PM_Reveal pid n) m = (Ok n, m\<lparr>pm_phase := Phase_AwaitingLocalDecision\<rparr>)"
  by (simp_all add: receive_response_Ok receive_request_Ok receive_reveal_Ok machine_initiator_def machine_responder_def)

text \<open>Both roles on a stream that delivers the messages of an honest counterpart.\<close>

lemmas st_bind_capability = st_bind_step [where f = require_pairing_capability]
lemmas st_bind_send = st_bind_step [where f = "send_or_close pc m ph" for pc m ph]
lemmas st_bind_receive = st_bind_step [where f = "receive_or_close pc ph" for pc ph]
lemmas st_bind_or_close = st_bind_step [where f = "or_close (Ok a)" for a, OF or_close_Ok [THEN iffD2, OF conjI [OF refl refl]]]

lemma initiate_honest:
  assumes "postcard_ok pc" and "supports_pairing (pb_connection p)"
    and ids: "i = bc_local_device_id (pb_connection p)" "r = bc_remote_device_id (pb_connection p)"
    and "pid = im_pairing_id mat"
    and f1: "encode_message pc (from_pairing (PM_Request pid (commitment_derive blake3 Role_Initiator i r pid (im_nonce mat)))) = Ok f1"
    and f2: "encode_message pc (from_pairing (PM_Response pid (commitment_derive blake3 Role_Responder i r pid n))) = Ok f2"
    and f3: "encode_message pc (from_pairing (PM_Reveal pid (im_nonce mat))) = Ok f3"
    and f4: "encode_message pc (from_pairing (PM_Reveal pid n)) = Ok f4"
    and c: "bc_control (pb_connection p) = Some \<lparr>ch_send = w, ch_recv = \<lparr>rd_bytes = f2 @ f4 @ x, rd_end = e\<rparr>\<rparr>"
    and room: "length (f1 @ f3) \<le> wr_room w"
  shows "\<exists>pp. initiate_pairing pc blake3 now mat p = (Ok pp, wired (pb_connection p) (sent (sent w f1) f3) x e) \<and>
    pp_code pp = transcript_code blake3 \<lparr>pt_initiator = i, pt_responder = r, pt_pairing_id = pid,
      pt_initiator_nonce = im_nonce mat, pt_responder_nonce = n\<rparr> \<and> pp_pairing_id pp = pid \<and>
    tp_device_id (pp_peer pp) = r"
proof -
  let ?c = "pb_connection p"
  have peer: "tp_device_id (trusted_peer_from_hello (bc_peer_hello ?c)) = r"
    using ids(2) by (simp add: trusted_peer_from_hello_def bc_remote_device_id_def)
  have cap: "require_pairing_capability ?c = (Ok (), wired ?c w (f2 @ f4 @ x) e)"
    using assms(2) wired_self [OF c] by simp
  have s1: "send_or_close pc (PM_Request pid (commitment_derive blake3 Role_Initiator i r pid (im_nonce mat))) ph
      (wired ?c w bs e) = (Ok (), wired ?c (sent w f1) bs e)" for ph bs
    using send_wired [OF f1] room by simp
  have s2: "send_or_close pc (PM_Reveal pid (im_nonce mat)) ph (wired ?c (sent w f1) bs e) =
      (Ok (), wired ?c (sent (sent w f1) f3) bs e)" for ph bs
    using send_wired [OF f3, of "sent w f1"] room by simp
  note chain = st_bind_capability [OF cap] st_bind_send [OF s1] st_bind_send [OF s2] st_bind_or_close
    st_bind_receive [OF receive_wired [OF assms(1) f2]] st_bind_receive [OF receive_wired [OF assms(1) f4]]
  show ?thesis
    unfolding initiate_pairing_def Let_def peer ids(1) [symmetric] assms(5) [symmetric] chain machine_steps(1) prod.case
    by (simp add: chain machine_steps(3) machine_initiator_def st_bind_def or_close_def commitment_verifies_def
        pending_new_def peer)
qed

lemma respond_honest:
  assumes "postcard_ok pc" and "supports_pairing (pb_connection p)"
    and ids: "r = bc_local_device_id (pb_connection p)" "i = bc_remote_device_id (pb_connection p)"
    and f1: "encode_message pc (from_pairing (PM_Request pid (commitment_derive blake3 Role_Initiator i r pid n))) = Ok f1"
    and f2: "encode_message pc (from_pairing (PM_Response pid (commitment_derive blake3 Role_Responder i r pid (rm_nonce mat)))) = Ok f2"
    and f3: "encode_message pc (from_pairing (PM_Reveal pid n)) = Ok f3"
    and f4: "encode_message pc (from_pairing (PM_Reveal pid (rm_nonce mat))) = Ok f4"
    and c: "bc_control (pb_connection p) = Some \<lparr>ch_send = w, ch_recv = \<lparr>rd_bytes = f1 @ f3 @ x, rd_end = e\<rparr>\<rparr>"
    and room: "length (f2 @ f4) \<le> wr_room w"
  shows "\<exists>pp. respond_to_pairing pc blake3 now mat p = (Ok pp, wired (pb_connection p) (sent (sent w f2) f4) x e) \<and>
    pp_code pp = transcript_code blake3 \<lparr>pt_initiator = i, pt_responder = r, pt_pairing_id = pid,
      pt_initiator_nonce = n, pt_responder_nonce = rm_nonce mat\<rparr> \<and> pp_pairing_id pp = pid \<and>
    tp_device_id (pp_peer pp) = i"
proof -
  let ?c = "pb_connection p"
  have peer: "tp_device_id (trusted_peer_from_hello (bc_peer_hello ?c)) = i"
    using ids(2) by (simp add: trusted_peer_from_hello_def bc_remote_device_id_def)
  have cap: "require_pairing_capability ?c = (Ok (), wired ?c w (f1 @ f3 @ x) e)"
    using assms(2) wired_self [OF c] by simp
  have s1: "send_or_close pc (PM_Response pid (commitment_derive blake3 Role_Responder i r pid (rm_nonce mat))) ph
      (wired ?c w bs e) = (Ok (), wired ?c (sent w f2) bs e)" for ph bs
    using send_wired [OF f2] room by simp
  have s2: "send_or_close pc (PM_Reveal pid (rm_nonce mat)) ph (wired ?c (sent w f2) bs e) =
      (Ok (), wired ?c (sent (sent w f2) f4) bs e)" for ph bs
    using send_wired [OF f4, of "sent w f2"] room by simp
  note chain = st_bind_capability [OF cap] st_bind_send [OF s1] st_bind_send [OF s2] st_bind_or_close
    st_bind_receive [OF receive_wired [OF assms(1) f1]] st_bind_receive [OF receive_wired [OF assms(1) f3]]
  show ?thesis
    unfolding respond_to_pairing_def Let_def peer ids(1) [symmetric] chain machine_steps(2) prod.case
    by (simp add: machine_steps(3) st_bind_def or_close_def commitment_verifies_def pending_new_def peer)
qed

text \<open>A successful initiation read an opening of the responder's commitment.\<close>

lemma initiate_pairing_Ok:
  assumes "initiate_pairing pc blake3 now mat p = (Ok pp, c)"
  shows "\<exists>ctl r1 r2 commitment nonce. let pid = im_pairing_id mat; peer = bc_remote_device_id (pb_connection p);
        local = bc_local_device_id (pb_connection p) in
    bc_control (pb_connection p) = Some ctl \<and> supports_pairing (pb_connection p) \<and>
    read_message pc (ch_recv ctl) = (Ready (Ok (PairingResponse pid commitment)), r1) \<and>
    read_message pc r1 = (Ready (Ok (PairingReveal pid nonce)), r2) \<and>
    commitment_verifies blake3 commitment Role_Responder local peer pid nonce \<and>
    pp_code pp = transcript_code blake3 \<lparr>pt_initiator = local, pt_responder = peer, pt_pairing_id = pid,
      pt_initiator_nonce = im_nonce mat, pt_responder_nonce = nonce\<rparr> \<and>
    pp_peer pp = trusted_peer_from_hello (bc_peer_hello (pb_connection p)) \<and> pp_pairing_id pp = pid \<and>
    pp_trust_generation pp = pb_trust_generation p \<and> pp_deadline pp = now + pb_pairing_timeout p \<and>
    pp_connection pp = Some c \<and> pm_phase (pp_machine pp) = Phase_AwaitingLocalDecision"
proof -
  let ?c = "pb_connection p" and ?pid = "im_pairing_id mat"
  let ?m0 = "machine_initiator ?pid"
  from assms obtain c1 c2 c3 c4 response reveal commitment nonce where run:
    "supports_pairing ?c" "send_or_close pc (PM_Request ?pid (commitment_derive blake3 Role_Initiator
       (bc_local_device_id ?c) (bc_remote_device_id ?c) ?pid (im_nonce mat))) (pm_phase ?m0) ?c = (Ok (), c1)"
    "receive_or_close pc (pm_phase ?m0) c1 = (Ok response, c2)"
    "fst (receive_response response ?m0) = Ok commitment"
    "send_or_close pc (PM_Reveal ?pid (im_nonce mat)) (pm_phase (snd (receive_response response ?m0))) c2 = (Ok (), c3)"
    "receive_or_close pc (pm_phase (snd (receive_response response ?m0))) c3 = (Ok reveal, c4)"
    "fst (receive_reveal reveal (snd (receive_response response ?m0))) = Ok nonce"
    "commitment_verifies blake3 commitment Role_Responder (bc_local_device_id ?c) (bc_remote_device_id ?c) ?pid nonce"
    and pp: "pp = pending_new c4 (trusted_peer_from_hello (bc_peer_hello ?c)) ?pid
      (transcript_code blake3 \<lparr>pt_initiator = bc_local_device_id ?c, pt_responder = bc_remote_device_id ?c,
         pt_pairing_id = ?pid, pt_initiator_nonce = im_nonce mat, pt_responder_nonce = nonce\<rparr>)
      (snd (receive_reveal reveal (snd (receive_response response ?m0)))) (pb_pairing_timeout p) (pb_trust_generation p) now"
      "c = c4"
    by (auto simp: initiate_pairing_def Let_def st_bind_Ok case_prod_beta trusted_peer_from_hello_def
        bc_remote_device_id_def split: if_splits)
  define m1 where "m1 = snd (receive_response response ?m0)"
  define m2 where "m2 = snd (receive_reveal reveal m1)"
  have "receive_response response ?m0 = (Ok commitment, m1)"
    using run(4) by (simp add: m1_def prod_eq_iff)
  then have m1: "response = PM_Response ?pid commitment" "pm_pairing_id m1 = Some ?pid"
    by (auto simp: receive_response_Ok machine_initiator_def)
  have "receive_reveal reveal m1 = (Ok nonce, m2)"
    using run(7) by (simp add: m1_def m2_def prod_eq_iff)
  then have m2: "reveal = PM_Reveal ?pid nonce" "pm_phase m2 = Phase_AwaitingLocalDecision"
    using m1(2) by (auto simp: receive_reveal_Ok)
  from run(2,3) m1(1) obtain ctl w r1 where a: "bc_control ?c = Some ctl"
    "read_message pc (ch_recv ctl) = (Ready (Ok (PairingResponse ?pid commitment)), r1)"
    "bc_control c2 = Some (ctl\<lparr>ch_send := w, ch_recv := r1\<rparr>)"
    by (auto simp: send_or_close_Ok receive_or_close_Ok)
  from run(5,6) m2(1) a(3) obtain r2 where "read_message pc r1 = (Ready (Ok (PairingReveal ?pid nonce)), r2)"
    by (auto simp: send_or_close_Ok receive_or_close_Ok)
  with a(1,2) run(1,8) pp m2(2) [unfolded m2_def m1_def] show ?thesis
    unfolding Let_def by (intro exI conjI) (auto simp: pending_new_def)
qed

lemma respond_to_pairing_Ok:
  assumes "respond_to_pairing pc blake3 now mat p = (Ok pp, c)"
  shows "\<exists>ctl r1 r2 pid commitment nonce. let peer = bc_remote_device_id (pb_connection p);
        local = bc_local_device_id (pb_connection p) in
    bc_control (pb_connection p) = Some ctl \<and> supports_pairing (pb_connection p) \<and>
    read_message pc (ch_recv ctl) = (Ready (Ok (PairingRequest pid commitment)), r1) \<and>
    read_message pc r1 = (Ready (Ok (PairingReveal pid nonce)), r2) \<and>
    commitment_verifies blake3 commitment Role_Initiator peer local pid nonce \<and>
    pp_code pp = transcript_code blake3 \<lparr>pt_initiator = peer, pt_responder = local, pt_pairing_id = pid,
      pt_initiator_nonce = nonce, pt_responder_nonce = rm_nonce mat\<rparr> \<and>
    pp_peer pp = trusted_peer_from_hello (bc_peer_hello (pb_connection p)) \<and> pp_pairing_id pp = pid \<and>
    pp_trust_generation pp = pb_trust_generation p \<and> pp_deadline pp = now + pb_pairing_timeout p \<and>
    pp_connection pp = Some c \<and> pm_phase (pp_machine pp) = Phase_AwaitingLocalDecision"
proof -
  let ?c = "pb_connection p" and ?m0 = machine_responder
  from assms obtain c1 c2 c3 c4 request reveal pid commitment nonce where run:
    "supports_pairing ?c" "receive_or_close pc (pm_phase ?m0) ?c = (Ok request, c1)"
    "fst (receive_request request ?m0) = Ok (pid, commitment)"
    "send_or_close pc (PM_Response pid (commitment_derive blake3 Role_Responder (bc_remote_device_id ?c)
       (bc_local_device_id ?c) pid (rm_nonce mat))) (pm_phase (snd (receive_request request ?m0))) c1 = (Ok (), c2)"
    "send_or_close pc (PM_Reveal pid (rm_nonce mat)) (pm_phase (snd (receive_request request ?m0))) c2 = (Ok (), c3)"
    "receive_or_close pc (pm_phase (snd (receive_request request ?m0))) c3 = (Ok reveal, c4)"
    "fst (receive_reveal reveal (snd (receive_request request ?m0))) = Ok nonce"
    "commitment_verifies blake3 commitment Role_Initiator (bc_remote_device_id ?c) (bc_local_device_id ?c) pid nonce"
    and pp: "pp = pending_new c4 (trusted_peer_from_hello (bc_peer_hello ?c)) pid
      (transcript_code blake3 \<lparr>pt_initiator = bc_remote_device_id ?c, pt_responder = bc_local_device_id ?c,
         pt_pairing_id = pid, pt_initiator_nonce = nonce, pt_responder_nonce = rm_nonce mat\<rparr>)
      (snd (receive_reveal reveal (snd (receive_request request ?m0)))) (pb_pairing_timeout p) (pb_trust_generation p) now"
      "c = c4"
    by (auto simp: respond_to_pairing_def Let_def st_bind_Ok case_prod_beta trusted_peer_from_hello_def
        bc_remote_device_id_def split: if_splits)
  define m1 where "m1 = snd (receive_request request ?m0)"
  define m2 where "m2 = snd (receive_reveal reveal m1)"
  have "receive_request request ?m0 = (Ok (pid, commitment), m1)"
    using run(3) by (simp add: m1_def prod_eq_iff)
  then have m1: "request = PM_Request pid commitment" "pm_pairing_id m1 = Some pid"
    by (auto simp: receive_request_Ok)
  have "receive_reveal reveal m1 = (Ok nonce, m2)"
    using run(7) by (simp add: m1_def m2_def prod_eq_iff)
  then have m2: "reveal = PM_Reveal pid nonce" "pm_phase m2 = Phase_AwaitingLocalDecision"
    using m1(2) by (auto simp: receive_reveal_Ok)
  from run(2) m1(1) obtain ctl r1 where a: "bc_control ?c = Some ctl"
    "read_message pc (ch_recv ctl) = (Ready (Ok (PairingRequest pid commitment)), r1)"
    "bc_control c1 = Some (ctl\<lparr>ch_recv := r1\<rparr>)"
    by (auto simp: receive_or_close_Ok)
  from run(4,5,6) m2(1) a(3) obtain r2 where "read_message pc r1 = (Ready (Ok (PairingReveal pid nonce)), r2)"
    by (auto simp: send_or_close_Ok receive_or_close_Ok)
  with a(1,2) run(1,8) pp m2(2) [unfolded m2_def m1_def] show ?thesis
    unfolding Let_def by (intro exI conjI) (auto simp: pending_new_def)
qed

text \<open>The branches of a confirmation.\<close>

lemma confirm_elim:
  assumes "confirm pc tpc blake3 env now accepted pp store = (r, c, store')"
  obtains (finished) "pp_connection pp = None" "c = None" "store' = store" "\<exists>e. r = Err e"
  | (expired) c0 where "pp_connection pp = Some c0" "c = Some (bc_close c0)" "store' = store" "\<exists>e. r = Err e"
  | (undecided) c0 e c1 where "pp_connection pp = Some c0" "confirm_decide pc accepted pp c0 = (Err e, c1)"
      "r = Err e" "c = Some c1" "store' = store"
  | (untrusted) c0 m c1 e where "pp_connection pp = Some c0" "confirm_decide pc accepted pp c0 = (Ok m, c1)"
      "trust_if_generation blake3 tpc env (pp_peer pp) (pp_trust_generation pp) store = (Err e, store')"
      "r = Err (Pairing_Trust e)" "c = Some (bc_close c1)"
  | (incomplete) c0 m c1 e c2 where "pp_connection pp = Some c0" "confirm_decide pc accepted pp c0 = (Ok m, c1)"
      "trust_if_generation blake3 tpc env (pp_peer pp) (pp_trust_generation pp) store = (Ok (), store')"
      "confirm_complete pc pp m c1 = (Err e, c2)" "r = Err e" "c = Some c2"
  | (complete) c0 m c1 c2 where "now < pp_deadline pp" "pp_connection pp = Some c0"
      "confirm_decide pc accepted pp c0 = (Ok m, c1)"
      "trust_if_generation blake3 tpc env (pp_peer pp) (pp_trust_generation pp) store = (Ok (), store')"
      "confirm_complete pc pp m c1 = (Ok (), c2)" "c = Some c2"
      "r = Ok \<lparr>ac_trust_generation = pp_trust_generation pp, ac_connection = c2, ac_peer = pp_peer pp\<rparr>"
proof (cases "pp_connection pp")
  case None
  with assms that(1) show ?thesis by (auto simp: confirm_def)
next
  case conn: (Some c0)
  show ?thesis
  proof (cases "pp_deadline pp \<le> now")
    case True
    with assms conn that(2) show ?thesis by (auto simp: confirm_def)
  next
    case False
    obtain d c1 where decide: "confirm_decide pc accepted pp c0 = (d, c1)" by fastforce
    obtain t s1 where commit: "trust_if_generation blake3 tpc env (pp_peer pp) (pp_trust_generation pp) store = (t, s1)"
      by fastforce
    obtain f c2 where complete: "confirm_complete pc pp (projr d) c1 = (f, c2)" by fastforce
    from assms conn False decide commit complete that(3-6) show ?thesis
      by (cases d; cases t; cases f) (auto simp: confirm_def)
  qed
qed

text \<open>Intent operations keep the identity of the connection, and their failures end it.\<close>

lemma with_control_remote [simp]: "bc_peer_hello (snd (with_control wrap f c)) = bc_peer_hello c"
  by (simp add: with_control_def split: option.splits prod.splits sum.splits poll.splits)

lemma require_intent_remote [simp]: "bc_peer_hello (snd (require_intent_phase ph c)) = bc_peer_hello c"
  by (simp add: require_intent_phase_def)

lemma intent_remote:
  "bc_peer_hello (snd (request_intent pc p c)) = bc_peer_hello c"
  "bc_peer_hello (snd (receive_intent pc c)) = bc_peer_hello c"
  "bc_peer_hello (snd (send_intent_result pc b c)) = bc_peer_hello c"
  by (simp_all add: request_intent_def receive_intent_def send_intent_result_def write_intent_def read_intent_def
      case_prod_beta split: sum.splits control_message.splits)

lemma send_intent_result_Ok: "send_intent_result pc False c = (Ok u, d) \<Longrightarrow> bc_control d = None"
  by (auto simp: send_intent_result_def case_prod_beta split: sum.splits)

lemma admit_spec:
  assumes "admit timeout s3 s4 purpose g c = (r, c')"
  shows "case r of
      Ok (Admission_Authorized a) \<Rightarrow> purpose = AuthorizedSession \<and> c' = c \<and> ac_connection a = c \<and>
        entry s4 (bc_remote_device_id c) = Some (Entry_Trusted (ac_peer a)) \<and>
        current_generation s3 (bc_remote_device_id c) = g \<and> ac_trust_generation a = g
    | Ok (Admission_Pairable p) \<Rightarrow> purpose = Pairing \<and> c' = c \<and> pb_connection p = c \<and>
        entry s4 (bc_remote_device_id c) = None \<and>
        current_generation s3 (bc_remote_device_id c) = g \<and> pb_trust_generation p = g
    | Err e \<Rightarrow> bc_closed c'"
  using assms
  by (auto simp: admit_def Let_def split: if_splits option.splits trust_entry.splits connection_purpose.splits)

lemma session_frames:
  "encode_message session_codec (from_pairing (PM_Request example_pid (PairingCommitment (replicate 32 0)))) = Ok [0, 0, 0, 1, 0]"
  "encode_message session_codec (from_pairing (PM_Response example_pid (PairingCommitment (replicate 32 0)))) = Ok [0, 0, 0, 1, 1]"
  "encode_message session_codec (from_pairing (PM_Reveal example_pid (replicate 32 3))) = Ok [0, 0, 0, 1, 2]"
  "encode_message session_codec (from_pairing (PM_Reveal example_pid (replicate 32 4))) = Ok [0, 0, 0, 1, 3]"
  "encode_message session_codec (from_pairing (PM_Decision example_pid True)) = Ok [0, 0, 0, 1, 4]"
  "encode_message session_codec (from_pairing (PM_Complete example_pid)) = Ok [0, 0, 0, 1, 5]"
  "encode_message session_codec (ConnectionIntent Pairing) = Ok [0, 0, 0, 1, 6]"
  "encode_message session_codec (ConnectionIntentResult True) = Ok [0, 0, 0, 1, 7]"
  by (simp_all add: encode_message_def encode_frame_Ok session_codec_def example_messages_def table_codec_def
      be_encode_numeral MAX_CONTROL_FRAME_LEN_def replicate_eq_replicate)

lemma session_codec_ok [simp]: "postcard_ok session_codec" "postcard_ok session_trust_codec"
  by (simp_all add: session_codec_def session_trust_codec_def table_codec_ok)

lemma derive_zero [simp]: "commitment_derive zero_digest role i r pid n = PairingCommitment (replicate 32 0)"
  by (simp add: commitment_derive_def zero_digest_def)

lemma example_pairable_simps [simp]:
  "bc_local_device_id (pb_connection (example_pairable a b bs)) = a"
  "bc_remote_device_id (pb_connection (example_pairable a b bs)) = b"
  "supports_pairing (pb_connection (example_pairable a b bs))"
  "bc_control (pb_connection (example_pairable a b bs)) =
     Some \<lparr>ch_send = open_writer, ch_recv = \<lparr>rd_bytes = bs, rd_end = Stalls\<rparr>\<rparr>"
  by (simp_all add: example_pairable_def example_conn_def bc_remote_device_id_def example_hello_def supports_pairing_def)

lemma confirm_decide_honest:
  assumes "postcard_ok pc" and "encode_message pc (from_pairing (PM_Decision (pp_pairing_id pp) True)) = Ok f"
    and "length f \<le> wr_room w" and "pm_phase (pp_machine pp) = Phase_AwaitingLocalDecision"
    and "pm_pairing_id (pp_machine pp) = Some (pp_pairing_id pp)"
    and "pm_local_accepted (pp_machine pp) = None" and "pm_remote_accepted (pp_machine pp) = None"
  shows "confirm_decide pc True pp (wired c w (f @ x) e) =
    (Ok ((pp_machine pp)\<lparr>pm_local_accepted := Some True, pm_remote_accepted := Some True,
       pm_phase := Phase_CommittingTrust\<rparr>), wired c (sent w f) x e)"
proof -
  have l: "local_decision True (pp_machine pp) = (Ok (),
      (pp_machine pp)\<lparr>pm_local_accepted := Some True, pm_phase := Phase_AwaitingRemoteDecision\<rparr>)"
    using assms(4,6) by (simp add: local_decision_Ok)
  have r: "remote_decision (PM_Decision (pp_pairing_id pp) True)
      ((pp_machine pp)\<lparr>pm_local_accepted := Some True, pm_phase := Phase_AwaitingRemoteDecision\<rparr>) =
      (Ok True, (pp_machine pp)\<lparr>pm_local_accepted := Some True, pm_remote_accepted := Some True,
       pm_phase := Phase_CommittingTrust\<rparr>)"
    using assms(5,7) by (simp add: remote_decision_Ok)
  show ?thesis
    unfolding confirm_decide_def l prod.case st_bind_or_close st_bind_send [OF send_wired [OF assms(2,3)]]
      st_bind_receive [OF receive_wired [OF assms(1,2)]] r
    by simp
qed

lemma confirm_complete_honest:
  assumes "postcard_ok pc" and "encode_message pc (from_pairing (PM_Complete (pp_pairing_id pp))) = Ok f"
    and "length f \<le> wr_room w" and "pm_phase m = Phase_CommittingTrust"
    and "pm_pairing_id m = Some (pp_pairing_id pp)"
  shows "confirm_complete pc pp m (wired c w (f @ x) e) = (Ok (), wired c (sent w f) x e)"
proof -
  have t: "trust_committed m = (Ok (), m\<lparr>pm_phase := Phase_AwaitingCompletion\<rparr>)"
    using assms(4) by (simp add: trust_committed_Ok)
  have r: "remote_completion (PM_Complete (pp_pairing_id pp)) (m\<lparr>pm_phase := Phase_AwaitingCompletion\<rparr>) =
      (Ok (), m\<lparr>pm_phase := Phase_Complete\<rparr>)"
    using assms(5) by (simp add: remote_completion_Ok)
  show ?thesis
    unfolding confirm_complete_def t prod.case st_bind_or_close st_bind_send [OF send_wired [OF assms(2,3)]]
      st_bind_receive [OF receive_wired [OF assms(1,2)]] r
    by simp
qed

lemma example_pending_simps [simp]:
  "pp_deadline example_pending = 60" "pp_peer example_pending = bob_peer" "pp_trust_generation example_pending = 0"
  "pp_pairing_id example_pending = example_pid" "pm_pairing_id (pp_machine example_pending) = Some example_pid"
  "pm_phase (pp_machine example_pending) = Phase_AwaitingLocalDecision"
  "pm_local_accepted (pp_machine example_pending) = None" "pm_remote_accepted (pp_machine example_pending) = None"
  by (simp_all add: example_pending_def pending_new_def machine_initiator_def)

lemma bob_peer_simps [simp]: "tp_device_id bob_peer = bob_id" "validate_peer bob_peer = Ok ()"
  by (simp_all add: bob_peer_def trusted_peer_from_hello_def example_hello_def validate_peer_def
      MAX_DEVICE_NAME_LEN_def MAX_PLATFORM_LEN_def)

lemma example_trust:
  "\<exists>s. trust_if_generation zero_digest session_trust_codec quiet_env bob_peer 0 empty_store = (Ok (), s)"
proof -
  have prep: "prepare_record zero_digest session_trust_codec (Trust bob_peer) = Ok ([0, 0, 0, 1, 0] @ replicate 32 0)"
    by (simp add: prepare_record_Ok session_trust_codec_def table_codec_def zero_digest_def be_encode_numeral
        MAX_RECORD_LEN_def)
  show ?thesis
    by (simp add: trust_if_generation_def commit_quiet [OF prep, where next_len = 47] commit_guard_Ok
        empty_store_def from_parts_def current_generation_def MAX_RECORDS_def MAX_STORE_SIZE_def HEADER_LEN_def)
qed

lemma example_confirm:
  "\<exists>ac c s. confirm session_codec session_trust_codec zero_digest quiet_env 0 True example_pending empty_store =
     (Ok ac, c, s)"
proof -
  let ?c = "example_conn ([0, 0, 0, 1, 4] @ [0, 0, 0, 1, 5] @ [])"
  have c: "pp_connection example_pending = Some (wired ?c open_writer ([0, 0, 0, 1, 4] @ [0, 0, 0, 1, 5] @ []) Stalls)"
    by (simp add: wired_def example_conn_def example_pending_def pending_new_def)
  have decide: "\<exists>m. confirm_decide session_codec True example_pending
      (wired ?c open_writer ([0, 0, 0, 1, 4] @ [0, 0, 0, 1, 5] @ []) Stalls) =
      (Ok m, wired ?c (sent open_writer [0, 0, 0, 1, 4]) ([0, 0, 0, 1, 5] @ []) Stalls) \<and>
      pm_phase m = Phase_CommittingTrust \<and> pm_pairing_id m = Some example_pid"
    by (subst confirm_decide_honest) (simp_all add: session_frames(5) [simplified] open_writer_def)
  then obtain m where m: "confirm_decide session_codec True example_pending
      (wired ?c open_writer ([0, 0, 0, 1, 4] @ [0, 0, 0, 1, 5] @ []) Stalls) =
      (Ok m, wired ?c (sent open_writer [0, 0, 0, 1, 4]) ([0, 0, 0, 1, 5] @ []) Stalls)"
      "pm_phase m = Phase_CommittingTrust" "pm_pairing_id m = Some example_pid" by blast
  have complete: "confirm_complete session_codec example_pending m
      (wired ?c (sent open_writer [0, 0, 0, 1, 4]) ([0, 0, 0, 1, 5] @ []) Stalls) =
      (Ok (), wired ?c (sent (sent open_writer [0, 0, 0, 1, 4]) [0, 0, 0, 1, 5]) [] Stalls)"
    by (rule confirm_complete_honest) (use m(2,3) in \<open>simp_all add: session_frames(6) [simplified] open_writer_def\<close>)
  from example_trust obtain s where
    "trust_if_generation zero_digest session_trust_codec quiet_env bob_peer 0 empty_store = (Ok (), s)" by blast
  with m(1) complete c show ?thesis unfolding confirm_def by simp
qed

text \<open>What either side of an admission rests on.\<close>

lemma admission_spec:
  assumes "prepare_outbound pc timeout s1 s2 s3 s4 purpose c = (r, c') \<or>
      accept_inbound pc timeout s1 s2 s3 s4 c = (r, c')"
    and "d = bc_remote_device_id c"
  shows "case r of
      Ok (Admission_Authorized a) \<Rightarrow> (\<exists>p. entry s2 d = Some (Entry_Trusted p)) \<and>
        entry s4 d = Some (Entry_Trusted (ac_peer a)) \<and> current_generation s3 d = current_generation s1 d \<and>
        ac_trust_generation a = current_generation s1 d \<and> bc_remote_device_id (ac_connection a) = d
    | Ok (Admission_Pairable p) \<Rightarrow> entry s2 d = None \<and> entry s4 d = None \<and>
        current_generation s3 d = current_generation s1 d \<and>
        pb_trust_generation p = current_generation s1 d \<and> bc_remote_device_id (pb_connection p) = d
    | Err e \<Rightarrow> bc_closed c' \<or> bc_control c' = None"
  using assms(1)
proof
  assume out: "prepare_outbound pc timeout s1 s2 s3 s4 purpose c = (r, c')"
  obtain q c1 where q: "request_intent pc purpose c = (q, c1)" by fastforce
  have id: "bc_remote_device_id c1 = d" "bc_remote_device_id c = d"
    using intent_remote(1) [of pc purpose c] q assms(2) by (simp_all add: bc_remote_device_id_def)
  show ?thesis
  proof (cases "purpose_allowed (entry s2 d) purpose")
    case False
    with out id show ?thesis by (auto simp: prepare_outbound_def)
  next
    case allowed: True
    show ?thesis
    proof (cases q)
      case (Inl e)
      with out q id allowed request_intent_Err [of pc purpose c] show ?thesis by (auto simp: prepare_outbound_def)
    next
      case (Inr u)
      then have "admit timeout s3 s4 purpose (current_generation s1 d) c1 = (r, c')"
        using out q id allowed by (simp add: prepare_outbound_def)
      from admit_spec [OF this] allowed id(1) show ?thesis
        by (auto simp: purpose_allowed_def split: sum.splits session_admission.splits option.splits trust_entry.splits
            connection_purpose.splits)
    qed
  qed
next
  assume inb: "accept_inbound pc timeout s1 s2 s3 s4 c = (r, c')"
  obtain q c1 where q: "receive_intent pc c = (q, c1)" by fastforce
  define b where "b = purpose_allowed (entry s2 d) (projr q)"
  obtain t c2 where t: "send_intent_result pc b c1 = (t, c2)" by fastforce
  have "bc_remote_device_id c2 = d"
    using intent_remote(2) [of pc c] intent_remote(3) [of pc b c1] q t assms(2)
    by (simp add: bc_remote_device_id_def)
  note id = this assms(2) [symmetric]
  show ?thesis
  proof (cases q)
    case (Inl e)
    with inb q id receive_intent_Err [of pc c] show ?thesis by (auto simp: accept_inbound_def)
  next
    case q_ok: (Inr purpose')
    show ?thesis
    proof (cases t)
      case (Inl e)
      with inb q q_ok t id send_intent_result_Err [of pc b c1] show ?thesis by (auto simp: accept_inbound_def b_def)
    next
      case t_ok: (Inr u)
      show ?thesis
      proof (cases b)
        case False
        with inb q q_ok t t_ok id send_intent_result_Ok [of pc c1] show ?thesis by (auto simp: accept_inbound_def b_def)
      next
        case True
        then have allowed: "purpose_allowed (entry s2 d) purpose'" using q_ok by (simp add: b_def)
        have "admit timeout s3 s4 purpose' (current_generation s1 d) c2 = (r, c')"
          using inb q q_ok t t_ok id True by (simp add: accept_inbound_def b_def)
        from admit_spec [OF this] allowed id(1) show ?thesis
          by (auto simp: purpose_allowed_def split: sum.splits session_admission.splits option.splits trust_entry.splits
              connection_purpose.splits)
      qed
    qed
  qed
qed

lemma confirm_Ok:
  assumes "confirm pc tpc blake3 env now accepted pp store = (Ok ac, c, store')"
    and "pm_pairing_id (pp_machine pp) = Some pid" and "d = tp_device_id (pp_peer pp)"
  shows "accepted \<and> now < pp_deadline pp \<and> pm_phase (pp_machine pp) = Phase_AwaitingLocalDecision \<and>
    (\<exists>c0 ctl r r'. pp_connection pp = Some c0 \<and> bc_control c0 = Some ctl \<and>
       read_message pc (ch_recv ctl) = (Ready (Ok (PairingDecision pid True)), r) \<and>
       read_message pc r = (Ready (Ok (PairingComplete pid)), r')) \<and>
    entry store' d = Some (Entry_Trusted (pp_peer pp)) \<and> ac_peer ac = pp_peer pp \<and>
    current_generation store d = pp_trust_generation pp \<and>
    bt_get (ts_decisions store) d \<noteq> Some Decision_Revoked"
  using assms(1)
proof (cases rule: confirm_elim)
  case (complete c0 m c1 c2)
  from confirm_decide_Ok [OF complete(3)] assms(2) obtain ctl r ctl' where run: "bc_control c0 = Some ctl"
    "read_message pc (ch_recv ctl) = (Ready (Ok (PairingDecision pid True)), r)"
    "bc_control c1 = Some ctl'" "ch_recv ctl' = r" "accepted" "pm_phase (pp_machine pp) = Phase_AwaitingLocalDecision"
    "pm_pairing_id m = Some pid"
    by auto
  with confirm_complete_Ok [OF complete(5)] obtain r' where
    "read_message pc r = (Ready (Ok (PairingComplete pid)), r')" by auto
  with run complete(1,2,7) assms(3) show ?thesis
    using trust_if_generation_Ok [OF complete(4)] by auto
qed auto

section \<open>Properties\<close>

text \<open>
  C22: honest pairing runs agree. When each side's stream delivers the messages the other side sends,
  both the initiator and the responder reach the local decision with the same six-digit code and
  pairing id, hold the other's identity as the peer, and send exactly the messages the other reads.
\<close>

theorem honest_pairing_agrees:
  assumes "postcard_ok pc"
    and "i = bc_local_device_id (pb_connection pi)" and "bc_remote_device_id (pb_connection pr) = i"
    and "r = bc_local_device_id (pb_connection pr)" and "bc_remote_device_id (pb_connection pi) = r"
    and "supports_pairing (pb_connection pi)" and "supports_pairing (pb_connection pr)"
    and "pid = im_pairing_id mi"
    and "map (encode_message pc \<circ> from_pairing)
      [PM_Request pid (commitment_derive blake3 Role_Initiator i r pid (im_nonce mi)),
       PM_Response pid (commitment_derive blake3 Role_Responder i r pid (rm_nonce mr)),
       PM_Reveal pid (im_nonce mi), PM_Reveal pid (rm_nonce mr)] = map Ok [f1, f2, f3, f4]"
    and "bc_control (pb_connection pi) = Some \<lparr>ch_send = wi, ch_recv = \<lparr>rd_bytes = f2 @ f4 @ x, rd_end = e\<rparr>\<rparr>"
    and "bc_control (pb_connection pr) = Some \<lparr>ch_send = wr, ch_recv = \<lparr>rd_bytes = f1 @ f3 @ y, rd_end = e'\<rparr>\<rparr>"
    and "length (f1 @ f3) \<le> wr_room wi" and "length (f2 @ f4) \<le> wr_room wr"
  shows "\<exists>ppi ppr ci cr si sr. initiate_pairing pc blake3 now mi pi = (Ok ppi, ci) \<and>
    respond_to_pairing pc blake3 now' mr pr = (Ok ppr, cr) \<and>
    pp_code ppi = pp_code ppr \<and> pp_pairing_id ppi = pid \<and> pp_pairing_id ppr = pid \<and>
    tp_device_id (pp_peer ppi) = r \<and> tp_device_id (pp_peer ppr) = i \<and>
    map_option ch_send (bc_control ci) = Some si \<and> wr_bytes si = wr_bytes wi @ f1 @ f3 \<and>
    map_option ch_send (bc_control cr) = Some sr \<and> wr_bytes sr = wr_bytes wr @ f2 @ f4"
proof -
  have frames: "encode_message pc (from_pairing (PM_Request pid (commitment_derive blake3 Role_Initiator i r pid (im_nonce mi)))) = Ok f1"
    "encode_message pc (from_pairing (PM_Response pid (commitment_derive blake3 Role_Responder i r pid (rm_nonce mr)))) = Ok f2"
    "encode_message pc (from_pairing (PM_Reveal pid (im_nonce mi))) = Ok f3"
    "encode_message pc (from_pairing (PM_Reveal pid (rm_nonce mr))) = Ok f4"
    using assms(9) by simp_all
  from initiate_honest [OF assms(1,6,2) assms(5) [symmetric] assms(8) frames assms(10,12), of now]
    respond_honest [OF assms(1,7,4) assms(3) [symmetric] frames assms(11,13), of now']
  show ?thesis by auto
qed

theorem honest_pairing_agrees_witness:
  "\<exists>ppi ppr ci cr.
     initiate_pairing session_codec zero_digest 0 \<lparr>im_pairing_id = example_pid, im_nonce = replicate 32 3\<rparr>
       (example_pairable alice_id bob_id ([0, 0, 0, 1, 1] @ [0, 0, 0, 1, 3] @ [])) = (Ok ppi, ci) \<and>
     respond_to_pairing session_codec zero_digest 0 \<lparr>rm_nonce = replicate 32 4\<rparr>
       (example_pairable bob_id alice_id ([0, 0, 0, 1, 0] @ [0, 0, 0, 1, 2] @ [])) = (Ok ppr, cr) \<and>
     pp_code ppi = pp_code ppr"
proof -
  let ?mi = "\<lparr>im_pairing_id = example_pid, im_nonce = replicate 32 3\<rparr> :: initiator_material"
  let ?mr = "\<lparr>rm_nonce = replicate 32 4\<rparr> :: responder_material"
  let ?pi = "example_pairable alice_id bob_id ([0, 0, 0, 1, 1] @ [0, 0, 0, 1, 3] @ [])"
  let ?pr = "example_pairable bob_id alice_id ([0, 0, 0, 1, 0] @ [0, 0, 0, 1, 2] @ [])"
  note run = honest_pairing_agrees [where pc = session_codec and i = alice_id and r = bob_id and pi = ?pi and pr = ?pr
      and pid = example_pid and mi = ?mi and mr = ?mr and ?blake3.0 = zero_digest and ?f1.0 = "[0, 0, 0, 1, 0]"
      and ?f2.0 = "[0, 0, 0, 1, 1]" and ?f3.0 = "[0, 0, 0, 1, 2]" and ?f4.0 = "[0, 0, 0, 1, 3]"
      and wi = open_writer and wr = open_writer and x = "[]" and y = "[]" and e = Stalls and e' = Stalls
      and now = 0 and now' = 0]
  have "map (encode_message session_codec \<circ> from_pairing)
      [PM_Request example_pid (commitment_derive zero_digest Role_Initiator alice_id bob_id example_pid (im_nonce ?mi)),
       PM_Response example_pid (commitment_derive zero_digest Role_Responder alice_id bob_id example_pid (rm_nonce ?mr)),
       PM_Reveal example_pid (im_nonce ?mi), PM_Reveal example_pid (rm_nonce ?mr)] =
      map Ok [[0, 0, 0, 1, 0], [0, 0, 0, 1, 1], [0, 0, 0, 1, 2], [0, 0, 0, 1, 3]]"
    using session_frames by simp
  from run [OF _ _ _ _ _ _ _ _ this] show ?thesis
    by (simp add: open_writer_def) blast
qed

text \<open>
  A pairing never completes without agreement. Whatever sequence of messages and decisions the
  pairing machine sees, it ends in the complete phase only if, in that sequence, the local user
  accepted, the peer's acceptance and completion of this pairing id were received, and the trust
  decision was committed; a finished machine rejects every further event unchanged.
\<close>

theorem pairing_completes_by_agreement:
  assumes "machine_initial m" and "run_ops machine_exec evs m = (rs, m')" and "pm_phase m' = Phase_Complete"
  shows "\<exists>pid. pm_pairing_id m' = Some pid \<and>
    {(Ev_Local True, Ok ()), (Ev_Remote (PM_Decision pid True), Ok ()), (Ev_Committed, Ok ()),
     (Ev_Completion (PM_Complete pid), Ok ())} \<subseteq> set (zip evs rs) \<and>
    (\<forall>ev. ev \<noteq> Ev_Fail \<longrightarrow> (\<exists>e. machine_exec ev m' = (Err e, m')))"
proof -
  have "machine_inv m" by (rule pairing_states.inv_initial [OF assms(1)])
  moreover have "machine_history {} m"
    using assms(1) by (auto simp: machine_initial_def machine_history_def machine_responder_def machine_initiator_def)
  ultimately have "machine_inv m'" and "machine_history (set (zip evs rs)) m'"
    using machine_run_history [OF _ _ assms(2)] by fastforce+
  with assms(3) show ?thesis
    using machine_terminal [of m'] by (auto simp: machine_inv_def machine_history_def Let_def phase_terminal_def)
qed

theorem pairing_completes_by_agreement_witness:
  "let evs = [Ev_Response (PM_Response [1] (PairingCommitment [])), Ev_Reveal (PM_Reveal [1] [2]), Ev_Local True,
              Ev_Remote (PM_Decision [1] True), Ev_Committed, Ev_Completion (PM_Complete [1])] in
   \<exists>m'. run_ops machine_exec evs (machine_initiator [1]) = (replicate 6 (Ok ()), m') \<and>
     pm_phase m' = Phase_Complete \<and> (\<exists>e. machine_exec (Ev_Local False) m' = (Err e, m'))"
proof -
  let ?evs = "[Ev_Response (PM_Response [1] (PairingCommitment [])), Ev_Reveal (PM_Reveal [1] [2]), Ev_Local True,
              Ev_Remote (PM_Decision [1] True), Ev_Committed, Ev_Completion (PM_Complete [1])]"
  let ?m = "\<lparr>pm_role = PRole_Initiator, pm_phase = Phase_Complete, pm_pairing_id = Some [1],
       pm_local_accepted = Some True, pm_remote_accepted = Some True\<rparr> :: pairing_machine"
  have run: "run_ops machine_exec ?evs (machine_initiator [1]) = (replicate 6 (Ok ()), ?m)"
    by code_simp
  have "machine_initial (machine_initiator [1])" by (auto simp: machine_initial_def)
  moreover have "pm_phase ?m = Phase_Complete" "Ev_Local False \<noteq> Ev_Fail" by simp_all
  ultimately have "\<exists>e. machine_exec (Ev_Local False) ?m = (Err e, ?m)"
    using pairing_completes_by_agreement [OF _ run] by blast
  with run show ?thesis unfolding Let_def by (intro exI [of _ ?m] conjI) simp_all
qed

text \<open>
  C6: trust is committed only for the pairing both users confirmed. A confirmation that succeeds was
  accepted locally before its deadline, read the peer's acceptance and then its completion of the same
  pairing id, and leaves the peer durably trusted; the peer's trust generation had not moved since the
  connection was admitted and the peer was not revoked.
\<close>

theorem confirm_commits_agreed_peer:
  assumes "confirm pc tpc blake3 env now accepted pp store = (Ok ac, c, store')"
    and "pm_pairing_id (pp_machine pp) = Some pid" and "d = tp_device_id (pp_peer pp)"
  shows "accepted \<and> now < pp_deadline pp \<and> pm_phase (pp_machine pp) = Phase_AwaitingLocalDecision \<and>
    (\<exists>c0 ctl r r'. pp_connection pp = Some c0 \<and> bc_control c0 = Some ctl \<and>
       read_message pc (ch_recv ctl) = (Ready (Ok (PairingDecision pid True)), r) \<and>
       read_message pc r = (Ready (Ok (PairingComplete pid)), r')) \<and>
    entry store' d = Some (Entry_Trusted (pp_peer pp)) \<and> ac_peer ac = pp_peer pp \<and>
    current_generation store d = pp_trust_generation pp \<and>
    bt_get (ts_decisions store) d \<noteq> Some Decision_Revoked"
  by (rule confirm_Ok [OF assms])

theorem confirm_commits_agreed_peer_witness:
  "\<exists>ac c s. confirm session_codec session_trust_codec zero_digest quiet_env 0 True example_pending empty_store =
     (Ok ac, c, s) \<and> entry s bob_id = Some (Entry_Trusted bob_peer)"
proof -
  obtain ac c s where run: "confirm session_codec session_trust_codec zero_digest quiet_env 0 True example_pending
      empty_store = (Ok ac, c, s)" using example_confirm by blast
  have "entry s bob_id = Some (Entry_Trusted bob_peer)"
    using confirm_commits_agreed_peer [OF run, of example_pid bob_id] by simp
  with run show ?thesis by blast
qed

text \<open>
  A confirmation that fails closes its connection and decides nothing it should not. Other peers'
  trust is untouched; the store is exactly as before unless the local user accepted; and the peer's own
  entry changes only after the peer's acceptance of this pairing id was read.
\<close>

theorem confirm_failure_closes:
  assumes "confirm pc tpc blake3 env now accepted pp store = (Err e, c, store')"
    and "pm_pairing_id (pp_machine pp) = Some pid"
  shows "(case c of None \<Rightarrow> pp_connection pp = None | Some c' \<Rightarrow> bc_closed c') \<and>
    (\<forall>d. d \<noteq> tp_device_id (pp_peer pp) \<longrightarrow> entry store' d = entry store d) \<and>
    (\<not> accepted \<longrightarrow> store' = store) \<and>
    (entry store' (tp_device_id (pp_peer pp)) \<noteq> entry store (tp_device_id (pp_peer pp)) \<longrightarrow>
       (\<exists>c0 ctl r. pp_connection pp = Some c0 \<and> bc_control c0 = Some ctl \<and>
          read_message pc (ch_recv ctl) = (Ready (Ok (PairingDecision pid True)), r)))"
  using assms(1)
proof (cases rule: confirm_elim)
  case (undecided c0 e' c1)
  then show ?thesis using confirm_decide_Err by auto
next
  case (untrusted c0 m c1 e')
  then show ?thesis using confirm_decide_Ok [OF untrusted(2)] trust_if_generation_Err_entry [OF untrusted(3)] by auto
next
  case (incomplete c0 m c1 e' c2)
  then show ?thesis
    using confirm_decide_Ok [OF incomplete(2)] trust_if_generation_Ok(5) [OF incomplete(3)] confirm_complete_Err assms(2)
    by auto
qed auto

theorem confirm_failure_closes_witness:
  "\<exists>c. confirm session_codec session_trust_codec zero_digest quiet_env 60 True example_pending empty_store =
     (Err (Pairing_Timeout Phase_AwaitingLocalDecision), Some c, empty_store) \<and> bc_closed c"
proof -
  obtain c where run: "confirm session_codec session_trust_codec zero_digest quiet_env 60 True example_pending empty_store =
     (Err (Pairing_Timeout Phase_AwaitingLocalDecision), Some c, empty_store)"
    by (simp add: confirm_def) (simp add: example_pending_def pending_new_def)
  from confirm_failure_closes [OF run, of example_pid] run show ?thesis by simp
qed

text \<open>
  C8: the admission policy. A connection is admitted to an authorized session only for a peer that was
  trusted both when the purpose was judged and at the final admission, to pairing only for a peer with
  no decision at both points, and in either case only if the peer's trust generation did not change in
  between; a refused connection is closed or has lost its control stream. Revoked peers are never admitted.
\<close>

theorem admission_policy:
  assumes "prepare_outbound pc timeout s1 s2 s3 s4 purpose c = (r, c') \<or>
      accept_inbound pc timeout s1 s2 s3 s4 c = (r, c')"
    and "d = bc_remote_device_id c"
  shows "case r of
      Ok (Admission_Authorized a) \<Rightarrow> (\<exists>p. entry s2 d = Some (Entry_Trusted p)) \<and>
        entry s4 d = Some (Entry_Trusted (ac_peer a)) \<and> current_generation s3 d = current_generation s1 d \<and>
        ac_trust_generation a = current_generation s1 d \<and> bc_remote_device_id (ac_connection a) = d
    | Ok (Admission_Pairable p) \<Rightarrow> entry s2 d = None \<and> entry s4 d = None \<and>
        current_generation s3 d = current_generation s1 d \<and>
        pb_trust_generation p = current_generation s1 d \<and> bc_remote_device_id (pb_connection p) = d
    | Err e \<Rightarrow> bc_closed c' \<or> bc_control c' = None"
  by (rule admission_spec [OF assms])

theorem admission_policy_witness:
  "\<exists>p c'. accept_inbound session_codec 60 empty_store empty_store empty_store empty_store
       (example_conn ([0, 0, 0, 1, 6] @ [])) = (Ok (Admission_Pairable p), c') \<and>
     entry empty_store (bc_remote_device_id (pb_connection p)) = None"
proof -
  let ?c = "example_conn ([0, 0, 0, 1, 6] @ [])"
  have id: "bc_remote_device_id c = bob_id" if "bc_peer_hello c = bc_peer_hello ?c" for c
    using that by (simp add: bc_remote_device_id_def example_conn_def example_hello_def)
  have f: "encode_frame session_codec (ConnectionIntent Pairing) = Ok [0, 0, 0, 1, 6]"
    "encode_frame session_codec (ConnectionIntentResult True) = Ok [0, 0, 0, 1, 7]"
    using session_frames(7,8) by (simp_all add: encode_message_def)
  have none: "entry empty_store bob_id = None" by (simp add: entry_def empty_store_def from_parts_def)
  have "\<exists>c1. receive_intent session_codec ?c = (Ok Pairing, c1) \<and>
      (\<exists>c2. send_intent_result session_codec True c1 = (Ok (), c2))"
    using with_control_read [OF session_codec_ok(1) f(1), of "?c\<lparr>bc_intent_phase := AwaitingDecision\<rparr>" open_writer "[]" Stalls]
      with_control_write [OF f(2), of open_writer]
    by (simp add: receive_intent_def send_intent_result_def require_intent_phase_def read_intent_def write_intent_def
        example_conn_def open_writer_def)
  then obtain c1 c2 where run: "receive_intent session_codec ?c = (Ok Pairing, c1)"
    "send_intent_result session_codec True c1 = (Ok (), c2)" by blast
  have "bc_remote_device_id c2 = bob_id"
    using intent_remote(2) [of session_codec ?c] intent_remote(3) [of session_codec True c1] run id by simp
  with run none id [OF refl] obtain p c' where acc:
    "accept_inbound session_codec 60 empty_store empty_store empty_store empty_store ?c = (Ok (Admission_Pairable p), c')"
    by (simp add: accept_inbound_def purpose_allowed_def admit_def)
  from admission_policy [OF disjI2, OF acc refl] none id [OF refl] acc show ?thesis by auto
qed

text \<open>
  Forgetting a peer cancels its pending pairing. If the peer is forgotten, in any sequence of store
  operations after the generation of a pending pairing was recorded, then the confirmation of that
  pairing fails and commits nothing, whatever the users decide and the peer sends.
\<close>

theorem forget_cancels_pairing:
  assumes "run_ops (trust_exec blake3 tpc) ops s = (rs, t)" and "d = tp_device_id (pp_peer pp)"
    and "(Op_Forget env d, Ok ()) \<in> set (zip ops rs)"
    and "pp_trust_generation pp = current_generation s d" and "unat (current_generation s d) < 2 ^ 64 - 1"
    and "confirm pc tpc blake3 env' now accepted pp t = (r, c, t')"
  shows "(\<exists>e. r = Err e) \<and> (\<forall>x. entry t' x = entry t x)"
proof -
  have moved: "current_generation t d \<noteq> pp_trust_generation pp"
    using trust_fence.run_fence [OF assms(1,3) _ assms(5)] assms(4) by simp
  show ?thesis
    using assms(6)
  proof (cases rule: confirm_elim)
    case (untrusted c0 m c1 e)
    then show ?thesis using trust_if_generation_Err_entry [OF untrusted(3)] by auto
  next
    case (incomplete c0 m c1 e c2)
    then show ?thesis using trust_if_generation_Ok(2) [OF incomplete(3)] moved assms(2) by auto
  next
    case (complete c0 m c1 c2)
    then show ?thesis using trust_if_generation_Ok(2) [OF complete(4)] moved assms(2) by auto
  qed auto
qed

theorem forget_cancels_pairing_witness:
  "\<exists>t. run_ops (trust_exec zero_digest session_trust_codec) [Op_Forget quiet_env bob_id] empty_store = ([Ok ()], t) \<and>
     (\<exists>e. fst (confirm session_codec session_trust_codec zero_digest quiet_env 0 True example_pending t) = Err e)"
proof -
  have prep: "prepare_record zero_digest session_trust_codec (Forget bob_id) = Ok ([0, 0, 0, 1, 1] @ replicate 32 0)"
    by (simp add: prepare_record_Ok session_trust_codec_def table_codec_def zero_digest_def be_encode_numeral
        MAX_RECORD_LEN_def)
  have "commit_guard empty_store (Forget bob_id) None ([0, 0, 0, 1, 1] @ replicate 32 0) = Ok 47"
    by (simp add: commit_guard_Ok empty_store_def from_parts_def MAX_RECORDS_def MAX_STORE_SIZE_def HEADER_LEN_def)
  then obtain t where run: "run_ops (trust_exec zero_digest session_trust_codec) [Op_Forget quiet_env bob_id]
      empty_store = ([Ok ()], t)"
    by (simp add: forget_def commit_quiet [OF prep])
  obtain r c t' where "confirm session_codec session_trust_codec zero_digest quiet_env 0 True example_pending t = (r, c, t')"
    by (metis prod_cases3)
  moreover from forget_cancels_pairing [OF run, of bob_id example_pending quiet_env, OF _ _ _ _ this]
  have "\<exists>e. r = Err e" by (simp add: current_generation_def empty_store_def from_parts_def)
  ultimately show ?thesis using run by simp
qed

text \<open>
  C23: a pending pairing rests on an opened commitment. If either role reaches the local decision, the
  peer's commitment was read before its nonce and the nonce opens it for the authenticated identities and
  this pairing id, and the displayed code is the code of exactly that transcript; if either role fails,
  its connection is closed.
\<close>

theorem pairing_exchange_sound:
  "(case initiate_pairing pc blake3 now mi p of
      (Err e, c) \<Rightarrow> bc_closed c
    | (Ok pp, c) \<Rightarrow> \<exists>ctl r1 r2 commitment nonce.
        let pid = im_pairing_id mi; peer = bc_remote_device_id (pb_connection p);
          local = bc_local_device_id (pb_connection p) in
        bc_control (pb_connection p) = Some ctl \<and> supports_pairing (pb_connection p) \<and>
        read_message pc (ch_recv ctl) = (Ready (Ok (PairingResponse pid commitment)), r1) \<and>
        read_message pc r1 = (Ready (Ok (PairingReveal pid nonce)), r2) \<and>
        commitment_verifies blake3 commitment Role_Responder local peer pid nonce \<and>
        pp_code pp = transcript_code blake3 \<lparr>pt_initiator = local, pt_responder = peer, pt_pairing_id = pid,
          pt_initiator_nonce = im_nonce mi, pt_responder_nonce = nonce\<rparr>) \<and>
   (case respond_to_pairing pc blake3 now mr p of
      (Err e, c) \<Rightarrow> bc_closed c
    | (Ok pp, c) \<Rightarrow> \<exists>ctl r1 r2 pid commitment nonce.
        let peer = bc_remote_device_id (pb_connection p); local = bc_local_device_id (pb_connection p) in
        bc_control (pb_connection p) = Some ctl \<and> supports_pairing (pb_connection p) \<and>
        read_message pc (ch_recv ctl) = (Ready (Ok (PairingRequest pid commitment)), r1) \<and>
        read_message pc r1 = (Ready (Ok (PairingReveal pid nonce)), r2) \<and>
        commitment_verifies blake3 commitment Role_Initiator peer local pid nonce \<and>
        pp_code pp = transcript_code blake3 \<lparr>pt_initiator = peer, pt_responder = local, pt_pairing_id = pid,
          pt_initiator_nonce = nonce, pt_responder_nonce = rm_nonce mr\<rparr>)"
proof -
  obtain ri ci where i: "initiate_pairing pc blake3 now mi p = (ri, ci)" by fastforce
  obtain rr cr where r: "respond_to_pairing pc blake3 now mr p = (rr, cr)" by fastforce
  have "bc_closed ci" if "ri = Err e" for e
    using i that initiate_pairing_Err by blast
  moreover have "bc_closed cr" if "rr = Err e" for e
    using r that respond_to_pairing_Err by blast
  ultimately show ?thesis
    using i r initiate_pairing_Ok [of pc blake3 now mi p _ ci] respond_to_pairing_Ok [of pc blake3 now mr p _ cr]
    by (cases ri; cases rr) (auto simp: Let_def)
qed

end
