(* ===== verification/Ipc_Messages.thy ===== *)
theory Ipc_Messages
  imports Rift_Core Io_Streams
begin

text \<open>
  The local control protocol of \<open>crates/rift-ipc/src/lib.rs\<close>: the messages a client and the
  daemon exchange, and the length-prefixed JSON frames that carry them. JSON is external: a codec is a
  serializer to bytes and a parser of UTF-8 text. UTF-8 validation is the one of the standard library.
\<close>

section \<open>Messages\<close>

definition IPC_PROTOCOL_VERSION :: u16 where
  "IPC_PROTOCOL_VERSION = 1"

definition RUNTIME_DESCRIPTOR_VERSION :: u16 where
  "RUNTIME_DESCRIPTOR_VERSION = 1"

definition MAX_IPC_FRAME_LEN :: nat where
  "MAX_IPC_FRAME_LEN = 256 * 1024"

definition MAX_PEER_PAGE_SIZE :: u16 where
  "MAX_PEER_PAGE_SIZE = 128"

type_synonym pairing_attempt_id = u64

type_synonym session_id = u64

datatype request =
    Req_GetStatus
  | Req_ListPeers "device_id option" u16
  | Req_ListSessions
  | Req_ListPendingPairings
  | Req_ConfirmPairing pairing_attempt_id bool
  | Req_RevokePeer device_id
  | Req_ForgetPeer device_id
  | Req_DisconnectSession session_id
  | Req_BeginPairing device_id
  | Req_ConnectPeer device_id
  | Req_ListPeerConnectivity "device_id option" u16

datatype client_message =
    Client_Authenticate u16 string
  | Client_Request u64 request

datatype runtime_state = Rt_Starting | Rt_Running | Rt_ShuttingDown | Rt_Stopped | Rt_Failed

record daemon_status =
  sta_daemon_version :: string
  sta_device_id :: device_id
  sta_device_name :: string
  sta_platform :: string
  sta_state :: runtime_state
  sta_active_sessions :: u32
  sta_pending_pairings :: u32
  sta_pairing_enabled :: bool

record peer_info =
  pi_device_id :: device_id
  pi_state :: trust_state
  pi_device_name :: "string option"
  pi_platform :: "string option"

record peer_page =
  ppg_entries :: "peer_info list"
  ppg_next_cursor :: "device_id option"

datatype connectivity_state =
    Con_Disconnected | Con_Connecting | Con_Connected | Con_Backoff | Con_Suspended | Con_Unresolved | Con_Blocked

datatype connectivity_failure =
    Fail_Unresolved | Fail_Network | Fail_PurposeRejected | Fail_Protocol | Fail_NotTrusted | Fail_Capacity
  | Fail_Cancelled

record connectivity_info =
  ci_device_id :: device_id
  ci_state :: connectivity_state
  ci_session_id :: "session_id option"
  ci_retry_attempt :: u32
  ci_retry_in_ms :: "u64 option"
  ci_last_failure :: "connectivity_failure option"

record connectivity_page =
  cpg_entries :: "connectivity_info list"
  cpg_next_cursor :: "device_id option"

record session_info =
  si_session_id :: session_id
  si_device_id :: device_id
  si_device_name :: string
  si_platform :: string

record pending_pairing_info =
  ppi_attempt_id :: pairing_attempt_id
  ppi_device_id :: device_id
  ppi_device_name :: string
  ppi_platform :: string
  ppi_verification_code :: string
  ppi_timeout_remaining_ms :: u64

datatype pairing_outcome = Out_Accepted | Out_Rejected | Out_Expired | Out_Cancelled | Out_Failed

datatype session_close_reason =
    Cls_ConnectionClosed | Cls_Disconnected | Cls_Revoked | Cls_Forgotten | Cls_Shutdown | Cls_Superseded

datatype event =
    Ev_PairingPending pending_pairing_info
  | Ev_PairingResolved pairing_attempt_id device_id pairing_outcome
  | Ev_SessionOpened session_info
  | Ev_SessionClosed session_id device_id session_close_reason
  | Ev_TrustChanged device_id "trust_state option"
  | Ev_DaemonShuttingDown
  | Ev_PeerConnectivityChanged connectivity_info

datatype error_code =
    Code_InvalidRequest | Code_PairingNotFound | Code_SessionNotFound | Code_PeerNotTrusted
  | Code_PeerAlreadyTrusted | Code_CapacityExceeded | Code_PersistenceFailed | Code_ConnectionFailed
  | Code_ShuttingDown | Code_Internal | Code_PeerUnresolved | Code_PurposeRejected | Code_ProtocolRejected

record error_response =
  er_code :: error_code
  er_message :: string

definition error_response_new :: "error_code \<Rightarrow> string \<Rightarrow> error_response" where
  "error_response_new code message = \<lparr>er_code = code, er_message = message\<rparr>"

datatype response =
    Res_Status daemon_status
  | Res_Peers peer_page
  | Res_Sessions "session_info list"
  | Res_PendingPairings "pending_pairing_info list"
  | Res_PairingResolved pairing_attempt_id bool "session_id option"
  | Res_PeerRevoked device_id
  | Res_PeerForgotten device_id
  | Res_SessionDisconnected session_id
  | Res_PairingStarted pairing_attempt_id
  | Res_PeerConnected device_id session_id
  | Res_PeerConnectivity connectivity_page

datatype server_message =
    Server_Authenticated u16
  | Server_Response u64 response
  | Server_Error u64 error_response
  | Server_Event event

section \<open>UTF-8\<close>

definition continuation_byte :: "byte \<Rightarrow> bool" where
  "continuation_byte b = (128 \<le> b \<and> b \<le> 191)"

text \<open>The number of bytes of the character at the front, \<open>None\<close> if there is no valid one.\<close>

fun utf8_width :: "bytes \<Rightarrow> nat option" where
  "utf8_width [] = None"
| "utf8_width (a # bs) =
     (if a < 128 then Some 1
      else (case bs of
          [] \<Rightarrow> None
        | b # cs \<Rightarrow>
            if 194 \<le> a \<and> a \<le> 223 then (if continuation_byte b then Some 2 else None)
            else (case cs of
                [] \<Rightarrow> None
              | c # ds \<Rightarrow>
                  if 224 \<le> a \<and> a \<le> 239 then
                    (if continuation_byte b \<and> continuation_byte c \<and> (a = 224 \<longrightarrow> 160 \<le> b) \<and> (a = 237 \<longrightarrow> b \<le> 159)
                     then Some 3 else None)
                  else (case ds of
                      [] \<Rightarrow> None
                    | d # es \<Rightarrow>
                        if 240 \<le> a \<and> a \<le> 244 \<and> continuation_byte b \<and> continuation_byte c \<and> continuation_byte d \<and>
                           (a = 240 \<longrightarrow> 144 \<le> b) \<and> (a = 244 \<longrightarrow> b \<le> 143)
                        then Some 4 else None))))"

function utf8_valid :: "bytes \<Rightarrow> bool" where
  "utf8_valid bs =
     (if bs = [] then True
      else (case utf8_width bs of None \<Rightarrow> False | Some n \<Rightarrow> utf8_valid (drop n bs)))"
  by pat_completeness auto
termination
proof (relation "measure length", goal_cases)
  case (2 bs n)
  then show ?case by (cases bs) (auto split: if_splits list.splits)
qed simp

declare utf8_valid.simps [simp del]

section \<open>Frames\<close>

record 'a json =
  json_to_vec :: "'a \<Rightarrow> bytes option"
  json_from_str :: "bytes \<Rightarrow> 'a option"

text \<open>What serde_json documents: a serialized value is UTF-8 text that parses back to the value.\<close>

definition json_ok :: "'a json \<Rightarrow> bool" where
  "json_ok j = (\<forall>v p. json_to_vec j v = Some p \<longrightarrow> utf8_valid p \<and> json_from_str j p = Some v)"

datatype ipc_frame_error =
    Ipc_Io string io_error_kind
  | Ipc_TruncatedPrefix nat
  | Ipc_FrameTooLarge nat nat
  | Ipc_TruncatedPayload nat nat
  | Ipc_InvalidUtf8
  | Ipc_InvalidJson
  | Ipc_Encode

function read_until_eof :: "nat \<Rightarrow> string \<Rightarrow> (chunk_reader, ipc_frame_error, bytes) io" where
  "read_until_eof n operation r =
     (if n = 0 then (Ready (Ok []), r)
      else (case read_some n r of
          (Pending, r') \<Rightarrow> (Pending, r')
        | (Ready (Err e), r') \<Rightarrow> (Ready (Err (Ipc_Io operation e)), r')
        | (Ready (Ok bs), r') \<Rightarrow>
            if bs = [] then (Ready (Ok []), r')
            else io_bind (read_until_eof (n - length bs) operation) (\<lambda>rest. io_return (Ok (bs @ rest))) r'))"
  by pat_completeness auto
termination
  by (relation "measure (\<lambda>(n, operation, r). n)") auto

declare read_until_eof.simps [simp del]

definition read_json_frame_with_limit :: "'a json \<Rightarrow> nat \<Rightarrow> (chunk_reader, ipc_frame_error, 'a) io" where
  "read_json_frame_with_limit j limit =
     io_bind (read_until_eof 4 ''read prefix'') (\<lambda>prefix.
     if length prefix \<noteq> 4 then io_return (Err (Ipc_TruncatedPrefix (length prefix)))
     else (let declared = be_decode prefix in
       if limit < declared then io_return (Err (Ipc_FrameTooLarge declared limit))
       else io_bind (read_until_eof declared ''read payload'') (\<lambda>payload.
         if length payload \<noteq> declared then io_return (Err (Ipc_TruncatedPayload (length payload) declared))
         else if \<not> utf8_valid payload then io_return (Err Ipc_InvalidUtf8)
         else io_return (ok_or (json_from_str j payload) Ipc_InvalidJson))))"

definition read_json_frame :: "'a json \<Rightarrow> (chunk_reader, ipc_frame_error, 'a) io" where
  "read_json_frame j = read_json_frame_with_limit j MAX_IPC_FRAME_LEN"

definition encode_json_frame_with_limit :: "'a json \<Rightarrow> 'a \<Rightarrow> nat \<Rightarrow> (ipc_frame_error, bytes) result" where
  "encode_json_frame_with_limit j value limit =
     (case json_to_vec j value of
        None \<Rightarrow> Err Ipc_Encode
      | Some payload \<Rightarrow>
          if limit < length payload then Err (Ipc_FrameTooLarge (length payload) limit)
          else if 2 ^ 32 \<le> length payload then Err (Ipc_FrameTooLarge (length payload) limit)
          else Ok (be_encode 4 (length payload) @ payload))"

definition encode_json_frame :: "'a json \<Rightarrow> 'a \<Rightarrow> (ipc_frame_error, bytes) result" where
  "encode_json_frame j value = encode_json_frame_with_limit j value MAX_IPC_FRAME_LEN"

text \<open>The outcome of flushing the stream is an argument.\<close>

definition write_json_frame ::
  "'a json \<Rightarrow> (io_error_kind, unit) result poll \<Rightarrow> 'a \<Rightarrow> (writer, ipc_frame_error, unit) io" where
  "write_json_frame j flushed value =
     io_bind (io_return (encode_json_frame j value)) (\<lambda>frame.
     io_bind (io_map_err (Ipc_Io ''write'') (write_all frame)) (\<lambda>_.
     io_map_err (Ipc_Io ''flush'') (\<lambda>w. (flushed, w))))"

section \<open>Example values\<close>

text \<open>A codec for single values from a table: position \<open>i\<close> is written as the digit character \<open>i\<close>.\<close>

definition digit_codec :: "'a list \<Rightarrow> 'a json" where
  "digit_codec vs =
     \<lparr>json_to_vec = (\<lambda>v. map_option (\<lambda>i. [48 + of_nat i]) (table_index (take 10 vs) v)),
      json_from_str = (\<lambda>p. case p of
          [b] \<Rightarrow> if 48 \<le> b \<and> unat b - 48 < length (take 10 vs) then Some (vs ! (unat b - 48)) else None
        | _ \<Rightarrow> None)\<rparr>"

definition example_requests :: "client_message list" where
  "example_requests = [Client_Request 7 Req_GetStatus, Client_Request 8 Req_ListSessions]"

section \<open>Lemmas on UTF-8\<close>

lemma utf8_width_pos: "utf8_width bs = Some n \<Longrightarrow> 0 < n \<and> n \<le> length bs"
  by (cases bs) (auto split: if_splits list.splits)

lemma utf8_valid_Nil [simp]: "utf8_valid []"
  by (simp add: utf8_valid.simps)

lemma utf8_valid_step: "utf8_width bs = Some n \<Longrightarrow> utf8_valid bs = utf8_valid (drop n bs)"
  using utf8_width_pos [of bs n] by (subst utf8_valid.simps) auto

lemma utf8_width_take:
  "utf8_width bs = Some n \<Longrightarrow> n \<le> k \<Longrightarrow> utf8_width (take k bs) = Some n"
proof (cases bs)
  case (Cons a as)
  assume w: "utf8_width bs = Some n" and k: "n \<le> k"
  obtain j where "k = Suc j" using utf8_width_pos [OF w] k by (cases k) auto
  with w k Cons show ?thesis
    by (cases as; cases "tl as"; cases "tl (tl as)")
      (auto simp: take_Cons split: if_splits nat.splits)
qed simp

text \<open>Inside a character every byte after the first is a continuation byte.\<close>

lemma utf8_width_inner:
  "utf8_width bs = Some n \<Longrightarrow> 0 < i \<Longrightarrow> i < n \<Longrightarrow> continuation_byte (bs ! i)"
proof (cases bs)
  case (Cons a as)
  assume w: "utf8_width bs = Some n" and i: "0 < i" "i < n"
  then have "i = 1 \<or> i = 2 \<or> i = 3" using Cons by (auto split: if_splits list.splits)
  with w i Cons show ?thesis by (auto split: if_splits list.splits)
qed simp

lemma utf8_width_first: "utf8_width bs = Some n \<Longrightarrow> \<not> continuation_byte (hd bs) \<and> n \<le> 4"
  by (cases bs) (auto simp: continuation_byte_def word_le_nat_alt word_less_nat_alt split: if_splits list.splits)

text \<open>A valid text cut at a character boundary is valid.\<close>

lemma utf8_valid_take:
  "utf8_valid bs \<Longrightarrow> k \<le> length bs \<Longrightarrow> k = length bs \<or> \<not> continuation_byte (bs ! k) \<Longrightarrow> utf8_valid (take k bs)"
proof (induction bs arbitrary: k rule: utf8_valid.induct)
  case (1 bs)
  show ?case
  proof (cases "bs = [] \<or> k = 0")
    case False
    with "1.prems"(1) obtain n where n: "utf8_width bs = Some n" "utf8_valid (drop n bs)"
      by (subst (asm) utf8_valid.simps) (auto split: option.splits)
    have len: "0 < n" "n \<le> length bs" using utf8_width_pos [OF n(1)] by auto
    have k: "n \<le> k"
    proof (rule ccontr)
      assume "\<not> n \<le> k"
      with False have "continuation_byte (bs ! k)" "k \<noteq> length bs"
        using utf8_width_inner [OF n(1), of k] len by auto
      with "1.prems"(3) show False by simp
    qed
    have "utf8_valid (take (k - n) (drop n bs))"
      using "1.IH" [of n "k - n"] False n "1.prems"(2,3) k len by (auto simp: nth_append)
    then show ?thesis
      using utf8_valid_step [OF utf8_width_take [OF n(1) k]] by (simp add: drop_take)
  qed auto
qed

section \<open>Lemmas on frames\<close>

text \<open>However the stream is cut into reads, the bytes that are there are read in full.\<close>

lemma read_until_eof_all:
  "n \<le> length (rd_bytes r) \<Longrightarrow>
    \<exists>cs. read_until_eof n operation r =
      (Ready (Ok (take n (rd_bytes r))), r\<lparr>rd_bytes := drop n (rd_bytes r), rd_chunks := cs\<rparr>)"
proof (induction n operation r rule: read_until_eof.induct)
  case (1 n operation r)
  show ?case
  proof (cases "n = 0")
    case True
    then show ?thesis by (intro exI [of _ "rd_chunks r"]) (simp add: read_until_eof.simps)
  next
    case False
    define k where "k = (case rd_chunks r of [] \<Rightarrow> n | c # _ \<Rightarrow> min n (max 1 c))"
    define r' where "r' = r\<lparr>rd_chunks := drop 1 (rd_chunks r), rd_bytes := drop k (rd_bytes r)\<rparr>"
    have k: "0 < k" "k \<le> n" using False by (auto simp: k_def split: list.splits)
    have ne: "rd_bytes r \<noteq> []" using "1.prems" False by auto
    have some: "read_some n r = (Ready (Ok (take k (rd_bytes r))), r')"
      using ne by (simp add: read_some_def Let_def k_def r'_def)
    have len: "length (take k (rd_bytes r)) = k" using k "1.prems" by simp
    have room: "take k (rd_bytes r) \<noteq> []" "n - k \<le> length (rd_bytes r')" using k ne "1.prems" by (auto simp: r'_def)
    obtain cs where rest: "read_until_eof (n - k) operation r' =
        (Ready (Ok (take (n - k) (rd_bytes r'))), r'\<lparr>rd_bytes := drop (n - k) (rd_bytes r'), rd_chunks := cs\<rparr>)"
      using "1.IH" [OF False some [symmetric] refl refl, of r', unfolded len, OF room] by blast
    have "take k (rd_bytes r) @ take (n - k) (drop k (rd_bytes r)) = take n (rd_bytes r)"
      using take_add [of k "n - k" "rd_bytes r"] k by simp
    then have "read_until_eof n operation r =
        (Ready (Ok (take n (rd_bytes r))), r\<lparr>rd_bytes := drop n (rd_bytes r), rd_chunks := cs\<rparr>)"
      using False some rest k ne len by (subst read_until_eof.simps) (auto simp: io_bind_def r'_def)
    then show ?thesis by blast
  qed
qed

lemma encode_json_frame_Ok:
  "encode_json_frame j v = Ok frame \<longleftrightarrow>
    (\<exists>p. json_to_vec j v = Some p \<and> length p \<le> MAX_IPC_FRAME_LEN \<and> frame = be_encode 4 (length p) @ p)"
  by (auto simp: encode_json_frame_def encode_json_frame_with_limit_def MAX_IPC_FRAME_LEN_def split: option.splits)

lemma read_prefix:
  assumes "rd_bytes r = be_encode 4 n @ rest"
  obtains cs where "read_until_eof 4 operation r = (Ready (Ok (be_encode 4 n)), r\<lparr>rd_bytes := rest, rd_chunks := cs\<rparr>)"
  using read_until_eof_all [of 4 r operation] assms that by auto

lemma read_encoded_frame:
  assumes "json_ok j" and "encode_json_frame j v = Ok frame" and "rd_bytes r = frame @ rest"
  shows "\<exists>cs. read_json_frame j r = (Ready (Ok v), r\<lparr>rd_bytes := rest, rd_chunks := cs\<rparr>)"
proof -
  obtain p where p: "json_to_vec j v = Some p" "length p \<le> MAX_IPC_FRAME_LEN" "frame = be_encode 4 (length p) @ p"
    using assms(2) by (auto simp: encode_json_frame_Ok)
  have ok: "utf8_valid p" "json_from_str j p = Some v" using assms(1) p(1) by (auto simp: json_ok_def)
  obtain c1 where pre: "read_until_eof 4 ''read prefix'' r =
      (Ready (Ok (be_encode 4 (length p))), r\<lparr>rd_bytes := p @ rest, rd_chunks := c1\<rparr>)"
    using read_prefix [of r "length p" "p @ rest"] assms(3) p(3) by (metis append.assoc)
  obtain c2 where pay: "read_until_eof (length p) ''read payload'' (r\<lparr>rd_bytes := p @ rest, rd_chunks := c1\<rparr>) =
      (Ready (Ok p), r\<lparr>rd_bytes := rest, rd_chunks := c2\<rparr>)"
    using read_until_eof_all [of "length p" "r\<lparr>rd_bytes := p @ rest, rd_chunks := c1\<rparr>"] by auto
  have "be_decode (be_encode 4 (length p)) = length p"
    using p(2) by (simp add: be_decode_encode MAX_IPC_FRAME_LEN_def)
  with pre pay ok p(2) show ?thesis
    by (intro exI [of _ c2]) (simp add: read_json_frame_def read_json_frame_with_limit_def Let_def)
qed

lemma read_oversized_frame:
  assumes "MAX_IPC_FRAME_LEN < n" and "n < 2 ^ 32" and "rd_bytes r = be_encode 4 n @ rest"
  shows "\<exists>cs. read_json_frame j r =
    (Ready (Err (Ipc_FrameTooLarge n MAX_IPC_FRAME_LEN)), r\<lparr>rd_bytes := rest, rd_chunks := cs\<rparr>)"
proof -
  obtain c1 where "read_until_eof 4 ''read prefix'' r = (Ready (Ok (be_encode 4 n)), r\<lparr>rd_bytes := rest, rd_chunks := c1\<rparr>)"
    using read_prefix [OF assms(3)] by blast
  with assms(1,2) show ?thesis
    by (intro exI [of _ c1]) (simp add: read_json_frame_def read_json_frame_with_limit_def Let_def be_decode_encode)
qed

lemma utf8_ascii: "list_all (\<lambda>b. b < 128) bs \<Longrightarrow> utf8_valid bs"
proof (induction bs)
  case (Cons b bs)
  then show ?case using utf8_valid_step [of "b # bs" 1] by simp
qed simp

lemma digit_codec_ok: "json_ok (digit_codec vs)"
proof -
  have "utf8_valid [48 + of_nat i] \<and> json_from_str (digit_codec vs) [48 + of_nat i] = Some v"
    if "table_index (take 10 vs) v = Some i" for v i
  proof -
    from table_index_Some [OF that] have i: "i < length (take 10 vs)" "vs ! i = v" by auto
    then have u: "unat (48 + of_nat i :: byte) = 48 + i" by (simp add: unat_word_ariths unat_of_nat take_bit_eq_mod)
    then have "(48 + of_nat i :: byte) < 128" "(48 :: byte) \<le> 48 + of_nat i"
      using i(1) by (simp_all add: word_less_nat_alt word_le_nat_alt)
    with u i show ?thesis by (simp add: digit_codec_def utf8_ascii)
  qed
  then show ?thesis by (auto simp: json_ok_def digit_codec_def)
qed

section \<open>Properties\<close>

text \<open>
  Local control frames are exact. Whatever way the stream is cut into reads, reading a frame that was
  encoded returns the value and leaves exactly the bytes after it, and a frame that declares more than the
  limit is refused after its four length bytes, before any of its payload is read.
\<close>

theorem ipc_frame_exact:
  assumes "json_ok j"
  shows "(encode_json_frame j v = Ok frame \<and> rd_bytes r = frame @ rest \<longrightarrow>
      (\<exists>cs. read_json_frame j r = (Ready (Ok v), r\<lparr>rd_bytes := rest, rd_chunks := cs\<rparr>))) \<and>
    (MAX_IPC_FRAME_LEN < n \<and> n < 2 ^ 32 \<and> rd_bytes r = be_encode 4 n @ rest \<longrightarrow>
      (\<exists>cs. read_json_frame j r =
        (Ready (Err (Ipc_FrameTooLarge n MAX_IPC_FRAME_LEN)), r\<lparr>rd_bytes := rest, rd_chunks := cs\<rparr>)))"
  using read_encoded_frame [OF assms] read_oversized_frame by blast

theorem ipc_frame_exact_witness:
  "\<exists>cs. read_json_frame (digit_codec example_requests) \<lparr>rd_bytes = [0, 0, 0, 1, 49, 9], rd_end = Stalls, rd_chunks = [3, 1]\<rparr> =
    (Ready (Ok (Client_Request 8 Req_ListSessions)), \<lparr>rd_bytes = [9], rd_end = Stalls, rd_chunks = cs\<rparr>)"
proof -
  have "encode_json_frame (digit_codec example_requests) (Client_Request 8 Req_ListSessions) = Ok [0, 0, 0, 1, 49]"
    by (simp add: encode_json_frame_Ok digit_codec_def example_requests_def MAX_IPC_FRAME_LEN_def be_encode_numeral)
  with ipc_frame_exact [OF digit_codec_ok, of example_requests "Client_Request 8 Req_ListSessions" "[0, 0, 0, 1, 49]"
      "\<lparr>rd_bytes = [0, 0, 0, 1, 49, 9], rd_end = Stalls, rd_chunks = [3, 1]\<rparr>" "[9]" 0]
  show ?thesis by simp
qed

end
