(* ===== verification/Connectivity.thy ===== *)
theory Connectivity
  imports Ipc_Messages
begin

text \<open>
  The reconnect policy of \<open>crates/rift-daemon/src/connectivity.rs\<close>: the delay before a retry, the
  per-peer policy state and the scheduler that picks the next peer to dial. An instant and a duration are
  natural numbers of nanoseconds; the random sample and the current instant are arguments.
\<close>

section \<open>Time\<close>

definition from_millis :: "nat \<Rightarrow> nat" where
  "from_millis n = n * 1000000"

definition as_millis :: "nat \<Rightarrow> nat" where
  "as_millis d = d div 1000000"

text \<open>\<open>u64::try_from(..).unwrap_or(u64::MAX)\<close>.\<close>

definition u64_clamp :: "nat \<Rightarrow> u64" where
  "u64_clamp n = (if n < 2 ^ 64 then of_nat n else - 1)"

definition MAX_MANAGED_PEERS :: nat where
  "MAX_MANAGED_PEERS = 4096"

definition START_SPACING :: nat where
  "START_SPACING = from_millis 100"

definition STABLE_RESET :: nat where
  "STABLE_RESET = from_millis 30000"

definition retry_cap_ms :: "u32 \<Rightarrow> u64" where
  "retry_cap_ms attempt =
     min (saturating_mul 1000 (push_bit (min (unat (saturating_sub attempt 1)) 6) 1)) 60000"

definition retry_delay :: "u32 \<Rightarrow> u32 \<Rightarrow> nat" where
  "retry_delay attempt sample =
     (let half = retry_cap_ms attempt div 2 in
      from_millis (unat (half + ucast sample * half div ucast (- 1 :: u32))))"

section \<open>The policy of one peer\<close>

record managed_peer =
  cp_state :: connectivity_state
  cp_session_id :: "session_id option"
  cp_attempt :: u32
  cp_due :: "nat option"
  cp_last_failure :: "connectivity_failure option"
  cp_suspended :: bool
  cp_connected_since :: "nat option"
  cp_last_emitted :: "connectivity_info option"

definition peer_new :: "nat \<Rightarrow> managed_peer" where
  "peer_new now = \<lparr>cp_state = Con_Disconnected, cp_session_id = None, cp_attempt = 0, cp_due = Some now,
     cp_last_failure = None, cp_suspended = False, cp_connected_since = None, cp_last_emitted = None\<rparr>"

definition peer_info_at :: "device_id \<Rightarrow> nat \<Rightarrow> managed_peer \<Rightarrow> connectivity_info" where
  "peer_info_at device_id now p =
     \<lparr>ci_device_id = device_id, ci_state = cp_state p, ci_session_id = cp_session_id p,
      ci_retry_attempt = cp_attempt p,
      ci_retry_in_ms = map_option (\<lambda>due. u64_clamp (as_millis (due - now))) (cp_due p),
      ci_last_failure = cp_last_failure p\<rparr>"

definition peer_connected :: "session_id \<Rightarrow> nat \<Rightarrow> managed_peer \<Rightarrow> managed_peer" where
  "peer_connected session_id now p =
     p\<lparr>cp_session_id := Some session_id, cp_state := Con_Connected, cp_due := None, cp_last_failure := None,
       cp_connected_since := Some (case cp_connected_since p of None \<Rightarrow> now | Some since \<Rightarrow> since)\<rparr>"

definition peer_failed :: "connectivity_failure \<Rightarrow> nat \<Rightarrow> u32 \<Rightarrow> managed_peer \<Rightarrow> managed_peer" where
  "peer_failed failure now sample p =
     (let q = p\<lparr>cp_last_failure := Some failure, cp_due := None\<rparr> in
      case failure of
        Fail_Unresolved \<Rightarrow> q\<lparr>cp_state := Con_Unresolved\<rparr>
      | Fail_Network \<Rightarrow>
          (let attempt = saturating_add (cp_attempt q) 1 in
           q\<lparr>cp_attempt := attempt, cp_due := Some (now + retry_delay attempt sample), cp_state := Con_Backoff\<rparr>)
      | Fail_Capacity \<Rightarrow>
          (let attempt = saturating_add (cp_attempt q) 1 in
           q\<lparr>cp_attempt := attempt, cp_due := Some (now + retry_delay attempt sample), cp_state := Con_Backoff\<rparr>)
      | _ \<Rightarrow> q\<lparr>cp_state := Con_Blocked\<rparr>)"

definition peer_lost :: "nat \<Rightarrow> u32 \<Rightarrow> managed_peer \<Rightarrow> managed_peer" where
  "peer_lost now sample p =
     (let stable = (case cp_connected_since p of None \<Rightarrow> False | Some since \<Rightarrow> STABLE_RESET \<le> now - since);
          q = p\<lparr>cp_session_id := None, cp_connected_since := None,
                cp_attempt := (if stable then 0 else cp_attempt p)\<rparr> in
      if cp_suspended q then q\<lparr>cp_state := Con_Suspended, cp_due := None\<rparr>
      else peer_failed Fail_Network now sample q)"

definition peer_resume :: "nat \<Rightarrow> managed_peer \<Rightarrow> managed_peer" where
  "peer_resume now p =
     (let q = p\<lparr>cp_suspended := False\<rparr> in
      if cp_session_id q = None then q\<lparr>cp_state := Con_Disconnected, cp_due := Some now\<rparr> else q)"

definition peer_suspend :: "managed_peer \<Rightarrow> managed_peer" where
  "peer_suspend p =
     (let q = p\<lparr>cp_suspended := True, cp_due := None\<rparr> in
      if cp_session_id q = None then q\<lparr>cp_state := Con_Suspended\<rparr> else q)"

section \<open>The scheduler\<close>

record scheduler =
  sc_peers :: "(device_id, managed_peer) btree"
  sc_next_start :: nat

definition scheduler_new :: "nat \<Rightarrow> scheduler" where
  "scheduler_new now = \<lparr>sc_peers = [], sc_next_start = now\<rparr>"

definition scheduler_insert :: "device_id \<Rightarrow> nat \<Rightarrow> scheduler \<Rightarrow> bool \<times> scheduler" where
  "scheduler_insert i now s =
     (if bt_contains (sc_peers s) i then (True, s)
      else if length (sc_peers s) = MAX_MANAGED_PEERS then (False, s)
      else (True, s\<lparr>sc_peers := bt_insert i (peer_new now) (sc_peers s)\<rparr>))"

text \<open>The minimum of an iterator, and the pair that is least by instant and then by identity.\<close>

fun min_of :: "nat list \<Rightarrow> nat option" where
  "min_of [] = None"
| "min_of (x # xs) = Some (case min_of xs of None \<Rightarrow> x | Some y \<Rightarrow> min x y)"

fun min_by_due :: "(device_id \<times> nat) list \<Rightarrow> (device_id \<times> nat) option" where
  "min_by_due [] = None"
| "min_by_due ((i, d) # xs) =
     (case min_by_due xs of
        None \<Rightarrow> Some (i, d)
      | Some (j, e) \<Rightarrow> if e < d \<or> e = d \<and> j < i then Some (j, e) else Some (i, d))"

definition due_peers :: "scheduler \<Rightarrow> (device_id \<times> nat) list" where
  "due_peers s = List.map_filter (\<lambda>(i, p). map_option (\<lambda>due. (i, due)) (cp_due p)) (sc_peers s)"

definition scheduler_deadline :: "scheduler \<Rightarrow> nat option" where
  "scheduler_deadline s =
     map_option (\<lambda>due. max due (sc_next_start s)) (min_of (List.map_filter cp_due (bt_values (sc_peers s))))"

definition take_due :: "nat \<Rightarrow> scheduler \<Rightarrow> device_id option \<times> scheduler" where
  "take_due now s =
     (if now < sc_next_start s then (None, s)
      else (case min_by_due (filter (\<lambda>(_, due). due \<le> now) (due_peers s)) of
          None \<Rightarrow> (None, s)
        | Some (i, _) \<Rightarrow>
            (Some i, s\<lparr>sc_next_start := now + START_SPACING,
               sc_peers := bt_adjust i (\<lambda>p. p\<lparr>cp_due := None, cp_state := Con_Connecting\<rparr>) (sc_peers s)\<rparr>)))"

section \<open>Example values\<close>

definition example_scheduler :: scheduler where
  "example_scheduler = \<lparr>sc_peers = [(DeviceId [1], (peer_new 7)), (DeviceId [2], (peer_new 5))], sc_next_start = 0\<rparr>"

section \<open>Lemmas\<close>

lemma push_bit_one: "n \<le> 6 \<Longrightarrow> unat (push_bit n 1 :: u64) = 2 ^ n"
proof -
  assume "n \<le> 6"
  then have "n = 0 \<or> n = 1 \<or> n = 2 \<or> n = 3 \<or> n = 4 \<or> n = 5 \<or> n = 6" by linarith
  then show ?thesis by (elim disjE) simp_all
qed

lemma retry_cap: "unat (retry_cap_ms attempt) = min (1000 * 2 ^ min (unat attempt - 1) 6) 60000"
proof -
  let ?e = "min (unat (saturating_sub attempt 1)) 6"
  have e: "?e = min (unat attempt - 1) 6"
    by (auto simp: saturating_sub_def word_le_nat_alt unat_sub_if' unat_1)
  have p: "unat (push_bit ?e 1 :: u64) = 2 ^ ?e" by (rule push_bit_one) simp
  have "(2 :: nat) ^ ?e \<le> 2 ^ 6" by (rule power_increasing) simp_all
  then have small: "1000 * 2 ^ ?e < (2 :: nat) ^ 64" by simp
  define m where "m = saturating_mul 1000 (push_bit ?e 1 :: u64)"
  have m: "unat m = 1000 * 2 ^ ?e" using p small by (simp add: m_def saturating_mul_def unat_word_ariths)
  have "retry_cap_ms attempt = min m 60000" by (simp add: retry_cap_ms_def m_def)
  then have "unat (retry_cap_ms attempt) = min (unat m) 60000" by (simp add: min_def word_le_nat_alt)
  then show ?thesis unfolding m e .
qed

text \<open>The jitter is exact integer arithmetic: no intermediate product wraps.\<close>

lemma retry_delay_ms:
  "retry_delay attempt sample =
     from_millis (let half = unat (retry_cap_ms attempt) div 2 in half + unat sample * half div (2 ^ 32 - 1))"
proof -
  define half where "half = retry_cap_ms attempt div 2"
  have half: "unat half = unat (retry_cap_ms attempt) div 2" by (simp add: half_def unat_div)
  have h: "unat half \<le> 30000" unfolding half retry_cap by (simp add: min_def)
  have lt: "unat sample < 2 ^ 32" using unat_bound [of sample] by simp
  then have s: "unat (ucast sample :: u64) = unat sample" "unat sample \<le> 2 ^ 32 - 1"
    by (simp_all add: unsigned_ucast_eq take_bit_eq_mod)
  have "unat sample * unat half \<le> (2 ^ 32 - 1) * 30000" using mult_le_mono [OF s(2) h] by simp
  then have prod: "unat (ucast sample * half) = unat sample * unat half"
    using s(1) by (simp add: unat_word_ariths)
  have m: "unat (ucast (- 1 :: u32) :: u64) = 2 ^ 32 - 1"
    using unat_minus_one_word [where 'w = 32] by (simp add: unsigned_ucast_eq take_bit_eq_mod)
  have q: "unat (ucast sample * half div ucast (- 1 :: u32)) = unat sample * unat half div (2 ^ 32 - 1)"
    using prod m by (simp add: unat_div)
  have "unat sample * unat half div (2 ^ 32 - 1) \<le> (2 ^ 32 - 1) * unat half div (2 ^ 32 - 1)"
    using s(2) by (intro div_le_mono mult_le_mono1)
  then have "unat sample * unat half div (2 ^ 32 - 1) \<le> unat half" by simp
  with h q have "unat (half + ucast sample * half div ucast (- 1 :: u32)) =
      unat half + unat sample * unat half div (2 ^ 32 - 1)"
    by (simp add: unat_word_ariths)
  then show ?thesis by (simp add: retry_delay_def half_def [symmetric] half [symmetric] Let_def)
qed

lemma min_of_None: "min_of xs = None \<longleftrightarrow> xs = []"
  by (cases xs) auto

lemma min_of_Some: "min_of xs = Some m \<Longrightarrow> m \<in> set xs \<and> (\<forall>x \<in> set xs. m \<le> x)"
  by (induction xs arbitrary: m) (auto simp: min_of_None min_def split: option.splits if_splits)

lemma min_by_due_None: "min_by_due xs = None \<longleftrightarrow> xs = []"
  by (cases xs) (auto split: option.splits)

lemma min_by_due_Some:
  "min_by_due xs = Some (i, d) \<Longrightarrow> (i, d) \<in> set xs \<and> (\<forall>(j, e) \<in> set xs. d < e \<or> d = e \<and> i \<le> j)"
proof (induction xs arbitrary: i d)
  case (Cons x xs)
  obtain j e where x: "x = (j, e)" by fastforce
  show ?case
  proof (cases "min_by_due xs")
    case None
    with Cons.prems x show ?thesis by (simp add: min_by_due_None)
  next
    case (Some y)
    then obtain k f where y: "min_by_due xs = Some (k, f)" by (cases y) auto
    note IH = Cons.IH [OF y]
    from Cons.prems x y show ?thesis using IH by (fastforce split: if_splits)
  qed
qed simp

lemma in_due_peers: "(i, d) \<in> set (due_peers s) \<longleftrightarrow> (\<exists>p. (i, p) \<in> set (sc_peers s) \<and> cp_due p = Some d)"
  by (auto simp: due_peers_def List.map_filter_def) force+

lemma due_values: "set (List.map_filter cp_due (bt_values (sc_peers s))) = snd ` set (due_peers s)"
  by (auto simp: due_peers_def List.map_filter_def bt_values_def image_iff) force+

lemma take_due_cases:
  obtains (idle) "take_due now s = (None, s)"
      "now < sc_next_start s \<or> (\<forall>(i, d) \<in> set (due_peers s). now < d)"
  | (start) i d s' where "take_due now s = (Some i, s')" "sc_next_start s \<le> now" "(i, d) \<in> set (due_peers s)" "d \<le> now"
      "\<forall>(j, e) \<in> set (due_peers s). d < e \<or> d = e \<and> i \<le> j"
      "s' = s\<lparr>sc_next_start := now + START_SPACING,
         sc_peers := bt_adjust i (\<lambda>p. p\<lparr>cp_due := None, cp_state := Con_Connecting\<rparr>) (sc_peers s)\<rparr>"
proof (cases "now < sc_next_start s")
  case True
  then show ?thesis using idle by (simp add: take_due_def)
next
  case now: False
  let ?xs = "filter (\<lambda>(_, due). due \<le> now) (due_peers s)"
  show ?thesis
  proof (cases "min_by_due ?xs")
    case None
    then have "\<forall>(i, d) \<in> set (due_peers s). now < d" by (auto simp: min_by_due_None filter_empty_conv)
    with None now show ?thesis using idle by (simp add: take_due_def)
  next
    case (Some y)
    then obtain i d where y: "min_by_due ?xs = Some (i, d)" by (cases y) auto
    from min_by_due_Some [OF y] have "(i, d) \<in> set (due_peers s)" "d \<le> now"
      "\<forall>(j, e) \<in> set (due_peers s). d < e \<or> d = e \<and> i \<le> j" by fastforce+
    with y now show ?thesis using start by (simp add: take_due_def)
  qed
qed

text \<open>The scheduler is idle exactly until its deadline.\<close>

lemma take_due_idle:
  "fst (take_due now s) = None \<longleftrightarrow> (case scheduler_deadline s of None \<Rightarrow> True | Some d \<Rightarrow> now < d)"
proof (cases "due_peers s = []")
  case True
  then have "List.map_filter cp_due (bt_values (sc_peers s)) = []" using due_values [of s] by simp
  with True show ?thesis by (simp add: take_due_def scheduler_deadline_def)
next
  case False
  let ?ds = "List.map_filter cp_due (bt_values (sc_peers s))"
  have "?ds \<noteq> []" using False due_values [of s] by (metis image_is_empty set_empty)
  then obtain m where m: "min_of ?ds = Some m" using min_of_None by fastforce
  from min_of_Some [OF m] have min: "m \<in> snd ` set (due_peers s)" "\<forall>(i, d) \<in> set (due_peers s). m \<le> d"
    unfolding due_values by auto
  show ?thesis
  proof (cases rule: take_due_cases [of now s])
    case idle
    with min m show ?thesis by (auto simp: scheduler_deadline_def)
  next
    case (start i d s')
    with min m show ?thesis by (force simp: scheduler_deadline_def)
  qed
qed

lemma due_after_start:
  assumes "bt_wf (sc_peers s)" and "take_due now s = (Some i, s')"
  shows "set (due_peers s') = {(j, d). (j, d) \<in> set (due_peers s) \<and> j \<noteq> i}"
proof -
  have "sc_peers s' = bt_adjust i (\<lambda>p. p\<lparr>cp_due := None, cp_state := Con_Connecting\<rparr>) (sc_peers s)"
    using assms(2) by (cases rule: take_due_cases [of now s]) auto
  then show ?thesis by (auto simp: in_due_peers bt_adjust_def)
qed

section \<open>Properties\<close>

text \<open>
  C34: retry delays are bounded equal jitter. The ceiling starts at one second, doubles with every failed
  attempt and stops at one minute; the delay lies between half the ceiling and the ceiling for every
  sample, is the ceiling for the largest sample (which replaces a failed random source), and the
  machine arithmetic never wraps.
\<close>

theorem retry_delay_bounds:
  "(let c = min (1000 * 2 ^ min (unat attempt - 1) 6) 60000 in
     from_millis (c div 2) \<le> retry_delay attempt sample \<and> retry_delay attempt sample \<le> from_millis c \<and>
     retry_delay attempt (- 1) = from_millis c \<and> 500 \<le> c div 2 \<and> c \<le> 60000)"
proof -
  define c where "c = min (1000 * 2 ^ min (unat attempt - 1) 6) (60000 :: nat)"
  have c: "unat (retry_cap_ms attempt) = c" by (simp add: c_def retry_cap)
  define n where "n = min (unat attempt - 1) 6"
  have "n = 0 \<or> n = 1 \<or> n = 2 \<or> n = 3 \<or> n = 4 \<or> n = 5 \<or> n = 6" unfolding n_def by linarith
  then have even: "c div 2 + c div 2 = c" and big: "1000 \<le> c"
    unfolding c_def n_def [symmetric] by (elim disjE; simp)+
  have "unat sample \<le> 2 ^ 32 - 1" using unat_bound [of sample] by simp
  then have "unat sample * (c div 2) div (2 ^ 32 - 1) \<le> (2 ^ 32 - 1) * (c div 2) div (2 ^ 32 - 1)"
    by (intro div_le_mono mult_le_mono1)
  then have "unat sample * (c div 2) div (2 ^ 32 - 1) \<le> c div 2" by simp
  moreover have "unat (- 1 :: u32) = 2 ^ 32 - 1" using unat_minus_one_word [where 'w = 32] by simp
  ultimately have "from_millis (c div 2) \<le> retry_delay attempt sample" "retry_delay attempt sample \<le> from_millis c"
    "retry_delay attempt (- 1) = from_millis c"
    using even by (simp_all add: retry_delay_ms c Let_def from_millis_def)
  moreover have "c \<le> 60000" by (simp add: c_def)
  ultimately show ?thesis using big unfolding c_def [symmetric] Let_def by simp
qed

text \<open>
  The scheduler neither misses nor hurries a dial. At any instant it starts a peer exactly when its
  announced deadline has passed; the peer it starts is the one longest overdue, is no longer due
  afterwards while every other peer is as before, and no other dial starts within the next tenth of a
  second.
\<close>

theorem scheduler_exact:
  assumes "bt_wf (sc_peers s)"
  shows "(fst (take_due now s) = None \<longleftrightarrow> (case scheduler_deadline s of None \<Rightarrow> True | Some d \<Rightarrow> now < d)) \<and>
    (\<forall>i s'. take_due now s = (Some i, s') \<longrightarrow>
      (\<exists>d \<le> now. (i, d) \<in> set (due_peers s) \<and> (\<forall>(j, e) \<in> set (due_peers s). d < e \<or> d = e \<and> i \<le> j)) \<and>
      set (due_peers s') = {(j, d). (j, d) \<in> set (due_peers s) \<and> j \<noteq> i} \<and>
      (\<forall>t < now + START_SPACING. fst (take_due t s') = None))"
proof -
  have "(\<exists>d \<le> now. (i, d) \<in> set (due_peers s) \<and> (\<forall>(j, e) \<in> set (due_peers s). d < e \<or> d = e \<and> i \<le> j)) \<and>
      set (due_peers s') = {(j, d). (j, d) \<in> set (due_peers s) \<and> j \<noteq> i} \<and>
      (\<forall>t < now + START_SPACING. fst (take_due t s') = None)"
    if run: "take_due now s = (Some i, s')" for i s'
  proof (cases rule: take_due_cases [of now s])
    case (start j d t)
    then have "sc_next_start s' = now + START_SPACING" using run by simp
    then have "\<forall>t < now + START_SPACING. fst (take_due t s') = None" by (simp add: take_due_def)
    with start run due_after_start [OF assms run] show ?thesis by auto
  qed (use run in simp)
  with take_due_idle [of now s] show ?thesis by blast
qed

theorem scheduler_exact_witness:
  "fst (take_due 6 example_scheduler) = Some (DeviceId [2]) \<and> scheduler_deadline example_scheduler = Some 5 \<and>
   (case scheduler_deadline example_scheduler of None \<Rightarrow> False | Some d \<Rightarrow> \<not> 6 < d)"
proof -
  have wf: "bt_wf (sc_peers example_scheduler)" by code_simp
  have d: "scheduler_deadline example_scheduler = Some 5" by code_simp
  have "fst (take_due 6 example_scheduler) \<noteq> None" using scheduler_exact [OF wf, of 6] d by simp
  moreover have "fst (take_due 6 example_scheduler) = Some (DeviceId [2])"
    by (simp add: take_due_def due_peers_def example_scheduler_def peer_new_def List.map_filter_def)
  ultimately show ?thesis using d by simp
qed

end
