(* ===== verification/Local_Files.thy ===== *)
theory Local_Files
  imports Rift_Core
begin

text \<open>
  The part of a Unix file system that the identity store (\<open>crates/rift-identity\<close>) and the daemon's private files
  (\<open>crates/rift-daemon/src/local.rs\<close>) and the prototype (\<open>crates/rift-spike\<close>) use: paths with a parent and a file name, nodes with their content and permission
  bits, and the calls of \<open>std::fs\<close> the code makes. Any call can fail: the disk says, by the name the code
  reports for the operation, with which kind of error. The names of temporary files are made here as well.
\<close>

unbundle bit_operations_syntax

named_theorems effects \<open>which paths an operation touches\<close>

section \<open>Paths, nodes and disks\<close>

text \<open>The file name is \<open>None\<close> for a path that ends in none, or in one that is not UTF-8.\<close>

record fpath =
  fp_parent :: "string option"
  fp_name :: "string option"

definition with_file_name :: "fpath \<Rightarrow> string \<Rightarrow> fpath" where
  "with_file_name p name = p\<lparr>fp_name := Some name\<rparr>"

text \<open>\<open>directory.join(name)\<close>.\<close>

definition join :: "string \<Rightarrow> string \<Rightarrow> fpath" where
  "join directory name = \<lparr>fp_parent = Some directory, fp_name = Some name\<rparr>"

datatype node_kind = Regular | Directory | Symlink | Special

record fnode =
  fn_kind :: node_kind
  fn_bytes :: bytes
  fn_mode :: u32

text \<open>\<open>dk_written\<close> is how much of a failing write reaches the file, \<open>dk_temps\<close> the process's counter of temporary names.\<close>

record disk =
  dk_nodes :: "fpath \<Rightarrow> fnode option"
  dk_faults :: "string \<Rightarrow> io_error_kind option"
  dk_written :: nat
  dk_umask :: u32
  dk_temps :: u64

type_synonym 'a fs_call = "disk \<Rightarrow> (io_error_kind, 'a) result \<times> disk"

section \<open>Calls\<close>

definition put_node :: "fpath \<Rightarrow> fnode option \<Rightarrow> disk \<Rightarrow> disk" where
  "put_node p n d = d\<lparr>dk_nodes := (dk_nodes d)(p := n)\<rparr>"

definition fs_fault :: "string \<Rightarrow> unit fs_call" where
  "fs_fault operation d = (case dk_faults d operation of None \<Rightarrow> Ok () | Some e \<Rightarrow> Err e, d)"

definition fs_metadata :: "string \<Rightarrow> fpath \<Rightarrow> fnode fs_call" where
  "fs_metadata operation p =
     st_bind (fs_fault operation) (\<lambda>_ d. (case dk_nodes d p of None \<Rightarrow> Err NotFound | Some n \<Rightarrow> Ok n, d))"

definition fs_read :: "string \<Rightarrow> fpath \<Rightarrow> bytes fs_call" where
  "fs_read operation p = st_bind (fs_metadata operation p) (\<lambda>n d. (Ok (fn_bytes n), d))"

text \<open>\<open>OpenOptions::create_new\<close> with a mode.\<close>

definition fs_create_new :: "string \<Rightarrow> u32 \<Rightarrow> fpath \<Rightarrow> unit fs_call" where
  "fs_create_new operation mode p =
     st_bind (fs_fault operation) (\<lambda>_ d.
     if dk_nodes d p \<noteq> None then (Err AlreadyExists, d)
     else (Ok (), put_node p (Some \<lparr>fn_kind = Regular, fn_bytes = [], fn_mode = mode AND NOT (dk_umask d)\<rparr>) d))"

text \<open>\<open>OpenOptions::create\<close> with a mode: a file that exists is opened as it is.\<close>

definition fs_open_or_create :: "string \<Rightarrow> u32 \<Rightarrow> fpath \<Rightarrow> unit fs_call" where
  "fs_open_or_create operation mode p =
     st_bind (fs_fault operation) (\<lambda>_ d.
     if dk_nodes d p \<noteq> None then (Ok (), d)
     else (Ok (), put_node p (Some \<lparr>fn_kind = Regular, fn_bytes = [], fn_mode = mode AND NOT (dk_umask d)\<rparr>) d))"

definition fs_update :: "(fnode \<Rightarrow> fnode) \<Rightarrow> fpath \<Rightarrow> disk \<Rightarrow> disk" where
  "fs_update f p d = put_node p (map_option f (dk_nodes d p)) d"

definition fs_write :: "string \<Rightarrow> bytes \<Rightarrow> fpath \<Rightarrow> unit fs_call" where
  "fs_write operation bs p d =
     (case dk_faults d operation of
        None \<Rightarrow> (Ok (), fs_update (\<lambda>n. n\<lparr>fn_bytes := bs\<rparr>) p d)
      | Some e \<Rightarrow> (Err e, fs_update (\<lambda>n. n\<lparr>fn_bytes := take (dk_written d) bs\<rparr>) p d))"

definition fs_set_permissions :: "string \<Rightarrow> u32 \<Rightarrow> fpath \<Rightarrow> unit fs_call" where
  "fs_set_permissions operation mode p =
     st_bind (fs_metadata operation p) (\<lambda>_ d. (Ok (), fs_update (\<lambda>n. n\<lparr>fn_mode := mode\<rparr>) p d))"

definition fs_hard_link :: "string \<Rightarrow> fpath \<Rightarrow> fpath \<Rightarrow> unit fs_call" where
  "fs_hard_link operation original link =
     st_bind (fs_metadata operation original) (\<lambda>n d.
     if dk_nodes d link \<noteq> None then (Err AlreadyExists, d) else (Ok (), put_node link (Some n) d))"

definition fs_rename :: "string \<Rightarrow> fpath \<Rightarrow> fpath \<Rightarrow> unit fs_call" where
  "fs_rename operation old new =
     st_bind (fs_metadata operation old) (\<lambda>n d. (Ok (), put_node new (Some n) (put_node old None d)))"

text \<open>A directory is not removed as a file; the kind of that error is outside the ones the code looks at.\<close>

definition fs_remove_file :: "string \<Rightarrow> fpath \<Rightarrow> unit fs_call" where
  "fs_remove_file operation p =
     st_bind (fs_metadata operation p) (\<lambda>n d.
     if fn_kind n = Directory then (Err (IoKind 21), d) else (Ok (), put_node p None d))"

text \<open>\<open>create_dir_all\<close> on a path whose parent exists; a link is taken to lead to a directory.\<close>

definition fs_create_dir_all :: "fpath \<Rightarrow> string \<Rightarrow> unit fs_call" where
  "fs_create_dir_all p operation =
     st_bind (fs_fault operation) (\<lambda>_ d.
     case dk_nodes d p of
       None \<Rightarrow> (Ok (), put_node p (Some \<lparr>fn_kind = Directory, fn_bytes = [], fn_mode = 511 AND NOT (dk_umask d)\<rparr>) d)
     | Some n \<Rightarrow> if fn_kind n \<in> {Directory, Symlink} then (Ok (), d) else (Err AlreadyExists, d))"

text \<open>
  Appending to an open file. A fault stands for a disk that is full once the file has \<open>dk_written\<close> bytes: what still
  fits is written.
\<close>

definition fs_append :: "string \<Rightarrow> bytes \<Rightarrow> fpath \<Rightarrow> unit fs_call" where
  "fs_append operation bs p d =
     (case dk_nodes d p of
        None \<Rightarrow> (Ok (), d)
      | Some n \<Rightarrow>
          let room = dk_written d - length (fn_bytes n) in
          case dk_faults d operation of
            None \<Rightarrow> (Ok (), fs_update (\<lambda>n. n\<lparr>fn_bytes := fn_bytes n @ bs\<rparr>) p d)
          | Some e \<Rightarrow>
              (if length bs \<le> room then Ok () else Err e, fs_update (\<lambda>n. n\<lparr>fn_bytes := fn_bytes n @ take room bs\<rparr>) p d))"

section \<open>Names of temporary files\<close>

fun decimal :: "nat \<Rightarrow> string" where
  "decimal n = (if n < 10 then [char_of (48 + n)] else decimal (n div 10) @ [char_of (48 + n mod 10)])"

declare decimal.simps [simp del]

definition temporary_name :: "string \<Rightarrow> nat \<Rightarrow> u64 \<Rightarrow> string" where
  "temporary_name file_name pid counter =
     ''.'' @ file_name @ ''.'' @ decimal pid @ ''.'' @ decimal (unat counter) @ ''.tmp''"

text \<open>
  \<open>fetch_add\<close> on the counter, which wraps. Each crate has a counter of its own; one stands for both, since the names
  they go into differ in the file name.
\<close>

definition next_temporary :: "nat \<Rightarrow> string \<Rightarrow> fpath \<Rightarrow> disk \<Rightarrow> fpath \<times> disk" where
  "next_temporary pid file_name p d =
     (with_file_name p (temporary_name file_name pid (dk_temps d)), d\<lparr>dk_temps := dk_temps d + 1\<rparr>)"

text \<open>
  The search for a name nobody uses: a file is created under a name made from the counter, and while the name
  is taken the counter goes on. The fuel bounds the number of names tried.
\<close>

fun claim_fresh ::
  "nat \<Rightarrow> string \<Rightarrow> u32 \<Rightarrow> (u64 \<Rightarrow> fpath) \<Rightarrow> disk \<Rightarrow> ((io_error_kind, fpath) result \<times> disk) option" where
  "claim_fresh 0 operation mode name d = None"
| "claim_fresh (Suc fuel) operation mode name d =
     (let p = name (dk_temps d) in
      case fs_create_new operation mode p (d\<lparr>dk_temps := dk_temps d + 1\<rparr>) of
        (Ok _, d') \<Rightarrow> Some (Ok p, d')
      | (Err e, d') \<Rightarrow> if e = AlreadyExists then claim_fresh fuel operation mode name d' else Some (Err e, d'))"

section \<open>Effects\<close>

text \<open>An operation that touches no path outside a set, and no fault.\<close>

definition within :: "fpath set \<Rightarrow> (disk \<Rightarrow> 'r \<times> disk) \<Rightarrow> bool" where
  "within S f = (\<forall>d. dk_faults (snd (f d)) = dk_faults d \<and> (\<forall>p. p \<notin> S \<longrightarrow> dk_nodes (snd (f d)) p = dk_nodes d p))"

section \<open>Example values\<close>

definition empty_disk :: disk where
  "empty_disk = \<lparr>dk_nodes = (\<lambda>_. None), dk_faults = (\<lambda>_. None), dk_written = 0, dk_umask = 18, dk_temps = 0\<rparr>"

section \<open>Lemmas\<close>

lemma put_node_simps [simp]:
  "dk_nodes (put_node p n d) = (dk_nodes d)(p := n)"
  "dk_faults (put_node p n d) = dk_faults d"
  "dk_temps (put_node p n d) = dk_temps d"
  "dk_umask (put_node p n d) = dk_umask d"
  "dk_written (put_node p n d) = dk_written d"
  by (simp_all add: put_node_def)

lemma fs_update_simps [simp]:
  "dk_nodes (fs_update f p d) = (dk_nodes d)(p := map_option f (dk_nodes d p))"
  "dk_faults (fs_update f p d) = dk_faults d"
  "dk_written (fs_update f p d) = dk_written d"
  by (simp_all add: fs_update_def)

text \<open>The value of a decimal numeral; it inverts \<^const>\<open>decimal\<close>, so that names with different counters differ.\<close>

lemma decimal_value: "foldl (\<lambda>a c. a * 10 + (of_char c - 48)) 0 (decimal n) = n"
proof (induction n rule: decimal.induct)
  case (1 n)
  show ?case
  proof (cases "n < 10")
    case False
    with 1 have "foldl (\<lambda>a c. a * 10 + (of_char c - 48)) 0 (decimal n) = n div 10 * 10 + n mod 10"
      by (subst decimal.simps) (simp add: of_char_of)
    then show ?thesis by simp
  qed (simp add: decimal.simps of_char_of)
qed

lemma decimal_inject: "decimal m = decimal n \<Longrightarrow> m = n"
  using decimal_value by metis

lemma temporary_name_inject: "temporary_name f pid a = temporary_name f pid b \<Longrightarrow> a = b"
  by (auto simp: temporary_name_def word_unat_eq_iff dest!: decimal_inject)

lemma with_file_name_inject: "with_file_name p a = with_file_name p b \<longleftrightarrow> a = b"
  by (cases p) (auto simp: with_file_name_def)

text \<open>A temporary file is never the file it will become: its name is longer.\<close>

lemma temporary_name_other: "temporary_name f pid a \<noteq> f"
proof
  assume "temporary_name f pid a = f"
  then have "length (temporary_name f pid a) = length f" by simp
  then show False by (simp add: temporary_name_def)
qed

lemma temporary_path_other: "fp_name p = Some f \<Longrightarrow> with_file_name p (temporary_name f pid a) \<noteq> p"
  using temporary_name_other [of f pid a] by (cases p) (auto simp: with_file_name_def)

text \<open>A claimed file is new, empty and regular, and nothing else changes.\<close>

lemma fs_create_new_cases:
  obtains (taken) "fs_create_new operation mode p d = (Err AlreadyExists, d)"
    | (failed) e where "fs_create_new operation mode p d = (Err e, d)" "e \<noteq> AlreadyExists" "dk_faults d operation = Some e"
    | (created) "dk_nodes d p = None"
        "fs_create_new operation mode p d = (Ok (), put_node p (Some \<lparr>fn_kind = Regular, fn_bytes = [], fn_mode = mode AND NOT (dk_umask d)\<rparr>) d)"
  by (cases "dk_faults d operation"; cases "dk_nodes d p") (auto simp: fs_create_new_def fs_fault_def st_bind_def)

lemma claim_fresh_effect:
  "claim_fresh fuel operation mode name d = Some (r, d') \<Longrightarrow>
    dk_faults d' = dk_faults d \<and> dk_written d' = dk_written d \<and>
    (case r of
       Err e \<Rightarrow> dk_nodes d' = dk_nodes d \<and> dk_faults d operation = Some e
     | Ok t \<Rightarrow> (\<exists>c. t = name c) \<and> dk_nodes d t = None \<and>
         dk_nodes d' = (dk_nodes d)(t := Some \<lparr>fn_kind = Regular, fn_bytes = [], fn_mode = mode AND NOT (dk_umask d)\<rparr>))"
proof (induction fuel arbitrary: d)
  case (Suc fuel)
  let ?d1 = "d\<lparr>dk_temps := dk_temps d + 1\<rparr>"
  show ?case
  proof (cases rule: fs_create_new_cases [of operation mode "name (dk_temps d)" ?d1])
    case taken
    with Suc.prems Suc.IH [of ?d1] show ?thesis by (simp add: Let_def split: sum.splits)
  next
    case (failed e)
    with Suc.prems show ?thesis by (auto simp: Let_def)
  next
    case created
    with Suc.prems show ?thesis by (auto simp: Let_def put_node_def)
  qed
qed simp

text \<open>The search gives up only after finding every name it tried taken.\<close>

lemma claim_fresh_None:
  "claim_fresh fuel operation mode name d = None \<Longrightarrow> dk_faults d operation \<noteq> Some AlreadyExists \<Longrightarrow> i < fuel \<Longrightarrow>
    dk_nodes d (name (dk_temps d + of_nat i)) \<noteq> None"
proof (induction fuel arbitrary: d i)
  case (Suc fuel)
  let ?d1 = "d\<lparr>dk_temps := dk_temps d + 1\<rparr>"
  have "fs_create_new operation mode (name (dk_temps d)) ?d1 = (Err AlreadyExists, ?d1)"
    using Suc.prems(1) by (cases rule: fs_create_new_cases [of operation mode "name (dk_temps d)" ?d1]) (auto simp: Let_def)
  then have rest: "claim_fresh fuel operation mode name ?d1 = None" and "dk_nodes d (name (dk_temps d)) \<noteq> None"
    using Suc.prems(1,2) by (auto simp: Let_def fs_create_new_def fs_fault_def st_bind_def split: option.splits if_splits)
  then show ?case
    using Suc.IH [of ?d1 "i - 1"] Suc.prems by (cases i) (simp_all add: add.assoc)
qed simp

lemma claim_fresh_terminates:
  assumes "inj name" and "finite (dom (dk_nodes d))" and "card (dom (dk_nodes d)) < fuel" and "fuel \<le> 2 ^ 64"
    and "dk_faults d operation \<noteq> Some AlreadyExists"
  shows "claim_fresh fuel operation mode name d \<noteq> None"
proof
  let ?name = "\<lambda>i. name (dk_temps d + of_nat i)"
  assume "claim_fresh fuel operation mode name d = None"
  from claim_fresh_None [OF this assms(5)] have "?name ` {..<fuel} \<subseteq> dom (dk_nodes d)" by auto
  then have "card (?name ` {..<fuel}) \<le> card (dom (dk_nodes d))" by (rule card_mono [OF assms(2)])
  moreover have "inj_on ?name {..<fuel}"
  proof (rule inj_onI)
    fix i j assume ij: "i \<in> {..<fuel}" "j \<in> {..<fuel}" and "?name i = ?name j"
    then have "(of_nat i :: u64) = of_nat j" using injD [OF assms(1)] by fastforce
    moreover have "i < 2 ^ LENGTH(64)" "j < 2 ^ LENGTH(64)" using ij assms(4) by simp_all
    ultimately show "i = j" by (simp add: word_unat_eq_iff unat_of_nat take_bit_eq_mod)
  qed
  ultimately show False using assms(3) by (simp add: card_image)
qed

lemma claim_fresh_quiet:
  assumes "claim_fresh fuel operation mode name d = Some (r, d')" and "dk_faults d operation = None"
  shows "\<exists>t. r = Ok t"
  using claim_fresh_effect [OF assms(1)] assms(2) by (cases r) auto

lemmas fs_defs = fs_fault_def fs_metadata_def fs_read_def fs_create_new_def fs_write_def fs_set_permissions_def
  fs_hard_link_def fs_rename_def fs_remove_file_def st_bind_def

lemma within_faults: "within S f \<Longrightarrow> f d = (r, d') \<Longrightarrow> dk_faults d' = dk_faults d"
  unfolding within_def by (metis snd_conv)

lemma within_nodes: "within S f \<Longrightarrow> f d = (r, d') \<Longrightarrow> p \<notin> S \<Longrightarrow> dk_nodes d' p = dk_nodes d p"
  unfolding within_def by (metis snd_conv)

lemma within_bind [effects]: "within S f \<Longrightarrow> (\<And>a. within S (g a)) \<Longrightarrow> within S (st_bind f g)"
  unfolding within_def by (simp add: st_bind_def split: prod.splits sum.splits) (metis snd_conv)

lemma within_pure [effects]: "within S (Pair r)" "within S (\<lambda>d. (f d, d))"
  by (simp_all add: within_def)

lemma within_if [effects]: "within S f \<Longrightarrow> within S g \<Longrightarrow> within S (if b then f else g)"
  by simp

lemma within_create_dir [effects]: "p \<in> S \<Longrightarrow> within S (fs_create_dir_all p operation)"
  by (auto simp: within_def fs_create_dir_all_def fs_defs split: option.splits)

lemma within_append [effects]: "p \<in> S \<Longrightarrow> within S (fs_append operation bs p)"
  by (auto simp: within_def fs_append_def Let_def split: option.splits)

lemma within_calls [effects]:
  "within S (fs_fault operation)"
  "within S (fs_metadata operation p)"
  "within S (fs_read operation p)"
  "p \<in> S \<Longrightarrow> within S (fs_create_new operation mode p)"
  "p \<in> S \<Longrightarrow> within S (fs_open_or_create operation mode p)"
  "p \<in> S \<Longrightarrow> within S (fs_write operation bs p)"
  "p \<in> S \<Longrightarrow> within S (fs_set_permissions operation mode p)"
  "q \<in> S \<Longrightarrow> within S (fs_hard_link operation p q)"
  "p \<in> S \<Longrightarrow> q \<in> S \<Longrightarrow> within S (fs_rename operation p q)"
  "p \<in> S \<Longrightarrow> within S (fs_remove_file operation p)"
  by (auto simp: within_def fs_defs fs_open_or_create_def split: option.splits)

lemma join_inject [simp]: "join a f = join b g \<longleftrightarrow> a = b \<and> f = g"
  by (simp add: join_def)

lemma create_dir_effect:
  assumes "fs_create_dir_all p operation d = (x, d')"
  shows "dk_faults d' = dk_faults d" and "dk_nodes d q = Some n \<Longrightarrow> dk_nodes d' q = Some n"
    and "q \<noteq> p \<Longrightarrow> dk_nodes d' q = dk_nodes d q" and "x = Ok u \<Longrightarrow> dk_nodes d' p \<noteq> None"
    and "dk_nodes d p = None \<Longrightarrow> dk_nodes d' p = Some n \<Longrightarrow> fn_kind n = Directory"
  using assms by (auto simp: fs_create_dir_all_def fs_defs split: option.splits if_splits)

text \<open>A directory that was created is found the next time.\<close>

lemma create_dir_again:
  assumes "fs_create_dir_all p operation d = (Ok u, d1)" and "dk_faults d' = dk_faults d" and "\<And>n. dk_nodes d1 p = Some n \<Longrightarrow> dk_nodes d' p = Some n"
  shows "fs_create_dir_all p operation d' = (Ok (), d')"
  using assms by (fastforce simp: fs_create_dir_all_def fs_defs split: option.splits if_splits)

end
