(* ===== verification/Identity_Store.thy ===== *)
theory Identity_Store
  imports Local_Files
begin

text \<open>
  The persistent secret key of a device (\<open>crates/rift-identity/src/lib.rs\<close>): its envelope, loading it, and creating
  it through a temporary file that is linked into place only when nothing is there. The key is its 32 bytes;
  deriving the public key and generating a key belong to iroh, the checksum to BLAKE3. Another process can put a node at
  the path just before the link.
\<close>

section \<open>The envelope\<close>

definition IDENTITY_MAGIC :: bytes where
  "IDENTITY_MAGIC = [82, 73, 70, 84, 73, 68, 69, 78]"

definition SECRET_KEY_LEN :: nat where
  "SECRET_KEY_LEN = 32"

definition IDENTITY_CHECKSUM_LEN :: nat where
  "IDENTITY_CHECKSUM_LEN = 32"

definition PREFIX_LEN :: nat where
  "PREFIX_LEN = length IDENTITY_MAGIC + 2 + SECRET_KEY_LEN"

definition IDENTITY_FORMAT_VERSION :: nat where
  "IDENTITY_FORMAT_VERSION = 1"

definition IDENTITY_FILE_LEN :: nat where
  "IDENTITY_FILE_LEN = PREFIX_LEN + IDENTITY_CHECKSUM_LEN"

datatype identity_error =
    Ide_Io string io_error_kind
  | Ide_NotRegularFile
  | Ide_TruncatedIdentity nat nat
  | Ide_TrailingData nat nat
  | Ide_InvalidMagic
  | Ide_UnsupportedVersion nat
  | Ide_ChecksumMismatch
  | Ide_InsecurePermissions u32
  | Ide_MissingFileName

record stored_identity =
  sti_secret_key :: bytes
  sti_device_id :: device_id
  sti_path :: fpath

definition identity_encode :: "(bytes \<Rightarrow> bytes) \<Rightarrow> bytes \<Rightarrow> bytes" where
  "identity_encode blake3 secret_key =
     (let prefix = IDENTITY_MAGIC @ be_encode 2 IDENTITY_FORMAT_VERSION @ secret_key in prefix @ blake3 prefix)"

definition constant_time_equal :: "bytes \<Rightarrow> bytes \<Rightarrow> bool" where
  "constant_time_equal left right =
     (if length left \<noteq> length right then False
      else fold (\<lambda>p difference. difference OR (fst p XOR snd p)) (zip left right) 0 = 0)"

definition identity_decode ::
  "(bytes \<Rightarrow> bytes) \<Rightarrow> (bytes \<Rightarrow> bytes) \<Rightarrow> fpath \<Rightarrow> bytes \<Rightarrow> (identity_error, stored_identity) result" where
  "identity_decode blake3 public path bs =
     (if length bs < IDENTITY_FILE_LEN then Err (Ide_TruncatedIdentity (length bs) IDENTITY_FILE_LEN)
      else if IDENTITY_FILE_LEN < length bs then Err (Ide_TrailingData (length bs) IDENTITY_FILE_LEN)
      else if take (length IDENTITY_MAGIC) bs \<noteq> IDENTITY_MAGIC then Err Ide_InvalidMagic
      else (let version_start = length IDENTITY_MAGIC; version_end = version_start + 2;
                version = be_decode (slice bs version_start 2) in
        if version \<noteq> IDENTITY_FORMAT_VERSION then Err (Ide_UnsupportedVersion version)
        else if \<not> constant_time_equal (drop PREFIX_LEN bs) (blake3 (take PREFIX_LEN bs)) then Err Ide_ChecksumMismatch
        else (let secret = slice bs version_end (PREFIX_LEN - version_end) in
          if length secret \<noteq> SECRET_KEY_LEN then Err (Ide_TruncatedIdentity (length bs) IDENTITY_FILE_LEN)
          else Ok \<lparr>sti_secret_key = secret, sti_device_id = DeviceId (public secret), sti_path = path\<rparr>)))"

section \<open>Loading\<close>

text \<open>A call of the file system whose failure is reported under the operation's name.\<close>

definition ide_io :: "(string \<Rightarrow> 'a fs_call) \<Rightarrow> string \<Rightarrow> disk \<Rightarrow> (identity_error, 'a) result \<times> disk" where
  "ide_io call operation d = (case call operation d of (r, d') \<Rightarrow> (map_err (Ide_Io operation) r, d'))"

text \<open>\<open>mode & 0o777\<close> must be \<open>0o600\<close>.\<close>

definition identity_permissions :: "fnode \<Rightarrow> (identity_error, unit) result" where
  "identity_permissions metadata =
     (let mode = fn_mode metadata AND 511 in if mode \<noteq> 384 then Err (Ide_InsecurePermissions mode) else Ok ())"

definition identity_load ::
  "(bytes \<Rightarrow> bytes) \<Rightarrow> (bytes \<Rightarrow> bytes) \<Rightarrow> fpath \<Rightarrow> disk \<Rightarrow> (identity_error, stored_identity) result \<times> disk" where
  "identity_load blake3 public path =
     st_bind (ide_io (\<lambda>op. fs_metadata op path) ''inspect'') (\<lambda>metadata.
     if fn_kind metadata \<noteq> Regular then Pair (Err Ide_NotRegularFile)
     else st_bind (Pair (identity_permissions metadata)) (\<lambda>_.
       let len = length (fn_bytes metadata) in
       if len < IDENTITY_FILE_LEN then Pair (Err (Ide_TruncatedIdentity len IDENTITY_FILE_LEN))
       else if IDENTITY_FILE_LEN < len then Pair (Err (Ide_TrailingData len IDENTITY_FILE_LEN))
       else st_bind (ide_io (\<lambda>op. fs_read op path) ''read'') (\<lambda>bs. Pair (identity_decode blake3 public path bs))))"

section \<open>Creating\<close>

text \<open>The loop tries the next counter while the name is taken; running out of fuel is \<open>None\<close>.\<close>

definition create_temporary_loop ::
  "nat \<Rightarrow> nat \<Rightarrow> string \<Rightarrow> fpath \<Rightarrow> disk \<Rightarrow> ((identity_error, fpath) result \<times> disk) option" where
  "create_temporary_loop fuel pid file_name path d =
     map_option (\<lambda>(r, d'). (map_err (Ide_Io ''create temporary file'') r, d'))
       (claim_fresh fuel ''create temporary file'' 384 (\<lambda>c. with_file_name path (temporary_name file_name pid c)) d)"

definition create_temporary ::
  "nat \<Rightarrow> nat \<Rightarrow> fpath \<Rightarrow> disk \<Rightarrow> ((identity_error, fpath) result \<times> disk) option" where
  "create_temporary fuel pid path d =
     (case fp_name path of
        None \<Rightarrow> Some (Err Ide_MissingFileName, d)
      | Some file_name \<Rightarrow> create_temporary_loop fuel pid file_name path d)"

definition cleanup_remove :: "fpath \<Rightarrow> disk \<Rightarrow> (identity_error, unit) result \<times> disk" where
  "cleanup_remove temporary_path = ide_io (\<lambda>op. fs_remove_file op temporary_path) ''remove temporary file''"

text \<open>Dropping the guard removes the file and ignores the outcome.\<close>

definition cleanup_drop :: "fpath \<Rightarrow> disk \<Rightarrow> disk" where
  "cleanup_drop temporary_path d = snd (cleanup_remove temporary_path d)"

definition sync_parent :: "fpath \<Rightarrow> disk \<Rightarrow> (identity_error, unit) result \<times> disk" where
  "sync_parent path d =
     (if fp_parent path = None then (Err Ide_MissingFileName, d) else ide_io fs_fault ''sync parent directory'' d)"

text \<open>Writing the temporary file and making it private.\<close>

definition fill_temporary :: "bytes \<Rightarrow> fpath \<Rightarrow> disk \<Rightarrow> (identity_error, unit) result \<times> disk" where
  "fill_temporary encoded temporary_path =
     st_bind (ide_io (\<lambda>op. fs_write op encoded temporary_path) ''write temporary file'') (\<lambda>_.
     st_bind (ide_io fs_fault ''flush temporary file'') (\<lambda>_.
     st_bind (ide_io fs_fault ''sync temporary file'') (\<lambda>_.
     st_bind (ide_io (\<lambda>op. fs_set_permissions op 384 temporary_path) ''set permissions'') (\<lambda>_.
     st_bind (ide_io (\<lambda>op. fs_metadata op temporary_path) ''inspect temporary file'') (\<lambda>metadata.
     Pair (identity_permissions metadata))))))"

text \<open>What another process did to the path in the meantime.\<close>

definition race_in :: "fnode option \<Rightarrow> fpath \<Rightarrow> disk \<Rightarrow> disk" where
  "race_in other path d = (case dk_nodes d path of None \<Rightarrow> put_node path other d | Some _ \<Rightarrow> d)"

definition promote_temporary ::
  "(bytes \<Rightarrow> bytes) \<Rightarrow> (bytes \<Rightarrow> bytes) \<Rightarrow> fpath \<Rightarrow> fpath \<Rightarrow> disk \<Rightarrow> (identity_error, stored_identity) result \<times> disk" where
  "promote_temporary blake3 public path temporary_path d =
     (case fs_hard_link ''promote temporary file'' temporary_path path d of
        (Ok _, d1) \<Rightarrow>
          st_bind (cleanup_remove temporary_path) (\<lambda>_.
          st_bind (sync_parent path) (\<lambda>_. identity_load blake3 public path)) d1
      | (Err e, d1) \<Rightarrow>
          if e = AlreadyExists then st_bind (cleanup_remove temporary_path) (\<lambda>_. identity_load blake3 public path) d1
          else (Err (Ide_Io ''promote temporary file'' e), cleanup_drop temporary_path d1))"

definition identity_create ::
  "(bytes \<Rightarrow> bytes) \<Rightarrow> (bytes \<Rightarrow> bytes) \<Rightarrow> nat \<Rightarrow> nat \<Rightarrow> bytes \<Rightarrow> fnode option \<Rightarrow> fpath \<Rightarrow> disk \<Rightarrow>
     ((identity_error, stored_identity) result \<times> disk) option" where
  "identity_create blake3 public fuel pid generated other path d =
     (case create_temporary fuel pid path d of
        None \<Rightarrow> None
      | Some (Err e, d1) \<Rightarrow> Some (Err e, d1)
      | Some (Ok temporary_path, d1) \<Rightarrow>
          (case fill_temporary (identity_encode blake3 generated) temporary_path d1 of
             (Err e, d2) \<Rightarrow> Some (Err e, cleanup_drop temporary_path d2)
           | (Ok _, d2) \<Rightarrow> Some (promote_temporary blake3 public path temporary_path (race_in other path d2))))"

definition load_or_create ::
  "(bytes \<Rightarrow> bytes) \<Rightarrow> (bytes \<Rightarrow> bytes) \<Rightarrow> nat \<Rightarrow> nat \<Rightarrow> bytes \<Rightarrow> fnode option \<Rightarrow> fpath \<Rightarrow> disk \<Rightarrow>
     ((identity_error, stored_identity) result \<times> disk) option" where
  "load_or_create blake3 public fuel pid generated other path d =
     (case fs_metadata ''inspect'' path d of
        (Ok _, d1) \<Rightarrow> Some (identity_load blake3 public path d1)
      | (Err e, d1) \<Rightarrow>
          if e = NotFound then identity_create blake3 public fuel pid generated other path d1
          else Some (Err (Ide_Io ''inspect'' e), d1))"

section \<open>Notions of the properties\<close>

text \<open>The private file that holds a key.\<close>

definition identity_node :: "(bytes \<Rightarrow> bytes) \<Rightarrow> bytes \<Rightarrow> fnode" where
  "identity_node blake3 secret = \<lparr>fn_kind = Regular, fn_bytes = identity_encode blake3 secret, fn_mode = 384\<rparr>"

text \<open>Looking at a file and reading it do not fail.\<close>

definition readable :: "disk \<Rightarrow> bool" where
  "readable d = (dk_faults d ''inspect'' = None \<and> dk_faults d ''read'' = None)"

section \<open>Example values\<close>

definition example_secret :: bytes where
  "example_secret = replicate 32 9"

definition identity_path :: fpath where
  "identity_path = \<lparr>fp_parent = Some ''/rift'', fp_name = Some ''identity.key''\<rparr>"

section \<open>Lemmas on the envelope\<close>

lemmas identity_lens = IDENTITY_FILE_LEN_def PREFIX_LEN_def IDENTITY_CHECKSUM_LEN_def SECRET_KEY_LEN_def IDENTITY_MAGIC_def

text \<open>A fold that collects differences is zero exactly when there are none, however it started.\<close>

lemma or_zero_iff: "(a :: byte) OR b = 0 \<longleftrightarrow> a = 0 \<and> b = 0"
  by (auto simp: or_eq_0_iff)

lemma xor_zero_iff: "(a :: byte) XOR b = 0 \<longleftrightarrow> a = b"
  by (metis bit.xor_cancel_right bit.xor_left_self bit.xor_self xor.right_neutral)

lemma fold_differences:
  "length xs = length ys \<Longrightarrow>
    fold (\<lambda>p difference. difference OR (fst p XOR snd p)) (zip xs ys) (s :: byte) = 0 \<longleftrightarrow> s = 0 \<and> xs = ys"
  by (induction xs ys arbitrary: s rule: list_induct2) (auto simp: or_zero_iff xor_zero_iff)

lemma constant_time_equal_iff: "constant_time_equal xs ys \<longleftrightarrow> xs = ys"
  using fold_differences [of xs ys 0] by (auto simp: constant_time_equal_def)

lemma identity_sizes: "length IDENTITY_MAGIC = 8" "PREFIX_LEN = 42" "IDENTITY_FILE_LEN = 74" "SECRET_KEY_LEN = 32"
  by (simp_all add: identity_lens)

lemma length_identity_encode:
  "digest_ok blake3 \<Longrightarrow> length secret = 32 \<Longrightarrow> length (identity_encode blake3 secret) = IDENTITY_FILE_LEN"
  by (simp add: identity_encode_def Let_def identity_lens)

lemma identity_decode_encode:
  assumes "digest_ok blake3" and "length secret = 32"
  shows "identity_decode blake3 public path (identity_encode blake3 secret) =
    Ok \<lparr>sti_secret_key = secret, sti_device_id = DeviceId (public secret), sti_path = path\<rparr>"
proof -
  define prefix where "prefix = IDENTITY_MAGIC @ be_encode 2 IDENTITY_FORMAT_VERSION @ secret"
  define bs where "bs = identity_encode blake3 secret"
  have bs: "bs = prefix @ blake3 prefix" by (simp add: bs_def identity_encode_def prefix_def Let_def)
  have "take 42 bs = prefix" "drop 42 bs = blake3 prefix" "take 8 bs = IDENTITY_MAGIC"
    "be_decode (slice bs 8 2) = IDENTITY_FORMAT_VERSION" "slice bs 10 32 = secret"
    using assms(2) identity_sizes by (simp_all add: bs prefix_def slice_def be_decode_encode IDENTITY_FORMAT_VERSION_def)
  then show ?thesis
    using length_identity_encode [OF assms] assms(2)
    by (simp add: identity_decode_def identity_sizes bs_def [symmetric] constant_time_equal_iff Let_def SECRET_KEY_LEN_def)
qed

lemma identity_decode_Ok:
  assumes "digest_ok blake3"
  shows "identity_decode blake3 public path bs = Ok i \<longleftrightarrow>
    length (sti_secret_key i) = 32 \<and> bs = identity_encode blake3 (sti_secret_key i) \<and>
    i = \<lparr>sti_secret_key = sti_secret_key i, sti_device_id = DeviceId (public (sti_secret_key i)), sti_path = path\<rparr>"
    (is "?l \<longleftrightarrow> ?r")
proof
  assume l: ?l
  then have len: "length bs = IDENTITY_FILE_LEN" and magic: "take 8 bs = IDENTITY_MAGIC"
    and version: "be_decode (slice bs 8 2) = 1" and sum: "drop PREFIX_LEN bs = blake3 (take PREFIX_LEN bs)"
    and i: "i = \<lparr>sti_secret_key = slice bs 10 32, sti_device_id = DeviceId (public (slice bs 10 32)), sti_path = path\<rparr>"
    by (auto simp: identity_decode_def Let_def identity_sizes constant_time_equal_iff IDENTITY_FORMAT_VERSION_def split: if_splits)
  have "slice bs 8 2 = be_encode 2 1"
    using be_encode_decode [of "slice bs 8 2"] version len by (simp add: identity_sizes)
  then have "IDENTITY_MAGIC @ be_encode 2 IDENTITY_FORMAT_VERSION @ slice bs 10 32 = take 8 bs @ take 2 (drop 8 bs) @ take 32 (drop 10 bs)"
    by (simp add: magic slice_def IDENTITY_FORMAT_VERSION_def)
  also have "\<dots> = take PREFIX_LEN bs"
    using take_add [of 8 2 bs] take_add [of 10 32 bs] by (simp add: identity_sizes)
  finally have "bs = identity_encode blake3 (slice bs 10 32)"
    using sum by (metis (no_types) append_take_drop_id identity_encode_def)
  then show ?r using i len by (simp add: identity_sizes)
next
  assume ?r
  then show ?l using identity_decode_encode [OF assms, of "sti_secret_key i" public path] by metis
qed

section \<open>Lemmas on loading and creating\<close>

lemma identity_load_disk [simp]: "snd (identity_load blake3 public path d) = d"
  by (auto simp: identity_load_def ide_io_def fs_defs Let_def split: option.splits prod.splits sum.splits)

lemma identity_load_Ok:
  "identity_load blake3 public path d = (Ok i, d') \<longleftrightarrow>
    d' = d \<and> readable d \<and> (\<exists>n. dk_nodes d path = Some n \<and> fn_kind n = Regular \<and> fn_mode n AND 511 = 384 \<and>
      identity_decode blake3 public path (fn_bytes n) = Ok i)"
  by (auto simp: identity_load_def identity_permissions_def readable_def ide_io_def fs_defs identity_decode_def Let_def
      split: option.splits prod.splits sum.splits if_splits)

lemma create_temporary_loop_effect:
  "create_temporary_loop fuel pid f path d = Some (r, d') \<Longrightarrow>
    dk_faults d' = dk_faults d \<and>
    (case r of
       Err _ \<Rightarrow> dk_nodes d' = dk_nodes d
     | Ok t \<Rightarrow> (\<exists>c. t = with_file_name path (temporary_name f pid c)) \<and> dk_nodes d t = None \<and>
         (\<exists>n. fn_kind n = Regular \<and> dk_nodes d' = (dk_nodes d)(t := Some n)))"
  by (auto simp: create_temporary_loop_def dest!: claim_fresh_effect split: sum.splits intro!: exI [where P = "\<lambda>n. fn_kind n = Regular \<and> _ n"])

lemma create_temporary_loop_terminates:
  assumes "finite (dom (dk_nodes d))" and "card (dom (dk_nodes d)) < fuel" and "fuel \<le> 2 ^ 64"
    and "dk_faults d ''create temporary file'' \<noteq> Some AlreadyExists"
  shows "create_temporary_loop fuel pid f path d \<noteq> None"
  using claim_fresh_terminates [OF _ assms, of "\<lambda>c. with_file_name path (temporary_name f pid c)"]
  by (auto simp: create_temporary_loop_def inj_def with_file_name_inject dest: temporary_name_inject)

lemma within_ide_io [effects]: "within S (call operation) \<Longrightarrow> within S (ide_io call operation)"
  by (simp add: within_def ide_io_def split: prod.splits) (metis snd_conv)

lemma cleanup_remove_effect:
  assumes "dk_nodes d t = Some n" and "fn_kind n = Regular"
  shows "cleanup_remove t d =
    (case dk_faults d ''remove temporary file'' of
       None \<Rightarrow> (Ok (), put_node t None d) | Some e \<Rightarrow> (Err (Ide_Io ''remove temporary file'' e), d))"
  using assms by (simp add: cleanup_remove_def ide_io_def fs_defs split: option.splits)

lemma fill_temporary_effect:
  assumes "fill_temporary encoded t d = (r, d')" and "dk_nodes d t = Some n" and "fn_kind n = Regular"
  shows "dk_nodes d' = (dk_nodes d)(t := dk_nodes d' t)"
    and "\<exists>n'. dk_nodes d' t = Some n' \<and> fn_kind n' = Regular"
    and "r = Ok () \<Longrightarrow> dk_nodes d' t = Some \<lparr>fn_kind = Regular, fn_bytes = encoded, fn_mode = 384\<rparr>"
  using assms
  by (auto simp: fill_temporary_def ide_io_def fs_defs identity_permissions_def Let_def fs_update_def
      split: option.splits if_splits)

lemma st_bind_pure: "st_bind (Pair (Ok a)) g = g a"
  by (rule ext) (simp add: st_bind_def)

text \<open>Removing the temporary file and loading: all that follows the attempt to link it.\<close>

lemma remove_then_load:
  assumes "st_bind (cleanup_remove t) (\<lambda>_. st_bind f (\<lambda>_. identity_load blake3 public path)) d = (r, d')"
    and "dk_nodes d t = Some n" and "fn_kind n = Regular" and "\<And>e. snd (f e) = e"
  shows "p \<noteq> t \<Longrightarrow> dk_nodes d' p = dk_nodes d p" "dk_nodes d' t \<in> {None, Some n}"
    and "r = Ok i \<Longrightarrow> dk_nodes d' t = None \<and> identity_load blake3 public path d' = (Ok i, d')"
proof -
  have load: "r = fst (identity_load blake3 public path e) \<and> d' = e \<or> \<not> is_ok r \<and> d' = e"
    if "st_bind f (\<lambda>_. identity_load blake3 public path) e = (r, d')" for e
    using that assms(4) [of e] identity_load_disk [of blake3 public path e]
    by (cases "identity_load blake3 public path e") (auto simp: st_bind_def split: prod.splits sum.splits)
  have ends: "\<not> is_ok r \<and> d' = d \<or> d' = put_node t None d \<and> (r = Ok i \<longrightarrow> identity_load blake3 public path d' = (Ok i, d'))" for i
  proof (cases "dk_faults d ''remove temporary file''")
    case None
    then have "cleanup_remove t d = (Ok (), put_node t None d)" using cleanup_remove_effect [OF assms(2,3)] by simp
    with assms(1) have "st_bind f (\<lambda>_. identity_load blake3 public path) (put_node t None d) = (r, d')" by simp
    from load [OF this] show ?thesis
      using identity_load_disk [of blake3 public path d'] by (metis is_ok_iff prod.collapse)
  next
    case (Some e)
    then have "cleanup_remove t d = (Err (Ide_Io ''remove temporary file'' e), d)"
      using cleanup_remove_effect [OF assms(2,3)] by simp
    with assms(1) show ?thesis by (auto simp: st_bind_def)
  qed
  then have d': "d' = d \<or> d' = put_node t None d" by blast
  show "dk_nodes d' p = dk_nodes d p" if "p \<noteq> t" using d' that by auto
  show "dk_nodes d' t \<in> {None, Some n}" using d' assms(2) by auto
  show "dk_nodes d' t = None \<and> identity_load blake3 public path d' = (Ok i, d')" if "r = Ok i"
    using ends [of i] that by auto
qed

lemma sync_parent_disk: "snd (sync_parent path d) = d"
  by (simp add: sync_parent_def ide_io_def fs_fault_def)

lemma load_present: "identity_load blake3 public path d = (Ok i, d') \<Longrightarrow> dk_nodes d path \<noteq> None"
  by (auto simp: identity_load_Ok)

lemma promote_temporary_effect:
  assumes "promote_temporary blake3 public path t d = (r, d')"
    and "dk_nodes d t = Some n" and "fn_kind n = Regular" and "t \<noteq> path"
  shows "dk_nodes d' path = dk_nodes d path \<or> dk_nodes d path = None \<and> dk_nodes d' path = Some n" (is ?path)
    and "p \<noteq> path \<Longrightarrow> p \<noteq> t \<Longrightarrow> dk_nodes d' p = dk_nodes d p"
    and "r = Ok i \<Longrightarrow> dk_nodes d' t = None \<and> identity_load blake3 public path d' = (Ok i, d')"
    and "r = Ok i \<Longrightarrow> dk_nodes d path = None \<Longrightarrow> dk_nodes d' path = Some n"
proof -
  have *: "?path \<and> (p \<noteq> path \<longrightarrow> p \<noteq> t \<longrightarrow> dk_nodes d' p = dk_nodes d p) \<and>
    (r = Ok i \<longrightarrow> (dk_nodes d' t = None \<and> identity_load blake3 public path d' = (Ok i, d')) \<and>
      (dk_nodes d path = None \<longrightarrow> dk_nodes d' path = Some n))" for p i
  proof (cases "dk_faults d ''promote temporary file'' = None \<and> dk_nodes d path = None")
    case True
    define d1 where "d1 = put_node path (Some n) d"
    have "st_bind (cleanup_remove t) (\<lambda>_. st_bind (sync_parent path) (\<lambda>_. identity_load blake3 public path)) d1 = (r, d')"
      using assms(1,2) True by (simp add: promote_temporary_def fs_hard_link_def fs_metadata_def fs_fault_def st_bind_def d1_def)
    note after = remove_then_load [OF this _ assms(3) sync_parent_disk]
    have t: "dk_nodes d1 t = Some n" using assms(2,4) by (simp add: d1_def)
    show ?thesis
      using after(1) [OF t, of path] after(1) [OF t, of p] after(3) [OF t, of i] True assms(4) by (auto simp: d1_def)
  next
    case False
    then obtain e where e: "fs_hard_link ''promote temporary file'' t path d = (Err e, d)"
      using assms(2) by (cases "dk_faults d ''promote temporary file''") (auto simp: fs_defs)
    show ?thesis
    proof (cases "e = AlreadyExists")
      case True
      with assms(1) e have "st_bind (cleanup_remove t) (\<lambda>_. identity_load blake3 public path) d = (r, d')"
        by (simp add: promote_temporary_def)
      then have "st_bind (cleanup_remove t) (\<lambda>_. st_bind (Pair (Ok ())) (\<lambda>_. identity_load blake3 public path)) d = (r, d')"
        by (simp add: st_bind_pure)
      note after = remove_then_load [OF this assms(2,3) snd_conv]
      show ?thesis
        using after(1) [of path] after(1) [of p] after(3) [of i] assms(4) load_present [of blake3 public path d' i d'] by auto
    next
      case other: False
      with assms(1) e have "r = Err (Ide_Io ''promote temporary file'' e)" "d' = cleanup_drop t d"
        by (auto simp: promote_temporary_def)
      with cleanup_remove_effect [OF assms(2,3)] assms(4) show ?thesis
        by (auto simp: cleanup_drop_def split: option.splits)
    qed
  qed
  show ?path using * by blast
  show "dk_nodes d' p = dk_nodes d p" if "p \<noteq> path" "p \<noteq> t" using * that by blast
  show "dk_nodes d' t = None \<and> identity_load blake3 public path d' = (Ok i, d')" if "r = Ok i" using * that by blast
  show "dk_nodes d' path = Some n" if "r = Ok i" "dk_nodes d path = None" using * that by blast
qed

lemma create_temporary_Ok:
  assumes "create_temporary fuel pid path d = Some (Ok t, d1)"
  obtains m where "t \<noteq> path" "dk_nodes d t = None" "fn_kind m = Regular" "dk_nodes d1 = (dk_nodes d)(t := Some m)"
proof -
  obtain f where f: "fp_name path = Some f" "create_temporary_loop fuel pid f path d = Some (Ok t, d1)"
    using assms by (auto simp: create_temporary_def split: option.splits)
  from create_temporary_loop_effect [OF f(2)] temporary_path_other [OF f(1)] that show ?thesis by auto
qed

lemma create_temporary_Err:
  assumes "create_temporary fuel pid path d = Some (Err e, d1)"
  shows "dk_nodes d1 = dk_nodes d"
proof (cases "fp_name path")
  case (Some f)
  with assms have "create_temporary_loop fuel pid f path d = Some (Err e, d1)" by (simp add: create_temporary_def)
  from create_temporary_loop_effect [OF this] show ?thesis by simp
qed (use assms in \<open>simp add: create_temporary_def\<close>)

lemma cleanup_drop_other: "p \<noteq> t \<Longrightarrow> dk_nodes (cleanup_drop t d) p = dk_nodes d p"
  by (auto simp: cleanup_drop_def cleanup_remove_def ide_io_def fs_defs split: option.splits)

text \<open>What creating does to the disk, whatever its outcome, once the temporary file is there.\<close>

lemma settle_temporary_effect:
  assumes "(case fill_temporary (identity_encode blake3 generated) t d1 of
        (Err e, d2) \<Rightarrow> (Err e, cleanup_drop t d2)
      | (Ok _, d2) \<Rightarrow> promote_temporary blake3 public path t (race_in other path d2)) = (r, d')"
    and t: "t \<noteq> path" "dk_nodes d t = None" and m: "fn_kind m = Regular" "dk_nodes d1 = (dk_nodes d)(t := Some m)"
  shows "p \<noteq> path \<Longrightarrow> p \<noteq> t \<Longrightarrow> dk_nodes d' p = dk_nodes d p"
    and "dk_nodes d' path \<in> (case dk_nodes d path of Some n \<Rightarrow> {Some n} | None \<Rightarrow> {None, other, Some (identity_node blake3 generated)})"
    and "r = Ok i \<Longrightarrow> identity_load blake3 public path d' = (Ok i, d') \<and> dk_nodes d' t = None \<and>
      (dk_nodes d path = None \<and> other = None \<longrightarrow> dk_nodes d' path = Some (identity_node blake3 generated))"
proof -
  have d1t: "dk_nodes d1 t = Some m" using m(2) by simp
  obtain r2 d2 where fill: "fill_temporary (identity_encode blake3 generated) t d1 = (r2, d2)" by fastforce
  obtain m2 where m2: "dk_nodes d2 t = Some m2" "fn_kind m2 = Regular"
    using fill_temporary_effect(2) [OF fill d1t m(1)] by blast
  have d2: "p \<noteq> t \<Longrightarrow> dk_nodes d2 p = dk_nodes d p" for p
    using fill_temporary_effect(1) [OF fill d1t m(1)] m(2) by (metis fun_upd_other)
  define dr where "dr = race_in other path d2"
  have dr: "dk_nodes dr t = Some m2" "dk_nodes dr path = (if dk_nodes d path = None then other else dk_nodes d path)"
    "p \<noteq> path \<Longrightarrow> p \<noteq> t \<Longrightarrow> dk_nodes dr p = dk_nodes d p" for p
    using t(1) d2 m2 by (auto simp: dr_def race_in_def split: option.splits)
  have *: "(p \<noteq> path \<longrightarrow> p \<noteq> t \<longrightarrow> dk_nodes d' p = dk_nodes d p) \<and>
    dk_nodes d' path \<in> (case dk_nodes d path of Some n \<Rightarrow> {Some n} | None \<Rightarrow> {None, other, Some (identity_node blake3 generated)}) \<and>
    (r = Ok i \<longrightarrow> identity_load blake3 public path d' = (Ok i, d') \<and> dk_nodes d' t = None \<and>
      (dk_nodes d path = None \<and> other = None \<longrightarrow> dk_nodes d' path = Some (identity_node blake3 generated)))" for p i
  proof (cases r2)
    case (Inl e)
    with assms(1) fill have "r = Err e" "d' = cleanup_drop t d2" by simp_all
    with d2 t(1) show ?thesis by (auto simp: cleanup_drop_other split: option.splits)
  next
    case (Inr u)
    then have "m2 = identity_node blake3 generated"
      using fill_temporary_effect(3) [OF fill d1t m(1)] m2(1) by (simp add: identity_node_def)
    moreover have "promote_temporary blake3 public path t dr = (r, d')" using assms(1) fill Inr by (simp add: dr_def)
    note promote_temporary_effect [OF this dr(1) m2(2) t(1)]
    ultimately show ?thesis using dr(2) dr(3) [of p] by (auto split: option.splits if_splits)
  qed
  show "p \<noteq> path \<Longrightarrow> p \<noteq> t \<Longrightarrow> dk_nodes d' p = dk_nodes d p" using * by blast
  show "dk_nodes d' path \<in> (case dk_nodes d path of Some n \<Rightarrow> {Some n} | None \<Rightarrow> {None, other, Some (identity_node blake3 generated)})"
    using * by blast
  show "r = Ok i \<Longrightarrow> identity_load blake3 public path d' = (Ok i, d') \<and> dk_nodes d' t = None \<and>
      (dk_nodes d path = None \<and> other = None \<longrightarrow> dk_nodes d' path = Some (identity_node blake3 generated))" using * by blast
qed

lemma identity_create_effect:
  assumes "identity_create blake3 public fuel pid generated other path d = Some (r, d')"
  shows "dk_nodes d p = Some n \<Longrightarrow> dk_nodes d' p = Some n" (is "_ \<Longrightarrow> ?keep")
    and "dk_nodes d path = None \<Longrightarrow> dk_nodes d' path \<in> {None, other, Some (identity_node blake3 generated)}" (is "_ \<Longrightarrow> ?path")
    and "r = Ok i \<Longrightarrow> identity_load blake3 public path d' = (Ok i, d') \<and> dk_nodes d' = (dk_nodes d)(path := dk_nodes d' path) \<and>
      (dk_nodes d path = None \<and> other = None \<longrightarrow> dk_nodes d' path = Some (identity_node blake3 generated))" (is "_ \<Longrightarrow> ?ok")
proof -
  obtain r1 d1 where temp: "create_temporary fuel pid path d = Some (r1, d1)"
    using assms by (auto simp: identity_create_def split: option.splits)
  have "(dk_nodes d p = Some n \<longrightarrow> ?keep) \<and> (dk_nodes d path = None \<longrightarrow> ?path) \<and> (r = Ok i \<longrightarrow> ?ok)"
  proof (cases r1)
    case (Inl e)
    then have "r = Err e" "d' = d1" using assms temp by (auto simp: identity_create_def)
    with create_temporary_Err [of fuel pid path d e d1] temp Inl show ?thesis by simp
  next
    case (Inr t)
    then obtain m where t: "t \<noteq> path" "dk_nodes d t = None" "fn_kind m = Regular" "dk_nodes d1 = (dk_nodes d)(t := Some m)"
      using temp create_temporary_Ok by blast
    have "(case fill_temporary (identity_encode blake3 generated) t d1 of
        (Err e, d2) \<Rightarrow> (Err e, cleanup_drop t d2)
      | (Ok _, d2) \<Rightarrow> promote_temporary blake3 public path t (race_in other path d2)) = (r, d')"
      using assms temp Inr by (simp add: identity_create_def split: prod.splits sum.splits)
    note effect = settle_temporary_effect [OF this t]
    have "dk_nodes d' = (dk_nodes d)(path := dk_nodes d' path)" if "r = Ok i"
    proof
      fix x
      from effect(3) [OF that] have "dk_nodes d' t = None" by blast
      with effect(1) [of x] t(2) show "dk_nodes d' x = ((dk_nodes d)(path := dk_nodes d' path)) x" by (cases "x = t") auto
    qed
    moreover have ?keep if "dk_nodes d p = Some n"
      using that effect(1) [of p] effect(2) t(2) by (cases "p = path"; cases "p = t") auto
    moreover have ?path if "dk_nodes d path = None" using effect(2) that by simp
    ultimately show ?thesis using effect(3) [of i] by blast
  qed
  then show "dk_nodes d p = Some n \<Longrightarrow> ?keep" "dk_nodes d path = None \<Longrightarrow> ?path" "r = Ok i \<Longrightarrow> ?ok" by blast+
qed

lemma load_or_create_cases:
  assumes "load_or_create blake3 public fuel pid generated other path d = Some (r, d')"
  shows "identity_create blake3 public fuel pid generated other path d = Some (r, d') \<or>
    d' = d \<and> (\<forall>i. r = Ok i \<longrightarrow> dk_nodes d path \<noteq> None \<and> identity_load blake3 public path d = (Ok i, d))"
proof (cases "fst (fs_metadata ''inspect'' path d)")
  case (Inl e)
  with assms show ?thesis by (auto simp: load_or_create_def fs_defs split: option.splits if_splits)
next
  case (Inr n)
  then have "identity_load blake3 public path d = (r, d')"
    using assms by (auto simp: load_or_create_def fs_defs split: option.splits)
  with identity_load_disk [of blake3 public path d] show ?thesis by (auto simp: identity_load_Ok)
qed

text \<open>The paths that opening the identity can touch: its own and its temporary files.\<close>

lemma within_identity_load [effects]: "within S (identity_load blake3 public path)"
  by (auto simp: within_def intro: within_faults [of "{}"])

lemma within_fill_temporary: "t \<in> S \<Longrightarrow> within S (fill_temporary encoded t)"
  unfolding fill_temporary_def by (intro effects)

lemma within_cleanup [effects]: "t \<in> S \<Longrightarrow> within S (cleanup_remove t)"
  unfolding cleanup_remove_def by (intro effects)

lemma within_sync_parent [effects]: "within S (sync_parent path)"
proof (cases "fp_parent path")
  case None
  then have "sync_parent path = Pair (Err Ide_MissingFileName)" by (auto simp: sync_parent_def)
  then show ?thesis by (simp add: effects)
next
  case (Some dir)
  then have "sync_parent path = ide_io fs_fault ''sync parent directory''" by (auto simp: sync_parent_def)
  then show ?thesis by (simp add: effects)
qed

lemma within_promote:
  assumes "t \<in> S" and "path \<in> S"
  shows "within S (promote_temporary blake3 public path t)"
proof -
  have link: "within S (fs_hard_link ''promote temporary file'' t path)" using assms(2) by (intro effects)
  have ends: "within S (st_bind (cleanup_remove t) (\<lambda>_. identity_load blake3 public path))"
    "within S (st_bind (cleanup_remove t) (\<lambda>_. st_bind (sync_parent path) (\<lambda>_. identity_load blake3 public path)))"
    using assms(1) by (intro effects; assumption)+
  have "dk_faults (snd (promote_temporary blake3 public path t d)) = dk_faults d \<and>
      (\<forall>p. p \<notin> S \<longrightarrow> dk_nodes (snd (promote_temporary blake3 public path t d)) p = dk_nodes d p)" for d
  proof -
    obtain r d1 where l: "fs_hard_link ''promote temporary file'' t path d = (r, d1)" by fastforce
    show ?thesis
      using within_faults [OF link l] within_nodes [OF link l] ends within_cleanup [OF assms(1)]
      by (auto simp: promote_temporary_def l within_def cleanup_drop_def split: sum.splits)
  qed
  then show ?thesis by (simp add: within_def)
qed

lemma load_or_create_within:
  assumes "load_or_create blake3 public fuel pid generated other path d = Some (r, d')"
  shows "dk_faults d' = dk_faults d"
    and "p \<noteq> path \<Longrightarrow> (\<And>f c. fp_name path = Some f \<Longrightarrow> p \<noteq> with_file_name path (temporary_name f pid c)) \<Longrightarrow>
      dk_nodes d' p = dk_nodes d p"
proof -
  have "dk_faults d' = dk_faults d \<and>
      (p \<noteq> path \<longrightarrow> (\<forall>f c. fp_name path = Some f \<longrightarrow> p \<noteq> with_file_name path (temporary_name f pid c)) \<longrightarrow>
       dk_nodes d' p = dk_nodes d p)" for p
    using load_or_create_cases [OF assms]
  proof
    assume create: "identity_create blake3 public fuel pid generated other path d = Some (r, d')"
    obtain r1 d1 where temp: "create_temporary fuel pid path d = Some (r1, d1)"
      using create by (auto simp: identity_create_def split: option.splits)
    show ?thesis
    proof (cases "fp_name path")
      case None
      with temp create show ?thesis by (auto simp: create_temporary_def identity_create_def)
    next
      case (Some f)
      with temp have "create_temporary_loop fuel pid f path d = Some (r1, d1)" by (simp add: create_temporary_def)
      note loop = create_temporary_loop_effect [OF this]
      show ?thesis
      proof (cases r1)
        case (Inl e)
        with create temp loop show ?thesis by (auto simp: identity_create_def)
      next
        case (Inr t)
        then obtain c where t: "t = with_file_name path (temporary_name f pid c)" and d1: "q \<noteq> t \<Longrightarrow> dk_nodes d1 q = dk_nodes d q"
            "dk_faults d1 = dk_faults d" for q
          using loop by auto
        obtain r2 d2 where fill: "fill_temporary (identity_encode blake3 generated) t d1 = (r2, d2)" by fastforce
        have w: "within {t, path} (fill_temporary (identity_encode blake3 generated) t)"
          "within {t, path} (promote_temporary blake3 public path t)" "within {t, path} (cleanup_remove t)"
          by (auto intro: within_fill_temporary within_promote within_cleanup)
        have race: "dk_faults (race_in other path d2) = dk_faults d2" "q \<noteq> path \<Longrightarrow> dk_nodes (race_in other path d2) q = dk_nodes d2 q" for q
          by (auto simp: race_in_def split: option.splits)
        have "dk_faults d' = dk_faults d \<and> (q \<notin> {t, path} \<longrightarrow> dk_nodes d' q = dk_nodes d q)" for q
        proof (cases r2)
          case (Inl e)
          with create temp \<open>r1 = Ok t\<close> fill have "d' = snd (cleanup_remove t d2)" by (simp add: identity_create_def cleanup_drop_def)
          with w(3) within_faults [OF w(1) fill] within_nodes [OF w(1) fill, of q] d1 show ?thesis by (simp add: within_def)
        next
          case (Inr u)
          with create temp \<open>r1 = Ok t\<close> fill have "promote_temporary blake3 public path t (race_in other path d2) = (r, d')"
            by (simp add: identity_create_def)
          from within_faults [OF w(2) this] within_nodes [OF w(2) this, of q] show ?thesis
            using within_faults [OF w(1) fill] within_nodes [OF w(1) fill, of q] d1 race by simp
        qed
        with t Some show ?thesis by blast
      qed
    qed
  qed auto
  then show "dk_faults d' = dk_faults d"
    "p \<noteq> path \<Longrightarrow> (\<And>f c. fp_name path = Some f \<Longrightarrow> p \<noteq> with_file_name path (temporary_name f pid c)) \<Longrightarrow>
      dk_nodes d' p = dk_nodes d p" by blast+
qed

lemma load_or_create_loads:
  assumes "load_or_create blake3 public fuel pid generated other path d = Some (Ok i, d')"
  shows "identity_load blake3 public path d' = (Ok i, d')"
  using load_or_create_cases [OF assms] identity_create_effect(3) by blast

lemma create_temporary_loop_quiet:
  "create_temporary_loop fuel pid f path d = Some (r, d') \<Longrightarrow> dk_faults d ''create temporary file'' = None \<Longrightarrow> \<exists>t. r = Ok t"
  by (auto simp: create_temporary_loop_def dest: claim_fresh_quiet)

text \<open>On a disk without faults a fresh identity is created.\<close>

lemma identity_create_quiet:
  assumes quiet: "dk_faults d = (\<lambda>_. None)" and blake3: "digest_ok blake3" and len: "length generated = 32"
    and path: "fp_name path \<noteq> None" "fp_parent path \<noteq> None" "dk_nodes d path = None"
    and fuel: "finite (dom (dk_nodes d))" "card (dom (dk_nodes d)) < fuel" "fuel \<le> 2 ^ 64"
  shows "\<exists>d'. identity_create blake3 public fuel pid generated None path d =
    Some (Ok \<lparr>sti_secret_key = generated, sti_device_id = DeviceId (public generated), sti_path = path\<rparr>, d')"
proof -
  obtain f where f: "fp_name path = Some f" using path by blast
  obtain r1 d1 where loop: "create_temporary_loop fuel pid f path d = Some (r1, d1)"
    using create_temporary_loop_terminates [OF fuel, of pid f path] quiet by (metis option.distinct(1) option.exhaust surj_pair)
  obtain t where t: "r1 = Ok t" using create_temporary_loop_quiet [OF loop] quiet by auto
  with loop f have temp: "create_temporary fuel pid path d = Some (Ok t, d1)" by (simp add: create_temporary_def)
  obtain m where m: "t \<noteq> path" "dk_nodes d1 = (dk_nodes d)(t := Some m)" "fn_kind m = Regular"
    using create_temporary_Ok [OF temp] by blast
  have d1: "dk_faults d1 = (\<lambda>_. None)" using create_temporary_loop_effect [OF loop] quiet by simp
  let ?n = "identity_node blake3 generated"
  obtain d2 where fill: "fill_temporary (identity_encode blake3 generated) t d1 = (Ok (), d2)"
      "dk_nodes d2 = (dk_nodes d1)(t := Some ?n)" "dk_faults d2 = (\<lambda>_. None)"
    using m d1 by (cases m) (auto simp: fill_temporary_def ide_io_def fs_defs identity_permissions_def fs_update_def identity_node_def)
  have race: "race_in None path d2 = d2"
    using fill(2) m path(3) by (auto simp: race_in_def put_node_def fun_upd_idem split: option.splits)
  define d3 where "d3 = put_node t None (put_node path (Some ?n) d2)"
  have "cleanup_remove t (put_node path (Some ?n) d2) = (Ok (), d3)"
    using fill m(1) cleanup_remove_effect [of "put_node path (Some ?n) d2" t ?n] by (simp add: d3_def identity_node_def)
  moreover have "sync_parent path d3 = (Ok (), d3)" using path(2) fill(3) by (simp add: sync_parent_def ide_io_def fs_fault_def d3_def)
  moreover have "identity_load blake3 public path d3 =
      (Ok \<lparr>sti_secret_key = generated, sti_device_id = DeviceId (public generated), sti_path = path\<rparr>, d3)"
    using m(1) fill(3) identity_decode_encode [OF blake3 len]
    by (simp add: identity_load_Ok readable_def d3_def identity_node_def)
  moreover have "fs_hard_link ''promote temporary file'' t path d2 = (Ok (), put_node path (Some ?n) d2)"
    using fill m path(3) by (simp add: fs_defs)
  ultimately show ?thesis
    using temp fill(1) race by (simp add: identity_create_def promote_temporary_def)
qed

section \<open>Properties\<close>

text \<open>
  The identity envelope is exact. A file decodes to an identity exactly when it is the encoding of a 32-byte
  secret key, and then the identity carries that key and the device id of its public key; anything else, by a
  single byte, is refused.
\<close>

theorem identity_roundtrip:
  assumes "digest_ok blake3"
  shows "identity_decode blake3 public path bs = Ok i \<longleftrightarrow>
    length (sti_secret_key i) = 32 \<and> bs = identity_encode blake3 (sti_secret_key i) \<and>
    i = \<lparr>sti_secret_key = sti_secret_key i, sti_device_id = DeviceId (public (sti_secret_key i)), sti_path = path\<rparr>"
  by (rule identity_decode_Ok [OF assms])

theorem identity_roundtrip_witness:
  "identity_decode zero_digest (\<lambda>s. s) identity_path (identity_encode zero_digest example_secret) =
    Ok \<lparr>sti_secret_key = example_secret, sti_device_id = DeviceId example_secret, sti_path = identity_path\<rparr>"
  using identity_roundtrip [OF zero_digest_ok, of "\<lambda>s. s" identity_path "identity_encode zero_digest example_secret"
      "\<lparr>sti_secret_key = example_secret, sti_device_id = DeviceId example_secret, sti_path = identity_path\<rparr>"]
  by (simp add: example_secret_def)

text \<open>
  C9: opening the device identity never replaces anything. Whatever calls of the file system fail and even when another
  process creates the file at the same time, every node that was on the disk is still there unchanged; a path that was
  free holds nothing, the other process's file or the complete new identity, never part of one; and a success
  leaves no temporary file, is what loading the file gives again, and is the generated key when nobody interfered.
\<close>

theorem identity_never_replaced:
  assumes "digest_ok blake3" and "length generated = 32"
    and "load_or_create blake3 public fuel pid generated other path d = Some (r, d')"
  shows "(\<forall>p n. dk_nodes d p = Some n \<longrightarrow> dk_nodes d' p = Some n) \<and>
    (dk_nodes d path = None \<longrightarrow> dk_nodes d' path \<in> {None, other, Some (identity_node blake3 generated)}) \<and>
    (\<forall>i. r = Ok i \<longrightarrow> identity_load blake3 public path d' = (Ok i, d') \<and>
      dk_nodes d' = (dk_nodes d)(path := dk_nodes d' path) \<and>
      (dk_nodes d path = None \<and> other = None \<longrightarrow> sti_secret_key i = generated))"
proof -
  have fresh: "sti_secret_key i = generated"
    if "identity_load blake3 public path d' = (Ok i, d')" "dk_nodes d' path = Some (identity_node blake3 generated)" for i
    using that identity_decode_encode [OF assms(1,2)] by (auto simp: identity_load_Ok identity_node_def)
  from load_or_create_cases [OF assms(3)] show ?thesis
  proof
    assume "identity_create blake3 public fuel pid generated other path d = Some (r, d')"
    note effect = identity_create_effect [OF this]
    show ?thesis using effect(1,2) effect(3) fresh by blast
  qed auto
qed

theorem identity_never_replaced_witness:
  "\<exists>i d'. load_or_create zero_digest (\<lambda>s. s) 1 7 example_secret None identity_path empty_disk = Some (Ok i, d') \<and>
    identity_load zero_digest (\<lambda>s. s) identity_path d' = (Ok i, d') \<and> sti_secret_key i = example_secret"
proof -
  have len: "length example_secret = 32" by (simp add: example_secret_def)
  obtain d' where "identity_create zero_digest (\<lambda>s. s) 1 7 example_secret None identity_path empty_disk =
      Some (Ok \<lparr>sti_secret_key = example_secret, sti_device_id = DeviceId example_secret, sti_path = identity_path\<rparr>, d')"
    using identity_create_quiet [OF _ zero_digest_ok len, of empty_disk identity_path 1 "\<lambda>s. s" 7]
    by (auto simp: empty_disk_def identity_path_def)
  then have *: "load_or_create zero_digest (\<lambda>s. s) 1 7 example_secret None identity_path empty_disk =
      Some (Ok \<lparr>sti_secret_key = example_secret, sti_device_id = DeviceId example_secret, sti_path = identity_path\<rparr>, d')"
    by (simp add: load_or_create_def fs_defs empty_disk_def)
  with identity_never_replaced [OF zero_digest_ok len *] show ?thesis by auto
qed

text \<open>
  Opening the device identity always finishes. The search for a free temporary name ends within one more try than
  there are nodes on the disk, unless creating a file reports an existing one for another reason; and on a disk
  without faults a path that was free ends with the identity of the generated key.
\<close>

theorem identity_creation_terminates:
  assumes "digest_ok blake3" and "length generated = 32" and "finite (dom (dk_nodes d))"
    and "card (dom (dk_nodes d)) < fuel" and "fuel \<le> 2 ^ 64" and "dk_faults d ''create temporary file'' \<noteq> Some AlreadyExists"
  shows "load_or_create blake3 public fuel pid generated other path d \<noteq> None \<and>
    (dk_faults d = (\<lambda>_. None) \<and> fp_name path \<noteq> None \<and> fp_parent path \<noteq> None \<and> dk_nodes d path = None \<longrightarrow>
      (\<exists>d'. load_or_create blake3 public fuel pid generated None path d =
        Some (Ok \<lparr>sti_secret_key = generated, sti_device_id = DeviceId (public generated), sti_path = path\<rparr>, d')))"
proof
  have "create_temporary fuel pid path d \<noteq> None"
    using create_temporary_loop_terminates [OF assms(3-6)] by (auto simp: create_temporary_def split: option.splits)
  then have "identity_create blake3 public fuel pid generated other path d \<noteq> None"
    by (auto simp: identity_create_def split: option.splits prod.splits sum.splits)
  then show "load_or_create blake3 public fuel pid generated other path d \<noteq> None"
    by (auto simp: load_or_create_def fs_defs split: option.splits)
next
  show "dk_faults d = (\<lambda>_. None) \<and> fp_name path \<noteq> None \<and> fp_parent path \<noteq> None \<and> dk_nodes d path = None \<longrightarrow>
      (\<exists>d'. load_or_create blake3 public fuel pid generated None path d =
        Some (Ok \<lparr>sti_secret_key = generated, sti_device_id = DeviceId (public generated), sti_path = path\<rparr>, d'))"
    using identity_create_quiet [OF _ assms(1,2) _ _ _ assms(3-5)] by (auto simp: load_or_create_def fs_defs)
qed

theorem identity_creation_terminates_witness:
  "\<exists>d'. load_or_create zero_digest (\<lambda>s. s) 1 7 example_secret None identity_path empty_disk =
    Some (Ok \<lparr>sti_secret_key = example_secret, sti_device_id = DeviceId example_secret, sti_path = identity_path\<rparr>, d')"
  using identity_creation_terminates [OF zero_digest_ok, of example_secret empty_disk 1 "\<lambda>s. s" 7 None identity_path]
  by (simp add: empty_disk_def identity_path_def example_secret_def)

end
