(* ===== verification/Daemon_Runtime.thy ===== *)
theory Daemon_Runtime
  imports Session_Pairing Connectivity Identity_Store
begin

text \<open>
  The resident runtime of \<open>crates/rift-daemon/src/lib.rs\<close>: its registries of sessions, pending
  pairings and outbound dials, and every handler of its event loop. A connection is known to the runtime
  by a handle, a number; closing it adds the handle to the closed ones, which the environment may also do.
  A one-shot reply channel is a number, and sending on it records the value; broadcast events and commands
  to pairing tasks are recorded in order. Spawned tasks are counted; what they return comes back as an
  input of the loop. The instant, the random sample, the outcome of the file operations, the number of free
  pairing permits and whether a pairing task still receives are inputs of a handler, one value each.
\<close>

section \<open>Configuration\<close>

definition HARD_MAX_INFLIGHT_CONNECTIONS :: nat where
  "HARD_MAX_INFLIGHT_CONNECTIONS = 256"

definition HARD_MAX_ACTIVE_SESSIONS :: nat where
  "HARD_MAX_ACTIVE_SESSIONS = 128"

definition HARD_MAX_OUTBOUND_CONNECTS :: nat where
  "HARD_MAX_OUTBOUND_CONNECTS = 64"

definition MAX_DIAL_WAITERS :: nat where
  "MAX_DIAL_WAITERS = 16"

definition HARD_MAX_OWNED_TASKS :: nat where
  "HARD_MAX_OWNED_TASKS = 1024"

definition HARD_MAX_PENDING_PAIRINGS :: nat where
  "HARD_MAX_PENDING_PAIRINGS = 64"

definition HARD_MAX_IPC_CLIENTS :: nat where
  "HARD_MAX_IPC_CLIENTS = 64"

definition ERROR_MESSAGE_MAX_BYTES :: nat where
  "ERROR_MESSAGE_MAX_BYTES = 512"

record daemon_config =
  dc_device_name :: string
  dc_platform :: string
  dc_connection_timeout :: nat
  dc_handshake_timeout :: nat
  dc_pairing_timeout :: nat
  dc_max_inflight_connections :: nat
  dc_max_active_sessions :: nat
  dc_max_outbound_connects :: nat
  dc_max_pending_pairings :: nat
  dc_max_ipc_clients :: nat
  dc_shutdown_timeout :: nat

datatype daemon_error =
    Dae_InvalidConfiguration string
  | Dae_InvalidDataDirectory string
  | Dae_AlreadyRunning
  | Dae_IdentityMissingWithExistingState
  | Dae_Io string io_error_kind
  | Dae_InsecurePermissions fpath u32 u32
  | Dae_Identity identity_error
  | Dae_Trust trust_store_error
  | Dae_Session session_error
  | Dae_Transport transport_error
  | Dae_Randomness
  | Dae_DescriptorEncode
  | Dae_IpcAddressTooLong nat nat
  | Dae_NonUtf8IpcAddress
  | Dae_Task
  | Dae_ShutdownTimeout nat

definition validate_nonzero_duration :: "nat \<Rightarrow> string \<Rightarrow> (daemon_error, unit) result" where
  "validate_nonzero_duration duration name =
     (if duration = 0 then Err (Dae_InvalidConfiguration name) else Ok ())"

definition validate_count :: "nat \<Rightarrow> nat \<Rightarrow> string \<Rightarrow> (daemon_error, unit) result" where
  "validate_count value maximum name =
     (if value = 0 \<or> maximum < value then Err (Dae_InvalidConfiguration name) else Ok ())"

definition daemon_config_validate :: "daemon_config \<Rightarrow> (daemon_error, unit) result" where
  "daemon_config_validate c =
     and_then (validate_nonzero_duration (dc_connection_timeout c) ''connection_timeout'') (\<lambda>_.
     and_then (validate_nonzero_duration (dc_handshake_timeout c) ''handshake_timeout'') (\<lambda>_.
     and_then (validate_nonzero_duration (dc_pairing_timeout c) ''pairing_timeout'') (\<lambda>_.
     and_then (validate_nonzero_duration (dc_shutdown_timeout c) ''shutdown_timeout'') (\<lambda>_.
     and_then (validate_count (dc_max_inflight_connections c) HARD_MAX_INFLIGHT_CONNECTIONS
       ''max_inflight_connections'') (\<lambda>_.
     and_then (validate_count (dc_max_outbound_connects c) HARD_MAX_OUTBOUND_CONNECTS
       ''max_outbound_connects'') (\<lambda>_.
     and_then (validate_count (dc_max_active_sessions c) HARD_MAX_ACTIVE_SESSIONS
       ''max_active_sessions'') (\<lambda>_.
     and_then (validate_count (dc_max_pending_pairings c) HARD_MAX_PENDING_PAIRINGS
       ''max_pending_pairings'') (\<lambda>_.
     validate_count (dc_max_ipc_clients c) HARD_MAX_IPC_CLIENTS ''max_ipc_clients''))))))))"

section \<open>Errors\<close>

definition str_bytes :: "string \<Rightarrow> bytes" where
  "str_bytes s = map of_char s"

definition is_char_boundary :: "string \<Rightarrow> nat \<Rightarrow> bool" where
  "is_char_boundary s i =
     (i = 0 \<or> i = length s \<or> i < length s \<and> \<not> continuation_byte (of_char (s ! i)))"

fun floor_boundary :: "string \<Rightarrow> nat \<Rightarrow> nat" where
  "floor_boundary s 0 = 0"
| "floor_boundary s (Suc i) = (if is_char_boundary s (Suc i) then Suc i else floor_boundary s i)"

definition bounded_message :: "string \<Rightarrow> string" where
  "bounded_message message =
     (if length message \<le> ERROR_MESSAGE_MAX_BYTES then message
      else take (floor_boundary message ERROR_MESSAGE_MAX_BYTES) message)"

definition operation_error :: "error_code \<Rightarrow> string \<Rightarrow> error_response" where
  "operation_error code message = error_response_new code (bounded_message message)"

text \<open>The texts of errors come from the derived \<open>Display\<close> implementations.\<close>

definition persistence_error :: "(trust_store_error \<Rightarrow> string) \<Rightarrow> trust_store_error \<Rightarrow> error_response" where
  "persistence_error text e = operation_error Code_PersistenceFailed (text e)"

definition daemon_connection_error :: "transport_error \<Rightarrow> error_response" where
  "daemon_connection_error e =
     (case e of
        Unresolved _ \<Rightarrow> operation_error Code_PeerUnresolved ''no reachability source for peer''
      | IntentRejected \<Rightarrow> operation_error Code_PurposeRejected ''remote connection purpose rejected''
      | InvalidDeviceId \<Rightarrow> operation_error Code_InvalidRequest ''invalid peer identity''
      | SelfConnect \<Rightarrow> operation_error Code_InvalidRequest ''invalid peer identity''
      | HintCapacityExceeded \<Rightarrow> operation_error Code_CapacityExceeded ''peer hint capacity exceeded''
      | _ \<Rightarrow>
          if is_retryable e then operation_error Code_ConnectionFailed ''peer connection failed''
          else operation_error Code_ProtocolRejected ''connection protocol or invariant failed'')"

definition daemon_session_error :: "session_error \<Rightarrow> error_response" where
  "daemon_session_error e =
     (case e of
        Session_Intent t \<Rightarrow> daemon_connection_error t
      | PurposeNotAllowed _ _ \<Rightarrow>
          operation_error Code_PeerNotTrusted ''requested connection purpose is not allowed''
      | PeerRevoked _ \<Rightarrow> operation_error Code_PeerNotTrusted ''peer is durably revoked''
      | InvalidPairingTimeout \<Rightarrow> operation_error Code_Internal ''session manager configuration is invalid'')"

definition daemon_pairing_error ::
  "(trust_store_error \<Rightarrow> string) \<Rightarrow> (pairing_error \<Rightarrow> string) \<Rightarrow> pairing_error \<Rightarrow> error_response" where
  "daemon_pairing_error trust_text pairing_text e =
     (case e of
        Pairing_Transport _ t \<Rightarrow> daemon_connection_error t
      | Pairing_Trust t \<Rightarrow> persistence_error trust_text t
      | _ \<Rightarrow> operation_error Code_ConnectionFailed (pairing_text e))"

definition failure_category :: "error_code \<Rightarrow> connectivity_failure" where
  "failure_category code =
     (case code of
        Code_PeerUnresolved \<Rightarrow> Fail_Unresolved
      | Code_ConnectionFailed \<Rightarrow> Fail_Network
      | Code_CapacityExceeded \<Rightarrow> Fail_Capacity
      | Code_PurposeRejected \<Rightarrow> Fail_PurposeRejected
      | Code_PeerNotTrusted \<Rightarrow> Fail_NotTrusted
      | Code_PeerAlreadyTrusted \<Rightarrow> Fail_NotTrusted
      | Code_ShuttingDown \<Rightarrow> Fail_Cancelled
      | _ \<Rightarrow> Fail_Protocol)"

section \<open>The state\<close>

datatype daemon_handle_error = Handle_Stopped | Handle_Operation error_response

datatype outbound_reply = Reply_Ipc nat | Reply_Pairing nat | Reply_Session nat

datatype dial_result =
    Dial_Pairing pairing_attempt_id
  | Dial_Session device_id session_id

datatype reply_value =
    Rv_Response "(error_response, response) result"
  | Rv_Pairing "(daemon_handle_error, pairing_attempt_id) result"
  | Rv_Session "(daemon_handle_error, session_id) result"
  | Rv_Device "(error_response, device_id) result"
  | Rv_Handle "(error_response, nat) result"
  | Rv_Shutdown "(daemon_handle_error, unit) result"

datatype runtime_command =
    Cmd_SessionHandle session_id nat
  | Cmd_RememberPeer endpoint_addr nat
  | Cmd_Request request nat
  | Cmd_BeginPairing endpoint_addr nat
  | Cmd_ConnectAuthenticated endpoint_addr nat
  | Cmd_Shutdown nat

datatype pairing_command = Pcmd_Confirm bool nat | Pcmd_Cancel

datatype connection_candidate =
    Cand_Authorized nat authorized_connection
  | Cand_Pending nat pending_pairing

datatype pairing_task_result =
    Ptr_Authorized nat authorized_connection
  | Ptr_Rejected
  | Ptr_Expired
  | Ptr_Cancelled
  | Ptr_Failed error_response

datatype task_output =
    Task_Incoming "(error_response, connection_candidate) result"
  | Task_Outbound device_id u64 "(error_response, connection_candidate) result"
  | Task_PairingEnded pairing_attempt_id device_id pairing_task_result "nat option"
  | Task_SessionEnded session_id device_id session_close_reason connectivity_failure
  | Task_IpcClient

datatype session_origin = Inbound | Outbound

record outbound_record =
  or_token :: u64
  or_pairing :: bool
  or_replies :: "outbound_reply list"
  or_cancelled :: bool

record pending_record =
  pr_info :: pending_pairing_info
  pr_deadline :: nat
  pr_closer :: nat
  pr_resolving :: "bool option"
  pr_origin :: session_origin

record session_record =
  sr_origin :: session_origin
  sr_info :: session_info
  sr_closer :: nat

record daemon =
  dm_config :: daemon_config
  dm_device_id :: device_id
  dm_endpoint :: rift_endpoint
  dm_endpoint_open :: bool
  dm_trust :: trust_store
  dm_commands_open :: bool
  dm_events :: "event list"
  dm_replies :: "(nat \<times> reply_value) list"
  dm_pairing_commands :: "(pairing_attempt_id \<times> pairing_command) list"
  dm_closed :: "nat list"
  dm_tasks :: nat
  dm_pending :: "(pairing_attempt_id, pending_record) btree"
  dm_sessions :: "(session_id, session_record) btree"
  dm_next_pairing_id :: u64
  dm_next_session_id :: u64
  dm_ipc_clients :: nat
  dm_state :: runtime_state
  dm_connectivity :: scheduler
  dm_outbound :: "(device_id, outbound_record) btree"
  dm_next_dial_id :: u64

text \<open>What the code calls outside the repository, and the inputs of one handler.\<close>

record daemon_params =
  dp_blake3 :: "bytes \<Rightarrow> bytes"
  dp_codec :: "trust_mutation postcard"
  dp_valid_key :: "device_id \<Rightarrow> bool"
  dp_trust_text :: "trust_store_error \<Rightarrow> string"
  dp_version :: string

record daemon_env =
  de_now :: nat
  de_sample :: "u32 option"
  de_persist :: persist_env
  de_permits :: nat
  de_delivered :: bool

definition env_sample :: "daemon_env \<Rightarrow> u32" where
  "env_sample env = (case de_sample env of None \<Rightarrow> - 1 | Some s \<Rightarrow> s)"

section \<open>Small operations\<close>

definition replaces :: "session_origin \<Rightarrow> session_origin \<Rightarrow> device_id \<Rightarrow> device_id \<Rightarrow> bool" where
  "replaces origin existing local remote =
     (let preferred = (if local < remote then Outbound else Inbound) in
      origin = preferred \<and> existing \<noteq> preferred)"

definition emit :: "event \<Rightarrow> daemon \<Rightarrow> daemon" where
  "emit e d = d\<lparr>dm_events := dm_events d @ [e]\<rparr>"

definition send_oneshot :: "nat \<Rightarrow> reply_value \<Rightarrow> daemon \<Rightarrow> daemon" where
  "send_oneshot channel v d = d\<lparr>dm_replies := dm_replies d @ [(channel, v)]\<rparr>"

definition close_conn :: "nat \<Rightarrow> daemon \<Rightarrow> daemon" where
  "close_conn h d = d\<lparr>dm_closed := h # dm_closed d\<rparr>"

definition is_closed :: "daemon \<Rightarrow> nat \<Rightarrow> bool" where
  "is_closed d h = (h \<in> set (dm_closed d))"

definition outbound_send ::
  "(error_response, dial_result) result \<Rightarrow> outbound_reply \<Rightarrow> daemon \<Rightarrow> daemon" where
  "outbound_send r target d =
     (case target of
        Reply_Ipc c \<Rightarrow>
          send_oneshot c (Rv_Response (case r of
              Err e \<Rightarrow> Err e
            | Ok (Dial_Pairing i) \<Rightarrow> Ok (Res_PairingStarted i)
            | Ok (Dial_Session p i) \<Rightarrow> Ok (Res_PeerConnected p i))) d
      | Reply_Pairing c \<Rightarrow>
          send_oneshot c (Rv_Pairing (map_err Handle_Operation (and_then r (\<lambda>v. case v of
              Dial_Pairing i \<Rightarrow> Ok i
            | Dial_Session _ _ \<Rightarrow> Err (operation_error Code_Internal ''pairing result invariant failed''))))) d
      | Reply_Session c \<Rightarrow>
          send_oneshot c (Rv_Session (map_err Handle_Operation (and_then r (\<lambda>v. case v of
              Dial_Session _ i \<Rightarrow> Ok i
            | Dial_Pairing _ \<Rightarrow> Err (operation_error Code_Internal ''session result invariant failed''))))) d)"

definition send_all :: "(error_response, dial_result) result \<Rightarrow> outbound_reply list \<Rightarrow> daemon \<Rightarrow> daemon" where
  "send_all r targets d = fold (outbound_send r) targets d"

definition adjust_peer :: "device_id \<Rightarrow> (managed_peer \<Rightarrow> managed_peer) \<Rightarrow> daemon \<Rightarrow> daemon" where
  "adjust_peer i f d =
     d\<lparr>dm_connectivity := (dm_connectivity d)\<lparr>sc_peers := bt_adjust i f (sc_peers (dm_connectivity d))\<rparr>\<rparr>"

definition managed :: "daemon \<Rightarrow> device_id \<Rightarrow> managed_peer option" where
  "managed d i = bt_get (sc_peers (dm_connectivity d)) i"

definition canonical_session :: "daemon \<Rightarrow> device_id \<Rightarrow> session_id option" where
  "canonical_session d device_id =
     map_option fst (find (\<lambda>(_, r). si_device_id (sr_info r) = device_id \<and> \<not> is_closed d (sr_closer r)) (dm_sessions d))"

definition emit_connectivity :: "nat \<Rightarrow> device_id \<Rightarrow> daemon \<Rightarrow> daemon" where
  "emit_connectivity now device_id d =
     (case managed d device_id of
        None \<Rightarrow> d
      | Some p \<Rightarrow>
          (let info = peer_info_at device_id now p;
               signature = info\<lparr>ci_retry_in_ms := None\<rparr> in
           if cp_last_emitted p = Some signature then d
           else emit (Ev_PeerConnectivityChanged info)
             (adjust_peer device_id (\<lambda>q. q\<lparr>cp_last_emitted := Some signature\<rparr>) d)))"

definition connectivity_failed :: "daemon_env \<Rightarrow> device_id \<Rightarrow> connectivity_failure \<Rightarrow> daemon \<Rightarrow> daemon" where
  "connectivity_failed env device_id failure d =
     (case managed d device_id of
        None \<Rightarrow> d
      | Some _ \<Rightarrow>
          emit_connectivity (de_now env) device_id
            (adjust_peer device_id (peer_failed failure (de_now env) (env_sample env)) d))"

definition cancel_outbound :: "device_id \<Rightarrow> (error_response, dial_result) result \<Rightarrow> daemon \<Rightarrow> daemon" where
  "cancel_outbound device_id r d =
     (case bt_get (dm_outbound d) device_id of
        None \<Rightarrow> d
      | Some record \<Rightarrow>
          send_all r (or_replies record)
            (d\<lparr>dm_outbound := bt_adjust device_id (\<lambda>q. q\<lparr>or_cancelled := True, or_replies := []\<rparr>) (dm_outbound d)\<rparr>))"

definition allocate_pairing_id :: "daemon \<Rightarrow> (error_response, u64) result \<times> daemon" where
  "allocate_pairing_id d =
     (case checked_add (dm_next_pairing_id d) 1 of
        None \<Rightarrow> (Err (operation_error Code_Internal ''pairing attempt ID space exhausted''), d)
      | Some n \<Rightarrow> (Ok (dm_next_pairing_id d), d\<lparr>dm_next_pairing_id := n\<rparr>))"

definition allocate_session_id :: "daemon \<Rightarrow> (error_response, u64) result \<times> daemon" where
  "allocate_session_id d =
     (case checked_add (dm_next_session_id d) 1 of
        None \<Rightarrow> (Err (operation_error Code_Internal ''session ID space exhausted''), d)
      | Some n \<Rightarrow> (Ok (dm_next_session_id d), d\<lparr>dm_next_session_id := n\<rparr>))"

definition allocate_dial_id :: "daemon \<Rightarrow> (error_response, u64) result \<times> daemon" where
  "allocate_dial_id d =
     (case checked_add (dm_next_dial_id d) 1 of
        None \<Rightarrow> (Err (operation_error Code_Internal ''outbound generation exhausted''), d)
      | Some n \<Rightarrow> (Ok (dm_next_dial_id d), d\<lparr>dm_next_dial_id := n\<rparr>))"

definition u32_clamp :: "nat \<Rightarrow> u32" where
  "u32_clamp n = (if n < 2 ^ 32 then of_nat n else - 1)"

definition status :: "daemon_params \<Rightarrow> daemon \<Rightarrow> daemon_status" where
  "status ps d =
     \<lparr>sta_daemon_version = dp_version ps, sta_device_id = dm_device_id d,
      sta_device_name = dc_device_name (dm_config d), sta_platform = dc_platform (dm_config d),
      sta_state = dm_state d, sta_active_sessions = u32_clamp (length (dm_sessions d)),
      sta_pending_pairings = u32_clamp (length (dm_pending d)), sta_pairing_enabled = True\<rparr>"

definition remaining_millis :: "nat \<Rightarrow> nat \<Rightarrow> u64" where
  "remaining_millis now deadline = u64_clamp (as_millis (deadline - now))"

definition current_info :: "nat \<Rightarrow> pending_record \<Rightarrow> pending_pairing_info" where
  "current_info now r = (pr_info r)\<lparr>ppi_timeout_remaining_ms := remaining_millis now (pr_deadline r)\<rparr>"

fun peer_info_of :: "trust_entry \<Rightarrow> peer_info" where
  "peer_info_of (Entry_Trusted p) = \<lparr>pi_device_id = tp_device_id p, pi_state = TrustState_Trusted,
     pi_device_name = Some (tp_device_name p), pi_platform = Some (tp_platform p)\<rparr>"
| "peer_info_of (Entry_Revoked i) = \<lparr>pi_device_id = i, pi_state = TrustState_Revoked, pi_device_name = None, pi_platform = None\<rparr>"

text \<open>The six decimal digits of a code, \<open>{:06}\<close>; codes are below one million.\<close>

fun decimal_digits :: "nat \<Rightarrow> nat \<Rightarrow> string" where
  "decimal_digits 0 v = []"
| "decimal_digits (Suc k) v = decimal_digits k (v div 10) @ [char_of (48 + v mod 10)]"

definition code_display :: "pairing_code \<Rightarrow> string" where
  "code_display c = decimal_digits 6 (code_value c)"

section \<open>Registering connections\<close>

text \<open>A connection that goes out of scope is closed, as \<open>Drop\<close> of \<open>BootstrappedConnection\<close> and \<open>PendingPairing\<close> do.\<close>

definition drop_candidate :: "connection_candidate \<Rightarrow> daemon \<Rightarrow> daemon" where
  "drop_candidate candidate d =
     (case candidate of
        Cand_Authorized h _ \<Rightarrow> close_conn h d
      | Cand_Pending h pending \<Rightarrow> (case pp_connection pending of None \<Rightarrow> d | Some _ \<Rightarrow> close_conn h d))"

text \<open>An early return of an operation that owns the connection.\<close>

definition else_close :: "nat \<Rightarrow> (daemon \<Rightarrow> (error_response, 'a) result \<times> daemon) \<Rightarrow> daemon \<Rightarrow> (error_response, 'a) result \<times> daemon" where
  "else_close handle f d = (case f d of (Err e, d') \<Rightarrow> (Err e, close_conn handle d') | (Ok a, d') \<Rightarrow> (Ok a, d'))"

definition register_pending ::
  "daemon_env \<Rightarrow> nat \<Rightarrow> pending_pairing \<Rightarrow> session_origin \<Rightarrow> daemon \<Rightarrow>
     (error_response, pairing_attempt_id) result \<times> daemon" where
  "register_pending env handle pending origin d =
     (let device_id = tp_device_id (pp_peer pending);
          closer = map_option (\<lambda>_. handle) (pp_connection pending) in
      if trust_state_of (dm_trust d) device_id \<noteq> None \<or>
         current_generation (dm_trust d) device_id \<noteq> pp_trust_generation pending
      then (Err (operation_error Code_PeerNotTrusted ''pairing setup was invalidated before registration''),
            drop_candidate (Cand_Pending handle pending) d)
      else if dc_max_pending_pairings (dm_config d) \<le> length (dm_pending d) \<or> HARD_MAX_OWNED_TASKS - 1 \<le> dm_tasks d
      then (Err (operation_error Code_CapacityExceeded ''pending pairing capacity reached''),
            drop_candidate (Cand_Pending handle pending) d)
      else (case closer of
          None \<Rightarrow> (Err (operation_error Code_Internal ''pending pairing lost its disposable connection''), d)
        | Some h \<Rightarrow>
            st_bind (else_close h allocate_pairing_id) (\<lambda>attempt_id d1.
              (let peer = pp_peer pending;
                   info = \<lparr>ppi_attempt_id = attempt_id, ppi_device_id = tp_device_id peer,
                     ppi_device_name = tp_device_name peer, ppi_platform = tp_platform peer,
                     ppi_verification_code = code_display (pp_code pending),
                     ppi_timeout_remaining_ms = remaining_millis (de_now env) (pp_deadline pending)\<rparr> in
               (Ok attempt_id,
                emit (Ev_PairingPending info)
                  (d1\<lparr>dm_pending := bt_insert attempt_id
                      \<lparr>pr_info = info, pr_deadline = pp_deadline pending, pr_closer = h, pr_resolving = None,
                       pr_origin = origin\<rparr> (dm_pending d1),
                     dm_tasks := dm_tasks d1 + 1\<rparr>)))) d))"

text \<open>The sessions entry of a peer, whether its connection is open or not.\<close>

definition existing_session :: "daemon \<Rightarrow> device_id \<Rightarrow> (session_id \<times> session_origin \<times> bool) option" where
  "existing_session d device_id =
     map_option (\<lambda>(i, r). (i, sr_origin r, is_closed d (sr_closer r)))
       (find (\<lambda>(_, r). si_device_id (sr_info r) = device_id) (dm_sessions d))"

definition retire_session :: "daemon_env \<Rightarrow> device_id \<Rightarrow> session_id \<Rightarrow> bool \<Rightarrow> daemon \<Rightarrow> daemon" where
  "retire_session env device_id old_id closed d =
     (case bt_get (dm_sessions d) old_id of
        None \<Rightarrow> d
      | Some old \<Rightarrow>
          (let d1 = d\<lparr>dm_sessions := bt_remove old_id (dm_sessions d)\<rparr>;
               d2 = (if closed then adjust_peer device_id (peer_lost (de_now env) (env_sample env)) d1 else d1) in
           emit (Ev_SessionClosed old_id device_id (if closed then Cls_ConnectionClosed else Cls_Superseded))
             (close_conn (sr_closer old) d2)))"

definition open_session ::
  "daemon_env \<Rightarrow> nat \<Rightarrow> authorized_connection \<Rightarrow> session_origin \<Rightarrow> session_id \<Rightarrow> daemon \<Rightarrow> daemon" where
  "open_session env handle connection origin session_id d =
     (let trusted = ac_peer connection;
          device_id = tp_device_id trusted;
          info = \<lparr>si_session_id = session_id, si_device_id = device_id, si_device_name = tp_device_name trusted,
            si_platform = tp_platform trusted\<rparr>;
          d1 = d\<lparr>dm_sessions := bt_insert session_id
                  \<lparr>sr_origin = origin, sr_info = info, sr_closer = handle\<rparr> (dm_sessions d),
                 dm_tasks := dm_tasks d + 1\<rparr>;
          d2 = emit_connectivity (de_now env) device_id
                 (adjust_peer device_id (peer_connected session_id (de_now env)) d1);
          d3 = (if origin = Inbound \<and> device_id < dm_device_id d2
                then cancel_outbound device_id (Ok (Dial_Session device_id session_id)) d2 else d2) in
      emit (Ev_SessionOpened info) d3)"

definition register_session ::
  "daemon_env \<Rightarrow> nat \<Rightarrow> authorized_connection \<Rightarrow> session_origin \<Rightarrow> daemon \<Rightarrow>
     (error_response, session_id) result \<times> daemon" where
  "register_session env handle connection origin d =
     (let device_id = tp_device_id (ac_peer connection) in
      if trust_state_of (dm_trust d) device_id \<noteq> Some TrustState_Trusted \<or>
         current_generation (dm_trust d) device_id \<noteq> ac_trust_generation connection
      then (Err (operation_error Code_PeerNotTrusted ''durable trust no longer authorizes this peer''), close_conn handle d)
      else if is_closed d handle
      then (ok_or (canonical_session d device_id)
              (operation_error Code_ConnectionFailed ''candidate connection already closed''), d)
      else (case scheduler_insert device_id (de_now env) (dm_connectivity d) of
          (False, sc) \<Rightarrow>
            (Err (operation_error Code_CapacityExceeded ''connectivity peer capacity reached''),
             close_conn handle (d\<lparr>dm_connectivity := sc\<rparr>))
        | (True, sc) \<Rightarrow>
            (let d1 = d\<lparr>dm_connectivity := sc\<rparr>;
                 existing = existing_session d1 device_id;
                 verdict = (case existing of
                     Some (session_id, existing_origin, closed) \<Rightarrow>
                       if \<not> closed \<and> \<not> replaces origin existing_origin (dm_device_id d1) device_id
                       then Some (Ok session_id) else None
                   | None \<Rightarrow>
                       if dc_max_active_sessions (dm_config d1) \<le> length (dm_sessions d1)
                       then Some (Err (operation_error Code_CapacityExceeded ''active session capacity reached''))
                       else None) in
             case verdict of
               Some r \<Rightarrow> (r, close_conn handle d1)
             | None \<Rightarrow>
                 if HARD_MAX_OWNED_TASKS - 1 \<le> dm_tasks d1
                 then (Err (operation_error Code_CapacityExceeded ''owned task capacity reached''), close_conn handle d1)
                 else st_bind (else_close handle allocate_session_id) (\<lambda>session_id d2.
                   (Ok session_id,
                    open_session env handle connection origin session_id
                      (case existing of
                         None \<Rightarrow> d2
                       | Some (old_id, _, closed) \<Rightarrow> retire_session env device_id old_id closed d2))) d1)))"

definition register_candidate ::
  "daemon_env \<Rightarrow> connection_candidate \<Rightarrow> daemon \<Rightarrow> (error_response, unit) result \<times> daemon" where
  "register_candidate env candidate d =
     (case candidate of
        Cand_Authorized h connection \<Rightarrow> discard (register_session env h connection Inbound d)
      | Cand_Pending h pending \<Rightarrow> discard (register_pending env h pending Inbound d))"

definition finish_pairing ::
  "daemon_env \<Rightarrow> pairing_attempt_id \<Rightarrow> device_id \<Rightarrow> pairing_task_result \<Rightarrow> nat option \<Rightarrow> daemon \<Rightarrow> daemon" where
  "finish_pairing env attempt_id device_id result channel d =
     (let record = bt_get (dm_pending d) attempt_id;
          d1 = d\<lparr>dm_pending := bt_remove attempt_id (dm_pending d)\<rparr>;
          origin = (case record of None \<Rightarrow> Inbound | Some r \<Rightarrow> pr_origin r);
          (outcome, response, d2) = (case result of
              Ptr_Authorized h connection \<Rightarrow>
                if record \<noteq> None then
                  (case register_session env h connection origin d1 of
                     (Ok session_id, d2) \<Rightarrow>
                       (Out_Accepted, Ok (Res_PairingResolved attempt_id True (Some session_id)), d2)
                   | (Err e, d2) \<Rightarrow> (Out_Failed, Err e, d2))
                else (Out_Cancelled,
                      Err (operation_error Code_PairingNotFound ''pairing was invalidated before authorization''),
                      close_conn h d1)
            | Ptr_Rejected \<Rightarrow> (Out_Rejected, Ok (Res_PairingResolved attempt_id False None), d1)
            | Ptr_Expired \<Rightarrow>
                (Out_Expired, Err (operation_error Code_PairingNotFound ''pairing confirmation expired''), d1)
            | Ptr_Cancelled \<Rightarrow>
                (Out_Cancelled, Err (operation_error Code_PairingNotFound ''pairing was cancelled''), d1)
            | Ptr_Failed e \<Rightarrow> (Out_Failed, Err e, d1));
          d3 = (if record \<noteq> None then emit (Ev_PairingResolved attempt_id device_id outcome) d2 else d2) in
      case channel of None \<Rightarrow> d3 | Some c \<Rightarrow> send_oneshot c (Rv_Response response) d3)"

section \<open>Invalidation\<close>

definition drop_pending :: "daemon_env \<Rightarrow> device_id \<Rightarrow> pairing_attempt_id \<Rightarrow> daemon \<Rightarrow> daemon" where
  "drop_pending env device_id attempt_id d =
     (case bt_get (dm_pending d) attempt_id of
        None \<Rightarrow> d
      | Some r \<Rightarrow>
          (let d1 = close_conn (pr_closer r) (d\<lparr>dm_pending := bt_remove attempt_id (dm_pending d)\<rparr>);
               d2 = (if de_delivered env
                     then d1\<lparr>dm_pairing_commands := dm_pairing_commands d1 @ [(attempt_id, Pcmd_Cancel)]\<rparr> else d1) in
           emit (Ev_PairingResolved attempt_id device_id Out_Cancelled) d2))"

definition drop_session :: "device_id \<Rightarrow> session_close_reason \<Rightarrow> session_id \<Rightarrow> daemon \<Rightarrow> daemon" where
  "drop_session device_id reason i d =
     (case bt_get (dm_sessions d) i of
        None \<Rightarrow> d
      | Some r \<Rightarrow>
          emit (Ev_SessionClosed i device_id reason)
            (close_conn (sr_closer r) (d\<lparr>dm_sessions := bt_remove i (dm_sessions d)\<rparr>)))"

definition invalidate_peer :: "daemon_env \<Rightarrow> device_id \<Rightarrow> session_close_reason \<Rightarrow> daemon \<Rightarrow> daemon" where
  "invalidate_peer env device_id reason d =
     (let d1 = (case managed d device_id of
            None \<Rightarrow> d
          | Some _ \<Rightarrow> emit_connectivity (de_now env) device_id
              (adjust_peer device_id (\<lambda>p. peer_failed Fail_NotTrusted (de_now env) 0 (p\<lparr>cp_session_id := None\<rparr>)) d));
          d2 = d1\<lparr>dm_connectivity := (dm_connectivity d1)\<lparr>sc_peers := bt_remove device_id (sc_peers (dm_connectivity d1))\<rparr>\<rparr>;
          d3 = cancel_outbound device_id
            (Err (operation_error Code_PeerNotTrusted ''durable trust invalidated outbound work'')) d2;
          d4 = fold (drop_pending env device_id)
            (map fst (filter (\<lambda>(_, r). ppi_device_id (pr_info r) = device_id) (dm_pending d3))) d3 in
      fold (drop_session device_id reason)
        (map fst (filter (\<lambda>(_, r). si_device_id (sr_info r) = device_id) (dm_sessions d4))) d4)"

section \<open>Dialling\<close>

definition MAX_DIAL_ERROR :: error_response where
  "MAX_DIAL_ERROR = operation_error Code_CapacityExceeded ''peer already has bounded outbound work''"

definition dial_busy :: "bool \<Rightarrow> outbound_record \<Rightarrow> bool" where
  "dial_busy pairing r = (or_cancelled r \<or> pairing \<or> or_pairing r \<or> MAX_DIAL_WAITERS \<le> length (or_replies r))"

text \<open>The checks and changes for a dial that is not for pairing, before the outbound registry is consulted.\<close>

definition manage_dial ::
  "daemon_env \<Rightarrow> device_id \<Rightarrow> bool \<Rightarrow> daemon \<Rightarrow> (error_response, session_id option) result \<times> daemon" where
  "manage_dial env device_id manual d =
     (case scheduler_insert device_id (de_now env) (dm_connectivity d) of
        (False, sc) \<Rightarrow>
          (Err (operation_error Code_CapacityExceeded ''connectivity peer capacity reached''), d\<lparr>dm_connectivity := sc\<rparr>)
      | (True, sc) \<Rightarrow>
          (let d1 = d\<lparr>dm_connectivity := sc\<rparr>;
               busy = (case bt_get (dm_outbound d1) device_id of None \<Rightarrow> False | Some r \<Rightarrow> dial_busy False r) in
           if canonical_session d1 device_id = None \<and> busy then (Err MAX_DIAL_ERROR, d1)
           else (let d2 = (if manual then adjust_peer device_id (peer_resume (de_now env)) d1 else d1) in
             (Ok (canonical_session d2 device_id), d2))))"

definition set_connecting :: "device_id \<Rightarrow> daemon \<Rightarrow> daemon" where
  "set_connecting device_id d = adjust_peer device_id (\<lambda>p. p\<lparr>cp_state := Con_Connecting, cp_due := None\<rparr>) d"

definition spawn_dial ::
  "daemon_params \<Rightarrow> daemon_env \<Rightarrow> device_id \<Rightarrow> bool \<Rightarrow> daemon \<Rightarrow> (error_response, session_id option) result \<times> daemon" where
  "spawn_dial ps env device_id pairing d =
     (if dc_max_outbound_connects (dm_config d) \<le> length (dm_outbound d) \<or> HARD_MAX_OWNED_TASKS \<le> dm_tasks d
      then (Err (operation_error Code_CapacityExceeded ''outbound setup capacity reached''), d)
      else if pairing \<and> (de_permits env = 0 \<or>
          list_ex (\<lambda>r. ppi_device_id (pr_info r) = device_id) (bt_values (dm_pending d)))
      then (Err (operation_error Code_CapacityExceeded ''pending pairing capacity reached''), d)
      else (case map_err daemon_connection_error (has_route_source (dp_valid_key ps) device_id (dm_endpoint d)) of
          Err e \<Rightarrow> (Err e, d)
        | Ok False \<Rightarrow> (Err (operation_error Code_PeerUnresolved ''no reachability source for peer''), d)
        | Ok True \<Rightarrow>
            st_bind allocate_dial_id (\<lambda>token d1.
              (Ok None,
               (emit_connectivity (de_now env) device_id
                 (set_connecting device_id
                   (d1\<lparr>dm_outbound := bt_insert device_id
                        \<lparr>or_token = token, or_pairing = pairing, or_replies = [], or_cancelled = False\<rparr> (dm_outbound d1)\<rparr>)))
                 \<lparr>dm_tasks := dm_tasks d1 + 1\<rparr>)) d))"

definition start_outbound ::
  "daemon_params \<Rightarrow> daemon_env \<Rightarrow> device_id \<Rightarrow> bool \<Rightarrow> bool \<Rightarrow> daemon \<Rightarrow>
     (error_response, session_id option) result \<times> daemon" where
  "start_outbound ps env device_id pairing manual d =
     (if dm_state d \<noteq> Rt_Running then (Err (operation_error Code_ShuttingDown ''daemon is shutting down''), d)
      else if device_id = dm_device_id d
      then (Err (operation_error Code_InvalidRequest ''cannot dial the local device''), d)
      else (case (trust_state_of (dm_trust d) device_id, pairing) of
          (Some TrustState_Trusted, True) \<Rightarrow> (Err (operation_error Code_PeerAlreadyTrusted ''peer is already trusted''), d)
        | (state, _) \<Rightarrow>
            if state \<noteq> (if pairing then None else Some TrustState_Trusted)
            then (Err (operation_error Code_PeerNotTrusted ''peer is not eligible for requested purpose''), d)
            else if (case bt_get (dm_outbound d) device_id of None \<Rightarrow> False | Some r \<Rightarrow> or_cancelled r) \<and>
                canonical_session d device_id = None
            then (Err (operation_error Code_CapacityExceeded ''cancelled outbound task is still being joined''), d)
            else st_bind (if pairing then (\<lambda>d. (Ok None, d)) else manage_dial env device_id manual) (\<lambda>live d1.
              case live of
                Some i \<Rightarrow> (Ok (Some i), d1)
              | None \<Rightarrow>
                  (case bt_get (dm_outbound d1) device_id of
                     Some r \<Rightarrow>
                       if dial_busy pairing r then (Err MAX_DIAL_ERROR, d1)
                       else (Ok None, set_connecting device_id d1)
                   | None \<Rightarrow> spawn_dial ps env device_id pairing d1)) d))"

definition spawn_outbound ::
  "daemon_params \<Rightarrow> daemon_env \<Rightarrow> device_id \<Rightarrow> bool \<Rightarrow> outbound_reply option \<Rightarrow> daemon \<Rightarrow> daemon" where
  "spawn_outbound ps env device_id pairing target d =
     (case start_outbound ps env device_id pairing (target \<noteq> None) d of
        (Ok (Some i), d1) \<Rightarrow>
          (case target of None \<Rightarrow> d1 | Some t \<Rightarrow> outbound_send (Ok (Dial_Session device_id i)) t d1)
      | (Ok None, d1) \<Rightarrow>
          (case target of
             None \<Rightarrow> d1
           | Some t \<Rightarrow>
               (case bt_get (dm_outbound d1) device_id of
                  Some _ \<Rightarrow>
                    d1\<lparr>dm_outbound := bt_adjust device_id (\<lambda>q. q\<lparr>or_replies := or_replies q @ [t]\<rparr>) (dm_outbound d1)\<rparr>
                | None \<Rightarrow> outbound_send (Err (operation_error Code_Internal ''outbound registry invariant failed'')) t d1))
      | (Err e, d1) \<Rightarrow>
          (let d2 = (if \<not> pairing \<and> canonical_session d1 device_id = None \<and> \<not> bt_contains (dm_outbound d1) device_id
                     then connectivity_failed env device_id (failure_category (er_code e)) d1 else d1) in
           case target of None \<Rightarrow> d2 | Some t \<Rightarrow> outbound_send (Err e) t d2))"

section \<open>Requests\<close>

definition page_limit :: "u16 \<Rightarrow> nat" where
  "page_limit limit = unat (min limit MAX_PEER_PAGE_SIZE)"

definition list_peers ::
  "daemon_params \<Rightarrow> device_id option \<Rightarrow> u16 \<Rightarrow> daemon \<Rightarrow> (error_response, response) result" where
  "list_peers ps after limit d =
     (if limit = 0 then Err (operation_error Code_InvalidRequest ''peer page limit must be greater than zero'')
      else and_then (map_err (persistence_error (dp_trust_text ps)) (list_page (dm_trust d) after (page_limit limit))) (\<lambda>page.
        Ok (Res_Peers \<lparr>ppg_entries = map peer_info_of (page_entries page), ppg_next_cursor = page_next_cursor page\<rparr>)))"

definition connectivity_entries :: "nat \<Rightarrow> scheduler \<Rightarrow> connectivity_info list" where
  "connectivity_entries now sc = map (\<lambda>(i, p). peer_info_at i now p) (sc_peers sc)"

definition connectivity_page_of ::
  "nat \<Rightarrow> scheduler \<Rightarrow> nat \<Rightarrow> device_id option \<Rightarrow> connectivity_info list \<times> device_id option" where
  "connectivity_page_of now sc limit after =
     (let entries = map (\<lambda>(i, p). peer_info_at i now p)
            (take (limit + 1) (filter (\<lambda>(i, _). case after of None \<Rightarrow> True | Some a \<Rightarrow> a < i) (sc_peers sc))) in
      if limit < length entries
      then (butlast entries,
            (if butlast entries = [] then None else Some (ci_device_id (last (butlast entries)))))
      else (entries, None))"

definition list_connectivity ::
  "nat \<Rightarrow> device_id option \<Rightarrow> u16 \<Rightarrow> daemon \<Rightarrow> (error_response, response) result" where
  "list_connectivity now after limit d =
     (if limit = 0 then Err (operation_error Code_InvalidRequest ''peer page limit must be greater than zero'')
      else (case connectivity_page_of now (dm_connectivity d) (page_limit limit) after of
          (entries, next_cursor) \<Rightarrow>
            Ok (Res_PeerConnectivity \<lparr>cpg_entries = entries, cpg_next_cursor = next_cursor\<rparr>)))"

definition revoke_peer ::
  "daemon_params \<Rightarrow> daemon_env \<Rightarrow> device_id \<Rightarrow> daemon \<Rightarrow> (error_response, response) result \<times> daemon" where
  "revoke_peer ps env device_id d =
     (case revoke (dp_blake3 ps) (dp_codec ps) (de_persist env) device_id (dm_trust d) of
        (Err e, store) \<Rightarrow> (Err (persistence_error (dp_trust_text ps) e), d\<lparr>dm_trust := store\<rparr>)
      | (Ok _, store) \<Rightarrow>
          (Ok (Res_PeerRevoked device_id),
           emit (Ev_TrustChanged device_id (Some TrustState_Revoked))
             (invalidate_peer env device_id Cls_Revoked (d\<lparr>dm_trust := store\<rparr>))))"

definition forget_peer ::
  "daemon_params \<Rightarrow> daemon_env \<Rightarrow> device_id \<Rightarrow> daemon \<Rightarrow> (error_response, response) result \<times> daemon" where
  "forget_peer ps env device_id d =
     (case forget (dp_blake3 ps) (dp_codec ps) (de_persist env) device_id (dm_trust d) of
        (Err e, store) \<Rightarrow> (Err (persistence_error (dp_trust_text ps) e), d\<lparr>dm_trust := store\<rparr>)
      | (Ok _, store) \<Rightarrow>
          (Ok (Res_PeerForgotten device_id),
           emit (Ev_TrustChanged device_id None)
             (invalidate_peer env device_id Cls_Forgotten (d\<lparr>dm_trust := store\<rparr>))))"

definition disconnect_session ::
  "daemon_env \<Rightarrow> session_id \<Rightarrow> daemon \<Rightarrow> (error_response, response) result \<times> daemon" where
  "disconnect_session env i d =
     (case bt_get (dm_sessions d) i of
        None \<Rightarrow> (Err (operation_error Code_SessionNotFound ''active session was not found''), d)
      | Some r \<Rightarrow>
          (let device_id = si_device_id (sr_info r);
               d1 = d\<lparr>dm_sessions := bt_remove i (dm_sessions d)\<rparr>;
               d2 = adjust_peer device_id (\<lambda>p. peer_lost (de_now env) 0 (peer_suspend p)) d1;
               d3 = cancel_outbound device_id
                 (Err (operation_error Code_ConnectionFailed ''local outbound reconnect suspended'')) d2;
               d4 = close_conn (sr_closer r) (emit_connectivity (de_now env) device_id d3) in
           (Ok (Res_SessionDisconnected i), emit (Ev_SessionClosed i device_id Cls_Disconnected) d4)))"

definition execute_request ::
  "daemon_params \<Rightarrow> daemon_env \<Rightarrow> request \<Rightarrow> daemon \<Rightarrow> (error_response, response) result \<times> daemon" where
  "execute_request ps env request d =
     (case request of
        Req_GetStatus \<Rightarrow> (Ok (Res_Status (status ps d)), d)
      | Req_ListPeers after limit \<Rightarrow> (list_peers ps after limit d, d)
      | Req_ListPeerConnectivity after limit \<Rightarrow> (list_connectivity (de_now env) after limit d, d)
      | Req_ListSessions \<Rightarrow> (Ok (Res_Sessions (map sr_info (bt_values (dm_sessions d)))), d)
      | Req_ListPendingPairings \<Rightarrow>
          (Ok (Res_PendingPairings (map (current_info (de_now env)) (bt_values (dm_pending d)))), d)
      | Req_RevokePeer device_id \<Rightarrow> revoke_peer ps env device_id d
      | Req_ForgetPeer device_id \<Rightarrow> forget_peer ps env device_id d
      | Req_DisconnectSession i \<Rightarrow> disconnect_session env i d
      | _ \<Rightarrow> (Err (operation_error Code_Internal ''pairing confirmation dispatch invariant failed''), d))"

definition confirm_pairing ::
  "daemon_env \<Rightarrow> pairing_attempt_id \<Rightarrow> bool \<Rightarrow> nat \<Rightarrow> daemon \<Rightarrow> daemon" where
  "confirm_pairing env attempt_id accepted channel d =
     (let resolving = length (filter (\<lambda>r. pr_resolving r = Some True) (bt_values (dm_pending d))) in
      if accepted \<and> MAX_MANAGED_PEERS \<le> length (sc_peers (dm_connectivity d)) + resolving
      then send_oneshot channel (Rv_Response (Err (operation_error Code_CapacityExceeded
             ''managed peer capacity reached before trust confirmation''))) d
      else (case bt_get (dm_pending d) attempt_id of
          None \<Rightarrow> send_oneshot channel (Rv_Response (Err (operation_error Code_PairingNotFound
            ''pending pairing was not found''))) d
        | Some r \<Rightarrow>
            if pr_resolving r \<noteq> None
            then send_oneshot channel (Rv_Response (Err (operation_error Code_PairingNotFound
              ''pending pairing is already resolving''))) d
            else (let d1 = d\<lparr>dm_pending := bt_adjust attempt_id (\<lambda>q. q\<lparr>pr_resolving := Some accepted\<rparr>) (dm_pending d)\<rparr> in
              if de_delivered env
              then d1\<lparr>dm_pairing_commands := dm_pairing_commands d1 @ [(attempt_id, Pcmd_Confirm accepted channel)]\<rparr>
              else d1\<lparr>dm_pending := bt_remove attempt_id (dm_pending d1)\<rparr>)))"

definition remember_and_dial ::
  "daemon_params \<Rightarrow> daemon_env \<Rightarrow> endpoint_addr \<Rightarrow> bool \<Rightarrow> outbound_reply \<Rightarrow> daemon \<Rightarrow> daemon" where
  "remember_and_dial ps env addr pairing target d =
     (case remember_peer_addr addr (dm_endpoint d) of
        (Ok device_id, ep) \<Rightarrow> spawn_outbound ps env device_id pairing (Some target) (d\<lparr>dm_endpoint := ep\<rparr>)
      | (Err e, ep) \<Rightarrow> outbound_send (Err (daemon_connection_error e)) target (d\<lparr>dm_endpoint := ep\<rparr>))"

definition handle_command :: "daemon_params \<Rightarrow> daemon_env \<Rightarrow> runtime_command \<Rightarrow> daemon \<Rightarrow> daemon" where
  "handle_command ps env command d =
     (case command of
        Cmd_Request request channel \<Rightarrow>
          (case request of
             Req_ConfirmPairing attempt_id accepted \<Rightarrow> confirm_pairing env attempt_id accepted channel d
           | Req_BeginPairing device_id \<Rightarrow> spawn_outbound ps env device_id True (Some (Reply_Ipc channel)) d
           | Req_ConnectPeer device_id \<Rightarrow> spawn_outbound ps env device_id False (Some (Reply_Ipc channel)) d
           | _ \<Rightarrow>
               (case execute_request ps env request d of
                  (r, d1) \<Rightarrow> send_oneshot channel (Rv_Response r) d1))
      | Cmd_BeginPairing addr channel \<Rightarrow> remember_and_dial ps env addr True (Reply_Pairing channel) d
      | Cmd_ConnectAuthenticated addr channel \<Rightarrow> remember_and_dial ps env addr False (Reply_Session channel) d
      | Cmd_SessionHandle i channel \<Rightarrow>
          send_oneshot channel (Rv_Handle (ok_or (map_option sr_closer (bt_get (dm_sessions d) i))
            (operation_error Code_SessionNotFound ''active session was not found''))) d
      | Cmd_RememberPeer addr channel \<Rightarrow>
          (case remember_peer_addr addr (dm_endpoint d) of
             (r, ep) \<Rightarrow>
               (let d1 = d\<lparr>dm_endpoint := ep\<rparr>;
                    d2 = (case r of
                        Err _ \<Rightarrow> d1
                      | Ok i \<Rightarrow>
                          (case managed d1 i of
                             None \<Rightarrow> d1
                           | Some p \<Rightarrow>
                               if cp_state p = Con_Unresolved \<and> \<not> cp_suspended p
                               then emit_connectivity (de_now env) i (adjust_peer i (peer_resume (de_now env)) d1)
                               else d1)) in
                send_oneshot channel (Rv_Device (map_err daemon_connection_error r)) d2))
      | Cmd_Shutdown channel \<Rightarrow>
          send_oneshot channel (Rv_Shutdown (Err (Handle_Operation (operation_error Code_ShuttingDown
            ''daemon shutdown is already in progress'')))) d)"

section \<open>Task results\<close>

definition register_dialed ::
  "daemon_env \<Rightarrow> device_id \<Rightarrow> outbound_record \<Rightarrow> (error_response, connection_candidate) result \<Rightarrow> daemon \<Rightarrow>
     (error_response, dial_result) result \<times> daemon" where
  "register_dialed env device_id record result d =
     (case result of
        Ok (Cand_Pending h pending) \<Rightarrow>
          if or_pairing record then reply Dial_Pairing (register_pending env h pending Outbound d)
          else (Err (operation_error Code_Internal ''outbound purpose invariant failed''), drop_candidate (Cand_Pending h pending) d)
      | Ok (Cand_Authorized h connection) \<Rightarrow>
          if \<not> or_pairing record then reply (Dial_Session device_id) (register_session env h connection Outbound d)
          else (Err (operation_error Code_Internal ''outbound purpose invariant failed''), drop_candidate (Cand_Authorized h connection) d)
      | Err e \<Rightarrow> (Err e, d))"

definition finish_outbound ::
  "daemon_env \<Rightarrow> device_id \<Rightarrow> outbound_record \<Rightarrow> (error_response, connection_candidate) result \<Rightarrow> daemon \<Rightarrow> daemon" where
  "finish_outbound env device_id record result d =
     (let (r1, d1) = register_dialed env device_id record result d;
          d2 = (case r1 of
              Err e \<Rightarrow>
                if \<not> or_pairing record \<and> canonical_session d1 device_id = None
                then connectivity_failed env device_id (failure_category (er_code e)) d1 else d1
            | Ok _ \<Rightarrow> d1);
          r2 = (if \<not> or_pairing record
                then (case canonical_session d2 device_id of None \<Rightarrow> r1 | Some i \<Rightarrow> Ok (Dial_Session device_id i))
                else r1) in
      send_all r2 (or_replies record) d2)"

definition session_ended ::
  "daemon_env \<Rightarrow> session_id \<Rightarrow> device_id \<Rightarrow> session_close_reason \<Rightarrow> connectivity_failure \<Rightarrow> daemon \<Rightarrow> daemon" where
  "session_ended env i device_id reason failure d =
     (if bt_get (dm_sessions d) i = None then d
      else (let d1 = d\<lparr>dm_sessions := bt_remove i (dm_sessions d)\<rparr>;
                d2 = (case managed d1 device_id of
                    None \<Rightarrow> d1
                  | Some _ \<Rightarrow> emit_connectivity (de_now env) device_id (adjust_peer device_id (\<lambda>p.
                      let q = peer_lost (de_now env) (env_sample env) p in
                      if failure \<noteq> Fail_Network \<and> \<not> cp_suspended q then peer_failed failure (de_now env) 0 q else q) d1)) in
            emit (Ev_SessionClosed i device_id reason) d2))"

definition drop_result :: "(error_response, connection_candidate) result \<Rightarrow> daemon \<Rightarrow> daemon" where
  "drop_result result d = (case result of Err _ \<Rightarrow> d | Ok candidate \<Rightarrow> drop_candidate candidate d)"

definition handle_task_output :: "daemon_env \<Rightarrow> task_output \<Rightarrow> daemon \<Rightarrow> bool \<times> daemon" where
  "handle_task_output env output d =
     (case output of
        Task_Incoming (Ok candidate) \<Rightarrow> (True, snd (register_candidate env candidate d))
      | Task_Incoming (Err _) \<Rightarrow> (True, d)
      | Task_Outbound device_id token result \<Rightarrow>
          (False,
           (case bt_get (dm_outbound d) device_id of
              None \<Rightarrow> drop_result result d
            | Some record \<Rightarrow>
                if or_token record \<noteq> token then drop_result result d
                else (let d1 = d\<lparr>dm_outbound := bt_remove device_id (dm_outbound d)\<rparr> in
                  if or_cancelled record then drop_result result d1 else finish_outbound env device_id record result d1)))
      | Task_PairingEnded attempt_id device_id result channel \<Rightarrow>
          (False, finish_pairing env attempt_id device_id result channel d)
      | Task_SessionEnded i device_id reason failure \<Rightarrow> (False, session_ended env i device_id reason failure d)
      | Task_IpcClient \<Rightarrow> (False, d\<lparr>dm_ipc_clients := dm_ipc_clients d - 1\<rparr>))"

section \<open>Startup\<close>

fun load_entries :: "nat \<Rightarrow> device_id \<Rightarrow> trust_entry list \<Rightarrow> scheduler \<Rightarrow> (daemon_error, scheduler) result" where
  "load_entries now device_id [] sc = Ok sc"
| "load_entries now device_id (Entry_Revoked _ # es) sc = load_entries now device_id es sc"
| "load_entries now device_id (Entry_Trusted peer # es) sc =
     (if tp_device_id peer = device_id then load_entries now device_id es sc
      else (case scheduler_insert (tp_device_id peer) now sc of
          (True, sc') \<Rightarrow> load_entries now device_id es sc'
        | (False, _) \<Rightarrow> Err (Dae_InvalidConfiguration ''trusted peer connectivity capacity exceeded'')))"

text \<open>The loop over the pages of the trust store; the fuel bounds the pages read.\<close>

fun load_peers ::
  "nat \<Rightarrow> trust_store \<Rightarrow> nat \<Rightarrow> device_id \<Rightarrow> device_id option \<Rightarrow> scheduler \<Rightarrow> (daemon_error, scheduler) result option" where
  "load_peers 0 store now device_id after sc = None"
| "load_peers (Suc fuel) store now device_id after sc =
     (case list_page store after (unat MAX_PEER_PAGE_SIZE) of
        Err e \<Rightarrow> Some (Err (Dae_Trust e))
      | Ok page \<Rightarrow>
          (case load_entries now device_id (page_entries page) sc of
             Err e \<Rightarrow> Some (Err e)
           | Ok sc' \<Rightarrow>
               (case page_next_cursor page of
                  None \<Rightarrow> Some (Ok sc')
                | Some cursor \<Rightarrow> load_peers fuel store now device_id (Some cursor) sc')))"

text \<open>The runtime that starting returns, from what was opened, bound and loaded.\<close>

definition daemon_ready ::
  "daemon_config \<Rightarrow> device_id \<Rightarrow> rift_endpoint \<Rightarrow> trust_store \<Rightarrow> scheduler \<Rightarrow> daemon" where
  "daemon_ready config device_id endpoint store sc =
     \<lparr>dm_config = config, dm_device_id = device_id, dm_endpoint = endpoint, dm_endpoint_open = True, dm_trust = store,
      dm_commands_open = True, dm_events = [], dm_replies = [], dm_pairing_commands = [], dm_closed = [], dm_tasks = 0,
      dm_pending = [], dm_sessions = [], dm_next_pairing_id = 1, dm_next_session_id = 1, dm_ipc_clients = 0,
      dm_state = Rt_Running, dm_connectivity = sc, dm_outbound = [], dm_next_dial_id = 1\<rparr>"

section \<open>The event loop\<close>

definition spawn_accept_worker :: "daemon \<Rightarrow> daemon" where
  "spawn_accept_worker d = d\<lparr>dm_tasks := dm_tasks d + 1\<rparr>"

definition spawn_ipc_client :: "daemon \<Rightarrow> daemon" where
  "spawn_ipc_client d = d\<lparr>dm_ipc_clients := dm_ipc_clients d + 1, dm_tasks := dm_tasks d + 1\<rparr>"

definition dial_due :: "daemon_params \<Rightarrow> daemon_env \<Rightarrow> daemon \<Rightarrow> daemon" where
  "dial_due ps env d =
     (case take_due (de_now env) (dm_connectivity d) of
        (None, sc) \<Rightarrow> d\<lparr>dm_connectivity := sc\<rparr>
      | (Some device_id, sc) \<Rightarrow> spawn_outbound ps env device_id False None (d\<lparr>dm_connectivity := sc\<rparr>))"

definition join_task :: "daemon_env \<Rightarrow> task_output \<Rightarrow> daemon \<Rightarrow> daemon" where
  "join_task env output d =
     (case handle_task_output env output (d\<lparr>dm_tasks := dm_tasks d - 1\<rparr>) of
        (respawn, d1) \<Rightarrow> if respawn then spawn_accept_worker d1 else d1)"

text \<open>
  The turns of the loop, and what happens around it: a connection closes, or a pairing task
  commits trust in a peer. A session or pairing task returns the identity it was spawned with.
\<close>

definition from_task :: "daemon \<Rightarrow> task_output \<Rightarrow> bool" where
  "from_task d output =
     (case output of
        Task_SessionEnded i device_id _ _ \<Rightarrow>
          (case bt_get (dm_sessions d) i of None \<Rightarrow> True | Some r \<Rightarrow> si_device_id (sr_info r) = device_id)
      | Task_PairingEnded i device_id _ _ \<Rightarrow>
          (case bt_get (dm_pending d) i of None \<Rightarrow> True | Some r \<Rightarrow> ppi_device_id (pr_info r) = device_id)
      | _ \<Rightarrow> True)"

inductive loop_step :: "daemon_params \<Rightarrow> daemon \<Rightarrow> daemon \<Rightarrow> bool" for ps :: daemon_params where
  turn_dial: "length (dm_outbound d) < dc_max_outbound_connects (dm_config d) \<Longrightarrow> loop_step ps d (dial_due ps env d)"
| turn_ipc: "dm_ipc_clients d < dc_max_ipc_clients (dm_config d) \<Longrightarrow> dm_tasks d < HARD_MAX_OWNED_TASKS \<Longrightarrow>
    loop_step ps d (spawn_ipc_client d)"
| turn_command: "(\<And>channel. command \<noteq> Cmd_Shutdown channel) \<Longrightarrow> loop_step ps d (handle_command ps env command d)"
| turn_task: "0 < dm_tasks d \<Longrightarrow> from_task d output \<Longrightarrow> loop_step ps d (join_task env output d)"
| conn_closes: "loop_step ps d (close_conn h d)"
| pairing_commits: "trust_if_generation (dp_blake3 ps) (dp_codec ps) penv p g (dm_trust d) = (r, store) \<Longrightarrow>
    loop_step ps d (d\<lparr>dm_trust := store\<rparr>)"

text \<open>
  The loop starts on a loaded runtime with the accept workers spawned. The fuel is one more than the number of
  decisions, which is enough.
\<close>

definition loop_initial :: "daemon \<Rightarrow> bool" where
  "loop_initial d = (\<exists>config device_id endpoint store now sc.
     daemon_config_validate config = Ok () \<and> decisions_wf (ts_decisions store) \<and>
     load_peers (length (ts_decisions store) + 1) store now device_id None (scheduler_new now) = Some (Ok sc) \<and>
     d = (spawn_accept_worker ^^ dc_max_inflight_connections config)
       (daemon_ready config device_id endpoint store sc))"

text \<open>
  Shutting down. The outcomes of removing the descriptor, of the final cleanup and of releasing the lock
  are arguments, as is how joining the owned tasks ended: all joined; one failed while others were left; the
  deadline passed and the rest were aborted; or one of the aborted ones failed, which returns at once.
\<close>

datatype join_outcome = Joined | Join_TaskFailed nat | Join_TimedOut nat | Join_AbortFailed nat

definition cancel_record :: "(error_response, dial_result) result \<Rightarrow> outbound_record \<Rightarrow> daemon \<Rightarrow> daemon" where
  "cancel_record r record d = send_all r (or_replies record) d"

definition drain_runtime :: "bool \<Rightarrow> daemon \<Rightarrow> daemon" where
  "drain_runtime delivered d =
     (let r = Err (operation_error Code_ShuttingDown ''daemon is shutting down'');
          d1 = d\<lparr>dm_state := Rt_ShuttingDown, dm_commands_open := False,
                 dm_connectivity := (dm_connectivity d)\<lparr>sc_peers := []\<rparr>\<rparr>;
          d2 = fold (cancel_record r) (bt_values (dm_outbound d1))
            (d1\<lparr>dm_outbound := map (\<lambda>(i, q). (i, q\<lparr>or_cancelled := True, or_replies := []\<rparr>)) (dm_outbound d1)\<rparr>);
          d3 = (emit Ev_DaemonShuttingDown d2)\<lparr>dm_endpoint_open := False\<rparr>;
          d4 = fold (\<lambda>(i, q) d.
              emit (Ev_PairingResolved i (ppi_device_id (pr_info q)) Out_Cancelled)
                ((close_conn (pr_closer q) d)\<lparr>dm_pairing_commands := dm_pairing_commands d @
                   (if delivered then [(i, Pcmd_Cancel)] else [])\<rparr>))
            (dm_pending d3) (d3\<lparr>dm_pending := []\<rparr>) in
      fold (\<lambda>(i, q) d.
          emit (Ev_SessionClosed i (si_device_id (sr_info q)) Cls_Shutdown) (close_conn (sr_closer q) d))
        (dm_sessions d4) (d4\<lparr>dm_sessions := []\<rparr>))"

definition shutdown_runtime ::
  "bool \<Rightarrow> (daemon_error, unit) result \<Rightarrow> join_outcome \<Rightarrow> (daemon_error, unit) result \<Rightarrow>
     (daemon_error, unit) result \<Rightarrow> daemon \<Rightarrow> (daemon_error, unit) result \<times> daemon" where
  "shutdown_runtime delivered descriptor_result joined cleanup_result lock_result d =
     (let drained = drain_runtime delivered d;
          finish = (\<lambda>task_result left.
            (and_then descriptor_result (\<lambda>_. and_then task_result (\<lambda>_. and_then cleanup_result (\<lambda>_. lock_result))),
             drained\<lparr>dm_state := Rt_Stopped, dm_tasks := left\<rparr>)) in
      case joined of
        Joined \<Rightarrow> finish (Ok ()) 0
      | Join_TaskFailed left \<Rightarrow> finish (Err Dae_Task) left
      | Join_TimedOut remaining \<Rightarrow> finish (Err (Dae_ShutdownTimeout remaining)) 0
      | Join_AbortFailed left \<Rightarrow> (Err Dae_Task, drained\<lparr>dm_tasks := left\<rparr>))"

text \<open>
  What serving returns once the loop has ended, and the answer to a requested shutdown: \<open>fatal\<close> is the
  error that ended the loop, if one did.
\<close>

definition run_ends ::
  "daemon_error option \<Rightarrow> nat option \<Rightarrow> (daemon_error, unit) result \<Rightarrow> daemon \<Rightarrow> (daemon_error, unit) result \<times> daemon" where
  "run_ends fatal shutdown_reply shutdown_result d =
     (let d1 = (case shutdown_reply of
            None \<Rightarrow> d
          | Some c \<Rightarrow> send_oneshot c (Rv_Shutdown
              (if is_ok shutdown_result \<and> fatal = None then Ok ()
               else Err (Handle_Operation (operation_error Code_Internal ''daemon shutdown did not complete cleanly'')))) d) in
      (case fatal of None \<Rightarrow> shutdown_result | Some e \<Rightarrow> Err e, d1))"

end
