(* ===== verification/Daemon_Registry.thy ===== *)
theory Daemon_Registry
  imports Daemon_Runtime
begin

text \<open>
  The invariant of the registries of the runtime, and what every handler does to them: the invariant is
  stated over the sessions, the pending pairings, the outbound dials, the trust store and a view of the
  policy state, and each handler is shown to keep it together with the bound on owned tasks.
\<close>

section \<open>The invariant\<close>

definition trusted :: "trust_store \<Rightarrow> device_id \<Rightarrow> bool" where
  "trusted s k = (trust_state_of s k = Some TrustState_Trusted)"

definition session_peer :: "session_record \<Rightarrow> device_id" where
  "session_peer r = si_device_id (sr_info r)"

text \<open>The part of the policy state of a peer that the registries depend on: its session, whether it is
  suspended and when it is due.\<close>

type_synonym policy_view = "device_id \<Rightarrow> (session_id option \<times> bool \<times> nat option) option"

definition view :: "daemon \<Rightarrow> policy_view" where
  "view d k = map_option (\<lambda>p. (cp_session_id p, cp_suspended p, cp_due p)) (managed d k)"

definition peer_session :: "policy_view \<Rightarrow> device_id \<Rightarrow> session_id option" where
  "peer_session v k = (case v k of None \<Rightarrow> None | Some (s, _, _) \<Rightarrow> s)"

definition peer_suspended :: "policy_view \<Rightarrow> device_id \<Rightarrow> bool" where
  "peer_suspended v k = (case v k of None \<Rightarrow> False | Some (_, sus, _) \<Rightarrow> sus)"

definition peer_due :: "policy_view \<Rightarrow> device_id \<Rightarrow> nat option" where
  "peer_due v k = (case v k of None \<Rightarrow> None | Some (_, _, due) \<Rightarrow> due)"

definition sessions_ok :: "daemon \<Rightarrow> bool" where
  "sessions_ok d = (bt_wf (dm_sessions d) \<and> length (dm_sessions d) \<le> dc_max_active_sessions (dm_config d) \<and>
     (\<forall>i r. bt_get (dm_sessions d) i = Some r \<longrightarrow> i < dm_next_session_id d \<and> si_session_id (sr_info r) = i \<and>
        peer_session (view d) (session_peer r) = Some i))"

definition pending_ok :: "daemon \<Rightarrow> bool" where
  "pending_ok d = (bt_wf (dm_pending d) \<and> length (dm_pending d) \<le> dc_max_pending_pairings (dm_config d) \<and>
     (\<forall>i r. bt_get (dm_pending d) i = Some r \<longrightarrow> i < dm_next_pairing_id d))"

definition peers_ok :: "daemon \<Rightarrow> bool" where
  "peers_ok d = (bt_wf (sc_peers (dm_connectivity d)) \<and> length (sc_peers (dm_connectivity d)) \<le> MAX_MANAGED_PEERS \<and>
     (\<forall>k. view d k \<noteq> None \<longrightarrow> trusted (dm_trust d) k) \<and>
     (\<forall>k. peer_suspended (view d) k \<longrightarrow> peer_due (view d) k = None) \<and>
     (\<forall>k i. peer_session (view d) k = Some i \<longrightarrow>
        (\<exists>r. bt_get (dm_sessions d) i = Some r \<and> session_peer r = k)))"

text \<open>A waiter fits a dial when the dial's result is one it can receive.\<close>

fun fits :: "bool \<Rightarrow> outbound_reply \<Rightarrow> bool" where
  "fits pairing (Reply_Ipc _) = True"
| "fits pairing (Reply_Pairing _) = pairing"
| "fits pairing (Reply_Session _) = (\<not> pairing)"

definition outbound_ok :: "daemon \<Rightarrow> bool" where
  "outbound_ok d = (bt_wf (dm_outbound d) \<and> length (dm_outbound d) \<le> dc_max_outbound_connects (dm_config d) \<and>
     (\<forall>k q. bt_get (dm_outbound d) k = Some q \<longrightarrow> length (or_replies q) \<le> MAX_DIAL_WAITERS \<and>
        list_all (fits (or_pairing q)) (or_replies q) \<and> or_token q < dm_next_dial_id d \<and> (\<not> or_pairing q \<and> \<not> or_cancelled q \<longrightarrow> \<not> peer_suspended (view d) k)))"

definition registry_inv :: "daemon \<Rightarrow> bool" where
  "registry_inv d = (sessions_ok d \<and> pending_ok d \<and> peers_ok d \<and> outbound_ok d)"

definition daemon_inv :: "daemon \<Rightarrow> bool" where
  "daemon_inv d = (registry_inv d \<and> dm_tasks d \<le> HARD_MAX_OWNED_TASKS \<and>
     dm_ipc_clients d \<le> dc_max_ipc_clients (dm_config d))"

lemmas inv_defs = registry_inv_def sessions_ok_def pending_ok_def peers_ok_def outbound_ok_def

section \<open>Operations that leave the registries alone\<close>

text \<open>Everything the invariant reads, apart from the tasks and clients.\<close>

definition same_registries :: "daemon \<Rightarrow> daemon \<Rightarrow> bool" where
  "same_registries c d = (dm_sessions c = dm_sessions d \<and> dm_pending c = dm_pending d \<and> dm_outbound c = dm_outbound d \<and>
     dm_config c = dm_config d \<and> dm_trust c = dm_trust d \<and> dm_next_session_id c = dm_next_session_id d \<and>
     dm_next_pairing_id c = dm_next_pairing_id d \<and> dm_next_dial_id c = dm_next_dial_id d \<and>
     dm_device_id c = dm_device_id d \<and> view c = view d \<and>
     bt_wf (sc_peers (dm_connectivity c)) = bt_wf (sc_peers (dm_connectivity d)) \<and>
     length (sc_peers (dm_connectivity c)) = length (sc_peers (dm_connectivity d)))"

lemma same_registries_refl [simp]: "same_registries d d"
  by (simp add: same_registries_def)

lemma same_registries_trans [trans]: "same_registries b c \<Longrightarrow> same_registries c d \<Longrightarrow> same_registries b d"
  by (simp add: same_registries_def)

lemma registry_inv_same: "same_registries c d \<Longrightarrow> registry_inv c = registry_inv d"
  by (simp add: same_registries_def inv_defs)

lemma same_registriesI:
  "dm_sessions c = dm_sessions d \<Longrightarrow> dm_pending c = dm_pending d \<Longrightarrow> dm_outbound c = dm_outbound d \<Longrightarrow>
   dm_config c = dm_config d \<Longrightarrow> dm_trust c = dm_trust d \<Longrightarrow> dm_next_session_id c = dm_next_session_id d \<Longrightarrow>
   dm_next_pairing_id c = dm_next_pairing_id d \<Longrightarrow> dm_next_dial_id c = dm_next_dial_id d \<Longrightarrow>
   dm_device_id c = dm_device_id d \<Longrightarrow> dm_connectivity c = dm_connectivity d \<Longrightarrow> same_registries c d"
  by (simp add: same_registries_def view_def managed_def fun_eq_iff)

lemma same_emit [simp]: "same_registries (emit e d) d"
  by (rule same_registriesI) (simp_all add: emit_def)

lemma same_send [simp]: "same_registries (send_oneshot c v d) d"
  by (rule same_registriesI) (simp_all add: send_oneshot_def)

lemma same_close [simp]: "same_registries (close_conn h d) d"
  by (rule same_registriesI) (simp_all add: close_conn_def)

lemma same_outbound_send [simp]: "same_registries (outbound_send r t d) d"
  by (cases t) (simp_all add: outbound_send_def)

lemma same_send_all [simp]: "same_registries (send_all r ts d) d"
  by (induction ts arbitrary: d) (auto simp: send_all_def intro: same_registries_trans [OF _ same_outbound_send])

lemma view_adjust: "view (adjust_peer i f d) k =
    (if k = i then map_option (\<lambda>p. (cp_session_id (f p), cp_suspended (f p), cp_due (f p))) (managed d i) else view d k)"
  by (simp add: view_def adjust_peer_def managed_def option.map_comp comp_def)

lemma adjust_peer_fields [simp]:
  "dm_sessions (adjust_peer i f d) = dm_sessions d" "dm_pending (adjust_peer i f d) = dm_pending d"
  "dm_outbound (adjust_peer i f d) = dm_outbound d" "dm_config (adjust_peer i f d) = dm_config d"
  "dm_trust (adjust_peer i f d) = dm_trust d" "dm_next_session_id (adjust_peer i f d) = dm_next_session_id d"
  "dm_next_pairing_id (adjust_peer i f d) = dm_next_pairing_id d" "dm_next_dial_id (adjust_peer i f d) = dm_next_dial_id d"
  "dm_device_id (adjust_peer i f d) = dm_device_id d" "dm_tasks (adjust_peer i f d) = dm_tasks d"
  "dm_ipc_clients (adjust_peer i f d) = dm_ipc_clients d" "dm_closed (adjust_peer i f d) = dm_closed d"
  "bt_wf (sc_peers (dm_connectivity (adjust_peer i f d))) = bt_wf (sc_peers (dm_connectivity d))"
  "length (sc_peers (dm_connectivity (adjust_peer i f d))) = length (sc_peers (dm_connectivity d))"
  by (simp_all add: adjust_peer_def)

lemma same_adjust:
  assumes "\<And>p. managed d i = Some p \<Longrightarrow>
    cp_session_id (f p) = cp_session_id p \<and> cp_suspended (f p) = cp_suspended p \<and> cp_due (f p) = cp_due p"
  shows "same_registries (adjust_peer i f d) d"
proof -
  have "view (adjust_peer i f d) = view d"
    using assms by (cases "managed d i") (auto simp: fun_eq_iff view_adjust, auto simp: view_def)
  then show ?thesis by (simp add: same_registries_def)
qed

lemma same_emit_connectivity [simp]: "same_registries (emit_connectivity now i d) d"
  unfolding emit_connectivity_def Let_def
  by (auto split: option.splits intro!: same_registries_trans [OF same_emit] same_adjust)

text \<open>Neither do these operations spawn a task or touch the clients.\<close>

definition same_counts :: "daemon \<Rightarrow> daemon \<Rightarrow> bool" where
  "same_counts c d = (dm_tasks c = dm_tasks d \<and> dm_ipc_clients c = dm_ipc_clients d \<and> dm_config c = dm_config d)"

lemma same_counts_trans [trans]: "same_counts b c \<Longrightarrow> same_counts c d \<Longrightarrow> same_counts b d"
  by (simp add: same_counts_def)

lemma counts_simps [simp]:
  "same_counts (emit e d) d" "same_counts (send_oneshot c v d) d" "same_counts (close_conn h d) d"
  "same_counts (adjust_peer i f d) d" "same_counts d d"
  by (simp_all add: same_counts_def emit_def send_oneshot_def close_conn_def)

lemma counts_outbound_send [simp]: "same_counts (outbound_send r t d) d"
  by (cases t) (simp_all add: outbound_send_def)

lemma counts_send_all [simp]: "same_counts (send_all r ts d) d"
  by (induction ts arbitrary: d) (auto simp: send_all_def intro: same_counts_trans [OF _ counts_outbound_send])

lemma counts_emit_connectivity [simp]: "same_counts (emit_connectivity now i d) d"
  unfolding emit_connectivity_def Let_def
  by (auto split: option.splits intro: same_counts_trans [OF counts_simps(1)])

text \<open>Cancelling an outbound dial changes its record only.\<close>

definition cancelled_record :: "outbound_record \<Rightarrow> outbound_record" where
  "cancelled_record q = q\<lparr>or_cancelled := True, or_replies := []\<rparr>"

lemma bt_adjust_absent: "bt_get m k = None \<Longrightarrow> bt_adjust k f m = m"
  by (induction m) (auto simp: bt_adjust_def bt_get_def split: if_splits)

lemma same_cancel_outbound:
  "same_registries (cancel_outbound k r d) (d\<lparr>dm_outbound := bt_adjust k cancelled_record (dm_outbound d)\<rparr>)"
  by (cases "bt_get (dm_outbound d) k") (simp_all add: cancel_outbound_def bt_adjust_absent cancelled_record_def [abs_def])

lemma counts_cancel_outbound [simp]: "same_counts (cancel_outbound k r d) d"
  by (cases "bt_get (dm_outbound d) k")
    (auto simp: cancel_outbound_def intro!: same_counts_trans [OF counts_send_all], simp add: same_counts_def)

section \<open>Changes that keep the invariant\<close>

lemma checked_add_above: "checked_add (i :: u64) 1 = Some n \<Longrightarrow> j \<le> i \<Longrightarrow> j < n"
  by (auto simp: checked_add_def word_less_nat_alt word_le_nat_alt unat_word_ariths split: if_splits)

lemma managed_view: "managed d k = Some p \<Longrightarrow> view d k = Some (cp_session_id p, cp_suspended p, cp_due p)"
  by (simp add: view_def)

lemma view_upd [simp]:
  "peer_session (v(k \<mapsto> (s, sus, due))) = (peer_session v)(k := s)"
  "peer_suspended (v(k \<mapsto> (s, sus, due))) = (peer_suspended v)(k := sus)"
  "peer_due (v(k \<mapsto> (s, sus, due))) = (peer_due v)(k := due)"
  "peer_session (v(k := None)) = (peer_session v)(k := None)"
  "peer_suspended (v(k := None)) = (peer_suspended v)(k := False)"
  "peer_due (v(k := None)) = (peer_due v)(k := None)"
  by (simp_all add: fun_eq_iff peer_session_def peer_suspended_def peer_due_def)

lemma view_known:
  "managed d k = Some p \<Longrightarrow> peer_session (view d) k = cp_session_id p \<and> peer_suspended (view d) k = cp_suspended p \<and>
     peer_due (view d) k = cp_due p"
  "managed d k = None \<Longrightarrow> peer_session (view d) k = None \<and> \<not> peer_suspended (view d) k \<and> peer_due (view d) k = None"
  by (simp_all add: view_def peer_session_def peer_suspended_def peer_due_def)

lemma view_adjust_known:
  "managed d k = Some p \<Longrightarrow>
     view (adjust_peer k f d) = (view d)(k \<mapsto> (cp_session_id (f p), cp_suspended (f p), cp_due (f p)))"
  by (auto simp: fun_eq_iff view_adjust)

lemma adjust_unmanaged: "managed d k = None \<Longrightarrow> adjust_peer k f d = d"
  by (simp add: adjust_peer_def managed_def bt_adjust_absent)

lemma view_update [simp]:
  "view (d\<lparr>dm_sessions := a\<rparr>) = view d" "view (d\<lparr>dm_pending := b\<rparr>) = view d" "view (d\<lparr>dm_outbound := c\<rparr>) = view d"
  "view (d\<lparr>dm_trust := e\<rparr>) = view d" "view (d\<lparr>dm_next_session_id := f\<rparr>) = view d"
  "view (d\<lparr>dm_next_pairing_id := g\<rparr>) = view d" "view (d\<lparr>dm_next_dial_id := h\<rparr>) = view d"
  "view (d\<lparr>dm_tasks := i\<rparr>) = view d" "view (d\<lparr>dm_ipc_clients := j\<rparr>) = view d"
  "view (d\<lparr>dm_pairing_commands := l\<rparr>) = view d" "view (d\<lparr>dm_endpoint := m\<rparr>) = view d"
  by (simp_all add: view_def managed_def fun_eq_iff)

lemma managed_update [simp]:
  "managed (d\<lparr>dm_sessions := a\<rparr>) = managed d" "managed (d\<lparr>dm_pending := b\<rparr>) = managed d" "managed (d\<lparr>dm_outbound := c\<rparr>) = managed d"
  "managed (d\<lparr>dm_trust := e\<rparr>) = managed d" "managed (d\<lparr>dm_next_session_id := f\<rparr>) = managed d"
  "managed (d\<lparr>dm_tasks := i\<rparr>) = managed d" "managed (d\<lparr>dm_endpoint := m\<rparr>) = managed d"
  by (simp_all add: managed_def fun_eq_iff)

lemma inv_session:
  "registry_inv d \<Longrightarrow> bt_get (dm_sessions d) i = Some r \<Longrightarrow>
     i < dm_next_session_id d \<and> si_session_id (sr_info r) = i \<and> peer_session (view d) (session_peer r) = Some i"
  by (simp add: registry_inv_def sessions_ok_def)

lemma inv_peer_session:
  "registry_inv d \<Longrightarrow> peer_session (view d) k = Some i \<Longrightarrow> \<exists>r. bt_get (dm_sessions d) i = Some r \<and> session_peer r = k"
  by (simp add: registry_inv_def peers_ok_def)

lemma inv_trusted: "registry_inv d \<Longrightarrow> managed d k = Some p \<Longrightarrow> trusted (dm_trust d) k"
  by (auto simp: registry_inv_def peers_ok_def view_def)

lemma inv_suspended: "registry_inv d \<Longrightarrow> managed d k = Some p \<Longrightarrow> cp_suspended p \<Longrightarrow> cp_due p = None"
  using view_known(1) [of d k p] by (auto simp: registry_inv_def peers_ok_def)

lemma inv_outbound:
  "registry_inv d \<Longrightarrow> bt_get (dm_outbound d) k = Some q \<Longrightarrow> length (or_replies q) \<le> MAX_DIAL_WAITERS \<and>
     list_all (fits (or_pairing q)) (or_replies q) \<and> or_token q < dm_next_dial_id d \<and> (or_pairing q \<or> or_cancelled q \<or> \<not> peer_suspended (view d) k)"
  by (auto simp: registry_inv_def outbound_ok_def)

text \<open>A change of the policy of one peer that does not touch its session and does not suspend it.\<close>

lemma inv_policy:
  assumes "registry_inv d"
    and "\<And>p. managed d k = Some p \<Longrightarrow> cp_session_id (f p) = cp_session_id p \<and>
      (cp_suspended (f p) \<longrightarrow> cp_suspended p \<and> cp_due (f p) = None)"
  shows "registry_inv (adjust_peer k f d)"
proof (cases "managed d k")
  case None
  with assms(1) show ?thesis by (simp add: adjust_unmanaged)
next
  case (Some p)
  note f = assms(2) [OF Some] and v = view_adjust_known [OF Some, of f] and old = view_known(1) [OF Some]
  have "peer_session (view (adjust_peer k f d)) = peer_session (view d)"
    unfolding v view_upd using f old by auto
  then have "sessions_ok (adjust_peer k f d)" using assms(1) by (simp add: registry_inv_def sessions_ok_def)
  moreover have "peers_ok (adjust_peer k f d)"
    using assms(1) v f old managed_view [OF Some] by (simp add: registry_inv_def peers_ok_def)
  moreover have "outbound_ok (adjust_peer k f d)"
    using assms(1) v f old by (auto simp: registry_inv_def outbound_ok_def)
  moreover have "pending_ok (adjust_peer k f d)" using assms(1) by (simp add: registry_inv_def pending_ok_def)
  ultimately show ?thesis by (simp add: registry_inv_def)
qed

lemma inv_manage:
  assumes "registry_inv d" and "scheduler_insert k now (dm_connectivity d) = (b, sc)" and "b \<Longrightarrow> trusted (dm_trust d) k"
  shows "registry_inv (d\<lparr>dm_connectivity := sc\<rparr>)" and "b \<Longrightarrow> managed (d\<lparr>dm_connectivity := sc\<rparr>) k \<noteq> None"
    and "managed d k = Some p \<Longrightarrow> sc = dm_connectivity d"
    and "managed d k = None \<Longrightarrow> b \<Longrightarrow> view (d\<lparr>dm_connectivity := sc\<rparr>) = (view d)(k \<mapsto> (None, False, Some now))"
    and "\<not> b \<Longrightarrow> managed d k = None"
proof -
  have new: "view (d\<lparr>dm_connectivity := sc\<rparr>) = (view d)(k \<mapsto> (None, False, Some now))" if "managed d k = None" b
    using assms(2) that
    by (auto simp: scheduler_insert_def managed_def bt_contains_def view_def fun_eq_iff peer_new_def split: if_splits)
  then show "managed d k = None \<Longrightarrow> b \<Longrightarrow> view (d\<lparr>dm_connectivity := sc\<rparr>) = (view d)(k \<mapsto> (None, False, Some now))" .
  show keep: "sc = dm_connectivity d" if "managed d k = Some p" for p
    using assms(2) that by (auto simp: scheduler_insert_def managed_def bt_contains_def split: if_splits)
  show b: "managed d k = None" if "\<not> b"
    using assms(2) that by (auto simp: scheduler_insert_def managed_def bt_contains_def split: if_splits)
  have sc: "bt_wf (sc_peers (dm_connectivity d)) \<Longrightarrow> length (sc_peers (dm_connectivity d)) \<le> MAX_MANAGED_PEERS \<Longrightarrow>
      bt_wf (sc_peers sc) \<and> length (sc_peers sc) \<le> MAX_MANAGED_PEERS"
    using assms(2) by (auto simp: scheduler_insert_def bt_wf_insert length_bt_insert split: if_splits)
  show "managed (d\<lparr>dm_connectivity := sc\<rparr>) k \<noteq> None" if b
    using assms(2) that by (auto simp: scheduler_insert_def managed_def bt_contains_def split: if_splits)
  show "registry_inv (d\<lparr>dm_connectivity := sc\<rparr>)"
  proof (cases "b \<and> managed d k = None")
    case True
    then have "view d k = None" by (simp add: view_def)
    note v = new [OF conjunct2 [OF True] conjunct1 [OF True]] and old = view_known(2) [OF conjunct2 [OF True]]
    have "sessions_ok (d\<lparr>dm_connectivity := sc\<rparr>)"
      using assms(1) v old by (auto simp: registry_inv_def sessions_ok_def)
    moreover have "peers_ok (d\<lparr>dm_connectivity := sc\<rparr>)"
      using assms(1,3) v old sc True by (auto simp: registry_inv_def peers_ok_def)
    moreover have "outbound_ok (d\<lparr>dm_connectivity := sc\<rparr>)"
      using assms(1) v old by (auto simp: registry_inv_def outbound_ok_def)
    moreover have "pending_ok (d\<lparr>dm_connectivity := sc\<rparr>)" using assms(1) by (simp add: registry_inv_def pending_ok_def)
    ultimately show ?thesis by (simp add: registry_inv_def)
  next
    case False
    then have "sc = dm_connectivity d"
      using assms(2) by (auto simp: scheduler_insert_def managed_def bt_contains_def split: if_splits)
    with assms(1) show ?thesis by simp
  qed
qed

text \<open>A cancelled dial.\<close>

lemma inv_cancel:
  assumes "registry_inv d"
  shows "registry_inv (d\<lparr>dm_outbound := bt_adjust k cancelled_record (dm_outbound d)\<rparr>)"
  using assms by (auto simp: inv_defs cancelled_record_def)

text \<open>A session leaves the registry, and its peer no longer refers to it.\<close>

lemma inv_close:
  assumes inv: "registry_inv d" and r: "bt_get (dm_sessions d) i = Some r" and k: "session_peer r = k"
    and f: "\<And>p. managed d k = Some p \<Longrightarrow> cp_session_id (f p) = None \<and>
      (cp_suspended (f p) \<longrightarrow> cp_due (f p) = None \<and>
        (cp_suspended p \<or> (\<forall>q. bt_get (dm_outbound d) k = Some q \<longrightarrow> or_cancelled q)))"
  shows "registry_inv (adjust_peer k f (d\<lparr>dm_sessions := bt_remove i (dm_sessions d)\<rparr>))"
proof -
  let ?c = "adjust_peer k f (d\<lparr>dm_sessions := bt_remove i (dm_sessions d)\<rparr>)"
  have s: "peer_session (view d) k = Some i" using inv r k by (auto simp: registry_inv_def sessions_ok_def)
  then obtain p where p: "managed d k = Some p" using view_known(2) [of d k] by (cases "managed d k") auto
  note fp = f [OF p] and old = view_known(1) [OF p]
  have v: "view ?c = (view d)(k \<mapsto> (None, cp_suspended (f p), cp_due (f p)))"
    using view_adjust_known [of "d\<lparr>dm_sessions := bt_remove i (dm_sessions d)\<rparr>" k p f] p fp by simp
  have only: "session_peer r' \<noteq> k" if "bt_get (dm_sessions d) j = Some r'" "j \<noteq> i" for j r'
    using inv s that by (auto simp: registry_inv_def sessions_ok_def)
  have "sessions_ok ?c"
    using inv only length_bt_remove_le [of i "dm_sessions d"]
    by (auto simp: registry_inv_def sessions_ok_def v bt_wf_remove)
  moreover have "ka = k" if "peer_session (view d) ka = Some i" for ka
    using inv_peer_session [OF inv that] r k by simp
  then have "peers_ok ?c"
    using inv fp managed_view [OF p] by (auto simp: registry_inv_def peers_ok_def v)
  moreover have "outbound_ok ?c" using inv fp old by (auto simp: registry_inv_def outbound_ok_def v)
  moreover have "pending_ok ?c" using inv by (simp add: registry_inv_def pending_ok_def)
  ultimately show ?thesis by (simp add: registry_inv_def)
qed

text \<open>A session of a managed peer without one enters the registry under the next identifier.\<close>

lemma inv_open:
  assumes inv: "registry_inv d" and p: "managed d k = Some p" "cp_session_id p = None"
    and room: "length (dm_sessions d) < dc_max_active_sessions (dm_config d)"
    and i: "i = dm_next_session_id d" "checked_add i 1 = Some n"
    and r: "session_peer r = k" "si_session_id (sr_info r) = i"
  shows "registry_inv (adjust_peer k (peer_connected i now)
    (d\<lparr>dm_next_session_id := n, dm_sessions := bt_insert i r (dm_sessions d)\<rparr>))"
proof -
  let ?b = "d\<lparr>dm_next_session_id := n, dm_sessions := bt_insert i r (dm_sessions d)\<rparr>"
  let ?c = "adjust_peer k (peer_connected i now) ?b"
  have "managed ?b k = Some p" using p by simp
  from view_adjust_known [OF this, of "peer_connected i now"]
  have v: "view ?c = (view d)(k \<mapsto> (Some i, cp_suspended p, None))" by (simp add: peer_connected_def)
  note old = view_known(1) [OF p(1)]
  have n: "i < n" using i(2) by (rule checked_add_above) simp
  have old_ids: "j < n" if "bt_get (dm_sessions d) j = Some r'" for j r'
    using inv_session [OF inv that] checked_add_above [OF i(2), of j] i(1) by auto
  have fresh: "bt_get (dm_sessions d) i = None"
    using inv i(1) by (cases "bt_get (dm_sessions d) i") (auto simp: registry_inv_def sessions_ok_def)
  have other: "session_peer r' \<noteq> k" if "bt_get (dm_sessions d) j = Some r'" for j r'
    using inv old p that by (auto simp: registry_inv_def sessions_ok_def)
  have "sessions_ok ?c"
    using inv other r room n old_ids length_bt_insert_le [of i r "dm_sessions d"]
    by (auto simp: registry_inv_def sessions_ok_def v bt_wf_insert)
  moreover have "peer_session (view d) ka \<noteq> Some i" for ka
    using inv_peer_session [OF inv, of ka i] fresh by auto
  then have "peers_ok ?c"
    using inv r(1) managed_view [OF p(1)] by (auto simp: registry_inv_def peers_ok_def v)
  moreover have "outbound_ok ?c" using inv old by (auto simp: registry_inv_def outbound_ok_def v)
  moreover have "pending_ok ?c" using inv by (simp add: registry_inv_def pending_ok_def)
  ultimately show ?thesis by (simp add: registry_inv_def)
qed

section \<open>Registering a session\<close>

lemma inv_cancel_outbound: "registry_inv d \<Longrightarrow> registry_inv (cancel_outbound k r d)"
  using registry_inv_same [OF same_cancel_outbound] inv_cancel by blast

lemma inv_announce:
  "registry_inv d \<Longrightarrow> registry_inv (emit e (if b then cancel_outbound k r (emit_connectivity now k d) else emit_connectivity now k d))"
  by (simp add: registry_inv_same [OF same_emit] registry_inv_same [OF same_emit_connectivity] inv_cancel_outbound)

lemma adjust_commutes:
  "adjust_peer k f (d\<lparr>dm_tasks := t\<rparr>) = (adjust_peer k f d)\<lparr>dm_tasks := t\<rparr>"
  "adjust_peer k f (d\<lparr>dm_sessions := s\<rparr>) = (adjust_peer k f d)\<lparr>dm_sessions := s\<rparr>"
  "adjust_peer k f (d\<lparr>dm_outbound := q\<rparr>) = (adjust_peer k f d)\<lparr>dm_outbound := q\<rparr>"
  "adjust_peer k f (d\<lparr>dm_next_session_id := n\<rparr>) = (adjust_peer k f d)\<lparr>dm_next_session_id := n\<rparr>"
  by (simp_all add: adjust_peer_def)

lemma adjust_absorb: "(\<And>p. f (g p) = f p) \<Longrightarrow> adjust_peer k f (adjust_peer k g d) = adjust_peer k f d"
  by (simp add: adjust_peer_def bt_adjust_def comp_def if_distrib cong: if_cong)

lemma same_tasks [simp]: "same_registries (d\<lparr>dm_tasks := t\<rparr>) d"
  by (rule same_registriesI) simp_all

lemma inv_tasks [simp]: "registry_inv (d\<lparr>dm_tasks := t\<rparr>) = registry_inv d"
  by (rule registry_inv_same) simp

lemma find_entry:
  "bt_wf m \<Longrightarrow> find (\<lambda>(_, r). P r) m = Some (i, r) \<Longrightarrow> bt_get m i = Some r \<and> P r"
  by (auto simp: find_Some_iff bt_get_iff_mem) (metis nth_mem case_prod_conv)+

lemma existing_session_Some:
  assumes "registry_inv d" and "existing_session d k = Some (i, orig, closed)"
  obtains r where "bt_get (dm_sessions d) i = Some r" "session_peer r = k" "sr_origin r = orig"
    "closed = is_closed d (sr_closer r)"
  using assms find_entry [of "dm_sessions d"]
  by (fastforce simp: existing_session_def registry_inv_def sessions_ok_def session_peer_def)

lemma existing_session_None:
  assumes "registry_inv d" and "existing_session d k = None"
  shows "peer_session (view d) k = None"
proof (rule ccontr)
  assume "peer_session (view d) k \<noteq> None"
  then obtain i r where r: "bt_get (dm_sessions d) i = Some r" "session_peer r = k"
    using inv_peer_session [OF assms(1), of k] by blast
  from bt_get_SomeD [OF r(1)] r(2) assms(2) show False
    by (auto simp: existing_session_def find_None_iff session_peer_def)
qed

lemma open_session_inv:
  assumes inv: "registry_inv (adjust_peer k (\<lambda>p. p\<lparr>cp_session_id := None\<rparr>) d)"
    and k: "k = tp_device_id (ac_peer c)" "managed d k = Some p"
    and room: "length (dm_sessions d) < dc_max_active_sessions (dm_config d)"
    and n: "checked_add (dm_next_session_id d) 1 = Some n"
  shows "registry_inv (open_session env h c orig (dm_next_session_id d) (d\<lparr>dm_next_session_id := n\<rparr>))"
proof -
  let ?i = "dm_next_session_id d"
  let ?r = "\<lparr>sr_origin = orig, sr_info = \<lparr>si_session_id = ?i, si_device_id = k, si_device_name = tp_device_name (ac_peer c),
     si_platform = tp_platform (ac_peer c)\<rparr>, sr_closer = h\<rparr>"
  let ?clear = "\<lambda>p :: managed_peer. p\<lparr>cp_session_id := None\<rparr>"
  let ?e = "adjust_peer k ?clear d"
  have "registry_inv (adjust_peer k (peer_connected ?i (de_now env))
      (?e\<lparr>dm_next_session_id := n, dm_sessions := bt_insert ?i ?r (dm_sessions ?e)\<rparr>))"
    by (rule inv_open [OF inv, of k "?clear p"])
      (use k room n in \<open>simp_all add: managed_def adjust_peer_def session_peer_def\<close>)
  moreover have "adjust_peer k (peer_connected ?i (de_now env)) ?e = adjust_peer k (peer_connected ?i (de_now env)) d"
    by (rule adjust_absorb) (simp add: peer_connected_def)
  ultimately have "registry_inv (adjust_peer k (peer_connected ?i (de_now env))
      (d\<lparr>dm_next_session_id := n, dm_sessions := bt_insert ?i ?r (dm_sessions d), dm_tasks := dm_tasks d + 1\<rparr>))"
    by (simp add: adjust_commutes)
  then show ?thesis
    unfolding open_session_def Let_def k(1) [symmetric] by (intro inv_announce) simp
qed

lemma retire_session_next:
  "retire_session env k i closed (d\<lparr>dm_next_session_id := n\<rparr>) = (retire_session env k i closed d)\<lparr>dm_next_session_id := n\<rparr>"
  by (simp add: retire_session_def Let_def emit_def close_conn_def adjust_peer_def split: option.split)

lemma retire_session_fields:
  assumes "bt_get (dm_sessions d) i = Some r"
  shows "dm_sessions (retire_session env k i closed d) = bt_remove i (dm_sessions d)"
    and "dm_config (retire_session env k i closed d) = dm_config d"
    and "dm_next_session_id (retire_session env k i closed d) = dm_next_session_id d"
    and "dm_tasks (retire_session env k i closed d) = dm_tasks d"
    and "managed (retire_session env k i closed d) k =
      (if closed then map_option (peer_lost (de_now env) (env_sample env)) (managed d k) else managed d k)"
  using assms by (simp_all add: retire_session_def Let_def emit_def close_conn_def adjust_peer_def managed_def)

text \<open>The policy of a lost peer.\<close>

lemma peer_lost_view:
  "cp_session_id (peer_lost now sample p) = None" "cp_suspended (peer_lost now sample p) = cp_suspended p"
  "cp_suspended p \<Longrightarrow> cp_due (peer_lost now sample p) = None"
  by (simp_all add: peer_lost_def peer_failed_def Let_def split: option.splits)

lemma retire_session_inv:
  assumes inv: "registry_inv d" and r: "bt_get (dm_sessions d) i = Some r" "session_peer r = k"
  shows "registry_inv (adjust_peer k (\<lambda>p. p\<lparr>cp_session_id := None\<rparr>) (retire_session env k i closed d))"
proof -
  let ?clear = "\<lambda>p :: managed_peer. p\<lparr>cp_session_id := None\<rparr>"
  let ?f = "if closed then peer_lost (de_now env) (env_sample env) else id"
  let ?b = "adjust_peer k (?clear \<circ> ?f) (d\<lparr>dm_sessions := bt_remove i (dm_sessions d)\<rparr>)"
  have "registry_inv ?b"
    by (rule inv_close [OF inv r]) (use inv_suspended [OF inv] in \<open>simp add: peer_lost_view\<close>)
  moreover have "same_registries (adjust_peer k ?clear (retire_session env k i closed d)) ?b"
    by (rule same_registriesI) (use r in \<open>auto simp: retire_session_def Let_def emit_def close_conn_def adjust_peer_def
        bt_adjust_def\<close>)
  ultimately show ?thesis using registry_inv_same by blast
qed

lemma register_opens:
  assumes inv: "registry_inv d" and k: "k = tp_device_id (ac_peer c)" "managed d k \<noteq> None"
    and room: "existing_session d k = None \<Longrightarrow> length (dm_sessions d) < dc_max_active_sessions (dm_config d)"
    and n: "checked_add (dm_next_session_id d) 1 = Some n"
  shows "registry_inv (open_session env h c orig (dm_next_session_id d) (case existing_session d k of
      None \<Rightarrow> d\<lparr>dm_next_session_id := n\<rparr>
    | Some (i, _, closed) \<Rightarrow> retire_session env k i closed (d\<lparr>dm_next_session_id := n\<rparr>)))"
proof (cases "existing_session d k")
  case None
  obtain p where p: "managed d k = Some p" using k(2) by blast
  have "cp_session_id p = None" using existing_session_None [OF inv None] view_known(1) [OF p] by simp
  then have "registry_inv (adjust_peer k (\<lambda>p. p\<lparr>cp_session_id := None\<rparr>) d)"
    using inv_suspended [OF inv p] p by (intro inv_policy [OF inv]) auto
  from open_session_inv [OF this k(1) p room [OF None] n] None show ?thesis by simp
next
  case (Some e)
  obtain i eo closed where e: "existing_session d k = Some (i, eo, closed)" using Some by (cases e) auto
  then obtain r where r: "bt_get (dm_sessions d) i = Some r" "session_peer r = k"
    by (rule existing_session_Some [OF inv])
  let ?e = "retire_session env k i closed d"
  obtain p where p: "managed ?e k = Some p" using k(2) retire_session_fields(5) [OF r(1)] by fastforce
  have "length (dm_sessions d) = Suc (length (bt_remove i (dm_sessions d)))"
    using inv r(1) by (intro length_bt_remove) (auto simp: registry_inv_def sessions_ok_def bt_contains_def)
  then have room': "length (dm_sessions ?e) < dc_max_active_sessions (dm_config ?e)"
    using inv by (simp add: retire_session_fields [OF r(1)] registry_inv_def sessions_ok_def)
  have n': "checked_add (dm_next_session_id ?e) 1 = Some n" using n by (simp add: retire_session_fields [OF r(1)])
  from open_session_inv [OF retire_session_inv [OF inv r] k(1) p room' n'] e
  show ?thesis by (simp add: retire_session_next retire_session_fields [OF r(1)])
qed

text \<open>The three ways a registration ends: nothing changes, the peer becomes managed, or a session opens.\<close>

lemma register_session_elim:
  assumes run: "register_session env h c orig d = (r, d')"
  defines "k \<equiv> tp_device_id (ac_peer c)"
  obtains (kept) "same_registries d' d" "same_counts d' d"
  | (managed) sc where "scheduler_insert k (de_now env) (dm_connectivity d) = (True, sc)" "trusted (dm_trust d) k"
      "same_registries d' (d\<lparr>dm_connectivity := sc\<rparr>)" "same_counts d' d"
  | (opened) sc n b where "scheduler_insert k (de_now env) (dm_connectivity d) = (True, sc)" "trusted (dm_trust d) k"
      "b = d\<lparr>dm_connectivity := sc\<rparr>" "current_generation (dm_trust d) k = ac_trust_generation c"
      "existing_session b k = None \<Longrightarrow> length (dm_sessions b) < dc_max_active_sessions (dm_config b)"
      "checked_add (dm_next_session_id b) 1 = Some n" "r = Ok (dm_next_session_id b)"
      "\<not> is_closed d h" "dm_tasks d < HARD_MAX_OWNED_TASKS - 1"
      "d' = open_session env h c orig (dm_next_session_id b) (case existing_session b k of
         None \<Rightarrow> b\<lparr>dm_next_session_id := n\<rparr>
       | Some (i, _, closed) \<Rightarrow> retire_session env k i closed (b\<lparr>dm_next_session_id := n\<rparr>))"
proof (cases "trust_state_of (dm_trust d) k \<noteq> Some TrustState_Trusted \<or>
    current_generation (dm_trust d) k \<noteq> ac_trust_generation c \<or> is_closed d h")
  case True
  with run show ?thesis using kept by (auto simp: register_session_def k_def [symmetric] Let_def split: if_splits)
next
  case trust: False
  obtain ok sc where sc: "scheduler_insert k (de_now env) (dm_connectivity d) = (ok, sc)" by fastforce
  define b where "b = d\<lparr>dm_connectivity := sc\<rparr>"
  have counts: "same_counts (close_conn h b) d" by (simp add: same_counts_def b_def close_conn_def)
  show ?thesis
  proof (cases ok)
    case False
    then have "sc = dm_connectivity d" using sc by (auto simp: scheduler_insert_def split: if_splits)
    with run trust sc False show ?thesis using kept by (auto simp: register_session_def k_def [symmetric] Let_def)
  next
    case True
    have tr: "trusted (dm_trust d) k" using trust by (simp add: trusted_def)
    let ?verdict = "case existing_session b k of
        Some (i, eo, closed) \<Rightarrow>
          if \<not> closed \<and> \<not> replaces orig eo (dm_device_id b) k then Some (Ok i) else None
      | None \<Rightarrow>
          if dc_max_active_sessions (dm_config b) \<le> length (dm_sessions b)
          then Some (Err (operation_error Code_CapacityExceeded ''active session capacity reached'')) else None"
    have sc: "scheduler_insert k (de_now env) (dm_connectivity d) = (True, sc)" using sc True by simp
    have guard: "\<not> (trust_state_of (dm_trust d) k \<noteq> Some TrustState_Trusted \<or>
        current_generation (dm_trust d) k \<noteq> ac_trust_generation c)" "\<not> is_closed d h" using trust by simp_all
    have step: "(r, d') = (case ?verdict of
        Some res \<Rightarrow> (res, close_conn h b)
      | None \<Rightarrow>
          if HARD_MAX_OWNED_TASKS - 1 \<le> dm_tasks b
          then (Err (operation_error Code_CapacityExceeded ''owned task capacity reached''), close_conn h b)
          else st_bind (else_close h allocate_session_id) (\<lambda>session_id d2.
            (Ok session_id,
             open_session env h c orig session_id
               (case existing_session b k of
                  None \<Rightarrow> d2
                | Some (old_id, _, closed) \<Rightarrow> retire_session env k old_id closed d2))) b)"
      using run unfolding register_session_def Let_def k_def [symmetric] if_not_P [OF guard(1)] if_not_P [OF guard(2)]
        sc prod.case bool.case b_def [symmetric] by (rule sym)
    have stay: ?thesis if "d' = close_conn h b \<or> d' = b"
      using that managed [OF sc tr] counts by (auto simp: b_def, simp add: same_counts_def)
    show ?thesis
    proof (cases "?verdict \<noteq> None \<or> HARD_MAX_OWNED_TASKS - 1 \<le> dm_tasks b \<or> checked_add (dm_next_session_id b) 1 = None")
      case True
      with step have "d' = close_conn h b \<or> d' = b"
        by (cases ?verdict) (auto simp: st_bind_def allocate_session_id_def else_close_def split: if_splits)
      then show ?thesis by (rule stay)
    next
      case False
      then obtain n where n: "checked_add (dm_next_session_id b) 1 = Some n" by blast
      from False have room: "existing_session b k = None \<Longrightarrow> length (dm_sessions b) < dc_max_active_sessions (dm_config b)"
        by (auto split: if_splits)
      have tasks: "dm_tasks d < HARD_MAX_OWNED_TASKS - 1" using False by (simp add: b_def)
      from False have v: "?verdict = None" "\<not> HARD_MAX_OWNED_TASKS - 1 \<le> dm_tasks b" by blast+
      have end_state: "(r, d') = (Ok (dm_next_session_id b), open_session env h c orig (dm_next_session_id b)
          (case existing_session b k of
             None \<Rightarrow> b\<lparr>dm_next_session_id := n\<rparr>
           | Some (i, _, closed) \<Rightarrow> retire_session env k i closed (b\<lparr>dm_next_session_id := n\<rparr>)))"
        using step unfolding v(1) using v(2) n by (simp add: st_bind_def allocate_session_id_def else_close_def)
      show ?thesis
        by (rule opened [OF sc tr b_def _ room n _ _ tasks]) (use end_state trust in simp_all)
    qed
  qed
qed

text \<open>A handler keeps the invariant, the configuration and the clients, and may own more than \<open>m\<close> tasks only
  if it already did.\<close>

definition keeps :: "nat \<Rightarrow> daemon \<Rightarrow> daemon \<Rightarrow> bool" where
  "keeps m c d = ((registry_inv d \<longrightarrow> registry_inv c) \<and> dm_config c = dm_config d \<and>
     dm_ipc_clients c = dm_ipc_clients d \<and> dm_tasks c \<le> max (dm_tasks d) m)"

lemma keeps_refl [simp]: "keeps m d d"
  by (simp add: keeps_def)

lemma keeps_trans [trans]: "keeps m b c \<Longrightarrow> keeps m c d \<Longrightarrow> keeps m b d"
  by (auto simp: keeps_def)

lemma keeps_same: "same_registries c d \<Longrightarrow> same_counts c d \<Longrightarrow> keeps m c d"
  by (simp add: keeps_def same_counts_def registry_inv_same)

lemma keeps_simps [simp]:
  "keeps m (emit e d) d" "keeps m (send_oneshot ch v d) d" "keeps m (close_conn h d) d"
  "keeps m (outbound_send r t d) d" "keeps m (send_all r ts d) d" "keeps m (emit_connectivity now k d) d"
  "keeps m (cancel_outbound k x d) d"
  by (rule keeps_same; simp)+ (simp add: keeps_def inv_cancel_outbound counts_cancel_outbound [unfolded same_counts_def])

lemma keeps_counts: "(registry_inv d \<Longrightarrow> registry_inv c) \<Longrightarrow> same_counts c d \<Longrightarrow> keeps m c d"
  by (simp add: keeps_def same_counts_def)

lemma open_session_counts:
  "dm_config (open_session env h c orig i d) = dm_config d \<and> dm_ipc_clients (open_session env h c orig i d) = dm_ipc_clients d \<and>
   dm_tasks (open_session env h c orig i d) = Suc (dm_tasks d)"
proof -
  let ?k = "tp_device_id (ac_peer c)"
  let ?t = "dm_tasks d + 1"
  have "same_counts (emit e (if b then cancel_outbound ?k x (emit_connectivity now ?k (adjust_peer ?k f y))
      else emit_connectivity now ?k (adjust_peer ?k f y))) y" for e b x now f y
    by (auto intro!: same_counts_trans [OF counts_simps(1)] same_counts_trans [OF counts_cancel_outbound]
        same_counts_trans [OF counts_emit_connectivity])
  from this [unfolded same_counts_def] show ?thesis unfolding open_session_def Let_def by auto
qed

lemma retire_session_counts [simp]: "same_counts (retire_session env k i closed d) d"
  by (simp add: retire_session_def Let_def emit_def close_conn_def adjust_peer_def same_counts_def split: option.split)

text \<open>A registration leaves room for the accept worker that the loop respawns.\<close>

definition SPAWN_LIMIT :: nat where
  "SPAWN_LIMIT = HARD_MAX_OWNED_TASKS - 1"

lemma keeps_register_session: "keeps SPAWN_LIMIT (snd (register_session env h c orig d)) d"
proof -
  obtain r d' where run: "register_session env h c orig d = (r, d')" by fastforce
  then have "keeps SPAWN_LIMIT d' d"
  proof (cases rule: register_session_elim)
    case kept
    then show ?thesis by (rule keeps_same)
  next
    case (managed sc)
    have "registry_inv d' = registry_inv (d\<lparr>dm_connectivity := sc\<rparr>)" using managed(3) by (rule registry_inv_same)
    with managed show ?thesis using inv_manage(1) [OF _ managed(1)] by (intro keeps_counts) auto
  next
    case (opened sc n b)
    let ?k = "tp_device_id (ac_peer c)"
    define e where "e = (case existing_session b ?k of
         None \<Rightarrow> b\<lparr>dm_next_session_id := n\<rparr>
       | Some (i, _, closed) \<Rightarrow> retire_session env ?k i closed (b\<lparr>dm_next_session_id := n\<rparr>))"
    have d': "d' = open_session env h c orig (dm_next_session_id b) e" using opened by (simp add: e_def)
    have "same_counts e (b\<lparr>dm_next_session_id := n\<rparr>)" by (auto simp: e_def split: option.split)
    then have e: "dm_tasks e = dm_tasks d \<and> dm_config e = dm_config d \<and> dm_ipc_clients e = dm_ipc_clients d"
      using opened(3) by (simp add: same_counts_def)
    have "registry_inv d'" if "registry_inv d"
    proof -
      have b: "registry_inv b" "managed b ?k \<noteq> None"
        using inv_manage(1,2) [OF that opened(1)] opened(2,3) by blast+
      show ?thesis unfolding d' e_def by (rule register_opens [OF b(1) refl b(2) opened(5,6)])
    qed
    with e opened(9) show ?thesis unfolding d' keeps_def SPAWN_LIMIT_def open_session_counts [THEN conjunct1]
      using open_session_counts [of env h c orig "dm_next_session_id b" e] by simp
  qed
  then show ?thesis using run by simp
qed

lemma keeps_register_pending: "keeps SPAWN_LIMIT (snd (register_pending env h p orig d)) d"
proof (cases "HARD_MAX_OWNED_TASKS - 1 \<le> dm_tasks d \<or> dc_max_pending_pairings (dm_config d) \<le> length (dm_pending d) \<or>
    pp_connection p = None \<or> checked_add (dm_next_pairing_id d) 1 = None")
  case True
  then show ?thesis
    by (auto simp: register_pending_def drop_candidate_def Let_def st_bind_def allocate_pairing_id_def else_close_def split: option.split)
next
  case False
  then obtain n where n: "checked_add (dm_next_pairing_id d) 1 = Some n" by blast
  define i where "i = dm_next_pairing_id d"
  have "pending_ok (d\<lparr>dm_next_pairing_id := n, dm_pending := bt_insert i x (dm_pending d), dm_tasks := t\<rparr>)"
    if "pending_ok d" for x t
    using that False checked_add_above [OF n] length_bt_insert_le [of i x "dm_pending d"]
    by (auto simp: pending_ok_def bt_wf_insert i_def)
  then have new: "registry_inv (d\<lparr>dm_next_pairing_id := n, dm_pending := bt_insert i x (dm_pending d), dm_tasks := t\<rparr>)"
    if "registry_inv d" for x t
    using that by (simp add: registry_inv_def sessions_ok_def peers_ok_def outbound_ok_def)
  have "keeps SPAWN_LIMIT
    (d\<lparr>dm_next_pairing_id := n, dm_pending := bt_insert i x (dm_pending d), dm_tasks := Suc (dm_tasks d)\<rparr>) d" for x
    using new False by (simp add: keeps_def SPAWN_LIMIT_def)
  then have done': "keeps SPAWN_LIMIT
    (emit e (d\<lparr>dm_next_pairing_id := n, dm_pending := bt_insert i x (dm_pending d), dm_tasks := Suc (dm_tasks d)\<rparr>)) d" for e x
    by (rule keeps_trans [OF keeps_simps(1)])
  then show ?thesis
    using n False unfolding i_def
    by (auto simp: register_pending_def drop_candidate_def Let_def st_bind_def allocate_pairing_id_def else_close_def split: option.split)
qed

lemma drop_candidate_cases: "drop_candidate c d = d \<or> (\<exists>h. drop_candidate c d = close_conn h d)"
  by (auto simp: drop_candidate_def split: connection_candidate.split option.split)

lemma same_drop [simp]: "same_registries (drop_candidate c d) d"
  using drop_candidate_cases [of c d] by auto

lemma keeps_drop [simp]: "keeps m (drop_candidate c d) d" "keeps m (drop_result r d) d"
proof -
  show drop: "keeps m (drop_candidate c d) d" for c using drop_candidate_cases [of c d] by auto
  show "keeps m (drop_result r d) d" using drop by (simp add: drop_result_def split: sum.split)
qed

lemma view_drop [simp]: "view (drop_candidate c d) = view d"
  using same_drop [of c d] by (simp add: same_registries_def del: same_drop)

lemma snd_discard: "snd (discard x) = snd x"
  by (simp add: discard_def split: prod.split sum.split)

lemma keeps_register_candidate: "keeps SPAWN_LIMIT (snd (register_candidate env c d)) d"
  unfolding register_candidate_def
  by (cases c) (simp_all only: connection_candidate.case snd_discard keeps_register_session keeps_register_pending)

section \<open>The other handlers\<close>

lemma inv_pending_shrinks:
  assumes "registry_inv d" and "bt_wf m" and "length m \<le> length (dm_pending d)"
    and "\<And>i r. bt_get m i = Some r \<Longrightarrow> bt_get (dm_pending d) i \<noteq> None"
  shows "registry_inv (d\<lparr>dm_pending := m\<rparr>)"
proof -
  have "pending_ok (d\<lparr>dm_pending := m\<rparr>)" using assms by (fastforce simp: registry_inv_def pending_ok_def)
  then show ?thesis using assms(1) by (simp add: registry_inv_def sessions_ok_def peers_ok_def outbound_ok_def)
qed

lemma inv_pending_wf: "registry_inv d \<Longrightarrow> bt_wf (dm_pending d)"
  by (simp add: registry_inv_def pending_ok_def)

lemma inv_remove_pending: "registry_inv d \<Longrightarrow> registry_inv (d\<lparr>dm_pending := bt_remove i (dm_pending d)\<rparr>)"
  by (rule inv_pending_shrinks) (auto simp: bt_wf_remove inv_pending_wf length_bt_remove_le split: if_splits)

lemma keeps_remove_pending [simp]: "keeps m (d\<lparr>dm_pending := bt_remove i (dm_pending d)\<rparr>) d"
  by (simp add: keeps_def inv_remove_pending)

lemma keeps_finish_pairing: "keeps SPAWN_LIMIT (finish_pairing env i k result channel d) d"
proof -
  let ?m = SPAWN_LIMIT
  let ?d1 = "d\<lparr>dm_pending := bt_remove i (dm_pending d)\<rparr>"
  have wrap: "keeps ?m (case channel of None \<Rightarrow> y | Some c \<Rightarrow> send_oneshot c v y) d"
    if "y = x \<or> y = emit e x" "keeps ?m x d" for x y e v
  proof -
    have "keeps ?m y d" using that keeps_trans [OF keeps_simps(1)] by auto
    then show ?thesis using keeps_trans [OF keeps_simps(2)] by (cases channel) auto
  qed
  have d1: "keeps ?m ?d1 d" by simp
  have reg: "keeps ?m d2 d" if "register_session env h c orig ?d1 = (r, d2)" for h c orig r d2
    using keeps_trans [OF keeps_register_session [of env h c orig ?d1] d1] that by simp
  have closed: "keeps ?m (close_conn h ?d1) d" for h by (rule keeps_trans [OF keeps_simps(3) d1])
  show ?thesis
  proof (cases result)
    case (Ptr_Authorized h c)
    show ?thesis
    proof (cases "bt_get (dm_pending d) i")
      case None
      with Ptr_Authorized closed show ?thesis unfolding finish_pairing_def Let_def by (auto intro: wrap)
    next
      case (Some rec)
      obtain r d2 where run: "register_session env h c (pr_origin rec) ?d1 = (r, d2)" by fastforce
      from reg [OF run] Ptr_Authorized Some run show ?thesis
        unfolding finish_pairing_def Let_def by (cases r) (auto intro: wrap)
    qed
  qed (use d1 in \<open>auto simp: finish_pairing_def Let_def intro: wrap\<close>)
qed

text \<open>Failures that schedule a retry must not reach a suspended peer.\<close>

definition retried :: "connectivity_failure \<Rightarrow> bool" where
  "retried failure = (failure = Fail_Network \<or> failure = Fail_Capacity)"

lemma peer_failed_view:
  "cp_session_id (peer_failed fl now sample p) = cp_session_id p" "cp_suspended (peer_failed fl now sample p) = cp_suspended p"
  "\<not> retried fl \<Longrightarrow> cp_due (peer_failed fl now sample p) = None"
  by (cases fl; simp add: peer_failed_def Let_def retried_def)+

lemma counts_connectivity_failed [simp]: "same_counts (connectivity_failed env k fl d) d"
  by (auto simp: connectivity_failed_def split: option.split intro: same_counts_trans [OF counts_emit_connectivity])

lemma inv_connectivity_failed:
  assumes "registry_inv d" and "retried fl \<Longrightarrow> \<not> peer_suspended (view d) k"
  shows "registry_inv (connectivity_failed env k fl d)"
proof (cases "managed d k")
  case None
  with assms show ?thesis by (simp add: connectivity_failed_def)
next
  case (Some p)
  have "registry_inv (adjust_peer k (peer_failed fl (de_now env) (env_sample env)) d)"
    using assms view_known(1) [OF Some] Some by (intro inv_policy) (auto simp: peer_failed_view(1,2) intro: peer_failed_view(3))
  with Some show ?thesis by (simp add: connectivity_failed_def registry_inv_same [OF same_emit_connectivity])
qed

lemma keeps_session_ended:
  assumes "from_task d (Task_SessionEnded i k reason failure)"
  shows "keeps m (session_ended env i k reason failure d) d"
proof (cases "bt_get (dm_sessions d) i")
  case None
  then show ?thesis by (simp add: session_ended_def)
next
  case (Some r)
  let ?d1 = "d\<lparr>dm_sessions := bt_remove i (dm_sessions d)\<rparr>"
  let ?f = "\<lambda>p. let q = peer_lost (de_now env) (env_sample env) p in
    if failure \<noteq> Fail_Network \<and> \<not> cp_suspended q then peer_failed failure (de_now env) 0 q else q"
  have k: "session_peer r = k" using assms Some by (simp add: from_task_def session_peer_def)
  have inv: "registry_inv (adjust_peer k ?f ?d1)" if "registry_inv d"
    by (rule inv_close [OF that Some k]) (simp add: peer_lost_view peer_failed_view Let_def)
  have "keeps m (emit_connectivity (de_now env) k (adjust_peer k ?f ?d1)) d"
    by (rule keeps_trans [OF keeps_simps(6)], rule keeps_counts) (simp_all add: inv same_counts_def)
  moreover have "managed ?d1 k = None \<Longrightarrow> emit_connectivity (de_now env) k (adjust_peer k ?f ?d1) = ?d1"
    by (simp add: adjust_unmanaged emit_connectivity_def)
  ultimately show ?thesis
    using Some unfolding session_ended_def Let_def
    by (cases "managed ?d1 k") (auto intro!: keeps_trans [OF keeps_simps(1)])
qed

lemma keeps_disconnect: "keeps m (snd (disconnect_session env i d)) d"
proof (cases "bt_get (dm_sessions d) i")
  case None
  then show ?thesis by (simp add: disconnect_session_def)
next
  case (Some r)
  define k where "k = si_device_id (sr_info r)"
  let ?f = "\<lambda>p. peer_lost (de_now env) 0 (peer_suspend p)"
  let ?c = "d\<lparr>dm_outbound := bt_adjust k cancelled_record (dm_outbound d)\<rparr>"
  let ?d2 = "adjust_peer k ?f (d\<lparr>dm_sessions := bt_remove i (dm_sessions d)\<rparr>)"
  have counts: "same_counts (cancel_outbound k x ?d2) d" for x
    by (rule same_counts_trans [OF counts_cancel_outbound]) (simp add: same_counts_def)
  have inv: "registry_inv (cancel_outbound k x ?d2)" if inv: "registry_inv d" for x
  proof -
    have "registry_inv (adjust_peer k ?f (?c\<lparr>dm_sessions := bt_remove i (dm_sessions ?c)\<rparr>))"
      by (rule inv_close [OF inv_cancel [OF inv]])
        (use Some in \<open>auto simp: k_def session_peer_def peer_lost_view peer_suspend_def Let_def cancelled_record_def\<close>)
    moreover have "adjust_peer k ?f (?c\<lparr>dm_sessions := bt_remove i (dm_sessions ?c)\<rparr>) =
        ?d2\<lparr>dm_outbound := bt_adjust k cancelled_record (dm_outbound ?d2)\<rparr>" by (simp add: adjust_peer_def)
    ultimately show ?thesis using registry_inv_same [OF same_cancel_outbound] by simp
  qed
  have "keeps m (emit e (close_conn h (emit_connectivity (de_now env) k (cancel_outbound k x ?d2)))) d" for e h x
    by (rule keeps_trans [OF keeps_simps(1) keeps_trans [OF keeps_simps(3) keeps_trans [OF keeps_simps(6)]]])
      (rule keeps_counts [OF inv counts])
  then show ?thesis using Some by (simp add: disconnect_session_def Let_def k_def)
qed

section \<open>Dialling\<close>

lemma view_resumed: "\<not> peer_suspended (view (adjust_peer k (peer_resume now) d)) k"
  by (cases "managed d k") (auto simp: view_adjust_known peer_resume_def Let_def adjust_unmanaged view_known)

lemma inv_resume: "registry_inv d \<Longrightarrow> registry_inv (adjust_peer k (peer_resume now) d)"
  by (rule inv_policy) (auto simp: peer_resume_def Let_def)

lemma manage_dial_ok:
  assumes run: "manage_dial env k manual d = (r, d')" and inv: "registry_inv d" "trusted (dm_trust d) k"
    and on: "manual \<or> \<not> peer_suspended (view d) k"
  shows "registry_inv d'" and "same_counts d' d" and "dm_outbound d' = dm_outbound d"
    and "\<not> peer_suspended (view d') k \<or> \<not> is_ok r \<and> bt_contains (dm_outbound d) k"
proof -
  obtain b sc where sc: "scheduler_insert k (de_now env) (dm_connectivity d) = (b, sc)" by fastforce
  let ?c = "d\<lparr>dm_connectivity := sc\<rparr>"
  note new = inv_manage [OF inv(1) sc]
  have c: "registry_inv ?c" using new(1) inv(2) by blast
  have still: "\<not> peer_suspended (view ?c) k" if "\<not> peer_suspended (view d) k"
  proof (cases "managed d k")
    case None
    then show ?thesis using new(4) [OF inv(2)] sc
      by (cases b) (auto simp: scheduler_insert_def view_known(2) split: if_splits)
  next
    case (Some p)
    then have "?c = d" using new(3) [OF inv(2), of p] by simp
    with that show ?thesis by simp
  qed
  consider (full) "d' = ?c" "managed d k = None" "sc = dm_connectivity d"
    | (busy) "\<not> is_ok r" "d' = ?c" "bt_contains (dm_outbound d) k"
    | (go) "d' = (if manual then adjust_peer k (peer_resume (de_now env)) ?c else ?c)"
  proof (cases b)
    case False
    then have "sc = dm_connectivity d" using sc by (auto simp: scheduler_insert_def split: if_splits)
    with False run sc new(5) show ?thesis using full inv(2) by (simp add: manage_dial_def)
  next
    case True
    with run sc show ?thesis using busy go
      by (auto simp: manage_dial_def Let_def bt_contains_def split: if_splits option.splits)
  qed
  note cases = this
  show "registry_inv d'" using c inv_resume [OF c] by (cases rule: cases) auto
  show "same_counts d' d" by (cases rule: cases) (auto simp: same_counts_def)
  show "dm_outbound d' = dm_outbound d" by (cases rule: cases) auto
  show "\<not> peer_suspended (view d') k \<or> \<not> is_ok r \<and> bt_contains (dm_outbound d) k"
    by (cases rule: cases) (use on still view_resumed view_known(2) in auto)
qed

lemma inv_set_connecting: "registry_inv d \<Longrightarrow> registry_inv (set_connecting k d)"
  unfolding set_connecting_def by (rule inv_policy) auto

lemma spawn_dial_ok:
  assumes run: "spawn_dial ps env k pairing d = (r, d')" and inv: "registry_inv d"
    and free: "bt_get (dm_outbound d) k = None" and on: "\<not> pairing \<Longrightarrow> \<not> peer_suspended (view d) k"
  shows "registry_inv d'" and "keeps HARD_MAX_OWNED_TASKS d' d" and "\<not> is_ok r \<Longrightarrow> d' = d"
    and "r = Ok l \<Longrightarrow> l = None \<and> (\<exists>q. bt_get (dm_outbound d') k = Some q \<and> or_replies q = [] \<and> or_pairing q = pairing)"
proof -
  define i where "i = dm_next_dial_id d"
  let ?q = "\<lparr>or_token = i, or_pairing = pairing, or_replies = [], or_cancelled = False\<rparr>"
  let ?new = "\<lambda>n. d\<lparr>dm_next_dial_id := n, dm_outbound := bt_insert k ?q (dm_outbound d)\<rparr>"
  consider (err) e where "r = Err e" "d' = d"
    | (spawned) n where "checked_add i 1 = Some n" "r = Ok None" "dm_tasks d < HARD_MAX_OWNED_TASKS"
      "length (dm_outbound d) < dc_max_outbound_connects (dm_config d)"
      "d' = (emit_connectivity (de_now env) k (set_connecting k (?new n)))\<lparr>dm_tasks := dm_tasks d + 1\<rparr>"
  proof (cases "dc_max_outbound_connects (dm_config d) \<le> length (dm_outbound d) \<or> HARD_MAX_OWNED_TASKS \<le> dm_tasks d \<or>
      pairing \<and> (de_permits env = 0 \<or> list_ex (\<lambda>r. ppi_device_id (pr_info r) = k) (bt_values (dm_pending d))) \<or>
      map_err daemon_connection_error (has_route_source (dp_valid_key ps) k (dm_endpoint d)) \<noteq> Ok True \<or> checked_add i 1 = None")
    case True
    with run have "d' = d \<and> (\<exists>e. r = Err e)"
      unfolding spawn_dial_def st_bind_def allocate_dial_id_def i_def [symmetric]
      by (cases "map_err daemon_connection_error (has_route_source (dp_valid_key ps) k (dm_endpoint d))")
        (auto split: if_splits bool.splits)
    then show ?thesis using err by blast
  next
    case False
    then obtain n where "checked_add i 1 = Some n" by blast
    with False run show ?thesis
      by (intro spawned [of n]) (simp_all add: spawn_dial_def st_bind_def allocate_dial_id_def i_def split: if_splits)
  qed
  note cases = this
  have new: "registry_inv (?new n)" if n: "checked_add i 1 = Some n" "length (dm_outbound d) < dc_max_outbound_connects (dm_config d)" for n
  proof -
    have "or_token q < n" if "bt_get (dm_outbound d) j = Some q" for j q
      using inv_outbound [OF inv that] checked_add_above [OF n(1), of "or_token q"] by (auto simp: i_def)
    then have "outbound_ok (?new n)"
      using inv on n(2) checked_add_above [OF n(1), of i] length_bt_insert_le [of k ?q "dm_outbound d"]
      by (auto simp: registry_inv_def outbound_ok_def bt_wf_insert)
    with inv show ?thesis by (simp add: registry_inv_def sessions_ok_def peers_ok_def pending_ok_def)
  qed
  have same: "same_registries (emit_connectivity (de_now env) k x) x" for x by simp
  show reg: "registry_inv d'"
    by (cases rule: cases) (use inv new in \<open>simp_all add: registry_inv_same [OF same] inv_set_connecting\<close>)
  have "dm_config d' = dm_config d \<and> dm_ipc_clients d' = dm_ipc_clients d"
    by (cases rule: cases) (use counts_emit_connectivity in \<open>simp_all add: same_counts_def set_connecting_def\<close>)
  moreover have "dm_tasks d' \<le> max (dm_tasks d) HARD_MAX_OWNED_TASKS" by (cases rule: cases) simp_all
  ultimately show "keeps HARD_MAX_OWNED_TASKS d' d" using reg by (simp add: keeps_def)
  show "\<not> is_ok r \<Longrightarrow> d' = d" by (cases rule: cases) auto
  show "r = Ok l \<Longrightarrow> l = None \<and> (\<exists>q. bt_get (dm_outbound d') k = Some q \<and> or_replies q = [] \<and> or_pairing q = pairing)"
    by (cases rule: cases) (use same in \<open>auto simp: same_registries_def set_connecting_def\<close>)
qed

text \<open>The part of a dial after the peer is managed.\<close>

definition dial_from :: "daemon_params \<Rightarrow> daemon_env \<Rightarrow> device_id \<Rightarrow> bool \<Rightarrow> session_id option \<Rightarrow> daemon \<Rightarrow>
    (error_response, session_id option) result \<times> daemon" where
  "dial_from ps env k pairing live d =
     (case live of
        Some i \<Rightarrow> (Ok (Some i), d)
      | None \<Rightarrow>
          (case bt_get (dm_outbound d) k of
             Some r \<Rightarrow> if dial_busy pairing r then (Err MAX_DIAL_ERROR, d) else (Ok None, set_connecting k d)
           | None \<Rightarrow> spawn_dial ps env k pairing d))"

lemma keeps_set_connecting [simp]: "keeps m (set_connecting k d) d"
  by (rule keeps_counts) (simp_all add: inv_set_connecting, simp add: set_connecting_def)

lemma dial_from_ok:
  assumes run: "dial_from ps env k pairing live d = (r, d')" and inv: "registry_inv d"
    and on: "\<not> pairing \<Longrightarrow> \<not> peer_suspended (view d) k"
  shows "keeps HARD_MAX_OWNED_TASKS d' d"
    and "r = Err e \<Longrightarrow> d' = d"
    and "r = Ok None \<Longrightarrow> bt_get (dm_outbound d') k = Some q \<Longrightarrow> length (or_replies q) < MAX_DIAL_WAITERS \<and> or_pairing q = pairing"
proof -
  consider (live) i where "r = Ok (Some i)" "d' = d"
    | (busy) "r = Err MAX_DIAL_ERROR" "d' = d"
    | (join) q where "bt_get (dm_outbound d) k = Some q" "\<not> dial_busy pairing q" "r = Ok None" "d' = set_connecting k d"
    | (spawn) "bt_get (dm_outbound d) k = None" "spawn_dial ps env k pairing d = (r, d')"
  proof (cases live)
    case (Some i)
    with run show ?thesis using live [of i] by (simp add: dial_from_def)
  next
    case None
    show ?thesis
    proof (cases "bt_get (dm_outbound d) k")
      case out: None
      with None run show ?thesis using spawn by (simp add: dial_from_def)
    next
      case (Some q)
      with None run show ?thesis using busy join [OF Some] by (cases "dial_busy pairing q") (simp_all add: dial_from_def)
    qed
  qed
  note cases = this
  show "keeps HARD_MAX_OWNED_TASKS d' d"
  proof (cases rule: cases)
    case spawn
    show ?thesis by (rule spawn_dial_ok(2) [OF spawn(2) inv spawn(1) on])
  qed simp_all
  show "d' = d" if "r = Err e"
  proof (cases rule: cases)
    case spawn
    show ?thesis by (rule spawn_dial_ok(3) [OF spawn(2) inv spawn(1) on]) (use that in auto)
  qed (use that in simp_all)
  show "length (or_replies q) < MAX_DIAL_WAITERS \<and> or_pairing q = pairing" if ok: "r = Ok None" and q: "bt_get (dm_outbound d') k = Some q"
  proof (cases rule: cases)
    case spawn
    obtain q' where "bt_get (dm_outbound d') k = Some q'" "or_replies q' = []" "or_pairing q' = pairing"
      using spawn_dial_ok(4) [OF spawn(2) inv spawn(1) on ok] by blast
    then show ?thesis using q by (simp add: MAX_DIAL_WAITERS_def)
  qed (use ok q in \<open>auto simp: dial_busy_def set_connecting_def\<close>)
qed

lemma disj_rest: "a \<or> b \<Longrightarrow> \<not> a \<Longrightarrow> b"
  by blast

lemma start_outbound_ok:
  assumes run: "start_outbound ps env k pairing manual d = (r, d')" and inv: "registry_inv d"
    and on: "pairing \<or> manual \<or> \<not> peer_suspended (view d) k"
  shows "keeps HARD_MAX_OWNED_TASKS d' d"
    and "r = Err e \<Longrightarrow> retried (failure_category (er_code e)) \<Longrightarrow>
      pairing \<or> bt_contains (dm_outbound d') k \<or> \<not> peer_suspended (view d') k"
    and "r = Ok None \<Longrightarrow> bt_get (dm_outbound d') k = Some q \<Longrightarrow> length (or_replies q) < MAX_DIAL_WAITERS \<and> or_pairing q = pairing"
proof -
  consider (early) e where "r = Err e" "d' = d" "retried (failure_category (er_code e)) \<Longrightarrow> bt_contains (dm_outbound d) k \<or> pairing"
    | (pair) "pairing" "dial_from ps env k pairing None d = (r, d')"
    | (refused) e where "\<not> pairing" "trusted (dm_trust d) k" "manage_dial env k manual d = (Err e, d')" "r = Err e"
    | (dial) live d1 where "\<not> pairing" "trusted (dm_trust d) k" "manage_dial env k manual d = (Ok live, d1)"
        "dial_from ps env k pairing live d1 = (r, d')"
  proof (cases "dm_state d \<noteq> Rt_Running \<or> k = dm_device_id d \<or>
      trust_state_of (dm_trust d) k \<noteq> (if pairing then None else Some TrustState_Trusted) \<or>
      (case bt_get (dm_outbound d) k of None \<Rightarrow> False | Some q \<Rightarrow> or_cancelled q) \<and> canonical_session d k = None")
    case True
    then have "\<exists>e. start_outbound ps env k pairing manual d = (Err e, d) \<and>
        (retried (failure_category (er_code e)) \<longrightarrow> bt_contains (dm_outbound d) k \<or> pairing)"
      by (auto simp: start_outbound_def operation_error_def error_response_new_def retried_def failure_category_def
          bt_contains_def split: option.splits trust_state.splits bool.splits)
    then show ?thesis using run early by auto
  next
    case False
    then have step: "(r, d') = st_bind (if pairing then (\<lambda>d. (Ok None, d)) else manage_dial env k manual)
        (dial_from ps env k pairing) d"
      using run by (auto simp: start_outbound_def dial_from_def [abs_def] split: option.splits trust_state.splits bool.splits)
    have tr: "trusted (dm_trust d) k" if "\<not> pairing" using False that by (simp add: trusted_def)
    show ?thesis
    proof (cases pairing)
      case True
      with step show ?thesis using pair by (simp add: st_bind_def)
    next
      case np: False
      obtain res d1 where m: "manage_dial env k manual d = (res, d1)" by fastforce
      from step np m show ?thesis
        using refused [OF np tr [OF np]] dial [OF np tr [OF np]] by (cases res) (auto simp: st_bind_def)
    qed
  qed
  note cases = this
  show "keeps HARD_MAX_OWNED_TASKS d' d"
  proof (cases rule: cases)
    case (dial live d1)
    note m = manage_dial_ok [OF dial(3) inv dial(2) disj_rest [OF on dial(1)]]
    have "keeps HARD_MAX_OWNED_TASKS d' d1" by (rule dial_from_ok(1) [OF dial(4) m(1)]) (use m(4) in simp)
    also have "keeps HARD_MAX_OWNED_TASKS d1 d" using m(1,2) by (intro keeps_counts)
    finally show ?thesis .
  next
    case (refused e)
    note m = manage_dial_ok [OF refused(3) inv refused(2) disj_rest [OF on refused(1)]]
    show ?thesis by (rule keeps_counts [OF m(1,2)])
  next
    case pair
    show ?thesis by (rule dial_from_ok(1) [OF pair(2) inv]) (use pair(1) in simp)
  qed simp
  show "pairing \<or> bt_contains (dm_outbound d') k \<or> \<not> peer_suspended (view d') k"
    if "r = Err e" "retried (failure_category (er_code e))"
  proof (cases rule: cases)
    case (dial live d1)
    note m = manage_dial_ok [OF dial(3) inv dial(2) disj_rest [OF on dial(1)]]
    have "d' = d1" by (rule dial_from_ok(2) [OF dial(4) m(1) _ that(1)]) (use m(4) in simp)
    with m(4) show ?thesis by simp
  next
    case (refused e)
    note m = manage_dial_ok [OF refused(3) inv refused(2) disj_rest [OF on refused(1)]]
    show ?thesis using m(3,4) by auto
  qed (use that in auto)
  show "length (or_replies q) < MAX_DIAL_WAITERS \<and> or_pairing q = pairing" if "r = Ok None" "bt_get (dm_outbound d') k = Some q"
  proof (cases rule: cases)
    case (dial live d1)
    note m = manage_dial_ok [OF dial(3) inv dial(2) disj_rest [OF on dial(1)]]
    show ?thesis by (rule dial_from_ok(3) [OF dial(4) m(1) _ that]) (use m(4) in simp)
  next
    case pair
    show ?thesis by (rule dial_from_ok(3) [OF pair(2) inv _ that]) (use pair(1) in simp)
  qed (use that in auto)
qed

lemma inv_add_waiter:
  assumes "registry_inv d" and "\<And>q. bt_get (dm_outbound d) k = Some q \<Longrightarrow> length (or_replies q) < MAX_DIAL_WAITERS \<and> fits (or_pairing q) t"
  shows "registry_inv (d\<lparr>dm_outbound := bt_adjust k (\<lambda>q. q\<lparr>or_replies := or_replies q @ [t]\<rparr>) (dm_outbound d)\<rparr>)"
proof -
  have "outbound_ok (d\<lparr>dm_outbound := bt_adjust k (\<lambda>q. q\<lparr>or_replies := or_replies q @ [t]\<rparr>) (dm_outbound d)\<rparr>)"
    using assms by (fastforce simp: registry_inv_def outbound_ok_def split: if_splits)
  with assms(1) show ?thesis by (simp add: registry_inv_def sessions_ok_def peers_ok_def pending_ok_def)
qed

lemma keeps_spawn_outbound:
  assumes inv: "registry_inv d" and on: "pairing \<or> target \<noteq> None \<or> \<not> peer_suspended (view d) k"
    and fit: "\<And>t. target = Some t \<Longrightarrow> fits pairing t"
  shows "keeps HARD_MAX_OWNED_TASKS (spawn_outbound ps env k pairing target d) d"
proof -
  let ?m = HARD_MAX_OWNED_TASKS
  obtain r d1 where run: "start_outbound ps env k pairing (target \<noteq> None) d = (r, d1)" by fastforce
  note start = start_outbound_ok [OF run inv on]
  have d1: "registry_inv d1" using start(1) inv by (simp add: keeps_def)
  have send: "keeps ?m (outbound_send v t x) d" if "keeps ?m x d" for v t x
    by (rule keeps_trans [OF keeps_simps(4) that])
  show ?thesis
  proof (cases r)
    case (Inr l)
    show ?thesis
    proof (cases "l = None \<and> target \<noteq> None \<and> bt_get (dm_outbound d1) k \<noteq> None")
      case True
      then have inv': "registry_inv (d1\<lparr>dm_outbound := bt_adjust k (\<lambda>q. q\<lparr>or_replies := or_replies q @ [t]\<rparr>) (dm_outbound d1)\<rparr>)" if "target = Some t" for t
        using start(3) Inr fit [OF that] by (intro inv_add_waiter [OF d1]) simp
      have "keeps ?m (d1\<lparr>dm_outbound := bt_adjust k (\<lambda>q. q\<lparr>or_replies := or_replies q @ [t]\<rparr>) (dm_outbound d1)\<rparr>) d"
        if "target = Some t" for t
        by (rule keeps_trans [OF _ start(1)], rule keeps_counts [OF inv' [OF that]]) (simp add: same_counts_def)
      with True Inr run show ?thesis by (auto simp: spawn_outbound_def)
    next
      case False
      with Inr run start(1) send [OF start(1)] show ?thesis
        by (auto simp: spawn_outbound_def split: option.split)
    qed
  next
    case (Inl e)
    define d2 where "d2 = (if \<not> pairing \<and> canonical_session d1 k = None \<and> \<not> bt_contains (dm_outbound d1) k
        then connectivity_failed env k (failure_category (er_code e)) d1 else d1)"
    have "retried (failure_category (er_code e)) \<Longrightarrow> \<not> pairing \<Longrightarrow> \<not> bt_contains (dm_outbound d1) k \<Longrightarrow>
        \<not> peer_suspended (view d1) k" using start(2) [OF Inl] by blast
    then have "registry_inv d2" using d1 by (auto simp: d2_def intro: inv_connectivity_failed)
    moreover have "same_counts d2 d1" by (simp add: d2_def)
    ultimately have "keeps ?m d2 d" by (intro keeps_trans [OF _ start(1)] keeps_counts)
    then have "keeps ?m (case target of None \<Rightarrow> d2 | Some t \<Rightarrow> outbound_send (Err e) t d2) d"
      using send by (simp split: option.split)
    then show ?thesis
      unfolding spawn_outbound_def run prod.case Inl sum.case Let_def d2_def [symmetric] .
  qed
qed

lemma keeps_endpoint [simp]: "keeps m (d\<lparr>dm_endpoint := ep\<rparr>) d"
  by (rule keeps_same) (simp_all add: same_registriesI same_counts_def)

lemma keeps_remember_and_dial:
  assumes "registry_inv d" and fit: "fits pairing target"
  shows "keeps HARD_MAX_OWNED_TASKS (remember_and_dial ps env addr pairing target d) d"
proof -
  obtain r ep where run: "remember_peer_addr addr (dm_endpoint d) = (r, ep)" by fastforce
  have e: "keeps HARD_MAX_OWNED_TASKS (d\<lparr>dm_endpoint := ep\<rparr>) d" by simp
  have inv: "registry_inv (d\<lparr>dm_endpoint := ep\<rparr>)" using assms e by (simp add: keeps_def)
  have "keeps HARD_MAX_OWNED_TASKS (spawn_outbound ps env k pairing (Some target) (d\<lparr>dm_endpoint := ep\<rparr>)) d" for k
    by (rule keeps_trans [OF keeps_spawn_outbound [OF inv] e]) (use fit in simp_all)
  with keeps_trans [OF keeps_simps(4) e] run
  show ?thesis by (cases r) (simp_all add: remember_and_dial_def)
qed

text \<open>A candidate that could not be registered has suspended nobody.\<close>

lemma register_session_Err:
  assumes "register_session env h c orig d = (Err e, d')" and inv: "registry_inv d"
  shows "peer_suspended (view d') = peer_suspended (view d)"
  using assms(1)
proof (cases rule: register_session_elim)
  case kept
  then show ?thesis by (simp add: same_registries_def)
next
  case (managed sc)
  let ?k = "tp_device_id (ac_peer c)"
  note m = inv_manage [OF inv managed(1) managed(2)]
  have "view d' = view (d\<lparr>dm_connectivity := sc\<rparr>)" using managed(3) by (simp add: same_registries_def)
  then show ?thesis
    using m(3,4) view_known(2) [of d ?k] by (cases "managed d ?k") (auto intro!: fun_upd_idem)
qed simp

lemmas register_dialed_splits = sum.splits connection_candidate.splits if_splits prod.splits

lemma keeps_register_dialed:
  assumes "register_dialed env k q result d = (r, d1)"
  shows "keeps SPAWN_LIMIT d1 d"
proof -
  have snd_reply: "snd (reply f x) = snd x" for f and x :: "(error_response, u64) result \<times> daemon"
    by (simp add: reply_def split: prod.split sum.split)
  have "keeps SPAWN_LIMIT (snd (register_dialed env k q result d)) d"
    by (auto simp: register_dialed_def snd_reply keeps_register_session keeps_register_pending
        split: sum.split connection_candidate.split)
  with assms show ?thesis by simp
qed

lemma keeps_finish_outbound:
  assumes inv: "registry_inv d" and on: "or_pairing q \<or> \<not> peer_suspended (view d) k"
  shows "keeps SPAWN_LIMIT (finish_outbound env k q result d) d"
proof -
  obtain r d1 where run: "register_dialed env k q result d = (r, d1)" by fastforce
  note d1 = keeps_register_dialed [OF run]
  have "peer_suspended (view d1) = peer_suspended (view d)" if "r = Err e" "\<not> or_pairing q" for e
    using run that register_session_Err [OF _ inv] by (auto simp: register_dialed_def reply_def split: register_dialed_splits)
  then have on1: "\<not> peer_suspended (view d1) k" if "r = Err e" "\<not> or_pairing q" for e using on that by auto
  define d2 where "d2 = (case r of
      Err e \<Rightarrow>
        if \<not> or_pairing q \<and> canonical_session d1 k = None
        then connectivity_failed env k (failure_category (er_code e)) d1 else d1
    | Ok _ \<Rightarrow> d1)"
  have "registry_inv d1" using d1 inv by (simp add: keeps_def)
  then have "registry_inv d2" using on1 by (cases r) (auto simp: d2_def intro: inv_connectivity_failed)
  moreover have "same_counts d2 d1" by (cases r) (simp_all add: d2_def)
  ultimately have "keeps SPAWN_LIMIT d2 d" by (intro keeps_trans [OF _ d1] keeps_counts)
  then have "keeps SPAWN_LIMIT (send_all x (or_replies q) d2) d" for x by (rule keeps_trans [OF keeps_simps(5)])
  then show ?thesis unfolding finish_outbound_def run d2_def [symmetric] prod.case Let_def .
qed

section \<open>Withdrawing trust\<close>

lemma trusted_decision: "trusted s k = (\<exists>p. bt_get (ts_decisions s) k = Some (Decision_Trusted p))"
proof (cases "bt_get (ts_decisions s) k")
  case (Some x)
  then show ?thesis by (cases x) (simp_all add: trusted_def trust_state_of_def entry_def)
qed (simp add: trusted_def trust_state_of_def entry_def)

lemma commit_trusted:
  assumes "commit blake3 pc env m expected s = (r, t)"
  shows "r = Err e \<Longrightarrow> trusted t = trusted s"
    and "m = Trust p \<Longrightarrow> trusted s j \<Longrightarrow> trusted t j"
    and "m = Revoke k \<or> m = Forget k \<Longrightarrow> j \<noteq> k \<Longrightarrow> trusted t j = trusted s j"
    and "r = Ok () \<Longrightarrow> m = Revoke k \<or> m = Forget k \<Longrightarrow> \<not> trusted t k"
  using assms by (cases rule: commit_elim; auto simp: trusted_decision fun_eq_iff)+

lemma same_sessions_cong: "same_registries a b \<Longrightarrow> same_registries (a\<lparr>dm_sessions := x\<rparr>) (b\<lparr>dm_sessions := x\<rparr>)"
  by (simp add: same_registries_def)

lemma same_pending_cong: "same_registries a b \<Longrightarrow> same_registries (a\<lparr>dm_pending := x\<rparr>) (b\<lparr>dm_pending := x\<rparr>)"
  by (simp add: same_registries_def)

lemma bt_remove_absent: "bt_get m i = None \<Longrightarrow> bt_remove i m = m"
  by (induction m) (auto simp: bt_remove_def bt_get_def split: if_splits)

lemma drop_session_fields:
  "same_registries (drop_session k reason i d) (d\<lparr>dm_sessions := bt_remove i (dm_sessions d)\<rparr>)"
  "same_counts (drop_session k reason i d) d"
  "set (dm_closed (drop_session k reason i d)) = set (dm_closed d) \<union> {sr_closer r | r. bt_get (dm_sessions d) i = Some r}"
  by (cases "bt_get (dm_sessions d) i";
      auto simp: drop_session_def bt_remove_absent emit_def close_conn_def same_counts_def intro!: same_registriesI)+

lemma drop_pending_fields:
  "same_registries (drop_pending env k i d) (d\<lparr>dm_pending := bt_remove i (dm_pending d)\<rparr>)"
  "same_counts (drop_pending env k i d) d"
  "set (dm_closed (drop_pending env k i d)) = set (dm_closed d) \<union> {pr_closer r | r. bt_get (dm_pending d) i = Some r}"
  by (cases "bt_get (dm_pending d) i";
      auto simp: drop_pending_def bt_remove_absent emit_def close_conn_def same_counts_def Let_def intro!: same_registriesI)+

lemma fold_drop_sessions:
  "same_registries (fold (drop_session k reason) js d) (d\<lparr>dm_sessions := filter (\<lambda>e. fst e \<notin> set js) (dm_sessions d)\<rparr>) \<and>
   same_counts (fold (drop_session k reason) js d) d \<and>
   set (dm_closed d) \<subseteq> set (dm_closed (fold (drop_session k reason) js d)) \<and>
   (\<forall>i r. i \<in> set js \<and> bt_get (dm_sessions d) i = Some r \<longrightarrow> sr_closer r \<in> set (dm_closed (fold (drop_session k reason) js d)))"
proof (induction js arbitrary: d)
  case Nil
  then show ?case by simp
next
  case (Cons i js)
  note f = drop_session_fields [of k reason i d]
  define c where "c = drop_session k reason i d"
  have s: "dm_sessions c = bt_remove i (dm_sessions d)" using f(1) by (simp add: same_registries_def c_def)
  have "same_registries (fold (drop_session k reason) js c) (c\<lparr>dm_sessions := filter (\<lambda>e. fst e \<notin> set js) (dm_sessions c)\<rparr>)"
    using Cons.IH by blast
  also have "same_registries \<dots> (d\<lparr>dm_sessions := filter (\<lambda>e. fst e \<notin> set (i # js)) (dm_sessions d)\<rparr>)"
    using same_sessions_cong [OF f(1), folded c_def, of "filter (\<lambda>e. fst e \<notin> set js) (dm_sessions c)"] s
    by (simp add: bt_remove_def conj_commute)
  finally have r: "same_registries (fold (drop_session k reason) js c) (d\<lparr>dm_sessions := filter (\<lambda>e. fst e \<notin> set (i # js)) (dm_sessions d)\<rparr>)" .
  have n: "same_counts (fold (drop_session k reason) js c) d"
    using Cons.IH [of c] f(2) same_counts_trans unfolding c_def by blast
  have "sr_closer r \<in> set (dm_closed (fold (drop_session k reason) js c))"
    if "j \<in> set (i # js)" "bt_get (dm_sessions d) j = Some r" for j r
  proof (cases "j = i")
    case True
    then show ?thesis using that f(3) Cons.IH [of c] unfolding c_def by auto
  next
    case False
    then have "bt_get (dm_sessions c) j = Some r" using that s by simp
    with False that Cons.IH [of c] show ?thesis by auto
  qed
  moreover have "set (dm_closed d) \<subseteq> set (dm_closed c)" using f(3) unfolding c_def by blast
  ultimately show ?case using r n Cons.IH [of c] unfolding c_def by auto
qed

lemma fold_drop_pending:
  "same_registries (fold (drop_pending env k) js d) (d\<lparr>dm_pending := filter (\<lambda>e. fst e \<notin> set js) (dm_pending d)\<rparr>) \<and>
   same_counts (fold (drop_pending env k) js d) d \<and>
   set (dm_closed d) \<subseteq> set (dm_closed (fold (drop_pending env k) js d)) \<and>
   (\<forall>i r. i \<in> set js \<and> bt_get (dm_pending d) i = Some r \<longrightarrow> pr_closer r \<in> set (dm_closed (fold (drop_pending env k) js d)))"
proof (induction js arbitrary: d)
  case Nil
  then show ?case by simp
next
  case (Cons i js)
  note f = drop_pending_fields [of env k i d]
  define c where "c = drop_pending env k i d"
  have s: "dm_pending c = bt_remove i (dm_pending d)" using f(1) by (simp add: same_registries_def c_def)
  have "same_registries (fold (drop_pending env k) js c) (c\<lparr>dm_pending := filter (\<lambda>e. fst e \<notin> set js) (dm_pending c)\<rparr>)"
    using Cons.IH by blast
  also have "same_registries \<dots> (d\<lparr>dm_pending := filter (\<lambda>e. fst e \<notin> set (i # js)) (dm_pending d)\<rparr>)"
    using same_pending_cong [OF f(1), folded c_def, of "filter (\<lambda>e. fst e \<notin> set js) (dm_pending c)"] s
    by (simp add: bt_remove_def conj_commute)
  finally have r: "same_registries (fold (drop_pending env k) js c) (d\<lparr>dm_pending := filter (\<lambda>e. fst e \<notin> set (i # js)) (dm_pending d)\<rparr>)" .
  have n: "same_counts (fold (drop_pending env k) js c) d"
    using Cons.IH [of c] f(2) same_counts_trans unfolding c_def by blast
  have "pr_closer r \<in> set (dm_closed (fold (drop_pending env k) js c))"
    if "j \<in> set (i # js)" "bt_get (dm_pending d) j = Some r" for j r
  proof (cases "j = i")
    case True
    then show ?thesis using that f(3) Cons.IH [of c] unfolding c_def by auto
  next
    case False
    then have "bt_get (dm_pending c) j = Some r" using that s by simp
    with False that Cons.IH [of c] show ?thesis by auto
  qed
  moreover have "set (dm_closed d) \<subseteq> set (dm_closed c)" using f(3) unfolding c_def by blast
  ultimately show ?case using r n Cons.IH [of c] unfolding c_def by auto
qed

lemma same_outbound_cong: "same_registries a b \<Longrightarrow> same_registries (a\<lparr>dm_outbound := x\<rparr>) (b\<lparr>dm_outbound := x\<rparr>)"
  by (simp add: same_registries_def)

lemma bt_remove_adjust: "bt_remove k (bt_adjust k f m) = bt_remove k m"
  by (induction m) (auto simp: bt_remove_def bt_adjust_def)

lemma closed_simps [simp]:
  "dm_closed (emit e d) = dm_closed d" "dm_closed (send_oneshot ch v d) = dm_closed d"
  "dm_closed (close_conn h d) = h # dm_closed d" "dm_closed (emit_connectivity now k d) = dm_closed d"
  by (simp_all add: emit_def send_oneshot_def close_conn_def emit_connectivity_def Let_def split: option.split)

lemma closed_outbound_send [simp]: "dm_closed (outbound_send r t d) = dm_closed d"
  by (cases t) (simp_all add: outbound_send_def)

lemma closed_send_all [simp]: "dm_closed (send_all r ts d) = dm_closed d"
  by (induction ts arbitrary: d) (simp_all add: send_all_def)

lemma closed_cancel_outbound [simp]: "dm_closed (cancel_outbound k r d) = dm_closed d"
  by (simp add: cancel_outbound_def split: option.split)

lemma peers_emit_connectivity:
  "bt_remove k (sc_peers (dm_connectivity (emit_connectivity now k d))) = bt_remove k (sc_peers (dm_connectivity d))"
  by (simp add: emit_connectivity_def Let_def emit_def adjust_peer_def bt_remove_adjust split: option.split)

text \<open>Leaving a peer unmanaged.\<close>

definition unmanage :: "device_id \<Rightarrow> daemon \<Rightarrow> daemon" where
  "unmanage k d = d\<lparr>dm_connectivity := (dm_connectivity d)\<lparr>sc_peers := bt_remove k (sc_peers (dm_connectivity d))\<rparr>\<rparr>"

lemma view_unmanage [simp]: "view (unmanage k d) = (view d)(k := None)"
  by (auto simp: unmanage_def view_def managed_def fun_eq_iff)

lemma unmanage_fields [simp]:
  "dm_sessions (unmanage k d) = dm_sessions d" "dm_pending (unmanage k d) = dm_pending d" "dm_outbound (unmanage k d) = dm_outbound d"
  "dm_config (unmanage k d) = dm_config d" "dm_trust (unmanage k d) = dm_trust d" "dm_next_session_id (unmanage k d) = dm_next_session_id d"
  "dm_next_pairing_id (unmanage k d) = dm_next_pairing_id d" "dm_next_dial_id (unmanage k d) = dm_next_dial_id d"
  "dm_device_id (unmanage k d) = dm_device_id d" "dm_tasks (unmanage k d) = dm_tasks d"
  "dm_ipc_clients (unmanage k d) = dm_ipc_clients d" "dm_closed (unmanage k d) = dm_closed d"
  "sc_peers (dm_connectivity (unmanage k d)) = bt_remove k (sc_peers (dm_connectivity d))"
  by (simp_all add: unmanage_def)

lemma unmanage_announced:
  "same_registries (unmanage k (emit_connectivity now k (adjust_peer k f d))) (unmanage k d)"
  "same_counts (unmanage k (emit_connectivity now k (adjust_peer k f d))) d"
proof -
  let ?e = "emit_connectivity now k (adjust_peer k f d)"
  have e: "same_registries ?e (adjust_peer k f d)" "same_counts ?e (adjust_peer k f d)" by simp_all
  have v: "view (unmanage k ?e) = view (unmanage k d)"
    using e(1) by (auto simp: same_registries_def fun_eq_iff view_adjust)
  have p: "bt_remove k (sc_peers (dm_connectivity ?e)) = bt_remove k (sc_peers (dm_connectivity d))"
    by (simp add: peers_emit_connectivity) (simp add: adjust_peer_def bt_remove_adjust)
  from e v p show "same_registries (unmanage k ?e) (unmanage k d)" by (simp add: same_registries_def)
  from e show "same_counts (unmanage k ?e) d" by (simp add: same_counts_def)
qed

lemma filter_other_keys:
  assumes "bt_wf m"
  shows "filter (\<lambda>e. fst e \<notin> set (map fst (filter P m))) m = filter (\<lambda>e. \<not> P e) m"
proof (rule filter_cong [OF refl])
  fix e
  assume e: "e \<in> set m"
  have "P e" if "fst e \<in> set (map fst (filter P m))"
  proof -
    obtain e' where e': "e' \<in> set m" "P e'" "fst e = fst e'" using \<open>fst e \<in> _\<close> by auto
    have "bt_get m (fst e) = Some (snd e)" "bt_get m (fst e') = Some (snd e')" using e e'(1) by (simp_all add: bt_get_iff_mem [OF assms])
    then have "e = e'" using e'(3) by (simp add: prod_eq_iff)
    with e'(2) show ?thesis by simp
  qed
  with e show "(fst e \<notin> set (map fst (filter P m))) = (\<not> P e)" by auto
qed

lemma invalidate_peer_fields:
  assumes wf: "bt_wf (dm_sessions d)" "bt_wf (dm_pending d)"
    and c_def: "c = invalidate_peer env k reason d"
  shows "same_registries c ((unmanage k d)\<lparr>dm_outbound := bt_adjust k cancelled_record (dm_outbound d),
      dm_pending := filter (\<lambda>(_, r). ppi_device_id (pr_info r) \<noteq> k) (dm_pending d),
      dm_sessions := filter (\<lambda>(_, r). session_peer r \<noteq> k) (dm_sessions d)\<rparr>)"
    and "same_counts c d"
    and "bt_get (dm_sessions d) i = Some r \<Longrightarrow> session_peer r = k \<Longrightarrow> sr_closer r \<in> set (dm_closed c)"
    and "bt_get (dm_pending d) i = Some q \<Longrightarrow> ppi_device_id (pr_info q) = k \<Longrightarrow> pr_closer q \<in> set (dm_closed c)"
    and "set (dm_closed d) \<subseteq> set (dm_closed c)"
proof -
  let ?f = "\<lambda>p. peer_failed Fail_NotTrusted (de_now env) 0 (p\<lparr>cp_session_id := None\<rparr>)"
  define d1 where "d1 = (case managed d k of None \<Rightarrow> d | Some _ \<Rightarrow> emit_connectivity (de_now env) k (adjust_peer k ?f d))"
  have d1': "d1 = emit_connectivity (de_now env) k (adjust_peer k ?f d)"
    by (cases "managed d k") (simp_all add: d1_def adjust_unmanaged emit_connectivity_def)
  define d3 where "d3 = cancel_outbound k (Err (operation_error Code_PeerNotTrusted ''durable trust invalidated outbound work'')) (unmanage k d1)"
  define d4 where "d4 = fold (drop_pending env k) (map fst (filter (\<lambda>(_, r). ppi_device_id (pr_info r) = k) (dm_pending d3))) d3"
  have c: "c = fold (drop_session k reason) (map fst (filter (\<lambda>(_, r). si_device_id (sr_info r) = k) (dm_sessions d4))) d4"
    unfolding c_def invalidate_peer_def Let_def d1_def [symmetric] unmanage_def [symmetric] d3_def [symmetric] d4_def [symmetric] ..
  note d1 = unmanage_announced [of k "de_now env" ?f d, folded d1']
  have "same_registries d3 ((unmanage k d1)\<lparr>dm_outbound := bt_adjust k cancelled_record (dm_outbound d)\<rparr>)"
    using same_cancel_outbound [of k _ "unmanage k d1"] d1(1) unfolding d3_def by (simp add: same_registries_def)
  also have "same_registries \<dots> ((unmanage k d)\<lparr>dm_outbound := bt_adjust k cancelled_record (dm_outbound d)\<rparr>)"
    using d1(1) by (rule same_outbound_cong)
  finally have d3: "same_registries d3 ((unmanage k d)\<lparr>dm_outbound := bt_adjust k cancelled_record (dm_outbound d)\<rparr>)" .
  then have reg3: "dm_pending d3 = dm_pending d" "dm_sessions d3 = dm_sessions d" by (simp_all add: same_registries_def)
  note p = fold_drop_pending [of env k "map fst (filter (\<lambda>(_, r). ppi_device_id (pr_info r) = k) (dm_pending d3))" d3, folded d4_def]
  have d4: "same_registries d4 ((unmanage k d)\<lparr>dm_outbound := bt_adjust k cancelled_record (dm_outbound d),
      dm_pending := filter (\<lambda>(_, r). ppi_device_id (pr_info r) \<noteq> k) (dm_pending d)\<rparr>)"
    using same_registries_trans [OF conjunct1 [OF p] same_pending_cong [OF d3]] filter_other_keys [OF wf(2)]
    unfolding reg3 by (simp add: case_prod_unfold)
  then have reg4: "dm_sessions d4 = dm_sessions d" by (simp add: same_registries_def)
  note q = fold_drop_sessions [of k reason "map fst (filter (\<lambda>(_, r). si_device_id (sr_info r) = k) (dm_sessions d4))" d4, folded c]
  show "same_registries c ((unmanage k d)\<lparr>dm_outbound := bt_adjust k cancelled_record (dm_outbound d),
      dm_pending := filter (\<lambda>(_, r). ppi_device_id (pr_info r) \<noteq> k) (dm_pending d),
      dm_sessions := filter (\<lambda>(_, r). session_peer r \<noteq> k) (dm_sessions d)\<rparr>)"
    using same_registries_trans [OF conjunct1 [OF q] same_sessions_cong [OF d4]] filter_other_keys [OF wf(1)]
    unfolding reg4 by (simp add: case_prod_unfold session_peer_def)
  have "same_counts d3 d"
    using same_counts_trans [OF counts_cancel_outbound d1(2)] by (simp add: d3_def)
  then show "same_counts c d" using p q same_counts_trans by blast
  have cl3: "dm_closed d3 = dm_closed d" by (simp add: d3_def d1')
  show "sr_closer r \<in> set (dm_closed c)" if "bt_get (dm_sessions d) i = Some r" "session_peer r = k" for r
    using q bt_get_SomeD [OF that(1)] that reg4 by (force simp: session_peer_def)
  show "pr_closer q' \<in> set (dm_closed c)" if "bt_get (dm_pending d) i = Some q'" "ppi_device_id (pr_info q') = k" for q'
  proof -
    have i: "i \<in> set (map fst (filter (\<lambda>(_, r). ppi_device_id (pr_info r) = k) (dm_pending d3)))"
      using bt_get_SomeD [OF that(1)] that(2) reg3 by force
    then have "pr_closer q' \<in> set (dm_closed d4)" using p that(1) unfolding reg3 by blast
    with q show ?thesis by blast
  qed
  show "set (dm_closed d) \<subseteq> set (dm_closed c)" using p q cl3 by auto
qed

end
