(* ===== verification/Daemon_Safety.thy ===== *)
theory Daemon_Safety
  imports Daemon_Registry
begin

text \<open>
  What the runtime guarantees: every turn of the event loop keeps the invariant of the registries, and
  from it sessions exist only for trusted peers and at most one for each, every bound of the
  configuration holds, and a peer whose trust was withdrawn has lost everything it had.
\<close>

section \<open>Notions\<close>

text \<open>The peers that loading is to manage: the trusted ones other than the device itself.\<close>

definition loadable :: "device_id \<Rightarrow> trust_entry list \<Rightarrow> device_id list" where
  "loadable self es = map entry_device_id (filter (\<lambda>e. entry_state e = TrustState_Trusted \<and> entry_device_id e \<noteq> self) es)"

text \<open>A scheduler with fresh entries for the given peers.\<close>

definition loaded :: "nat \<Rightarrow> device_id list \<Rightarrow> scheduler \<Rightarrow> scheduler" where
  "loaded now ids sc = sc\<lparr>sc_peers := fold (\<lambda>i. bt_insert i (peer_new now)) ids (sc_peers sc)\<rparr>"

text \<open>The reply a waiter gets when its dial is refused.\<close>

fun refusal :: "error_response \<Rightarrow> outbound_reply \<Rightarrow> nat \<times> reply_value" where
  "refusal e (Reply_Ipc c) = (c, Rv_Response (Err e))"
| "refusal e (Reply_Pairing c) = (c, Rv_Pairing (Err (Handle_Operation e)))"
| "refusal e (Reply_Session c) = (c, Rv_Session (Err (Handle_Operation e)))"

text \<open>What the waiters of a dial are sent when it ends in a pairing, and when it ends in a session.\<close>

fun pairing_reply :: "pairing_attempt_id \<Rightarrow> outbound_reply \<Rightarrow> nat \<times> reply_value" where
  "pairing_reply i (Reply_Ipc c) = (c, Rv_Response (Ok (Res_PairingStarted i)))"
| "pairing_reply i (Reply_Pairing c) = (c, Rv_Pairing (Ok i))"
| "pairing_reply i (Reply_Session c) =
     (c, Rv_Session (Err (Handle_Operation (operation_error Code_Internal ''session result invariant failed''))))"

fun session_reply :: "device_id \<Rightarrow> session_id \<Rightarrow> outbound_reply \<Rightarrow> nat \<times> reply_value" where
  "session_reply k i (Reply_Ipc c) = (c, Rv_Response (Ok (Res_PeerConnected k i)))"
| "session_reply k i (Reply_Session c) = (c, Rv_Session (Ok i))"
| "session_reply k i (Reply_Pairing c) =
     (c, Rv_Pairing (Err (Handle_Operation (operation_error Code_Internal ''pairing result invariant failed''))))"

definition candidate_device :: "connection_candidate \<Rightarrow> device_id" where
  "candidate_device candidate =
     (case candidate of Cand_Authorized _ c \<Rightarrow> tp_device_id (ac_peer c) | Cand_Pending _ p \<Rightarrow> tp_device_id (pp_peer p))"

text \<open>A dial brings nothing: its task failed, its connection could not be registered, or it was for something else.\<close>

definition dial_fails ::
  "daemon_env \<Rightarrow> bool \<Rightarrow> (error_response, connection_candidate) result \<Rightarrow> daemon \<Rightarrow> error_response \<Rightarrow> bool" where
  "dial_fails env pairing result d e =
     (case result of
        Err e' \<Rightarrow> e = e'
      | Ok (Cand_Pending h p) \<Rightarrow> pairing \<longrightarrow> fst (register_pending env h p Outbound d) = Err e
      | Ok (Cand_Authorized h c) \<Rightarrow> \<not> pairing \<longrightarrow> fst (register_session env h c Outbound d) = Err e)"

text \<open>The fields that closing a connection leaves alone.\<close>

definition quiet_fields :: "daemon \<Rightarrow> daemon \<Rightarrow> bool" where
  "quiet_fields c d = (dm_sessions c = dm_sessions d \<and> dm_pending c = dm_pending d \<and> dm_connectivity c = dm_connectivity d \<and>
     dm_outbound c = dm_outbound d \<and> dm_commands_open c = dm_commands_open d \<and> dm_endpoint_open c = dm_endpoint_open d \<and>
     dm_replies c = dm_replies d)"

section \<open>Example values\<close>

definition example_config :: daemon_config where
  "example_config = \<lparr>dc_device_name = ''alice'', dc_platform = ''linux'', dc_connection_timeout = 1, dc_handshake_timeout = 1,
     dc_pairing_timeout = 1, dc_max_inflight_connections = 2, dc_max_active_sessions = 2, dc_max_outbound_connects = 2,
     dc_max_pending_pairings = 2, dc_max_ipc_clients = 2, dc_shutdown_timeout = 1\<rparr>"

definition example_daemon :: daemon where
  "example_daemon = (daemon_ready example_config alice_id example_endpoint trusted_store
     \<lparr>sc_peers = [(example_id, peer_new 0)], sc_next_start = 0\<rparr>)\<lparr>dm_tasks := 2\<rparr>"

definition example_params :: daemon_params where
  "example_params = \<lparr>dp_blake3 = zero_digest, dp_codec = example_codec, dp_valid_key = (\<lambda>_. True),
     dp_trust_text = (\<lambda>_. ''trust''), dp_version = ''1''\<rparr>"

definition example_denv :: daemon_env where
  "example_denv = \<lparr>de_now = 5, de_sample = None, de_persist = quiet_env, de_permits = 1, de_delivered = True\<rparr>"

definition example_authorized :: authorized_connection where
  "example_authorized = \<lparr>ac_trust_generation = 0, ac_connection = example_conn [], ac_peer = example_peer\<rparr>"

definition example_dialing :: daemon where
  "example_dialing = handle_command example_params example_denv (Cmd_BeginPairing \<lparr>ea_id = bob_id, ea_addrs = [5]\<rparr> 4) example_daemon"

definition example_live :: daemon where
  "example_live = join_task example_denv (Task_Incoming (Ok (Cand_Authorized 7 example_authorized))) example_daemon"

section \<open>Trust\<close>

lemma bt_wf_filter: "bt_wf m \<Longrightarrow> bt_wf (filter P m)"
  by (induction m) (auto simp: bt_wf_Cons bt_keys_def)

lemma bt_get_filter:
  "bt_wf m \<Longrightarrow> bt_get (filter (\<lambda>(_, r). P r) m) i = Some r \<longleftrightarrow> bt_get m i = Some r \<and> P r"
  by (simp add: bt_get_iff_mem bt_wf_filter)

lemma inv_invalidate:
  assumes inv: "registry_inv d" and tr: "\<And>j. j \<noteq> k \<Longrightarrow> trusted (dm_trust d) j \<Longrightarrow> trusted t j"
  shows "registry_inv (invalidate_peer env k reason (d\<lparr>dm_trust := t\<rparr>))"
proof -
  define c where "c = (unmanage k (d\<lparr>dm_trust := t\<rparr>))\<lparr>dm_outbound := bt_adjust k cancelled_record (dm_outbound d),
      dm_pending := filter (\<lambda>(_, r). ppi_device_id (pr_info r) \<noteq> k) (dm_pending d),
      dm_sessions := filter (\<lambda>(_, r). session_peer r \<noteq> k) (dm_sessions d)\<rparr>"
  have wf: "bt_wf (dm_sessions d)" "bt_wf (dm_pending d)"
    using inv by (simp_all add: registry_inv_def sessions_ok_def pending_ok_def)
  have "same_registries (invalidate_peer env k reason (d\<lparr>dm_trust := t\<rparr>)) c"
    using invalidate_peer_fields(1) [of "d\<lparr>dm_trust := t\<rparr>"] wf by (simp add: c_def)
  moreover have v: "view c = (view d)(k := None)" by (simp add: c_def)
  have "sessions_ok c"
    using inv wf(1) le_trans [OF length_filter_le] unfolding registry_inv_def sessions_ok_def v view_upd
    by (auto simp: c_def bt_wf_filter bt_get_filter)
  moreover have "pending_ok c"
    using inv wf(2) le_trans [OF length_filter_le] by (auto simp: registry_inv_def pending_ok_def c_def bt_wf_filter bt_get_filter)
  moreover have "outbound_ok c"
    using inv unfolding registry_inv_def outbound_ok_def v view_upd by (auto simp: c_def cancelled_record_def)
  moreover have "peers_ok c"
  proof -
    have "bt_wf (sc_peers (dm_connectivity c)) \<and> length (sc_peers (dm_connectivity c)) \<le> MAX_MANAGED_PEERS"
      using inv le_trans [OF length_bt_remove_le] by (auto simp: c_def registry_inv_def peers_ok_def bt_wf_remove)
    moreover have "\<exists>r. bt_get (dm_sessions c) i = Some r \<and> session_peer r = j"
      if "peer_session (view c) j = Some i" for i j
    proof -
      have j: "j \<noteq> k" "peer_session (view d) j = Some i" using that unfolding v by (auto split: if_splits)
      from inv_peer_session [OF inv j(2)] j(1) show ?thesis by (auto simp: c_def bt_get_filter [OF wf(1)])
    qed
    moreover have "view c j \<noteq> None \<longrightarrow> trusted (dm_trust c) j" for j
      using inv tr [of j] unfolding v by (auto simp: c_def registry_inv_def peers_ok_def)
    moreover have "peer_suspended (view c) j \<longrightarrow> peer_due (view c) j = None" for j
      using inv unfolding v by (auto simp: registry_inv_def peers_ok_def)
    ultimately show ?thesis by (simp add: peers_ok_def)
  qed
  ultimately show ?thesis using registry_inv_same by (auto simp: registry_inv_def)
qed

lemma inv_trust:
  assumes "registry_inv d" and "\<And>j. trusted (dm_trust d) j \<Longrightarrow> trusted t j"
  shows "registry_inv (d\<lparr>dm_trust := t\<rparr>)"
  using assms by (simp add: registry_inv_def sessions_ok_def pending_ok_def peers_ok_def outbound_ok_def)

lemma counts_invalidate:
  assumes "registry_inv d"
  shows "same_counts (invalidate_peer env k reason (d\<lparr>dm_trust := t\<rparr>)) d"
  using assms invalidate_peer_fields(2) [of "d\<lparr>dm_trust := t\<rparr>" "invalidate_peer env k reason (d\<lparr>dm_trust := t\<rparr>)"]
  by (simp add: registry_inv_def sessions_ok_def pending_ok_def same_counts_def)

text \<open>Both withdrawals commit a decision and, when that succeeded, invalidate the peer.\<close>

lemma keeps_withdraw:
  assumes inv: "registry_inv d" and run: "commit blake3 pc penv m None (dm_trust d) = (r, t)"
    and m: "m = Revoke k \<or> m = Forget k"
  shows "is_ok r \<Longrightarrow> keeps n (emit e (invalidate_peer env k reason (d\<lparr>dm_trust := t\<rparr>))) d"
    and "\<not> is_ok r \<Longrightarrow> keeps n (d\<lparr>dm_trust := t\<rparr>) d"
proof -
  note tr = commit_trusted [OF run]
  have "registry_inv (invalidate_peer env k reason (d\<lparr>dm_trust := t\<rparr>))"
    using tr(3) [OF m] by (intro inv_invalidate [OF inv]) simp
  then show "keeps n (emit e (invalidate_peer env k reason (d\<lparr>dm_trust := t\<rparr>))) d"
    using counts_invalidate [OF inv] by (intro keeps_trans [OF keeps_simps(1)] keeps_counts)
  assume "\<not> is_ok r"
  then obtain e where "r = Err e" by (cases r) auto
  then have "registry_inv (d\<lparr>dm_trust := t\<rparr>)" using tr(1) [of e] by (intro inv_trust [OF inv]) simp
  then show "keeps n (d\<lparr>dm_trust := t\<rparr>) d" by (intro keeps_counts) (simp_all add: same_counts_def)
qed

lemma keeps_revoke:
  assumes "registry_inv d"
  shows "keeps n (snd (revoke_peer ps env k d)) d"
proof -
  obtain r t where run: "revoke (dp_blake3 ps) (dp_codec ps) (de_persist env) k (dm_trust d) = (r, t)" by fastforce
  show ?thesis
    using keeps_withdraw [OF assms run [unfolded revoke_def], of k] run by (cases r) (simp_all add: revoke_peer_def)
qed

lemma keeps_forget:
  assumes "registry_inv d"
  shows "keeps n (snd (forget_peer ps env k d)) d"
proof -
  obtain r t where run: "forget (dp_blake3 ps) (dp_codec ps) (de_persist env) k (dm_trust d) = (r, t)" by fastforce
  show ?thesis
    using keeps_withdraw [OF assms run [unfolded forget_def], of k] run by (cases r) (simp_all add: forget_peer_def)
qed

lemma withdrawal_Ok:
  assumes "request = Req_RevokePeer k \<or> request = Req_ForgetPeer k"
    and "execute_request ps env request d = (Ok res, c)"
  shows "\<exists>m t e reason. (m = Revoke k \<or> m = Forget k) \<and>
    commit (dp_blake3 ps) (dp_codec ps) (de_persist env) m None (dm_trust d) = (Ok (), t) \<and>
    c = emit e (invalidate_peer env k reason (d\<lparr>dm_trust := t\<rparr>))"
  using assms(1)
proof
  assume r: "request = Req_RevokePeer k"
  then obtain t where "commit (dp_blake3 ps) (dp_codec ps) (de_persist env) (Revoke k) None (dm_trust d) = (Ok (), t)"
    "c = emit (Ev_TrustChanged k (Some TrustState_Revoked)) (invalidate_peer env k Cls_Revoked (d\<lparr>dm_trust := t\<rparr>))"
    using assms(2) by (auto simp: execute_request_def revoke_peer_def revoke_def split: prod.splits sum.splits)
  then show ?thesis by blast
next
  assume r: "request = Req_ForgetPeer k"
  then obtain t where "commit (dp_blake3 ps) (dp_codec ps) (de_persist env) (Forget k) None (dm_trust d) = (Ok (), t)"
    "c = emit (Ev_TrustChanged k None) (invalidate_peer env k Cls_Forgotten (d\<lparr>dm_trust := t\<rparr>))"
    using assms(2) by (auto simp: execute_request_def forget_peer_def forget_def split: prod.splits sum.splits)
  then show ?thesis by blast
qed

section \<open>Turns of the loop\<close>

lemma keeps_execute_request: "registry_inv d \<Longrightarrow> keeps n (snd (execute_request ps env request d)) d"
  by (cases request) (simp_all add: execute_request_def keeps_revoke keeps_forget keeps_disconnect)

lemma keeps_confirm_pairing: "keeps n (confirm_pairing env i accepted channel d) d"
proof -
  let ?d1 = "d\<lparr>dm_pending := bt_adjust i (\<lambda>q. q\<lparr>pr_resolving := Some accepted\<rparr>) (dm_pending d)\<rparr>"
  have d1: "registry_inv ?d1" if "registry_inv d"
    by (rule inv_pending_shrinks [OF that]) (use inv_pending_wf [OF that] in \<open>auto split: if_splits\<close>)
  have a: "keeps n (?d1\<lparr>dm_pairing_commands := x\<rparr>) d" for x
  proof -
    have "same_registries (?d1\<lparr>dm_pairing_commands := x\<rparr>) ?d1" by (rule same_registriesI) simp_all
    from registry_inv_same [OF this] d1 show ?thesis by (simp add: keeps_def)
  qed
  have b: "keeps n (?d1\<lparr>dm_pending := bt_remove i (dm_pending ?d1)\<rparr>) d"
    using d1 inv_remove_pending [of ?d1 i] by (simp add: keeps_def)
  show ?thesis unfolding confirm_pairing_def Let_def using a b by (simp split: option.split)
qed

lemma keeps_remember:
  assumes "registry_inv d"
  shows "keeps n (emit_connectivity now k (adjust_peer k (peer_resume now) (d\<lparr>dm_endpoint := ep\<rparr>))) d"
proof -
  have "registry_inv (d\<lparr>dm_endpoint := ep\<rparr>)" using assms keeps_endpoint [where d = d and ep = ep] by (simp add: keeps_def)
  then have "keeps n (adjust_peer k (peer_resume now) (d\<lparr>dm_endpoint := ep\<rparr>)) d"
    by (intro keeps_counts inv_resume) (simp_all add: same_counts_def)
  then show ?thesis by (rule keeps_trans [OF keeps_simps(6)])
qed

lemma keeps_handle_command:
  assumes inv: "registry_inv d"
  shows "keeps HARD_MAX_OWNED_TASKS (handle_command ps env command d) d"
proof -
  let ?m = HARD_MAX_OWNED_TASKS
  have send: "keeps ?m (send_oneshot c v x) d" if "keeps ?m x d" for c v x by (rule keeps_trans [OF keeps_simps(2) that])
  show ?thesis
  proof (cases command)
    case (Cmd_RememberPeer addr channel)
    obtain r ep where run: "remember_peer_addr addr (dm_endpoint d) = (r, ep)" by fastforce
    let ?d1 = "d\<lparr>dm_endpoint := ep\<rparr>"
    have "keeps ?m (case r of
        Err _ \<Rightarrow> ?d1
      | Ok i \<Rightarrow>
          (case managed ?d1 i of
             None \<Rightarrow> ?d1
           | Some p \<Rightarrow>
               if cp_state p = Con_Unresolved \<and> \<not> cp_suspended p
               then emit_connectivity (de_now env) i (adjust_peer i (peer_resume (de_now env)) ?d1) else ?d1)) d"
      using keeps_remember [OF inv] by (simp split: sum.split option.split)
    from send [OF this] show ?thesis by (simp add: handle_command_def Cmd_RememberPeer run Let_def)
  next
    case (Cmd_Request request channel)
    have "keeps ?m (case execute_request ps env request d of (r, d1) \<Rightarrow> send_oneshot channel (Rv_Response r) d1) d"
      using send [OF keeps_execute_request [OF inv, of ?m ps env request]] by (simp add: case_prod_unfold)
    moreover have "keeps ?m (spawn_outbound ps env k pairing (Some (Reply_Ipc channel)) d) d" for k pairing
      by (rule keeps_spawn_outbound [OF inv]) auto
    ultimately show ?thesis
      using Cmd_Request by (cases request) (simp_all add: handle_command_def keeps_confirm_pairing)
  qed (simp_all add: handle_command_def send keeps_remember_and_dial [OF inv])
qed

lemma keeps_dial_due:
  assumes inv: "registry_inv d"
  shows "keeps HARD_MAX_OWNED_TASKS (dial_due ps env d) d"
proof (cases rule: take_due_cases [of "de_now env" "dm_connectivity d"])
  case idle
  then show ?thesis by (simp add: dial_due_def)
next
  case (start k due s')
  let ?f = "\<lambda>p :: managed_peer. p\<lparr>cp_due := None, cp_state := Con_Connecting\<rparr>"
  let ?d = "d\<lparr>dm_connectivity := s'\<rparr>"
  have same: "same_registries ?d (adjust_peer k ?f d)"
    unfolding start(6) by (simp add: same_registries_def adjust_peer_def view_def managed_def fun_eq_iff)
  have inv': "registry_inv (adjust_peer k ?f d)" by (rule inv_policy [OF inv]) simp
  obtain p where p: "(k, p) \<in> set (sc_peers (dm_connectivity d))" "cp_due p = Some due"
    using start(3) by (auto simp: in_due_peers)
  then have m: "managed d k = Some p"
    using inv by (simp add: managed_def bt_get_iff_mem registry_inv_def peers_ok_def)
  have "\<not> cp_suspended p" using inv_suspended [OF inv m] p(2) by auto
  then have "\<not> peer_suspended (view ?d) k"
    using same view_adjust_known [OF m, of ?f] by (simp add: same_registries_def)
  moreover have d: "registry_inv ?d" using inv' registry_inv_same [OF same] by simp
  ultimately have "keeps HARD_MAX_OWNED_TASKS (spawn_outbound ps env k False None ?d) ?d"
    by (intro keeps_spawn_outbound) simp_all
  also have "keeps HARD_MAX_OWNED_TASKS ?d d" using d by (intro keeps_counts) (simp_all add: same_counts_def)
  finally show ?thesis using start(1) by (simp add: dial_due_def)
qed

lemma inv_remove_outbound: "registry_inv d \<Longrightarrow> registry_inv (d\<lparr>dm_outbound := bt_remove k (dm_outbound d)\<rparr>)"
  using le_trans [OF length_bt_remove_le] by (auto simp: inv_defs bt_wf_remove)

lemma keeps_outbound_done:
  assumes inv: "registry_inv d"
  shows "keeps SPAWN_LIMIT (snd (handle_task_output env (Task_Outbound k token result) d)) d"
proof (cases "bt_get (dm_outbound d) k")
  case None
  then show ?thesis by (simp add: handle_task_output_def)
next
  case (Some q)
  let ?d1 = "d\<lparr>dm_outbound := bt_remove k (dm_outbound d)\<rparr>"
  have d1: "registry_inv ?d1" by (rule inv_remove_outbound [OF inv])
  then have k1: "keeps SPAWN_LIMIT ?d1 d" by (intro keeps_counts) (simp_all add: same_counts_def)
  have "keeps SPAWN_LIMIT (finish_outbound env k q result ?d1) d" if "\<not> or_cancelled q"
    using inv_outbound [OF inv Some] that by (intro keeps_trans [OF keeps_finish_outbound [OF d1] k1]) simp
  with Some k1 keeps_trans [OF keeps_drop(2) k1] show ?thesis by (simp add: handle_task_output_def Let_def)
qed

text \<open>Joining a task: every output but that of a client keeps the number of clients.\<close>

lemma keeps_task_output:
  assumes inv: "registry_inv d" and task: "from_task d output" and "output \<noteq> Task_IpcClient"
  shows "keeps SPAWN_LIMIT (snd (handle_task_output env output d)) d"
proof (cases "output")
  case (Task_Incoming r)
  then show ?thesis by (cases r) (simp_all add: handle_task_output_def keeps_register_candidate)
next
  case (Task_Outbound k token result)
  then show ?thesis using keeps_outbound_done [OF inv] by simp
next
  case (Task_PairingEnded i k result channel)
  then show ?thesis by (simp add: handle_task_output_def keeps_finish_pairing)
next
  case (Task_SessionEnded i k reason failure)
  with task show ?thesis by (simp add: handle_task_output_def keeps_session_ended)
qed (use assms in simp)

lemma inv_clients [simp]: "registry_inv (d\<lparr>dm_ipc_clients := n\<rparr>) = registry_inv d"
  by (rule registry_inv_same, rule same_registriesI) simp_all

lemma from_task_tasks [simp]: "from_task (d\<lparr>dm_tasks := n\<rparr>) output = from_task d output"
  by (cases "output") (simp_all add: from_task_def)

lemma join_task_inv:
  assumes inv: "daemon_inv d" and t: "0 < dm_tasks d" "from_task d output"
  shows "daemon_inv (join_task env output d)"
proof (cases "output = Task_IpcClient")
  case True
  with inv show ?thesis by (auto simp: join_task_def handle_task_output_def daemon_inv_def)
next
  case False
  let ?d = "d\<lparr>dm_tasks := dm_tasks d - 1\<rparr>"
  obtain respawn d1 where run: "handle_task_output env output ?d = (respawn, d1)" by fastforce
  have k: "keeps SPAWN_LIMIT d1 ?d"
    using keeps_task_output [of ?d "output" env] inv t(2) False run by (simp add: daemon_inv_def)
  then have "dm_tasks d1 \<le> SPAWN_LIMIT" using inv t(1) by (auto simp: keeps_def daemon_inv_def SPAWN_LIMIT_def)
  with k inv t(1) run show ?thesis
    by (auto simp: join_task_def spawn_accept_worker_def keeps_def daemon_inv_def SPAWN_LIMIT_def)
qed

lemma keeps_daemon_inv: "daemon_inv d \<Longrightarrow> (registry_inv d \<Longrightarrow> keeps HARD_MAX_OWNED_TASKS c d) \<Longrightarrow> daemon_inv c"
  by (simp add: daemon_inv_def keeps_def)

lemma loop_step_inv:
  assumes "daemon_inv d" and "loop_step ps d c"
  shows "daemon_inv c"
  using assms(2)
proof cases
  case (turn_dial env)
  then show ?thesis using keeps_daemon_inv [OF assms(1)] keeps_dial_due by simp
next
  case turn_ipc
  with assms(1) show ?thesis by (simp add: spawn_ipc_client_def daemon_inv_def)
next
  case (turn_command command env)
  then show ?thesis using keeps_daemon_inv [OF assms(1)] keeps_handle_command by simp
next
  case (turn_task out env)
  then show ?thesis using join_task_inv [OF assms(1)] by simp
next
  case (conn_closes h)
  then show ?thesis using keeps_daemon_inv [OF assms(1)] by simp
next
  case (pairing_commits penv p g r store)
  have "trusted store j" if "trusted (dm_trust d) j" for j
    using pairing_commits(2) that commit_trusted(2) [OF _ refl that]
    by (auto simp: trust_if_generation_def split: sum.splits)
  then show ?thesis using pairing_commits(1) inv_trust [of d store] assms(1) by (simp add: daemon_inv_def)
qed

section \<open>Startup\<close>

lemma loadable_simps [simp]:
  "loadable self [] = []" "loadable self (Entry_Revoked i # es) = loadable self es"
  "loadable self (Entry_Trusted p # es) =
     (if tp_device_id p = self then loadable self es else tp_device_id p # loadable self es)"
  "loadable self (es @ fs) = loadable self es @ loadable self fs"
  by (simp_all add: loadable_def)

lemma load_entries_eq:
  assumes "bt_wf (sc_peers sc)" and "length (sc_peers sc) \<le> MAX_MANAGED_PEERS"
    and "distinct (loadable self es)" and "\<forall>i \<in> set (loadable self es). \<not> bt_contains (sc_peers sc) i"
  shows "load_entries now self es sc =
    (if length (sc_peers sc) + length (loadable self es) \<le> MAX_MANAGED_PEERS then Ok (loaded now (loadable self es) sc)
     else Err (Dae_InvalidConfiguration ''trusted peer connectivity capacity exceeded''))"
  using assms
proof (induction now self es sc rule: load_entries.induct)
  case (3 now self p es sc)
  show ?case
  proof (cases "tp_device_id p = self")
    case True
    with 3 show ?thesis by simp
  next
    case False
    let ?i = "tp_device_id p"
    have new: "\<not> bt_contains (sc_peers sc) ?i" using 3(6) False by simp
    show ?thesis
    proof (cases "length (sc_peers sc) = MAX_MANAGED_PEERS")
      case True
      with False new show ?thesis by (simp add: scheduler_insert_def)
    next
      case room: False
      let ?sc = "sc\<lparr>sc_peers := bt_insert ?i (peer_new now) (sc_peers sc)\<rparr>"
      have ins: "scheduler_insert ?i now sc = (True, ?sc)" using new room by (simp add: scheduler_insert_def)
      have len: "length (sc_peers ?sc) = Suc (length (sc_peers sc))" using new 3(3) by (simp add: length_bt_insert)
      have "load_entries now self es ?sc =
        (if length (sc_peers ?sc) + length (loadable self es) \<le> MAX_MANAGED_PEERS then Ok (loaded now (loadable self es) ?sc)
         else Err (Dae_InvalidConfiguration ''trusted peer connectivity capacity exceeded''))"
        by (rule 3(2) [OF False ins [symmetric] refl])
          (use 3(3-6) False room len in \<open>auto simp: bt_wf_insert bt_contains_def\<close>)
      with False ins len show ?thesis by (simp add: loaded_def)
    qed
  qed
qed (simp_all add: loaded_def)

lemma load_entries_append:
  "load_entries now self (es @ fs) sc = and_then (load_entries now self es sc) (load_entries now self fs)"
  by (induction now self es sc rule: load_entries.induct) (auto split: prod.split bool.split)

text \<open>Reading the store page by page is reading it at once, and enough fuel always suffices.\<close>

lemma load_peers_all:
  assumes wf: "decisions_wf (ts_decisions s)"
  shows "length (after_cursor entry_device_id c (list_entries s)) < fuel \<Longrightarrow>
    load_peers fuel s now self c sc = Some (load_entries now self (after_cursor entry_device_id c (list_entries s)) sc)"
proof (induction fuel arbitrary: c sc)
  case 0
  then show ?case by simp
next
  case (Suc fuel)
  let ?rest = "after_cursor entry_device_id c (list_entries s)"
  let ?n = "unat MAX_PEER_PAGE_SIZE" and ?k = "min (unat MAX_PEER_PAGE_SIZE) MAX_LIST_PAGE_SIZE"
  have n: "0 < ?n" by (simp add: MAX_PEER_PAGE_SIZE_def)
  have k: "0 < ?k" using trust_listing.limit_pos [OF n] .
  obtain pg where pg: "list_page s c ?n = Ok pg" using n by (auto simp: list_page_def Let_def)
  have page: "page_entries pg = take ?k ?rest" "page_next_cursor pg =
      (if ?k < length ?rest then Some (entry_device_id (last (take ?k ?rest))) else None)"
    using trust_listing.page_entries [OF wf n, of c] trust_listing.page_cursor [OF wf n, of c] pg
    by (simp_all add: trust_page_of_def)
  show ?case
  proof (cases "?k < length ?rest")
    case True
    let ?c = "Some (entry_device_id (last (take ?k ?rest)))"
    have adv: "after_cursor entry_device_id ?c (list_entries s) = drop ?k ?rest"
      by (rule trust_listing.page_advances [OF wf n refl True])
    have "length (drop ?k ?rest) < fuel" unfolding length_drop using Suc.prems True k by linarith
    then have "load_peers fuel s now self ?c sc' = Some (load_entries now self (drop ?k ?rest) sc')" for sc'
      using Suc.IH [of ?c sc', unfolded adv] by blast
    moreover have "load_entries now self ?rest sc =
        and_then (load_entries now self (take ?k ?rest) sc) (load_entries now self (drop ?k ?rest))"
      using load_entries_append [of now self "take ?k ?rest" "drop ?k ?rest" sc] by simp
    ultimately show ?thesis using pg page True
      by (cases "load_entries now self (take ?k ?rest) sc") simp_all
  next
    case False
    then have "take ?k ?rest = ?rest" by (intro take_all) linarith
    with False pg page show ?thesis by (cases "load_entries now self ?rest sc") simp_all
  qed
qed

lemma get_loaded:
  "bt_get (sc_peers (loaded now ids sc)) k = (if k \<in> set ids then Some (peer_new now) else bt_get (sc_peers sc) k)"
proof -
  have "bt_get (fold (\<lambda>i. bt_insert i (peer_new now)) ids m) k = (if k \<in> set ids then Some (peer_new now) else bt_get m k)" for m
    by (induction ids arbitrary: m) auto
  then show ?thesis by (simp add: loaded_def)
qed

lemma loaded_wf:
  assumes "bt_wf (sc_peers sc)"
  shows "bt_wf (sc_peers (loaded now ids sc)) \<and> length (sc_peers (loaded now ids sc)) \<le> length (sc_peers sc) + length ids"
proof -
  have "bt_wf (fold (\<lambda>i. bt_insert i (peer_new now)) ids m) \<and>
      length (fold (\<lambda>i. bt_insert i (peer_new now)) ids m) \<le> length m + length ids" if "bt_wf m" for m
    using that
  proof (induction ids arbitrary: m)
    case (Cons i ids)
    have "length (bt_insert i (peer_new now) m) \<le> Suc (length m)" by (rule length_bt_insert_le)
    with Cons.IH [OF bt_wf_insert [OF Cons.prems], of i "peer_new now"] show ?case by simp
  qed simp
  with assms show ?thesis by (simp add: loaded_def)
qed

lemma loadable_trusted:
  assumes wf: "decisions_wf (ts_decisions s)"
  shows "distinct (loadable self (list_entries s))"
    and "set (loadable self (list_entries s)) = {k. trusted s k \<and> k \<noteq> self}"
proof -
  have "distinct (map entry_device_id (list_entries s))"
    using trust_listing.keys_sorted [OF wf] by (simp add: strict_sorted_iff)
  then show "distinct (loadable self (list_entries s))" by (simp add: loadable_def distinct_map_filter)
  have dwf: "bt_wf (ts_decisions s)" "list_all decision_wf (ts_decisions s)" using wf by (simp_all add: decisions_wf_def)
  have "(\<exists>e \<in> set (list_entries s). entry_state e = TrustState_Trusted \<and> entry_device_id e = k) = trusted s k" for k
  proof -
    have "entry_device_id (decision_entry i v) = i" if "(i, v) \<in> set (ts_decisions s)" for i v
      using dwf(2) that key_decision_entry [of "(i, v)"] by (auto simp: list_all_iff)
    moreover have "entry_state (decision_entry i v) = TrustState_Trusted \<longleftrightarrow> (\<exists>p. v = Decision_Trusted p)" for i v
      by (cases v) simp_all
    ultimately show ?thesis
      by (force simp: list_entries_def trusted_decision bt_get_iff_mem [OF dwf(1)])
  qed
  note tr = this
  show "set (loadable self (list_entries s)) = {k. trusted s k \<and> k \<noteq> self}"
    unfolding tr [symmetric] by (auto simp: loadable_def image_iff)
qed

lemma load_peers_result:
  assumes wf: "decisions_wf (ts_decisions s)" and ids_def: "ids = loadable self (list_entries s)"
  shows "load_peers (length (ts_decisions s) + 1) s now self None (scheduler_new now) = Some
    (if length ids \<le> MAX_MANAGED_PEERS then Ok (loaded now ids (scheduler_new now))
     else Err (Dae_InvalidConfiguration ''trusted peer connectivity capacity exceeded''))"
proof -
  have "load_peers (length (ts_decisions s) + 1) s now self None (scheduler_new now) =
      Some (load_entries now self (list_entries s) (scheduler_new now))"
    using load_peers_all [OF wf, of None "length (ts_decisions s) + 1"] by (simp add: after_cursor_def list_entries_def)
  moreover have "load_entries now self (list_entries s) (scheduler_new now) =
    (if length ids \<le> MAX_MANAGED_PEERS then Ok (loaded now ids (scheduler_new now))
     else Err (Dae_InvalidConfiguration ''trusted peer connectivity capacity exceeded''))"
    using load_entries_eq [of "scheduler_new now" self "list_entries s" now] loadable_trusted(1) [OF wf, of self]
    by (simp add: ids_def scheduler_new_def bt_contains_def)
  ultimately show ?thesis by simp
qed

lemma config_bounds:
  "daemon_config_validate c = Ok () \<Longrightarrow> dc_max_inflight_connections c \<le> HARD_MAX_INFLIGHT_CONNECTIONS"
  by (auto simp: daemon_config_validate_def validate_nonzero_duration_def validate_count_def split: if_splits)

lemma spawn_workers:
  "(spawn_accept_worker ^^ n) d = d\<lparr>dm_tasks := dm_tasks d + n\<rparr>"
  by (induction n) (simp_all add: spawn_accept_worker_def)

lemma loop_initial_inv:
  assumes "loop_initial d"
  shows "daemon_inv d"
proof -
  from assms obtain config self endpoint s now sc where i:
    "daemon_config_validate config = Ok ()" "decisions_wf (ts_decisions s)"
    "load_peers (length (ts_decisions s) + 1) s now self None (scheduler_new now) = Some (Ok sc)"
    "d = (spawn_accept_worker ^^ dc_max_inflight_connections config) (daemon_ready config self endpoint s sc)"
    unfolding loop_initial_def by blast
  let ?ids = "loadable self (list_entries s)"
  have sc: "sc = loaded now ?ids (scheduler_new now)" and few: "length ?ids \<le> MAX_MANAGED_PEERS"
    using i(3) load_peers_result [OF i(2) refl, of now self] by (simp_all split: if_splits)
  have wf: "bt_wf (sc_peers sc)" "length (sc_peers sc) \<le> MAX_MANAGED_PEERS"
    using loaded_wf [of "scheduler_new now" now ?ids] few unfolding sc by (simp_all add: scheduler_new_def)
  have v: "view d k = (if trusted s k \<and> k \<noteq> self then Some (None, False, Some now) else None)" for k
    using loadable_trusted(2) [OF i(2), of self]
    by (simp add: i(4) spawn_workers view_def managed_def daemon_ready_def sc get_loaded peer_new_def scheduler_new_def)
  then have "peers_ok d"
    using wf by (simp add: peers_ok_def i(4) spawn_workers daemon_ready_def peer_suspended_def peer_session_def peer_due_def split: if_splits)
  then have "registry_inv d"
    by (simp add: registry_inv_def sessions_ok_def pending_ok_def outbound_ok_def, simp add: i(4) spawn_workers daemon_ready_def)
  moreover have "dm_tasks d \<le> HARD_MAX_OWNED_TASKS"
    using config_bounds [OF i(1)]
    by (simp add: i(4) spawn_workers daemon_ready_def HARD_MAX_INFLIGHT_CONNECTIONS_def HARD_MAX_OWNED_TASKS_def)
  ultimately show ?thesis by (simp add: daemon_inv_def i(4) spawn_workers daemon_ready_def)
qed

interpretation daemon_machine: invariant_machine loop_initial "loop_step ps" daemon_inv for ps
  by unfold_locales (blast intro: loop_initial_inv loop_step_inv)+

section \<open>Examples\<close>

lemma example_initial: "loop_initial example_daemon"
proof -
  have wf: "decisions_wf (ts_decisions trusted_store)"
    using reachable_trust_inv [OF reachable_trusted zero_digest_ok example_ok] by (simp add: trust_inv_def)
  have ids: "[example_id] = loadable alice_id (list_entries trusted_store)"
    by (simp add: loadable_def list_entries_def trusted_store_def example_peer_def example_id_def alice_id_def)
  have "load_peers (length (ts_decisions trusted_store) + 1) trusted_store 0 alice_id None (scheduler_new 0) =
      Some (Ok \<lparr>sc_peers = [(example_id, peer_new 0)], sc_next_start = 0\<rparr>)"
    using load_peers_result [OF wf ids, of 0] by (simp add: loaded_def scheduler_new_def MAX_MANAGED_PEERS_def)
  moreover have "daemon_config_validate example_config = Ok ()"
    by (simp add: daemon_config_validate_def example_config_def validate_nonzero_duration_def validate_count_def
        HARD_MAX_INFLIGHT_CONNECTIONS_def HARD_MAX_OUTBOUND_CONNECTS_def HARD_MAX_ACTIVE_SESSIONS_def
        HARD_MAX_PENDING_PAIRINGS_def HARD_MAX_IPC_CLIENTS_def)
  moreover have "example_daemon = (spawn_accept_worker ^^ dc_max_inflight_connections example_config)
      (daemon_ready example_config alice_id example_endpoint trusted_store \<lparr>sc_peers = [(example_id, peer_new 0)], sc_next_start = 0\<rparr>)"
    by (simp add: spawn_workers example_daemon_def example_config_def daemon_ready_def)
  ultimately show ?thesis using wf unfolding loop_initial_def by blast
qed

lemma example_reachable: "reachable loop_initial (loop_step example_params) example_live"
proof -
  have "loop_step example_params example_daemon example_live"
    unfolding example_live_def by (rule turn_task) (simp_all add: example_daemon_def from_task_def)
  moreover have "reachable loop_initial (loop_step example_params) example_daemon"
    by (rule reach_init, rule example_initial)
  ultimately show ?thesis by (rule reach_step [rotated])
qed

lemma sessions_unchanged [simp]:
  "dm_sessions (emit e d) = dm_sessions d" "dm_sessions (send_oneshot ch v d) = dm_sessions d"
  "dm_sessions (emit_connectivity now k d) = dm_sessions d" "dm_sessions (cancel_outbound k r d) = dm_sessions d"
  "dm_sessions (close_conn h d) = dm_sessions d" "dm_sessions (spawn_accept_worker d) = dm_sessions d"
  using same_emit same_send same_emit_connectivity same_cancel_outbound same_close
  by (simp_all add: same_registries_def spawn_accept_worker_def)

lemma open_session_effect:
  "dm_sessions (open_session env h c orig i d) = bt_insert i \<lparr>sr_origin = orig, sr_info = \<lparr>si_session_id = i,
     si_device_id = tp_device_id (ac_peer c), si_device_name = tp_device_name (ac_peer c),
     si_platform = tp_platform (ac_peer c)\<rparr>, sr_closer = h\<rparr> (dm_sessions d)"
  "dm_closed (open_session env h c orig i d) = dm_closed d" "dm_trust (open_session env h c orig i d) = dm_trust d"
  "dm_device_id (open_session env h c orig i d) = dm_device_id d"
  "dm_next_session_id (open_session env h c orig i d) = dm_next_session_id d"
proof -
  have "same_registries (emit e (if b then cancel_outbound k y z else z)) (z\<lparr>dm_outbound := dm_outbound (if b then cancel_outbound k y z else z)\<rparr>)"
    for e b k y z
    using same_emit same_cancel_outbound [of k y z] by (auto simp: same_registries_def)
  moreover have "same_registries (emit_connectivity now k z) z" for now k z by simp
  ultimately show "dm_sessions (open_session env h c orig i d) = bt_insert i \<lparr>sr_origin = orig, sr_info = \<lparr>si_session_id = i,
     si_device_id = tp_device_id (ac_peer c), si_device_name = tp_device_name (ac_peer c),
     si_platform = tp_platform (ac_peer c)\<rparr>, sr_closer = h\<rparr> (dm_sessions d)"
    "dm_trust (open_session env h c orig i d) = dm_trust d" "dm_device_id (open_session env h c orig i d) = dm_device_id d"
    "dm_next_session_id (open_session env h c orig i d) = dm_next_session_id d"
    unfolding open_session_def Let_def by (simp_all add: same_registries_def)
  show "dm_closed (open_session env h c orig i d) = dm_closed d"
    unfolding open_session_def Let_def by simp
qed

lemma example_live_eq:
  "example_live = spawn_accept_worker (open_session example_denv 7 example_authorized Inbound 1
     (example_daemon\<lparr>dm_tasks := 1, dm_next_session_id := 2\<rparr>))"
proof -
  have k: "tp_device_id (ac_peer example_authorized) = example_id"
    by (simp add: example_authorized_def example_peer_def)
  show ?thesis
    by (simp add: example_live_def join_task_def handle_task_output_def register_candidate_def snd_discard
        register_session_def k Let_def example_daemon_def daemon_ready_def trust_state_of_def entry_def trusted_store_def
        current_generation_def empty_store_def from_parts_def example_authorized_def is_closed_def scheduler_insert_def
        bt_contains_def existing_session_def st_bind_def allocate_session_id_def else_close_def checked_add_def example_config_def
        HARD_MAX_OWNED_TASKS_def bt_get_def)
qed

lemma example_live_fields:
  "dm_trust example_live = trusted_store" "dm_device_id example_live = alice_id" "dm_closed example_live = []"
  "dm_tasks example_live = 3" "dm_next_session_id example_live = 2"
  by (simp_all add: example_live_eq spawn_accept_worker_def open_session_effect open_session_counts example_daemon_def daemon_ready_def)

lemma example_live_sessions:
  "dm_sessions example_live = [(1, \<lparr>sr_origin = Inbound, sr_info = \<lparr>si_session_id = 1, si_device_id = example_id,
     si_device_name = ''bob'', si_platform = ''linux''\<rparr>, sr_closer = 7\<rparr>)]"
  by (simp add: example_live_eq open_session_effect example_daemon_def daemon_ready_def example_authorized_def example_peer_def)

lemma example_dialing_reachable: "reachable loop_initial (loop_step example_params) example_dialing"
proof -
  have "reachable loop_initial (loop_step example_params) example_daemon" by (rule reach_init, rule example_initial)
  moreover have "loop_step example_params example_daemon example_dialing"
    unfolding example_dialing_def by (rule turn_command) simp
  ultimately show ?thesis by (rule reach_step)
qed

lemma outbound_unchanged [simp]: "dm_outbound (emit_connectivity now k d) = dm_outbound d"
  using same_emit_connectivity [of now k d] by (simp add: same_registries_def)

lemma example_dialing_outbound:
  "\<exists>q. bt_get (dm_outbound example_dialing) bob_id = Some q \<and> or_pairing q \<and> or_replies q = [Reply_Pairing 4] \<and> \<not> or_cancelled q"
  "dm_trust example_dialing = trusted_store \<and> dm_config example_dialing = example_config \<and> dm_pending example_dialing = [] \<and>
   dm_tasks example_dialing = 3 \<and> dm_next_pairing_id example_dialing = 1"
proof -
  define ep where "ep = example_endpoint\<lparr>ep_hint_ids := [(bob_id, ())]\<rparr>"
  define d where "d = example_daemon\<lparr>dm_endpoint := ep\<rparr>"
  have ne: "bob_id \<noteq> alice_id" "bob_id \<noteq> example_id" by (simp_all add: bob_id_def alice_id_def example_id_def)
  have rem: "remember_peer_addr \<lparr>ea_id = bob_id, ea_addrs = [5]\<rparr> (dm_endpoint example_daemon) = (Ok bob_id, ep)"
    using ne by (simp add: remember_peer_addr_def example_daemon_def daemon_ready_def example_endpoint_def MAX_HINT_PATHS_def
        MAX_PEER_HINTS_def ep_def)
  have route: "has_route_source (dp_valid_key example_params) bob_id ep = Ok True"
    by (simp add: has_route_source_def example_params_def ep_def example_endpoint_def bt_contains_def bt_get_def)
  have kept: "dm_trust (emit_connectivity now j x) = dm_trust x" "dm_config (emit_connectivity now j x) = dm_config x"
    "dm_pending (emit_connectivity now j x) = dm_pending x" "dm_next_pairing_id (emit_connectivity now j x) = dm_next_pairing_id x" for now j x
    using same_emit_connectivity [of now j x] by (simp_all add: same_registries_def)
  have spawn: "\<exists>c q. spawn_dial example_params example_denv bob_id True d = (Ok None, c) \<and>
      bt_get (dm_outbound c) bob_id = Some q \<and> or_pairing q \<and> or_replies q = [] \<and> \<not> or_cancelled q \<and>
      dm_trust c = trusted_store \<and> dm_config c = example_config \<and> dm_pending c = [] \<and> dm_tasks c = 3 \<and> dm_next_pairing_id c = 1"
    by (simp add: kept spawn_dial_def d_def route example_daemon_def daemon_ready_def example_config_def HARD_MAX_OWNED_TASKS_def
        example_denv_def st_bind_def allocate_dial_id_def checked_add_def set_connecting_def bt_values_def bt_get_def)
  have "start_outbound example_params example_denv bob_id True True d = spawn_dial example_params example_denv bob_id True d"
    using ne by (simp add: start_outbound_def d_def example_daemon_def daemon_ready_def trust_state_of_def entry_def
        trusted_store_def bt_get_def st_bind_def)
  then show "\<exists>q. bt_get (dm_outbound example_dialing) bob_id = Some q \<and> or_pairing q \<and> or_replies q = [Reply_Pairing 4] \<and> \<not> or_cancelled q"
    and "dm_trust example_dialing = trusted_store \<and> dm_config example_dialing = example_config \<and> dm_pending example_dialing = [] \<and>
     dm_tasks example_dialing = 3 \<and> dm_next_pairing_id example_dialing = 1"
    using spawn by (auto simp: example_dialing_def handle_command_def remember_and_dial_def rem d_def [symmetric] spawn_outbound_def)
qed

section \<open>Competing connections\<close>

lemma existing_session_eq:
  assumes inv: "registry_inv d" and r: "bt_get (dm_sessions d) i = Some r"
  shows "existing_session d (session_peer r) = Some (i, sr_origin r, is_closed d (sr_closer r))"
proof (cases "existing_session d (session_peer r)")
  case None
  then show ?thesis using existing_session_None [OF inv None] inv_session [OF inv r] by simp
next
  case (Some e)
  obtain j orig closed where e: "e = (j, orig, closed)" by (cases e) auto
  from Some [unfolded e] obtain q where q: "bt_get (dm_sessions d) j = Some q" "session_peer q = session_peer r" "sr_origin q = orig"
    "closed = is_closed d (sr_closer q)" by (rule existing_session_Some [OF inv])
  have "j = i" using inv_session [OF inv q(1)] inv_session [OF inv r] q(2) by simp
  with Some e q r show ?thesis by simp
qed

lemma retire_session_closed:
  "bt_get (dm_sessions d) i = Some r \<Longrightarrow> dm_closed (retire_session env k i closed d) = sr_closer r # dm_closed d"
  by (simp add: retire_session_def Let_def)

text \<open>Registering a second connection of a peer whose session is open.\<close>

lemma register_second:
  assumes inv: "registry_inv d" and r: "bt_get (dm_sessions d) i = Some r" "session_peer r = k" "\<not> is_closed d (sr_closer r)"
    and c: "tp_device_id (ac_peer c) = k" "current_generation (dm_trust d) k = ac_trust_generation c" "\<not> is_closed d h"
    and room: "dm_tasks d < HARD_MAX_OWNED_TASKS - 1" "checked_add (dm_next_session_id d) 1 = Some n"
  shows "register_session env h c orig d =
    (if replaces orig (sr_origin r) (dm_device_id d) k
     then (Ok (dm_next_session_id d), open_session env h c orig (dm_next_session_id d)
            (retire_session env k i False (d\<lparr>dm_next_session_id := n\<rparr>)))
     else (Ok i, close_conn h d))"
proof -
  have s: "peer_session (view d) k = Some i" using inv_session [OF inv r(1)] r(2) by simp
  then have "managed d k \<noteq> None" using view_known(2) [of d k] by (cases "managed d k") auto
  then have sc: "scheduler_insert k (de_now env) (dm_connectivity d) = (True, dm_connectivity d)"
    by (simp add: scheduler_insert_def bt_contains_def managed_def)
  have "trusted (dm_trust d) k" using \<open>managed d k \<noteq> None\<close> inv_trusted [OF inv] by blast
  moreover have "existing_session d k = Some (i, sr_origin r, False)"
    using existing_session_eq [OF inv r(1)] r(2,3) by simp
  ultimately show ?thesis
    using c room by (simp add: register_session_def Let_def sc trusted_def st_bind_def allocate_session_id_def else_close_def)
qed

text \<open>Pages of the reconnect schedule.\<close>

lemma connectivity_sorted:
  "bt_wf (sc_peers sc) \<Longrightarrow> sorted_wrt (<) (map ci_device_id (connectivity_entries now sc))"
  by (simp add: connectivity_entries_def bt_wf_def bt_keys_def peer_info_at_def case_prod_unfold comp_def)

lemma connectivity_after:
  "after_cursor ci_device_id c (connectivity_entries now sc) = map (\<lambda>(i, p). peer_info_at i now p)
     (filter (\<lambda>(i, _). case c of None \<Rightarrow> True | Some a \<Rightarrow> a < i) (sc_peers sc))"
  by (cases c) (simp_all add: after_cursor_def connectivity_entries_def filter_map comp_def case_prod_unfold peer_info_at_def)

interpretation connectivity_listing: cursor_listing "\<lambda>sc. bt_wf (sc_peers sc)" "connectivity_entries now" ci_device_id
  "\<lambda>n. n" "connectivity_page_of now" for now
proof
  fix sc :: scheduler and n :: nat and c
  assume n: "0 < n"
  let ?rest = "after_cursor ci_device_id c (connectivity_entries now sc)"
  have entries: "map (\<lambda>(i, p). peer_info_at i now p)
      (take (n + 1) (filter (\<lambda>(i, _). case c of None \<Rightarrow> True | Some a \<Rightarrow> a < i) (sc_peers sc))) = take (n + 1) ?rest"
    by (simp add: connectivity_after take_map)
  have more: "butlast (take (n + 1) ?rest) = take n ?rest" "take n ?rest \<noteq> []" if "n < length ?rest"
    using that n by (auto simp: butlast_take)
  have page: "connectivity_page_of now sc n c =
      (if n < length ?rest then (take n ?rest, Some (ci_device_id (last (take n ?rest)))) else (take n ?rest, None))"
  proof (cases "n < length ?rest")
    case True
    then show ?thesis using more [OF True] unfolding connectivity_page_of_def Let_def entries by (simp add: min_def)
  next
    case False
    then show ?thesis unfolding connectivity_page_of_def Let_def entries by simp
  qed
  show "fst (connectivity_page_of now sc n c) = take n ?rest" by (simp add: page)
  show "snd (connectivity_page_of now sc n c) = (if n < length ?rest then Some (ci_device_id (last (take n ?rest))) else None)"
    by (simp add: page)
qed (simp_all add: connectivity_sorted)

section \<open>Shutting down\<close>

lemma reply_fields [simp]:
  "set (dm_replies (outbound_send (Err e) t d)) = set (dm_replies d) \<union> {refusal e t}"
  "dm_sessions (outbound_send r t d) = dm_sessions d" "dm_pending (outbound_send r t d) = dm_pending d"
  "dm_connectivity (outbound_send r t d) = dm_connectivity d" "dm_outbound (outbound_send r t d) = dm_outbound d"
  "dm_commands_open (outbound_send r t d) = dm_commands_open d"
  by (cases t; simp add: outbound_send_def send_oneshot_def)+

lemma send_all_fields [simp]:
  "set (dm_replies (send_all (Err e) ts d)) = set (dm_replies d) \<union> refusal e ` set ts"
  "dm_sessions (send_all r ts d) = dm_sessions d" "dm_pending (send_all r ts d) = dm_pending d"
  "dm_connectivity (send_all r ts d) = dm_connectivity d" "dm_outbound (send_all r ts d) = dm_outbound d"
  "dm_commands_open (send_all r ts d) = dm_commands_open d"
  by (induction ts arbitrary: d) (auto simp: send_all_def)

lemma cancel_all_fields:
  "set (dm_replies (fold (cancel_record (Err e)) qs d)) = set (dm_replies d) \<union> (\<Union>q \<in> set qs. refusal e ` set (or_replies q))"
  "dm_sessions (fold (cancel_record r) qs d) = dm_sessions d" "dm_pending (fold (cancel_record r) qs d) = dm_pending d"
  "dm_connectivity (fold (cancel_record r) qs d) = dm_connectivity d" "dm_outbound (fold (cancel_record r) qs d) = dm_outbound d"
  "dm_commands_open (fold (cancel_record r) qs d) = dm_commands_open d"
  by (induction qs arbitrary: d) (auto simp: cancel_record_def)

lemma fold_closes:
  assumes "\<And>e d. quiet_fields (f e d) d \<and> set (dm_closed (f e d)) = insert (h e) (set (dm_closed d))"
  shows "quiet_fields (fold f es d) d \<and> set (dm_closed (fold f es d)) = set (dm_closed d) \<union> h ` set es"
proof (induction es arbitrary: d)
  case (Cons e es)
  from Cons.IH [of "f e d"] assms [of e d] show ?case by (auto simp: quiet_fields_def)
qed (simp add: quiet_fields_def)

lemma shutdown_result:
  "\<exists>r st n. shutdown_runtime delivered descriptor joined cleanup lock d =
      (r, (drain_runtime delivered d)\<lparr>dm_state := st, dm_tasks := n\<rparr>) \<and>
    (r = Ok () \<longleftrightarrow> descriptor = Ok () \<and> joined = Joined \<and> cleanup = Ok () \<and> lock = Ok ()) \<and>
    (r = Ok () \<longrightarrow> st = Rt_Stopped \<and> n = 0)"
proof -
  let ?b = "drain_runtime delivered d"
  have fin: ?thesis if "shutdown_runtime delivered descriptor joined cleanup lock d =
      (and_then descriptor (\<lambda>_. and_then t (\<lambda>_. and_then cleanup (\<lambda>_. lock))), ?b\<lparr>dm_state := Rt_Stopped, dm_tasks := n\<rparr>)"
      "t = Ok () \<longleftrightarrow> joined = Joined" "joined = Joined \<longrightarrow> n = 0" for t n
    unfolding that(1) using that(2,3)
    by (intro exI [of _ "and_then descriptor (\<lambda>_. and_then t (\<lambda>_. and_then cleanup (\<lambda>_. lock)))"] exI [of _ Rt_Stopped] exI [of _ n])
      (cases descriptor; cases t; cases cleanup; simp)
  show ?thesis
  proof (cases joined)
    case Joined
    then show ?thesis by (intro fin [of "Ok ()" 0]) (simp_all add: shutdown_runtime_def)
  next
    case (Join_TaskFailed n)
    then show ?thesis by (intro fin [of "Err Dae_Task" n]) (simp_all add: shutdown_runtime_def)
  next
    case (Join_TimedOut n)
    then show ?thesis by (intro fin [of "Err (Dae_ShutdownTimeout n)" 0]) (simp_all add: shutdown_runtime_def)
  next
    case (Join_AbortFailed n)
    then show ?thesis
      by (intro exI [of _ "Err Dae_Task"] exI [of _ "dm_state ?b"] exI [of _ n]) (simp add: shutdown_runtime_def)
  qed
qed

lemma drain_runtime_fields:
  "dm_sessions (drain_runtime delivered d) = [] \<and> dm_pending (drain_runtime delivered d) = [] \<and>
   sc_peers (dm_connectivity (drain_runtime delivered d)) = [] \<and> \<not> dm_commands_open (drain_runtime delivered d) \<and>
   \<not> dm_endpoint_open (drain_runtime delivered d) \<and>
   dm_outbound (drain_runtime delivered d) = map (\<lambda>(i, q). (i, q\<lparr>or_cancelled := True, or_replies := []\<rparr>)) (dm_outbound d) \<and>
   set (dm_replies (drain_runtime delivered d)) = set (dm_replies d) \<union> (\<Union>q \<in> set (bt_values (dm_outbound d)).
     refusal (operation_error Code_ShuttingDown ''daemon is shutting down'') ` set (or_replies q)) \<and>
   set (dm_closed (drain_runtime delivered d)) \<supseteq>
     (\<lambda>(i, q). sr_closer q) ` set (dm_sessions d) \<union> (\<lambda>(i, q). pr_closer q) ` set (dm_pending d)"
proof -
  let ?e = "operation_error Code_ShuttingDown ''daemon is shutting down''"
  define d1 where "d1 = d\<lparr>dm_state := Rt_ShuttingDown, dm_commands_open := False,
    dm_connectivity := (dm_connectivity d)\<lparr>sc_peers := []\<rparr>\<rparr>"
  define d2 where "d2 = fold (cancel_record (Err ?e)) (bt_values (dm_outbound d1))
    (d1\<lparr>dm_outbound := map (\<lambda>(i, q). (i, q\<lparr>or_cancelled := True, or_replies := []\<rparr>)) (dm_outbound d1)\<rparr>)"
  define d3 where "d3 = (emit Ev_DaemonShuttingDown d2)\<lparr>dm_endpoint_open := False\<rparr>"
  define d4 where "d4 = fold (\<lambda>(i, q) d. emit (Ev_PairingResolved i (ppi_device_id (pr_info q)) Out_Cancelled)
      ((close_conn (pr_closer q) d)\<lparr>dm_pairing_commands := dm_pairing_commands d @ (if delivered then [(i, Pcmd_Cancel)] else [])\<rparr>))
    (dm_pending d3) (d3\<lparr>dm_pending := []\<rparr>)"
  define d5 where "d5 = drain_runtime delivered d"
  have p: "quiet_fields d4 (d3\<lparr>dm_pending := []\<rparr>) \<and>
      set (dm_closed d4) = set (dm_closed (d3\<lparr>dm_pending := []\<rparr>)) \<union> (\<lambda>(i, q). pr_closer q) ` set (dm_pending d3)"
    unfolding d4_def by (rule fold_closes) (auto simp: quiet_fields_def emit_def close_conn_def)
  have s: "quiet_fields d5 (d4\<lparr>dm_sessions := []\<rparr>) \<and>
      set (dm_closed d5) = set (dm_closed (d4\<lparr>dm_sessions := []\<rparr>)) \<union> (\<lambda>(i, q). sr_closer q) ` set (dm_sessions d4)"
    unfolding d5_def drain_runtime_def Let_def d1_def [symmetric] d2_def [symmetric] d3_def [symmetric] d4_def [symmetric]
    by (rule fold_closes) (auto simp: quiet_fields_def emit_def close_conn_def)
  have d3: "dm_sessions d3 = dm_sessions d" "dm_pending d3 = dm_pending d" "sc_peers (dm_connectivity d3) = []"
    "\<not> dm_commands_open d3" "\<not> dm_endpoint_open d3"
    "dm_outbound d3 = map (\<lambda>(i, q). (i, q\<lparr>or_cancelled := True, or_replies := []\<rparr>)) (dm_outbound d)"
    "set (dm_replies d3) = set (dm_replies d) \<union> (\<Union>q \<in> set (bt_values (dm_outbound d)). refusal ?e ` set (or_replies q))"
    by (simp_all add: d3_def d2_def d1_def emit_def cancel_all_fields)
  show ?thesis unfolding d5_def [symmetric] using p s d3 by (auto simp: quiet_fields_def)
qed

section \<open>Error texts\<close>

lemma floor_boundary: "floor_boundary s i \<le> i \<and> is_char_boundary s (floor_boundary s i)"
  by (induction i) (auto simp: is_char_boundary_def)

lemma floor_boundary_greatest: "j \<le> i \<Longrightarrow> is_char_boundary s j \<Longrightarrow> j \<le> floor_boundary s i"
  by (induction i) (auto simp: le_Suc_eq)

text \<open>A valid text has a character boundary within three bytes before any position.\<close>

lemma boundary_near:
  "utf8_valid bs \<Longrightarrow> k < length bs \<Longrightarrow> \<exists>j \<le> k. k \<le> j + 3 \<and> (j = 0 \<or> \<not> continuation_byte (bs ! j))"
proof (induction bs arbitrary: k rule: utf8_valid.induct)
  case (1 bs)
  then have ne: "bs \<noteq> []" by auto
  with "1.prems"(1) obtain n where n: "utf8_width bs = Some n" "utf8_valid (drop n bs)"
    by (subst (asm) utf8_valid.simps) (auto split: option.splits)
  show ?case
  proof (cases "k < n")
    case True
    then show ?thesis using utf8_width_first [OF n(1)] by (intro exI [of _ 0]) auto
  next
    case False
    then have "k - n < length (drop n bs)" using "1.prems"(2) by simp
    from "1.IH" [OF ne n this] obtain j where j: "j \<le> k - n" "k - n \<le> j + 3" "j = 0 \<or> \<not> continuation_byte (drop n bs ! j)"
      by blast
    have "\<not> continuation_byte (bs ! (n + j))"
    proof (cases "j = 0")
      case True
      have "drop n bs \<noteq> []" using False "1.prems"(2) by simp
      then obtain m where "utf8_width (drop n bs) = Some m"
        using n(2) by (subst (asm) utf8_valid.simps) (auto split: option.splits)
      from utf8_width_first [OF this] True \<open>drop n bs \<noteq> []\<close> show ?thesis by (simp add: hd_drop_conv_nth)
    next
      case False
      with j(3) \<open>\<not> k < n\<close> "1.prems"(2) j(1) show ?thesis by simp
    qed
    with False j(1,2) show ?thesis by (intro exI [of _ "n + j"]) auto
  qed
qed

section \<open>Answering the waiters of a dial\<close>

lemma replies_simps [simp]:
  "dm_replies (emit e d) = dm_replies d" "dm_replies (close_conn h d) = dm_replies d" "dm_replies (adjust_peer k f d) = dm_replies d"
  by (simp_all add: emit_def close_conn_def adjust_peer_def)

lemma replies_emit_connectivity [simp]: "dm_replies (emit_connectivity now k d) = dm_replies d"
  by (simp add: emit_connectivity_def Let_def split: option.split)

lemma replies_connectivity_failed [simp]: "dm_replies (connectivity_failed env k f d) = dm_replies d"
  by (simp add: connectivity_failed_def split: option.split)

lemma replies_retire [simp]: "dm_replies (retire_session env k i closed d) = dm_replies d"
  by (simp add: retire_session_def Let_def split: option.split)

lemma replies_drop [simp]: "dm_replies (drop_candidate c d) = dm_replies d"
  using drop_candidate_cases [of c d] by auto

lemma replies_register_pending: "register_pending env h p orig d = (r, d') \<Longrightarrow> dm_replies d' = dm_replies d"
  by (auto simp: register_pending_def Let_def st_bind_def else_close_def allocate_pairing_id_def split: option.splits if_splits)

lemma register_pending_Ok:
  "register_pending env h p orig d = (Ok i, d') \<Longrightarrow>
     \<exists>q. bt_get (dm_pending d') i = Some q \<and> ppi_device_id (pr_info q) = tp_device_id (pp_peer p)"
  by (auto simp: register_pending_def Let_def st_bind_def else_close_def allocate_pairing_id_def emit_def split: option.splits if_splits)

lemma replies_register_session: "register_session env h c Outbound d = (r, d') \<Longrightarrow> dm_replies d' = dm_replies d"
  by (auto simp: register_session_def Let_def st_bind_def else_close_def allocate_session_id_def open_session_def
      split: option.splits if_splits prod.splits bool.splits)

lemma canonical_session_get:
  assumes "registry_inv d" and "canonical_session d k = Some i"
  shows "\<exists>s. bt_get (dm_sessions d) i = Some s \<and> session_peer s = k"
proof -
  have "bt_wf (dm_sessions d)" using assms(1) by (simp add: registry_inv_def sessions_ok_def)
  with assms(2) find_entry [of "dm_sessions d"] show ?thesis by (fastforce simp: canonical_session_def session_peer_def)
qed

lemma register_session_Ok:
  assumes inv: "registry_inv d" and run: "register_session env h c orig d = (Ok i, d')"
  shows "\<exists>s. bt_get (dm_sessions d') i = Some s \<and> session_peer s = tp_device_id (ac_peer c)"
proof -
  let ?k = "tp_device_id (ac_peer c)"
  have same: "existing_session (d\<lparr>dm_connectivity := sc\<rparr>) ?k = existing_session d ?k" for sc
    by (simp add: existing_session_def is_closed_def)
  have opened: "\<exists>s. bt_get (dm_sessions (open_session env h c orig j b)) j = Some s \<and> session_peer s = ?k" for j b
    by (simp add: open_session_effect(1) session_peer_def)
  have kept: "\<exists>s. bt_get (dm_sessions d) j = Some s \<and> session_peer s = ?k" if "existing_session d ?k = Some (j, x, y)" for j x y
    by (rule existing_session_Some [OF inv that]) blast
  have "dm_sessions (close_conn x y) = dm_sessions y" for x y by (simp add: close_conn_def)
  with run kept canonical_session_get [OF inv, of ?k] show ?thesis
    unfolding register_session_def Let_def same
    by (auto simp: opened st_bind_def else_close_def allocate_session_id_def ok_or_Ok_iff
        split: option.splits if_splits prod.splits bool.splits)
qed

lemma send_all_replies:
  assumes "\<And>t d. outbound_send r t d = send_oneshot (fst (f t)) (snd (f t)) d"
  shows "dm_replies (send_all r ts d) = dm_replies d @ map f ts"
  by (induction ts arbitrary: d) (simp_all add: send_all_def assms send_oneshot_def)

lemma dial_replies:
  "dm_replies (send_all (Err e) ts d) = dm_replies d @ map (refusal e) ts"
  "dm_replies (send_all (Ok (Dial_Pairing i)) ts d) = dm_replies d @ map (pairing_reply i) ts"
  "dm_replies (send_all (Ok (Dial_Session k i)) ts d) = dm_replies d @ map (session_reply k i) ts"
  by (rule send_all_replies; case_tac t; simp add: outbound_send_def)+

lemma fail_fields [simp]:
  "dm_sessions (connectivity_failed env k f d) = dm_sessions d" "dm_pending (connectivity_failed env k f d) = dm_pending d"
  "dm_closed (connectivity_failed env k f d) = dm_closed d"
  by (simp_all add: connectivity_failed_def emit_connectivity_def emit_def adjust_peer_def Let_def split: option.split)

lemma canonical_failed: "canonical_session (connectivity_failed env k f d) = canonical_session d"
  by (rule ext) (simp add: canonical_session_def is_closed_def)

text \<open>The result that a dial's own task leads to, and the replies.\<close>

lemma finish_outbound_answers:
  assumes inv: "registry_inv d" and peer: "\<And>candidate. result = Ok candidate \<Longrightarrow> candidate_device candidate = k"
    and run: "finish_outbound env k q result d = c"
  shows "(\<exists>e. dial_fails env (or_pairing q) result d e \<and> (or_pairing q \<or> canonical_session c k = None) \<and>
       dm_replies c = dm_replies d @ map (refusal e) (or_replies q)) \<or>
    (or_pairing q \<and> (\<exists>i p. bt_get (dm_pending c) i = Some p \<and> ppi_device_id (pr_info p) = k \<and>
       dm_replies c = dm_replies d @ map (pairing_reply i) (or_replies q))) \<or>
    (\<not> or_pairing q \<and> (\<exists>i s. bt_get (dm_sessions c) i = Some s \<and> session_peer s = k \<and>
       dm_replies c = dm_replies d @ map (session_reply k i) (or_replies q)))"
proof -
  obtain r d1 where step: "register_dialed env k q result d = (r, d1)" by fastforce
  have d1: "dm_replies d1 = dm_replies d"
    using step by (auto simp: register_dialed_def reply_def dest: replies_register_pending replies_register_session
        split: register_dialed_splits)
  have fails: "dial_fails env (or_pairing q) result d e" if "r = Err e" for e
    using step that by (auto simp: register_dialed_def dial_fails_def reply_def split: register_dialed_splits)
  have pairing: "\<exists>i p. r = Ok (Dial_Pairing i) \<and> bt_get (dm_pending d1) i = Some p \<and> ppi_device_id (pr_info p) = k"
    if "r = Ok v" "or_pairing q" for v
    using step that peer by (auto simp: register_dialed_def reply_def candidate_device_def dest!: register_pending_Ok
        split: register_dialed_splits)
  have session: "\<exists>i s. r = Ok (Dial_Session k i) \<and> bt_get (dm_sessions d1) i = Some s \<and> session_peer s = k"
    if "r = Ok v" "\<not> or_pairing q" for v
    using step that peer by (auto simp: register_dialed_def reply_def candidate_device_def dest!: register_session_Ok [OF inv]
        split: register_dialed_splits)
  define d2 where "d2 = (case r of
      Err e \<Rightarrow>
        if \<not> or_pairing q \<and> canonical_session d1 k = None
        then connectivity_failed env k (failure_category (er_code e)) d1 else d1
    | Ok _ \<Rightarrow> d1)"
  have d2: "dm_replies d2 = dm_replies d" "dm_sessions d2 = dm_sessions d1" "dm_pending d2 = dm_pending d1"
    using d1 by (simp_all add: d2_def split: sum.split)
  have "registry_inv d1" using keeps_register_dialed [OF step] inv by (simp add: keeps_def)
  then have canonical: "\<exists>s. bt_get (dm_sessions d1) i = Some s \<and> session_peer s = k" if "canonical_session d2 k = Some i" for i
    using that canonical_session_get [of d1 k i] by (auto simp: d2_def canonical_failed split: sum.splits if_splits)
  define r2 where "r2 = (if \<not> or_pairing q
                then (case canonical_session d2 k of None \<Rightarrow> r | Some i \<Rightarrow> Ok (Dial_Session k i)) else r)"
  have c: "c = send_all r2 (or_replies q) d2"
    using run unfolding finish_outbound_def step d2_def [symmetric] r2_def [symmetric] prod.case Let_def by simp
  show ?thesis
  proof (cases r2)
    case (Inl e)
    then have "r = Err e" "or_pairing q \<or> canonical_session d2 k = None" by (auto simp: r2_def split: if_splits option.splits)
    moreover have "canonical_session c = canonical_session d2"
      by (rule ext) (simp add: c canonical_session_def is_closed_def)
    ultimately show ?thesis using c d2(1) Inl fails by (auto simp: dial_replies)
  next
    case (Inr v)
    show ?thesis
    proof (cases "or_pairing q")
      case True
      with Inr obtain i p where "r2 = Ok (Dial_Pairing i)" "bt_get (dm_pending d1) i = Some p" "ppi_device_id (pr_info p) = k"
        using pairing by (auto simp: r2_def)
      with True c d2 show ?thesis by (auto simp: dial_replies)
    next
      case False
      with Inr obtain i s where "r2 = Ok (Dial_Session k i)" "bt_get (dm_sessions d1) i = Some s" "session_peer s = k"
        using session canonical by (auto simp: r2_def split: option.splits)
      with False c d2 show ?thesis by (auto simp: dial_replies)
    qed
  qed
qed

lemma finish_outbound_outbound: "dm_outbound (finish_outbound env k q result d) = dm_outbound d"
proof -
  have open_outbound: "dm_outbound (open_session env h c Outbound i d) = dm_outbound d" for h c i d
    by (simp add: open_session_def Let_def emit_def)
  have retire_outbound: "dm_outbound (retire_session env k' i closed d) = dm_outbound d" for k' i closed d
    by (simp add: retire_session_def Let_def emit_def close_conn_def split: option.split)
  have session: "register_session env h c Outbound d = (r, d') \<Longrightarrow> dm_outbound d' = dm_outbound d" for h c r d'
    by (auto simp: register_session_def Let_def st_bind_def else_close_def allocate_session_id_def open_outbound retire_outbound close_conn_def
        split: option.splits if_splits prod.splits bool.splits)
  have drop: "dm_outbound (drop_candidate x d) = dm_outbound d" for x using same_drop [of x d] by (simp add: same_registries_def del: same_drop)
  have pending: "register_pending env h p Outbound d = (r, d') \<Longrightarrow> dm_outbound d' = dm_outbound d" for h p r d'
    by (auto simp: register_pending_def Let_def st_bind_def else_close_def allocate_pairing_id_def emit_def close_conn_def drop
        split: option.splits if_splits)
  obtain r d1 where run: "register_dialed env k q result d = (r, d1)" by fastforce
  then have "dm_outbound d1 = dm_outbound d"
    by (auto simp: register_dialed_def reply_def drop dest: session pending split: register_dialed_splits)
  moreover have "dm_outbound (connectivity_failed env k f d1) = dm_outbound d1" for f
    by (simp add: connectivity_failed_def split: option.split)
  ultimately show ?thesis by (simp add: finish_outbound_def run Let_def split: sum.split)
qed

text \<open>
  What an inbound session does to a pairing dial with the same peer: the event loop answers its waiters with the
  session, which a caller that asked for a pairing cannot receive. It is told that an invariant failed.
\<close>

lemma inbound_session_fails_pairing_dial:
  assumes "bt_get (dm_outbound d) k = Some q" and "Reply_Pairing ch \<in> set (or_replies q)"
    and "tp_device_id (ac_peer c) = k" and "k < dm_device_id d"
  shows "(ch, Rv_Pairing (Err (Handle_Operation (operation_error Code_Internal ''pairing result invariant failed'')))) \<in>
    set (dm_replies (open_session env h c Inbound i d))"
proof -
  have same: "dm_outbound (emit_connectivity now j (adjust_peer j f x)) = dm_outbound x" for now j f x by simp
  have id: "dm_device_id (emit_connectivity now j x) = dm_device_id x" for now j x
    using same_emit_connectivity [of now j x] by (simp add: same_registries_def)
  show ?thesis
    using assms by (force simp: open_session_def Let_def cancel_outbound_def id dial_replies)
qed

section \<open>Properties\<close>

text \<open>
  C1: in every state the event loop can reach, however connections close, tasks end, clients ask and pairings
  commit, each session belongs to a peer that the trust store trusts at that moment, no peer has two sessions, and
  the registries, the owned tasks and the local clients stay within the configured and fixed bounds.
\<close>

theorem daemon_reachable_safe:
  assumes "reachable loop_initial (loop_step ps) d"
  shows "(\<forall>i r. bt_get (dm_sessions d) i = Some r \<longrightarrow>
      trust_state_of (dm_trust d) (si_device_id (sr_info r)) = Some TrustState_Trusted \<and>
      (\<forall>j q. bt_get (dm_sessions d) j = Some q \<and> si_device_id (sr_info q) = si_device_id (sr_info r) \<longrightarrow> j = i)) \<and>
    length (dm_sessions d) \<le> dc_max_active_sessions (dm_config d) \<and>
    length (dm_pending d) \<le> dc_max_pending_pairings (dm_config d) \<and>
    length (dm_outbound d) \<le> dc_max_outbound_connects (dm_config d) \<and>
    length (sc_peers (dm_connectivity d)) \<le> 4096 \<and> dm_ipc_clients d \<le> dc_max_ipc_clients (dm_config d) \<and> dm_tasks d \<le> 1024"
proof -
  have inv: "registry_inv d" and rest: "dm_tasks d \<le> HARD_MAX_OWNED_TASKS" "dm_ipc_clients d \<le> dc_max_ipc_clients (dm_config d)"
    using daemon_machine.reachable_inv [OF assms] by (simp_all add: daemon_inv_def)
  have "trust_state_of (dm_trust d) (si_device_id (sr_info r)) = Some TrustState_Trusted" if "bt_get (dm_sessions d) i = Some r" for i r
  proof -
    have "peer_session (view d) (session_peer r) = Some i" using inv_session [OF inv that] by blast
    then have "view d (session_peer r) \<noteq> None" by (auto simp: peer_session_def split: option.splits)
    then show ?thesis using inv by (auto simp: registry_inv_def peers_ok_def trusted_def session_peer_def)
  qed
  moreover have "j = i" if "bt_get (dm_sessions d) i = Some r" "bt_get (dm_sessions d) j = Some q"
    "si_device_id (sr_info q) = si_device_id (sr_info r)" for i j q r
    using inv_session [OF inv that(1)] inv_session [OF inv that(2)] that(3) by (simp add: session_peer_def)
  ultimately show ?thesis
    using inv rest
    by (simp add: registry_inv_def sessions_ok_def pending_ok_def outbound_ok_def peers_ok_def MAX_MANAGED_PEERS_def
        HARD_MAX_OWNED_TASKS_def)
qed

theorem daemon_reachable_safe_witness:
  "length (dm_sessions example_live) = 1 \<and> trust_state_of (dm_trust example_live) example_id = Some TrustState_Trusted"
proof -
  have "bt_get (dm_sessions example_live) 1 = Some \<lparr>sr_origin = Inbound, sr_info = \<lparr>si_session_id = 1,
      si_device_id = example_id, si_device_name = ''bob'', si_platform = ''linux''\<rparr>, sr_closer = 7\<rparr>"
    by (simp add: example_live_sessions bt_get_def)
  then show ?thesis using daemon_reachable_safe [OF example_reachable] by (force simp: example_live_sessions)
qed

text \<open>
  C3: a successful revocation or forgetting severs the peer at once. Afterwards the store does not trust it,
  it has no session, no pending pairing and no place in the reconnect schedule, its dial is cancelled with nobody
  waiting on it, the connections of its former sessions and pairings are closed, and the sessions of all other peers
  are as before.
\<close>

theorem withdrawal_severs_peer:
  assumes "reachable loop_initial (loop_step ps) d"
    and "request = Req_RevokePeer k \<or> request = Req_ForgetPeer k"
    and "execute_request ps env request d = (Ok res, c)"
  shows "trust_state_of (dm_trust c) k \<noteq> Some TrustState_Trusted \<and>
    (\<forall>i r. bt_get (dm_sessions c) i = Some r \<longleftrightarrow> bt_get (dm_sessions d) i = Some r \<and> si_device_id (sr_info r) \<noteq> k) \<and>
    (\<forall>i q. bt_get (dm_pending c) i = Some q \<longleftrightarrow> bt_get (dm_pending d) i = Some q \<and> ppi_device_id (pr_info q) \<noteq> k) \<and>
    managed c k = None \<and> (\<forall>q. bt_get (dm_outbound c) k = Some q \<longrightarrow> or_cancelled q \<and> or_replies q = []) \<and>
    (\<forall>i r. bt_get (dm_sessions d) i = Some r \<and> si_device_id (sr_info r) = k \<longrightarrow> is_closed c (sr_closer r)) \<and>
    (\<forall>i q. bt_get (dm_pending d) i = Some q \<and> ppi_device_id (pr_info q) = k \<longrightarrow> is_closed c (pr_closer q))"
proof -
  have "registry_inv d" using daemon_machine.reachable_inv [OF assms(1)] by (simp add: daemon_inv_def)
  then have wf: "bt_wf (dm_sessions d)" "bt_wf (dm_pending d)" by (simp_all add: registry_inv_def sessions_ok_def pending_ok_def)
  obtain m t reason e where m: "m = Revoke k \<or> m = Forget k"
    and run: "commit (dp_blake3 ps) (dp_codec ps) (de_persist env) m None (dm_trust d) = (Ok (), t)"
    and c: "c = emit e (invalidate_peer env k reason (d\<lparr>dm_trust := t\<rparr>))"
    using withdrawal_Ok [OF assms(2,3)] by blast
  define b where "b = invalidate_peer env k reason (d\<lparr>dm_trust := t\<rparr>)"
  have "bt_wf (dm_sessions (d\<lparr>dm_trust := t\<rparr>))" "bt_wf (dm_pending (d\<lparr>dm_trust := t\<rparr>))" using wf by simp_all
  note f = invalidate_peer_fields [OF this b_def]
  have "same_registries c ((unmanage k (d\<lparr>dm_trust := t\<rparr>))\<lparr>dm_outbound := bt_adjust k cancelled_record (dm_outbound d),
      dm_pending := filter (\<lambda>(_, r). ppi_device_id (pr_info r) \<noteq> k) (dm_pending d),
      dm_sessions := filter (\<lambda>(_, r). session_peer r \<noteq> k) (dm_sessions d)\<rparr>)"
    using same_registries_trans [OF same_emit f(1)] by (simp add: c b_def)
  then have s: "dm_sessions c = filter (\<lambda>(_, r). session_peer r \<noteq> k) (dm_sessions d)"
    "dm_pending c = filter (\<lambda>(_, r). ppi_device_id (pr_info r) \<noteq> k) (dm_pending d)"
    "dm_outbound c = bt_adjust k cancelled_record (dm_outbound d)" "view c k = None" "dm_trust c = t"
    by (simp_all add: same_registries_def)
  have "\<not> trusted t k" using commit_trusted(4) [OF run refl m] .
  moreover have "managed c k = None" using s(4) by (simp add: view_def)
  moreover have "set (dm_closed c) = set (dm_closed b)" by (simp add: c b_def)
  ultimately show ?thesis
    using s(1-3,5) f(3,4) wf by (auto simp: trusted_def bt_get_filter session_peer_def cancelled_record_def is_closed_def)
qed

theorem withdrawal_severs_peer_witness:
  "let (r, c) = execute_request example_params example_denv (Req_RevokePeer example_id) example_live in
   r = Ok (Res_PeerRevoked example_id) \<and> length (dm_sessions example_live) = 1 \<and> bt_get (dm_sessions c) 1 = None \<and> is_closed c 7"
proof -
  let ?run = "execute_request example_params example_denv (Req_RevokePeer example_id) example_live"
  have g: "commit_guard trusted_store (Revoke example_id) None ([0, 0, 0, 1, 1] @ replicate 32 0) = Ok 84"
    by (simp add: commit_guard_Ok trusted_store_def empty_store_def from_parts_def MAX_RECORDS_def MAX_STORE_SIZE_def bt_get_def)
  have "dm_trust example_live = trusted_store" by (rule example_live_fields)
  then have "\<exists>c. ?run = (Ok (Res_PeerRevoked example_id), c)"
    using g by (simp add: execute_request_def revoke_peer_def revoke_def example_params_def example_denv_def
        commit_quiet [OF example_prepare(2)])
  then obtain c where run: "?run = (Ok (Res_PeerRevoked example_id), c)" by blast
  have s: "bt_get (dm_sessions example_live) 1 = Some \<lparr>sr_origin = Inbound, sr_info = \<lparr>si_session_id = 1,
      si_device_id = example_id, si_device_name = ''bob'', si_platform = ''linux''\<rparr>, sr_closer = 7\<rparr>"
    by (simp add: example_live_sessions bt_get_def)
  note w = withdrawal_severs_peer [OF example_reachable disjI1 [OF refl] run]
  have "bt_get (dm_sessions c) 1 = None" using w s by (cases "bt_get (dm_sessions c) 1") auto
  moreover have "is_closed c 7" using w s by fastforce
  ultimately show ?thesis using run by (simp add: example_live_sessions)
qed

text \<open>
  C19: when two devices dial each other at once, both keep the same connection. Let a peer already have an open
  session and a second connection of the other direction arrive; then the session that remains is the one dialled by the
  device with the smaller identity, whichever came first, its connection stays open and the other one is closed.
\<close>

theorem simultaneous_dials_converge:
  assumes "reachable loop_initial (loop_step ps) d"
    and "bt_get (dm_sessions d) i = Some r" and "\<not> is_closed d (sr_closer r)"
    and "tp_device_id (ac_peer c) = si_device_id (sr_info r)"
    and "current_generation (dm_trust d) (si_device_id (sr_info r)) = ac_trust_generation c"
    and "\<not> is_closed d h" and "h \<noteq> sr_closer r" and "orig \<noteq> sr_origin r"
    and "dm_tasks d < 1023" and "unat (dm_next_session_id d) < 2 ^ 64 - 1"
    and "preferred = (if dm_device_id d < si_device_id (sr_info r) then Outbound else Inbound)"
    and "register_session env h c orig d = (res, d')"
  shows "\<exists>j s. res = Ok j \<and> bt_get (dm_sessions d') j = Some s \<and> si_device_id (sr_info s) = si_device_id (sr_info r) \<and>
    sr_origin s = preferred \<and> sr_closer s = (if orig = preferred then h else sr_closer r) \<and>
    \<not> is_closed d' (sr_closer s) \<and> is_closed d' (if orig = preferred then sr_closer r else h)"
proof -
  have inv: "registry_inv d" using daemon_machine.reachable_inv [OF assms(1)] by (simp add: daemon_inv_def)
  have tasks: "dm_tasks d < HARD_MAX_OWNED_TASKS - 1" using assms(9) by (simp add: HARD_MAX_OWNED_TASKS_def)
  obtain n where n: "checked_add (dm_next_session_id d) 1 = Some n"
    using assms(10) by (simp add: checked_add_def)
  have reg: "register_session env h c orig d =
    (if replaces orig (sr_origin r) (dm_device_id d) (si_device_id (sr_info r))
     then (Ok (dm_next_session_id d), open_session env h c orig (dm_next_session_id d)
            (retire_session env (si_device_id (sr_info r)) i False (d\<lparr>dm_next_session_id := n\<rparr>)))
     else (Ok i, close_conn h d))"
    by (rule register_second [OF inv assms(2) _ assms(3-6) tasks n]) (simp add: session_peer_def)
  have rep: "replaces orig (sr_origin r) (dm_device_id d) (si_device_id (sr_info r)) = (orig = preferred)"
    using assms(8,11) by (auto simp: replaces_def Let_def)
  have two: "sr_origin r = preferred" if "orig \<noteq> preferred"
    using that assms(8) by (cases orig; cases "sr_origin r"; cases preferred) simp_all
  show ?thesis
  proof (cases "orig = preferred")
    case True
    then show ?thesis using reg rep assms(2,4,6,7,12)
      by (auto simp: open_session_effect retire_session_closed is_closed_def)
  next
    case False
    then show ?thesis using reg rep assms(2,3,7,12) two [OF False] by (auto simp: is_closed_def)
  qed
qed

theorem simultaneous_dials_converge_witness:
  "let d' = snd (register_session example_denv 8 example_authorized Outbound example_live) in
   \<exists>j s. bt_get (dm_sessions d') j = Some s \<and> sr_origin s = Outbound \<and> sr_closer s = 8 \<and> is_closed d' 7 \<and> \<not> is_closed d' 8"
proof -
  let ?r = "\<lparr>sr_origin = Inbound, sr_info = \<lparr>si_session_id = 1, si_device_id = example_id, si_device_name = ''bob'',
     si_platform = ''linux''\<rparr>, sr_closer = 7\<rparr>"
  have s: "bt_get (dm_sessions example_live) 1 = Some ?r" by (simp add: example_live_sessions bt_get_def)
  obtain res d' where run: "register_session example_denv 8 example_authorized Outbound example_live = (res, d')" by fastforce
  have lt: "alice_id < example_id" by code_simp
  have "\<exists>j s. res = Ok j \<and> bt_get (dm_sessions d') j = Some s \<and> si_device_id (sr_info s) = si_device_id (sr_info ?r) \<and>
    sr_origin s = Outbound \<and> sr_closer s = (if Outbound = Outbound then 8 else sr_closer ?r) \<and>
    \<not> is_closed d' (sr_closer s) \<and> is_closed d' (if Outbound = Outbound then sr_closer ?r else 8)"
    by (rule simultaneous_dials_converge [OF example_reachable s _ _ _ _ _ _ _ _ _ run])
      (use lt in \<open>simp_all add: example_live_fields example_authorized_def example_peer_def is_closed_def
        current_generation_def trusted_store_def empty_store_def from_parts_def\<close>)
  then obtain j s where "bt_get (dm_sessions d') j = Some s" "sr_origin s = Outbound" "sr_closer s = 8" "is_closed d' 7" "\<not> is_closed d' 8"
    by auto
  then show ?thesis using run by (auto intro!: exI [of _ j] exI [of _ s])
qed

text \<open>
  C32: starting terminates and loads exactly the trusted peers. With one more page than the store has decisions the
  paged loop always ends; if at most 4096 peers other than the device itself are trusted, each of them and nobody else is
  scheduled to be dialled at once, and otherwise starting is refused.
\<close>

theorem startup_loads_trusted:
  assumes "decisions_wf (ts_decisions s)"
  shows "\<exists>r. load_peers (length (ts_decisions s) + 1) s now self None (scheduler_new now) = Some r \<and>
    (is_ok r \<longleftrightarrow> card {k. trust_state_of s k = Some TrustState_Trusted \<and> k \<noteq> self} \<le> 4096) \<and>
    (\<forall>sc k. r = Ok sc \<longrightarrow> bt_get (sc_peers sc) k =
      (if trust_state_of s k = Some TrustState_Trusted \<and> k \<noteq> self then Some (peer_new now) else None))"
proof -
  let ?ids = "loadable self (list_entries s)"
  note l = loadable_trusted [OF assms, of self]
  have "length ?ids = card {k. trusted s k \<and> k \<noteq> self}" using distinct_card [OF l(1)] l(2) by simp
  then show ?thesis
    using load_peers_result [OF assms refl, of now self] l(2)
    by (auto simp: trusted_def get_loaded scheduler_new_def MAX_MANAGED_PEERS_def)
qed

theorem startup_loads_trusted_witness:
  "\<exists>sc. load_peers 2 trusted_store 3 alice_id None (scheduler_new 3) = Some (Ok sc) \<and>
     bt_get (sc_peers sc) example_id = Some (peer_new 3)"
proof -
  have wf: "decisions_wf (ts_decisions trusted_store)"
    using reachable_trust_inv [OF reachable_trusted zero_digest_ok example_ok] by (simp add: trust_inv_def)
  have t: "trust_state_of trusted_store k = Some TrustState_Trusted \<longleftrightarrow> k = example_id" for k
    by (simp add: trust_state_of_def entry_def trusted_store_def bt_get_def)
  have ne: "example_id \<noteq> alice_id" by (simp add: example_id_def alice_id_def)
  have l: "length (ts_decisions trusted_store) + 1 = 2" by (simp add: trusted_store_def)
  have eq: "{k. k = example_id \<and> k \<noteq> alice_id} = {example_id}" using ne by auto
  obtain r where r: "load_peers 2 trusted_store 3 alice_id None (scheduler_new 3) = Some r" "is_ok r"
      "\<forall>sc k. r = Ok sc \<longrightarrow> bt_get (sc_peers sc) k = (if k = example_id \<and> k \<noteq> alice_id then Some (peer_new 3) else None)"
    using startup_loads_trusted [OF wf, of 3 alice_id] unfolding l t eq by auto
  then show ?thesis using ne by (cases r) auto
qed

text \<open>
  C33: the waiters of a dial learn what became of it. When the task of a dial that was not cancelled reports, in any
  reachable state, the dial is over, and each of its waiters is answered once, in order and in the form it asked for. If the dial was for
  pairing, all are sent the number of a pairing with that peer that is now pending; if it was for a session, the number of a
  session with that peer that is now registered. They are refused, all with the same error, only when the task failed
  or what it brought could not be registered, and for a session only when no open session with the peer is left. Since the waiters fit the
  purpose of the dial, no answer here is one that reports a broken invariant.
\<close>

theorem dial_waiters_answered:
  assumes "reachable loop_initial (loop_step ps) d" and "bt_get (dm_outbound d) k = Some q" and "\<not> or_cancelled q"
    and "\<forall>candidate. result = Ok candidate \<longrightarrow> candidate_device candidate = k"
    and "join_task env (Task_Outbound k (or_token q) result) d = c"
  shows "bt_get (dm_outbound c) k = None \<and> (\<forall>t \<in> set (or_replies q). fits (or_pairing q) t) \<and>
    ((\<exists>e. dial_fails env (or_pairing q) result (d\<lparr>dm_tasks := dm_tasks d - 1, dm_outbound := bt_remove k (dm_outbound d)\<rparr>) e \<and>
        (or_pairing q \<or> canonical_session c k = None) \<and> dm_replies c = dm_replies d @ map (refusal e) (or_replies q)) \<or>
     (or_pairing q \<and> (\<exists>i p. bt_get (dm_pending c) i = Some p \<and> ppi_device_id (pr_info p) = k \<and>
        dm_replies c = dm_replies d @ map (pairing_reply i) (or_replies q))) \<or>
     (\<not> or_pairing q \<and> (\<exists>i s. bt_get (dm_sessions c) i = Some s \<and> session_peer s = k \<and>
        dm_replies c = dm_replies d @ map (session_reply k i) (or_replies q))))"
proof -
  let ?d = "d\<lparr>dm_tasks := dm_tasks d - 1, dm_outbound := bt_remove k (dm_outbound d)\<rparr>"
  have inv: "registry_inv d" using daemon_machine.reachable_inv [OF assms(1)] by (simp add: daemon_inv_def)
  then have inv': "registry_inv ?d" using inv_remove_outbound [of "d\<lparr>dm_tasks := dm_tasks d - 1\<rparr>" k] by simp
  have c: "finish_outbound env k q result ?d = c"
    using assms(2,3,5) by (simp add: join_task_def handle_task_output_def Let_def)
  from finish_outbound_answers [OF inv' _ c] assms(4) have "?thesis \<or> bt_get (dm_outbound c) k \<noteq> None"
    using inv_outbound [OF inv assms(2)] by (auto simp: list_all_iff)
  moreover have "bt_get (dm_outbound c) k = None" using finish_outbound_outbound [of env k q result ?d] c by simp
  ultimately show ?thesis by blast
qed

theorem dial_waiters_answered_witness:
  "\<exists>q c. bt_get (dm_outbound example_dialing) bob_id = Some q \<and> or_replies q = [Reply_Pairing 4] \<and>
     c = join_task example_denv (Task_Outbound bob_id (or_token q) (Ok (Cand_Pending 9 example_pending))) example_dialing \<and>
     bt_get (dm_outbound c) bob_id = None \<and>
     (\<exists>i p. bt_get (dm_pending c) i = Some p \<and> dm_replies c = dm_replies example_dialing @ [(4, Rv_Pairing (Ok i))])"
proof -
  obtain q where q: "bt_get (dm_outbound example_dialing) bob_id = Some q" "or_pairing q" "or_replies q = [Reply_Pairing 4]"
    "\<not> or_cancelled q"
    using example_dialing_outbound by blast
  have peer: "\<forall>candidate. Ok (Cand_Pending 9 example_pending) = Ok candidate \<longrightarrow> candidate_device candidate = bob_id"
    by (simp add: candidate_device_def example_pending_def pending_new_def bob_peer_def trusted_peer_from_hello_def example_hello_def)
  let ?c = "join_task example_denv (Task_Outbound bob_id (or_token q) (Ok (Cand_Pending 9 example_pending))) example_dialing"
  have "\<not> dial_fails example_denv True (Ok (Cand_Pending 9 example_pending))
      (example_dialing\<lparr>dm_tasks := dm_tasks example_dialing - 1, dm_outbound := bt_remove bob_id (dm_outbound example_dialing)\<rparr>) e" for e
    using example_dialing_outbound(2) by (simp add: dial_fails_def register_pending_def Let_def example_pending_def pending_new_def bob_peer_def trusted_peer_from_hello_def example_hello_def
      trust_state_of_def entry_def trusted_store_def empty_store_def from_parts_def bt_get_def bob_id_def example_id_def current_generation_def
      example_config_def HARD_MAX_OWNED_TASKS_def st_bind_def else_close_def allocate_pairing_id_def checked_add_def)
  with dial_waiters_answered [OF example_dialing_reachable q(1,4) peer refl, of example_denv] q(2,3)
  have "bt_get (dm_outbound ?c) bob_id = None"
    "\<exists>i p. bt_get (dm_pending ?c) i = Some p \<and> dm_replies ?c = dm_replies example_dialing @ [(4, Rv_Pairing (Ok i))]"
    by auto
  with q(1,3) show ?thesis by blast
qed

text \<open>
  Forgetting a peer fences every connection prepared before it. If a connection was admitted or a pairing prepared under
  the generation of a peer and the peer was forgotten since, the runtime refuses to register it, whatever else
  happened to the store in between, even if the peer is trusted again.
\<close>

theorem stale_candidate_refused:
  assumes "run_ops (trust_exec blake3 pc) ops s = (rs, dm_trust d)" and "(Op_Forget penv k, Ok ()) \<in> set (zip ops rs)"
    and "unat (current_generation s k) < 2 ^ 64 - 1"
    and "tp_device_id (ac_peer c) = k" and "ac_trust_generation c = current_generation s k"
    and "tp_device_id (pp_peer p) = k" and "pp_trust_generation p = current_generation s k"
  shows "(\<exists>e. register_session env h c orig d = (Err e, close_conn h d)) \<and>
    (\<exists>e. register_pending env h p orig d = (Err e, drop_candidate (Cand_Pending h p) d))"
proof -
  have "current_generation (dm_trust d) k \<noteq> current_generation s k"
    by (rule trust_fence.run_fence [OF assms(1,2) _ assms(3)]) simp
  then show ?thesis using assms(4-7) by (simp add: register_session_def register_pending_def Let_def)
qed

theorem stale_candidate_refused_witness:
  "\<exists>store. run_ops (trust_exec zero_digest example_codec) [Op_Forget quiet_env example_id] trusted_store = ([Ok ()], store) \<and>
     (\<exists>e. register_session example_denv 9 example_authorized Inbound (example_live\<lparr>dm_trust := store\<rparr>) =
        (Err e, close_conn 9 (example_live\<lparr>dm_trust := store\<rparr>)))"
proof -
  let ?run = "run_ops (trust_exec zero_digest example_codec) [Op_Forget quiet_env example_id] trusted_store"
  have g: "current_generation trusted_store example_id = 0"
    by (simp add: current_generation_def trusted_store_def empty_store_def from_parts_def)
  have "commit_guard trusted_store (Forget example_id) None ([0, 0, 0, 1, 2] @ replicate 32 0) = Ok 84"
    by (simp add: commit_guard_Ok trusted_store_def empty_store_def from_parts_def MAX_RECORDS_def MAX_STORE_SIZE_def)
  then obtain t where run: "?run = ([Ok ()], t)"
    by (simp add: forget_def commit_quiet [OF example_prepare(3)])
  let ?p = "example_pending\<lparr>pp_peer := example_peer, pp_trust_generation := 0\<rparr>"
  have "(\<exists>e. register_session example_denv 9 example_authorized Inbound (example_live\<lparr>dm_trust := t\<rparr>) =
        (Err e, close_conn 9 (example_live\<lparr>dm_trust := t\<rparr>))) \<and>
      (\<exists>e. register_pending example_denv 9 ?p Inbound (example_live\<lparr>dm_trust := t\<rparr>) =
        (Err e, drop_candidate (Cand_Pending 9 ?p) (example_live\<lparr>dm_trust := t\<rparr>)))"
    by (rule stale_candidate_refused [where s = trusted_store and ops = "[Op_Forget quiet_env example_id]" and rs = "[Ok ()]"
          and k = example_id])
      (use run g in \<open>simp_all add: example_authorized_def example_peer_def\<close>)
  with run show ?thesis by blast
qed

text \<open>
  A client that lists the connectivity of peers page by page, with any limit, and follows the cursors sees every
  managed peer exactly once in identity order.
\<close>

theorem connectivity_pages_complete:
  assumes "reachable loop_initial (loop_step ps) d" and "limit \<noteq> 0" and "length (sc_peers (dm_connectivity d)) < fuel"
  shows "collect_pages fuel (connectivity_page_of now (dm_connectivity d) (page_limit limit)) None =
      Some (map (\<lambda>(i, p). peer_info_at i now p) (sc_peers (dm_connectivity d))) \<and>
    sorted_wrt (<) (map fst (sc_peers (dm_connectivity d))) \<and>
    (\<forall>after. list_connectivity now after limit d = Ok (Res_PeerConnectivity
       \<lparr>cpg_entries = fst (connectivity_page_of now (dm_connectivity d) (page_limit limit) after),
        cpg_next_cursor = snd (connectivity_page_of now (dm_connectivity d) (page_limit limit) after)\<rparr>))"
proof -
  have wf: "bt_wf (sc_peers (dm_connectivity d))"
    using daemon_machine.reachable_inv [OF assms(1)] by (simp add: daemon_inv_def registry_inv_def peers_ok_def)
  have "0 < page_limit limit"
    using assms(2) by (simp add: page_limit_def min_def MAX_PEER_PAGE_SIZE_def unat_gt_0)
  from connectivity_listing.collect_all [OF wf this, of now fuel] wf assms(2,3) show ?thesis
    by (simp add: connectivity_entries_def list_connectivity_def case_prod_unfold bt_wf_def bt_keys_def)
qed

theorem connectivity_pages_complete_witness:
  "length (sc_peers (dm_connectivity example_daemon)) = 1 \<and>
   collect_pages 2 (connectivity_page_of 3 (dm_connectivity example_daemon) (page_limit 1)) None =
     Some [peer_info_at example_id 3 (peer_new 0)]"
proof -
  have r: "reachable loop_initial (loop_step example_params) example_daemon" by (rule reach_init, rule example_initial)
  show ?thesis
    using connectivity_pages_complete [OF r, of 1 2 3] by (simp add: example_daemon_def daemon_ready_def)
qed

text \<open>
  C20: shutting down lets go of everything, on every way the tasks may end. No session, pending pairing or scheduled peer
  is left, their connections are closed, the command queue and the endpoint are closed, every dial is cancelled and each of
  its waiters is told that the daemon is shutting down; and success is reported only if every owned task was joined
  and all three cleanups succeeded.
\<close>

theorem shutdown_releases_everything:
  assumes "shutdown_runtime delivered descriptor joined cleanup lock d = (r, c)"
  shows "dm_sessions c = [] \<and> dm_pending c = [] \<and> sc_peers (dm_connectivity c) = [] \<and>
    \<not> dm_commands_open c \<and> \<not> dm_endpoint_open c \<and>
    (\<forall>(i, q) \<in> set (dm_sessions d). is_closed c (sr_closer q)) \<and> (\<forall>(i, q) \<in> set (dm_pending d). is_closed c (pr_closer q)) \<and>
    (\<forall>(k, q) \<in> set (dm_outbound c). or_cancelled q \<and> or_replies q = []) \<and>
    (\<forall>(k, q) \<in> set (dm_outbound d). \<forall>t \<in> set (or_replies q).
       refusal (operation_error Code_ShuttingDown ''daemon is shutting down'') t \<in> set (dm_replies c)) \<and>
    (r = Ok () \<longleftrightarrow> descriptor = Ok () \<and> joined = Joined \<and> cleanup = Ok () \<and> lock = Ok ()) \<and>
    (r = Ok () \<longrightarrow> dm_state c = Rt_Stopped \<and> dm_tasks c = 0)"
proof -
  let ?b = "drain_runtime delivered d"
  obtain st n where c: "c = ?b\<lparr>dm_state := st, dm_tasks := n\<rparr>"
    and res: "r = Ok () \<longleftrightarrow> descriptor = Ok () \<and> joined = Joined \<and> cleanup = Ok () \<and> lock = Ok ()"
      "r = Ok () \<longrightarrow> st = Rt_Stopped \<and> n = 0"
    using assms shutdown_result [of delivered descriptor joined cleanup lock d] by auto
  note f = drain_runtime_fields [of delivered d]
  have cl: "(\<lambda>(i, q). sr_closer q) ` set (dm_sessions d) \<subseteq> set (dm_closed c)" "(\<lambda>(i, q). pr_closer q) ` set (dm_pending d) \<subseteq> set (dm_closed c)"
    and out: "dm_outbound c = map (\<lambda>(i, q). (i, q\<lparr>or_cancelled := True, or_replies := []\<rparr>)) (dm_outbound d)"
    and rep: "(\<Union>q \<in> set (bt_values (dm_outbound d)). refusal (operation_error Code_ShuttingDown ''daemon is shutting down'') `
      set (or_replies q)) \<subseteq> set (dm_replies c)"
    using f unfolding c by simp_all
  have "\<forall>(i, q) \<in> set (dm_sessions d). is_closed c (sr_closer q)" using cl(1) unfolding is_closed_def by auto
  moreover have "\<forall>(i, q) \<in> set (dm_pending d). is_closed c (pr_closer q)" using cl(2) unfolding is_closed_def by auto
  moreover have "\<forall>(k, q) \<in> set (dm_outbound c). or_cancelled q \<and> or_replies q = []" unfolding out by auto
  moreover have "\<forall>(k, q) \<in> set (dm_outbound d). \<forall>t \<in> set (or_replies q).
      refusal (operation_error Code_ShuttingDown ''daemon is shutting down'') t \<in> set (dm_replies c)"
    using rep unfolding bt_values_def by fastforce
  ultimately show ?thesis using f res unfolding c by simp
qed

theorem shutdown_releases_everything_witness:
  "let (r, c) = shutdown_runtime True (Ok ()) Joined (Ok ()) (Ok ()) example_dialing in
   r = Ok () \<and> dm_tasks c = 0 \<and>
   refusal (operation_error Code_ShuttingDown ''daemon is shutting down'') (Reply_Pairing 4) \<in> set (dm_replies c)"
proof -
  obtain r c where run: "shutdown_runtime True (Ok ()) Joined (Ok ()) (Ok ()) example_dialing = (r, c)" by fastforce
  obtain q where q: "bt_get (dm_outbound example_dialing) bob_id = Some q" "or_replies q = [Reply_Pairing 4]"
    using example_dialing_outbound by blast
  have "(bob_id, q) \<in> set (dm_outbound example_dialing)" using q(1) by (rule bt_get_SomeD)
  with shutdown_releases_everything [OF run] q(2) run show ?thesis by fastforce
qed

text \<open>
  The text of an error sent to a client is bounded without breaking it. It is a prefix of the message of at most
  512 bytes, the whole message when that is short enough and all but at most three bytes of the bound otherwise, and
  it is valid UTF-8 whenever the message is.
\<close>

theorem error_text_bounded:
  assumes "utf8_valid (str_bytes message)"
  shows "length (bounded_message message) \<le> 512 \<and> (\<exists>rest. message = bounded_message message @ rest) \<and>
    utf8_valid (str_bytes (bounded_message message)) \<and> (length message \<le> 512 \<longrightarrow> bounded_message message = message) \<and>
    (512 < length message \<longrightarrow> 509 \<le> length (bounded_message message))"
proof (cases "length message \<le> 512")
  case True
  with assms show ?thesis by (simp add: bounded_message_def ERROR_MESSAGE_MAX_BYTES_def)
next
  case False
  let ?k = "floor_boundary message 512"
  have eq: "bounded_message message = take ?k message" using False by (simp add: bounded_message_def ERROR_MESSAGE_MAX_BYTES_def)
  have k: "?k \<le> 512" "is_char_boundary message ?k" using floor_boundary by blast+
  obtain j where j: "j \<le> 512" "512 \<le> j + 3" "j = 0 \<or> \<not> continuation_byte (str_bytes message ! j)"
    using boundary_near [OF assms, of 512] False by (auto simp: str_bytes_def)
  then have "is_char_boundary message j" using False by (auto simp: is_char_boundary_def str_bytes_def)
  then have "j \<le> ?k" using j(1) by (intro floor_boundary_greatest)
  then have low: "509 \<le> ?k" using j(2) by linarith
  have "utf8_valid (take ?k (str_bytes message))"
    using k low False by (intro utf8_valid_take [OF assms]) (auto simp: is_char_boundary_def str_bytes_def)
  then have "utf8_valid (str_bytes (bounded_message message))" by (simp add: eq str_bytes_def take_map)
  moreover have "\<exists>rest. message = bounded_message message @ rest" by (rule exI [of _ "drop ?k message"]) (simp add: eq)
  moreover have "length (bounded_message message) = ?k" using k(1) False by (simp add: eq)
  ultimately show ?thesis using low k(1) False by simp
qed

theorem error_text_bounded_witness:
  "length (bounded_message (replicate 513 (CHR ''x''))) \<le> 512 \<and> 509 \<le> length (bounded_message (replicate 513 (CHR ''x'')))"
proof -
  have "utf8_valid (str_bytes (replicate 513 (CHR ''x'')))"
    by (rule utf8_ascii) (simp add: str_bytes_def list_all_iff)
  from error_text_bounded [OF this] show ?thesis by (simp only: length_replicate)
qed

end
