(* ===== verification/Daemon_Tasks.thy ===== *)
theory Daemon_Tasks
  imports Daemon_Runtime
begin

text \<open>
  The tasks the daemon spawns (\<open>crates/rift-daemon/src/lib.rs\<close>): accepting a connection, dialing a peer, waiting for the
  user's decision on a pairing, and serving a session. They are composed of the operations of the transport and of the
  session manager, and what they return is what the event loop receives. The connection a task owns is returned next to
  its output. What iroh reports for an attempt to connect, the instants, the random bytes and the trust
  store at each of its locks are inputs, as is the event that ends a wait.
\<close>

section \<open>Inputs\<close>

text \<open>The parts that are outside the repository, and the state that other tasks share.\<close>

record task_env =
  tk_codec :: "control_message postcard"
  tk_blake3 :: "bytes \<Rightarrow> bytes"
  tk_trust_text :: "trust_store_error \<Rightarrow> string"
  tk_pairing_text :: "pairing_error \<Rightarrow> string"
  tk_timeout :: nat
  tk_store1 :: trust_store
  tk_store2 :: trust_store
  tk_store3 :: trust_store
  tk_store4 :: trust_store
  tk_fill_id :: "bytes option"
  tk_fill_nonce :: "bytes option"
  tk_now :: nat
  tk_permit :: bool

text \<open>What a confirmation meets: the codec of the journal, how its writes end, and the time.\<close>

record confirm_env =
  cf_codec :: "trust_mutation postcard"
  cf_persist :: persist_env
  cf_now :: nat

text \<open>An authenticated connection: the peer's identity and the outcome of setting up the control stream.\<close>

type_synonym iroh_connection = "device_id \<times> (transport_error, control_channel) result"

type_synonym candidate_result = "(error_response, connection_candidate) result \<times> bootstrapped option"

section \<open>Bootstrapped connections of the endpoint\<close>

definition accept_and_bootstrap ::
  "control_message postcard \<Rightarrow> rift_endpoint \<Rightarrow> hello_metadata \<Rightarrow> (transport_error, iroh_connection) result \<Rightarrow>
     (transport_error, bootstrapped) result" where
  "accept_and_bootstrap pc ep metadata accepted =
     and_then accepted (\<lambda>(remote, control). fst (bootstrap pc ep remote metadata control))"

definition connect_device_and_bootstrap ::
  "control_message postcard \<Rightarrow> (device_id \<Rightarrow> bool) \<Rightarrow> (device_id \<Rightarrow> (transport_error, iroh_connection) result) \<Rightarrow>
     rift_endpoint \<Rightarrow> hello_metadata \<Rightarrow> device_id \<Rightarrow> (transport_error, bootstrapped) result" where
  "connect_device_and_bootstrap pc valid_key dial ep metadata device_id =
     and_then (connect_device valid_key dial device_id ep) (\<lambda>(remote, control). fst (bootstrap pc ep remote metadata control))"

section \<open>Accepting and dialing\<close>

definition local_metadata :: "string \<Rightarrow> string \<Rightarrow> (error_response, hello_metadata) result" where
  "local_metadata device_name platform =
     map_err (\<lambda>_. operation_error Code_Internal ''local Hello metadata failed validation after startup'')
       (pairing_metadata device_name platform)"

definition capacity_reached :: error_response where
  "capacity_reached = operation_error Code_CapacityExceeded ''pending pairing capacity reached''"

text \<open>The end of a pairing role as the task reports it.\<close>

definition pending_candidate ::
  "task_env \<Rightarrow> nat \<Rightarrow> (pairing_error, pending_pairing) result \<times> bootstrapped \<Rightarrow> candidate_result" where
  "pending_candidate te handle r =
     (case r of
        (Err e, c) \<Rightarrow> (Err (daemon_pairing_error (tk_trust_text te) (tk_pairing_text te) e), Some c)
      | (Ok pending, c) \<Rightarrow> (Ok (Cand_Pending handle pending), Some c))"

definition respond_task :: "task_env \<Rightarrow> nat \<Rightarrow> pairable_connection \<Rightarrow> candidate_result" where
  "respond_task te handle pairable =
     pending_candidate te handle
       (case responder_generate (tk_fill_nonce te) of
          Err e \<Rightarrow> (Err e, pb_connection pairable)
        | Ok material \<Rightarrow> respond_to_pairing (tk_codec te) (tk_blake3 te) (tk_now te) material pairable)"

definition initiate_task :: "task_env \<Rightarrow> nat \<Rightarrow> pairable_connection \<Rightarrow> candidate_result" where
  "initiate_task te handle pairable =
     pending_candidate te handle
       (case initiator_generate (tk_fill_id te) (tk_fill_nonce te) of
          Err e \<Rightarrow> (Err e, pb_connection pairable)
        | Ok material \<Rightarrow> initiate_pairing (tk_codec te) (tk_blake3 te) (tk_now te) material pairable)"

text \<open>What becomes of an admission in either direction.\<close>

definition inbound_candidate ::
  "task_env \<Rightarrow> nat \<Rightarrow> (session_error, session_admission) result \<times> bootstrapped \<Rightarrow> candidate_result" where
  "inbound_candidate te handle r =
     (case r of
        (Err e, c) \<Rightarrow> (Err (daemon_session_error e), Some c)
      | (Ok (Admission_Authorized connection), c) \<Rightarrow> (Ok (Cand_Authorized handle connection), Some c)
      | (Ok (Admission_Pairable pairable), c) \<Rightarrow>
          if \<not> tk_permit te then (Err capacity_reached, Some (bc_close c)) else respond_task te handle pairable)"

definition outbound_candidate ::
  "task_env \<Rightarrow> nat \<Rightarrow> bool \<Rightarrow> (session_error, session_admission) result \<times> bootstrapped \<Rightarrow> candidate_result" where
  "outbound_candidate te handle pairing r =
     (case r of
        (Err e, c) \<Rightarrow> (Err (daemon_session_error e), Some c)
      | (Ok (Admission_Authorized connection), c) \<Rightarrow> (Ok (Cand_Authorized handle connection), Some c)
      | (Ok (Admission_Pairable pairable), c) \<Rightarrow>
          if \<not> pairing
          then (Err (operation_error Code_PeerNotTrusted ''peer requires pairing before authenticated connection''),
                Some (bc_close c))
          else if \<not> tk_permit te then (Err capacity_reached, Some (bc_close c))
          else initiate_task te handle pairable)"

definition accept_incoming ::
  "task_env \<Rightarrow> nat \<Rightarrow> rift_endpoint \<Rightarrow> string \<Rightarrow> string \<Rightarrow> (transport_error, iroh_connection) result \<Rightarrow> candidate_result" where
  "accept_incoming te handle ep device_name platform accepted =
     (case local_metadata device_name platform of
        Err e \<Rightarrow> (Err e, None)
      | Ok metadata \<Rightarrow>
          (case accept_and_bootstrap (tk_codec te) ep metadata accepted of
             Err e \<Rightarrow> (Err (daemon_connection_error e), None)
           | Ok bootstrapped \<Rightarrow>
               inbound_candidate te handle
                 (accept_inbound (tk_codec te) (tk_timeout te) (tk_store1 te) (tk_store2 te) (tk_store3 te) (tk_store4 te)
                    bootstrapped)))"

definition daemon_prepare_outbound ::
  "task_env \<Rightarrow> nat \<Rightarrow> (device_id \<Rightarrow> bool) \<Rightarrow> (device_id \<Rightarrow> (transport_error, iroh_connection) result) \<Rightarrow> rift_endpoint \<Rightarrow>
     string \<Rightarrow> string \<Rightarrow> device_id \<Rightarrow> bool \<Rightarrow> candidate_result" where
  "daemon_prepare_outbound te handle valid_key dial ep device_name platform device_id pairing =
     (case local_metadata device_name platform of
        Err e \<Rightarrow> (Err e, None)
      | Ok metadata \<Rightarrow>
          (case connect_device_and_bootstrap (tk_codec te) valid_key dial ep metadata device_id of
             Err e \<Rightarrow> (Err (daemon_connection_error e), None)
           | Ok bootstrapped \<Rightarrow>
               outbound_candidate te handle pairing
                 (prepare_outbound (tk_codec te) (tk_timeout te) (tk_store1 te) (tk_store2 te) (tk_store3 te) (tk_store4 te)
                    (if pairing then Pairing else AuthorizedSession) bootstrapped)))"

section \<open>Waiting for a decision\<close>

text \<open>
  Which branch wins while the confirmation runs. A command or a shutdown drops the confirmation; the event carries the
  trust store as the confirmation had left it by then.
\<close>

datatype resolve_event =
    Res_Confirmed
  | Res_Command "pairing_command option" trust_store
  | Res_Shutdown trust_store

definition confirmation_result ::
  "task_env \<Rightarrow> nat \<Rightarrow> (pairing_error, authorized_connection) result \<Rightarrow> pairing_task_result" where
  "confirmation_result te handle r =
     (case r of
        Ok connection \<Rightarrow> Ptr_Authorized handle connection
      | Err (Pairing_Rejected _ _) \<Rightarrow> Ptr_Rejected
      | Err (Pairing_Timeout _) \<Rightarrow> Ptr_Expired
      | Err e \<Rightarrow> Ptr_Failed (daemon_pairing_error (tk_trust_text te) (tk_pairing_text te) e))"

definition resolve_pending_pairing ::
  "task_env \<Rightarrow> confirm_env \<Rightarrow> nat \<Rightarrow> pairing_attempt_id \<Rightarrow> device_id \<Rightarrow> pending_pairing \<Rightarrow> bool \<Rightarrow> nat \<Rightarrow> resolve_event \<Rightarrow>
     trust_store \<Rightarrow> task_output \<times> trust_store" where
  "resolve_pending_pairing te ce handle attempt_id device_id pending accepted channel event store =
     (let (result, store') =
        (case event of
           Res_Confirmed \<Rightarrow>
             (case confirm (tk_codec te) (cf_codec ce) (tk_blake3 te) (cf_persist ce) (cf_now ce) accepted pending store of
                (r, _, store') \<Rightarrow> (confirmation_result te handle r, store'))
         | Res_Command _ store' \<Rightarrow> (Ptr_Cancelled, store')
         | Res_Shutdown store' \<Rightarrow> (Ptr_Cancelled, store')) in
      (Task_PairingEnded attempt_id device_id result (Some channel), store'))"

text \<open>What ends the wait for the user; a channel that closed delivers no command.\<close>

datatype pending_event =
    Pend_Command "pairing_command option"
  | Pend_Deadline
  | Pend_Closed
  | Pend_Shutdown

text \<open>
  \<open>resolution\<close> is the event that ends the confirmation, were one to start. The second component is the trust store
  afterwards.
\<close>

definition run_pending_pairing ::
  "task_env \<Rightarrow> confirm_env \<Rightarrow> nat \<Rightarrow> pairing_attempt_id \<Rightarrow> pending_pairing \<Rightarrow> pending_event \<Rightarrow> resolve_event \<Rightarrow> trust_store \<Rightarrow>
     task_output \<times> trust_store" where
  "run_pending_pairing te ce handle attempt_id pending event resolution store =
     (let device_id = tp_device_id (pp_peer pending) in
      case event of
        Pend_Command (Some (Pcmd_Confirm accepted channel)) \<Rightarrow>
          resolve_pending_pairing te ce handle attempt_id device_id pending accepted channel resolution store
      | Pend_Command _ \<Rightarrow> (Task_PairingEnded attempt_id device_id Ptr_Cancelled None, store)
      | Pend_Deadline \<Rightarrow> (Task_PairingEnded attempt_id device_id Ptr_Expired None, store)
      | Pend_Closed \<Rightarrow>
          (Task_PairingEnded attempt_id device_id
             (Ptr_Failed (operation_error Code_ConnectionFailed ''pairing connection closed before confirmation'')) None, store)
      | Pend_Shutdown \<Rightarrow> (Task_PairingEnded attempt_id device_id Ptr_Cancelled None, store))"

section \<open>Serving a session\<close>

text \<open>
  The control loop of the session, or the shutdown that interrupts it after some turns of the loop. A session that still
  waits has no output yet; the fuel is the one of the control loop.
\<close>

definition session_failure :: "(transport_error, unit) result \<Rightarrow> connectivity_failure" where
  "session_failure r =
     (case r of Ok _ \<Rightarrow> Fail_Network | Err e \<Rightarrow> failure_category (er_code (daemon_connection_error e)))"

definition run_session ::
  "nat \<Rightarrow> control_message postcard \<Rightarrow> session_id \<Rightarrow> authorized_connection \<Rightarrow> nat option \<Rightarrow>
     (task_output \<times> bootstrapped) option" where
  "run_session fuel pc session_id connection interrupted =
     (let device_id = tp_device_id (ac_peer connection) in
      case interrupted of
        Some turns \<Rightarrow>
          Some (Task_SessionEnded session_id device_id Cls_Shutdown Fail_Cancelled,
                bc_close (snd (serve_control turns pc (ac_connection connection))))
      | None \<Rightarrow>
          (case serve_control fuel pc (ac_connection connection) of
             (Some (Ready r), c) \<Rightarrow>
               Some (Task_SessionEnded session_id device_id Cls_ConnectionClosed (session_failure r), c)
           | _ \<Rightarrow> None))"

section \<open>Notions of the properties\<close>

text \<open>
  A candidate for the peer the transport authenticated: authorized by its durable trust, or pending with a permit for
  an identity without a decision, under the trust generation read first.
\<close>

definition candidate_ok :: "task_env \<Rightarrow> nat \<Rightarrow> device_id \<Rightarrow> connection_candidate \<Rightarrow> bool" where
  "candidate_ok te handle remote candidate =
     (case candidate of
        Cand_Authorized h a \<Rightarrow> h = handle \<and> tp_device_id (ac_peer a) = remote \<and>
          bc_remote_device_id (ac_connection a) = remote \<and>
          entry (tk_store4 te) remote = Some (Entry_Trusted (ac_peer a)) \<and>
          ac_trust_generation a = current_generation (tk_store1 te) remote
      | Cand_Pending h p \<Rightarrow> h = handle \<and> tp_device_id (pp_peer p) = remote \<and> tk_permit te \<and>
          entry (tk_store4 te) remote = None \<and>
          pp_trust_generation p = current_generation (tk_store1 te) remote)"

text \<open>A connection nobody can use: closed, or without its control stream.\<close>

definition unusable :: "bootstrapped \<Rightarrow> bool" where
  "unusable c = (bc_closed c \<or> bc_control c = None)"

section \<open>Example values\<close>

definition task_codec :: "control_message postcard" where
  "task_codec = table_codec [Msg_Hello (example_hello alice_id), Msg_Hello (example_hello example_id),
     ConnectionIntent AuthorizedSession, ConnectionIntentResult True]"

definition example_task_env :: task_env where
  "example_task_env = \<lparr>tk_codec = task_codec, tk_blake3 = zero_digest, tk_trust_text = (\<lambda>_. []), tk_pairing_text = (\<lambda>_. []),
     tk_timeout = 60, tk_store1 = trusted_store, tk_store2 = trusted_store, tk_store3 = trusted_store,
     tk_store4 = trusted_store, tk_fill_id = Some [], tk_fill_nonce = Some [], tk_now = 0, tk_permit = True\<rparr>"

definition example_control :: control_channel where
  "example_control = \<lparr>ch_send = open_writer, ch_recv = \<lparr>rd_bytes = [0, 0, 0, 1, 1] @ [0, 0, 0, 1, 2] @ [], rd_end = Stalls\<rparr>\<rparr>"

section \<open>Lemmas\<close>

lemma entry_device: "decisions_wf (ts_decisions s) \<Longrightarrow> entry s i = Some (Entry_Trusted p) \<Longrightarrow> tp_device_id p = i"
proof -
  assume wf: "decisions_wf (ts_decisions s)" and "entry s i = Some (Entry_Trusted p)"
  then obtain q where q: "bt_get (ts_decisions s) i = Some q" "decision_entry i q = Entry_Trusted p" by (auto simp: entry_def)
  with wf have "decision_wf (i, q)" by (auto simp: decisions_wf_def list_all_iff dest: bt_get_SomeD)
  with q(2) show ?thesis by (cases q) (auto simp: decision_wf_def)
qed

text \<open>Both pairing roles keep the peer and the generation of the connection.\<close>

lemma pairing_task_Ok:
  assumes "respond_task te h q = (Ok cand, c) \<or> initiate_task te h q = (Ok cand, c)"
  obtains p where "cand = Cand_Pending h p" "tp_device_id (pp_peer p) = bc_remote_device_id (pb_connection q)"
    "pp_trust_generation p = pb_trust_generation q"
proof -
  have "\<exists>p c'. cand = Cand_Pending h p \<and>
      ((\<exists>m. respond_to_pairing (tk_codec te) (tk_blake3 te) (tk_now te) m q = (Ok p, c')) \<or>
       (\<exists>m. initiate_pairing (tk_codec te) (tk_blake3 te) (tk_now te) m q = (Ok p, c')))"
    using assms
    by (auto simp: respond_task_def initiate_task_def pending_candidate_def split: prod.splits sum.splits)
  then obtain p c' where p: "cand = Cand_Pending h p"
    "(\<exists>m. respond_to_pairing (tk_codec te) (tk_blake3 te) (tk_now te) m q = (Ok p, c')) \<or>
     (\<exists>m. initiate_pairing (tk_codec te) (tk_blake3 te) (tk_now te) m q = (Ok p, c'))" by blast
  have "pp_peer p = trusted_peer_from_hello (bc_peer_hello (pb_connection q)) \<and> pp_trust_generation p = pb_trust_generation q"
    using p(2) by (auto dest!: initiate_pairing_Ok respond_to_pairing_Ok simp: Let_def)
  with p(1) that show ?thesis by (simp add: trusted_peer_from_hello_def bc_remote_device_id_def)
qed

lemma pairing_task_Err:
  assumes "respond_task te h q = (Err e, c) \<and> tk_fill_nonce te \<noteq> None \<or>
    initiate_task te h q = (Err e, c) \<and> tk_fill_id te \<noteq> None \<and> tk_fill_nonce te \<noteq> None"
  shows "\<exists>c'. c = Some c' \<and> unusable c'"
  using assms
  by (auto simp: respond_task_def initiate_task_def pending_candidate_def responder_generate_def initiator_generate_def
      unusable_def dest: initiate_pairing_Err respond_to_pairing_Err split: prod.splits sum.splits)

lemma inbound_candidate_Ok:
  "inbound_candidate te h (r, c1) = (Ok cand, c) \<longleftrightarrow>
    (\<exists>x. r = Ok (Admission_Authorized x) \<and> cand = Cand_Authorized h x \<and> c = Some c1) \<or>
    (\<exists>q. r = Ok (Admission_Pairable q) \<and> tk_permit te \<and> respond_task te h q = (Ok cand, c))"
  by (auto simp: inbound_candidate_def split: sum.splits session_admission.splits if_splits)

lemma outbound_candidate_Ok:
  "outbound_candidate te h pairing (r, c1) = (Ok cand, c) \<longleftrightarrow>
    (\<exists>x. r = Ok (Admission_Authorized x) \<and> cand = Cand_Authorized h x \<and> c = Some c1) \<or>
    (\<exists>q. r = Ok (Admission_Pairable q) \<and> pairing \<and> tk_permit te \<and> initiate_task te h q = (Ok cand, c))"
  by (auto simp: outbound_candidate_def split: sum.splits session_admission.splits if_splits)

text \<open>The end of an admission, shared by both directions.\<close>

lemma admitted_candidate:
  assumes adm: "prepare_outbound pc t (tk_store1 te) (tk_store2 te) (tk_store3 te) (tk_store4 te) purpose b = (Ok a, c1) \<or>
      accept_inbound pc t (tk_store1 te) (tk_store2 te) (tk_store3 te) (tk_store4 te) b = (Ok a, c1)"
    and wf: "decisions_wf (ts_decisions (tk_store4 te))"
    and cand: "(\<exists>x. a = Admission_Authorized x \<and> cand = Cand_Authorized h x) \<or>
      (\<exists>q. a = Admission_Pairable q \<and> tk_permit te \<and> (respond_task te h q = (Ok cand, c) \<or> initiate_task te h q = (Ok cand, c)))"
  shows "candidate_ok te h (bc_remote_device_id b) cand"
  using cand
proof
  assume "\<exists>x. a = Admission_Authorized x \<and> cand = Cand_Authorized h x"
  then obtain x where x: "a = Admission_Authorized x" "cand = Cand_Authorized h x" by blast
  from admission_spec [OF adm refl] x have
    "entry (tk_store4 te) (bc_remote_device_id b) = Some (Entry_Trusted (ac_peer x))"
    "ac_trust_generation x = current_generation (tk_store1 te) (bc_remote_device_id b)"
    "bc_remote_device_id (ac_connection x) = bc_remote_device_id b" by simp_all
  with entry_device [OF wf] x(2) show ?thesis by (simp add: candidate_ok_def)
next
  assume "\<exists>q. a = Admission_Pairable q \<and> tk_permit te \<and> (respond_task te h q = (Ok cand, c) \<or> initiate_task te h q = (Ok cand, c))"
  then obtain q where q: "a = Admission_Pairable q" "tk_permit te"
    "respond_task te h q = (Ok cand, c) \<or> initiate_task te h q = (Ok cand, c)" by blast
  obtain p where "cand = Cand_Pending h p" "tp_device_id (pp_peer p) = bc_remote_device_id (pb_connection q)"
    "pp_trust_generation p = pb_trust_generation q" by (rule pairing_task_Ok [OF q(3)])
  moreover from admission_spec [OF adm refl] q(1) have
    "entry (tk_store4 te) (bc_remote_device_id b) = None"
    "pb_trust_generation q = current_generation (tk_store1 te) (bc_remote_device_id b)"
    "bc_remote_device_id (pb_connection q) = bc_remote_device_id b" by simp_all
  ultimately show ?thesis using q(2) by (simp add: candidate_ok_def)
qed

lemma accept_and_bootstrap_remote:
  "accept_and_bootstrap pc ep metadata (Ok (remote, control)) = Ok b \<Longrightarrow> bc_remote_device_id b = remote"
  using bootstrap_peer [OF prod_eqI] by (auto simp: accept_and_bootstrap_def)

lemma connect_and_bootstrap_remote:
  assumes "connect_device_and_bootstrap pc valid_key dial ep metadata i = Ok b"
    and "\<And>x. dial i = Ok x \<Longrightarrow> fst x = i"
  shows "bc_remote_device_id b = i"
proof -
  obtain remote control where r: "connect_device valid_key dial i ep = Ok (remote, control)" "fst (bootstrap pc ep remote metadata control) = Ok b"
    using assms(1) by (auto simp: connect_device_and_bootstrap_def and_then_Ok_iff)
  then have "dial i = Ok (remote, control)"
    by (auto simp: connect_device_def and_then_Ok_iff split: if_splits)
  with assms(2) bootstrap_peer [OF prod_eqI, of pc ep remote metadata control b] r(2) show ?thesis by fastforce
qed

lemma accept_incoming_ok:
  assumes "accept_incoming te h ep name platform (Ok (remote, control)) = (Ok cand, c)"
    and wf: "decisions_wf (ts_decisions (tk_store4 te))"
  shows "candidate_ok te h remote cand"
proof -
  obtain metadata b where b: "accept_and_bootstrap (tk_codec te) ep metadata (Ok (remote, control)) = Ok b" and
    rest: "inbound_candidate te h (accept_inbound (tk_codec te) (tk_timeout te) (tk_store1 te) (tk_store2 te) (tk_store3 te)
      (tk_store4 te) b) = (Ok cand, c)"
    using assms(1) by (auto simp: accept_incoming_def split: sum.splits)
  obtain r c1 where run: "accept_inbound (tk_codec te) (tk_timeout te) (tk_store1 te) (tk_store2 te) (tk_store3 te) (tk_store4 te) b = (r, c1)"
    by fastforce
  with rest obtain a where a: "r = Ok a" "(\<exists>x. a = Admission_Authorized x \<and> cand = Cand_Authorized h x) \<or>
      (\<exists>q. a = Admission_Pairable q \<and> tk_permit te \<and> (respond_task te h q = (Ok cand, c) \<or> initiate_task te h q = (Ok cand, c)))"
    by (auto simp: inbound_candidate_Ok)
  from admitted_candidate [OF disjI2, OF run [unfolded a(1)] wf a(2)] accept_and_bootstrap_remote [OF b] show ?thesis by simp
qed

lemma prepare_outbound_ok:
  assumes "daemon_prepare_outbound te h valid_key dial ep name platform i pairing = (Ok cand, c)"
    and wf: "decisions_wf (ts_decisions (tk_store4 te))" and dial: "\<And>x. dial i = Ok x \<Longrightarrow> fst x = i"
  shows "candidate_ok te h i cand"
proof -
  obtain metadata b where b: "connect_device_and_bootstrap (tk_codec te) valid_key dial ep metadata i = Ok b" and
    rest: "outbound_candidate te h pairing (prepare_outbound (tk_codec te) (tk_timeout te) (tk_store1 te) (tk_store2 te)
      (tk_store3 te) (tk_store4 te) (if pairing then Pairing else AuthorizedSession) b) = (Ok cand, c)"
    using assms(1) by (auto simp: daemon_prepare_outbound_def split: sum.splits)
  obtain r c1 where run: "prepare_outbound (tk_codec te) (tk_timeout te) (tk_store1 te) (tk_store2 te) (tk_store3 te) (tk_store4 te)
      (if pairing then Pairing else AuthorizedSession) b = (r, c1)" by fastforce
  with rest obtain a where a: "r = Ok a" "(\<exists>x. a = Admission_Authorized x \<and> cand = Cand_Authorized h x) \<or>
      (\<exists>q. a = Admission_Pairable q \<and> tk_permit te \<and> (respond_task te h q = (Ok cand, c) \<or> initiate_task te h q = (Ok cand, c)))"
    by (auto simp: outbound_candidate_Ok)
  from admitted_candidate [OF disjI1, OF run [unfolded a(1)] wf a(2)] connect_and_bootstrap_remote [OF b dial] show ?thesis by simp
qed

lemma admission_refused:
  assumes "prepare_outbound pc t s1 s2 s3 s4 purpose b = (Err e, c) \<or> accept_inbound pc t s1 s2 s3 s4 b = (Err e, c)"
  shows "unusable c"
  using admission_spec [OF assms refl] by (simp add: unusable_def)

lemma accept_incoming_fails:
  assumes "accept_incoming te h ep name platform accepted = (Err e, Some c)" and "tk_fill_nonce te \<noteq> None"
  shows "unusable c"
proof -
  obtain b where rest: "inbound_candidate te h (accept_inbound (tk_codec te) (tk_timeout te) (tk_store1 te) (tk_store2 te)
      (tk_store3 te) (tk_store4 te) b) = (Err e, Some c)"
    using assms(1) by (auto simp: accept_incoming_def split: sum.splits)
  obtain r c1 where run: "accept_inbound (tk_codec te) (tk_timeout te) (tk_store1 te) (tk_store2 te) (tk_store3 te) (tk_store4 te) b = (r, c1)"
    by fastforce
  show ?thesis
  proof (cases r)
    case (Inl e')
    with rest run have "c = c1" by (simp add: inbound_candidate_def)
    with admission_refused [OF disjI2, OF run [unfolded Inl]] show ?thesis by simp
  next
    case (Inr a)
    then obtain q where "a = Admission_Pairable q" using rest run by (cases a) (auto simp: inbound_candidate_def)
    with Inr rest run pairing_task_Err [of te h q e "Some c"] assms(2) show ?thesis
      by (auto simp: inbound_candidate_def unusable_def split: if_splits)
  qed
qed

lemma prepare_outbound_fails:
  assumes "daemon_prepare_outbound te h valid_key dial ep name platform i pairing = (Err e, Some c)"
    and "tk_fill_nonce te \<noteq> None" "tk_fill_id te \<noteq> None"
  shows "unusable c"
proof -
  obtain b where rest: "outbound_candidate te h pairing (prepare_outbound (tk_codec te) (tk_timeout te) (tk_store1 te) (tk_store2 te)
      (tk_store3 te) (tk_store4 te) (if pairing then Pairing else AuthorizedSession) b) = (Err e, Some c)"
    using assms(1) by (auto simp: daemon_prepare_outbound_def split: sum.splits)
  obtain r c1 where run: "prepare_outbound (tk_codec te) (tk_timeout te) (tk_store1 te) (tk_store2 te) (tk_store3 te) (tk_store4 te)
      (if pairing then Pairing else AuthorizedSession) b = (r, c1)" by fastforce
  show ?thesis
  proof (cases r)
    case (Inl e')
    with rest run have "c = c1" by (simp add: outbound_candidate_def)
    with admission_refused [OF disjI1, OF run [unfolded Inl]] show ?thesis by simp
  next
    case (Inr a)
    then obtain q where "a = Admission_Pairable q" using rest run by (cases a) (auto simp: outbound_candidate_def)
    with Inr rest run pairing_task_Err [of te h q e "Some c"] assms(2,3) show ?thesis
      by (auto simp: outbound_candidate_def unusable_def split: if_splits)
  qed
qed

text \<open>Registering a candidate reads the trust of its peer again.\<close>

lemma registered_candidate:
  assumes "candidate_ok te h remote cand" and "register_candidate env cand d = (Ok u, d')"
  shows "trust_state_of (dm_trust d) remote =
      (case cand of Cand_Authorized _ _ \<Rightarrow> Some TrustState_Trusted | Cand_Pending _ _ \<Rightarrow> None) \<and>
    current_generation (dm_trust d) remote = current_generation (tk_store1 te) remote"
proof (cases cand)
  case (Cand_Authorized h' a)
  with assms obtain i where "register_session env h' a Inbound d = (Ok i, d')"
    by (auto simp: register_candidate_def discard_Ok)
  with assms(1) Cand_Authorized show ?thesis
    by (auto simp: candidate_ok_def register_session_def Let_def split: if_splits)
next
  case (Cand_Pending h' p)
  with assms obtain i where "register_pending env h' p Inbound d = (Ok i, d')"
    by (auto simp: register_candidate_def discard_Ok)
  with assms(1) Cand_Pending show ?thesis
    by (auto simp: candidate_ok_def register_pending_def Let_def split: if_splits)
qed

lemma task_codec_ok: "postcard_ok task_codec"
  by (simp add: task_codec_def table_codec_ok)

lemma task_frames:
  "encode_frame task_codec (Msg_Hello (example_hello alice_id)) = Ok [0, 0, 0, 1, 0]"
  "encode_frame task_codec (Msg_Hello (example_hello example_id)) = Ok [0, 0, 0, 1, 1]"
  "encode_frame task_codec (ConnectionIntent AuthorizedSession) = Ok [0, 0, 0, 1, 2]"
  "encode_frame task_codec (ConnectionIntentResult True) = Ok [0, 0, 0, 1, 3]"
proof -
  have "example_hello alice_id \<noteq> example_hello example_id" by (simp add: example_hello_def alice_id_def example_id_def)
  then show "encode_frame task_codec (Msg_Hello (example_hello alice_id)) = Ok [0, 0, 0, 1, 0]"
    "encode_frame task_codec (Msg_Hello (example_hello example_id)) = Ok [0, 0, 0, 1, 1]"
    "encode_frame task_codec (ConnectionIntent AuthorizedSession) = Ok [0, 0, 0, 1, 2]"
    "encode_frame task_codec (ConnectionIntentResult True) = Ok [0, 0, 0, 1, 3]"
    by (simp_all add: encode_frame_Ok task_codec_def table_codec_def be_encode_numeral MAX_CONTROL_FRAME_LEN_def)
qed

lemma example_bootstrap:
  "\<exists>w b. bootstrap task_codec example_endpoint example_id example_metadata (Ok example_control) = (Ok b, False) \<and>
    bc_control b = Some \<lparr>ch_send = w, ch_recv = \<lparr>rd_bytes = [0, 0, 0, 1, 2] @ [], rd_end = Stalls\<rparr>\<rparr> \<and>
    100 \<le> wr_room w"
proof -
  have valid: "hello_visit (example_hello example_id)" "validate_hello (example_hello example_id) example_id = Ok ()"
    using hello_new_valid [OF example_hello_new] by simp_all
  have read: "read_value message_visit task_codec \<lparr>rd_bytes = [0, 0, 0, 1, 1] @ [0, 0, 0, 1, 2] @ [], rd_end = Stalls\<rparr> =
      (Ready (Ok (Msg_Hello (example_hello example_id))), \<lparr>rd_bytes = [0, 0, 0, 1, 2] @ [], rd_end = Stalls\<rparr>)"
    using valid(1) by (intro read_value_frame) (simp_all add: task_frames task_codec_ok)
  then show ?thesis
    using valid(2)
    by (simp add: bootstrap_def exchange_hello_with_timeout_def io_timeout_def exchange_hello_def expect_hello_def
        example_hello_new io_bind_def io_map_err_def on_send_def on_recv_def write_message_def write_value_def task_frames
        write_all_def open_writer_def FRAME_LENGTH_PREFIX_LEN_def read_message_def example_endpoint_def example_control_def)
qed

text \<open>The example runs up to the final admission, with the store found there.\<close>

lemma example_admission_run:
  "\<exists>c. bc_remote_device_id c = example_id \<and>
    accept_incoming (example_task_env\<lparr>tk_store3 := s3\<rparr>) 4 example_endpoint ''alice'' ''linux'' (Ok (example_id, Ok example_control)) =
      inbound_candidate (example_task_env\<lparr>tk_store3 := s3\<rparr>) 4 (admit 60 s3 trusted_store AuthorizedSession 0 c)"
proof -
  have meta: "local_metadata ''alice'' ''linux'' = Ok example_metadata"
    by (simp add: local_metadata_def pairing_metadata_def hello_metadata_new_def example_metadata_def validate_hello_metadata_def
      validate_metadata_def MAX_DEVICE_NAME_LEN_def MAX_PLATFORM_LEN_def MAX_CAPABILITIES_def)
  obtain w b where b: "bootstrap task_codec example_endpoint example_id example_metadata (Ok example_control) = (Ok b, False)"
      "bc_control b = Some \<lparr>ch_send = w, ch_recv = \<lparr>rd_bytes = [0, 0, 0, 1, 2] @ [], rd_end = Stalls\<rparr>\<rparr>"
      "100 \<le> wr_room w"
    using example_bootstrap by blast
  have id: "bc_remote_device_id b = example_id" "bc_intent_phase b = Fresh" using bootstrap_peer [OF b(1)] by simp_all
  have "\<exists>c1. receive_intent task_codec b = (Ok AuthorizedSession, c1) \<and>
      (\<exists>c2. send_intent_result task_codec True c1 = (Ok (), c2))"
    using with_control_read [OF task_codec_ok task_frames(3), of "b\<lparr>bc_intent_phase := AwaitingDecision\<rparr>" w "[]" Stalls]
      with_control_write [OF task_frames(4), of w] b id
    by (simp add: receive_intent_def send_intent_result_def require_intent_phase_def read_intent_def write_intent_def)
  then obtain c1 c2 where run: "receive_intent task_codec b = (Ok AuthorizedSession, c1)"
    "send_intent_result task_codec True c1 = (Ok (), c2)" by blast
  have "bc_remote_device_id c2 = example_id"
    using intent_remote(2) [of task_codec b] intent_remote(3) [of task_codec True c1] run id(1)
    by (simp add: bc_remote_device_id_def)
  moreover have "entry trusted_store example_id = Some (Entry_Trusted example_peer)" "current_generation trusted_store example_id = 0"
    by (simp_all add: entry_def trusted_store_def bt_get_def current_generation_def empty_store_def from_parts_def)
  ultimately show ?thesis
    using run id(1) meta b(1)
    by (intro exI [of _ c2])
      (simp add: accept_inbound_def purpose_allowed_def accept_incoming_def accept_and_bootstrap_def example_task_env_def)
qed

lemma example_accept:
  "\<exists>a c. accept_incoming example_task_env 4 example_endpoint ''alice'' ''linux'' (Ok (example_id, Ok example_control)) =
    (Ok (Cand_Authorized 4 a), Some c)"
proof -
  have "example_task_env\<lparr>tk_store3 := trusted_store\<rparr> = example_task_env" by (simp add: example_task_env_def)
  moreover have "entry trusted_store example_id = Some (Entry_Trusted example_peer)" "current_generation trusted_store example_id = 0"
    by (simp_all add: entry_def trusted_store_def bt_get_def current_generation_def empty_store_def from_parts_def)
  ultimately show ?thesis using example_admission_run [of trusted_store] by (auto simp: admit_def inbound_candidate_def)
qed

lemma example_store_wf: "decisions_wf (ts_decisions trusted_store)"
  using reachable_trust_inv [OF reachable_trusted zero_digest_ok example_ok] by (simp add: trust_inv_def)

section \<open>Properties\<close>

text \<open>
  What the connection tasks hand to the event loop is for the authenticated peer. A candidate from an accepted
  connection is for the identity the transport authenticated, and one from a dial for the identity that was asked
  for; an authorized candidate carries the durable record that trusts that identity, a pending one holds
  a pairing permit for an identity without any decision, and both carry the trust generation read before the first exchange.
\<close>

theorem task_candidates_authenticated:
  assumes "decisions_wf (ts_decisions (tk_store4 te))" and "\<And>x. dial i = Ok x \<Longrightarrow> fst x = i"
  shows "(accept_incoming te h ep name platform (Ok (remote, control)) = (Ok cand, c) \<longrightarrow> candidate_ok te h remote cand) \<and>
    (daemon_prepare_outbound te h valid_key dial ep name platform i pairing = (Ok cand, c) \<longrightarrow> candidate_ok te h i cand)"
  using accept_incoming_ok prepare_outbound_ok assms by blast

theorem task_candidates_authenticated_witness:
  "\<exists>a c. accept_incoming example_task_env 4 example_endpoint ''alice'' ''linux'' (Ok (example_id, Ok example_control)) =
      (Ok (Cand_Authorized 4 a), Some c) \<and> candidate_ok example_task_env 4 example_id (Cand_Authorized 4 a)"
proof -
  obtain a c where run: "accept_incoming example_task_env 4 example_endpoint ''alice'' ''linux'' (Ok (example_id, Ok example_control)) =
      (Ok (Cand_Authorized 4 a), Some c)" using example_accept by blast
  have "decisions_wf (ts_decisions (tk_store4 example_task_env))" using example_store_wf by (simp add: example_task_env_def)
  from task_candidates_authenticated [OF this, of "\<lambda>_. Err SelfConnect" example_id 4 example_endpoint "''alice''" "''linux''" example_id
      "Ok example_control" "Cand_Authorized 4 a" "Some c"] run show ?thesis by auto
qed

text \<open>
  A connection task that fails leaves no usable connection behind. When accepting or dialing ends in an error after
  the handshake, for whatever reason but a failure of the random source, the connection is closed or has
  lost its control stream.
\<close>

theorem task_failures_close:
  assumes "tk_fill_nonce te \<noteq> None" and "tk_fill_id te \<noteq> None"
  shows "(accept_incoming te h ep name platform accepted = (Err e, Some c) \<longrightarrow> unusable c) \<and>
    (daemon_prepare_outbound te h valid_key dial ep name platform i pairing = (Err e, Some c) \<longrightarrow> unusable c)"
  using accept_incoming_fails prepare_outbound_fails assms by blast

theorem task_failures_close_witness:
  "\<exists>e c. accept_incoming (example_task_env\<lparr>tk_store3 := trusted_store\<lparr>ts_generations := [(example_id, 5)]\<rparr>\<rparr>) 4 example_endpoint
      ''alice'' ''linux'' (Ok (example_id, Ok example_control)) = (Err e, Some c) \<and> unusable c"
proof -
  let ?s = "trusted_store\<lparr>ts_generations := [(example_id, 5)]\<rparr>"
  have "current_generation ?s example_id = 5" by (simp add: current_generation_def bt_get_def)
  then obtain e c where run: "accept_incoming (example_task_env\<lparr>tk_store3 := ?s\<rparr>) 4 example_endpoint ''alice'' ''linux''
      (Ok (example_id, Ok example_control)) = (Err e, Some c)"
    using example_admission_run [of ?s] by (auto simp: admit_def inbound_candidate_def)
  with task_failures_close [of "example_task_env\<lparr>tk_store3 := ?s\<rparr>" 4 example_endpoint "''alice''" "''linux''"
      "Ok (example_id, Ok example_control)" e c]
  show ?thesis by (auto simp: example_task_env_def)
qed

end
