(* ===== verification/Ipc_Server.thy ===== *)
theory Ipc_Server
  imports Daemon_Runtime "HOL-Library.Multiset"
begin

text \<open>
  One local client of the daemon: the token that admits it (\<open>AuthToken\<close> of \<open>crates/rift-daemon/src/lib.rs\<close>) and
  the loop that serves it (\<open>crates/rift-daemon/src/ipc_server.rs\<close>). A turn of the loop is one branch of its
  \<open>select!\<close>; the future that reads a frame is created anew in every turn, so a turn that another branch wins after the
  read was polled drops what the read had consumed. Bytes arrive and the writer drains its queue between turns.
\<close>

unbundle bit_operations_syntax

section \<open>The token\<close>

text \<open>\<open>hex_encode\<close> stands for \<open>hex::encode\<close>, which writes each byte as two lowercase digits.\<close>

definition hex_encode_ok :: "(bytes \<Rightarrow> string) \<Rightarrow> bool" where
  "hex_encode_ok hex_encode = (\<forall>bs. hex_encode bs = concat (map fmt_byte bs))"

text \<open>What the random source filled the buffer with; \<open>None\<close> is its failure.\<close>

definition auth_generate :: "(bytes \<Rightarrow> string) \<Rightarrow> bytes option \<Rightarrow> (daemon_error, string) result" where
  "auth_generate hex_encode filled = and_then (ok_or filled Dae_Randomness) (\<lambda>bs. Ok (hex_encode bs))"

definition auth_step :: "char \<times> char \<Rightarrow> bool \<times> byte \<Rightarrow> bool \<times> byte" where
  "auth_step p s =
     (case (p, s) of
        ((candidate, expected), (valid, difference)) \<Rightarrow>
          (valid \<and> is_lower_hex candidate, difference OR (of_char candidate XOR of_char expected)))"

definition auth_matches :: "string \<Rightarrow> string \<Rightarrow> bool" where
  "auth_matches encoded candidate =
     (if length candidate \<noteq> length encoded then False
      else (case fold auth_step (zip candidate encoded) (True, 0) of
          (valid, difference) \<Rightarrow> valid \<and> difference = 0))"

section \<open>Serving a client\<close>

definition OUTGOING_QUEUE_CAPACITY :: nat where
  "OUTGOING_QUEUE_CAPACITY = 64"

definition MAX_OUTSTANDING_REQUESTS :: nat where
  "MAX_OUTSTANDING_REQUESTS = 16"

datatype client_error =
    AuthenticationTimeout
  | AuthenticationFailed
  | Client_Frame ipc_frame_error
  | DuplicateAuthentication
  | DuplicateRequestId u64
  | TooManyOutstandingRequests
  | OutgoingQueueFull
  | EventLagged u64
  | WriterStopped
  | WriterTask

text \<open>The first exchange; a deadline turns waiting into the timeout.\<close>

definition authenticate_client ::
  "client_message json \<Rightarrow> server_message json \<Rightarrow> (io_error_kind, unit) result poll \<Rightarrow> string \<Rightarrow> chunk_reader \<Rightarrow> writer \<Rightarrow>
     (client_error, unit) result \<times> chunk_reader \<times> writer" where
  "authenticate_client jc js flushed encoded r w =
     (case read_json_frame jc r of
        (Pending, r') \<Rightarrow> (Err AuthenticationTimeout, r', w)
      | (Ready (Err e), r') \<Rightarrow> (Err (Client_Frame e), r', w)
      | (Ready (Ok (Client_Request _ _)), r') \<Rightarrow> (Err AuthenticationFailed, r', w)
      | (Ready (Ok (Client_Authenticate version token)), r') \<Rightarrow>
          if version \<noteq> IPC_PROTOCOL_VERSION \<or> \<not> auth_matches encoded token then (Err AuthenticationFailed, r', w)
          else (case write_json_frame js flushed (Server_Authenticated IPC_PROTOCOL_VERSION) w of
              (Pending, w') \<Rightarrow> (Err AuthenticationTimeout, r', w')
            | (Ready (Err e), w') \<Rightarrow> (Err (Client_Frame e), r', w')
            | (Ready (Ok _), w') \<Rightarrow> (Ok (), r', w')))"

text \<open>The answer to a request, from what the runtime handle returned for it.\<close>

definition request_message :: "u64 \<Rightarrow> (daemon_handle_error, response) result \<Rightarrow> server_message" where
  "request_message i r =
     (case r of
        Ok result \<Rightarrow> Server_Response i result
      | Err (Handle_Operation e) \<Rightarrow> Server_Error i e
      | Err Handle_Stopped \<Rightarrow> Server_Error i (error_response_new Code_ShuttingDown ''daemon is shutting down''))"

text \<open>The writer sends the queued messages in order until one fails or it must wait.\<close>

fun writer_loop ::
  "server_message json \<Rightarrow> (io_error_kind, unit) result poll \<Rightarrow> server_message list \<Rightarrow> (writer, ipc_frame_error, unit) io" where
  "writer_loop j flushed [] w = (Ready (Ok ()), w)"
| "writer_loop j flushed (m # ms) w = io_bind (write_json_frame j flushed m) (\<lambda>_. writer_loop j flushed ms) w"

record client =
  cl_reader :: chunk_reader
  cl_queue :: "server_message list"
  cl_writer_open :: bool
  cl_requests :: "(u64 \<times> request) list"
  cl_outstanding :: "(u64, unit) btree"
  cl_shutdown_queued :: bool

text \<open>\<open>tokio::io::split\<close> and the fresh registries after authentication.\<close>

definition client_new :: "chunk_reader \<Rightarrow> client" where
  "client_new r = \<lparr>cl_reader = r, cl_queue = [], cl_writer_open = True, cl_requests = [], cl_outstanding = [],
     cl_shutdown_queued = False\<rparr>"

datatype writer_outcome = Writer_Done | Writer_Failed ipc_frame_error | Writer_Panicked | Writer_Gone

datatype event_recv = Recv_Event event | Recv_Lagged u64 | Recv_Closed

text \<open>The branch that wins a turn. The shutdown branch carries whether the runtime is really stopping.\<close>

datatype select_branch =
    Sel_Shutdown bool
  | Sel_Writer writer_outcome
  | Sel_Event event_recv
  | Sel_Completed u64 "(daemon_handle_error, response) result"
  | Sel_Frame
  | Sel_Else

datatype client_turn = Turn_Continue client | Turn_Break "(client_error, unit) result" bool client

definition client_send :: "server_message \<Rightarrow> client \<Rightarrow> client option" where
  "client_send m c =
     (if cl_writer_open c \<and> length (cl_queue c) < OUTGOING_QUEUE_CAPACITY
      then Some (c\<lparr>cl_queue := cl_queue c @ [m]\<rparr>) else None)"

definition on_shutdown :: "bool \<Rightarrow> client \<Rightarrow> client_turn" where
  "on_shutdown stopping c =
     (if stopping then
        (if \<not> cl_shutdown_queued c then
           (case client_send (Server_Event Ev_DaemonShuttingDown) c of
              None \<Rightarrow> Turn_Break (Err OutgoingQueueFull) False c
            | Some c' \<Rightarrow> Turn_Break (Ok ()) True c')
         else Turn_Break (Ok ()) True c)
      else Turn_Continue c)"

definition writer_result :: "writer_outcome \<Rightarrow> client_error" where
  "writer_result w =
     (case w of
        Writer_Done \<Rightarrow> WriterStopped
      | Writer_Gone \<Rightarrow> WriterStopped
      | Writer_Failed e \<Rightarrow> Client_Frame e
      | Writer_Panicked \<Rightarrow> WriterTask)"

definition on_event :: "event_recv \<Rightarrow> client \<Rightarrow> client_turn" where
  "on_event r c =
     (case r of
        Recv_Event e \<Rightarrow>
          (let c1 = c\<lparr>cl_shutdown_queued := (cl_shutdown_queued c \<or> e = Ev_DaemonShuttingDown)\<rparr> in
           case client_send (Server_Event e) c1 of
             None \<Rightarrow> Turn_Break (Err OutgoingQueueFull) False c1
           | Some c2 \<Rightarrow> Turn_Continue c2)
      | Recv_Lagged n \<Rightarrow> Turn_Break (Err (EventLagged n)) False c
      | Recv_Closed \<Rightarrow> Turn_Break (Ok ()) False c)"

definition on_completed :: "u64 \<Rightarrow> (daemon_handle_error, response) result \<Rightarrow> client \<Rightarrow> client_turn" where
  "on_completed i r c =
     (let c1 = c\<lparr>cl_requests := filter (\<lambda>e. fst e \<noteq> i) (cl_requests c), cl_outstanding := bt_remove i (cl_outstanding c)\<rparr> in
      case client_send (request_message i r) c1 of
        None \<Rightarrow> Turn_Break (Err OutgoingQueueFull) False c1
      | Some c2 \<Rightarrow> Turn_Continue c2)"

definition on_message :: "(ipc_frame_error, client_message) result \<Rightarrow> client \<Rightarrow> client_turn" where
  "on_message m c =
     (case m of
        Ok (Client_Request i request) \<Rightarrow>
          if bt_contains (cl_outstanding c) i then Turn_Break (Err (DuplicateRequestId i)) False c
          else Turn_Continue (c\<lparr>cl_outstanding := bt_insert i () (cl_outstanding c), cl_requests := cl_requests c @ [(i, request)]\<rparr>)
      | Ok (Client_Authenticate _ _) \<Rightarrow> Turn_Break (Err DuplicateAuthentication) False c
      | Err (Ipc_TruncatedPrefix n) \<Rightarrow> if n = 0 then Turn_Break (Ok ()) False c else Turn_Break (Err (Client_Frame (Ipc_TruncatedPrefix n))) False c
      | Err e \<Rightarrow> Turn_Break (Err (Client_Frame e)) False c)"

text \<open>Whether the read is part of the turn at all, and a poll of it.\<close>

definition reading :: "client \<Rightarrow> bool" where
  "reading c = (length (cl_requests c) < MAX_OUTSTANDING_REQUESTS)"

definition poll_read :: "client_message json \<Rightarrow> client \<Rightarrow> (ipc_frame_error, client_message) result poll \<times> client" where
  "poll_read j c = (case read_json_frame j (cl_reader c) of (p, r) \<Rightarrow> (p, c\<lparr>cl_reader := r\<rparr>))"

text \<open>The body of the branch that won; \<open>read\<close> is what the poll of the read gave.\<close>

definition run_branch ::
  "(ipc_frame_error, client_message) result poll \<Rightarrow> select_branch \<Rightarrow> client \<Rightarrow> client_turn" where
  "run_branch read branch c =
     (case branch of
        Sel_Shutdown stopping \<Rightarrow> on_shutdown stopping c
      | Sel_Writer w \<Rightarrow> Turn_Break (Err (writer_result w)) False c
      | Sel_Event r \<Rightarrow> on_event r c
      | Sel_Completed i r \<Rightarrow> on_completed i r c
      | Sel_Frame \<Rightarrow> (case read of Pending \<Rightarrow> Turn_Continue c | Ready m \<Rightarrow> on_message m c)
      | Sel_Else \<Rightarrow>
          if MAX_OUTSTANDING_REQUESTS \<le> length (cl_requests c) then Turn_Break (Err TooManyOutstandingRequests) False c
          else Turn_Break (Ok ()) False c)"

definition client_turn_with :: "client_message json \<Rightarrow> bool \<Rightarrow> select_branch \<Rightarrow> client \<Rightarrow> client_turn" where
  "client_turn_with j polled branch c =
     (case poll_read j c of (read, c1) \<Rightarrow> run_branch read branch (if polled then c1 else c))"

text \<open>The preconditions of the five branches, in order; the first three have none.\<close>

definition branch_guards :: "client \<Rightarrow> bool list" where
  "branch_guards c = [True, True, True, cl_requests c \<noteq> [], reading c]"

text \<open>
  When a branch can win: the polls go in order, so a read that was polled waits when another branch wins, and an earlier
  branch may win before the read is polled. The last arm runs only when every branch is disabled.
\<close>

definition branch_enabled :: "client_message json \<Rightarrow> bool \<Rightarrow> select_branch \<Rightarrow> client \<Rightarrow> bool" where
  "branch_enabled j polled branch c =
     (case branch of
        Sel_Frame \<Rightarrow> polled \<and> reading c \<and> fst (poll_read j c) \<noteq> Pending
      | Sel_Completed i _ \<Rightarrow> i \<in> fst ` set (cl_requests c) \<and> (polled \<longrightarrow> reading c \<and> fst (poll_read j c) = Pending)
      | Sel_Else \<Rightarrow> \<not> polled \<and> list_all Not (branch_guards c)
      | _ \<Rightarrow> polled \<longrightarrow> reading c \<and> fst (poll_read j c) = Pending)"

text \<open>What the task returns after the loop: a graceful stop waits up to a second for the writer.\<close>

definition client_finish ::
  "(client_error, unit) result \<Rightarrow> bool \<Rightarrow> writer_outcome option \<Rightarrow> bool \<Rightarrow> (client_error, unit) result" where
  "client_finish result graceful waited panicked =
     (let r1 = (if graceful then
            (case waited of
               Some Writer_Done \<Rightarrow> result
             | Some w \<Rightarrow> Err (writer_result w)
             | None \<Rightarrow> Err OutgoingQueueFull)
          else result) in
      if panicked \<and> is_ok r1 then Err WriterTask else r1)"

text \<open>The identifiers of the requests that the messages answer.\<close>

definition answered :: "server_message list \<Rightarrow> u64 list" where
  "answered ms = concat (map (\<lambda>m. case m of Server_Response i _ \<Rightarrow> [i] | Server_Error i _ \<Rightarrow> [i] | _ \<Rightarrow> []) ms)"

text \<open>The request that a turn takes from the stream.\<close>

definition accepts :: "client_message json \<Rightarrow> select_branch \<Rightarrow> client \<Rightarrow> u64 list" where
  "accepts j branch c =
     (case (branch, fst (poll_read j c)) of
        (Sel_Frame, Ready (Ok (Client_Request i _))) \<Rightarrow> [i]
      | _ \<Rightarrow> [])"

text \<open>
  A client in service with the requests accepted from it so far and the messages its writer has taken to send, or the
  result its task ended with.
\<close>

datatype client_state = Serving client "u64 list" "server_message list" | Ended "(client_error, unit) result"

inductive client_step :: "client_message json \<Rightarrow> client_state \<Rightarrow> client_state \<Rightarrow> bool" for j where
  bytes_arrive: "rd_end (cl_reader c) = Stalls \<Longrightarrow>
    client_step j (Serving c acc taken)
      (Serving (c\<lparr>cl_reader := (cl_reader c)\<lparr>rd_bytes := rd_bytes (cl_reader c) @ bs\<rparr>\<rparr>) acc taken)"
| stream_ends: "rd_end (cl_reader c) = Stalls \<Longrightarrow>
    client_step j (Serving c acc taken) (Serving (c\<lparr>cl_reader := (cl_reader c)\<lparr>rd_end := e\<rparr>\<rparr>) acc taken)"
| writer_takes: "cl_queue c = m # ms \<Longrightarrow>
    client_step j (Serving c acc taken) (Serving (c\<lparr>cl_queue := ms\<rparr>) acc (taken @ [m]))"
| writer_ends: "client_step j (Serving c acc taken) (Serving (c\<lparr>cl_writer_open := False\<rparr>) acc taken)"
| turn_goes_on: "branch_enabled j polled branch c \<Longrightarrow> client_turn_with j polled branch c = Turn_Continue c' \<Longrightarrow>
    client_step j (Serving c acc taken) (Serving c' (acc @ accepts j branch c) taken)"
| turn_breaks: "branch_enabled j polled branch c \<Longrightarrow> client_turn_with j polled branch c = Turn_Break r graceful c' \<Longrightarrow>
    client_step j (Serving c acc taken) (Ended (client_finish r graceful waited panicked))"

text \<open>A client starts to be served on whatever its stream holds after it was authenticated.\<close>

definition client_initial :: "client_state \<Rightarrow> bool" where
  "client_initial s = (\<exists>r. s = Serving (client_new r) [] [])"

definition client_inv :: "client_state \<Rightarrow> bool" where
  "client_inv s =
     (case s of
        Ended r \<Rightarrow> r \<noteq> Err TooManyOutstandingRequests
      | Serving c acc taken \<Rightarrow>
          bt_wf (cl_outstanding c) \<and> set (bt_keys (cl_outstanding c)) = fst ` set (cl_requests c) \<and>
          distinct (map fst (cl_requests c)) \<and> length (cl_requests c) \<le> MAX_OUTSTANDING_REQUESTS \<and>
          length (cl_queue c) \<le> OUTGOING_QUEUE_CAPACITY \<and>
          mset acc = mset (answered (taken @ cl_queue c)) + mset (map fst (cl_requests c)))"

section \<open>Example values\<close>

definition example_token :: string where
  "example_token = concat (map fmt_byte (replicate 32 10))"

definition example_hello_codec :: "client_message json" where
  "example_hello_codec = digit_codec [Client_Authenticate 1 example_token]"

definition example_stream :: chunk_reader where
  "example_stream = \<lparr>rd_bytes = [0, 0, 0, 1, 48], rd_end = Stalls, rd_chunks = [2]\<rparr>"

definition example_sink :: writer where
  "example_sink = \<lparr>wr_bytes = [], wr_room = 100, wr_end = Stalls\<rparr>"

definition example_client :: client where
  "example_client = client_new \<lparr>rd_bytes = [0, 0, 0], rd_end = Stalls, rd_chunks = []\<rparr>"

section \<open>Lemmas\<close>

lemma auth_fold:
  "length xs = length ys \<Longrightarrow>
    fold auth_step (zip xs ys) (v, s) =
      (v \<and> list_all is_lower_hex xs,
       fold (\<lambda>p difference. difference OR (fst p XOR snd p)) (zip (map of_char xs) (map of_char ys)) s)"
  by (induction xs ys arbitrary: v s rule: list_induct2) (simp_all add: auth_step_def)

lemma of_char_byte_inject: "map (of_char :: char \<Rightarrow> byte) xs = map of_char ys \<longleftrightarrow> xs = ys"
proof -
  have "unat (of_char c :: byte) = of_char c" for c
  proof -
    have "(of_char c :: byte) = of_nat (of_char c)" by (simp add: of_nat_of_char)
    moreover have "(of_char c :: nat) < 256" by (rule nat_of_char_less_256)
    ultimately show ?thesis by (simp add: unat_of_nat take_bit_eq_mod del: of_nat_of_char)
  qed
  then have "inj (of_char :: char \<Rightarrow> byte)"
    by (intro injI) (metis of_char_eq_iff)
  then show ?thesis by (simp add: inj_map_eq_map)
qed

lemma auth_matches_iff: "auth_matches encoded candidate \<longleftrightarrow> candidate = encoded \<and> list_all is_lower_hex candidate"
  using fold_differences [of "map of_char candidate" "map of_char encoded" 0]
  by (auto simp: auth_matches_def auth_fold of_char_byte_inject)

lemma generated_lower_hex:
  "hex_encode_ok hex_encode \<Longrightarrow> auth_generate hex_encode filled = Ok encoded \<Longrightarrow> list_all is_lower_hex encoded"
  by (cases filled) (auto simp: auth_generate_def hex_encode_ok_def list_all_iff dest: bspec [OF list_all_fmt_byte [unfolded list_all_iff]])

text \<open>A read that finds less than it needs on an open stream waits, and has taken what was there.\<close>

lemma read_until_eof_short:
  "length (rd_bytes r) < n \<Longrightarrow> rd_end r = Stalls \<Longrightarrow>
    \<exists>cs. read_until_eof n operation r = (Pending, r\<lparr>rd_bytes := [], rd_chunks := cs\<rparr>)"
proof (induction n operation r rule: read_until_eof.induct)
  case (1 n operation r)
  show ?case
  proof (cases "rd_bytes r = []")
    case True
    with "1.prems" show ?thesis
      by (intro exI [of _ "drop 1 (rd_chunks r)"]) (simp add: read_until_eof.simps read_some_def Let_def)
  next
    case False
    define k where "k = (case rd_chunks r of [] \<Rightarrow> n | c # _ \<Rightarrow> min n (max 1 c))"
    define r' where "r' = r\<lparr>rd_chunks := drop 1 (rd_chunks r), rd_bytes := drop k (rd_bytes r)\<rparr>"
    have n: "n \<noteq> 0" and k: "0 < k" using "1.prems" by (auto simp: k_def split: list.splits)
    have some: "read_some n r = (Ready (Ok (take k (rd_bytes r))), r')"
      using False by (simp add: read_some_def Let_def k_def r'_def)
    have room: "take k (rd_bytes r) \<noteq> []" "length (rd_bytes r') < n - length (take k (rd_bytes r))" "rd_end r' = Stalls"
      using k False "1.prems" by (auto simp: r'_def)
    obtain cs where "read_until_eof (n - length (take k (rd_bytes r))) operation r' = (Pending, r'\<lparr>rd_bytes := [], rd_chunks := cs\<rparr>)"
      using "1.IH" [OF n some [symmetric] refl refl, of r', OF room] by blast
    then have "read_until_eof n operation r = (Pending, r\<lparr>rd_bytes := [], rd_chunks := cs\<rparr>)"
      using n some room(1) by (subst read_until_eof.simps) (auto simp: io_bind_def r'_def)
    then show ?thesis by blast
  qed
qed

lemma read_partial_frame:
  assumes "encode_json_frame j v = Ok frame" and "k < length frame" and "rd_bytes r = take k frame" and "rd_end r = Stalls"
  shows "\<exists>cs. read_json_frame j r = (Pending, r\<lparr>rd_bytes := [], rd_chunks := cs\<rparr>)"
proof -
  obtain p where p: "length p \<le> MAX_IPC_FRAME_LEN" "frame = be_encode 4 (length p) @ p"
    using assms(1) by (auto simp: encode_json_frame_Ok)
  show ?thesis
  proof (cases "k < 4")
    case True
    then have "length (rd_bytes r) < 4" using assms(3) by simp
    from read_until_eof_short [OF this assms(4), of "''read prefix''"] show ?thesis
      by (auto simp: read_json_frame_def read_json_frame_with_limit_def)
  next
    case False
    then have r: "rd_bytes r = be_encode 4 (length p) @ take (k - 4) p" using assms(3) p(2) by simp
    obtain c1 where pre: "read_until_eof 4 ''read prefix'' r =
        (Ready (Ok (be_encode 4 (length p))), r\<lparr>rd_bytes := take (k - 4) p, rd_chunks := c1\<rparr>)"
      using read_prefix [OF r] by blast
    have "length (rd_bytes (r\<lparr>rd_bytes := take (k - 4) p, rd_chunks := c1\<rparr>)) < length p"
      using assms(2) p(2) False by simp
    from read_until_eof_short [OF this, of "''read payload''"] assms(4) obtain c2 where
      "read_until_eof (length p) ''read payload'' (r\<lparr>rd_bytes := take (k - 4) p, rd_chunks := c1\<rparr>) =
        (Pending, r\<lparr>rd_bytes := [], rd_chunks := c2\<rparr>)" by auto
    moreover have "be_decode (be_encode 4 (length p)) = length p"
      using p(1) by (simp add: be_decode_encode MAX_IPC_FRAME_LEN_def)
    ultimately show ?thesis
      using pre p(1) by (intro exI [of _ c2]) (simp add: read_json_frame_def read_json_frame_with_limit_def Let_def)
  qed
qed

section \<open>The invariant of a client\<close>

lemma answered_simps [simp]:
  "answered [] = []"
  "answered (xs @ ys) = answered xs @ answered ys"
  "answered [request_message i r] = [i]"
  "answered [Server_Event e] = []"
  by (simp_all add: answered_def request_message_def split: sum.splits daemon_handle_error.splits)

lemma client_send_Some:
  "client_send m c = Some c' \<longleftrightarrow>
    cl_writer_open c \<and> length (cl_queue c) < OUTGOING_QUEUE_CAPACITY \<and> c' = c\<lparr>cl_queue := cl_queue c @ [m]\<rparr>"
  by (auto simp: client_send_def)

text \<open>The invariant does not look at the stream.\<close>

lemma client_inv_reader: "client_inv (Serving (c\<lparr>cl_reader := r\<rparr>) acc taken) = client_inv (Serving c acc taken)"
  by (simp add: client_inv_def)

lemma poll_read_reader: "\<exists>r. snd (poll_read j c) = c\<lparr>cl_reader := r\<rparr>"
  by (auto simp: poll_read_def split: prod.splits)

lemma on_shutdown_inv: "client_inv (Serving c acc taken) \<Longrightarrow> on_shutdown b c = Turn_Continue c' \<Longrightarrow> client_inv (Serving c' acc taken)"
  by (auto simp: on_shutdown_def split: if_splits option.splits)

lemma on_event_inv: "client_inv (Serving c acc taken) \<Longrightarrow> on_event e c = Turn_Continue c' \<Longrightarrow> client_inv (Serving c' acc taken)"
proof (cases e)
  case (Recv_Event x)
  assume "client_inv (Serving c acc taken)" and "on_event e c = Turn_Continue c'"
  moreover from this Recv_Event obtain b where "c' = c\<lparr>cl_shutdown_queued := b, cl_queue := cl_queue c @ [Server_Event x]\<rparr>"
    and "length (cl_queue c) < OUTGOING_QUEUE_CAPACITY"
    by (auto simp: on_event_def client_send_Some Let_def split: option.splits)
  ultimately show ?thesis by (simp add: client_inv_def)
qed (simp_all add: on_event_def)

lemma remove_request:
  "distinct (map fst rs) \<Longrightarrow> i \<in> fst ` set rs \<Longrightarrow>
    mset (map fst rs) = {#i#} + mset (map fst (filter (\<lambda>e. fst e \<noteq> i) rs))"
proof (induction rs)
  case (Cons e rs)
  show ?case
  proof (cases "fst e = i")
    case True
    with Cons.prems have "i \<notin> fst ` set rs" by simp
    then have "filter (\<lambda>e. fst e \<noteq> i) rs = rs" unfolding filter_id_conv by (metis image_eqI)
    with True show ?thesis by simp
  next
    case False
    with Cons show ?thesis by auto
  qed
qed simp

lemma on_completed_inv:
  assumes "client_inv (Serving c acc taken)" and "i \<in> fst ` set (cl_requests c)" and "on_completed i r c = Turn_Continue c'"
  shows "client_inv (Serving c' acc taken)"
proof -
  have c': "c' = c\<lparr>cl_requests := filter (\<lambda>e. fst e \<noteq> i) (cl_requests c), cl_outstanding := bt_remove i (cl_outstanding c),
      cl_queue := cl_queue c @ [request_message i r]\<rparr>" and room: "length (cl_queue c) < OUTGOING_QUEUE_CAPACITY"
    using assms(3) by (auto simp: on_completed_def client_send_Some Let_def split: option.splits)
  have inv: "bt_wf (cl_outstanding c)" "set (bt_keys (cl_outstanding c)) = fst ` set (cl_requests c)"
    "distinct (map fst (cl_requests c))" "length (cl_requests c) \<le> MAX_OUTSTANDING_REQUESTS"
    "mset acc = mset (answered (taken @ cl_queue c)) + mset (map fst (cl_requests c))"
    using assms(1) by (auto simp: client_inv_def)
  have "set (bt_keys (bt_remove i (cl_outstanding c))) = fst ` {e \<in> set (cl_requests c). fst e \<noteq> i}"
    using inv(2) by (force simp: bt_keys_def)
  moreover have "length (filter (\<lambda>e. fst e \<noteq> i) (cl_requests c)) \<le> MAX_OUTSTANDING_REQUESTS"
    using inv(4) length_filter_le order_trans by blast
  ultimately show ?thesis
    using c' room inv remove_request [OF inv(3) assms(2)] by (simp add: client_inv_def bt_wf_remove distinct_map_filter)
qed

lemma on_message_inv:
  assumes "client_inv (Serving c acc taken)" and "reading c" and "on_message m c = Turn_Continue c'"
  shows "client_inv (Serving c' (acc @ (case m of Ok (Client_Request i _) \<Rightarrow> [i] | _ \<Rightarrow> [])) taken)"
proof -
  obtain i request where m: "m = Ok (Client_Request i request)" and new: "i \<notin> set (bt_keys (cl_outstanding c))"
    and c': "c' = c\<lparr>cl_outstanding := bt_insert i () (cl_outstanding c), cl_requests := cl_requests c @ [(i, request)]\<rparr>"
    using assms(3) by (auto simp: on_message_def bt_contains_iff split: sum.splits client_message.splits ipc_frame_error.splits if_splits)
  from assms(1,2) new show ?thesis
    by (auto simp: m c' client_inv_def reading_def bt_wf_insert set_bt_keys_insert)
qed

lemma turn_inv:
  assumes inv: "client_inv (Serving c acc taken)" and "branch_enabled j polled branch c"
    and "client_turn_with j polled branch c = Turn_Continue c'"
  shows "client_inv (Serving c' (acc @ accepts j branch c) taken)"
proof -
  define c1 where "c1 = (if polled then snd (poll_read j c) else c)"
  obtain r where r: "c1 = c\<lparr>cl_reader := r\<rparr>"
  proof (cases polled)
    case True
    then show ?thesis using poll_read_reader [of j c] that by (auto simp: c1_def)
  next
    case False
    then show ?thesis using that [of "cl_reader c"] by (simp add: c1_def)
  qed
  then have inv1: "client_inv (Serving c1 acc taken)" using inv by (simp add: client_inv_reader)
  have turn: "run_branch (fst (poll_read j c)) branch c1 = Turn_Continue c'"
    using assms(3) by (cases "poll_read j c") (auto simp: client_turn_with_def c1_def split: if_splits)
  show ?thesis
  proof (cases branch)
    case (Sel_Shutdown b)
    with turn on_shutdown_inv [OF inv1] show ?thesis by (simp add: run_branch_def accepts_def)
  next
    case (Sel_Writer w)
    with turn show ?thesis by (simp add: run_branch_def)
  next
    case (Sel_Event e)
    with turn on_event_inv [OF inv1] show ?thesis by (simp add: run_branch_def accepts_def)
  next
    case (Sel_Completed i res)
    with assms(2) have "i \<in> fst ` set (cl_requests c1)" by (simp add: branch_enabled_def r)
    with Sel_Completed turn on_completed_inv [OF inv1] show ?thesis by (simp add: run_branch_def accepts_def)
  next
    case Sel_Frame
    with assms(2) obtain m where m: "fst (poll_read j c) = Ready m" and "reading c"
      by (cases "fst (poll_read j c)") (auto simp: branch_enabled_def)
    then have "reading c1" by (simp add: r reading_def)
    from on_message_inv [OF inv1 this, of m c'] Sel_Frame m turn show ?thesis
      by (simp add: run_branch_def accepts_def split: sum.splits client_message.splits)
  next
    case Sel_Else
    with turn show ?thesis by (simp add: run_branch_def split: if_splits)
  qed
qed

lemma break_reason:
  assumes "branch_enabled j polled branch c" and "client_turn_with j polled branch c = Turn_Break r graceful c'"
  shows "client_finish r graceful waited panicked \<noteq> Err TooManyOutstandingRequests"
proof -
  have "branch \<noteq> Sel_Else" using assms(1) by (auto simp: branch_enabled_def branch_guards_def)
  moreover obtain read c1 where "run_branch read branch c1 = Turn_Break r graceful c'"
    using assms(2) by (auto simp: client_turn_with_def split: prod.splits)
  ultimately have "r \<noteq> Err TooManyOutstandingRequests"
    by (auto simp: run_branch_def on_shutdown_def on_event_def on_completed_def on_message_def writer_result_def Let_def
        split: select_branch.splits if_splits option.splits event_recv.splits poll.splits sum.splits client_message.splits
          ipc_frame_error.splits writer_outcome.splits)
  then show ?thesis
    by (auto simp: client_finish_def Let_def writer_result_def split: if_splits option.splits writer_outcome.splits)
qed

lemma client_step_inv: "client_step j s t \<Longrightarrow> client_inv s \<Longrightarrow> client_inv t"
proof (induction rule: client_step.induct)
  case (writer_takes c m ms acc taken)
  then show ?case by (simp add: client_inv_def answered_def)
next
  case (turn_breaks polled branch c r graceful c' acc taken waited panicked)
  from break_reason [OF turn_breaks(1,2)] show ?case by (simp add: client_inv_def)
next
  case (writer_ends c acc taken)
  then show ?case by (simp add: client_inv_def)
qed (auto simp: client_inv_reader turn_inv)

lemma client_initial_inv: "client_initial s \<Longrightarrow> client_inv s"
  by (auto simp: client_initial_def client_new_def client_inv_def)

interpretation client_machine: invariant_machine client_initial "client_step j" client_inv for j
  by unfold_locales (blast intro: client_initial_inv client_step_inv)+

text \<open>An event that arrives while part of a frame has been read.\<close>

lemma event_turn:
  assumes "encode_json_frame j v = Ok frame" and "k < length frame" and "rd_bytes (cl_reader c) = take k frame"
    and "rd_end (cl_reader c) = Stalls" and "reading c" and "cl_writer_open c"
    and "length (cl_queue c) < OUTGOING_QUEUE_CAPACITY"
  shows "branch_enabled j True (Sel_Event (Recv_Event e)) c"
    and "\<exists>c'. client_turn_with j True (Sel_Event (Recv_Event e)) c = Turn_Continue c' \<and> rd_bytes (cl_reader c') = [] \<and>
      rd_end (cl_reader c') = Stalls \<and> cl_requests c' = cl_requests c \<and> cl_outstanding c' = cl_outstanding c"
proof -
  obtain cs where poll: "poll_read j c = (Pending, c\<lparr>cl_reader := (cl_reader c)\<lparr>rd_bytes := [], rd_chunks := cs\<rparr>\<rparr>)"
    using read_partial_frame [OF assms(1-4)] by (auto simp: poll_read_def)
  then show "branch_enabled j True (Sel_Event (Recv_Event e)) c" using assms(5) by (simp add: branch_enabled_def)
  show "\<exists>c'. client_turn_with j True (Sel_Event (Recv_Event e)) c = Turn_Continue c' \<and> rd_bytes (cl_reader c') = [] \<and>
      rd_end (cl_reader c') = Stalls \<and> cl_requests c' = cl_requests c \<and> cl_outstanding c' = cl_outstanding c"
    using poll assms(4,6,7) by (simp add: client_turn_with_def run_branch_def on_event_def client_send_def Let_def)
qed

lemma authentication_gate:
  assumes "hex_encode_ok hex_encode" and "auth_generate hex_encode filled = Ok encoded"
    and "authenticate_client jc js flushed encoded r w = (result, r', w')"
  shows "(result = Ok () \<longrightarrow> read_json_frame jc r = (Ready (Ok (Client_Authenticate IPC_PROTOCOL_VERSION encoded)), r')) \<and>
    (fst (read_json_frame jc r) \<noteq> Ready (Ok (Client_Authenticate IPC_PROTOCOL_VERSION encoded)) \<longrightarrow>
      result \<noteq> Ok () \<and> w' = w)"
proof -
  have exact: "auth_matches encoded token \<longleftrightarrow> token = encoded" for token
    using generated_lower_hex [OF assms(1,2)] by (auto simp: auth_matches_iff)
  define p where "p = fst (read_json_frame jc r)"
  define r1 where "r1 = snd (read_json_frame jc r)"
  have read: "read_json_frame jc r = (p, r1)" by (simp add: p_def r1_def)
  show ?thesis
  proof (cases "p = Ready (Ok (Client_Authenticate IPC_PROTOCOL_VERSION encoded))")
    case True
    define q where "q = write_json_frame js flushed (Server_Authenticated IPC_PROTOCOL_VERSION) w"
    have "authenticate_client jc js flushed encoded r w =
        (case q of
           (Pending, w') \<Rightarrow> (Err AuthenticationTimeout, r1, w')
         | (Ready (Err e), w') \<Rightarrow> (Err (Client_Frame e), r1, w')
         | (Ready (Ok _), w') \<Rightarrow> (Ok (), r1, w'))"
      using True by (simp add: authenticate_client_def exact read q_def [symmetric])
    with assms(3) have "r' = r1" by (cases q; cases "fst q") (auto split: sum.splits)
    with True read show ?thesis by simp
  next
    case False
    with assms(3) read have "result \<noteq> Ok () \<and> w' = w"
      by (simp add: authenticate_client_def exact split: poll.splits sum.splits client_message.splits if_splits) auto
    with read show ?thesis by simp
  qed
qed

lemma example_authenticates:
  "auth_generate (\<lambda>bs. concat (map fmt_byte bs)) (Some (replicate 32 10)) = Ok example_token"
  "\<exists>r' w'. authenticate_client example_hello_codec (digit_codec [Server_Authenticated 1]) (Ready (Ok ())) example_token
      example_stream example_sink = (Ok (), r', w')"
proof -
  show gen: "auth_generate (\<lambda>bs. concat (map fmt_byte bs)) (Some (replicate 32 10)) = Ok example_token"
    by (simp add: auth_generate_def example_token_def)
  have "encode_json_frame example_hello_codec (Client_Authenticate 1 example_token) = Ok [0, 0, 0, 1, 48]"
    by (simp add: encode_json_frame_Ok digit_codec_def example_hello_codec_def MAX_IPC_FRAME_LEN_def be_encode_numeral)
  from read_encoded_frame [OF digit_codec_ok [of "[Client_Authenticate 1 example_token]", folded example_hello_codec_def] this, of example_stream "[]"]
  obtain cs where read: "read_json_frame example_hello_codec example_stream =
      (Ready (Ok (Client_Authenticate 1 example_token)), example_stream\<lparr>rd_bytes := [], rd_chunks := cs\<rparr>)"
    by (auto simp: example_stream_def)
  obtain w' where wrote: "write_json_frame (digit_codec [Server_Authenticated 1]) (Ready (Ok ())) (Server_Authenticated 1) example_sink = (Ready (Ok ()), w')"
    by (simp add: write_json_frame_def encode_json_frame_def encode_json_frame_with_limit_def digit_codec_def MAX_IPC_FRAME_LEN_def
        example_sink_def write_all_def io_map_err_def io_bind_def)
  have "auth_matches example_token example_token"
    using generated_lower_hex [OF _ gen] by (simp add: hex_encode_ok_def auth_matches_iff)
  then show "\<exists>r' w'. authenticate_client example_hello_codec (digit_codec [Server_Authenticated 1]) (Ready (Ok ())) example_token
      example_stream example_sink = (Ok (), r', w')"
    by (simp add: authenticate_client_def read wrote IPC_PROTOCOL_VERSION_def)
qed

section \<open>Properties\<close>

text \<open>
  The constant-time comparison of the runtime token is equality. A token made from random bytes matches a
  candidate exactly when the candidate is that token.
\<close>

theorem auth_token_exact:
  assumes "hex_encode_ok hex_encode" and "auth_generate hex_encode filled = Ok encoded"
  shows "auth_matches encoded candidate \<longleftrightarrow> candidate = encoded"
  using generated_lower_hex [OF assms] by (auto simp: auth_matches_iff)

theorem auth_token_exact_witness:
  "auth_matches example_token example_token \<and> \<not> auth_matches example_token ''guess''"
proof -
  have gen: "auth_generate (\<lambda>bs. concat (map fmt_byte bs)) (Some (replicate 32 10)) = Ok example_token"
    by (simp add: auth_generate_def example_token_def)
  have "length ''guess'' \<noteq> length example_token"
    by (simp add: example_token_def fmt_byte_def length_concat comp_def sum_list_replicate)
  then have "''guess'' \<noteq> example_token" by metis
  then show ?thesis using auth_token_exact [OF _ gen] by (simp add: hex_encode_ok_def)
qed

text \<open>
  Only the holder of the runtime token is served. A client is admitted only if its first frame is an
  authentication of this protocol version with exactly the token, and until then nothing is written to it: every
  refusal for any other first frame leaves the stream to the client as it was.
\<close>

theorem ipc_authentication_gate:
  assumes "hex_encode_ok hex_encode" and "auth_generate hex_encode filled = Ok encoded"
    and "authenticate_client jc js flushed encoded r w = (result, r', w')"
  shows "(result = Ok () \<longrightarrow> read_json_frame jc r = (Ready (Ok (Client_Authenticate IPC_PROTOCOL_VERSION encoded)), r')) \<and>
    (fst (read_json_frame jc r) \<noteq> Ready (Ok (Client_Authenticate IPC_PROTOCOL_VERSION encoded)) \<longrightarrow>
      result \<noteq> Ok () \<and> w' = w)"
  by (rule authentication_gate [OF assms])

theorem ipc_authentication_gate_witness:
  "\<exists>r' w'. authenticate_client example_hello_codec (digit_codec [Server_Authenticated 1]) (Ready (Ok ())) example_token
      example_stream example_sink = (Ok (), r', w') \<and>
    read_json_frame example_hello_codec example_stream = (Ready (Ok (Client_Authenticate IPC_PROTOCOL_VERSION example_token)), r')"
  using example_authenticates(2) ipc_authentication_gate [OF _ example_authenticates(1)] by (fastforce simp: hex_encode_ok_def)

text \<open>
  C12: the bookkeeping of a local client is exact in every reachable state. At most 16 requests are in progress, their
  identifiers are distinct and are the outstanding set, at most 64 messages wait for the writer, and every
  request accepted so far has been answered exactly once or is still in progress; no client ends for having too many
  requests.
\<close>

theorem ipc_requests_answered_once:
  assumes "reachable client_initial (client_step j) s"
  shows "client_inv s"
  using assms by (rule client_machine.reachable_inv)

theorem ipc_requests_answered_once_witness:
  "\<exists>c. client_inv (Serving c [7] []) \<and> cl_requests c = [(7, Req_GetStatus)]"
proof -
  let ?j = "digit_codec example_requests"
  let ?c = "client_new \<lparr>rd_bytes = [0, 0, 0, 1, 48], rd_end = Stalls, rd_chunks = []\<rparr>"
  have "encode_json_frame ?j (Client_Request 7 Req_GetStatus) = Ok [0, 0, 0, 1, 48]"
    by (simp add: encode_json_frame_Ok digit_codec_def example_requests_def MAX_IPC_FRAME_LEN_def be_encode_numeral)
  from read_encoded_frame [OF digit_codec_ok this, of "cl_reader ?c" "[]"]
  obtain cs where poll: "poll_read ?j ?c = (Ready (Ok (Client_Request 7 Req_GetStatus)), ?c\<lparr>cl_reader := \<lparr>rd_bytes = [], rd_end = Stalls, rd_chunks = cs\<rparr>\<rparr>)"
    by (auto simp: poll_read_def client_new_def)
  define c where "c = client_new \<lparr>rd_bytes = [], rd_end = Stalls, rd_chunks = cs\<rparr>
      \<lparr>cl_outstanding := [(7, ())], cl_requests := [(7, Req_GetStatus)]\<rparr>"
  have "branch_enabled ?j True Sel_Frame ?c" using poll by (simp add: branch_enabled_def reading_def client_new_def MAX_OUTSTANDING_REQUESTS_def)
  moreover have "client_turn_with ?j True Sel_Frame ?c = Turn_Continue c"
    using poll by (simp add: client_turn_with_def run_branch_def on_message_def bt_contains_def client_new_def c_def)
  ultimately have "client_step ?j (Serving ?c [] []) (Serving c ([] @ accepts ?j Sel_Frame ?c) [])" by (rule turn_goes_on)
  moreover have "reachable client_initial (client_step ?j) (Serving ?c [] [])"
    by (rule reach_init) (auto simp: client_initial_def)
  ultimately have "reachable client_initial (client_step ?j) (Serving c [7] [])"
    using poll reach_step by (fastforce simp: accepts_def)
  from ipc_requests_answered_once [OF this] show ?thesis by (intro exI [of _ c]) (simp add: c_def)
qed

text \<open>
  A frame is lost when something else happens while it arrives. If only part of an encoded message has arrived
  and an event is announced, the loop may take the event after polling the read; the bytes that the read had consumed
  are then gone and nothing was registered, so the rest of the message is read as the start of another frame.
\<close>

theorem ipc_interrupted_frame_lost:
  assumes "encode_json_frame j v = Ok frame" and "k < length frame" and "rd_bytes (cl_reader c) = take k frame"
    and "rd_end (cl_reader c) = Stalls" and "reading c" and "cl_writer_open c"
    and "length (cl_queue c) < OUTGOING_QUEUE_CAPACITY"
  shows "\<exists>c'. client_step j (Serving c acc taken) (Serving c' acc taken) \<and>
    rd_bytes (cl_reader c') = [] \<and> rd_end (cl_reader c') = Stalls \<and> cl_requests c' = cl_requests c"
proof -
  note event = event_turn [OF assms, of Ev_DaemonShuttingDown]
  obtain c' where c': "client_turn_with j True (Sel_Event (Recv_Event Ev_DaemonShuttingDown)) c = Turn_Continue c'"
      "rd_bytes (cl_reader c') = []" "rd_end (cl_reader c') = Stalls" "cl_requests c' = cl_requests c"
    using event(2) by blast
  have "client_step j (Serving c acc taken) (Serving c' (acc @ accepts j (Sel_Event (Recv_Event Ev_DaemonShuttingDown)) c) taken)"
    by (rule turn_goes_on [OF event(1) c'(1)])
  then show ?thesis using c'(2-4) by (auto simp: accepts_def)
qed

text \<open>
  What follows for a client that did nothing wrong: three bytes of a request arrive, an event comes, the rest of the
  request and a second one arrive, and the client is dropped for a frame of more than nineteen million bytes.
\<close>

theorem ipc_interrupted_client_dropped:
  assumes "j = digit_codec example_requests"
  shows "\<exists>c1 c2. client_step j (Serving example_client [] []) (Serving c1 [] []) \<and>
    client_step j (Serving c1 [] []) (Serving c2 [] []) \<and>
    client_step j (Serving c2 [] []) (Ended (Err (Client_Frame (Ipc_FrameTooLarge 19922944 MAX_IPC_FRAME_LEN))))"
proof -
  have first: "encode_json_frame j (Client_Request 7 Req_GetStatus) = Ok [0, 0, 0, 1, 48]"
    by (simp add: assms encode_json_frame_Ok digit_codec_def example_requests_def MAX_IPC_FRAME_LEN_def be_encode_numeral)
  have ready: "reading example_client" "cl_writer_open example_client" "length (cl_queue example_client) < OUTGOING_QUEUE_CAPACITY"
    "rd_bytes (cl_reader example_client) = take 3 [0, 0, 0, 1, 48]" "rd_end (cl_reader example_client) = Stalls"
    by (simp_all add: example_client_def client_new_def reading_def MAX_OUTSTANDING_REQUESTS_def OUTGOING_QUEUE_CAPACITY_def)
  obtain c1 where c1: "client_step j (Serving example_client [] []) (Serving c1 [] [])"
      "rd_bytes (cl_reader c1) = []" "rd_end (cl_reader c1) = Stalls" "cl_requests c1 = []"
    using ipc_interrupted_frame_lost [OF first _ ready(4,5,1,2,3), of "[]" "[]"] by (auto simp: example_client_def client_new_def)
  define c2 where "c2 = c1\<lparr>cl_reader := (cl_reader c1)\<lparr>rd_bytes := rd_bytes (cl_reader c1) @ [1, 48, 0, 0, 0, 1, 49]\<rparr>\<rparr>"
  have arrives: "client_step j (Serving c1 [] []) (Serving c2 [] [])" unfolding c2_def by (rule bytes_arrive [OF c1(3)])
  have "rd_bytes (cl_reader c2) = be_encode 4 19922944 @ [0, 1, 49]" by (simp add: c2_def c1(2) be_encode_numeral)
  from read_oversized_frame [OF _ _ this, of j] have "fst (poll_read j c2) = Ready (Err (Ipc_FrameTooLarge 19922944 MAX_IPC_FRAME_LEN))"
    by (auto simp: poll_read_def MAX_IPC_FRAME_LEN_def)
  moreover have "reading c2" by (simp add: c2_def reading_def c1(4) MAX_OUTSTANDING_REQUESTS_def)
  ultimately have "branch_enabled j True Sel_Frame c2"
    "\<exists>c3. client_turn_with j True Sel_Frame c2 = Turn_Break (Err (Client_Frame (Ipc_FrameTooLarge 19922944 MAX_IPC_FRAME_LEN))) False c3"
    by (auto simp: branch_enabled_def client_turn_with_def run_branch_def on_message_def split: prod.splits)
  then obtain c3 where "client_step j (Serving c2 [] []) (Ended (client_finish
      (Err (Client_Frame (Ipc_FrameTooLarge 19922944 MAX_IPC_FRAME_LEN))) False None False))"
    using turn_breaks by blast
  then have "client_step j (Serving c2 [] []) (Ended (Err (Client_Frame (Ipc_FrameTooLarge 19922944 MAX_IPC_FRAME_LEN))))"
    by (simp add: client_finish_def)
  with c1(1) arrives show ?thesis by blast
qed

end
