(* ===== verification/Daemon_Start.thy ===== *)
theory Daemon_Start
  imports Ipc_Server
begin

text \<open>
  The private files of a daemon (\<open>crates/rift-daemon/src/local.rs\<close>) and starting it (\<open>Daemon::start\<close> of
  \<open>crates/rift-daemon/src/lib.rs\<close>): the data directory, the lock that makes the process its only owner, the runtime
  descriptor and socket, the device identity and the trust journal. The model is the Unix one. The lock of the
  operating system is a flag next to the disk; binding the network endpoint is iroh's and its outcome an input.
\<close>

section \<open>Names, descriptors and the state\<close>

definition IDENTITY_FILE_NAME :: string where
  "IDENTITY_FILE_NAME = ''identity.key''"

definition TRUST_FILE_NAME :: string where
  "TRUST_FILE_NAME = ''trust.journal''"

definition LOCK_FILE_NAME :: string where
  "LOCK_FILE_NAME = ''runtime.lock''"

definition DESCRIPTOR_FILE_NAME :: string where
  "DESCRIPTOR_FILE_NAME = ''runtime.json''"

definition SOCKET_FILE_NAME :: string where
  "SOCKET_FILE_NAME = ''ipc.sock''"

datatype local_transport = Transport_Unix | Transport_NamedPipe

record local_endpoint_descriptor =
  le_transport :: local_transport
  le_address :: string

record runtime_descriptor =
  rd_descriptor_version :: u16
  rd_pid :: nat
  rd_runtime_id :: string
  rd_ipc :: local_endpoint_descriptor
  rd_auth_token :: string

record runtime_artifacts =
  ra_descriptor_path :: fpath
  ra_socket_path :: fpath

text \<open>The disk, and whether some process holds the lock of the data directory.\<close>

record host =
  hs_disk :: disk
  hs_locked :: bool

section \<open>Permissions\<close>

definition dae_io :: "(string \<Rightarrow> 'a fs_call) \<Rightarrow> string \<Rightarrow> disk \<Rightarrow> (daemon_error, 'a) result \<times> disk" where
  "dae_io call operation d = (case call operation d of (r, d') \<Rightarrow> (map_err (Dae_Io operation) r, d'))"

definition apply_directory_permissions :: "fpath \<Rightarrow> disk \<Rightarrow> (daemon_error, unit) result \<times> disk" where
  "apply_directory_permissions p = dae_io (\<lambda>op. fs_set_permissions op 448 p) ''set data directory permissions''"

definition verify_directory_permissions :: "fpath \<Rightarrow> disk \<Rightarrow> (daemon_error, unit) result \<times> disk" where
  "verify_directory_permissions p =
     st_bind (dae_io (\<lambda>op. fs_metadata op p) ''inspect data directory permissions'') (\<lambda>n.
     let mode = fn_mode n AND 511 in
     Pair (if mode \<noteq> 448 then Err (Dae_InsecurePermissions p mode 448) else Ok ()))"

definition apply_file_permissions :: "fpath \<Rightarrow> disk \<Rightarrow> (daemon_error, unit) result \<times> disk" where
  "apply_file_permissions p = dae_io (\<lambda>op. fs_set_permissions op 384 p) ''set private file permissions''"

definition verify_file_permissions :: "fpath \<Rightarrow> disk \<Rightarrow> (daemon_error, unit) result \<times> disk" where
  "verify_file_permissions p =
     st_bind (dae_io (\<lambda>op. fs_metadata op p) ''inspect private file permissions'') (\<lambda>n.
     let mode = fn_mode n AND 511 in
     Pair (if mode \<noteq> 384 then Err (Dae_InsecurePermissions p mode 384) else Ok ()))"

section \<open>The data directory and its lock\<close>

definition prepare_data_directory :: "fpath \<Rightarrow> disk \<Rightarrow> (daemon_error, unit) result \<times> disk" where
  "prepare_data_directory path =
     st_bind (dae_io (fs_create_dir_all path) ''create data directory'') (\<lambda>_.
     st_bind (dae_io (\<lambda>op. fs_metadata op path) ''inspect data directory'') (\<lambda>metadata.
     if fn_kind metadata \<noteq> Directory
     then Pair (Err (Dae_InvalidDataDirectory ''data directory path is not a directory''))
     else st_bind (apply_directory_permissions path) (\<lambda>_.
          st_bind (verify_directory_permissions path) (\<lambda>_. Pair (Ok ())))))"

definition lock_acquire :: "string \<Rightarrow> host \<Rightarrow> (daemon_error, unit) result \<times> host" where
  "lock_acquire data_dir h =
     (let path = join data_dir LOCK_FILE_NAME in
      case st_bind (dae_io (\<lambda>op. fs_open_or_create op 384 path) ''open runtime lock'') (\<lambda>_. apply_file_permissions path) (hs_disk h) of
        (Err e, d) \<Rightarrow> (Err e, h\<lparr>hs_disk := d\<rparr>)
      | (Ok _, d) \<Rightarrow>
          if hs_locked h then (Err Dae_AlreadyRunning, h\<lparr>hs_disk := d\<rparr>)
          else (case dk_faults d ''acquire runtime lock'' of
              Some e \<Rightarrow> (Err (Dae_Io ''acquire runtime lock'' e), h\<lparr>hs_disk := d\<rparr>)
            | None \<Rightarrow> (Ok (), h\<lparr>hs_disk := d, hs_locked := True\<rparr>)))"

definition lock_release :: "host \<Rightarrow> (daemon_error, unit) result \<times> host" where
  "lock_release h =
     (case dk_faults (hs_disk h) ''release runtime lock'' of
        Some e \<Rightarrow> (Err (Dae_Io ''release runtime lock'' e), h)
      | None \<Rightarrow> (Ok (), h\<lparr>hs_locked := False\<rparr>))"

section \<open>Runtime artifacts\<close>

definition remove_if_present :: "fpath \<Rightarrow> string \<Rightarrow> disk \<Rightarrow> (daemon_error, unit) result \<times> disk" where
  "remove_if_present p operation d =
     (case fs_remove_file operation p d of
        (Ok _, d') \<Rightarrow> (Ok (), d')
      | (Err e, d') \<Rightarrow> if e = NotFound then (Ok (), d') else (Err (Dae_Io operation e), d'))"

definition artifacts_prepare :: "string \<Rightarrow> disk \<Rightarrow> (daemon_error, runtime_artifacts) result \<times> disk" where
  "artifacts_prepare data_dir =
     (let descriptor_path = join data_dir DESCRIPTOR_FILE_NAME; socket_path = join data_dir SOCKET_FILE_NAME in
      st_bind (remove_if_present descriptor_path ''remove stale runtime descriptor'') (\<lambda>_.
      st_bind (remove_if_present socket_path ''remove stale IPC socket'') (\<lambda>_.
      Pair (Ok \<lparr>ra_descriptor_path = descriptor_path, ra_socket_path = socket_path\<rparr>))))"

definition unpublish_descriptor :: "runtime_artifacts \<Rightarrow> disk \<Rightarrow> (daemon_error, unit) result \<times> disk" where
  "unpublish_descriptor arts = remove_if_present (ra_descriptor_path arts) ''remove runtime descriptor''"

definition artifacts_cleanup :: "runtime_artifacts \<Rightarrow> disk \<Rightarrow> (daemon_error, unit) result \<times> disk" where
  "artifacts_cleanup arts =
     st_bind (unpublish_descriptor arts) (\<lambda>_.
     st_bind (remove_if_present (ra_socket_path arts) ''remove IPC socket'') (\<lambda>_. Pair (Ok ())))"

definition artifacts_drop :: "runtime_artifacts \<Rightarrow> disk \<Rightarrow> disk" where
  "artifacts_drop arts d =
     snd (remove_if_present (ra_socket_path arts) ''remove IPC socket''
       (snd (remove_if_present (ra_descriptor_path arts) ''remove runtime descriptor'' d)))"

definition local_sync_parent :: "fpath \<Rightarrow> disk \<Rightarrow> (daemon_error, unit) result \<times> disk" where
  "local_sync_parent path d =
     (if fp_parent path = None then (Err (Dae_InvalidDataDirectory ''runtime descriptor has no parent directory''), d)
      else dae_io fs_fault ''sync runtime directory'' d)"

text \<open>The guard of the temporary file removes it, ignoring the outcome, unless it was renamed away.\<close>

definition temporary_drop :: "fpath \<Rightarrow> disk \<Rightarrow> disk" where
  "temporary_drop p d = snd (fs_remove_file ''drop temporary file'' p d)"

definition fill_private :: "bytes \<Rightarrow> fpath \<Rightarrow> disk \<Rightarrow> (daemon_error, unit) result \<times> disk" where
  "fill_private bs p =
     st_bind (dae_io (\<lambda>op. fs_create_new op 384 p) ''create runtime descriptor temporary file'') (\<lambda>_.
     st_bind (dae_io (\<lambda>op. fs_write op bs p) ''write runtime descriptor'') (\<lambda>_.
     st_bind (dae_io fs_fault ''flush runtime descriptor'') (\<lambda>_.
     st_bind (dae_io fs_fault ''sync runtime descriptor'') (\<lambda>_.
     st_bind (apply_file_permissions p) (\<lambda>_. verify_file_permissions p)))))"

definition write_atomic_private :: "nat \<Rightarrow> fpath \<Rightarrow> bytes \<Rightarrow> disk \<Rightarrow> (daemon_error, unit) result \<times> disk" where
  "write_atomic_private pid path bs d =
     (case fp_name path of
        None \<Rightarrow> (Err (Dae_InvalidDataDirectory ''runtime descriptor path has no UTF-8 file name''), d)
      | Some file_name \<Rightarrow>
          (case next_temporary pid file_name path d of
             (temporary_path, d1) \<Rightarrow>
               (case st_bind (fill_private bs temporary_path)
                       (\<lambda>_. dae_io (\<lambda>op. fs_rename op temporary_path path) ''publish runtime descriptor'') d1 of
                  (Err e, d2) \<Rightarrow> (Err e, temporary_drop temporary_path d2)
                | (Ok _, d2) \<Rightarrow> st_bind (local_sync_parent path) (\<lambda>_. verify_file_permissions path) d2)))"

text \<open>\<open>to_vec_pretty\<close> is serde_json's; \<open>None\<close> is its error.\<close>

definition publish ::
  "(runtime_descriptor \<Rightarrow> bytes option) \<Rightarrow> nat \<Rightarrow> runtime_artifacts \<Rightarrow> runtime_descriptor \<Rightarrow> disk \<Rightarrow>
     (daemon_error, unit) result \<times> disk" where
  "publish to_vec_pretty pid arts descriptor d =
     (case to_vec_pretty descriptor of
        None \<Rightarrow> (Err Dae_DescriptorEncode, d)
      | Some bs \<Rightarrow> write_atomic_private pid (ra_descriptor_path arts) bs d)"

section \<open>The local listener\<close>

definition unix_socket_path_max :: nat where
  "unix_socket_path_max = 107"

text \<open>The text of a path below the data directory; \<open>utf8\<close> says whether it is valid UTF-8.\<close>

definition path_text :: "fpath \<Rightarrow> string" where
  "path_text p = (case fp_parent p of None \<Rightarrow> [] | Some dir \<Rightarrow> dir @ ''/'') @ (case fp_name p of None \<Rightarrow> [] | Some n \<Rightarrow> n)"

definition fs_bind_socket :: "fpath \<Rightarrow> string \<Rightarrow> unit fs_call" where
  "fs_bind_socket p operation =
     st_bind (fs_fault operation) (\<lambda>_ d.
     if dk_nodes d p \<noteq> None then (Err (IoKind 98), d)
     else (Ok (), put_node p (Some \<lparr>fn_kind = Special, fn_bytes = [], fn_mode = 511 AND NOT (dk_umask d)\<rparr>) d))"

definition listener_bind ::
  "(string \<Rightarrow> bool) \<Rightarrow> runtime_artifacts \<Rightarrow> disk \<Rightarrow> (daemon_error, local_endpoint_descriptor) result \<times> disk" where
  "listener_bind utf8 arts =
     (let path = ra_socket_path arts; actual = length (path_text path) in
      if unix_socket_path_max < actual then Pair (Err (Dae_IpcAddressTooLong actual unix_socket_path_max))
      else st_bind (dae_io (fs_bind_socket path) ''bind Unix IPC socket'') (\<lambda>_.
           st_bind (apply_file_permissions path) (\<lambda>_.
           st_bind (verify_file_permissions path) (\<lambda>_.
           Pair (if \<not> utf8 (path_text path) then Err Dae_NonUtf8IpcAddress
                 else Ok \<lparr>le_transport = Transport_Unix, le_address = path_text path\<rparr>)))))"

section \<open>The default configuration\<close>

definition DEFAULT_CONNECTION_TIMEOUT :: nat where
  "DEFAULT_CONNECTION_TIMEOUT = 10 * 10 ^ 9"

definition DEFAULT_HANDSHAKE_TIMEOUT :: nat where
  "DEFAULT_HANDSHAKE_TIMEOUT = 10 * 10 ^ 9"

definition DEFAULT_PAIRING_TIMEOUT :: nat where
  "DEFAULT_PAIRING_TIMEOUT = 60 * 10 ^ 9"

definition DEFAULT_MAX_INFLIGHT_CONNECTIONS :: nat where
  "DEFAULT_MAX_INFLIGHT_CONNECTIONS = 32"

definition DEFAULT_MAX_ACTIVE_SESSIONS :: nat where
  "DEFAULT_MAX_ACTIVE_SESSIONS = 64"

definition DEFAULT_MAX_PENDING_PAIRINGS :: nat where
  "DEFAULT_MAX_PENDING_PAIRINGS = 8"

definition DEFAULT_MAX_IPC_CLIENTS :: nat where
  "DEFAULT_MAX_IPC_CLIENTS = 8"

definition DEFAULT_SHUTDOWN_TIMEOUT :: nat where
  "DEFAULT_SHUTDOWN_TIMEOUT = 10 * 10 ^ 9"

definition DEFAULT_MAX_OUTBOUND_CONNECTS :: nat where
  "DEFAULT_MAX_OUTBOUND_CONNECTS = 8"

text \<open>\<open>os\<close> is \<open>std::env::consts::OS\<close>; the directory is an argument of \<open>start\<close>, the relay and bind settings are inside \<open>sv_bind\<close>.\<close>

definition daemon_config_new :: "string \<Rightarrow> string \<Rightarrow> daemon_config" where
  "daemon_config_new os device_name =
     \<lparr>dc_device_name = device_name, dc_platform = os, dc_connection_timeout = DEFAULT_CONNECTION_TIMEOUT,
      dc_handshake_timeout = DEFAULT_HANDSHAKE_TIMEOUT, dc_pairing_timeout = DEFAULT_PAIRING_TIMEOUT,
      dc_max_inflight_connections = DEFAULT_MAX_INFLIGHT_CONNECTIONS, dc_max_active_sessions = DEFAULT_MAX_ACTIVE_SESSIONS,
      dc_max_outbound_connects = DEFAULT_MAX_OUTBOUND_CONNECTS, dc_max_pending_pairings = DEFAULT_MAX_PENDING_PAIRINGS,
      dc_max_ipc_clients = DEFAULT_MAX_IPC_CLIENTS, dc_shutdown_timeout = DEFAULT_SHUTDOWN_TIMEOUT\<rparr>"

section \<open>Starting\<close>

text \<open>\<open>try_exists\<close>, for which an absent file is no error; a link is taken to lead to a file.\<close>

definition path_exists :: "fpath \<Rightarrow> string \<Rightarrow> disk \<Rightarrow> (daemon_error, bool) result \<times> disk" where
  "path_exists p operation d =
     (case fs_fault operation d of
        (Ok _, d') \<Rightarrow> (Ok (dk_nodes d' p \<noteq> None), d')
      | (Err e, d') \<Rightarrow> if e = NotFound then (Ok False, d') else (Err (Dae_Io operation e), d'))"

definition random_hex :: "(bytes \<Rightarrow> string) \<Rightarrow> bytes option \<Rightarrow> (daemon_error, string) result" where
  "random_hex hex_encode filled = and_then (ok_or filled Dae_Randomness) (\<lambda>bs. Ok (hex_encode bs))"

record start_env =
  sv_blake3 :: "bytes \<Rightarrow> bytes"
  sv_trust_codec :: "trust_mutation postcard"
  sv_hex_encode :: "bytes \<Rightarrow> string"
  sv_public :: "bytes \<Rightarrow> bytes"
  sv_to_vec_pretty :: "runtime_descriptor \<Rightarrow> bytes option"
  sv_utf8 :: "string \<Rightarrow> bool"
  sv_bind :: "bytes \<Rightarrow> (transport_error, rift_endpoint) result"
  sv_pid :: nat
  sv_fuel :: nat
  sv_generated :: bytes
  sv_other :: "fnode option"
  sv_open :: open_env
  sv_fill_id :: "bytes option"
  sv_fill_token :: "bytes option"
  sv_now :: nat

record started =
  sd_daemon :: daemon
  sd_artifacts :: runtime_artifacts
  sd_descriptor :: runtime_descriptor
  sd_auth_token :: string

text \<open>Opening the journal at its path; a new file has the default mode.\<close>

definition open_trust :: "start_env \<Rightarrow> fpath \<Rightarrow> disk \<Rightarrow> (daemon_error, trust_store) result \<times> disk" where
  "open_trust sv p d =
     (case open_store (sv_blake3 sv) (sv_trust_codec sv) (sv_open sv) (map_option fn_bytes (dk_nodes d p)) of
        (r, file) \<Rightarrow>
          (map_err Dae_Trust r,
           (case (dk_nodes d p, file) of
              (Some n, Some bs) \<Rightarrow> put_node p (Some (n\<lparr>fn_bytes := bs\<rparr>)) d
            | (None, Some bs) \<Rightarrow>
                put_node p (Some \<lparr>fn_kind = Regular, fn_bytes = bs, fn_mode = 438 AND NOT (dk_umask d)\<rparr>) d
            | _ \<Rightarrow> d)))"

text \<open>The identity, with the guard against a trust journal that has lost it.\<close>

definition open_identity ::
  "start_env \<Rightarrow> string \<Rightarrow> disk \<Rightarrow> ((daemon_error, stored_identity) result \<times> disk) option" where
  "open_identity sv data_dir d =
     (let identity_path = join data_dir IDENTITY_FILE_NAME; trust_path = join data_dir TRUST_FILE_NAME in
      case st_bind (path_exists identity_path ''inspect identity state'') (\<lambda>identity_exists.
           st_bind (path_exists trust_path ''inspect trust state'') (\<lambda>trust_exists.
           Pair (if trust_exists \<and> \<not> identity_exists then Err Dae_IdentityMissingWithExistingState else Ok ()))) d of
        (Err e, d1) \<Rightarrow> Some (Err e, d1)
      | (Ok _, d1) \<Rightarrow>
          map_option (\<lambda>(r, d2). (map_err Dae_Identity r, d2))
            (load_or_create (sv_blake3 sv) (sv_public sv) (sv_fuel sv) (sv_pid sv) (sv_generated sv) (sv_other sv) identity_path d1))"

text \<open>Everything after the peers are loaded: the manager, the endpoint, the token, the listener and the descriptor.\<close>

definition start_serving ::
  "start_env \<Rightarrow> daemon_config \<Rightarrow> runtime_artifacts \<Rightarrow> stored_identity \<Rightarrow> trust_store \<Rightarrow> scheduler \<Rightarrow> disk \<Rightarrow>
     (daemon_error, started) result \<times> disk" where
  "start_serving sv config arts identity store sc =
     st_bind (Pair (map_err Dae_Session (session_with_config (dc_pairing_timeout config)))) (\<lambda>_.
     st_bind (Pair (map_err Dae_Transport (sv_bind sv (sti_secret_key identity)))) (\<lambda>endpoint.
     st_bind (Pair (random_hex (sv_hex_encode sv) (sv_fill_id sv))) (\<lambda>runtime_id.
     st_bind (Pair (auth_generate (sv_hex_encode sv) (sv_fill_token sv))) (\<lambda>auth_token.
     st_bind (listener_bind (sv_utf8 sv) arts) (\<lambda>ipc.
     let descriptor = \<lparr>rd_descriptor_version = RUNTIME_DESCRIPTOR_VERSION, rd_pid = sv_pid sv, rd_runtime_id = runtime_id,
           rd_ipc = ipc, rd_auth_token = auth_token\<rparr> in
     st_bind (publish (sv_to_vec_pretty sv) (sv_pid sv) arts descriptor) (\<lambda>_.
     Pair (Ok \<lparr>sd_daemon = daemon_ready config (sti_device_id identity) endpoint store sc, sd_artifacts = arts,
       sd_descriptor = descriptor, sd_auth_token = auth_token\<rparr>)))))))"

text \<open>What happens with the artifacts prepared; running out of fuel is \<open>None\<close>.\<close>

definition start_prepared ::
  "start_env \<Rightarrow> daemon_config \<Rightarrow> string \<Rightarrow> runtime_artifacts \<Rightarrow> disk \<Rightarrow> ((daemon_error, started) result \<times> disk) option" where
  "start_prepared sv config data_dir arts d =
     (case open_identity sv data_dir d of
        None \<Rightarrow> None
      | Some (Err e, d1) \<Rightarrow> Some (Err e, d1)
      | Some (Ok identity, d1) \<Rightarrow>
          (case open_trust sv (join data_dir TRUST_FILE_NAME) d1 of
             (Err e, d2) \<Rightarrow> Some (Err e, d2)
           | (Ok store, d2) \<Rightarrow>
               (case load_peers (length (ts_decisions store) + 1) store (sv_now sv) (sti_device_id identity) None
                       (scheduler_new (sv_now sv)) of
                  None \<Rightarrow> None
                | Some (Err e) \<Rightarrow> Some (Err e, d2)
                | Some (Ok sc) \<Rightarrow> Some (start_serving sv config arts identity store sc d2))))"

text \<open>
  \<open>Daemon::start\<close>. A failure drops what was acquired, in the reverse order: the artifacts remove the descriptor and the
  socket, then closing its file gives up the lock.
\<close>

definition start ::
  "start_env \<Rightarrow> daemon_config \<Rightarrow> string \<Rightarrow> fpath \<Rightarrow> host \<Rightarrow> ((daemon_error, started) result \<times> host) option" where
  "start sv config data_dir dir h =
     (case and_then (daemon_config_validate config) (\<lambda>_.
           map_err (\<lambda>_. Dae_InvalidConfiguration ''device_name or platform exceeds Hello bounds'')
             (pairing_metadata (dc_device_name config) (dc_platform config))) of
        Err e \<Rightarrow> Some (Err e, h)
      | Ok _ \<Rightarrow>
          (case prepare_data_directory dir (hs_disk h) of
             (Err e, d1) \<Rightarrow> Some (Err e, h\<lparr>hs_disk := d1\<rparr>)
           | (Ok _, d1) \<Rightarrow>
               (case lock_acquire data_dir (h\<lparr>hs_disk := d1\<rparr>) of
                  (Err e, h2) \<Rightarrow> Some (Err e, h2)
                | (Ok _, h2) \<Rightarrow>
                    (case artifacts_prepare data_dir (hs_disk h2) of
                       (Err e, d3) \<Rightarrow> Some (Err e, h2\<lparr>hs_disk := d3, hs_locked := False\<rparr>)
                     | (Ok arts, d3) \<Rightarrow>
                         (case start_prepared sv config data_dir arts d3 of
                            None \<Rightarrow> None
                          | Some (Err e, d4) \<Rightarrow> Some (Err e, h2\<lparr>hs_disk := artifacts_drop arts d4, hs_locked := False\<rparr>)
                          | Some (Ok s, d4) \<Rightarrow> Some (Ok s, h2\<lparr>hs_disk := d4\<rparr>))))))"

section \<open>Notions of the properties\<close>

definition private_node :: "bytes \<Rightarrow> fnode" where
  "private_node bs = \<lparr>fn_kind = Regular, fn_bytes = bs, fn_mode = 384\<rparr>"

definition artifacts_of :: "string \<Rightarrow> runtime_artifacts" where
  "artifacts_of data_dir =
     \<lparr>ra_descriptor_path = join data_dir DESCRIPTOR_FILE_NAME, ra_socket_path = join data_dir SOCKET_FILE_NAME\<rparr>"

text \<open>The system does not report an existing file as absent.\<close>

definition honest :: "host \<Rightarrow> bool" where
  "honest h = (\<forall>operation. dk_faults (hs_disk h) operation \<noteq> Some NotFound)"

text \<open>The inputs of a start in which nothing outside the model fails.\<close>

definition willing :: "start_env \<Rightarrow> bool" where
  "willing sv =
     (digest_ok (sv_blake3 sv) \<and> length (sv_generated sv) = 32 \<and> sv_other sv = None \<and> 3 \<le> sv_fuel sv \<and> sv_fuel sv \<le> 2 ^ 64 \<and>
      oe_create (sv_open sv) = None \<and> oe_header (sv_open sv) = None \<and> (\<forall>k. is_ok (sv_bind sv k)) \<and>
      sv_fill_id sv \<noteq> None \<and> sv_fill_token sv \<noteq> None \<and> (\<forall>x. sv_utf8 sv x) \<and> (\<forall>x. sv_to_vec_pretty sv x \<noteq> None))"

section \<open>Example values\<close>

definition start_config :: daemon_config where
  "start_config = daemon_config_new ''linux'' ''alice''"

definition example_start :: start_env where
  "example_start = \<lparr>sv_blake3 = zero_digest, sv_trust_codec = example_codec, sv_hex_encode = (\<lambda>bs. concat (map fmt_byte bs)),
     sv_public = (\<lambda>s. s), sv_to_vec_pretty = (\<lambda>d. Some (str_bytes (rd_auth_token d))), sv_utf8 = (\<lambda>_. True),
     sv_bind = (\<lambda>_. Ok example_endpoint), sv_pid = 7, sv_fuel = 3, sv_generated = example_secret, sv_other = None,
     sv_open = \<lparr>oe_create = None, oe_header = None, oe_open = None, oe_inspect = None, oe_read = None, oe_truncate = None,
       oe_sync = None, oe_seek = None\<rparr>, sv_fill_id = Some (replicate 16 1), sv_fill_token = Some (replicate 32 10), sv_now = 0\<rparr>"

definition example_host :: host where
  "example_host = \<lparr>hs_disk = empty_disk, hs_locked = False\<rparr>"

definition orphaned_host :: host where
  "orphaned_host = example_host\<lparr>hs_disk := empty_disk\<lparr>dk_nodes := [join ''/rift'' TRUST_FILE_NAME \<mapsto> private_node []]\<rparr>\<rparr>"

definition example_dir :: fpath where
  "example_dir = \<lparr>fp_parent = Some ''/'', fp_name = Some ''rift''\<rparr>"

section \<open>Lemmas on effects\<close>

lemma within_dae_io [effects]: "within S (call operation) \<Longrightarrow> within S (dae_io call operation)"
  by (simp add: within_def dae_io_def split: prod.splits) (metis snd_conv)

lemma within_permissions [effects]:
  "p \<in> S \<Longrightarrow> within S (apply_file_permissions p)" "within S (verify_file_permissions p)"
  "p \<in> S \<Longrightarrow> within S (apply_directory_permissions p)" "within S (verify_directory_permissions p)"
  unfolding apply_file_permissions_def verify_file_permissions_def apply_directory_permissions_def
    verify_directory_permissions_def Let_def by (intro effects, assumption?)+

lemma within_prepare_data_directory: "within {dir} (prepare_data_directory dir)"
  unfolding prepare_data_directory_def by (intro effects; simp)

lemma within_remove [effects]: "p \<in> S \<Longrightarrow> within S (remove_if_present p operation)"
  by (auto simp: within_def remove_if_present_def fs_defs split: option.splits)

lemma within_artifacts_prepare:
  "within {join data_dir DESCRIPTOR_FILE_NAME, join data_dir SOCKET_FILE_NAME} (artifacts_prepare data_dir)"
  unfolding artifacts_prepare_def Let_def by (intro effects; simp)

lemma within_local_sync [effects]: "within S (local_sync_parent path)"
  by (auto simp: within_def local_sync_parent_def dae_io_def fs_fault_def)

lemma within_fill_private [effects]: "p \<in> S \<Longrightarrow> within S (fill_private bs p)"
  unfolding fill_private_def by (intro effects, assumption?)+

lemma within_bind_socket [effects]: "p \<in> S \<Longrightarrow> within S (fs_bind_socket p operation)"
  by (auto simp: within_def fs_bind_socket_def fs_defs split: option.splits)

lemma within_listener_bind: "within {ra_socket_path arts} (listener_bind utf8 arts)"
  unfolding listener_bind_def Let_def by (intro effects; simp)

lemma within_open_trust: "within {p} (open_trust sv p)"
  by (auto simp: within_def open_trust_def split: prod.splits option.splits)

lemma within_path_exists [effects]: "within S (path_exists p operation)"
  by (auto simp: within_def path_exists_def fs_fault_def split: option.splits)

section \<open>Lemmas on the descriptor\<close>

lemma fill_private_Ok:
  assumes "fill_private bs p d = (Ok u, d')"
  shows "dk_nodes d p = None" and "dk_nodes d' = (dk_nodes d)(p := Some (private_node bs))"
  using assms
  by (auto simp: fill_private_def apply_file_permissions_def verify_file_permissions_def dae_io_def fs_defs fs_update_def
      private_node_def Let_def split: option.splits if_splits)

text \<open>The descriptor is replaced as a whole or not at all.\<close>

lemma write_atomic_effect:
  assumes run: "write_atomic_private pid path bs d = (r, d')" and name: "fp_name path = Some f"
    and t: "t = with_file_name path (temporary_name f pid (dk_temps d))"
  shows "dk_faults d' = dk_faults d" and "p \<noteq> path \<Longrightarrow> p \<noteq> t \<Longrightarrow> dk_nodes d' p = dk_nodes d p"
    and "dk_nodes d' path \<in> {dk_nodes d path, Some (private_node bs)}"
    and "r = Ok u \<Longrightarrow> dk_nodes d' path = Some (private_node bs) \<and> dk_nodes d' t = None"
proof -
  define d1 where "d1 = d\<lparr>dk_temps := dk_temps d + 1\<rparr>"
  have d1: "dk_nodes d1 = dk_nodes d" "dk_faults d1 = dk_faults d" by (simp_all add: d1_def)
  have other: "t \<noteq> path" using temporary_path_other [OF name] t by simp
  obtain r0 d0 where fill: "fill_private bs t d1 = (r0, d0)" by fastforce
  have w: "within {t} (fill_private bs t)" "within {} (st_bind (local_sync_parent path) (\<lambda>_. verify_file_permissions path))"
    "within {t} (fs_remove_file op t)" for op
    by (intro effects; simp)+
  note fills = within_faults [OF w(1) fill] within_nodes [OF w(1) fill]
  have *: "dk_faults d' = dk_faults d \<and> (p \<noteq> path \<longrightarrow> p \<noteq> t \<longrightarrow> dk_nodes d' p = dk_nodes d p) \<and>
      dk_nodes d' path \<in> {dk_nodes d path, Some (private_node bs)} \<and>
      (r = Ok u \<longrightarrow> dk_nodes d' path = Some (private_node bs) \<and> dk_nodes d' t = None)" for p u
  proof (cases "is_ok r0 \<and> dk_faults d0 ''publish runtime descriptor'' = None")
    case True
    then obtain v where "r0 = Ok v" by auto
    with fill have d0: "dk_nodes d0 = (dk_nodes d1)(t := Some (private_node bs))" using fill_private_Ok by blast
    define d2 where "d2 = put_node path (Some (private_node bs)) (put_node t None d0)"
    have "st_bind (fill_private bs t) (\<lambda>_. dae_io (\<lambda>op. fs_rename op t path) ''publish runtime descriptor'') d1 = (Ok (), d2)"
      using fill True d0 by (auto simp: st_bind_def dae_io_def fs_rename_def fs_metadata_def fs_fault_def d2_def)
    then have "st_bind (local_sync_parent path) (\<lambda>_. verify_file_permissions path) d2 = (r, d')"
      using run name by (simp add: write_atomic_private_def next_temporary_def t d1_def)
    note ends = within_faults [OF w(2) this] within_nodes [OF w(2) this]
    show ?thesis using ends fills d1 d0 other by (simp add: d2_def)
  next
    case False
    then obtain e where "st_bind (fill_private bs t) (\<lambda>_. dae_io (\<lambda>op. fs_rename op t path) ''publish runtime descriptor'') d1 = (Err e, d0)"
      using fill by (cases r0) (auto simp: st_bind_def dae_io_def fs_rename_def fs_metadata_def fs_fault_def split: option.splits)
    then have "r = Err e" "d' = temporary_drop t d0"
      using run name by (auto simp: write_atomic_private_def next_temporary_def t d1_def)
    with w(3) [of "''drop temporary file''"] fills d1 other show ?thesis by (auto simp: temporary_drop_def within_def)
  qed
  show "dk_faults d' = dk_faults d" "p \<noteq> path \<Longrightarrow> p \<noteq> t \<Longrightarrow> dk_nodes d' p = dk_nodes d p"
    "dk_nodes d' path \<in> {dk_nodes d path, Some (private_node bs)}"
    "r = Ok u \<Longrightarrow> dk_nodes d' path = Some (private_node bs) \<and> dk_nodes d' t = None"
    using * by blast+
qed

section \<open>Lemmas on starting\<close>

lemmas file_names = IDENTITY_FILE_NAME_def TRUST_FILE_NAME_def LOCK_FILE_NAME_def DESCRIPTOR_FILE_NAME_def SOCKET_FILE_NAME_def

lemma join_eq [simp]: "join dir a = join dir b \<longleftrightarrow> a = b"
  by (simp add: join_def)

lemma join_names [simp]: "fp_name (join dir a) = Some a" "fp_parent (join dir a) = Some dir"
  by (simp_all add: join_def)

lemma temporary_not_file:
  "a \<in> {IDENTITY_FILE_NAME, TRUST_FILE_NAME, LOCK_FILE_NAME, DESCRIPTOR_FILE_NAME, SOCKET_FILE_NAME} \<Longrightarrow>
    join dir a \<noteq> with_file_name (join dir b) (temporary_name f pid c)"
  by (auto simp: with_file_name_def join_def temporary_name_def file_names)

lemma lock_acquire_effect:
  assumes "lock_acquire data_dir h = (r, h')"
  shows "dk_faults (hs_disk h') = dk_faults (hs_disk h)"
    and "p \<noteq> join data_dir LOCK_FILE_NAME \<Longrightarrow> dk_nodes (hs_disk h') p = dk_nodes (hs_disk h) p"
    and "hs_locked h' = (hs_locked h \<or> is_ok r)" and "is_ok r \<Longrightarrow> \<not> hs_locked h"
proof -
  let ?f = "st_bind (dae_io (\<lambda>op. fs_open_or_create op 384 (join data_dir LOCK_FILE_NAME)) ''open runtime lock'')
    (\<lambda>_. apply_file_permissions (join data_dir LOCK_FILE_NAME))"
  have w: "within {join data_dir LOCK_FILE_NAME} ?f" by (intro effects; simp)
  obtain r1 d1 where f: "?f (hs_disk h) = (r1, d1)" by fastforce
  note frame = within_faults [OF w f] within_nodes [OF w f]
  have h': "hs_disk h' = d1" "hs_locked h' = (hs_locked h \<or> is_ok r)" "is_ok r \<longrightarrow> \<not> hs_locked h"
    using assms f by (auto simp: lock_acquire_def Let_def split: sum.splits if_splits option.splits)
  show "dk_faults (hs_disk h') = dk_faults (hs_disk h)"
    "p \<noteq> join data_dir LOCK_FILE_NAME \<Longrightarrow> dk_nodes (hs_disk h') p = dk_nodes (hs_disk h) p"
    "hs_locked h' = (hs_locked h \<or> is_ok r)" "is_ok r \<Longrightarrow> \<not> hs_locked h"
    using h' frame by simp_all
qed

lemma remove_if_present_Ok:
  assumes "remove_if_present p operation d = (Ok u, d')" and "dk_faults d operation \<noteq> Some NotFound"
  shows "dk_nodes d' = (dk_nodes d)(p := None)"
  using assms by (auto simp: remove_if_present_def fs_defs split: option.splits if_splits)

lemma remove_quiet:
  assumes "dk_faults d operation = None" and "\<And>n. dk_nodes d p = Some n \<Longrightarrow> fn_kind n \<noteq> Directory"
  shows "remove_if_present p operation d = (Ok (), put_node p None d)"
  using assms by (auto simp: remove_if_present_def fs_defs put_node_def fun_upd_idem split: option.splits)

lemma open_identity_effect:
  assumes "open_identity sv data_dir d = Some (r, d')"
  shows "dk_faults d' = dk_faults d"
    and "a \<in> {TRUST_FILE_NAME, LOCK_FILE_NAME, DESCRIPTOR_FILE_NAME, SOCKET_FILE_NAME} \<Longrightarrow>
      dk_nodes d' (join data_dir a) = dk_nodes d (join data_dir a)"
    and "dk_nodes d (join data_dir TRUST_FILE_NAME) \<noteq> None \<Longrightarrow> dk_nodes d (join data_dir IDENTITY_FILE_NAME) = None \<Longrightarrow>
      dk_faults d ''inspect trust state'' \<noteq> Some NotFound \<Longrightarrow> \<not> is_ok r \<and> d' = d"
    and "r = Ok i \<Longrightarrow> load_or_create (sv_blake3 sv) (sv_public sv) (sv_fuel sv) (sv_pid sv) (sv_generated sv) (sv_other sv)
      (join data_dir IDENTITY_FILE_NAME) d = Some (Ok i, d')"
proof -
  let ?id = "join data_dir IDENTITY_FILE_NAME" and ?tr = "join data_dir TRUST_FILE_NAME"
  let ?load = "load_or_create (sv_blake3 sv) (sv_public sv) (sv_fuel sv) (sv_pid sv) (sv_generated sv) (sv_other sv) ?id d"
  define g where "g = st_bind (path_exists ?id ''inspect identity state'') (\<lambda>identity_exists.
           st_bind (path_exists ?tr ''inspect trust state'') (\<lambda>trust_exists.
           Pair (if trust_exists \<and> \<not> identity_exists then Err Dae_IdentityMissingWithExistingState else Ok ()))) d"
  have g: "snd g = d" "dk_nodes d ?tr \<noteq> None \<Longrightarrow> dk_nodes d ?id = None \<Longrightarrow> dk_faults d ''inspect trust state'' \<noteq> Some NotFound \<Longrightarrow>
      \<not> is_ok (fst g)"
    by (auto simp: g_def path_exists_def st_bind_def fs_fault_def split: option.splits)
  have run: "open_identity sv data_dir d =
      (case fst g of Err e \<Rightarrow> Some (Err e, d) | Ok _ \<Rightarrow> map_option (\<lambda>(r, d2). (map_err Dae_Identity r, d2)) ?load)"
    using g(1) by (cases g) (simp add: open_identity_def Let_def g_def [symmetric] split: sum.splits)
  have *: "(\<exists>e. r = Err e) \<and> d' = d \<or> (\<exists>q. ?load = Some (q, d') \<and> r = map_err Dae_Identity q) \<and> is_ok (fst g)"
    using assms run by (auto split: sum.splits)
  show "dk_faults d' = dk_faults d" using * load_or_create_within(1) by auto
  show "dk_nodes d' (join data_dir a) = dk_nodes d (join data_dir a)"
    if a: "a \<in> {TRUST_FILE_NAME, LOCK_FILE_NAME, DESCRIPTOR_FILE_NAME, SOCKET_FILE_NAME}"
    using *
  proof
    assume "(\<exists>q. ?load = Some (q, d') \<and> r = map_err Dae_Identity q) \<and> is_ok (fst g)"
    then obtain q where q: "?load = Some (q, d')" by blast
    have "join data_dir a \<noteq> ?id" using a by (auto simp: file_names)
    moreover have "join data_dir a \<noteq> with_file_name ?id (temporary_name f (sv_pid sv) c)" for f c
      using temporary_not_file [of a data_dir IDENTITY_FILE_NAME f "sv_pid sv" c] a by auto
    ultimately show ?thesis using load_or_create_within(2) [OF q] by blast
  qed auto
  show "\<not> is_ok r \<and> d' = d" if "dk_nodes d ?tr \<noteq> None" "dk_nodes d ?id = None" "dk_faults d ''inspect trust state'' \<noteq> Some NotFound"
    using * g(2) [OF that] by auto
  show "?load = Some (Ok i, d')" if "r = Ok i" using * that by (auto simp: eq_commute [of "Ok i"])
qed

lemma open_store_wf:
  assumes "open_store blake3 pc env content = (Ok store, content')"
  shows "decisions_wf (ts_decisions store)"
proof -
  have "decisions_wf (ts_decisions (from_parts x [] y z))" for x y z by (simp add: from_parts_def decisions_wf_def)
  moreover have "decisions_wf (ts_decisions s)" if "open_existing blake3 pc env x = (Ok s, y)" for x y s
    using open_existing_inv [OF that] by (simp add: trust_inv_def)
  ultimately show ?thesis
    using assms by (auto simp: open_store_def write_header_def split: option.splits prod.splits if_splits)
qed

text \<open>The last phase of a start: it fails before or in binding, or it comes to writing the descriptor.\<close>

lemma start_serving_cases:
  assumes run: "start_serving sv config arts identity store sc d = (r, d')"
    and bind: "listener_bind (sv_utf8 sv) arts d = (r1, d1)"
  obtains (early) "d' = d \<or> d' = d1" "\<not> is_ok r"
  | (writes) endpoint token descriptor bs q where
      "auth_generate (sv_hex_encode sv) (sv_fill_token sv) = Ok token" "rd_auth_token descriptor = token"
      "sv_to_vec_pretty sv descriptor = Some bs" "write_atomic_private (sv_pid sv) (ra_descriptor_path arts) bs d1 = (q, d')"
      "\<And>s. r = Ok s \<Longrightarrow> is_ok q \<and> s = \<lparr>sd_daemon = daemon_ready config (sti_device_id identity) endpoint store sc,
          sd_artifacts = arts, sd_descriptor = descriptor, sd_auth_token = token\<rparr>"
proof -
  let ?rest = "\<lambda>endpoint runtime_id auth_token. st_bind (listener_bind (sv_utf8 sv) arts) (\<lambda>ipc.
     let descriptor = \<lparr>rd_descriptor_version = RUNTIME_DESCRIPTOR_VERSION, rd_pid = sv_pid sv, rd_runtime_id = runtime_id,
           rd_ipc = ipc, rd_auth_token = auth_token\<rparr> in
     st_bind (publish (sv_to_vec_pretty sv) (sv_pid sv) arts descriptor) (\<lambda>_.
     Pair (Ok \<lparr>sd_daemon = daemon_ready config (sti_device_id identity) endpoint store sc, sd_artifacts = arts,
       sd_descriptor = descriptor, sd_auth_token = auth_token\<rparr>))) d"
  have "d' = d \<and> \<not> is_ok r \<or> (\<exists>endpoint runtime_id token. auth_generate (sv_hex_encode sv) (sv_fill_token sv) = Ok token \<and>
      ?rest endpoint runtime_id token = (r, d'))"
    using run
    by (cases "session_with_config (dc_pairing_timeout config)"; cases "sv_bind sv (sti_secret_key identity)";
        cases "random_hex (sv_hex_encode sv) (sv_fill_id sv)"; cases "auth_generate (sv_hex_encode sv) (sv_fill_token sv)")
      (auto simp: start_serving_def st_bind_def)
  then show thesis
  proof
    assume "d' = d \<and> \<not> is_ok r"
    then show thesis using early by blast
  next
    assume "\<exists>endpoint runtime_id token. auth_generate (sv_hex_encode sv) (sv_fill_token sv) = Ok token \<and>
      ?rest endpoint runtime_id token = (r, d')"
    then obtain endpoint runtime_id token where token: "auth_generate (sv_hex_encode sv) (sv_fill_token sv) = Ok token"
      and rest: "?rest endpoint runtime_id token = (r, d')" by blast
    show thesis
    proof (cases r1)
      case (Inl e)
      with rest bind have "d' = d1 \<and> \<not> is_ok r" by (auto simp: st_bind_def)
      then show thesis using early by blast
    next
      case (Inr ipc)
      define descriptor where "descriptor = \<lparr>rd_descriptor_version = RUNTIME_DESCRIPTOR_VERSION, rd_pid = sv_pid sv,
        rd_runtime_id = runtime_id, rd_ipc = ipc, rd_auth_token = token\<rparr>"
      obtain q d2 where q: "publish (sv_to_vec_pretty sv) (sv_pid sv) arts descriptor d1 = (q, d2)" by fastforce
      have r: "d' = d2" "\<And>s. r = Ok s \<Longrightarrow> is_ok q \<and> s = \<lparr>sd_daemon = daemon_ready config (sti_device_id identity) endpoint store sc,
          sd_artifacts = arts, sd_descriptor = descriptor, sd_auth_token = token\<rparr>" "is_ok r \<Longrightarrow> is_ok q"
        using rest bind Inr q by (auto simp: st_bind_def descriptor_def [symmetric] split: sum.splits)
      show thesis
      proof (cases "sv_to_vec_pretty sv descriptor")
        case None
        with q r have "d' = d1 \<and> \<not> is_ok r" by (auto simp: publish_def)
        then show thesis using early by blast
      next
        case (Some bs)
        with q r(1) have "write_atomic_private (sv_pid sv) (ra_descriptor_path arts) bs d1 = (q, d')" by (simp add: publish_def)
        then show thesis using writes [OF token _ Some _ r(2)] by (simp add: descriptor_def)
      qed
    qed
  qed
qed

lemma start_serving_effect:
  assumes run: "start_serving sv config (artifacts_of data_dir) identity store sc d = (r, d')"
  shows "dk_faults d' = dk_faults d"
    and "a \<in> {IDENTITY_FILE_NAME, TRUST_FILE_NAME, LOCK_FILE_NAME} \<Longrightarrow> dk_nodes d' (join data_dir a) = dk_nodes d (join data_dir a)"
    and "dk_nodes d (join data_dir DESCRIPTOR_FILE_NAME) = None \<Longrightarrow>
      dk_nodes d' (join data_dir DESCRIPTOR_FILE_NAME) \<in> insert None (range (Some \<circ> private_node))"
    and "r = Ok s \<Longrightarrow> (\<exists>endpoint. sd_daemon s = daemon_ready config (sti_device_id identity) endpoint store sc) \<and>
      rd_auth_token (sd_descriptor s) = sd_auth_token s \<and>
      auth_generate (sv_hex_encode sv) (sv_fill_token sv) = Ok (sd_auth_token s) \<and>
      (\<exists>bs. sv_to_vec_pretty sv (sd_descriptor s) = Some bs \<and>
        dk_nodes d' (join data_dir DESCRIPTOR_FILE_NAME) = Some (private_node bs))"
proof -
  let ?D = "join data_dir DESCRIPTOR_FILE_NAME" and ?S = "join data_dir SOCKET_FILE_NAME"
  have arts: "ra_descriptor_path (artifacts_of data_dir) = ?D" "ra_socket_path (artifacts_of data_dir) = ?S"
    by (simp_all add: artifacts_of_def)
  obtain r1 d1 where bind: "listener_bind (sv_utf8 sv) (artifacts_of data_dir) d = (r1, d1)" by fastforce
  note bound = within_faults [OF within_listener_bind bind, unfolded arts] within_nodes [OF within_listener_bind bind, unfolded arts]
  have d1: "dk_faults d1 = dk_faults d" "b \<noteq> SOCKET_FILE_NAME \<Longrightarrow> dk_nodes d1 (join data_dir b) = dk_nodes d (join data_dir b)" for b
    using bound by simp_all
  have ne: "a \<noteq> SOCKET_FILE_NAME" "a \<noteq> DESCRIPTOR_FILE_NAME" if "a \<in> {IDENTITY_FILE_NAME, TRUST_FILE_NAME, LOCK_FILE_NAME}" for a
    using that by (auto simp: file_names)
  have ds: "DESCRIPTOR_FILE_NAME \<noteq> SOCKET_FILE_NAME" by (simp add: file_names)
  have *: "dk_faults d' = dk_faults d \<and>
     (a \<in> {IDENTITY_FILE_NAME, TRUST_FILE_NAME, LOCK_FILE_NAME} \<longrightarrow> dk_nodes d' (join data_dir a) = dk_nodes d (join data_dir a)) \<and>
     (dk_nodes d ?D = None \<longrightarrow> dk_nodes d' ?D \<in> insert None (range (Some \<circ> private_node))) \<and>
     (r = Ok s \<longrightarrow> (\<exists>endpoint. sd_daemon s = daemon_ready config (sti_device_id identity) endpoint store sc) \<and>
      rd_auth_token (sd_descriptor s) = sd_auth_token s \<and>
      auth_generate (sv_hex_encode sv) (sv_fill_token sv) = Ok (sd_auth_token s) \<and>
      (\<exists>bs. sv_to_vec_pretty sv (sd_descriptor s) = Some bs \<and> dk_nodes d' ?D = Some (private_node bs)))" for a s
    using run bind
  proof (cases rule: start_serving_cases)
    case early
    then show ?thesis using d1 ne ds by auto
  next
    case (writes endpoint token descriptor bs q)
    note atomic = write_atomic_effect [OF writes(4) [unfolded arts] join_names(1) refl]
    have "dk_nodes d' (join data_dir a) = dk_nodes d (join data_dir a)" if a: "a \<in> {IDENTITY_FILE_NAME, TRUST_FILE_NAME, LOCK_FILE_NAME}"
      using atomic(2) [of "join data_dir a"] d1(2) [of a] ne [OF a] temporary_not_file [of a data_dir DESCRIPTOR_FILE_NAME] a by simp
    moreover have "dk_nodes d' ?D \<in> insert None (range (Some \<circ> private_node))" if "dk_nodes d ?D = None"
      using atomic(3) that d1(2) [OF ds] by auto
    moreover have "dk_nodes d' ?D = Some (private_node bs)" if "r = Ok s"
      using writes(5) [OF that] atomic(4) by auto
    ultimately show ?thesis using atomic(1) d1(1) writes(1,2,3) writes(5) [of s] by auto
  qed
  show "dk_faults d' = dk_faults d" using * by blast
  show "a \<in> {IDENTITY_FILE_NAME, TRUST_FILE_NAME, LOCK_FILE_NAME} \<Longrightarrow> dk_nodes d' (join data_dir a) = dk_nodes d (join data_dir a)" using * by blast
  show "dk_nodes d ?D = None \<Longrightarrow> dk_nodes d' ?D \<in> insert None (range (Some \<circ> private_node))" using * by blast
  show "r = Ok s \<Longrightarrow> (\<exists>endpoint. sd_daemon s = daemon_ready config (sti_device_id identity) endpoint store sc) \<and>
      rd_auth_token (sd_descriptor s) = sd_auth_token s \<and>
      auth_generate (sv_hex_encode sv) (sv_fill_token sv) = Ok (sd_auth_token s) \<and>
      (\<exists>bs. sv_to_vec_pretty sv (sd_descriptor s) = Some bs \<and> dk_nodes d' ?D = Some (private_node bs))" using * by blast
qed

lemma listener_bind_socket:
  assumes "listener_bind utf8 arts d = (r, d')" and "dk_nodes d (ra_socket_path arts) = None"
    and "dk_nodes d' (ra_socket_path arts) = Some n"
  shows "fn_kind n = Special"
  using assms
  by (auto simp: listener_bind_def fs_bind_socket_def apply_file_permissions_def verify_file_permissions_def dae_io_def fs_defs
      fs_update_def Let_def split: if_splits option.splits)

lemma start_serving_socket:
  assumes run: "start_serving sv config (artifacts_of data_dir) identity store sc d = (r, d')"
    and none: "dk_nodes d (join data_dir SOCKET_FILE_NAME) = None"
    and some: "dk_nodes d' (join data_dir SOCKET_FILE_NAME) = Some n"
  shows "fn_kind n = Special"
proof -
  have arts: "ra_descriptor_path (artifacts_of data_dir) = join data_dir DESCRIPTOR_FILE_NAME"
    "ra_socket_path (artifacts_of data_dir) = join data_dir SOCKET_FILE_NAME"
    by (simp_all add: artifacts_of_def)
  obtain r1 d1 where bind: "listener_bind (sv_utf8 sv) (artifacts_of data_dir) d = (r1, d1)" by fastforce
  note socket = listener_bind_socket [OF bind, unfolded arts, OF none]
  from run bind show ?thesis
  proof (cases rule: start_serving_cases)
    case early
    with some none socket show ?thesis by auto
  next
    case (writes endpoint token descriptor bs q)
    have "dk_nodes d' (join data_dir SOCKET_FILE_NAME) = dk_nodes d1 (join data_dir SOCKET_FILE_NAME)"
      using write_atomic_effect(2) [OF writes(4) [unfolded arts] join_names(1) refl, of "join data_dir SOCKET_FILE_NAME"]
        temporary_not_file [of SOCKET_FILE_NAME data_dir DESCRIPTOR_FILE_NAME] by (simp add: file_names)
    with some socket show ?thesis by simp
  qed
qed

text \<open>The phase under the lock.\<close>

lemma start_prepared_effect:
  assumes run: "start_prepared sv config data_dir (artifacts_of data_dir) d = Some (r, d')"
    and none: "dk_nodes d (join data_dir DESCRIPTOR_FILE_NAME) = None" "dk_nodes d (join data_dir SOCKET_FILE_NAME) = None"
  shows "dk_faults d' = dk_faults d"
    and "dk_nodes d' (join data_dir DESCRIPTOR_FILE_NAME) = Some n \<Longrightarrow> fn_kind n = Regular"
    and "dk_nodes d' (join data_dir SOCKET_FILE_NAME) = Some n \<Longrightarrow> fn_kind n = Special"
proof -
  let ?D = "join data_dir DESCRIPTOR_FILE_NAME" and ?S = "join data_dir SOCKET_FILE_NAME" and ?T = "join data_dir TRUST_FILE_NAME"
  obtain r1 d1 where id: "open_identity sv data_dir d = Some (r1, d1)"
    using run by (auto simp: start_prepared_def split: option.splits)
  note e1 = open_identity_effect(1) [OF id] open_identity_effect(2) [OF id, of DESCRIPTOR_FILE_NAME] open_identity_effect(2) [OF id, of SOCKET_FILE_NAME]
  obtain r2 d2 where tr: "open_trust sv ?T d1 = (r2, d2)" by fastforce
  have "?D \<noteq> ?T" "?S \<noteq> ?T" by (simp_all add: file_names)
  then have e2: "dk_faults d2 = dk_faults d1" "dk_nodes d2 ?D = dk_nodes d1 ?D" "dk_nodes d2 ?S = dk_nodes d1 ?S"
    using within_faults [OF within_open_trust tr] within_nodes [OF within_open_trust tr] by simp_all
  have n2: "dk_nodes d2 ?D = None" "dk_nodes d2 ?S = None" using e1 e2 none by simp_all
  have "d' = d1 \<or> d' = d2 \<or> (\<exists>i store sc. start_serving sv config (artifacts_of data_dir) i store sc d2 = (r, d'))"
    using run id tr by (auto simp: start_prepared_def split: sum.splits option.splits)
  then have "dk_faults d' = dk_faults d \<and> (\<forall>n. dk_nodes d' ?D = Some n \<longrightarrow> fn_kind n = Regular) \<and>
      (\<forall>n. dk_nodes d' ?S = Some n \<longrightarrow> fn_kind n = Special)"
  proof (elim disjE)
    assume "\<exists>i store sc. start_serving sv config (artifacts_of data_dir) i store sc d2 = (r, d')"
    then obtain i store sc where serve: "start_serving sv config (artifacts_of data_dir) i store sc d2 = (r, d')" by blast
    have "fn_kind n = Regular" if "dk_nodes d' ?D = Some n" for n
      using start_serving_effect(3) [OF serve n2(1)] that by (auto simp: private_node_def)
    then show ?thesis
      using start_serving_effect(1) [OF serve] start_serving_socket [OF serve n2(2)] e1(1) e2(1) by auto
  qed (use e1 e2 none in auto)
  then show "dk_faults d' = dk_faults d" "dk_nodes d' ?D = Some n \<Longrightarrow> fn_kind n = Regular"
    "dk_nodes d' ?S = Some n \<Longrightarrow> fn_kind n = Special" by blast+
qed

lemma start_prepared_Ok:
  assumes run: "start_prepared sv config data_dir (artifacts_of data_dir) d = Some (Ok s, d')"
  obtains i endpoint store sc where
    "sd_daemon s = daemon_ready config (sti_device_id i) endpoint store sc" "decisions_wf (ts_decisions store)"
    "load_peers (length (ts_decisions store) + 1) store (sv_now sv) (sti_device_id i) None (scheduler_new (sv_now sv)) = Some (Ok sc)"
    "identity_load (sv_blake3 sv) (sv_public sv) (join data_dir IDENTITY_FILE_NAME) d' = (Ok i, d')"
    "rd_auth_token (sd_descriptor s) = sd_auth_token s"
    "auth_generate (sv_hex_encode sv) (sv_fill_token sv) = Ok (sd_auth_token s)"
    "\<exists>bs. sv_to_vec_pretty sv (sd_descriptor s) = Some bs \<and> dk_nodes d' (join data_dir DESCRIPTOR_FILE_NAME) = Some (private_node bs)"
proof -
  let ?I = "join data_dir IDENTITY_FILE_NAME" and ?T = "join data_dir TRUST_FILE_NAME"
  obtain i d1 where id: "open_identity sv data_dir d = Some (Ok i, d1)"
    using run by (auto simp: start_prepared_def split: option.splits sum.splits)
  obtain store d2 where tr: "open_trust sv ?T d1 = (Ok store, d2)"
    using run id by (auto simp: start_prepared_def split: sum.splits prod.splits option.splits)
  obtain sc where sc: "load_peers (length (ts_decisions store) + 1) store (sv_now sv) (sti_device_id i) None (scheduler_new (sv_now sv)) = Some (Ok sc)"
    and serve: "start_serving sv config (artifacts_of data_dir) i store sc d2 = (Ok s, d')"
    using run id tr by (auto simp: start_prepared_def split: sum.splits option.splits)
  have wf: "decisions_wf (ts_decisions store)"
    using tr open_store_wf by (auto simp: open_trust_def split: prod.splits)
  have load: "identity_load (sv_blake3 sv) (sv_public sv) ?I d1 = (Ok i, d1)"
    using load_or_create_loads [OF open_identity_effect(4) [OF id refl]] by simp
  have "?I \<noteq> ?T" by (simp add: file_names)
  then have "dk_nodes d' ?I = dk_nodes d1 ?I" "dk_faults d' = dk_faults d1"
    using within_faults [OF within_open_trust tr] within_nodes [OF within_open_trust tr] start_serving_effect(1,2) [OF serve] by simp_all
  with load have "identity_load (sv_blake3 sv) (sv_public sv) ?I d' = (Ok i, d')" by (simp add: identity_load_Ok readable_def)
  with that wf sc start_serving_effect(4) [OF serve refl] show thesis by blast
qed

lemma artifacts_prepare_effect:
  assumes "artifacts_prepare data_dir d = (r, d')" and "\<And>operation. dk_faults d operation \<noteq> Some NotFound"
    and "p \<in> {join data_dir DESCRIPTOR_FILE_NAME, join data_dir SOCKET_FILE_NAME}"
  shows "dk_nodes d' p \<in> {None, dk_nodes d p}" and "r = Ok a \<Longrightarrow> dk_nodes d' p = None \<and> a = artifacts_of data_dir"
  using assms
  by (auto simp: artifacts_prepare_def artifacts_of_def remove_if_present_def fs_defs Let_def split: option.splits if_splits)

text \<open>
  The three ways a start goes: it stops before it owns the data directory, while clearing what an earlier run left, or
  it runs under the lock on a disk without runtime artifacts.
\<close>

lemma start_cases:
  assumes run: "start sv config data_dir dir h = Some (r, h')" and dir: "fp_parent dir \<noteq> Some data_dir" and honest: "honest h"
  obtains (refused) "\<not> is_ok r" "hs_locked h' = hs_locked h"
      "\<And>p. p \<noteq> dir \<Longrightarrow> p \<noteq> join data_dir LOCK_FILE_NAME \<Longrightarrow> dk_nodes (hs_disk h') p = dk_nodes (hs_disk h) p"
  | (clearing) "\<not> is_ok r" "\<not> hs_locked h" "\<not> hs_locked h'"
      "\<And>a. a \<in> {IDENTITY_FILE_NAME, TRUST_FILE_NAME} \<Longrightarrow> dk_nodes (hs_disk h') (join data_dir a) = dk_nodes (hs_disk h) (join data_dir a)"
      "\<And>a. a \<in> {DESCRIPTOR_FILE_NAME, SOCKET_FILE_NAME} \<Longrightarrow>
        dk_nodes (hs_disk h') (join data_dir a) \<in> {None, dk_nodes (hs_disk h) (join data_dir a)}"
  | (locked) d q d' where "\<not> hs_locked h" "daemon_config_validate config = Ok ()"
      "start_prepared sv config data_dir (artifacts_of data_dir) d = Some (q, d')"
      "dk_faults d = dk_faults (hs_disk h)"
      "\<And>a. a \<in> {IDENTITY_FILE_NAME, TRUST_FILE_NAME} \<Longrightarrow> dk_nodes d (join data_dir a) = dk_nodes (hs_disk h) (join data_dir a)"
      "dk_nodes d (join data_dir DESCRIPTOR_FILE_NAME) = None" "dk_nodes d (join data_dir SOCKET_FILE_NAME) = None"
      "case q of Err e \<Rightarrow> r = Err e \<and> hs_disk h' = artifacts_drop (artifacts_of data_dir) d' \<and> \<not> hs_locked h'
        | Ok s \<Rightarrow> r = Ok s \<and> hs_disk h' = d' \<and> hs_locked h'"
proof -
  let ?valid = "and_then (daemon_config_validate config) (\<lambda>_.
           map_err (\<lambda>_. Dae_InvalidConfiguration ''device_name or platform exceeds Hello bounds'')
             (pairing_metadata (dc_device_name config) (dc_platform config)))"
  have ne: "dir \<noteq> join data_dir a" for a using dir by auto
  obtain r1 d1 where p1: "prepare_data_directory dir (hs_disk h) = (r1, d1)" by fastforce
  note e1 = within_faults [OF within_prepare_data_directory p1] within_nodes [OF within_prepare_data_directory p1]
  obtain r2 h2 where p2: "lock_acquire data_dir (h\<lparr>hs_disk := d1\<rparr>) = (r2, h2)" by fastforce
  note e2 = lock_acquire_effect [OF p2, simplified]
  obtain r3 d3 where p3: "artifacts_prepare data_dir (hs_disk h2) = (r3, d3)" by fastforce
  have faults2: "dk_faults (hs_disk h2) = dk_faults (hs_disk h)" using e1(1) e2(1) by simp
  have nodes2: "p \<noteq> dir \<Longrightarrow> p \<noteq> join data_dir LOCK_FILE_NAME \<Longrightarrow> dk_nodes (hs_disk h2) p = dk_nodes (hs_disk h) p" for p
    using e1(2) e2(2) by simp
  have honest2: "dk_faults (hs_disk h2) operation \<noteq> Some NotFound" for operation using honest faults2 by (simp add: honest_def)
  have nodes3: "dk_nodes d3 (join data_dir a) = dk_nodes (hs_disk h) (join data_dir a)" if "a \<in> {IDENTITY_FILE_NAME, TRUST_FILE_NAME}" for a
    using within_nodes [OF within_artifacts_prepare p3, of "join data_dir a"] nodes2 [of "join data_dir a"] ne [of a] that by (auto simp: file_names)
  note e3 = artifacts_prepare_effect [OF p3 honest2]
  show thesis
  proof (cases "is_ok ?valid \<and> is_ok r1 \<and> is_ok r2")
    case False
    then have "\<not> is_ok r \<and> (h' = h \<or> h' = h\<lparr>hs_disk := d1\<rparr> \<or> h' = h2 \<and> \<not> is_ok r2)"
      using run p1 p2 by (cases ?valid; cases r1; cases r2) (auto simp: start_def)
    then show thesis using refused e1(2) nodes2 e2(3) by auto
  next
    case True
    then have unlocked: "\<not> hs_locked h" using e2(4) by simp
    have config: "daemon_config_validate config = Ok ()" using True by (cases "daemon_config_validate config") auto
    show thesis
    proof (cases r3)
      case (Inl e)
      then have h': "r = Err e" "h' = h2\<lparr>hs_disk := d3, hs_locked := False\<rparr>"
        using run True p1 p2 p3 by (auto simp: start_def)
      have "dk_nodes d3 (join data_dir a) \<in> {None, dk_nodes (hs_disk h) (join data_dir a)}" if "a \<in> {DESCRIPTOR_FILE_NAME, SOCKET_FILE_NAME}" for a
        using e3(1) [of "join data_dir a"] nodes2 [of "join data_dir a"] ne [of a] that by (auto simp: file_names)
      then show thesis using clearing unlocked h' nodes3 by simp
    next
      case (Inr arts)
      then have arts: "arts = artifacts_of data_dir" "dk_nodes d3 (join data_dir DESCRIPTOR_FILE_NAME) = None"
          "dk_nodes d3 (join data_dir SOCKET_FILE_NAME) = None"
        using e3(2) by blast+
      obtain q d' where q: "start_prepared sv config data_dir (artifacts_of data_dir) d3 = Some (q, d')"
        using run True p1 p2 p3 Inr arts(1) by (auto simp: start_def split: option.splits)
      have "dk_faults d3 = dk_faults (hs_disk h)" using within_faults [OF within_artifacts_prepare p3] faults2 by simp
      moreover have "case q of Err e \<Rightarrow> r = Err e \<and> hs_disk h' = artifacts_drop (artifacts_of data_dir) d' \<and> \<not> hs_locked h'
        | Ok s \<Rightarrow> r = Ok s \<and> hs_disk h' = d' \<and> hs_locked h'"
        using run True p1 p2 p3 Inr arts(1) q e2(3) by (auto simp: start_def split: sum.splits)
      ultimately show thesis using locked [OF unlocked config q] nodes3 arts by blast
    qed
  qed
qed

lemma dropped_artifacts:
  assumes "dk_faults d ''remove runtime descriptor'' = None" "dk_faults d ''remove IPC socket'' = None"
    and "\<And>n. dk_nodes d (join data_dir DESCRIPTOR_FILE_NAME) = Some n \<Longrightarrow> fn_kind n = Regular"
    and "\<And>n. dk_nodes d (join data_dir SOCKET_FILE_NAME) = Some n \<Longrightarrow> fn_kind n = Special"
  shows "a \<in> {DESCRIPTOR_FILE_NAME, SOCKET_FILE_NAME} \<Longrightarrow> dk_nodes (artifacts_drop (artifacts_of data_dir) d) (join data_dir a) = None"
proof -
  have "join data_dir SOCKET_FILE_NAME \<noteq> join data_dir DESCRIPTOR_FILE_NAME" by (simp add: file_names)
  with assms have "remove_if_present (join data_dir DESCRIPTOR_FILE_NAME) ''remove runtime descriptor'' d =
      (Ok (), put_node (join data_dir DESCRIPTOR_FILE_NAME) None d)"
    "remove_if_present (join data_dir SOCKET_FILE_NAME) ''remove IPC socket'' (put_node (join data_dir DESCRIPTOR_FILE_NAME) None d) =
      (Ok (), put_node (join data_dir SOCKET_FILE_NAME) None (put_node (join data_dir DESCRIPTOR_FILE_NAME) None d))"
    by (intro remove_quiet; fastforce)+
  then have "artifacts_drop (artifacts_of data_dir) d =
      put_node (join data_dir SOCKET_FILE_NAME) None (put_node (join data_dir DESCRIPTOR_FILE_NAME) None d)"
    by (simp add: artifacts_drop_def artifacts_of_def)
  then show "a \<in> {DESCRIPTOR_FILE_NAME, SOCKET_FILE_NAME} \<Longrightarrow> dk_nodes (artifacts_drop (artifacts_of data_dir) d) (join data_dir a) = None"
    by auto
qed

lemma within_artifacts_drop:
  "p \<notin> {join data_dir DESCRIPTOR_FILE_NAME, join data_dir SOCKET_FILE_NAME} \<Longrightarrow>
    dk_nodes (artifacts_drop (artifacts_of data_dir) d) p = dk_nodes d p"
  using within_remove [of "join data_dir SOCKET_FILE_NAME" "{join data_dir SOCKET_FILE_NAME}" "''remove IPC socket''"]
    within_remove [of "join data_dir DESCRIPTOR_FILE_NAME" "{join data_dir DESCRIPTOR_FILE_NAME}" "''remove runtime descriptor''"]
  by (simp add: artifacts_drop_def artifacts_of_def within_def)

section \<open>A first start\<close>

lemma quiet_calls:
  assumes "dk_faults d = (\<lambda>_. None)"
  shows "fs_fault operation d = (Ok (), d)"
    and "dk_nodes d p = Some n \<Longrightarrow> fs_metadata operation p d = (Ok n, d)"
    and "dk_nodes d p = None \<Longrightarrow> fs_metadata operation p d = (Err NotFound, d)"
  using assms by (simp_all add: fs_fault_def fs_metadata_def st_bind_def)

lemma quiet_prepare:
  assumes "dk_faults d = (\<lambda>_. None)" and "dk_nodes d dir = None"
  shows "\<exists>d'. prepare_data_directory dir d = (Ok (), d') \<and> dk_nodes d' = (dk_nodes d)(dir := Some \<lparr>fn_kind = Directory, fn_bytes = [], fn_mode = 448\<rparr>)"
  using assms
  by (simp add: prepare_data_directory_def fs_create_dir_all_def apply_directory_permissions_def verify_directory_permissions_def
      dae_io_def fs_defs fs_update_def Let_def)

lemma quiet_lock:
  assumes "dk_faults (hs_disk h) = (\<lambda>_. None)" and "dk_nodes (hs_disk h) (join data_dir LOCK_FILE_NAME) = None" and "\<not> hs_locked h"
  shows "\<exists>h'. lock_acquire data_dir h = (Ok (), h') \<and>
    dk_nodes (hs_disk h') = (dk_nodes (hs_disk h))(join data_dir LOCK_FILE_NAME := Some (private_node []))"
  using assms
  by (simp add: lock_acquire_def fs_open_or_create_def apply_file_permissions_def dae_io_def fs_defs fs_update_def Let_def private_node_def)

lemma quiet_artifacts:
  assumes "dk_faults d = (\<lambda>_. None)" and "dk_nodes d (join data_dir DESCRIPTOR_FILE_NAME) = None"
    and "dk_nodes d (join data_dir SOCKET_FILE_NAME) = None"
  shows "artifacts_prepare data_dir d = (Ok (artifacts_of data_dir), d)"
  using assms by (simp add: artifacts_prepare_def artifacts_of_def remove_if_present_def fs_defs Let_def)

lemma quiet_write:
  assumes "dk_faults d = (\<lambda>_. None)" and "fp_name path = Some f" and "fp_parent path \<noteq> None"
    and "dk_nodes d (with_file_name path (temporary_name f pid (dk_temps d))) = None"
  shows "\<exists>d'. write_atomic_private pid path bs d = (Ok (), d')"
  using assms temporary_path_other [OF assms(2), of pid "dk_temps d"]
  by (simp add: write_atomic_private_def next_temporary_def fill_private_def local_sync_parent_def apply_file_permissions_def
      verify_file_permissions_def dae_io_def fs_defs fs_update_def Let_def)

lemma quiet_listener:
  assumes "dk_faults d = (\<lambda>_. None)" and "dk_nodes d (ra_socket_path arts) = None"
    and "length (path_text (ra_socket_path arts)) \<le> unix_socket_path_max" and "utf8 (path_text (ra_socket_path arts))"
  shows "\<exists>ipc d' n. listener_bind utf8 arts d = (Ok ipc, d') \<and> dk_nodes d' = (dk_nodes d)(ra_socket_path arts := Some n) \<and> dk_temps d' = dk_temps d"
  using assms
  by (simp add: listener_bind_def fs_bind_socket_def apply_file_permissions_def verify_file_permissions_def dae_io_def fs_defs fs_update_def Let_def) blast

lemma quiet_identity:
  assumes quiet: "dk_faults d = (\<lambda>_. None)" and sv: "willing sv"
    and nodes: "dk_nodes d = [dir \<mapsto> x, join data_dir LOCK_FILE_NAME \<mapsto> y]" and dir: "fp_parent dir \<noteq> Some data_dir"
  shows "\<exists>i n d'. open_identity sv data_dir d = Some (Ok i, d') \<and>
    dk_nodes d' = [dir \<mapsto> x, join data_dir LOCK_FILE_NAME \<mapsto> y, join data_dir IDENTITY_FILE_NAME \<mapsto> n] \<and> dk_faults d' = (\<lambda>_. None)"
proof -
  let ?I = "join data_dir IDENTITY_FILE_NAME"
  have ne: "dir \<noteq> join data_dir a" for a using dir by auto
  have free: "dk_nodes d ?I = None" "dk_nodes d (join data_dir TRUST_FILE_NAME) = None"
    using nodes ne [symmetric] by (simp_all add: file_names)
  have "dom (dk_nodes d) = {dir, join data_dir LOCK_FILE_NAME}" using nodes by auto
  then have dom: "finite (dom (dk_nodes d))" "card (dom (dk_nodes d)) < sv_fuel sv"
    using sv ne [of LOCK_FILE_NAME] by (simp_all add: willing_def)
  obtain i d' where create: "identity_create (sv_blake3 sv) (sv_public sv) (sv_fuel sv) (sv_pid sv) (sv_generated sv) None ?I d = Some (Ok i, d')"
    using identity_create_quiet [OF quiet _ _ _ _ free(1) dom, of "sv_blake3 sv" "sv_generated sv" "sv_public sv" "sv_pid sv"] sv
    by (auto simp: willing_def)
  then have load: "load_or_create (sv_blake3 sv) (sv_public sv) (sv_fuel sv) (sv_pid sv) (sv_generated sv) (sv_other sv) ?I d = Some (Ok i, d')"
    using sv quiet free by (simp add: load_or_create_def quiet_calls willing_def)
  then have "open_identity sv data_dir d = Some (Ok i, d')"
    using quiet free by (simp add: open_identity_def path_exists_def dae_io_def fs_fault_def st_bind_def Let_def)
  moreover obtain n where "dk_nodes d' = (dk_nodes d)(?I := Some n)"
    using identity_create_effect(3) [OF create refl] free(1) by (metis identity_load_Ok)
  then have "dk_nodes d' = [dir \<mapsto> x, join data_dir LOCK_FILE_NAME \<mapsto> y, ?I \<mapsto> n]" by (simp add: nodes)
  moreover have "dk_faults d' = (\<lambda>_. None)" using load_or_create_within(1) [OF load] quiet by simp
  ultimately show ?thesis by blast
qed

lemma quiet_start:
  assumes h: "dk_faults (hs_disk h) = (\<lambda>_. None)" "dk_nodes (hs_disk h) = (\<lambda>_. None)" "\<not> hs_locked h"
    and config: "daemon_config_validate config = Ok ()" "pairing_metadata (dc_device_name config) (dc_platform config) = Ok m"
    and sv: "willing sv" and dir: "fp_parent dir \<noteq> Some data_dir" and short: "length data_dir \<le> 90"
  shows "\<exists>s h'. start sv config data_dir dir h = Some (Ok s, h')"
proof -
  let ?I = "join data_dir IDENTITY_FILE_NAME" and ?T = "join data_dir TRUST_FILE_NAME" and ?D = "join data_dir DESCRIPTOR_FILE_NAME"
    and ?S = "join data_dir SOCKET_FILE_NAME" and ?L = "join data_dir LOCK_FILE_NAME"
  have ne: "dir \<noteq> join data_dir a" for a using dir by auto
  obtain d1 x where p1: "prepare_data_directory dir (hs_disk h) = (Ok (), d1)" "dk_nodes d1 = [dir \<mapsto> x]"
    using quiet_prepare [OF h(1), of dir] h(2) by auto
  have f1: "dk_faults d1 = (\<lambda>_. None)" using within_faults [OF within_prepare_data_directory p1(1)] h(1) by simp
  obtain h2 y where p2: "lock_acquire data_dir (h\<lparr>hs_disk := d1\<rparr>) = (Ok (), h2)" "dk_nodes (hs_disk h2) = [dir \<mapsto> x, ?L \<mapsto> y]"
    using quiet_lock [of "h\<lparr>hs_disk := d1\<rparr>" data_dir] f1 p1(2) h(3) ne [of LOCK_FILE_NAME] by auto
  have f2: "dk_faults (hs_disk h2) = (\<lambda>_. None)" using lock_acquire_effect(1) [OF p2(1)] f1 by simp
  have p3: "artifacts_prepare data_dir (hs_disk h2) = (Ok (artifacts_of data_dir), hs_disk h2)"
    using quiet_artifacts [OF f2] p2(2) ne [symmetric] by (simp add: file_names)
  obtain i n d4 where p4: "open_identity sv data_dir (hs_disk h2) = Some (Ok i, d4)" "dk_nodes d4 = [dir \<mapsto> x, ?L \<mapsto> y, ?I \<mapsto> n]"
      "dk_faults d4 = (\<lambda>_. None)"
    using quiet_identity [OF f2 sv p2(2) dir] by blast
  have free: "dk_nodes d4 ?T = None" using p4(2) ne [of TRUST_FILE_NAME] by (auto simp: file_names)
  obtain d5 z where p5: "open_trust sv ?T d4 = (Ok (from_parts journal_header [] HEADER_LEN 0), d5)" "dk_nodes d5 = (dk_nodes d4)(?T := Some z)"
      "dk_faults d5 = (\<lambda>_. None)"
    using sv free p4(3) by (simp add: open_trust_def open_store_def write_header_def willing_def)
  obtain sc where p6: "load_peers (length (ts_decisions (from_parts journal_header [] HEADER_LEN 0)) + 1) (from_parts journal_header [] HEADER_LEN 0)
      (sv_now sv) (sti_device_id i) None (scheduler_new (sv_now sv)) = Some (Ok sc)"
    by (simp add: from_parts_def list_page_def MAX_PEER_PAGE_SIZE_def Let_def)
  have paths: "ra_socket_path (artifacts_of data_dir) = ?S" "ra_descriptor_path (artifacts_of data_dir) = ?D" by (simp_all add: artifacts_of_def)
  have socket: "dk_nodes d5 ?S = None" "length (path_text ?S) \<le> unix_socket_path_max"
    using p5(2) p4(2) ne [of SOCKET_FILE_NAME] short by (auto simp: file_names path_text_def unix_socket_path_max_def)
  obtain ipc d6 w where p7: "listener_bind (sv_utf8 sv) (artifacts_of data_dir) d5 = (Ok ipc, d6)" "dk_nodes d6 = (dk_nodes d5)(?S := Some w)"
    using quiet_listener [OF p5(3), of "artifacts_of data_dir" "sv_utf8 sv"] socket sv by (auto simp: paths willing_def)
  have f6: "dk_faults d6 = (\<lambda>_. None)" using within_faults [OF within_listener_bind p7(1)] p5(3) by simp
  let ?t = "with_file_name ?D (temporary_name DESCRIPTOR_FILE_NAME (sv_pid sv) (dk_temps d6))"
  have "?t \<noteq> join data_dir a" if "a \<in> {IDENTITY_FILE_NAME, TRUST_FILE_NAME, LOCK_FILE_NAME, DESCRIPTOR_FILE_NAME, SOCKET_FILE_NAME}" for a
    using temporary_not_file [OF that, of data_dir DESCRIPTOR_FILE_NAME] by metis
  moreover have "?t \<noteq> dir" using dir by (auto simp: with_file_name_def join_def)
  ultimately have tmp: "dk_nodes d6 ?t = None" using p7(2) p5(2) p4(2) by simp
  have "is_ok (sv_bind sv (sti_secret_key i))" using sv unfolding willing_def by blast
  then obtain ep where ep: "sv_bind sv (sti_secret_key i) = Ok ep" by auto
  obtain bi bt where fills: "sv_fill_id sv = Some bi" "sv_fill_token sv = Some bt" using sv by (auto simp: willing_def)
  let ?descriptor = "\<lparr>rd_descriptor_version = RUNTIME_DESCRIPTOR_VERSION, rd_pid = sv_pid sv, rd_runtime_id = sv_hex_encode sv bi,
    rd_ipc = ipc, rd_auth_token = sv_hex_encode sv bt\<rparr>"
  obtain bs where "sv_to_vec_pretty sv ?descriptor = Some bs" using sv unfolding willing_def by blast
  then obtain d7 where pub: "publish (sv_to_vec_pretty sv) (sv_pid sv) (artifacts_of data_dir) ?descriptor d6 = (Ok (), d7)"
    using quiet_write [OF f6 _ _ tmp, of bs] by (auto simp: publish_def paths)
  have "session_with_config (dc_pairing_timeout config) = Ok (dc_pairing_timeout config)"
    using config(1) by (auto simp: session_with_config_def daemon_config_validate_def validate_nonzero_duration_def and_then_Ok_iff split: if_splits)
  then have "\<exists>s. start_serving sv config (artifacts_of data_dir) i (from_parts journal_header [] HEADER_LEN 0) sc d5 = (Ok s, d7)"
    using ep fills p7(1) pub by (simp add: start_serving_def random_hex_def auth_generate_def st_bind_def Let_def)
  then obtain s d7 where "start_prepared sv config data_dir (artifacts_of data_dir) (hs_disk h2) = Some (Ok s, d7)"
    using p4(1) p5(1) p6 by (auto simp: start_prepared_def)
  then show ?thesis using p1(1) p2(1) p3 config by (simp add: start_def)
qed

lemma example_start_willing: "willing example_start"
  by (simp add: willing_def example_start_def zero_digest_ok example_secret_def)

lemmas default_limits =
  DEFAULT_CONNECTION_TIMEOUT_def DEFAULT_HANDSHAKE_TIMEOUT_def DEFAULT_PAIRING_TIMEOUT_def DEFAULT_SHUTDOWN_TIMEOUT_def
  DEFAULT_MAX_INFLIGHT_CONNECTIONS_def DEFAULT_MAX_ACTIVE_SESSIONS_def DEFAULT_MAX_PENDING_PAIRINGS_def
  DEFAULT_MAX_IPC_CLIENTS_def DEFAULT_MAX_OUTBOUND_CONNECTS_def

lemma daemon_config_new_valid: "daemon_config_validate (daemon_config_new os name) = Ok ()"
  by (simp add: daemon_config_new_def daemon_config_validate_def validate_nonzero_duration_def validate_count_def default_limits
      HARD_MAX_INFLIGHT_CONNECTIONS_def HARD_MAX_OUTBOUND_CONNECTS_def HARD_MAX_ACTIVE_SESSIONS_def HARD_MAX_PENDING_PAIRINGS_def
      HARD_MAX_IPC_CLIENTS_def)

lemma start_config_ok:
  "daemon_config_validate start_config = Ok ()"
  "pairing_metadata (dc_device_name start_config) (dc_platform start_config) = Ok example_metadata"
  by (simp_all add: start_config_def daemon_config_new_valid)
    (simp add: daemon_config_new_def pairing_metadata_def hello_metadata_new_def example_metadata_def validate_hello_metadata_def
      validate_metadata_def MAX_DEVICE_NAME_LEN_def MAX_PLATFORM_LEN_def MAX_CAPABILITIES_def)

lemma example_dir_outside: "fp_parent example_dir \<noteq> Some ''/rift''"
  by (simp add: example_dir_def)

lemma example_honest: "honest example_host" "honest orphaned_host"
  by (simp_all add: honest_def example_host_def orphaned_host_def empty_disk_def)

lemma orphaned_start:
  "\<exists>h'. start example_start start_config ''/rift'' example_dir orphaned_host = Some (Err Dae_IdentityMissingWithExistingState, h')"
proof -
  let ?T = "join ''/rift'' TRUST_FILE_NAME" and ?L = "join ''/rift'' LOCK_FILE_NAME"
  have ne: "example_dir \<noteq> join ''/rift'' a" for a by (simp add: example_dir_def join_def)
  have h: "dk_faults (hs_disk orphaned_host) = (\<lambda>_. None)" "dk_nodes (hs_disk orphaned_host) = [?T \<mapsto> private_node []]" "\<not> hs_locked orphaned_host"
    by (simp_all add: orphaned_host_def example_host_def empty_disk_def)
  obtain d1 x where p1: "prepare_data_directory example_dir (hs_disk orphaned_host) = (Ok (), d1)" "dk_nodes d1 = [?T \<mapsto> private_node [], example_dir \<mapsto> x]"
    using quiet_prepare [OF h(1), of example_dir] h(2) ne [of TRUST_FILE_NAME] by auto
  have f1: "dk_faults d1 = (\<lambda>_. None)" using within_faults [OF within_prepare_data_directory p1(1)] h(1) by simp
  obtain h2 y where p2: "lock_acquire ''/rift'' (orphaned_host\<lparr>hs_disk := d1\<rparr>) = (Ok (), h2)" "dk_nodes (hs_disk h2) = (dk_nodes d1)(?L \<mapsto> y)"
    using quiet_lock [of "orphaned_host\<lparr>hs_disk := d1\<rparr>" "''/rift''"] f1 p1(2) h(3) ne [of LOCK_FILE_NAME] by (auto simp: file_names)
  have f2: "dk_faults (hs_disk h2) = (\<lambda>_. None)" using lock_acquire_effect(1) [OF p2(1)] f1 by simp
  have nodes: "dk_nodes (hs_disk h2) ?T \<noteq> None" "dk_nodes (hs_disk h2) (join ''/rift'' IDENTITY_FILE_NAME) = None"
    "dk_nodes (hs_disk h2) (join ''/rift'' DESCRIPTOR_FILE_NAME) = None" "dk_nodes (hs_disk h2) (join ''/rift'' SOCKET_FILE_NAME) = None"
    using p2(2) p1(2) ne [symmetric] by (simp_all add: file_names)
  then have "open_identity example_start ''/rift'' (hs_disk h2) = Some (Err Dae_IdentityMissingWithExistingState, hs_disk h2)"
    using f2 by (simp add: open_identity_def path_exists_def dae_io_def fs_fault_def st_bind_def Let_def split: option.splits)
  then have "start_prepared example_start start_config ''/rift'' (artifacts_of ''/rift'') (hs_disk h2) =
      Some (Err Dae_IdentityMissingWithExistingState, hs_disk h2)"
    by (simp add: start_prepared_def)
  then show ?thesis using p1(1) p2(1) quiet_artifacts [OF f2 nodes(3,4)] start_config_ok by (simp add: start_def)
qed

lemma started_ready:
  assumes "start sv config data_dir dir h = Some (Ok s, h')" and "fp_parent dir \<noteq> Some data_dir" and "honest h"
  shows "\<not> hs_locked h \<and> hs_locked h' \<and>
    (\<exists>bs. sv_to_vec_pretty sv (sd_descriptor s) = Some bs \<and>
       dk_nodes (hs_disk h') (join data_dir DESCRIPTOR_FILE_NAME) = Some (private_node bs)) \<and>
    rd_auth_token (sd_descriptor s) = sd_auth_token s \<and> auth_generate (sv_hex_encode sv) (sv_fill_token sv) = Ok (sd_auth_token s) \<and>
    (\<exists>i. identity_load (sv_blake3 sv) (sv_public sv) (join data_dir IDENTITY_FILE_NAME) (hs_disk h') = (Ok i, hs_disk h') \<and>
       dm_device_id (sd_daemon s) = sti_device_id i) \<and>
    loop_initial ((spawn_accept_worker ^^ dc_max_inflight_connections config) (sd_daemon s))"
  using assms
proof (cases rule: start_cases)
  case (locked d q d')
  then have q: "q = Ok s" "hs_disk h' = d'" "hs_locked h'" by (cases q; simp)+
  show ?thesis
    using locked(3) unfolding q(1)
  proof (cases rule: start_prepared_Ok)
    case (1 i endpoint store sc)
    have "loop_initial ((spawn_accept_worker ^^ dc_max_inflight_connections config) (sd_daemon s))"
      unfolding loop_initial_def 1(1) using locked(2) 1(2,3) by blast
    moreover have "dm_device_id (sd_daemon s) = sti_device_id i" using 1(1) by (simp add: daemon_ready_def)
    ultimately show ?thesis using 1(4-7) q(2,3) locked(1) by blast
  qed
qed simp_all

section \<open>Properties\<close>

text \<open>
  C11: one daemon owns a data directory. While the lock is held, starting another daemon on the directory returns an
  error, leaves the lock with its holder, and changes no file but the lock file and the directory entry: the running
  daemon's descriptor, socket, identity and journal stay as they are.
\<close>

theorem start_excludes_second:
  assumes "hs_locked h" and "fp_parent dir \<noteq> Some data_dir"
  shows "\<exists>e h'. start sv config data_dir dir h = Some (Err e, h') \<and> hs_locked h' \<and>
    (\<forall>p. p \<noteq> dir \<and> p \<noteq> join data_dir LOCK_FILE_NAME \<longrightarrow> dk_nodes (hs_disk h') p = dk_nodes (hs_disk h) p)"
proof -
  let ?valid = "and_then (daemon_config_validate config) (\<lambda>_.
           map_err (\<lambda>_. Dae_InvalidConfiguration ''device_name or platform exceeds Hello bounds'')
             (pairing_metadata (dc_device_name config) (dc_platform config)))"
  obtain r1 d1 where p1: "prepare_data_directory dir (hs_disk h) = (r1, d1)" by fastforce
  obtain r2 h2 where p2: "lock_acquire data_dir (h\<lparr>hs_disk := d1\<rparr>) = (r2, h2)" by fastforce
  note e1 = within_nodes [OF within_prepare_data_directory p1] and e2 = lock_acquire_effect [OF p2, simplified]
  obtain e where "r2 = Err e" using e2(4) assms(1) by (cases r2) auto
  then have "\<exists>e. start sv config data_dir dir h = Some (Err e, h) \<or> start sv config data_dir dir h = Some (Err e, h\<lparr>hs_disk := d1\<rparr>) \<or>
      start sv config data_dir dir h = Some (Err e, h2)"
    using p1 p2 by (cases ?valid; cases r1) (auto simp: start_def)
  then show ?thesis using assms(1) e1 e2(2,3) by auto
qed

theorem start_excludes_second_witness:
  "\<exists>e h'. start example_start start_config ''/rift'' example_dir (example_host\<lparr>hs_locked := True\<rparr>) = Some (Err e, h') \<and> hs_locked h'"
  using start_excludes_second [of "example_host\<lparr>hs_locked := True\<rparr>" example_dir "''/rift''" example_start start_config]
    example_dir_outside by auto

text \<open>
  C35: a start that fails leaves nothing of a running daemon. The lock it may have taken is free again, and where removing
  files works, no runtime descriptor or socket of the failed start remains: each is gone or is the one that was
  there before, so that no client is led to a daemon that does not run.
\<close>

theorem failed_start_cleans_up:
  assumes "start sv config data_dir dir h = Some (Err e, h')" and "fp_parent dir \<noteq> Some data_dir" and "honest h"
    and "\<not> hs_locked h" and "dk_faults (hs_disk h) ''remove runtime descriptor'' = None"
    and "dk_faults (hs_disk h) ''remove IPC socket'' = None" and "a \<in> {DESCRIPTOR_FILE_NAME, SOCKET_FILE_NAME}"
  shows "\<not> hs_locked h' \<and> dk_nodes (hs_disk h') (join data_dir a) \<in> {None, dk_nodes (hs_disk h) (join data_dir a)}"
  using assms(1-3)
proof (cases rule: start_cases)
  case refused
  have "join data_dir a \<noteq> dir" "join data_dir a \<noteq> join data_dir LOCK_FILE_NAME" using assms(2,7) by (auto simp: file_names)
  with refused assms(4) show ?thesis by simp
next
  case clearing
  with assms(7) show ?thesis by simp
next
  case (locked d q d')
  then obtain e' where q: "q = Err e'" "hs_disk h' = artifacts_drop (artifacts_of data_dir) d'" "\<not> hs_locked h'"
    by (cases q) auto
  note effect = start_prepared_effect [OF locked(3,6,7)]
  have "dk_nodes (artifacts_drop (artifacts_of data_dir) d') (join data_dir a) = None"
    using dropped_artifacts [OF _ _ effect(2,3) assms(7)] effect(1) locked(4) assms(5,6) by simp
  with q show ?thesis by simp
qed

theorem failed_start_cleans_up_witness:
  "\<exists>e h'. start example_start start_config ''/rift'' example_dir orphaned_host = Some (Err e, h') \<and>
    \<not> hs_locked h' \<and> dk_nodes (hs_disk h') (join ''/rift'' SOCKET_FILE_NAME) = None"
proof -
  obtain h' where run: "start example_start start_config ''/rift'' example_dir orphaned_host = Some (Err Dae_IdentityMissingWithExistingState, h')"
    using orphaned_start by blast
  show ?thesis
    using run failed_start_cleans_up [OF run example_dir_outside example_honest(2), of SOCKET_FILE_NAME]
    by (simp add: orphaned_host_def example_host_def empty_disk_def file_names)
qed

text \<open>
  C14: a daemon that has started owns the directory and can be found. The lock is held; the descriptor on disk is
  readable by its owner only, holds the serialized descriptor and so the token clients authenticate with, which is the
  encoding of fresh random bytes; the identity on disk loads to the device id the daemon runs under; and with its accept
  workers spawned it is an initial state of the runtime loop, so that the invariants of the loop hold from there.
\<close>

theorem started_daemon_ready:
  assumes "start sv config data_dir dir h = Some (Ok s, h')" and "fp_parent dir \<noteq> Some data_dir" and "honest h"
  shows "\<not> hs_locked h \<and> hs_locked h' \<and>
    (\<exists>bs. sv_to_vec_pretty sv (sd_descriptor s) = Some bs \<and>
       dk_nodes (hs_disk h') (join data_dir DESCRIPTOR_FILE_NAME) = Some (private_node bs)) \<and>
    rd_auth_token (sd_descriptor s) = sd_auth_token s \<and> auth_generate (sv_hex_encode sv) (sv_fill_token sv) = Ok (sd_auth_token s) \<and>
    (\<exists>i. identity_load (sv_blake3 sv) (sv_public sv) (join data_dir IDENTITY_FILE_NAME) (hs_disk h') = (Ok i, hs_disk h') \<and>
       dm_device_id (sd_daemon s) = sti_device_id i) \<and>
    loop_initial ((spawn_accept_worker ^^ dc_max_inflight_connections config) (sd_daemon s))"
  by (rule started_ready [OF assms])

theorem started_daemon_ready_witness:
  "\<exists>s h'. start example_start start_config ''/rift'' example_dir example_host = Some (Ok s, h') \<and> hs_locked h' \<and>
    loop_initial ((spawn_accept_worker ^^ 32) (sd_daemon s))"
proof -
  obtain s h' where run: "start example_start start_config ''/rift'' example_dir example_host = Some (Ok s, h')"
    using quiet_start [OF _ _ _ start_config_ok example_start_willing example_dir_outside, of example_host]
    by (auto simp: example_host_def empty_disk_def)
  have "dc_max_inflight_connections start_config = 32" by (simp add: start_config_def daemon_config_new_def default_limits)
  with run started_daemon_ready [OF run example_dir_outside example_honest(1)] show ?thesis by auto
qed

text \<open>
  C10: the daemon never takes a new identity over existing trust decisions. Where the trust journal is there and the
  identity file is not, no start succeeds, none creates an identity, and the journal stays as it is.
\<close>

theorem orphaned_journal_refused:
  assumes "start sv config data_dir dir h = Some (r, h')" and "fp_parent dir \<noteq> Some data_dir" and "honest h"
    and "dk_nodes (hs_disk h) (join data_dir TRUST_FILE_NAME) = Some n"
    and "dk_nodes (hs_disk h) (join data_dir IDENTITY_FILE_NAME) = None"
  shows "\<not> is_ok r \<and> dk_nodes (hs_disk h') (join data_dir IDENTITY_FILE_NAME) = None \<and>
    dk_nodes (hs_disk h') (join data_dir TRUST_FILE_NAME) = Some n"
  using assms(1-3)
proof (cases rule: start_cases)
  case refused
  have "dir \<noteq> join data_dir a" for a using assms(2) by auto
  with refused assms(4,5) show ?thesis by (simp add: file_names eq_commute [of _ dir])
next
  case clearing
  with assms(4,5) show ?thesis by simp
next
  case (locked d q d')
  have nodes: "dk_nodes d (join data_dir TRUST_FILE_NAME) = Some n" "dk_nodes d (join data_dir IDENTITY_FILE_NAME) = None"
    using locked(5) assms(4,5) by simp_all
  obtain r1 d1 where id: "open_identity sv data_dir d = Some (r1, d1)"
    using locked(3) by (auto simp: start_prepared_def split: option.splits)
  have "dk_faults d ''inspect trust state'' \<noteq> Some NotFound" using locked(4) assms(3) by (simp add: honest_def)
  then have "\<not> is_ok r1" "d1 = d" using open_identity_effect(3) [OF id] nodes by simp_all
  then obtain e where "q = Err e" "d' = d" using locked(3) id by (cases r1) (auto simp: start_prepared_def)
  then have "r = Err e" "hs_disk h' = artifacts_drop (artifacts_of data_dir) d" using locked(8) by simp_all
  then show ?thesis using nodes by (simp add: within_artifacts_drop file_names)
qed

theorem orphaned_journal_refused_witness:
  "\<exists>r h'. start example_start start_config ''/rift'' example_dir orphaned_host = Some (r, h') \<and> \<not> is_ok r \<and>
    dk_nodes (hs_disk h') (join ''/rift'' IDENTITY_FILE_NAME) = None"
proof -
  obtain h' where run: "start example_start start_config ''/rift'' example_dir orphaned_host = Some (Err Dae_IdentityMissingWithExistingState, h')"
    using orphaned_start by blast
  show ?thesis
    using run orphaned_journal_refused [OF run example_dir_outside example_honest(2), of "private_node []"]
    by (simp add: orphaned_host_def empty_disk_def file_names)
qed

text \<open>
  The first start succeeds. On an empty disk that reports no fault, with the default configuration and a device name
  within the bounds of Hello, a directory path short enough for a socket, and an environment that serves
  every call, starting the daemon ends, and ends with a running daemon.
\<close>

theorem first_start_succeeds:
  assumes "dk_faults (hs_disk h) = (\<lambda>_. None)" "dk_nodes (hs_disk h) = (\<lambda>_. None)" "\<not> hs_locked h"
    and "length name \<le> MAX_DEVICE_NAME_LEN" "length os \<le> MAX_PLATFORM_LEN"
    and "willing sv" and "fp_parent dir \<noteq> Some data_dir" and "length data_dir \<le> 90"
  shows "\<exists>s h'. start sv (daemon_config_new os name) data_dir dir h = Some (Ok s, h')"
proof -
  have "dc_device_name (daemon_config_new os name) = name" "dc_platform (daemon_config_new os name) = os"
    by (simp_all add: daemon_config_new_def)
  moreover have "\<exists>m. pairing_metadata name os = Ok m"
    using assms(4,5) by (simp add: pairing_metadata_def hello_metadata_new_def validate_metadata_def MAX_CAPABILITIES_def)
  ultimately show ?thesis
    using quiet_start [OF assms(1-3) daemon_config_new_valid _ assms(6-8)] by metis
qed

theorem first_start_succeeds_witness:
  "\<exists>s h'. start example_start start_config ''/rift'' example_dir example_host = Some (Ok s, h')"
  using first_start_succeeds [OF _ _ _ _ _ example_start_willing example_dir_outside, of example_host "''alice''" "''linux''"]
  by (simp add: start_config_def example_host_def empty_disk_def MAX_DEVICE_NAME_LEN_def MAX_PLATFORM_LEN_def)

end
