(* ===== verification/Architecture_Policy.thy ===== *)
theory Architecture_Policy
  imports Rift_Prelude "HOL-Library.Char_ord" "HOL-Library.Product_Lexorder"
begin

text \<open>
  The dependency policy of the workspace (\<open>xtask/src/main.rs\<close>, \<open>DependencyPolicy\<close>), which the validation of the
  repository runs on the metadata that cargo reports: reading the metadata, the checks of direct dependencies, of
  requirements and of everything a package can reach, and the rules for the crates of this development. The search is
  compared with the transitive closure of the resolved dependencies, and the rules with an order of layers.
\<close>

section \<open>Cargo metadata\<close>

record manifest_dependency =
  md_name :: string
  md_req :: string
  md_kind :: "string option"
  md_target :: "string option"

record cargo_package =
  pkg_id :: string
  pkg_name :: string
  pkg_dependencies :: "manifest_dependency list"

record cargo_resolve_node =
  rn_id :: string
  rn_deps :: "string list"

record cargo_metadata =
  cm_packages :: "cargo_package list"
  cm_workspace_members :: "string list"
  cm_nodes :: "cargo_resolve_node list"

datatype policy_error =
    Pol_UnexpectedSchema
  | Pol_NodeWithoutPackage string
  | Pol_DependencyWithoutPackage string
  | Pol_PackageMissing string
  | Pol_MultiplePackages string
  | Pol_NoMetadata string
  | Pol_NoResolvedNode string
  | Pol_MustDepend string string
  | Pol_MustNotDepend string string
  | Pol_ReachesForbidden string string
  | Pol_MustDeclare string string
  | Pol_MustPin string string string string string string
  | Pol_MustResolve string string

section \<open>The policy\<close>

text \<open>A \<open>BTreeSet\<close> is an ordered map to the unit.\<close>

record dependency_policy =
  dp_package_names :: "(string, string) btree"
  dp_workspace_members :: "(string, unit) btree"
  dp_resolved_dependencies :: "(string, (string, unit) btree) btree"
  dp_requirements :: "(string \<times> string, manifest_dependency list) btree"

definition collect_set :: "string list \<Rightarrow> (string, unit) btree" where
  "collect_set xs = fold (\<lambda>x. bt_insert x ()) xs []"

definition collect_names :: "cargo_package list \<Rightarrow> (string, string) btree" where
  "collect_names ps = fold (\<lambda>p. bt_insert (pkg_id p) (pkg_name p)) ps []"

definition push_requirement ::
  "string \<Rightarrow> manifest_dependency \<Rightarrow> (string \<times> string, manifest_dependency list) btree \<Rightarrow>
     (string \<times> string, manifest_dependency list) btree" where
  "push_requirement i d m =
     bt_insert (i, md_name d) ((case bt_get m (i, md_name d) of None \<Rightarrow> [] | Some ds \<Rightarrow> ds) @ [d]) m"

definition collect_requirements :: "cargo_package list \<Rightarrow> (string \<times> string, manifest_dependency list) btree" where
  "collect_requirements ps = fold (\<lambda>p. fold (push_requirement (pkg_id p)) (pkg_dependencies p)) ps []"

text \<open>A loop whose body may return early.\<close>

fun for_each :: "('a \<Rightarrow> ('e, unit) result) \<Rightarrow> 'a list \<Rightarrow> ('e, unit) result" where
  "for_each f [] = Ok ()"
| "for_each f (x # xs) = and_then (f x) (\<lambda>_. for_each f xs)"

fun collect_resolved ::
  "(string, string) btree \<Rightarrow> cargo_resolve_node list \<Rightarrow> (string, (string, unit) btree) btree \<Rightarrow>
     (policy_error, (string, (string, unit) btree) btree) result" where
  "collect_resolved names [] m = Ok m"
| "collect_resolved names (node # nodes) m =
     (if \<not> bt_contains names (rn_id node) then Err (Pol_NodeWithoutPackage (rn_id node))
      else let dependencies = collect_set (rn_deps node) in
        and_then (for_each (\<lambda>d. if bt_contains names d then Ok () else Err (Pol_DependencyWithoutPackage d)) (bt_keys dependencies))
          (\<lambda>_. collect_resolved names nodes (bt_insert (rn_id node) dependencies m)))"

text \<open>\<open>None\<close> is a JSON value that serde does not accept as metadata.\<close>

definition from_metadata :: "cargo_metadata option \<Rightarrow> (policy_error, dependency_policy) result" where
  "from_metadata value =
     and_then (ok_or value Pol_UnexpectedSchema) (\<lambda>metadata.
     let package_names = collect_names (cm_packages metadata) in
     and_then (collect_resolved package_names (cm_nodes metadata) []) (\<lambda>resolved_dependencies.
     Ok \<lparr>dp_package_names = package_names, dp_workspace_members = collect_set (cm_workspace_members metadata),
         dp_resolved_dependencies = resolved_dependencies, dp_requirements = collect_requirements (cm_packages metadata)\<rparr>))"

section \<open>The checks\<close>

definition workspace_package_id :: "dependency_policy \<Rightarrow> string \<Rightarrow> (policy_error, string) result" where
  "workspace_package_id p package =
     (case filter (\<lambda>i. bt_get (dp_package_names p) i = Some package) (bt_keys (dp_workspace_members p)) of
        [] \<Rightarrow> Err (Pol_PackageMissing package)
      | [i] \<Rightarrow> Ok i
      | _ \<Rightarrow> Err (Pol_MultiplePackages package))"

definition package_name :: "dependency_policy \<Rightarrow> string \<Rightarrow> (policy_error, string) result" where
  "package_name p i = ok_or (bt_get (dp_package_names p) i) (Pol_NoMetadata i)"

definition require_direct :: "dependency_policy \<Rightarrow> string \<Rightarrow> string \<Rightarrow> (policy_error, unit) result" where
  "require_direct p package required =
     and_then (workspace_package_id p package) (\<lambda>i.
     and_then (ok_or (bt_get (dp_resolved_dependencies p) i) (Pol_NoResolvedNode package)) (\<lambda>dependencies.
     if list_ex (\<lambda>d. bt_get (dp_package_names p) d = Some required) (bt_keys dependencies) then Ok ()
     else Err (Pol_MustDepend package required)))"

definition reject_direct :: "dependency_policy \<Rightarrow> string \<Rightarrow> string \<Rightarrow> (policy_error, unit) result" where
  "reject_direct p package forbidden =
     and_then (workspace_package_id p package) (\<lambda>i.
     case bt_get (dp_resolved_dependencies p) i of
       None \<Rightarrow> Ok ()
     | Some dependencies \<Rightarrow>
         for_each (\<lambda>d. and_then (package_name p d) (\<lambda>n.
           if n = forbidden then Err (Pol_MustNotDepend package forbidden) else Ok ())) (bt_keys dependencies))"

text \<open>The stack of the search has its top first; the dependencies are pushed in order.\<close>

fun push_dependencies ::
  "dependency_policy \<Rightarrow> string \<Rightarrow> string list \<Rightarrow> string list \<Rightarrow> string list \<Rightarrow> (policy_error, string list) result" where
  "push_dependencies p package forbidden [] pending = Ok pending"
| "push_dependencies p package forbidden (d # ds) pending =
     and_then (package_name p d) (\<lambda>n.
     if n \<in> set forbidden then Err (Pol_ReachesForbidden package n)
     else push_dependencies p package forbidden ds (d # pending))"

function search ::
  "dependency_policy \<Rightarrow> string \<Rightarrow> string list \<Rightarrow> string list \<Rightarrow> (string, unit) btree \<Rightarrow> (policy_error, unit) result" where
  "search p package forbidden [] visited = Ok ()"
| "search p package forbidden (current # pending) visited =
     (if bt_contains visited current then search p package forbidden pending visited
      else case bt_get (dp_resolved_dependencies p) current of
          None \<Rightarrow> search p package forbidden pending (bt_insert current () visited)
        | Some dependencies \<Rightarrow>
            (case push_dependencies p package forbidden (bt_keys dependencies) pending of
               Err e \<Rightarrow> Err e
             | Ok pending' \<Rightarrow> search p package forbidden pending' (bt_insert current () visited)))"
  by pat_completeness auto

text \<open>Every turn visits a resolved package for the first time or shortens the stack.\<close>

termination
proof (relation "measures [\<lambda>(p, _, _, _, visited). card (set (bt_keys (dp_resolved_dependencies p)) - set (bt_keys visited)),
    \<lambda>(_, _, _, pending, _). length pending]", goal_cases)
  case (3 p package forbidden current pending visited)
  then have "set (bt_keys (dp_resolved_dependencies p)) - set (bt_keys (bt_insert current () visited)) =
      set (bt_keys (dp_resolved_dependencies p)) - set (bt_keys visited)"
    by (auto simp: set_bt_keys_insert bt_get_None_iff)
  then show ?case by simp
next
  case (4 p package forbidden current pending visited dependencies pending')
  then have "current \<in> set (bt_keys (dp_resolved_dependencies p)) - set (bt_keys visited)"
    using bt_get_None_iff [of "dp_resolved_dependencies p" current] by (simp add: bt_contains_iff)
  then have "card (set (bt_keys (dp_resolved_dependencies p)) - set (bt_keys visited) - {current}) <
      card (set (bt_keys (dp_resolved_dependencies p)) - set (bt_keys visited))"
    by (intro card_Diff1_less) auto
  moreover have "set (bt_keys (dp_resolved_dependencies p)) - set (bt_keys (bt_insert current () visited)) =
      set (bt_keys (dp_resolved_dependencies p)) - set (bt_keys visited) - {current}"
    by (auto simp: set_bt_keys_insert)
  ultimately show ?case by simp
qed auto

definition reject_reachable :: "dependency_policy \<Rightarrow> string \<Rightarrow> string list \<Rightarrow> (policy_error, unit) result" where
  "reject_reachable p package forbidden =
     and_then (workspace_package_id p package) (\<lambda>i. search p package forbidden [i] [])"

definition require_exact :: "dependency_policy \<Rightarrow> string \<Rightarrow> string \<Rightarrow> string \<Rightarrow> (policy_error, unit) result" where
  "require_exact p package dependency expected =
     and_then (workspace_package_id p package) (\<lambda>i.
     and_then (ok_or (bt_get (dp_requirements p) (i, dependency)) (Pol_MustDeclare package dependency)) (\<lambda>requirements.
     and_then (for_each (\<lambda>d.
         if md_req d = expected then Ok ()
         else Err (Pol_MustPin package dependency expected (md_req d)
           (case md_kind d of None \<Rightarrow> ''normal'' | Some k \<Rightarrow> k)
           (case md_target d of None \<Rightarrow> ''all targets'' | Some t \<Rightarrow> t))) requirements) (\<lambda>_.
     if list_ex (\<lambda>d. bt_get (dp_package_names p) d = Some dependency)
          (case bt_get (dp_resolved_dependencies p) i of None \<Rightarrow> [] | Some ds \<Rightarrow> bt_keys ds)
     then Ok () else Err (Pol_MustResolve package dependency))))"

section \<open>The rules of the workspace\<close>

definition production_packages :: "string list" where
  "production_packages = [''rift-core'', ''rift-protocol'', ''rift-transfer'', ''rift-transport-iroh'', ''rift-trust'',
     ''rift-session'', ''rift-identity'', ''rift-ipc'', ''rift-daemon'']"

definition required_edges :: "(string \<times> string) list" where
  "required_edges =
     [(''rift-protocol'', ''rift-core''), (''rift-transfer'', ''rift-core''), (''rift-transfer'', ''rift-protocol''),
      (''rift-transport-iroh'', ''rift-core''), (''rift-transport-iroh'', ''rift-protocol''), (''rift-trust'', ''rift-core'')] @
     map (Pair ''rift-session'') [''rift-core'', ''rift-protocol'', ''rift-transport-iroh'', ''rift-trust''] @
     [(''rift-identity'', ''rift-core''), (''rift-identity'', ''iroh''), (''rift-ipc'', ''rift-core'')] @
     map (Pair ''rift-daemon'') [''rift-core'', ''rift-identity'', ''rift-ipc'', ''rift-session'', ''rift-transport-iroh'',
       ''rift-trust'']"

definition forbidden_reach :: "(string \<times> string list) list" where
  "forbidden_reach =
     [(''rift-core'', [''rift-protocol'', ''rift-transport-iroh'', ''rift-trust'', ''rift-session'', ''rift-identity'', ''rift-ipc'',
         ''rift-daemon'', ''iroh'', ''iroh-relay'']),
      (''rift-protocol'', [''rift-transport-iroh'', ''rift-trust'', ''rift-session'', ''rift-identity'', ''rift-ipc'',
         ''rift-daemon'', ''iroh'', ''iroh-relay'']),
      (''rift-trust'', [''rift-protocol'', ''rift-transport-iroh'', ''rift-session'', ''rift-identity'', ''rift-ipc'',
         ''rift-daemon'', ''iroh'', ''iroh-relay'']),
      (''rift-transport-iroh'', [''rift-trust'', ''rift-session'', ''rift-identity'', ''rift-ipc'', ''rift-daemon'']),
      (''rift-session'', [''rift-identity'', ''rift-ipc'', ''rift-daemon'']),
      (''rift-identity'', [''rift-protocol'', ''rift-transport-iroh'', ''rift-trust'', ''rift-session'', ''rift-ipc'',
         ''rift-daemon'']),
      (''rift-ipc'', [''rift-protocol'', ''rift-transport-iroh'', ''rift-trust'', ''rift-session'', ''rift-identity'',
         ''rift-daemon'', ''iroh'', ''iroh-relay'']),
      (''rift-transfer'', [''rift-transport-iroh'', ''rift-session'', ''rift-trust'', ''rift-identity'', ''rift-ipc'',
         ''rift-daemon'', ''rift-spike'', ''iroh'', ''iroh-relay''])] @
     map (\<lambda>package. (package, [''rift-transfer''])) [''rift-core'', ''rift-protocol'', ''rift-transport-iroh'', ''rift-session'',
       ''rift-trust'', ''rift-identity'', ''rift-ipc'']"

definition forbidden_edges :: "(string \<times> string) list" where
  "forbidden_edges = [(''rift-daemon'', ''rift-protocol''), (''rift-daemon'', ''iroh'')] @
     map (\<lambda>package. (package, ''iroh-relay'')) production_packages"

definition pinned :: "(string \<times> string) list" where
  "pinned = [(''rift-transport-iroh'', ''iroh''), (''rift-identity'', ''iroh''), (''rift-spike'', ''iroh''), (''rift-spike'', ''iroh-relay'')]"

definition validate :: "dependency_policy \<Rightarrow> (policy_error, unit) result" where
  "validate p =
     and_then (for_each (\<lambda>package. and_then (workspace_package_id p package) (\<lambda>_. Ok ())) production_packages) (\<lambda>_.
     and_then (for_each (\<lambda>(package, required). require_direct p package required) required_edges) (\<lambda>_.
     and_then (for_each (\<lambda>(package, forbidden). reject_reachable p package forbidden) forbidden_reach) (\<lambda>_.
     and_then (for_each (\<lambda>(package, forbidden). reject_direct p package forbidden) forbidden_edges) (\<lambda>_.
     for_each (\<lambda>(package, dependency). require_exact p package dependency ''=1.0.3'') pinned))))"

section \<open>Notions of the properties\<close>

text \<open>The resolved dependencies as a relation on package ids.\<close>

definition depends :: "dependency_policy \<Rightarrow> (string \<times> string) set" where
  "depends p = {(a, b). \<exists>ds. bt_get (dp_resolved_dependencies p) a = Some ds \<and> b \<in> set (bt_keys ds)}"

definition named :: "dependency_policy \<Rightarrow> string \<Rightarrow> string \<Rightarrow> bool" where
  "named p i n = (bt_get (dp_package_names p) i = Some n)"

text \<open>The layers of the production crates, from the domain types up to the daemon.\<close>

definition layers :: "(string \<times> nat) list" where
  "layers = [(''rift-core'', 0), (''rift-protocol'', 1), (''rift-trust'', 1), (''rift-identity'', 1), (''rift-ipc'', 1),
     (''rift-transfer'', 2), (''rift-transport-iroh'', 2), (''rift-session'', 3), (''rift-daemon'', 4)]"

definition layer :: "string \<Rightarrow> nat option" where
  "layer n = map_of layers n"

text \<open>The crates that must work without the network library.\<close>

definition offline_packages :: "string list" where
  "offline_packages = [''rift-core'', ''rift-protocol'', ''rift-trust'', ''rift-ipc'', ''rift-transfer'']"

text \<open>A package from which everything one step away is allowed.\<close>

definition allowed_from :: "dependency_policy \<Rightarrow> string list \<Rightarrow> string \<Rightarrow> bool" where
  "allowed_from p forbidden a = (\<forall>d. (a, d) \<in> depends p \<longrightarrow> (\<exists>n. named p d n \<and> n \<notin> set forbidden))"

text \<open>A set closed under the dependencies from which only allowed packages are reached.\<close>

definition closed_over :: "dependency_policy \<Rightarrow> string list \<Rightarrow> string set \<Rightarrow> bool" where
  "closed_over p forbidden S = (\<exists>V. S \<subseteq> V \<and> depends p `` V \<subseteq> V \<and> (\<forall>a \<in> V. allowed_from p forbidden a))"

text \<open>The nodes whose package and dependencies have names.\<close>

definition known_node :: "(string, string) btree \<Rightarrow> cargo_resolve_node \<Rightarrow> bool" where
  "known_node names n = (\<forall>i \<in> insert (rn_id n) (set (rn_deps n)). bt_contains names i)"

section \<open>Example values\<close>

definition example_graph :: "(string \<times> (string, unit) btree) list" where
  "example_graph =
     [(''c'', []), (''d'', [(''c'', ()), (''i'', ()), (''l'', ()), (''s'', ()), (''t'', ()), (''u'', ())]),
      (''i'', [(''c'', ()), (''n'', ())]), (''l'', [(''c'', ())]), (''n'', []), (''p'', [(''c'', ())]), (''r'', []),
      (''s'', [(''c'', ()), (''p'', ()), (''t'', ()), (''u'', ())]), (''t'', [(''c'', ()), (''n'', ()), (''p'', ())]),
      (''u'', [(''c'', ())]), (''x'', [(''c'', ()), (''p'', ())]), (''z'', [(''n'', ()), (''r'', ())])]"

definition example_names :: "(string, string) btree" where
  "example_names =
     [(''c'', ''rift-core''), (''d'', ''rift-daemon''), (''i'', ''rift-identity''), (''l'', ''rift-ipc''), (''n'', ''iroh''),
      (''p'', ''rift-protocol''), (''r'', ''iroh-relay''), (''s'', ''rift-session''), (''t'', ''rift-transport-iroh''),
      (''u'', ''rift-trust''), (''x'', ''rift-transfer''), (''z'', ''rift-spike'')]"

definition example_pin :: "string \<Rightarrow> manifest_dependency" where
  "example_pin n = \<lparr>md_name = n, md_req = ''=1.0.3'', md_kind = None, md_target = None\<rparr>"

definition example_policy :: dependency_policy where
  "example_policy =
     \<lparr>dp_package_names = example_names,
      dp_workspace_members = map (\<lambda>i. (i, ())) [''c'', ''d'', ''i'', ''l'', ''p'', ''s'', ''t'', ''u'', ''x'', ''z''],
      dp_resolved_dependencies = example_graph,
      dp_requirements = [((''i'', ''iroh''), [example_pin ''iroh'']), ((''t'', ''iroh''), [example_pin ''iroh'']),
        ((''z'', ''iroh''), [example_pin ''iroh'']), ((''z'', ''iroh-relay''), [example_pin ''iroh-relay''])]\<rparr>"

definition example_cargo :: cargo_metadata where
  "example_cargo = \<lparr>cm_packages = [\<lparr>pkg_id = ''c'', pkg_name = ''rift-core'', pkg_dependencies = []\<rparr>,
       \<lparr>pkg_id = ''p'', pkg_name = ''rift-protocol'', pkg_dependencies = []\<rparr>],
     cm_workspace_members = [''c'', ''p''], cm_nodes = [\<lparr>rn_id = ''c'', rn_deps = []\<rparr>, \<lparr>rn_id = ''p'', rn_deps = [''c'']\<rparr>]\<rparr>"

section \<open>Lemmas\<close>

lemma for_each_Ok: "for_each f xs = Ok () \<longleftrightarrow> (\<forall>x \<in> set xs. f x = Ok ())"
  by (induction xs) (auto simp: and_then_Ok_iff)

lemma collect_set_keys: "set (bt_keys (collect_set xs)) = set xs"
proof -
  have "set (bt_keys (fold (\<lambda>x. bt_insert x ()) xs m)) = set xs \<union> set (bt_keys m)" for m :: "(string, unit) btree"
    by (induction xs arbitrary: m) (auto simp: set_bt_keys_insert)
  then show ?thesis by (simp add: collect_set_def)
qed

lemma push_dependencies_Ok:
  "push_dependencies p package forbidden ds pending = Ok pending' \<longleftrightarrow>
    pending' = rev ds @ pending \<and> (\<forall>d \<in> set ds. \<exists>n. named p d n \<and> n \<notin> set forbidden)"
  by (induction ds arbitrary: pending) (auto simp: and_then_Ok_iff package_name_def ok_or_Ok_iff named_def)

lemma closed_over_mono: "closed_over p forbidden S \<Longrightarrow> T \<subseteq> S \<Longrightarrow> closed_over p forbidden T"
  unfolding closed_over_def by (meson subset_trans)

lemma search_sound:
  assumes "search p package forbidden pending visited = Ok ()"
    and "\<And>a d. a \<in> set (bt_keys visited) \<Longrightarrow> (a, d) \<in> depends p \<Longrightarrow> d \<in> set (bt_keys visited) \<union> set pending"
    and "\<And>a. a \<in> set (bt_keys visited) \<Longrightarrow> allowed_from p forbidden a"
  shows "closed_over p forbidden (set pending \<union> set (bt_keys visited))"
  using assms
proof (induction p package forbidden pending visited rule: search.induct)
  case (1 p package forbidden visited)
  then show ?case unfolding closed_over_def by (intro exI [of _ "set (bt_keys visited)"]) auto
next
  case (2 p package forbidden current pending visited)
  let ?visited = "bt_insert current () visited"
  show ?case
  proof (cases "bt_contains visited current")
    case True
    then have "closed_over p forbidden (set pending \<union> set (bt_keys visited))"
      using "2.prems" by (intro "2.IH"(1)) (auto simp: bt_contains_iff)
    then show ?thesis by (rule closed_over_mono) (use True in \<open>auto simp: bt_contains_iff\<close>)
  next
    case new: False
    show ?thesis
    proof (cases "bt_get (dp_resolved_dependencies p) current")
      case None
      then have out: "(current, d) \<notin> depends p" for d by (simp add: depends_def)
      have "closed_over p forbidden (set pending \<union> set (bt_keys ?visited))"
      proof (rule "2.IH"(2) [OF new None])
        show "search p package forbidden pending ?visited = Ok ()" using "2.prems"(1) new None by simp
        show "allowed_from p forbidden a" if "a \<in> set (bt_keys ?visited)" for a
          using that "2.prems"(3) out by (auto simp: set_bt_keys_insert allowed_from_def)
        show "d \<in> set (bt_keys ?visited) \<union> set pending" if "a \<in> set (bt_keys ?visited)" "(a, d) \<in> depends p" for a d
          using that "2.prems"(2) [of a d] out by (auto simp: set_bt_keys_insert)
      qed
      then show ?thesis by (rule closed_over_mono) (auto simp: set_bt_keys_insert)
    next
      case (Some dependencies)
      then have out: "(current, d) \<in> depends p \<longleftrightarrow> d \<in> set (bt_keys dependencies)" for d by (simp add: depends_def)
      obtain pending' where push: "push_dependencies p package forbidden (bt_keys dependencies) pending = Ok pending'"
        using "2.prems"(1) new Some by (simp split: sum.splits)
      then have p': "set pending' = set (bt_keys dependencies) \<union> set pending" "allowed_from p forbidden current"
        by (auto simp: push_dependencies_Ok allowed_from_def out)
      have "closed_over p forbidden (set pending' \<union> set (bt_keys ?visited))"
      proof (rule "2.IH"(3) [OF new Some push])
        show "search p package forbidden pending' ?visited = Ok ()" using "2.prems"(1) new Some push by simp
        show "allowed_from p forbidden a" if "a \<in> set (bt_keys ?visited)" for a
          using that "2.prems"(3) p'(2) by (auto simp: set_bt_keys_insert)
        show "d \<in> set (bt_keys ?visited) \<union> set pending'" if "a \<in> set (bt_keys ?visited)" "(a, d) \<in> depends p" for a d
          using that "2.prems"(2) [of a d] out p'(1) by (auto simp: set_bt_keys_insert)
      qed
      then show ?thesis by (rule closed_over_mono) (auto simp: set_bt_keys_insert p'(1))
    qed
  qed
qed

lemma search_complete:
  assumes "\<And>a. (\<exists>s \<in> set pending. (s, a) \<in> (depends p)\<^sup>*) \<Longrightarrow> allowed_from p forbidden a"
  shows "search p package forbidden pending visited = Ok ()"
  using assms
proof (induction p package forbidden pending visited rule: search.induct)
  case (2 p package forbidden current pending visited)
  show ?case
  proof (cases "bt_contains visited current")
    case True
    then show ?thesis using "2.IH"(1) "2.prems" by auto
  next
    case new: False
    show ?thesis
    proof (cases "bt_get (dp_resolved_dependencies p) current")
      case None
      then show ?thesis using "2.IH"(2) "2.prems" new by auto
    next
      case (Some dependencies)
      then have out: "(current, d) \<in> depends p \<longleftrightarrow> d \<in> set (bt_keys dependencies)" for d by (simp add: depends_def)
      have "allowed_from p forbidden current" by (rule "2.prems") auto
      then have push: "push_dependencies p package forbidden (bt_keys dependencies) pending = Ok (rev (bt_keys dependencies) @ pending)"
        by (auto simp: push_dependencies_Ok allowed_from_def out)
      have "search p package forbidden (rev (bt_keys dependencies) @ pending) (bt_insert current () visited) = Ok ()"
      proof (rule "2.IH"(3) [OF new Some push])
        fix a
        assume "\<exists>s \<in> set (rev (bt_keys dependencies) @ pending). (s, a) \<in> (depends p)\<^sup>*"
        then have "\<exists>s \<in> set (current # pending). (s, a) \<in> (depends p)\<^sup>*"
          using out by (auto intro: converse_rtrancl_into_rtrancl)
        then show "allowed_from p forbidden a" by (rule "2.prems")
      qed
      with new Some push show ?thesis by simp
    qed
  qed
qed simp

lemma search_exact:
  "search p package forbidden [i] [] = Ok () \<longleftrightarrow> (\<forall>d. (i, d) \<in> (depends p)\<^sup>+ \<longrightarrow> (\<exists>n. named p d n \<and> n \<notin> set forbidden))"
proof
  assume "search p package forbidden [i] [] = Ok ()"
  from search_sound [OF this] have "closed_over p forbidden {i}" by simp
  then obtain V where V: "i \<in> V" "depends p `` V \<subseteq> V" "\<And>a. a \<in> V \<Longrightarrow> allowed_from p forbidden a"
    unfolding closed_over_def by blast
  have "a \<in> V" if "(i, a) \<in> (depends p)\<^sup>*" for a using that V(1,2) by induction auto
  then show "\<forall>d. (i, d) \<in> (depends p)\<^sup>+ \<longrightarrow> (\<exists>n. named p d n \<and> n \<notin> set forbidden)"
    using V(3) by (metis allowed_from_def tranclD2)
next
  assume "\<forall>d. (i, d) \<in> (depends p)\<^sup>+ \<longrightarrow> (\<exists>n. named p d n \<and> n \<notin> set forbidden)"
  then show "search p package forbidden [i] [] = Ok ()"
    by (intro search_complete) (auto simp: allowed_from_def intro: rtrancl_into_trancl1)
qed

lemma reject_reachable_Ok:
  "reject_reachable p package forbidden = Ok () \<longleftrightarrow>
    (\<exists>i. workspace_package_id p package = Ok i \<and>
      (\<forall>d. (i, d) \<in> (depends p)\<^sup>+ \<longrightarrow> (\<exists>n. named p d n \<and> n \<notin> set forbidden)))"
  by (simp add: reject_reachable_def and_then_Ok_iff search_exact del: search.simps)

lemma workspace_package_id_Ok:
  "workspace_package_id p package = Ok i \<Longrightarrow> i \<in> set (bt_keys (dp_workspace_members p)) \<and> named p i package"
proof -
  assume "workspace_package_id p package = Ok i"
  then have "filter (\<lambda>i. bt_get (dp_package_names p) i = Some package) (bt_keys (dp_workspace_members p)) = [i]"
    by (simp add: workspace_package_id_def split: list.splits)
  then have "i \<in> set (filter (\<lambda>i. bt_get (dp_package_names p) i = Some package) (bt_keys (dp_workspace_members p)))" by simp
  then show ?thesis by (simp add: named_def)
qed

lemma validate_Ok:
  "validate p = Ok () \<longleftrightarrow>
    (\<forall>package \<in> set production_packages. \<exists>i. workspace_package_id p package = Ok i) \<and>
    (\<forall>(package, required) \<in> set required_edges. require_direct p package required = Ok ()) \<and>
    (\<forall>(package, forbidden) \<in> set forbidden_reach. reject_reachable p package forbidden = Ok ()) \<and>
    (\<forall>(package, forbidden) \<in> set forbidden_edges. reject_direct p package forbidden = Ok ()) \<and>
    (\<forall>(package, dependency) \<in> set pinned. require_exact p package dependency ''=1.0.3'' = Ok ())"
  by (auto simp: validate_def and_then_Ok_iff for_each_Ok)


text \<open>Every pair of layers out of order is among the rules, and the rules keep the network library out.\<close>

lemma rules_enforce_layers:
  "list_all (\<lambda>(x, a). list_all (\<lambda>(y, b). x = y \<or> b < a \<or> list_ex (\<lambda>(package, forbidden). package = x \<and> y \<in> set forbidden) forbidden_reach)
     layers) layers"
  by code_simp

lemma rules_enforce_offline:
  "list_all (\<lambda>x. list_all (\<lambda>y. list_ex (\<lambda>(package, forbidden). package = x \<and> y \<in> set forbidden) forbidden_reach) [''iroh'', ''iroh-relay''])
     offline_packages"
  by code_simp

lemma validated_unreachable:
  assumes "validate p = Ok ()" and "(package, forbidden) \<in> set forbidden_reach" and "n \<in> set forbidden"
    and "workspace_package_id p package = Ok a" and "(a, b) \<in> (depends p)\<^sup>+" and "named p b n"
  shows False
proof -
  have "reject_reachable p package forbidden = Ok ()" using assms(1,2) by (auto simp: validate_Ok)
  with assms(4,5) obtain m where "named p b m" "m \<notin> set forbidden" by (auto simp: reject_reachable_Ok)
  with assms(3,6) show False by (simp add: named_def)
qed

lemma validated_pinned:
  assumes "validate p = Ok ()" and "(package, dependency) \<in> set pinned"
  shows "\<exists>i ds. workspace_package_id p package = Ok i \<and> bt_get (dp_requirements p) (i, dependency) = Some ds \<and>
    (\<forall>d \<in> set ds. md_req d = ''=1.0.3'') \<and> (\<exists>d. (i, d) \<in> depends p \<and> named p d dependency)"
proof -
  have "require_exact p package dependency ''=1.0.3'' = Ok ()" using assms by (auto simp: validate_Ok)
  then show ?thesis
    by (auto simp: require_exact_def and_then_Ok_iff ok_or_Ok_iff for_each_Ok depends_def named_def list_ex_iff
        split: if_splits option.splits) metis
qed

lemma collect_resolved_step:
  "collect_resolved names (node # nodes) m = Ok m' \<longleftrightarrow>
    known_node names node \<and> collect_resolved names nodes (bt_insert (rn_id node) (collect_set (rn_deps node)) m) = Ok m'"
  by (simp add: Let_def and_then_Ok_iff for_each_Ok collect_set_keys known_node_def)

lemma collect_resolved_is_ok: "is_ok (collect_resolved names nodes m) \<longleftrightarrow> (\<forall>n \<in> set nodes. known_node names n)"
proof (induction nodes arbitrary: m)
  case (Cons node nodes)
  then show ?case by (simp add: is_ok_iff collect_resolved_step del: collect_resolved.simps)
qed simp

lemma find_snoc: "find P (xs @ [y]) = (case find P xs of None \<Rightarrow> if P y then Some y else None | Some x \<Rightarrow> Some x)"
  by (induction xs) auto

lemma collect_resolved_get:
  assumes "collect_resolved names nodes m = Ok m'"
  shows "bt_get m' i = (case find (\<lambda>n. rn_id n = i) (rev nodes) of None \<Rightarrow> bt_get m i | Some n \<Rightarrow> Some (collect_set (rn_deps n)))"
  using assms
proof (induction nodes arbitrary: m)
  case (Cons node nodes)
  from Cons.IH [of "bt_insert (rn_id node) (collect_set (rn_deps node)) m"] Cons.prems
  have "bt_get m' i = (case find (\<lambda>n. rn_id n = i) (rev nodes) of
      None \<Rightarrow> bt_get (bt_insert (rn_id node) (collect_set (rn_deps node)) m) i | Some n \<Rightarrow> Some (collect_set (rn_deps n)))"
    by (simp add: collect_resolved_step del: collect_resolved.simps)
  then show ?case by (simp add: find_snoc split: option.split)
qed simp

lemma collect_names_keys: "set (bt_keys (collect_names ps)) = pkg_id ` set ps"
proof -
  have "set (bt_keys (fold (\<lambda>p. bt_insert (pkg_id p) (pkg_name p)) ps m)) = pkg_id ` set ps \<union> set (bt_keys m)" for m :: "(string, string) btree"
    by (induction ps arbitrary: m) (auto simp: set_bt_keys_insert)
  then show ?thesis by (simp add: collect_names_def)
qed

lemma from_metadata_Ok:
  "from_metadata (Some md) = Ok p \<longleftrightarrow>
    (\<exists>m. collect_resolved (collect_names (cm_packages md)) (cm_nodes md) [] = Ok m \<and>
      p = \<lparr>dp_package_names = collect_names (cm_packages md), dp_workspace_members = collect_set (cm_workspace_members md),
           dp_resolved_dependencies = m, dp_requirements = collect_requirements (cm_packages md)\<rparr>)"
  by (auto simp: from_metadata_def and_then_Ok_iff ok_or_Ok_iff Let_def)

lemma example_validates: "validate example_policy = Ok ()"
  by code_simp

section \<open>Properties\<close>

text \<open>
  C30: the search finds exactly what a package can reach. The check of a package against forbidden names ends, and it
  passes if and only if the workspace has one package of that name and every package reachable from it by one or
  more resolved dependencies, through any number of other packages and cycles, has a known name that is not forbidden.
\<close>

theorem reject_reachable_exact:
  "reject_reachable p package forbidden = Ok () \<longleftrightarrow>
    (\<exists>i. workspace_package_id p package = Ok i \<and>
      (\<forall>d. (i, d) \<in> (depends p)\<^sup>+ \<longrightarrow> (\<exists>n. named p d n \<and> n \<notin> set forbidden)))"
  by (rule reject_reachable_Ok)

theorem reject_reachable_exact_witness:
  "reject_reachable example_policy ''rift-session'' [''rift-daemon''] = Ok () \<and>
    reject_reachable example_policy ''rift-session'' [''iroh''] \<noteq> Ok ()"
proof
  have id: "workspace_package_id example_policy ''rift-session'' = Ok ''s''" by code_simp
  have "(''s'', ''t'') \<in> depends example_policy" "(''t'', ''n'') \<in> depends example_policy"
    by (simp_all add: depends_def example_policy_def example_graph_def bt_get_def)
  then have "(''s'', ''n'') \<in> (depends example_policy)\<^sup>+" by (meson trancl.intros)
  moreover have "named example_policy ''n'' m \<longleftrightarrow> m = ''iroh''" for m
    by (auto simp: named_def example_policy_def example_names_def bt_get_def)
  ultimately show "reject_reachable example_policy ''rift-session'' [''iroh''] \<noteq> Ok ()"
    using id reject_reachable_exact [of example_policy "''rift-session''" "[''iroh'']"] by auto
  show "reject_reachable example_policy ''rift-session'' [''rift-daemon''] = Ok ()" by code_simp
qed

text \<open>
  C21: a workspace that passes is layered. Whenever a production crate reaches another one, by any path of resolved
  dependencies, the other is in a strictly lower layer, so no two of them depend on each other; the domain
  types, the wire protocol, the trust journal, the local protocol and the transfer mechanics reach neither iroh nor its
  relay; and each crate that owns a dependency on them requires the one validated version and resolves it.
\<close>

theorem validated_workspace_layered:
  assumes "validate p = Ok ()" and "workspace_package_id p x = Ok a" and "(a, b) \<in> (depends p)\<^sup>+" and "named p b y"
  shows "(layer x = Some m \<and> layer y = Some n \<and> x \<noteq> y \<longrightarrow> n < m) \<and>
    (x \<in> set offline_packages \<longrightarrow> y \<noteq> ''iroh'' \<and> y \<noteq> ''iroh-relay'') \<and>
    (\<forall>(package, dependency) \<in> set pinned. \<exists>i ds. workspace_package_id p package = Ok i \<and>
       bt_get (dp_requirements p) (i, dependency) = Some ds \<and> (\<forall>d \<in> set ds. md_req d = ''=1.0.3'') \<and>
       (\<exists>d. (i, d) \<in> depends p \<and> named p d dependency))"
proof (intro conjI impI)
  assume l: "layer x = Some m \<and> layer y = Some n \<and> x \<noteq> y"
  then have "(x, m) \<in> set layers" "(y, n) \<in> set layers" by (auto simp: layer_def dest: map_of_SomeD)
  with rules_enforce_layers l have "n < m \<or> (\<exists>forbidden. (x, forbidden) \<in> set forbidden_reach \<and> y \<in> set forbidden)"
    by (fastforce simp: list_all_iff list_ex_iff)
  then show "n < m" using validated_unreachable [OF assms(1) _ _ assms(2-4)] by blast
next
  assume "x \<in> set offline_packages"
  with rules_enforce_offline have "\<exists>forbidden. (x, forbidden) \<in> set forbidden_reach \<and> z \<in> set forbidden" if "z \<in> {''iroh'', ''iroh-relay''}" for z
    using that by (fastforce simp: list_all_iff list_ex_iff)
  then show "y \<noteq> ''iroh''" "y \<noteq> ''iroh-relay''" using validated_unreachable [OF assms(1) _ _ assms(2-4)] by blast+
qed (use validated_pinned [OF assms(1)] in blast)

theorem validated_workspace_layered_witness:
  "(''s'', ''c'') \<in> (depends example_policy)\<^sup>+ \<and> layer ''rift-session'' = Some 3 \<and> layer ''rift-core'' = Some 0 \<and> (0::nat) < 3"
proof -
  have edge: "(''s'', ''c'') \<in> (depends example_policy)\<^sup>+"
    by (rule r_into_trancl) (simp add: depends_def example_policy_def example_graph_def bt_get_def)
  have id: "workspace_package_id example_policy ''rift-session'' = Ok ''s''" by code_simp
  have "named example_policy ''c'' ''rift-core''" by (simp add: named_def example_policy_def example_names_def bt_get_def)
  moreover have "layer ''rift-session'' = Some 3" "layer ''rift-core'' = Some 0" by (simp_all add: layer_def layers_def)
  ultimately show ?thesis using validated_workspace_layered [OF example_validates id edge, of "''rift-core''" 3 0] edge by simp
qed

text \<open>
  Reading the metadata keeps the graph of cargo. A policy is made exactly when every node and every dependency
  of the resolved graph is a known package; then the edges of the policy are the dependencies of the last node of each
  package, the members are those of the workspace, and every package that can be reached has a name.
\<close>

theorem from_metadata_graph:
  "(is_ok (from_metadata (Some md)) \<longleftrightarrow>
     (\<forall>n \<in> set (cm_nodes md). insert (rn_id n) (set (rn_deps n)) \<subseteq> pkg_id ` set (cm_packages md))) \<and>
   (\<forall>p. from_metadata (Some md) = Ok p \<longrightarrow>
     depends p = {(a, b). \<exists>n. find (\<lambda>n. rn_id n = a) (rev (cm_nodes md)) = Some n \<and> b \<in> set (rn_deps n)} \<and>
     set (bt_keys (dp_workspace_members p)) = set (cm_workspace_members md) \<and>
     (\<forall>a b. (a, b) \<in> (depends p)\<^sup>+ \<longrightarrow> (\<exists>n. named p b n)))"
proof (intro conjI allI impI)
  let ?names = "collect_names (cm_packages md)"
  have known: "known_node ?names n \<longleftrightarrow> insert (rn_id n) (set (rn_deps n)) \<subseteq> pkg_id ` set (cm_packages md)" for n
    by (auto simp: known_node_def bt_contains_iff collect_names_keys)
  show "is_ok (from_metadata (Some md)) \<longleftrightarrow>
      (\<forall>n \<in> set (cm_nodes md). insert (rn_id n) (set (rn_deps n)) \<subseteq> pkg_id ` set (cm_packages md))"
    using collect_resolved_is_ok [of ?names "cm_nodes md" "[]"] known by (simp add: is_ok_iff from_metadata_Ok)
  fix p
  assume "from_metadata (Some md) = Ok p"
  then obtain m where m: "collect_resolved ?names (cm_nodes md) [] = Ok m" "dp_resolved_dependencies p = m"
      "dp_package_names p = ?names" "dp_workspace_members p = collect_set (cm_workspace_members md)"
    by (auto simp: from_metadata_Ok)
  show edges: "depends p = {(a, b). \<exists>n. find (\<lambda>n. rn_id n = a) (rev (cm_nodes md)) = Some n \<and> b \<in> set (rn_deps n)}"
    using collect_resolved_get [OF m(1)] m(2) by (auto simp: depends_def collect_set_keys split: option.splits)
  show "set (bt_keys (dp_workspace_members p)) = set (cm_workspace_members md)" using m(4) by (simp add: collect_set_keys)
  fix a b
  assume "(a, b) \<in> (depends p)\<^sup>+"
  then obtain c where "(c, b) \<in> depends p" by (meson tranclD2)
  then obtain n where n: "n \<in> set (cm_nodes md)" "b \<in> set (rn_deps n)"
    unfolding edges by (auto simp: find_Some_iff) (metis nth_mem set_rev length_rev)
  moreover have "\<forall>n \<in> set (cm_nodes md). known_node ?names n"
    using collect_resolved_is_ok [of ?names "cm_nodes md" "[]"] m(1) by simp
  ultimately show "\<exists>n. named p b n" using m(3) by (auto simp: known_node_def bt_contains_def named_def)
qed

theorem from_metadata_graph_witness:
  "is_ok (from_metadata (Some example_cargo)) \<and>
    \<not> is_ok (from_metadata (Some (example_cargo\<lparr>cm_nodes := [\<lparr>rn_id = ''c'', rn_deps = [''q'']\<rparr>]\<rparr>)))"
  using from_metadata_graph [of example_cargo] from_metadata_graph [of "example_cargo\<lparr>cm_nodes := [\<lparr>rn_id = ''c'', rn_deps = [''q'']\<rparr>]\<rparr>"]
  by (simp add: example_cargo_def)

text \<open>
  The rules leave room that the description of the architecture does not: a workspace in which the session crate depends
  on iroh directly, and the daemon on the transfer mechanics and the prototype, passes.
\<close>

lemma policy_admits_undocumented_edges:
  "validate (example_policy\<lparr>dp_resolved_dependencies := bt_insert ''s'' (map (\<lambda>i. (i, ())) [''c'', ''n'', ''p'', ''t'', ''u''])
     (bt_insert ''d'' (map (\<lambda>i. (i, ())) [''c'', ''i'', ''l'', ''s'', ''t'', ''u'', ''x'', ''z'']) example_graph)\<rparr>) = Ok ()"
  by code_simp

end
