(* ===== verification/Spike_Protocol.thy ===== *)
theory Spike_Protocol
  imports Wire_Protocol
begin

text \<open>
  The control protocol of the networking prototype (\<open>crates/rift-spike/src/protocol.rs\<close>): frames of a length prefix and a
  postcard payload, the loop that hands received messages to a channel, and the handshake in which both sides
  say Hello before they describe themselves. Names that the production protocol has too carry the prefix \<open>spike\<close>.
\<close>

section \<open>Messages\<close>

definition SPIKE_PROTOCOL_VERSION :: u16 where
  "SPIKE_PROTOCOL_VERSION = 1"

definition MAX_FRAME_LEN :: nat where
  "MAX_FRAME_LEN = 1024 * 1024"

datatype spike_capability = BinaryBlobStream

datatype spike_message =
    Spk_Hello u16 bytes
  | Spk_DeviceMetadata string string
  | Spk_Capabilities "spike_capability list"
  | Spk_TransferAck u64 bytes
  | Spk_Ping u64
  | Spk_Pong u64

record local_handshake =
  lh_node_id :: bytes
  lh_device_name :: string
  lh_platform :: string
  lh_capabilities :: "spike_capability list"

record peer_handshake =
  ph_node_id :: bytes
  ph_device_name :: string
  ph_platform :: string
  ph_capabilities :: "spike_capability list"

datatype spike_frame_error =
    Spf_Encode
  | Spf_Decode
  | Spf_TooLarge nat nat
  | Spf_LengthPrefix io_error_kind
  | Spf_Payload io_error_kind
  | Spf_LengthMismatch nat nat

datatype spike_handshake_error =
    Sph_Frame spike_frame_error
  | Sph_UnsupportedVersion u16
  | Sph_IdentityMismatch string string
  | Sph_UnexpectedMessage string spike_message

section \<open>Frames\<close>

text \<open>\<open>postcard::from_bytes\<close> does not look at what follows the value.\<close>

definition from_bytes :: "'a postcard \<Rightarrow> bytes \<Rightarrow> (spike_frame_error, 'a) result" where
  "from_bytes pc payload = ok_or (map_option fst (take_from_bytes pc payload)) Spf_Decode"

definition spike_encode_frame :: "'a postcard \<Rightarrow> 'a \<Rightarrow> (spike_frame_error, bytes) result" where
  "spike_encode_frame pc v =
     and_then (ok_or (to_stdvec pc v) Spf_Encode) (\<lambda>payload.
     if MAX_FRAME_LEN < length payload then Err (Spf_TooLarge (length payload) MAX_FRAME_LEN)
     else if 2 ^ 32 \<le> length payload then Err (Spf_TooLarge (length payload) MAX_FRAME_LEN)
     else Ok (be_encode 4 (length payload) @ payload))"

definition spike_decode_frame :: "'a postcard \<Rightarrow> bytes \<Rightarrow> (spike_frame_error, 'a) result" where
  "spike_decode_frame pc frame =
     (if length frame < 4 then Err (Spf_LengthMismatch 4 (length frame))
      else
        let declared = be_decode (take 4 frame); payload = drop 4 frame in
        if MAX_FRAME_LEN < declared then Err (Spf_TooLarge declared MAX_FRAME_LEN)
        else if declared \<noteq> length payload then Err (Spf_LengthMismatch declared (length payload))
        else from_bytes pc payload)"

definition spike_encode_message :: "spike_message postcard \<Rightarrow> spike_message \<Rightarrow> (spike_frame_error, bytes) result" where
  "spike_encode_message pc message = spike_encode_frame pc message"

definition spike_decode_message :: "spike_message postcard \<Rightarrow> bytes \<Rightarrow> (spike_frame_error, spike_message) result" where
  "spike_decode_message pc frame = spike_decode_frame pc frame"

definition spike_write_value :: "'a postcard \<Rightarrow> 'a \<Rightarrow> (writer, spike_frame_error, unit) io" where
  "spike_write_value pc v =
     io_bind (io_return (spike_encode_frame pc v)) (\<lambda>frame. io_map_err Spf_Payload (write_all frame))"

definition spike_read_value :: "'a postcard \<Rightarrow> ('z reader_scheme, spike_frame_error, 'a) io" where
  "spike_read_value pc =
     io_bind (io_map_err Spf_LengthPrefix (read_exact 4)) (\<lambda>length_bytes.
     let declared = be_decode length_bytes in
     if MAX_FRAME_LEN < declared then io_return (Err (Spf_TooLarge declared MAX_FRAME_LEN))
     else io_bind (io_map_err Spf_Payload (read_exact declared)) (\<lambda>payload. io_return (from_bytes pc payload)))"

text \<open>
  The task that reads messages until one fails or nobody listens: the results it sends, where the channel accepts
  the given number before its receiver is dropped, and the stream it leaves. A read that waits ends the list.
\<close>

fun read_control_messages ::
  "spike_message postcard \<Rightarrow> nat \<Rightarrow> reader \<Rightarrow> (spike_frame_error, spike_message) result list \<times> reader" where
  "read_control_messages pc accepted reader =
     (case spike_read_value pc reader of
        (Pending, reader') \<Rightarrow> ([], reader')
      | (Ready result, reader') \<Rightarrow>
          (case accepted of
             0 \<Rightarrow> ([], reader')
           | Suc n \<Rightarrow>
               (case result of
                  Err e \<Rightarrow> ([Err e], reader')
                | Ok m \<Rightarrow> (case read_control_messages pc n reader' of (ms, reader'') \<Rightarrow> (Ok m # ms, reader'')))))"

declare read_control_messages.simps [simp del]

section \<open>Handshake\<close>

definition spike_validate_hello ::
  "(bytes \<Rightarrow> string) \<Rightarrow> u16 \<Rightarrow> bytes \<Rightarrow> bytes \<Rightarrow> (spike_handshake_error, unit) result" where
  "spike_validate_hello hex protocol_version hello_node_id authenticated_remote_id =
     (if protocol_version \<noteq> SPIKE_PROTOCOL_VERSION then Err (Sph_UnsupportedVersion protocol_version)
      else if hello_node_id \<noteq> authenticated_remote_id
      then Err (Sph_IdentityMismatch (hex authenticated_remote_id) (hex hello_node_id))
      else Ok ())"

text \<open>Sending and receiving one message of the handshake.\<close>

definition spike_send :: "spike_message postcard \<Rightarrow> spike_message \<Rightarrow> (control_channel, spike_handshake_error, unit) io" where
  "spike_send pc m = io_map_err Sph_Frame (on_send (spike_write_value pc m))"

definition spike_receive :: "spike_message postcard \<Rightarrow> (control_channel, spike_handshake_error, spike_message) io" where
  "spike_receive pc = io_map_err Sph_Frame (on_recv (spike_read_value pc))"

text \<open>The matches on the messages received.\<close>

definition match_hello :: "spike_message \<Rightarrow> (spike_handshake_error, u16 \<times> bytes) result" where
  "match_hello m = (case m of
       Spk_Hello protocol_version node_id \<Rightarrow> Ok (protocol_version, node_id)
     | received \<Rightarrow> Err (Sph_UnexpectedMessage ''Hello'' received))"

definition match_metadata :: "spike_message \<Rightarrow> (spike_handshake_error, string \<times> string) result" where
  "match_metadata m = (case m of
       Spk_DeviceMetadata device_name platform \<Rightarrow> Ok (device_name, platform)
     | received \<Rightarrow> Err (Sph_UnexpectedMessage ''DeviceMetadata'' received))"

definition match_capabilities :: "spike_message \<Rightarrow> (spike_handshake_error, spike_capability list) result" where
  "match_capabilities m = (case m of
       Spk_Capabilities capabilities \<Rightarrow> Ok capabilities
     | received \<Rightarrow> Err (Sph_UnexpectedMessage ''Capabilities'' received))"

definition exchange_handshake ::
  "spike_message postcard \<Rightarrow> (bytes \<Rightarrow> string) \<Rightarrow> local_handshake \<Rightarrow> bytes \<Rightarrow>
     (control_channel, spike_handshake_error, peer_handshake) io" where
  "exchange_handshake pc hex local authenticated_remote_id =
     io_bind (spike_send pc (Spk_Hello SPIKE_PROTOCOL_VERSION (lh_node_id local))) (\<lambda>_.
     io_bind (spike_receive pc) (\<lambda>peer_hello.
     io_bind (io_return (match_hello peer_hello)) (\<lambda>(peer_version, peer_node_id).
     io_bind (io_return (spike_validate_hello hex peer_version peer_node_id authenticated_remote_id)) (\<lambda>_.
     io_bind (spike_send pc (Spk_DeviceMetadata (lh_device_name local) (lh_platform local))) (\<lambda>_.
     io_bind (spike_send pc (Spk_Capabilities (lh_capabilities local))) (\<lambda>_.
     io_bind (spike_receive pc) (\<lambda>peer_metadata.
     io_bind (io_return (match_metadata peer_metadata)) (\<lambda>(device_name, platform).
     io_bind (spike_receive pc) (\<lambda>peer_capabilities.
     io_bind (io_return (match_capabilities peer_capabilities)) (\<lambda>capabilities.
     io_return (Ok \<lparr>ph_node_id = peer_node_id, ph_device_name = device_name, ph_platform = platform,
       ph_capabilities = capabilities\<rparr>)))))))))))"

section \<open>Notions of the properties\<close>

text \<open>The messages a device sends in the handshake, and the frames of a list of messages.\<close>

definition handshake_messages :: "local_handshake \<Rightarrow> spike_message list" where
  "handshake_messages local = [Spk_Hello SPIKE_PROTOCOL_VERSION (lh_node_id local),
     Spk_DeviceMetadata (lh_device_name local) (lh_platform local), Spk_Capabilities (lh_capabilities local)]"

fun spike_frames :: "'a postcard \<Rightarrow> 'a list \<Rightarrow> bytes option" where
  "spike_frames pc [] = Some []"
| "spike_frames pc (m # ms) =
     (case spike_encode_frame pc m of
        Err _ \<Rightarrow> None
      | Ok f \<Rightarrow> map_option ((@) f) (spike_frames pc ms))"

definition presented :: "local_handshake \<Rightarrow> peer_handshake" where
  "presented local = \<lparr>ph_node_id = lh_node_id local, ph_device_name = lh_device_name local,
     ph_platform = lh_platform local, ph_capabilities = lh_capabilities local\<rparr>"

text \<open>What is read of a channel in the course of a handshake: the payloads decode to the messages.\<close>

fun delivers :: "'a postcard \<Rightarrow> 'a list \<Rightarrow> bytes \<Rightarrow> bytes \<Rightarrow> bool" where
  "delivers pc [] bs rest \<longleftrightarrow> bs = rest"
| "delivers pc (m # ms) bs rest \<longleftrightarrow>
     (\<exists>payload after. bs = be_encode 4 (length payload) @ payload @ after \<and> length payload \<le> MAX_FRAME_LEN \<and>
        from_bytes pc payload = Ok m \<and> delivers pc ms after rest)"

section \<open>Example values\<close>

definition example_side :: "byte \<Rightarrow> local_handshake" where
  "example_side b = \<lparr>lh_node_id = [b], lh_device_name = ''d'', lh_platform = ''p'', lh_capabilities = [BinaryBlobStream]\<rparr>"

definition example_spike_codec :: "spike_message postcard" where
  "example_spike_codec = table_codec (handshake_messages (example_side 1) @ [Spk_Hello 1 [2], Spk_Hello 2 [2]])"

definition example_handshake :: control_channel where
  "example_handshake = \<lparr>ch_send = \<lparr>wr_bytes = [], wr_room = 100, wr_end = Stalls\<rparr>,
     ch_recv = \<lparr>rd_bytes = [0, 0, 0, 1, 3, 0, 0, 0, 1, 1, 0, 0, 0, 1, 2], rd_end = Stalls\<rparr>\<rparr>"

section \<open>Lemmas\<close>

lemma from_bytes_encoded: "postcard_ok pc \<Longrightarrow> to_stdvec pc v = Some p \<Longrightarrow> from_bytes pc p = Ok v"
  by (simp add: from_bytes_def postcard_ok_whole)

lemma spike_encode_frame_Ok:
  "spike_encode_frame pc v = Ok f \<longleftrightarrow>
     (\<exists>p. to_stdvec pc v = Some p \<and> length p \<le> MAX_FRAME_LEN \<and> f = be_encode 4 (length p) @ p)"
  by (cases "to_stdvec pc v") (auto simp: spike_encode_frame_def MAX_FRAME_LEN_def)

lemma spike_decode_encode:
  "postcard_ok pc \<Longrightarrow> spike_encode_frame pc v = Ok f \<Longrightarrow> spike_decode_frame pc f = Ok v"
  by (auto simp: spike_encode_frame_Ok spike_decode_frame_def be_decode_encode from_bytes_encoded MAX_FRAME_LEN_def)

text \<open>A value is read exactly when the stream starts with a frame whose payload decodes to it.\<close>

lemma spike_read_value_Ok:
  "spike_read_value pc r = (Ready (Ok v), t) \<longleftrightarrow> delivers pc [v] (rd_bytes r) (rd_bytes t) \<and> t = r\<lparr>rd_bytes := rd_bytes t\<rparr>"
proof
  assume "spike_read_value pc r = (Ready (Ok v), t)"
  then obtain prefix u payload where prefix: "read_exact 4 r = (Ready (Ok prefix), u)"
    and small: "be_decode prefix \<le> MAX_FRAME_LEN"
    and payload: "read_exact (be_decode prefix) u = (Ready (Ok payload), t)" and v: "from_bytes pc payload = Ok v"
    by (auto simp: spike_read_value_def io_bind_Ok Let_def not_less split: if_splits)
  have "be_encode 4 (length payload) = prefix"
    using prefix payload be_encode_decode [of prefix] by (simp add: read_exact_Ok)
  with prefix payload small v have "rd_bytes r = be_encode 4 (length payload) @ payload @ rd_bytes t" "length payload \<le> MAX_FRAME_LEN"
    by (simp_all add: read_exact_Ok)
  moreover have "t = r\<lparr>rd_bytes := rd_bytes t\<rparr>"
    using prefix payload unfolding read_exact_Ok by (metis reader.surjective reader.update_convs(1))
  ultimately show "delivers pc [v] (rd_bytes r) (rd_bytes t) \<and> t = r\<lparr>rd_bytes := rd_bytes t\<rparr>" using v by auto
next
  assume "delivers pc [v] (rd_bytes r) (rd_bytes t) \<and> t = r\<lparr>rd_bytes := rd_bytes t\<rparr>"
  then obtain payload where p: "rd_bytes r = be_encode 4 (length payload) @ payload @ rd_bytes t"
    "length payload \<le> MAX_FRAME_LEN" "from_bytes pc payload = Ok v" and t: "t = r\<lparr>rd_bytes := rd_bytes t\<rparr>" by auto
  have "be_decode (be_encode 4 (length payload)) = length payload"
    using p(2) by (simp add: be_decode_encode MAX_FRAME_LEN_def)
  with p t show "spike_read_value pc r = (Ready (Ok v), t)"
    by (simp add: spike_read_value_def io_bind_def io_map_err_def read_exact_def Let_def)
qed

lemma spike_write_value_Ok:
  "spike_write_value pc v w = (Ready (Ok u), t) \<longleftrightarrow>
     (\<exists>f. spike_encode_frame pc v = Ok f \<and> length f \<le> wr_room w \<and>
        t = w\<lparr>wr_bytes := wr_bytes w @ f, wr_room := wr_room w - length f\<rparr>)"
  by (auto simp: spike_write_value_def io_bind_Ok write_all_Ok)

lemma delivers_append: "delivers pc (ms @ ns) bs rest \<longleftrightarrow> (\<exists>mid. delivers pc ms bs mid \<and> delivers pc ns mid rest)"
  by (induction ms arbitrary: bs) auto

lemma delivers_frames:
  "postcard_ok pc \<Longrightarrow> spike_frames pc ms = Some fs \<Longrightarrow> delivers pc ms (fs @ rest) rest"
proof (induction ms arbitrary: fs)
  case (Cons m ms)
  then obtain p fs' where p: "to_stdvec pc m = Some p" "length p \<le> MAX_FRAME_LEN" "fs = be_encode 4 (length p) @ p @ fs'"
    and fs': "spike_frames pc ms = Some fs'"
    by (auto simp: spike_encode_frame_Ok split: sum.splits)
  with Cons from_bytes_encoded [OF Cons.prems(1) p(1)] show ?case by auto
qed simp

text \<open>The receiving task hands over the messages of the stream, in order, and goes on after them.\<close>

lemma read_control_messages_delivers:
  "delivers pc ms (rd_bytes r) rest \<Longrightarrow> length ms \<le> n \<Longrightarrow>
    read_control_messages pc n r =
      (case read_control_messages pc (n - length ms) (r\<lparr>rd_bytes := rest\<rparr>) of (later, r') \<Rightarrow> (map Ok ms @ later, r'))"
proof (induction ms arbitrary: r n)
  case Nil
  then have "r\<lparr>rd_bytes := rest\<rparr> = r" by (cases r) simp
  then show ?case by (simp split: prod.splits)
next
  case (Cons m ms)
  then obtain mid where mid: "delivers pc [m] (rd_bytes r) mid" "delivers pc ms mid rest" by auto
  then have "spike_read_value pc r = (Ready (Ok m), r\<lparr>rd_bytes := mid\<rparr>)" by (simp add: spike_read_value_Ok)
  moreover obtain k where "n = Suc k" "length ms \<le> k" using Cons.prems(2) by (cases n) auto
  ultimately show ?case
    using Cons.IH [of "r\<lparr>rd_bytes := mid\<rparr>" k] mid(2) by (subst read_control_messages.simps) (simp split: prod.splits)
qed

lemma spike_send_Ok:
  "spike_send pc m c = (Ready (Ok u), d) \<longleftrightarrow>
     (\<exists>f. spike_encode_frame pc m = Ok f \<and> length f \<le> wr_room (ch_send c) \<and>
        d = c\<lparr>ch_send := (ch_send c)\<lparr>wr_bytes := wr_bytes (ch_send c) @ f, wr_room := wr_room (ch_send c) - length f\<rparr>\<rparr>)"
  by (auto simp: spike_send_def on_send_Ok spike_write_value_Ok)

lemma spike_receive_Ok:
  "spike_receive pc c = (Ready (Ok m), d) \<longleftrightarrow>
     delivers pc [m] (rd_bytes (ch_recv c)) (rd_bytes (ch_recv d)) \<and>
     d = c\<lparr>ch_recv := (ch_recv c)\<lparr>rd_bytes := rd_bytes (ch_recv d)\<rparr>\<rparr>"
  by (auto simp: spike_receive_def on_recv_Ok spike_read_value_Ok simp del: delivers.simps
      intro!: exI [of _ "(ch_recv c)\<lparr>rd_bytes := rd_bytes (ch_recv d)\<rparr>"])

lemma spike_send_writes:
  assumes "spike_send pc m c = (r, d)"
  shows "\<exists>bs. wr_bytes (ch_send d) = wr_bytes (ch_send c) @ bs \<and>
    (bs = [] \<or> (\<exists>f rest. spike_encode_frame pc m = Ok f \<and> f = bs @ rest))"
proof (cases "spike_encode_frame pc m")
  case (Inr f)
  have "\<exists>k. wr_bytes (snd (write_all f w)) = wr_bytes w @ take k f" for w
    by (cases "length f \<le> wr_room w") (auto simp: write_all_def Let_def split: stream_end.splits intro: exI [of _ "length f"])
  with Inr assms show ?thesis
    by (auto simp: spike_send_def io_map_err_def on_send_def spike_write_value_def io_bind_def split: prod.splits poll.splits)
      (metis append_take_drop_id snd_conv)+
qed (use assms in \<open>auto simp: spike_send_def io_map_err_def on_send_def spike_write_value_def io_bind_def\<close>)

lemma match_Ok [simp]:
  "match_hello m = Ok p \<longleftrightarrow> m = Spk_Hello (fst p) (snd p)"
  "match_metadata m = Ok q \<longleftrightarrow> m = Spk_DeviceMetadata (fst q) (snd q)"
  "match_capabilities m = Ok cs \<longleftrightarrow> m = Spk_Capabilities cs"
  by (auto simp: match_hello_def match_metadata_def match_capabilities_def split: spike_message.splits)

lemma spike_validate_hello_Ok [simp]:
  "spike_validate_hello hex v i remote = Ok u \<longleftrightarrow> v = SPIKE_PROTOCOL_VERSION \<and> i = remote"
  by (simp add: spike_validate_hello_def)

lemma spike_receive_keeps: "spike_receive pc c = (r, d) \<Longrightarrow> ch_send d = ch_send c"
  by (auto simp: spike_receive_def io_map_err_def on_recv_def split: prod.splits poll.splits)

lemma exchange_handshake_Ok:
  assumes "exchange_handshake pc hex local remote c = (Ready (Ok peer), d)"
  obtains "ph_node_id peer = remote"
    and "delivers pc [Spk_Hello SPIKE_PROTOCOL_VERSION remote, Spk_DeviceMetadata (ph_device_name peer) (ph_platform peer),
        Spk_Capabilities (ph_capabilities peer)] (rd_bytes (ch_recv c)) (rd_bytes (ch_recv d))"
    and "\<exists>fs. spike_frames pc (handshake_messages local) = Some fs \<and> wr_bytes (ch_send d) = wr_bytes (ch_send c) @ fs"
proof -
  from assms obtain c1 c2 c3 c4 c5 where
    hello: "spike_send pc (Spk_Hello SPIKE_PROTOCOL_VERSION (lh_node_id local)) c = (Ready (Ok ()), c1)"
      "spike_receive pc c1 = (Ready (Ok (Spk_Hello SPIKE_PROTOCOL_VERSION remote)), c2)" and
    describe: "spike_send pc (Spk_DeviceMetadata (lh_device_name local) (lh_platform local)) c2 = (Ready (Ok ()), c3)"
      "spike_send pc (Spk_Capabilities (lh_capabilities local)) c3 = (Ready (Ok ()), c4)" and
    described: "spike_receive pc c4 = (Ready (Ok (Spk_DeviceMetadata (ph_device_name peer) (ph_platform peer))), c5)"
      "spike_receive pc c5 = (Ready (Ok (Spk_Capabilities (ph_capabilities peer))), d)" and id: "ph_node_id peer = remote"
    by (auto simp: exchange_handshake_def io_bind_Ok)
  have sends: "ch_recv c1 = ch_recv c" "ch_recv c3 = ch_recv c2" "ch_recv c4 = ch_recv c3"
    using hello(1) describe by (auto simp: spike_send_Ok)
  have "delivers pc ([Spk_Hello SPIKE_PROTOCOL_VERSION remote] @ [Spk_DeviceMetadata (ph_device_name peer) (ph_platform peer)] @
      [Spk_Capabilities (ph_capabilities peer)]) (rd_bytes (ch_recv c)) (rd_bytes (ch_recv d))"
    using hello(2) described sends unfolding delivers_append spike_receive_Ok by metis
  moreover have "ch_send c2 = ch_send c1" "ch_send c5 = ch_send c4" "ch_send d = ch_send c5"
    using hello(2) described spike_receive_keeps by metis+
  with hello(1) describe have "\<exists>fs. spike_frames pc (handshake_messages local) = Some fs \<and>
      wr_bytes (ch_send d) = wr_bytes (ch_send c) @ fs"
    by (auto simp: spike_send_Ok handshake_messages_def)
  ultimately show ?thesis using that id by simp
qed

text \<open>Whatever a handshake does after its own Hello, it first reads the Hello it expects.\<close>

lemma exchange_handshake_silent:
  assumes "exchange_handshake pc hex local remote c = (r, d)"
    and "\<nexists>rest. delivers pc [Spk_Hello SPIKE_PROTOCOL_VERSION remote] (rd_bytes (ch_recv c)) rest"
    and "spike_send pc (Spk_Hello SPIKE_PROTOCOL_VERSION (lh_node_id local)) c = (s, c1)"
  shows "ch_send d = ch_send c1"
proof (cases "s = Ready (Ok ())")
  case True
  then have recv: "ch_recv c1 = ch_recv c" using assms(3) by (auto simp: spike_send_Ok)
  obtain q c2 where q: "spike_receive pc c1 = (q, c2)" by fastforce
  have "q \<noteq> Ready (Ok (Spk_Hello SPIKE_PROTOCOL_VERSION remote))"
    using q assms(2) recv by (auto simp: spike_receive_Ok simp del: delivers.simps)
  with assms(1,3) True q have "ch_send d = ch_send c2"
    by (auto simp: exchange_handshake_def io_bind_def split: poll.splits sum.splits)
  with spike_receive_keeps [OF q] show ?thesis by simp
next
  case False
  with assms(1,3) show ?thesis by (auto simp: exchange_handshake_def io_bind_def split: poll.splits sum.splits)
qed

text \<open>A device that receives the frames of another one completes the handshake with what that one presents.\<close>

lemma exchange_handshake_completes:
  assumes "postcard_ok pc" and "spike_frames pc (handshake_messages ours) = Some sent"
    and "spike_frames pc (handshake_messages theirs) = Some received" and "length sent \<le> wr_room w"
  shows "exchange_handshake pc hex ours (lh_node_id theirs)
      \<lparr>ch_send = w, ch_recv = \<lparr>rd_bytes = received @ rest, rd_end = e\<rparr>\<rparr> =
    (Ready (Ok (presented theirs)),
     \<lparr>ch_send = w\<lparr>wr_bytes := wr_bytes w @ sent, wr_room := wr_room w - length sent\<rparr>,
      ch_recv = \<lparr>rd_bytes = rest, rd_end = e\<rparr>\<rparr>)"
proof -
  define c where "c s bs = \<lparr>ch_send = w\<lparr>wr_bytes := wr_bytes w @ s, wr_room := wr_room w - length s\<rparr>, ch_recv = \<lparr>rd_bytes = bs, rd_end = e\<rparr>\<rparr>" for s bs
  from assms(2) obtain f1 f2 f3 where f: "spike_encode_frame pc (Spk_Hello SPIKE_PROTOCOL_VERSION (lh_node_id ours)) = Ok f1"
      "spike_encode_frame pc (Spk_DeviceMetadata (lh_device_name ours) (lh_platform ours)) = Ok f2"
      "spike_encode_frame pc (Spk_Capabilities (lh_capabilities ours)) = Ok f3" "sent = f1 @ f2 @ f3"
    by (auto simp: handshake_messages_def split: sum.splits)
  obtain r1 r2 where r: "delivers pc [Spk_Hello SPIKE_PROTOCOL_VERSION (lh_node_id theirs)] (received @ rest) r1"
      "delivers pc [Spk_DeviceMetadata (lh_device_name theirs) (lh_platform theirs)] r1 r2"
      "delivers pc [Spk_Capabilities (lh_capabilities theirs)] r2 rest"
    using delivers_frames [OF assms(1,3), of rest] unfolding handshake_messages_def by auto
  have send: "spike_send pc m (c s bs) = (Ready (Ok ()), c (s @ g) bs)"
    if "spike_encode_frame pc m = Ok g" "length (s @ g) \<le> wr_room w" for m s g bs
    using that by (simp add: c_def spike_send_Ok)
  have receive: "spike_receive pc (c s bs) = (Ready (Ok m), c s bs')" if "delivers pc [m] bs bs'" for m s bs bs'
    using that by (simp add: c_def spike_receive_Ok)
  have start: "\<lparr>ch_send = w, ch_recv = \<lparr>rd_bytes = received @ rest, rd_end = e\<rparr>\<rparr> = c [] (received @ rest)"
    by (simp add: c_def)
  have "exchange_handshake pc hex ours (lh_node_id theirs) (c [] (received @ rest)) = (Ready (Ok (presented theirs)), c sent rest)"
    using send [OF f(1), of "[]"] send [OF f(2), of f1] send [OF f(3), of "f1 @ f2"] receive [OF r(1)] receive [OF r(2)]
      receive [OF r(3)] f(4) assms(4)
    by (simp add: exchange_handshake_def match_hello_def match_metadata_def match_capabilities_def
        spike_validate_hello_def presented_def)
  then show ?thesis unfolding start by (simp add: c_def)
qed

lemma example_spike_frames:
  "spike_frames example_spike_codec (handshake_messages (example_side 1)) = Some [0, 0, 0, 1, 0, 0, 0, 0, 1, 1, 0, 0, 0, 1, 2]"
  "spike_frames example_spike_codec (handshake_messages (example_side 2)) = Some [0, 0, 0, 1, 3, 0, 0, 0, 1, 1, 0, 0, 0, 1, 2]"
  by (simp_all add: handshake_messages_def example_side_def example_spike_codec_def table_codec_def spike_encode_frame_def
      MAX_FRAME_LEN_def SPIKE_PROTOCOL_VERSION_def be_simps)

lemma example_spike_handshake:
  "exchange_handshake example_spike_codec (\<lambda>_. []) (example_side 1) [2] example_handshake =
    (Ready (Ok (presented (example_side 2))), \<lparr>ch_send = \<lparr>wr_bytes = [0, 0, 0, 1, 0, 0, 0, 0, 1, 1, 0, 0, 0, 1, 2],
       wr_room = 85, wr_end = Stalls\<rparr>, ch_recv = \<lparr>rd_bytes = [], rd_end = Stalls\<rparr>\<rparr>)"
  using exchange_handshake_completes [OF _ example_spike_frames, of "\<lparr>wr_bytes = [], wr_room = 100, wr_end = Stalls\<rparr>" "\<lambda>_. []" "[]" Stalls]
  by (simp add: example_handshake_def example_spike_codec_def table_codec_ok example_side_def)

section \<open>Properties\<close>

text \<open>
  C38: the prototype's handshake authenticates. It succeeds only when the peer's first message is a Hello of the supported
  version and of the identity that the transport authenticated, followed by its description and its capabilities, and
  then the result carries these and the device has sent its own three messages. When the first
  message is anything else, the handshake does not succeed and nothing beyond the device's own Hello was sent.
\<close>

theorem spike_handshake_authenticates:
  assumes "exchange_handshake pc hex local remote c = (r, d)"
  shows "(\<forall>peer. r = Ready (Ok peer) \<longrightarrow> ph_node_id peer = remote \<and>
      delivers pc [Spk_Hello SPIKE_PROTOCOL_VERSION remote, Spk_DeviceMetadata (ph_device_name peer) (ph_platform peer),
        Spk_Capabilities (ph_capabilities peer)] (rd_bytes (ch_recv c)) (rd_bytes (ch_recv d)) \<and>
      (\<exists>fs. spike_frames pc (handshake_messages local) = Some fs \<and> wr_bytes (ch_send d) = wr_bytes (ch_send c) @ fs)) \<and>
    ((\<nexists>rest. delivers pc [Spk_Hello SPIKE_PROTOCOL_VERSION remote] (rd_bytes (ch_recv c)) rest) \<longrightarrow>
      (\<exists>bs. wr_bytes (ch_send d) = wr_bytes (ch_send c) @ bs \<and>
        (bs = [] \<or> (\<exists>f rest. spike_encode_frame pc (Spk_Hello SPIKE_PROTOCOL_VERSION (lh_node_id local)) = Ok f \<and> f = bs @ rest))))"
proof (intro conjI allI impI)
  fix peer assume "r = Ready (Ok peer)"
  with assms have "exchange_handshake pc hex local remote c = (Ready (Ok peer), d)" by simp
  note ok = exchange_handshake_Ok [OF this]
  show "ph_node_id peer = remote" by (rule ok)
  show "delivers pc [Spk_Hello SPIKE_PROTOCOL_VERSION remote, Spk_DeviceMetadata (ph_device_name peer) (ph_platform peer),
        Spk_Capabilities (ph_capabilities peer)] (rd_bytes (ch_recv c)) (rd_bytes (ch_recv d))" by (rule ok)
  show "\<exists>fs. spike_frames pc (handshake_messages local) = Some fs \<and> wr_bytes (ch_send d) = wr_bytes (ch_send c) @ fs" by (rule ok)
next
  assume none: "\<nexists>rest. delivers pc [Spk_Hello SPIKE_PROTOCOL_VERSION remote] (rd_bytes (ch_recv c)) rest"
  obtain s c1 where s: "spike_send pc (Spk_Hello SPIKE_PROTOCOL_VERSION (lh_node_id local)) c = (s, c1)" by fastforce
  from spike_send_writes [OF s] exchange_handshake_silent [OF assms none s]
  show "\<exists>bs. wr_bytes (ch_send d) = wr_bytes (ch_send c) @ bs \<and>
        (bs = [] \<or> (\<exists>f rest. spike_encode_frame pc (Spk_Hello SPIKE_PROTOCOL_VERSION (lh_node_id local)) = Ok f \<and> f = bs @ rest))"
    by simp
qed

theorem spike_handshake_authenticates_witness:
  "\<exists>peer d. exchange_handshake example_spike_codec (\<lambda>_. []) (example_side 1) [2] example_handshake = (Ready (Ok peer), d) \<and>
    ph_node_id peer = [2] \<and>
    (\<exists>fs. spike_frames example_spike_codec (handshake_messages (example_side 1)) = Some fs \<and> wr_bytes (ch_send d) = fs)"
  using spike_handshake_authenticates [OF example_spike_handshake] example_spike_handshake
  by (auto simp: example_handshake_def)

text \<open>
  Two devices that follow the protocol complete the handshake. When a device receives what the other one sends, under
  the identity the other one has, it learns exactly what the other one presents and has sent its own part; read
  with the roles exchanged, the same holds for the other device.
\<close>

theorem spike_handshake_completes:
  assumes "postcard_ok pc" and "spike_frames pc (handshake_messages ours) = Some sent"
    and "spike_frames pc (handshake_messages theirs) = Some received" and "length sent \<le> wr_room w"
  shows "exchange_handshake pc hex ours (lh_node_id theirs)
      \<lparr>ch_send = w, ch_recv = \<lparr>rd_bytes = received @ rest, rd_end = e\<rparr>\<rparr> =
    (Ready (Ok (presented theirs)),
     \<lparr>ch_send = w\<lparr>wr_bytes := wr_bytes w @ sent, wr_room := wr_room w - length sent\<rparr>,
      ch_recv = \<lparr>rd_bytes = rest, rd_end = e\<rparr>\<rparr>)"
  by (rule exchange_handshake_completes [OF assms])

theorem spike_handshake_completes_witness:
  "fst (exchange_handshake example_spike_codec (\<lambda>_. []) (example_side 1) (lh_node_id (example_side 2)) example_handshake) =
    Ready (Ok (presented (example_side 2)))"
  using spike_handshake_completes [OF _ example_spike_frames, of "\<lparr>wr_bytes = [], wr_room = 100, wr_end = Stalls\<rparr>" "\<lambda>_. []" "[]" Stalls]
  by (simp add: example_handshake_def example_spike_codec_def table_codec_ok)

end
