(* ===== verification/Spike_Transfer.thy ===== *)
theory Spike_Transfer
  imports Spike_Protocol Local_Files
begin

text \<open>
  The file transfer of the networking prototype (\<open>crates/rift-spike/src/transfer.rs\<close>): a stream of one metadata frame and the
  bytes of a file, received into a staging file that is linked to its final name only when length and digest are right. A
  file being read is a stream that may return fewer bytes than asked; the incremental digest is the digest of
  everything it was given. Waiting is ended by whoever dropped the future, so its outcome includes the removal of
  the staging file by \<open>Drop\<close>.
\<close>

section \<open>Data\<close>

definition SPIKE_STREAM_BUFFER_SIZE :: nat where
  "SPIKE_STREAM_BUFFER_SIZE = 64 * 1024"

record spike_metadata =
  sm_file_name :: string
  sm_byte_len :: u64
  sm_blake3 :: bytes

record spike_result =
  spr_output_path :: fpath
  spr_byte_len :: u64
  spr_blake3 :: bytes

datatype spike_transfer_error =
    Spt_Frame spike_frame_error
  | Spt_Io io_error_kind
  | Spt_Finish string
  | Spt_InvalidFileName string
  | Spt_LengthMismatch u64 u64
  | Spt_HashMismatch string string
  | Spt_DestinationExists fpath

text \<open>\<open>io::Error::other\<close>.\<close>

definition io_other :: io_error_kind where
  "io_other = IoKind 0"

definition verify_payload ::
  "(bytes \<Rightarrow> string) \<Rightarrow> u64 \<Rightarrow> u64 \<Rightarrow> bytes \<Rightarrow> bytes \<Rightarrow> (spike_transfer_error, unit) result" where
  "verify_payload hex expected_len actual_len expected_hash actual_hash =
     (if expected_len \<noteq> actual_len then Err (Spt_LengthMismatch expected_len actual_len)
      else if expected_hash \<noteq> actual_hash then Err (Spt_HashMismatch (hex expected_hash) (hex actual_hash))
      else Ok ())"

definition validate_file_name :: "string \<Rightarrow> (spike_transfer_error, unit) result" where
  "validate_file_name file_name =
     (if file_name = [] \<or> file_name = ''.'' \<or> file_name = ''..'' \<or> CHR ''/'' \<in> set file_name \<or> CHR 0x5C \<in> set file_name
      then Err (Spt_InvalidFileName file_name) else Ok ())"

section \<open>Sending\<close>

text \<open>The loop of \<open>hash_file\<close>: the digest of what the file returns until a read returns nothing.\<close>

function hash_loop :: "(bytes \<Rightarrow> bytes) \<Rightarrow> bytes \<Rightarrow> (chunk_reader, spike_transfer_error, bytes) io" where
  "hash_loop blake3 hashed f =
     (case read_some SPIKE_STREAM_BUFFER_SIZE f of
        (Pending, f') \<Rightarrow> (Pending, f')
      | (Ready (Err e), f') \<Rightarrow> (Ready (Err (Spt_Io e)), f')
      | (Ready (Ok bs), f') \<Rightarrow>
          if bs = [] then (Ready (Ok (blake3 hashed)), f') else hash_loop blake3 (hashed @ bs) f')"
  by pat_completeness auto
termination
  by (relation "measure (\<lambda>(_, _, f). length (rd_bytes f))") (auto dest!: read_some_Ok(1) [OF sym])

declare hash_loop.simps [simp del]

definition hash_file :: "(bytes \<Rightarrow> bytes) \<Rightarrow> (io_error_kind, chunk_reader) result \<Rightarrow> (spike_transfer_error, bytes) result poll" where
  "hash_file blake3 opened =
     (case opened of Err e \<Rightarrow> Ready (Err (Spt_Io e)) | Ok f \<Rightarrow> fst (hash_loop blake3 [] f))"

text \<open>\<open>stat\<close> is what \<open>fs::metadata\<close> says of the length, \<open>shown\<close> the path as it is displayed.\<close>

definition metadata_for_file ::
  "(bytes \<Rightarrow> bytes) \<Rightarrow> fpath \<Rightarrow> string \<Rightarrow> (io_error_kind, u64) result \<Rightarrow> (io_error_kind, chunk_reader) result \<Rightarrow>
     (spike_transfer_error, spike_metadata) result poll" where
  "metadata_for_file blake3 path shown stat opened =
     (case stat of
        Err e \<Rightarrow> Ready (Err (Spt_Io e))
      | Ok len \<Rightarrow>
          (case and_then (ok_or (fp_name path) (Spt_InvalidFileName shown)) (\<lambda>file_name.
                and_then (validate_file_name file_name) (\<lambda>_. Ok file_name)) of
             Err e \<Rightarrow> Ready (Err e)
           | Ok file_name \<Rightarrow>
               (case hash_file blake3 opened of
                  Pending \<Rightarrow> Pending
                | Ready r \<Rightarrow> Ready (and_then r (\<lambda>digest.
                    Ok \<lparr>sm_file_name = file_name, sm_byte_len = len, sm_blake3 = digest\<rparr>)))))"

text \<open>The loop of \<open>send_file\<close>; it returns what was hashed and how much.\<close>

function spike_send_loop ::
  "bytes \<Rightarrow> u64 \<Rightarrow> chunk_reader \<Rightarrow> (writer, spike_transfer_error, bytes \<times> u64) io" where
  "spike_send_loop hashed sent f w =
     (case read_some SPIKE_STREAM_BUFFER_SIZE f of
        (Pending, f') \<Rightarrow> (Pending, w)
      | (Ready (Err e), f') \<Rightarrow> (Ready (Err (Spt_Io e)), w)
      | (Ready (Ok bs), f') \<Rightarrow>
          if bs = [] then (Ready (Ok (hashed, sent)), w)
          else (case io_map_err (\<lambda>_. Spt_Io io_other) (write_all bs) w of
              (Pending, w') \<Rightarrow> (Pending, w')
            | (Ready (Err e), w') \<Rightarrow> (Ready (Err e), w')
            | (Ready (Ok _), w') \<Rightarrow> spike_send_loop (hashed @ bs) (saturating_add sent (of_nat (length bs))) f' w'))"
  by pat_completeness auto
termination
  by (relation "measure (\<lambda>(_, _, f, _). length (rd_bytes f))") (auto dest!: read_some_Ok(1) [OF sym])

declare spike_send_loop.simps [simp del]

text \<open>\<open>finished\<close> is what \<open>SendStream::finish\<close> says.\<close>

definition spike_send_file ::
  "spike_metadata postcard \<Rightarrow> (bytes \<Rightarrow> bytes) \<Rightarrow> (bytes \<Rightarrow> string) \<Rightarrow> (io_error_kind, chunk_reader) result \<Rightarrow>
     (string, unit) result \<Rightarrow> spike_metadata \<Rightarrow> (writer, spike_transfer_error, u64) io" where
  "spike_send_file pc blake3 hex opened finished metadata =
     io_bind (io_map_err Spt_Frame (spike_write_value pc metadata)) (\<lambda>_.
     io_bind (io_return (map_err Spt_Io opened)) (\<lambda>f.
     io_bind (spike_send_loop [] 0 f) (\<lambda>(hashed, sent).
     if sent \<noteq> sm_byte_len metadata then io_return (Err (Spt_LengthMismatch (sm_byte_len metadata) sent))
     else io_bind (io_return (verify_payload hex (sm_byte_len metadata) sent (sm_blake3 metadata) (blake3 hashed))) (\<lambda>_.
          io_bind (io_return (map_err Spt_Finish finished)) (\<lambda>_. io_return (Ok sent))))))"

section \<open>The staging file\<close>

definition part_name :: "string \<Rightarrow> nat \<Rightarrow> u64 \<Rightarrow> string" where
  "part_name file_name pid counter =
     ''.'' @ file_name @ ''.'' @ decimal pid @ ''.'' @ decimal (unat counter) @ ''.part''"

definition create_staged_file ::
  "nat \<Rightarrow> nat \<Rightarrow> string \<Rightarrow> string \<Rightarrow> disk \<Rightarrow> ((spike_transfer_error, fpath) result \<times> disk) option" where
  "create_staged_file fuel pid receive_dir file_name d =
     map_option (\<lambda>(r, d'). (map_err Spt_Io r, d'))
       (claim_fresh fuel ''create staged file'' 438 (\<lambda>c. join receive_dir (part_name file_name pid c)) d)"

text \<open>\<open>StagedFile::remove\<close> keeps the path for \<open>Drop\<close> when the file could not be removed.\<close>

definition staged_remove :: "fpath \<Rightarrow> disk \<Rightarrow> fpath option \<times> disk" where
  "staged_remove path d =
     (case fs_remove_file ''remove staged file'' path d of
        (Ok _, d') \<Rightarrow> (None, d')
      | (Err e, d') \<Rightarrow> (if e = NotFound then None else Some path, d'))"

definition staged_drop :: "fpath option \<Rightarrow> disk \<Rightarrow> disk" where
  "staged_drop path d = (case path of None \<Rightarrow> d | Some p \<Rightarrow> snd (fs_remove_file ''drop staged file'' p d))"

text \<open>Removing it and then leaving the function.\<close>

definition discard_staged :: "fpath \<Rightarrow> disk \<Rightarrow> disk" where
  "discard_staged path d = (case staged_remove path d of (left, d') \<Rightarrow> staged_drop left d')"

section \<open>Receiving\<close>

function receive_part ::
  "spike_metadata \<Rightarrow> fpath \<Rightarrow> bytes \<Rightarrow> u64 \<Rightarrow> (chunk_reader \<times> disk, spike_transfer_error, bytes \<times> u64) io" where
  "receive_part metadata t hashed received (r, d) =
     (case read_some SPIKE_STREAM_BUFFER_SIZE r of
        (Pending, r') \<Rightarrow> (Pending, r', d)
      | (Ready (Err e), r') \<Rightarrow> (Ready (Err (Spt_Io e)), r', d)
      | (Ready (Ok bs), r') \<Rightarrow>
          if bs = [] then (Ready (Ok (hashed, received)), r', d)
          else (let count = of_nat (length bs) in
            if saturating_sub (sm_byte_len metadata) received < count
            then (Ready (Err (Spt_LengthMismatch (sm_byte_len metadata) (saturating_add received count))), r', d)
            else (case fs_append ''write staged file'' bs t d of
                (Err e, d') \<Rightarrow> (Ready (Err (Spt_Io e)), r', d')
              | (Ok _, d') \<Rightarrow> receive_part metadata t (hashed @ bs) (saturating_add received count) (r', d'))))"
  by pat_completeness auto
termination
  by (relation "measure (\<lambda>(_, _, _, _, r, _). length (rd_bytes r))") (auto dest!: read_some_Ok(1) [OF sym])

declare receive_part.simps [simp del]

definition receive_to_temporary ::
  "(bytes \<Rightarrow> bytes) \<Rightarrow> spike_metadata \<Rightarrow> fpath \<Rightarrow> (chunk_reader \<times> disk, spike_transfer_error, u64 \<times> bytes) io" where
  "receive_to_temporary blake3 metadata t =
     io_bind (receive_part metadata t [] 0) (\<lambda>(hashed, received) (r, d).
     case fs_fault ''flush staged file'' d of
       (Err e, d') \<Rightarrow> (Ready (Err (Spt_Io e)), r, d')
     | (Ok _, d') \<Rightarrow> (Ready (Ok (received, blake3 hashed)), r, d'))"

text \<open>Checking what was received and linking it to its name; the staging file goes in any case.\<close>

definition publish_staged ::
  "(bytes \<Rightarrow> string) \<Rightarrow> spike_metadata \<Rightarrow> fpath \<Rightarrow> fpath \<Rightarrow> u64 \<Rightarrow> bytes \<Rightarrow> disk \<Rightarrow>
     (spike_transfer_error, spike_result) result \<times> disk" where
  "publish_staged hex metadata t output_path byte_len digest d =
     (case verify_payload hex (sm_byte_len metadata) byte_len (sm_blake3 metadata) digest of
        Err e \<Rightarrow> (Err e, discard_staged t d)
      | Ok _ \<Rightarrow>
          (case fs_hard_link ''publish received file'' t output_path d of
             (Ok _, d') \<Rightarrow> (Ok \<lparr>spr_output_path = output_path, spr_byte_len = byte_len, spr_blake3 = digest\<rparr>, discard_staged t d')
           | (Err e, d') \<Rightarrow>
               (Err (if e = AlreadyExists then Spt_DestinationExists output_path else Spt_Io e), discard_staged t d')))"

definition settle_staged ::
  "(bytes \<Rightarrow> bytes) \<Rightarrow> (bytes \<Rightarrow> string) \<Rightarrow> spike_metadata \<Rightarrow> fpath \<Rightarrow> fpath \<Rightarrow>
     (chunk_reader \<times> disk, spike_transfer_error, spike_result) io" where
  "settle_staged blake3 hex metadata t output_path s =
     (case receive_to_temporary blake3 metadata t s of
        (Pending, r, d) \<Rightarrow> (Pending, r, staged_drop (Some t) d)
      | (Ready (Err e), r, d) \<Rightarrow> (Ready (Err e), r, discard_staged t d)
      | (Ready (Ok (byte_len, digest)), r, d) \<Rightarrow>
          (case publish_staged hex metadata t output_path byte_len digest d of (x, d') \<Rightarrow> (Ready x, r, d')))"

definition receive_metadata :: "spike_metadata postcard \<Rightarrow> (chunk_reader, spike_transfer_error, spike_metadata) io" where
  "receive_metadata pc =
     io_bind (io_map_err Spt_Frame (spike_read_value pc)) (\<lambda>metadata.
     io_bind (io_return (validate_file_name (sm_file_name metadata))) (\<lambda>_. io_return (Ok metadata)))"

text \<open>Everything after the metadata. \<open>None\<close> is a search for a staging name that ran out of fuel.\<close>

definition receive_body ::
  "(bytes \<Rightarrow> bytes) \<Rightarrow> (bytes \<Rightarrow> string) \<Rightarrow> nat \<Rightarrow> nat \<Rightarrow> string \<Rightarrow> fpath \<Rightarrow> spike_metadata \<Rightarrow> chunk_reader \<Rightarrow> disk \<Rightarrow>
     ((spike_transfer_error, spike_result) result poll \<times> chunk_reader \<times> disk) option" where
  "receive_body blake3 hex fuel pid receive_dir dir_path metadata r1 d =
     (case fs_create_dir_all dir_path ''create receive directory'' d of
        (Err e, d1) \<Rightarrow> Some (Ready (Err (Spt_Io e)), r1, d1)
      | (Ok _, d1) \<Rightarrow>
          (case create_staged_file fuel pid receive_dir (sm_file_name metadata) d1 of
             None \<Rightarrow> None
           | Some (Err e, d2) \<Rightarrow> Some (Ready (Err e), r1, d2)
           | Some (Ok t, d2) \<Rightarrow>
               Some (settle_staged blake3 hex metadata t (join receive_dir (sm_file_name metadata)) (r1, d2))))"

definition receive_file ::
  "spike_metadata postcard \<Rightarrow> (bytes \<Rightarrow> bytes) \<Rightarrow> (bytes \<Rightarrow> string) \<Rightarrow> nat \<Rightarrow> nat \<Rightarrow> string \<Rightarrow> fpath \<Rightarrow> chunk_reader \<times> disk \<Rightarrow>
     ((spike_transfer_error, spike_result) result poll \<times> chunk_reader \<times> disk) option" where
  "receive_file pc blake3 hex fuel pid receive_dir dir_path = (\<lambda>(r, d).
     case receive_metadata pc r of
       (Pending, r1) \<Rightarrow> Some (Pending, r1, d)
     | (Ready (Err e), r1) \<Rightarrow> Some (Ready (Err e), r1, d)
     | (Ready (Ok metadata), r1) \<Rightarrow> receive_body blake3 hex fuel pid receive_dir dir_path metadata r1 d)"

section \<open>Notions of the properties\<close>

text \<open>Content that came in under the metadata is now the file at a path that was free.\<close>

definition received_at ::
  "(bytes \<Rightarrow> bytes) \<Rightarrow> spike_metadata \<Rightarrow> fpath \<Rightarrow> bytes \<Rightarrow> disk \<Rightarrow> disk \<Rightarrow> spike_result \<Rightarrow> bool" where
  "received_at blake3 metadata out content d d' res \<longleftrightarrow>
     dk_nodes d out = None \<and>
     (\<exists>n. dk_nodes d' out = Some n \<and> fn_kind n = Regular \<and> fn_bytes n = content) \<and>
     length content = unat (sm_byte_len metadata) \<and> blake3 content = sm_blake3 metadata \<and>
     res = \<lparr>spr_output_path = out, spr_byte_len = sm_byte_len metadata, spr_blake3 = sm_blake3 metadata\<rparr>"

text \<open>Leaving the staging file behind takes a removal that fails.\<close>

definition removal_works :: "disk \<Rightarrow> bool" where
  "removal_works d \<longleftrightarrow> dk_faults d ''drop staged file'' = None \<and> dk_faults d ''remove staged file'' \<noteq> Some NotFound"

text \<open>
  What a reception may add to the disk: the receive directory, the file of a success, and, only when a removal
  fails, the staging file of the announced name.
\<close>

definition may_add ::
  "spike_metadata postcard \<Rightarrow> nat \<Rightarrow> string \<Rightarrow> fpath \<Rightarrow> chunk_reader \<Rightarrow> disk \<Rightarrow>
     (spike_transfer_error, spike_result) result poll \<Rightarrow> fpath \<Rightarrow> fnode \<Rightarrow> bool" where
  "may_add pc pid dir dir_path r d x p n \<longleftrightarrow>
     p = dir_path \<and> fn_kind n = Directory \<or>
     (\<exists>res. x = Ready (Ok res) \<and> p = spr_output_path res) \<or>
     (\<not> removal_works d \<and> (\<exists>metadata content c. delivers pc [metadata] (rd_bytes r) content \<and>
        p = join dir (part_name (sm_file_name metadata) pid c)))"

section \<open>Example values\<close>

definition example_part :: spike_metadata where
  "example_part = \<lparr>sm_file_name = ''a'', sm_byte_len = 2, sm_blake3 = replicate 32 0\<rparr>"

definition example_incoming :: chunk_reader where
  "example_incoming = \<lparr>rd_bytes = [0, 0, 0, 1, 0, 7, 8], rd_end = Eof, rd_chunks = [1, 1]\<rparr>"

definition example_source :: chunk_reader where
  "example_source = \<lparr>rd_bytes = [7, 8], rd_end = Eof, rd_chunks = []\<rparr>"

section \<open>Lemmas\<close>

lemma validate_file_name_Ok:
  "validate_file_name f = Ok u \<longleftrightarrow> f \<notin> {[], ''.'', ''..''} \<and> CHR ''/'' \<notin> set f \<and> CHR 0x5C \<notin> set f"
  by (auto simp: validate_file_name_def)

lemma verify_payload_Ok: "verify_payload hex n m h k = Ok u \<longleftrightarrow> n = m \<and> h = k"
  by (simp add: verify_payload_def)

lemma part_name_other: "part_name f pid a \<noteq> f"
proof
  assume "part_name f pid a = f"
  then have "length (part_name f pid a) = length f" by simp
  then show False by (simp add: part_name_def)
qed

lemma inj_part_path: "inj (\<lambda>c. join dir (part_name f pid c))"
  by (auto simp: inj_def part_name_def word_unat_eq_iff dest!: decimal_inject)

lemma fs_append_effect:
  assumes "fs_append operation bs p d = (r, d')" and "dk_nodes d p = Some n"
  obtains written where "dk_nodes d' = (dk_nodes d)(p := Some (n\<lparr>fn_bytes := fn_bytes n @ written\<rparr>))"
    and "dk_faults d' = dk_faults d" and "r = Ok () \<Longrightarrow> written = bs"
  using assms by (auto simp: fs_append_def Let_def split: option.splits if_splits)

lemma staged_drop_effect:
  assumes "dk_nodes d t = Some n" and "fn_kind n = Regular"
  shows "dk_nodes (staged_drop (Some t) d) = (if dk_faults d ''drop staged file'' = None then (dk_nodes d)(t := None) else dk_nodes d)"
  using assms by (auto simp: staged_drop_def fs_defs split: option.splits)

lemma discard_staged_effect:
  assumes "dk_nodes d t = Some n" and "fn_kind n = Regular"
  shows "dk_nodes (discard_staged t d) \<in> {dk_nodes d, (dk_nodes d)(t := None)}"
    and "removal_works d \<Longrightarrow>
      dk_nodes (discard_staged t d) = (dk_nodes d)(t := None)"
  using assms by (auto simp: removal_works_def discard_staged_def staged_remove_def staged_drop_def fs_defs split: option.splits)

text \<open>What the loop stages is what it read, and never more than was announced.\<close>

lemma receive_count:
  assumes "\<not> saturating_sub len received < (of_nat (length bs) :: u64)" and "length bs \<le> SPIKE_STREAM_BUFFER_SIZE"
    and "received = of_nat (length hashed)" and "length hashed \<le> unat len"
  shows "saturating_add received (of_nat (length bs)) = of_nat (length (hashed @ bs))" and "length (hashed @ bs) \<le> unat len"
proof -
  have count: "unat (of_nat (length bs) :: u64) = length bs"
    using assms(2) by (simp add: unat_of_nat take_bit_nat_eq_self SPIKE_STREAM_BUFFER_SIZE_def)
  have "length hashed < 2 ^ 64" using assms(4) unsigned_less [where 'a = nat, of len] by simp
  then have "unat received = length hashed" using assms(3) by (simp add: unat_of_nat take_bit_nat_eq_self)
  then show "length (hashed @ bs) \<le> unat len"
    using assms(1,4) count by (simp add: word_less_nat_alt unat_saturating_sub)
  then have "unat received + unat (of_nat (length bs) :: u64) < 2 ^ 64"
    using count \<open>unat received = length hashed\<close> unsigned_less [where 'a = nat, of len] by simp
  then show "saturating_add received (of_nat (length bs)) = of_nat (length (hashed @ bs))"
    using assms(3) by (simp add: saturating_add_def)
qed

lemma receive_part_effect:
  "receive_part metadata t hashed received (r, d) = (x, r', d') \<Longrightarrow> dk_nodes d t = Some n \<Longrightarrow> fn_bytes n = hashed \<Longrightarrow>
    received = of_nat (length hashed) \<Longrightarrow> length hashed \<le> unat (sm_byte_len metadata) \<Longrightarrow>
    \<exists>n'. dk_nodes d' = (dk_nodes d)(t := Some n') \<and> fn_kind n' = fn_kind n \<and> dk_faults d' = dk_faults d \<and>
      (\<forall>h k. x = Ready (Ok (h, k)) \<longrightarrow> fn_bytes n' = hashed @ rd_bytes r \<and> h = hashed @ rd_bytes r \<and> k = of_nat (length h) \<and>
        length h \<le> unat (sm_byte_len metadata) \<and> rd_end r = Eof)"
proof (induction metadata t hashed received "(r, d)" arbitrary: r d n rule: receive_part.induct)
  case (1 metadata t hashed received r d)
  have same: ?case if "d' = d" "\<forall>h k. x \<noteq> Ready (Ok (h, k))"
    using that "1.prems"(2) by (intro exI [of _ n]) (auto simp: fun_upd_idem)
  obtain y r1 where read: "read_some SPIKE_STREAM_BUFFER_SIZE r = (y, r1)" by fastforce
  show ?case
  proof (cases "\<exists>bs. y = Ready (Ok bs)")
    case False
    with "1.prems"(1) read have "d' = d" "\<forall>h k. x \<noteq> Ready (Ok (h, k))"
      by (auto simp: receive_part.simps [of _ _ _ _ r] split: poll.splits sum.splits)
    then show ?thesis by (rule same)
  next
    case True
    then obtain bs where bs: "read_some SPIKE_STREAM_BUFFER_SIZE r = (Ready (Ok bs), r1)" using read by auto
    note some = read_some_Ok [OF bs]
    consider (eof) "bs = []" | (long) "bs \<noteq> []" "saturating_sub (sm_byte_len metadata) received < of_nat (length bs)"
      | (more) "bs \<noteq> []" "\<not> saturating_sub (sm_byte_len metadata) received < of_nat (length bs)" by blast
    then show ?thesis
    proof cases
      case eof
      with "1.prems" bs some have "x = Ready (Ok (hashed, received))" "d' = d" "rd_bytes r = []" "rd_end r = Eof"
        by (auto simp: receive_part.simps [of _ _ _ _ r] SPIKE_STREAM_BUFFER_SIZE_def)
      with "1.prems" show ?thesis by (intro exI [of _ n]) (auto simp: fun_upd_idem)
    next
      case long
      with "1.prems"(1) bs have "d' = d" "\<forall>h k. x \<noteq> Ready (Ok (h, k))"
        by (auto simp: receive_part.simps [of _ _ _ _ r] Let_def)
      then show ?thesis by (rule same)
    next
      case more
      obtain z d1 where app: "fs_append ''write staged file'' bs t d = (z, d1)" by fastforce
      from fs_append_effect [OF app "1.prems"(2)] obtain written where w:
        "dk_nodes d1 = (dk_nodes d)(t := Some (n\<lparr>fn_bytes := fn_bytes n @ written\<rparr>))" "dk_faults d1 = dk_faults d"
        "z = Ok () \<Longrightarrow> written = bs" by metis
      show ?thesis
      proof (cases z)
        case (Inl e)
        with "1.prems"(1) bs more app have "d' = d1" "\<forall>h k. x \<noteq> Ready (Ok (h, k))"
          by (auto simp: receive_part.simps [of _ _ _ _ r] Let_def)
        with w show ?thesis by (intro exI [of _ "n\<lparr>fn_bytes := fn_bytes n @ written\<rparr>"]) simp
      next
        case (Inr u)
        note step = receive_count [OF more(2) some(3) "1.prems"(4,5)]
        have run: "receive_part metadata t (hashed @ bs) (saturating_add received (of_nat (length bs))) (r1, d1) = (x, r', d')"
          using "1.prems"(1) bs more app Inr by (simp add: receive_part.simps [of _ _ _ _ r] Let_def)
        have "z = Ok ()" using Inr by simp
        then have node: "dk_nodes d1 t = Some (n\<lparr>fn_bytes := hashed @ bs\<rparr>)" using w "1.prems"(3) by simp
        from "1.hyps" [OF bs [symmetric] refl refl more(1) refl more(2) app [symmetric] Inr run node _ step] some(1,2) w(1,2)
        show ?thesis by simp
      qed
    qed
  qed
qed

lemma receive_to_temporary_effect:
  assumes "receive_to_temporary blake3 metadata t (r, d) = (x, r', d')" and "dk_nodes d t = Some n" and "fn_bytes n = []"
  obtains n' where "dk_nodes d' = (dk_nodes d)(t := Some n')" and "fn_kind n' = fn_kind n" and "dk_faults d' = dk_faults d"
    and "\<And>k h. x = Ready (Ok (k, h)) \<Longrightarrow> fn_bytes n' = rd_bytes r \<and> h = blake3 (rd_bytes r) \<and> unat k = length (rd_bytes r) \<and> rd_end r = Eof"
proof -
  obtain y r1 d1 where part: "receive_part metadata t [] 0 (r, d) = (y, r1, d1)" by (metis surj_pair)
  from receive_part_effect [OF part assms(2,3)] obtain n' where n': "dk_nodes d1 = (dk_nodes d)(t := Some n')"
      "fn_kind n' = fn_kind n" "dk_faults d1 = dk_faults d" and
    ok: "\<And>h k. y = Ready (Ok (h, k)) \<Longrightarrow> fn_bytes n' = rd_bytes r \<and> h = rd_bytes r \<and> k = of_nat (length h) \<and>
        length h \<le> unat (sm_byte_len metadata) \<and> rd_end r = Eof"
    by auto
  have d': "d' = d1" and x: "\<And>k h. x = Ready (Ok (k, h)) \<Longrightarrow> \<exists>b. y = Ready (Ok (b, k)) \<and> h = blake3 b"
    using assms(1) part
    by (auto simp: receive_to_temporary_def io_bind_def fs_fault_def split: poll.splits sum.splits option.splits)
  have "unat (of_nat (length b) :: u64) = length b" if "length b \<le> unat (sm_byte_len metadata)" for b :: bytes
    using that unsigned_less [where 'a = nat, of "sm_byte_len metadata"] by (simp add: unat_of_nat take_bit_nat_eq_self)
  then have "fn_bytes n' = rd_bytes r \<and> h = blake3 (rd_bytes r) \<and> unat k = length (rd_bytes r) \<and> rd_end r = Eof"
    if "x = Ready (Ok (k, h))" for k h using x [OF that] ok [of _ k] by fastforce
  with that [of n'] n' d' show ?thesis by simp
qed

lemma publish_staged_effect:
  assumes "publish_staged hex metadata t out k h d = (x, d')" and "dk_nodes d = (dk_nodes d0)(t := Some n)"
    and "fn_kind n = Regular" and "t \<noteq> out" and "dk_nodes d0 t = None"
  shows "p \<noteq> t \<Longrightarrow> p \<noteq> out \<Longrightarrow> dk_nodes d' p = dk_nodes d0 p"
    and "x = Ok res \<Longrightarrow> dk_nodes d0 out = None \<and> dk_nodes d' out = Some n \<and> k = sm_byte_len metadata \<and>
      h = sm_blake3 metadata \<and> res = \<lparr>spr_output_path = out, spr_byte_len = k, spr_blake3 = h\<rparr>"
    and "\<not> is_ok x \<Longrightarrow> dk_nodes d' out = dk_nodes d0 out"
    and "removal_works d \<Longrightarrow> dk_nodes d' t = None"
proof -
  define e where "e = snd (fs_hard_link ''publish received file'' t out d)"
  have e: "dk_faults e = dk_faults d" "dk_nodes e t = Some n" "\<And>p. p \<noteq> out \<Longrightarrow> dk_nodes e p = dk_nodes d p"
    "dk_nodes d out \<noteq> None \<Longrightarrow> dk_nodes e out = dk_nodes d out"
    using assms(2,4) by (auto simp: e_def fs_defs split: option.splits)
  have discard: "dk_nodes (discard_staged t f) \<in> {dk_nodes f, (dk_nodes f)(t := None)}"
      "removal_works f \<Longrightarrow>
        dk_nodes (discard_staged t f) t = None" if "dk_nodes f t = Some n" for f
    using discard_staged_effect [OF that assms(3)] by auto
  have link: "dk_nodes d out = None" "dk_nodes e out = Some n" if "fs_hard_link ''publish received file'' t out d = (Ok u, e)" for u
    using that assms(2,4) by (auto simp: fs_defs split: option.splits if_splits)
  have fail: "dk_nodes e = dk_nodes d" if "fs_hard_link ''publish received file'' t out d = (Err f, e)" for f
    using that by (auto simp: fs_defs split: option.splits if_splits)
  obtain l where l: "fs_hard_link ''publish received file'' t out d = (l, e)" unfolding e_def by (metis prod.collapse)
  have dt: "dk_nodes d t = Some n" using assms(2) by simp
  show "p \<noteq> t \<Longrightarrow> p \<noteq> out \<Longrightarrow> dk_nodes d' p = dk_nodes d0 p"
    using assms(1,2) l discard(1) [OF e(2)] discard(1) [OF dt] e(3)
    by (auto simp: publish_staged_def split: sum.splits)
  show "x = Ok res \<Longrightarrow> dk_nodes d0 out = None \<and> dk_nodes d' out = Some n \<and> k = sm_byte_len metadata \<and>
      h = sm_blake3 metadata \<and> res = \<lparr>spr_output_path = out, spr_byte_len = k, spr_blake3 = h\<rparr>"
    using assms(1,2,4) l discard(1) [OF e(2)] link
    by (auto simp: publish_staged_def verify_payload_def split: sum.splits if_splits)
  show "\<not> is_ok x \<Longrightarrow> dk_nodes d' out = dk_nodes d0 out"
    using assms(1,2,4) l discard(1) [OF e(2)] discard(1) [OF dt] fail
    by (auto simp: publish_staged_def is_ok_def split: sum.splits)
  show "removal_works d \<Longrightarrow> dk_nodes d' t = None"
    using assms(1) l discard(2) [OF e(2)] discard(2) [OF dt] e(1)
    by (auto simp: publish_staged_def removal_works_def split: sum.splits)
qed

lemma settle_staged_effect:
  assumes "settle_staged blake3 hex metadata t out (r, d) = (x, r', d')" and "dk_nodes d = (dk_nodes d0)(t := Some n)"
    and "fn_kind n = Regular" and "fn_bytes n = []" and "t \<noteq> out" and "dk_nodes d0 t = None"
  shows "(p \<noteq> t \<longrightarrow> p \<noteq> out \<longrightarrow> dk_nodes d' p = dk_nodes d0 p) \<and>
    (\<forall>res. x = Ready (Ok res) \<longrightarrow> received_at blake3 metadata out (rd_bytes r) d0 d' res \<and> rd_end r = Eof) \<and>
    ((\<nexists>res. x = Ready (Ok res)) \<longrightarrow> dk_nodes d' out = dk_nodes d0 out) \<and> (removal_works d \<longrightarrow> dk_nodes d' t = None)"
proof -
  obtain y r1 d1 where y: "receive_to_temporary blake3 metadata t (r, d) = (y, r1, d1)" by (metis surj_pair)
  have dt: "dk_nodes d t = Some n" using assms(2) by simp
  obtain n' where n1: "dk_nodes d1 = (dk_nodes d)(t := Some n')" "fn_kind n' = fn_kind n" "dk_faults d1 = dk_faults d"
      and full: "\<And>k h. y = Ready (Ok (k, h)) \<Longrightarrow> fn_bytes n' = rd_bytes r \<and> h = blake3 (rd_bytes r) \<and> unat k = length (rd_bytes r) \<and> rd_end r = Eof"
    using receive_to_temporary_effect [OF y dt assms(4)] by metis
  then have n': "dk_nodes d1 = (dk_nodes d0)(t := Some n')" "fn_kind n' = Regular" using assms(2,3) by simp_all
  have d1t: "dk_nodes d1 t = Some n'" using n'(1) by simp
  have works: "removal_works d1 = removal_works d" using n1(3) by (simp add: removal_works_def)
  note drop = staged_drop_effect [OF d1t n'(2)] and discard = discard_staged_effect [OF d1t n'(2)]
  show ?thesis
  proof (cases y)
    case Pending
    with assms(1) y have "x = Pending" "d' = staged_drop (Some t) d1" by (auto simp: settle_staged_def)
    with drop n' n1(3) assms(5) show ?thesis by (auto simp: removal_works_def)
  next
    case (Ready q)
    show ?thesis
    proof (cases q)
      case (Inl e)
      with Ready assms(1) y have "x = Ready (Err e)" "d' = discard_staged t d1" by (auto simp: settle_staged_def)
      with discard n' works assms(5) show ?thesis by auto
    next
      case (Inr kh)
      then obtain k h where kh: "y = Ready (Ok (k, h))" using Ready by (cases kh) simp
      then obtain z where z: "publish_staged hex metadata t out k h d1 = (z, d')" and x: "x = Ready z"
        using assms(1) y by (auto simp: settle_staged_def split: prod.splits)
      note pub = publish_staged_effect [OF z n' assms(5,6)]
      have "(\<nexists>res. x = Ready (Ok res)) \<longrightarrow> dk_nodes d' out = dk_nodes d0 out"
        using pub(3) x by (cases z) (auto simp: is_ok_def)
      moreover have "received_at blake3 metadata out (rd_bytes r) d0 d' res" if "x = Ready (Ok res)" for res
        using pub(2) [of res] x that full [OF kh] n'(2) by (auto simp: received_at_def)
      ultimately show ?thesis using pub(1) [of p] pub(4) works full [OF kh] by blast
    qed
  qed
qed

text \<open>The staging file is new, under a name of its own, in a directory that exists.\<close>

lemma create_staged_file_effect:
  assumes "create_staged_file fuel pid dir f d = Some (x, d')"
  shows "dk_faults d' = dk_faults d"
    and "x = Err e \<Longrightarrow> dk_nodes d' = dk_nodes d"
    and "x = Ok t \<Longrightarrow> \<exists>c. t = join dir (part_name f pid c)"
    and "x = Ok t \<Longrightarrow> t \<noteq> join dir f \<and> dk_nodes d t = None \<and>
      (\<exists>n. fn_kind n = Regular \<and> fn_bytes n = [] \<and> dk_nodes d' = (dk_nodes d)(t := Some n))"
  using assms
  by (auto simp: create_staged_file_def part_name_other part_name_other [symmetric] dest!: claim_fresh_effect split: sum.splits
      intro!: exI [where P = "\<lambda>n. fn_kind n = Regular \<and> _ n"])

lemma receive_body_effect:
  assumes "receive_body blake3 hex fuel pid dir dir_path metadata r d = Some (x, r', d')"
  shows "(dk_nodes d p = Some n \<longrightarrow> dk_nodes d' p = Some n) \<and>
    (\<forall>res. x = Ready (Ok res) \<longrightarrow> received_at blake3 metadata (join dir (sm_file_name metadata)) (rd_bytes r) d d' res \<and> rd_end r = Eof) \<and>
    (dk_nodes d p = None \<and> dk_nodes d' p = Some m' \<longrightarrow>
       p = dir_path \<and> fn_kind m' = Directory \<or> (\<exists>res. x = Ready (Ok res) \<and> p = spr_output_path res) \<or>
       \<not> removal_works d \<and> (\<exists>c. p = join dir (part_name (sm_file_name metadata) pid c)))"
proof -
  let ?out = "join dir (sm_file_name metadata)"
  obtain z d1 where dir: "fs_create_dir_all dir_path ''create receive directory'' d = (z, d1)" by fastforce
  note made = create_dir_effect [OF dir]
  show ?thesis
  proof (cases z)
    case (Inl e)
    with assms dir have "d' = d1" "x = Ready (Err (Spt_Io e))" by (auto simp: receive_body_def)
    with made(2) [of p n] made(3) [of p] made(5) [of m'] show ?thesis by (cases "p = dir_path") auto
  next
    case (Inr u)
    then have dp: "dk_nodes d1 dir_path \<noteq> None" using made(4) by simp
    obtain w d2 where st: "create_staged_file fuel pid dir (sm_file_name metadata) d1 = Some (w, d2)"
      using assms dir Inr by (auto simp: receive_body_def split: option.splits)
    note staged = create_staged_file_effect [OF st]
    show ?thesis
    proof (cases w)
      case (Inl e)
      with assms dir \<open>z = Ok u\<close> st have "d' = d2" "x = Ready (Err e)" by (auto simp: receive_body_def)
      with staged(2) [OF Inl] made(2) [of p n] made(3) [of p] made(5) [of m'] show ?thesis by (cases "p = dir_path") auto
    next
      case (Inr t)
      with assms dir \<open>z = Ok u\<close> st have run: "settle_staged blake3 hex metadata t ?out (r, d2) = (x, r', d')"
        by (auto simp: receive_body_def)
      from staged(4) [OF Inr] obtain m where m: "t \<noteq> ?out" "dk_nodes d1 t = None" "fn_kind m = Regular" "fn_bytes m = []"
          "dk_nodes d2 = (dk_nodes d1)(t := Some m)" by blast
      note settled = settle_staged_effect [OF run m(5,3,4,1,2)]
      have works: "removal_works d2 = removal_works d" using staged(1) made(1) by (simp add: removal_works_def)
      have other: "dk_nodes d' q = dk_nodes d1 q" if "q \<noteq> t" "q \<noteq> ?out" for q using settled that by blast
      have got: "received_at blake3 metadata ?out (rd_bytes r) d1 d' res \<and> rd_end r = Eof" if "x = Ready (Ok res)" for res
        using settled that by blast
      have failed: "dk_nodes d' ?out = dk_nodes d1 ?out" if "\<nexists>res. x = Ready (Ok res)" using settled that by blast
      have gone: "dk_nodes d' t = None" if "removal_works d" using settled works that by blast
      have free: "dk_nodes d q = None" if "dk_nodes d1 q = None" for q using made(2) [of q] that by (cases "dk_nodes d q") auto
      have "dk_nodes d' p = Some n" if "dk_nodes d p = Some n"
      proof -
        have "p \<noteq> t" "dk_nodes d1 p = Some n" using made(2) [OF that] m(2) by auto
        then show ?thesis using other [of p] got failed by (cases "p = ?out") (auto simp: received_at_def)
      qed
      moreover have "received_at blake3 metadata ?out (rd_bytes r) d d' res \<and> rd_end r = Eof" if "x = Ready (Ok res)" for res
        using got [OF that] free [of ?out] by (simp add: received_at_def)
      moreover have "p = dir_path \<and> fn_kind m' = Directory \<or> (\<exists>res. x = Ready (Ok res) \<and> p = spr_output_path res) \<or>
          \<not> removal_works d \<and> (\<exists>c. p = join dir (part_name (sm_file_name metadata) pid c))"
        if new: "dk_nodes d p = None" "dk_nodes d' p = Some m'"
      proof (cases "\<exists>res. x = Ready (Ok res) \<and> p = ?out")
        case True
        then obtain res where res: "x = Ready (Ok res)" "p = ?out" by blast
        then have "p = spr_output_path res" using got [OF res(1)] by (simp add: received_at_def)
        with res(1) show ?thesis by blast
      next
        case False
        show ?thesis
        proof (cases "p = t")
          case True
          with gone new staged(3) [OF \<open>w = Ok t\<close>] show ?thesis by auto
        next
          case other_path: False
          have "dk_nodes d1 p = Some m'" using False other_path new failed other [of p] by (cases "p = ?out") auto
          with new made(3) [of p] made(5) [of m'] show ?thesis by (cases "p = dir_path") auto
        qed
      qed
      ultimately show ?thesis by blast
    qed
  qed
qed

text \<open>The first message of a stream is determined.\<close>

lemma delivers_one: "delivers pc [a] bs rest \<Longrightarrow> delivers pc [b] bs rest' \<Longrightarrow> a = b"
proof -
  assume ab: "delivers pc [a] bs rest" "delivers pc [b] bs rest'"
  obtain p where p: "bs = be_encode 4 (length p) @ p @ rest" "length p \<le> MAX_FRAME_LEN" "from_bytes pc p = Ok a"
    using ab(1) by auto
  obtain q where q: "bs = be_encode 4 (length q) @ q @ rest'" "length q \<le> MAX_FRAME_LEN" "from_bytes pc q = Ok b"
    using ab(2) by auto
  have same: "be_encode 4 (length p) = be_encode 4 (length q)" and "p @ rest = q @ rest'" using p(1) q(1) by simp_all
  moreover have "length p = length q"
    using same p(2) q(2) be_encode_inject [of "length p" 4 "length q"] by (simp add: MAX_FRAME_LEN_def)
  ultimately have "p = q" by simp
  with p(3) q(3) show "a = b" by simp
qed

text \<open>What receiving a file does to the disk.\<close>

lemma receive_file_effect:
  assumes "receive_file pc blake3 hex fuel pid dir dir_path (r, d) = Some (x, r', d')"
  shows "(\<forall>p n. dk_nodes d p = Some n \<longrightarrow> dk_nodes d' p = Some n) \<and>
    (\<forall>res. x = Ready (Ok res) \<longrightarrow> (\<exists>metadata content. delivers pc [metadata] (rd_bytes r) content \<and> rd_end r = Eof \<and>
       CHR ''/'' \<notin> set (sm_file_name metadata) \<and> sm_file_name metadata \<notin> {[], ''.'', ''..''} \<and>
       received_at blake3 metadata (join dir (sm_file_name metadata)) content d d' res)) \<and>
    (\<forall>p n. dk_nodes d p = None \<and> dk_nodes d' p = Some n \<longrightarrow> may_add pc pid dir dir_path r d x p n)"
proof -
  obtain y r1 where y: "receive_metadata pc r = (y, r1)" by fastforce
  show ?thesis
  proof (cases "\<exists>metadata. y = Ready (Ok metadata)")
    case False
    with assms y have "d' = d" "\<nexists>res. x = Ready (Ok res)" by (auto simp: receive_file_def split: poll.splits sum.splits)
    then show ?thesis by auto
  next
    case True
    then obtain metadata where "y = Ready (Ok metadata)" by blast
    with y have "delivers pc [metadata] (rd_bytes r) (rd_bytes r1)" "rd_end r1 = rd_end r"
        "validate_file_name (sm_file_name metadata) = Ok ()"
      by (auto simp: receive_metadata_def io_bind_Ok spike_read_value_Ok simp del: delivers.simps)
        (metis reader.select_convs(2) reader.update_convs(1) reader.surjective)
    moreover from \<open>y = Ready (Ok metadata)\<close> assms y
    have "receive_body blake3 hex fuel pid dir dir_path metadata r1 d = Some (x, r', d')" by (simp add: receive_file_def)
    note receive_body_effect [OF this]
    ultimately show ?thesis by (simp only: validate_file_name_Ok may_add_def) blast
  qed
qed

text \<open>A stream that ends is read to its end, by each of the three loops.\<close>

lemma read_some_ready:
  assumes "rd_end r = Eof"
  obtains bs r' where "read_some n r = (Ready (Ok bs), r')" and "rd_end r' = Eof" and "rd_bytes r = bs @ rd_bytes r'"
proof -
  obtain bs r' where "read_some n r = (Ready (Ok bs), r')" using assms by (cases "rd_bytes r = []") (auto simp: read_some_def Let_def)
  with that read_some_Ok(1,2) [OF this] assms show ?thesis by metis
qed

lemma hash_loop_reads:
  "rd_end f = Eof \<Longrightarrow> fst (hash_loop blake3 hashed f) = Ready (Ok (blake3 (hashed @ rd_bytes f)))"
proof (induction blake3 hashed f rule: hash_loop.induct)
  case (1 blake3 hashed f)
  obtain bs f' where bs: "read_some SPIKE_STREAM_BUFFER_SIZE f = (Ready (Ok bs), f')" "rd_end f' = Eof" "rd_bytes f = bs @ rd_bytes f'"
    by (rule read_some_ready [OF "1.prems"])
  show ?case
  proof (cases "bs = []")
    case True
    with bs read_some_Ok(4) [OF bs(1)] show ?thesis by (simp add: hash_loop.simps [of _ _ f] SPIKE_STREAM_BUFFER_SIZE_def)
  next
    case False
    with "1.IH" [OF bs(1) [symmetric] refl refl False bs(2)] bs show ?thesis by (simp add: hash_loop.simps [of _ _ f])
  qed
qed

lemma saturating_add_length:
  "length hashed + length bs < 2 ^ 64 \<Longrightarrow>
    saturating_add (of_nat (length hashed) :: u64) (of_nat (length bs)) = of_nat (length (hashed @ bs))"
  by (simp add: saturating_add_def unat_of_nat take_bit_nat_eq_self)

lemma spike_send_loop_sends:
  "rd_end f = Eof \<Longrightarrow> length hashed + length (rd_bytes f) < 2 ^ 64 \<Longrightarrow> length (rd_bytes f) \<le> wr_room w \<Longrightarrow> sent = of_nat (length hashed) \<Longrightarrow>
    spike_send_loop hashed sent f w = (Ready (Ok (hashed @ rd_bytes f, of_nat (length (hashed @ rd_bytes f)))),
      w\<lparr>wr_bytes := wr_bytes w @ rd_bytes f, wr_room := wr_room w - length (rd_bytes f)\<rparr>)"
proof (induction hashed sent f w rule: spike_send_loop.induct)
  case (1 hashed sent f w)
  obtain bs f' where bs: "read_some SPIKE_STREAM_BUFFER_SIZE f = (Ready (Ok bs), f')" "rd_end f' = Eof" "rd_bytes f = bs @ rd_bytes f'"
    by (rule read_some_ready [OF "1.prems"(1)])
  show ?case
  proof (cases "bs = []")
    case True
    with "1.prems" bs read_some_Ok(4) [OF bs(1)] show ?thesis
      by (simp add: spike_send_loop.simps [of _ _ f] SPIKE_STREAM_BUFFER_SIZE_def)
  next
    case False
    let ?w = "w\<lparr>wr_bytes := wr_bytes w @ bs, wr_room := wr_room w - length bs\<rparr>"
    have w: "io_map_err (\<lambda>_. Spt_Io io_other) (write_all bs) w = (Ready (Ok ()), ?w)"
      using "1.prems"(3) bs(3) by (simp add: write_all_Ok)
    have "saturating_add sent (of_nat (length bs)) = of_nat (length (hashed @ bs))"
      using "1.prems"(2,4) bs(3) saturating_add_length [of hashed bs] by simp
    with "1.IH" [OF bs(1) [symmetric] refl refl False w [symmetric] refl refl bs(2)] "1.prems" bs w False show ?thesis
      by (simp add: spike_send_loop.simps [of _ _ f] io_map_err_def)
  qed
qed

lemma receive_part_reads:
  "rd_end r = Eof \<Longrightarrow> length hashed + length (rd_bytes r) \<le> unat (sm_byte_len metadata) \<Longrightarrow>
    received = of_nat (length hashed) \<Longrightarrow> dk_faults d ''write staged file'' = None \<Longrightarrow> dk_nodes d t = Some n \<Longrightarrow>
    \<exists>r' d'. receive_part metadata t hashed received (r, d) =
      (Ready (Ok (hashed @ rd_bytes r, of_nat (length (hashed @ rd_bytes r)))), r', d')"
proof (induction metadata t hashed received "(r, d)" arbitrary: r d n rule: receive_part.induct)
  case (1 metadata t hashed received r d)
  obtain bs r1 where bs: "read_some SPIKE_STREAM_BUFFER_SIZE r = (Ready (Ok bs), r1)" "rd_end r1 = Eof" "rd_bytes r = bs @ rd_bytes r1"
    by (rule read_some_ready [OF "1.prems"(1)])
  show ?case
  proof (cases "bs = []")
    case True
    with "1.prems" bs read_some_Ok(4) [OF bs(1)] show ?thesis
      by (simp add: receive_part.simps [of _ _ _ _ r] SPIKE_STREAM_BUFFER_SIZE_def)
  next
    case False
    have small: "length (hashed @ bs) \<le> unat (sm_byte_len metadata)" using "1.prems"(2) bs(3) by simp
    then have "length (hashed @ bs) < 2 ^ 64" using unsigned_less [where 'a = nat, of "sm_byte_len metadata"] by simp
    then have n: "unat (of_nat (length hashed) :: u64) = length hashed" "unat (of_nat (length bs) :: u64) = length bs"
        and sum: "saturating_add received (of_nat (length bs)) = of_nat (length (hashed @ bs))"
      using saturating_add_length [of hashed bs] "1.prems"(3) by (simp_all add: unat_of_nat take_bit_nat_eq_self)
    have fits: "\<not> saturating_sub (sm_byte_len metadata) received < of_nat (length bs)"
      using small n "1.prems"(3) by (simp add: word_less_nat_alt unat_saturating_sub)
    obtain d1 where app: "fs_append ''write staged file'' bs t d = (Ok (), d1)" "dk_faults d1 = dk_faults d" "dk_nodes d1 t \<noteq> None"
      using "1.prems"(4,5) by (auto simp: fs_append_def Let_def)
    then obtain n1 where n1: "dk_nodes d1 t = Some n1" by blast
    from "1.hyps" [OF bs(1) [symmetric] refl refl False refl fits app(1) [symmetric] refl bs(2) _ sum _ n1] app(2) "1.prems" bs(3)
    obtain r' d' where "receive_part metadata t (hashed @ bs) (saturating_add received (of_nat (length bs))) (r1, d1) =
        (Ready (Ok ((hashed @ bs) @ rd_bytes r1, of_nat (length ((hashed @ bs) @ rd_bytes r1)))), r', d')"
      by auto
    with bs False fits app(1) show ?thesis by (simp add: receive_part.simps [of _ _ _ _ r] Let_def)
  qed
qed

lemma settle_staged_succeeds:
  assumes "dk_nodes d t = Some n" "fn_kind n = Regular" "fn_bytes n = []" "dk_faults d = (\<lambda>_. None)" "dk_nodes d out = None" "t \<noteq> out"
    and "rd_end r = Eof" "length (rd_bytes r) = unat (sm_byte_len metadata)" "blake3 (rd_bytes r) = sm_blake3 metadata"
  shows "\<exists>res r' d'. settle_staged blake3 hex metadata t out (r, d) = (Ready (Ok res), r', d')"
proof -
  obtain r1 d1 where part: "receive_part metadata t [] 0 (r, d) =
      (Ready (Ok (rd_bytes r, of_nat (length (rd_bytes r)))), r1, d1)"
    using receive_part_reads [of r "[]" metadata 0 d t n] assms by auto
  from receive_part_effect [OF part assms(1,3)] obtain n1 where n1: "dk_nodes d1 = (dk_nodes d)(t := Some n1)" "dk_faults d1 = dk_faults d"
    by auto
  have "(of_nat (length (rd_bytes r)) :: u64) = sm_byte_len metadata" using assms(8) by simp
  with part n1 assms(4) have temp: "receive_to_temporary blake3 metadata t (r, d) = (Ready (Ok (sm_byte_len metadata, sm_blake3 metadata)), r1, d1)"
    using assms(9) by (simp add: receive_to_temporary_def io_bind_def fs_fault_def)
  have "\<exists>d2. fs_hard_link ''publish received file'' t out d1 = (Ok (), d2)"
    using n1 assms(4-6) by (auto simp: fs_defs)
  with temp show ?thesis by (auto simp: settle_staged_def publish_staged_def verify_payload_def)
qed

text \<open>On a disk without faults a complete stream is received under a free name.\<close>

lemma receive_file_succeeds:
  assumes stream: "delivers pc [metadata] (rd_bytes r) content" "rd_end r = Eof"
    and content: "length content = unat (sm_byte_len metadata)" "blake3 content = sm_blake3 metadata"
    and name: "validate_file_name (sm_file_name metadata) = Ok ()"
    and disk: "dk_faults d = (\<lambda>_. None)" "dk_nodes d (join dir (sm_file_name metadata)) = None"
      "dir_path \<noteq> join dir (sm_file_name metadata)" "\<And>n. dk_nodes d dir_path = Some n \<Longrightarrow> fn_kind n \<in> {Directory, Symlink}"
    and fuel: "finite (dom (dk_nodes d))" "Suc (card (dom (dk_nodes d))) < fuel" "fuel \<le> 2 ^ 64"
  shows "\<exists>res r' d'. receive_file pc blake3 hex fuel pid dir dir_path (r, d) = Some (Ready (Ok res), r', d') \<and>
    received_at blake3 metadata (join dir (sm_file_name metadata)) content d d' res"
proof -
  let ?out = "join dir (sm_file_name metadata)"
  define r1 where "r1 = r\<lparr>rd_bytes := content\<rparr>"
  have r1: "rd_bytes r1 = content" "rd_end r1 = Eof" using stream(2) by (simp_all add: r1_def)
  have md: "receive_metadata pc r = (Ready (Ok metadata), r1)"
    using stream(1) name by (auto simp: receive_metadata_def io_bind_Ok spike_read_value_Ok r1_def simp del: delivers.simps)
  obtain d1 where made: "fs_create_dir_all dir_path ''create receive directory'' d = (Ok (), d1)"
    using disk(1) disk(4) by (cases "dk_nodes d dir_path") (auto simp: fs_create_dir_all_def fs_defs)
  note dir = create_dir_effect [OF made]
  have "dom (dk_nodes d1) \<subseteq> insert dir_path (dom (dk_nodes d))" using dir(3) by fastforce
  from card_mono [OF _ this] finite_subset [OF this] fuel(1,2)
  have "card (dom (dk_nodes d1)) < fuel" "finite (dom (dk_nodes d1))" by (auto simp: card_insert_if split: if_splits)
  then have "create_staged_file fuel pid dir (sm_file_name metadata) d1 \<noteq> None"
    using claim_fresh_terminates [OF inj_part_path _ _ fuel(3), of d1] dir(1) disk(1) by (simp add: create_staged_file_def)
  then obtain x d2 where st: "create_staged_file fuel pid dir (sm_file_name metadata) d1 = Some (x, d2)" by auto
  obtain t where t: "x = Ok t"
    using st dir(1) disk(1) by (auto simp: create_staged_file_def dest: claim_fresh_quiet)
  note staged = create_staged_file_effect [OF st]
  from staged(4) [OF t] obtain n where n: "t \<noteq> ?out" "fn_kind n = Regular" "fn_bytes n = []" "dk_nodes d2 = (dk_nodes d1)(t := Some n)"
    by blast
  have "dk_nodes d2 ?out = None" using n(1,4) dir(3) [of ?out] disk(2,3) by auto
  with settle_staged_succeeds [of d2 t n ?out r1 metadata blake3 hex] n staged(1) dir(1) disk(1) r1 content
  obtain res r' d' where "settle_staged blake3 hex metadata t ?out (r1, d2) = (Ready (Ok res), r', d')" by auto
  with made st t have body: "receive_body blake3 hex fuel pid dir dir_path metadata r1 d = Some (Ready (Ok res), r', d')"
    by (simp add: receive_body_def)
  with md receive_body_effect [OF body] r1(1) show ?thesis by (auto simp: receive_file_def)
qed

lemma spike_send_file_sends:
  assumes "rd_end g = Eof" "length (rd_bytes g) = unat (sm_byte_len metadata)" "blake3 (rd_bytes g) = sm_blake3 metadata"
    and "spike_encode_frame pc metadata = Ok frame" "length frame + length (rd_bytes g) \<le> wr_room w"
  shows "spike_send_file pc blake3 hex (Ok g) (Ok ()) metadata w = (Ready (Ok (sm_byte_len metadata)),
    w\<lparr>wr_bytes := wr_bytes w @ frame @ rd_bytes g, wr_room := wr_room w - length frame - length (rd_bytes g)\<rparr>)"
proof -
  let ?w = "w\<lparr>wr_bytes := wr_bytes w @ frame, wr_room := wr_room w - length frame\<rparr>"
  have "spike_write_value pc metadata w = (Ready (Ok ()), ?w)" using assms(4,5) by (simp add: spike_write_value_Ok)
  moreover have "length (rd_bytes g) < 2 ^ 64"
    using assms(2) unsigned_less [where 'a = nat, of "sm_byte_len metadata"] by simp
  then have "spike_send_loop [] 0 g ?w = (Ready (Ok (rd_bytes g, sm_byte_len metadata)),
      ?w\<lparr>wr_bytes := wr_bytes w @ frame @ rd_bytes g, wr_room := wr_room w - length frame - length (rd_bytes g)\<rparr>)"
    using spike_send_loop_sends [of g "[]" ?w 0] assms by simp
  ultimately show ?thesis using assms(3) by (simp add: spike_send_file_def io_bind_def io_map_err_def verify_payload_def)
qed

lemma example_part_frame: "spike_encode_frame (table_codec [example_part]) example_part = Ok [0, 0, 0, 1, 0]"
  by (simp add: spike_encode_frame_def table_codec_def MAX_FRAME_LEN_def be_simps)

lemma example_receives:
  "\<exists>res r' d'. receive_file (table_codec [example_part]) zero_digest hex 9 7 ''/in'' (join ''/'' ''in'') (example_incoming, empty_disk) =
    Some (Ready (Ok res), r', d') \<and> received_at zero_digest example_part (join ''/in'' ''a'') [7, 8] empty_disk d' res"
proof -
  have "delivers (table_codec [example_part]) [example_part] (rd_bytes example_incoming) [7, 8]"
    using delivers_frames [OF table_codec_ok, of "[example_part]" "[example_part]" "[0, 0, 0, 1, 0]" "[7, 8]"]
    by (simp add: example_part_frame example_incoming_def del: delivers.simps)
  from receive_file_succeeds [OF this, of zero_digest empty_disk "''/in''" "join ''/'' ''in''" 9 hex 7] show ?thesis
    by (auto simp: example_incoming_def example_part_def zero_digest_def validate_file_name_Ok empty_disk_def join_def dom_def)
qed

section \<open>Properties\<close>

text \<open>
  C37: receiving a file in the prototype is safe, whatever the sender does, wherever the stream breaks or waits and
  whichever call of the file system fails. Nothing that was on the disk is replaced or changed. A success means that a
  name without directory parts was free in the receive directory and now holds exactly the rest of the stream, which has
  the announced length and digest. Nothing else is added but the receive directory, where it was missing, and the
  staging file under its own name, which stays only when a removal fails. In every outcome other than success, also when the receiver
  is dropped while it waits, the announced name is as it was before.
\<close>

theorem spike_receive_safe:
  assumes "receive_file pc blake3 hex fuel pid dir dir_path (r, d) = Some (x, r', d')"
  shows "(\<forall>p n. dk_nodes d p = Some n \<longrightarrow> dk_nodes d' p = Some n) \<and>
    (\<forall>res. x = Ready (Ok res) \<longrightarrow> (\<exists>metadata content. delivers pc [metadata] (rd_bytes r) content \<and> rd_end r = Eof \<and>
       CHR ''/'' \<notin> set (sm_file_name metadata) \<and> sm_file_name metadata \<notin> {[], ''.'', ''..''} \<and>
       received_at blake3 metadata (join dir (sm_file_name metadata)) content d d' res)) \<and>
    (\<forall>p n. dk_nodes d p = None \<and> dk_nodes d' p = Some n \<longrightarrow> may_add pc pid dir dir_path r d x p n) \<and>
    ((\<nexists>res. x = Ready (Ok res)) \<longrightarrow> (\<forall>metadata content. delivers pc [metadata] (rd_bytes r) content \<longrightarrow>
       join dir (sm_file_name metadata) \<noteq> dir_path \<longrightarrow>
       dk_nodes d' (join dir (sm_file_name metadata)) = dk_nodes d (join dir (sm_file_name metadata))))"
proof -
  note effect = receive_file_effect [OF assms]
  have "dk_nodes d' (join dir (sm_file_name metadata)) = dk_nodes d (join dir (sm_file_name metadata))"
    if no: "\<nexists>res. x = Ready (Ok res)" and md: "delivers pc [metadata] (rd_bytes r) content"
      and out: "join dir (sm_file_name metadata) \<noteq> dir_path" for metadata content
  proof (cases "dk_nodes d (join dir (sm_file_name metadata))")
    case (Some n)
    with effect show ?thesis by simp
  next
    case None
    have "\<not> may_add pc pid dir dir_path r d x (join dir (sm_file_name metadata)) n" for n
      using no out part_name_other [of "sm_file_name metadata" pid, THEN not_sym]
      by (auto simp: may_add_def simp del: delivers.simps dest!: delivers_one [OF md])
    with conjunct2 [OF conjunct2 [OF effect]] None show ?thesis by (metis not_None_eq)
  qed
  with effect show ?thesis by blast
qed

theorem spike_receive_safe_witness:
  "\<exists>res r' d'. receive_file (table_codec [example_part]) zero_digest (\<lambda>_. []) 9 7 ''/in'' (join ''/'' ''in'') (example_incoming, empty_disk) =
     Some (Ready (Ok res), r', d') \<and> dk_nodes empty_disk (spr_output_path res) = None \<and>
     (\<exists>n. dk_nodes d' (spr_output_path res) = Some n \<and> fn_kind n = Regular) \<and>
     (\<forall>p. dk_nodes d' p \<noteq> None \<longrightarrow> p = join ''/'' ''in'' \<or> p = spr_output_path res)"
proof -
  obtain res r' d' where run: "receive_file (table_codec [example_part]) zero_digest (\<lambda>_. []) 9 7 ''/in'' (join ''/'' ''in'')
      (example_incoming, empty_disk) = Some (Ready (Ok res), r', d')"
    using example_receives by blast
  have "removal_works empty_disk" by (simp add: removal_works_def empty_disk_def)
  with spike_receive_safe [OF run] run show ?thesis by (auto simp: received_at_def empty_disk_def may_add_def)
qed

text \<open>
  The prototype delivers a file. For a file that stays as it is while it is hashed and sent, under a name the receiver
  accepts, the metadata are its name, length and digest, sending succeeds, and whatever the pieces in which the
  receiver gets what was written, it ends on a disk without faults where the name is free, with the file at that name.
\<close>

theorem spike_transfer_delivers:
  assumes "postcard_ok pc" and "rd_bytes f = source" "rd_end f = Eof" "rd_bytes g = source" "rd_end g = Eof" "length source < 2 ^ 64"
    and "fp_name path = Some name" "validate_file_name name = Ok ()"
    and "metadata = \<lparr>sm_file_name = name, sm_byte_len = of_nat (length source), sm_blake3 = blake3 source\<rparr>"
    and "spike_encode_frame pc metadata = Ok frame" "length frame + length source \<le> wr_room w"
    and "dk_faults d = (\<lambda>_. None)" "dk_nodes d (join dir name) = None" "dir_path \<noteq> join dir name"
      "\<forall>n. dk_nodes d dir_path = Some n \<longrightarrow> fn_kind n \<in> {Directory, Symlink}"
    and "finite (dom (dk_nodes d))" "Suc (card (dom (dk_nodes d))) < fuel" "fuel \<le> 2 ^ 64"
  shows "metadata_for_file blake3 path shown (Ok (of_nat (length source))) (Ok f) = Ready (Ok metadata) \<and>
    (\<exists>w'. spike_send_file pc blake3 hex (Ok g) (Ok ()) metadata w = (Ready (Ok (of_nat (length source))), w') \<and>
      (\<forall>r. wr_bytes w' = wr_bytes w @ rd_bytes r \<and> rd_end r = Eof \<longrightarrow>
        (\<exists>res r' d'. receive_file pc blake3 hex fuel pid dir dir_path (r, d) = Some (Ready (Ok res), r', d') \<and>
          received_at blake3 metadata (join dir name) source d d' res)))"
proof (intro conjI)
  show "metadata_for_file blake3 path shown (Ok (of_nat (length source))) (Ok f) = Ready (Ok metadata)"
    using hash_loop_reads [OF assms(3), of blake3 "[]"] assms(2,7-9) by (simp add: metadata_for_file_def hash_file_def)
  have len: "length source = unat (sm_byte_len metadata)" "blake3 source = sm_blake3 metadata"
    and bl: "sm_byte_len metadata = of_nat (length source)" and fn: "sm_file_name metadata = name"
    using assms(6,9) by (simp_all add: unat_of_nat take_bit_nat_eq_self)
  let ?w = "w\<lparr>wr_bytes := wr_bytes w @ frame @ source, wr_room := wr_room w - length frame - length source\<rparr>"
  show "\<exists>w'. spike_send_file pc blake3 hex (Ok g) (Ok ()) metadata w = (Ready (Ok (of_nat (length source))), w') \<and>
      (\<forall>r. wr_bytes w' = wr_bytes w @ rd_bytes r \<and> rd_end r = Eof \<longrightarrow>
        (\<exists>res r' d'. receive_file pc blake3 hex fuel pid dir dir_path (r, d) = Some (Ready (Ok res), r', d') \<and>
          received_at blake3 metadata (join dir name) source d d' res))"
  proof (rule exI [of _ ?w], intro conjI allI impI)
    show "spike_send_file pc blake3 hex (Ok g) (Ok ()) metadata w = (Ready (Ok (of_nat (length source))), ?w)"
      using spike_send_file_sends [OF assms(5), of metadata blake3 pc frame w hex, unfolded assms(4), OF len assms(10,11)]
      by (simp only: bl)
    fix r :: chunk_reader assume r: "wr_bytes ?w = wr_bytes w @ rd_bytes r \<and> rd_end r = Eof"
    have "delivers pc [metadata] (rd_bytes r) source"
      using delivers_frames [OF assms(1), of "[metadata]" frame source] r assms(10) by (simp del: delivers.simps)
    from receive_file_succeeds [where ?blake3.0 = blake3 and hex = hex and pid = pid, OF this _ len, unfolded fn,
        OF _ assms(8,12-14) _ assms(16-18)] r assms(15)
    show "\<exists>res r' d'. receive_file pc blake3 hex fuel pid dir dir_path (r, d) = Some (Ready (Ok res), r', d') \<and>
            received_at blake3 metadata (join dir name) source d d' res"
      by blast
  qed
qed

theorem spike_transfer_delivers_witness:
  "\<exists>res r' d'. receive_file (table_codec [example_part]) zero_digest (\<lambda>_. []) 9 7 ''/in'' (join ''/'' ''in'') (example_incoming, empty_disk) =
     Some (Ready (Ok res), r', d') \<and> received_at zero_digest example_part (join ''/in'' ''a'') [7, 8] empty_disk d' res"
proof -
  have md: "example_part = \<lparr>sm_file_name = ''a'', sm_byte_len = of_nat (length [7, 8 :: byte]), sm_blake3 = zero_digest [7, 8]\<rparr>"
    by (simp add: example_part_def zero_digest_def)
  let ?w = "\<lparr>wr_bytes = [], wr_room = 100, wr_end = Stalls\<rparr>"
  have source: "rd_bytes example_source = [7, 8]" "rd_end example_source = Eof" by (simp_all add: example_source_def)
  have name: "fp_name (join ''/'' ''a'') = Some ''a''" "validate_file_name ''a'' = Ok ()"
    by (simp_all add: join_def validate_file_name_Ok)
  have small: "length [7, 8 :: byte] < 2 ^ 64" "length [0, 0, 0, 1, 0 :: byte] + length [7, 8 :: byte] \<le> wr_room ?w" by simp_all
  have disk: "dk_faults empty_disk = (\<lambda>_. None)" "dk_nodes empty_disk (join ''/in'' ''a'') = None" "join ''/'' ''in'' \<noteq> join ''/in'' ''a''"
      "\<forall>n. dk_nodes empty_disk (join ''/'' ''in'') = Some n \<longrightarrow> fn_kind n \<in> {Directory, Symlink}"
      "finite (dom (dk_nodes empty_disk))" "Suc (card (dom (dk_nodes empty_disk))) < 9" "(9 :: nat) \<le> 2 ^ 64"
    by (simp_all add: empty_disk_def)
  obtain w' where sent: "spike_send_file (table_codec [example_part]) zero_digest (\<lambda>_. []) (Ok example_source) (Ok ()) example_part ?w =
      (Ready (Ok (of_nat (length [7, 8 :: byte]))), w')" and
    rest: "\<forall>r. wr_bytes w' = wr_bytes ?w @ rd_bytes r \<and> rd_end r = Eof \<longrightarrow>
      (\<exists>res r' d'. receive_file (table_codec [example_part]) zero_digest (\<lambda>_. []) 9 7 ''/in'' (join ''/'' ''in'') (r, empty_disk) =
         Some (Ready (Ok res), r', d') \<and> received_at zero_digest example_part (join ''/in'' ''a'') [7, 8] empty_disk d' res)"
    using spike_transfer_delivers [where ?blake3.0 = zero_digest, OF table_codec_ok source source small(1) name md example_part_frame small(2) disk] by blast
  have len: "length (rd_bytes example_source) = unat (sm_byte_len example_part)"
      "zero_digest (rd_bytes example_source) = sm_blake3 example_part" "length [0, 0, 0, 1, 0 :: byte] + length (rd_bytes example_source) \<le> wr_room ?w"
    by (simp_all add: source example_part_def zero_digest_def)
  have "wr_bytes w' = [0, 0, 0, 1, 0, 7, 8]"
    using sent spike_send_file_sends [where ?blake3.0 = zero_digest, OF source(2) len(1,2) example_part_frame len(3)] by (auto simp: source)
  with rest show ?thesis by (simp add: example_incoming_def)
qed

end
