(* ===== verification/Spike_Server.thy ===== *)
theory Spike_Server
  imports Spike_Transfer
begin

text \<open>
  The two ends of a connection of the networking prototype (\<open>crates/rift-spike/src/main.rs\<close>): \<open>handle_connection\<close>, whose loop
  answers pings, receives up to four files at a time and acknowledges those that were verified, and the part of \<open>send_file\<close>
  that uses a connection. A branch of the loop is a step, and so is a transfer task that runs to its end;
  what the transport does is the input of the steps.
\<close>

section \<open>Data\<close>

definition MAX_CONCURRENT_TRANSFERS :: nat where
  "MAX_CONCURRENT_TRANSFERS = 4"

text \<open>The codecs, the digest, the hex text, and where and under which names files are received.\<close>

record spike_env =
  se_codec :: "spike_message postcard"
  se_metadata_codec :: "spike_metadata postcard"
  se_blake3 :: "bytes \<Rightarrow> bytes"
  se_hex :: "bytes \<Rightarrow> string"
  se_fuel :: nat
  se_pid :: nat
  se_receive_dir :: string
  se_dir_path :: fpath

record server_context =
  sx_node_id :: bytes
  sx_device_name :: string
  sx_platform :: string

definition local_handshake_of :: "server_context \<Rightarrow> local_handshake" where
  "local_handshake_of context = \<lparr>lh_node_id = sx_node_id context, lh_device_name = sx_device_name context,
     lh_platform = sx_platform context, lh_capabilities = [BinaryBlobStream]\<rparr>"

datatype task_error = Ste_Transfer spike_transfer_error | Ste_TimedOut

datatype server_error = Sve_PongTimedOut | Sve_Pong spike_frame_error | Sve_AckTimedOut | Sve_Ack spike_frame_error | Sve_AcceptStream io_error_kind

text \<open>
  What the loop holds: the control stream it writes, the transfer tasks that run and those that ended and were not
  joined yet, the channel of their results, and the disk.
\<close>

record spike_conn =
  cn_send :: writer
  cn_running :: "chunk_reader list"
  cn_ended :: nat
  cn_results :: "(task_error, spike_result) result list"
  cn_disk :: disk

datatype turn = Go | Stop "(server_error, unit) result"

section \<open>The server\<close>

text \<open>The task of a transfer: a deadline drops the receiver.\<close>

definition receive_task :: "spike_env \<Rightarrow> chunk_reader \<Rightarrow> disk \<Rightarrow> ((task_error, spike_result) result \<times> disk) option" where
  "receive_task env r d =
     map_option (\<lambda>(x, _, d'). (case x of Pending \<Rightarrow> Err Ste_TimedOut | Ready y \<Rightarrow> map_err Ste_Transfer y, d'))
       (receive_file (se_metadata_codec env) (se_blake3 env) (se_hex env) (se_fuel env) (se_pid env) (se_receive_dir env)
         (se_dir_path env) (r, d))"

text \<open>Writing a message within its deadline.\<close>

definition send_within ::
  "spike_env \<Rightarrow> server_error \<Rightarrow> (spike_frame_error \<Rightarrow> server_error) \<Rightarrow> spike_message \<Rightarrow> spike_conn \<Rightarrow> turn \<times> spike_conn" where
  "send_within env late failed m c =
     (case io_timeout late (io_map_err failed (spike_write_value (se_codec env) m)) (cn_send c) of
        (Ok _, w) \<Rightarrow> (Go, c\<lparr>cn_send := w\<rparr>)
      | (Err e, w) \<Rightarrow> (Stop (Err e), c\<lparr>cn_send := w\<rparr>))"

definition on_control :: "spike_env \<Rightarrow> (spike_frame_error, spike_message) result option \<Rightarrow> spike_conn \<Rightarrow> turn \<times> spike_conn" where
  "on_control env message c =
     (case message of
        Some (Ok (Spk_Ping nonce)) \<Rightarrow> send_within env Sve_PongTimedOut Sve_Pong (Spk_Pong nonce) c
      | Some (Ok _) \<Rightarrow> (Go, c)
      | Some (Err _) \<Rightarrow> (Stop (Ok ()), c)
      | None \<Rightarrow> (Stop (Ok ()), c))"

text \<open>The loop keeps a sender of the channel, so its end is never received.\<close>

definition on_transfer_result :: "spike_env \<Rightarrow> spike_conn \<Rightarrow> turn \<times> spike_conn" where
  "on_transfer_result env c =
     (case cn_results c of
        [] \<Rightarrow> (Go, c)
      | Ok result # rest \<Rightarrow>
          send_within env Sve_AckTimedOut Sve_Ack (Spk_TransferAck (spr_byte_len result) (spr_blake3 result)) (c\<lparr>cn_results := rest\<rparr>)
      | Err _ # rest \<Rightarrow> (Go, c\<lparr>cn_results := rest\<rparr>))"

definition on_stream :: "(io_error_kind, chunk_reader) result \<Rightarrow> spike_conn \<Rightarrow> turn \<times> spike_conn" where
  "on_stream accepted c =
     (case accepted of
        Err e \<Rightarrow> (Stop (Err (Sve_AcceptStream e)), c)
      | Ok recv \<Rightarrow>
          if MAX_CONCURRENT_TRANSFERS \<le> length (cn_running c) + cn_ended c then (Go, c)
          else (Go, c\<lparr>cn_running := cn_running c @ [recv]\<rparr>))"

text \<open>A task that runs to its end; it waits while the channel of results is full.\<close>

definition task_ends :: "spike_env \<Rightarrow> nat \<Rightarrow> spike_conn \<Rightarrow> spike_conn option" where
  "task_ends env i c =
     (if i < length (cn_running c) \<and> length (cn_results c) < MAX_CONCURRENT_TRANSFERS
      then map_option (\<lambda>(x, d). c\<lparr>cn_running := take i (cn_running c) @ drop (Suc i) (cn_running c), cn_ended := Suc (cn_ended c),
             cn_results := cn_results c @ [x], cn_disk := d\<rparr>) (receive_task env (cn_running c ! i) (cn_disk c))
      else None)"

inductive server_step :: "spike_env \<Rightarrow> turn \<times> spike_conn \<Rightarrow> turn \<times> spike_conn \<Rightarrow> bool" for env where
  closed: "server_step env (Go, c) (Stop (Ok ()), c)"
| control: "server_step env (Go, c) (on_control env message c)"
| result: "cn_results c \<noteq> [] \<Longrightarrow> server_step env (Go, c) (on_transfer_result env c)"
| joined: "0 < cn_ended c \<Longrightarrow> server_step env (Go, c) (Go, c\<lparr>cn_ended := cn_ended c - 1\<rparr>)"
| stream: "server_step env (Go, c) (on_stream accepted c)"
| task: "task_ends env i c = Some c' \<Longrightarrow> server_step env (Go, c) (Go, c')"

text \<open>The loop starts after the handshake.\<close>

definition server_start :: "writer \<Rightarrow> disk \<Rightarrow> turn \<times> spike_conn \<Rightarrow> bool" where
  "server_start w d s \<longleftrightarrow> s = (Go, \<lparr>cn_send = w, cn_running = [], cn_ended = 0, cn_results = [], cn_disk = d\<rparr>)"

section \<open>The client\<close>

datatype spike_client_error =
    Cle_HandshakeTimedOut
  | Cle_Handshake spike_handshake_error
  | Cle_NoCapability
  | Cle_OpenStream
  | Cle_TransferTimedOut
  | Cle_Transfer spike_transfer_error
  | Cle_AckTimedOut
  | Cle_ReadAck spike_frame_error
  | Cle_ExpectedAck spike_message
  | Cle_AckMismatch

definition receive_ack :: "spike_env \<Rightarrow> spike_metadata \<Rightarrow> control_channel \<Rightarrow> (spike_client_error, unit) result \<times> control_channel" where
  "receive_ack env metadata =
     st_bind (io_timeout Cle_AckTimedOut (io_map_err Cle_ReadAck (on_recv (spike_read_value (se_codec env))))) (\<lambda>acknowledgement.
     Pair (case acknowledgement of
         Spk_TransferAck byte_len blake3 \<Rightarrow>
           if byte_len \<noteq> sm_byte_len metadata \<or> blake3 \<noteq> sm_blake3 metadata then Err Cle_AckMismatch else Ok ()
       | _ \<Rightarrow> Err (Cle_ExpectedAck acknowledgement)))"

text \<open>From the control stream on: \<open>data\<close> is the stream for the file, if it could be opened in time.\<close>

definition spike_client_send ::
  "spike_env \<Rightarrow> local_handshake \<Rightarrow> bytes \<Rightarrow> spike_metadata \<Rightarrow> writer option \<Rightarrow> (io_error_kind, chunk_reader) result \<Rightarrow>
     (string, unit) result \<Rightarrow> control_channel \<Rightarrow> (spike_client_error, unit) result \<times> control_channel" where
  "spike_client_send env local peer_id metadata data opened finished =
     st_bind (io_timeout Cle_HandshakeTimedOut (io_map_err Cle_Handshake (exchange_handshake (se_codec env) (se_hex env) local peer_id))) (\<lambda>peer.
     if BinaryBlobStream \<notin> set (ph_capabilities peer) then Pair (Err Cle_NoCapability)
     else st_bind (Pair (ok_or data Cle_OpenStream)) (\<lambda>w.
       st_bind (Pair (fst (io_timeout Cle_TransferTimedOut (io_map_err Cle_Transfer
           (spike_send_file (se_metadata_codec env) (se_blake3 env) (se_hex env) opened finished metadata)) w))) (\<lambda>_.
       receive_ack env metadata)))"

section \<open>Notions of the properties\<close>

text \<open>A file with the length and the digest of an acknowledgement.\<close>

definition stored :: "(bytes \<Rightarrow> bytes) \<Rightarrow> disk \<Rightarrow> u64 \<Rightarrow> bytes \<Rightarrow> bool" where
  "stored blake3 d byte_len digest \<longleftrightarrow>
     (\<exists>p n. dk_nodes d p = Some n \<and> fn_kind n = Regular \<and> length (fn_bytes n) = unat byte_len \<and> blake3 (fn_bytes n) = digest)"

text \<open>Messages of which every acknowledgement stands for a file.\<close>

definition justified :: "(bytes \<Rightarrow> bytes) \<Rightarrow> disk \<Rightarrow> spike_message list \<Rightarrow> bool" where
  "justified blake3 d ms \<longleftrightarrow> (\<forall>n h. Spk_TransferAck n h \<in> set ms \<longrightarrow> stored blake3 d n h)"

text \<open>
  The invariant of the loop: the bounds, results that stand for files, and after what was written before, the frames of
  justified messages, the last of them perhaps cut off when the loop stopped.
\<close>

definition server_inv :: "spike_env \<Rightarrow> bytes \<Rightarrow> disk \<Rightarrow> turn \<times> spike_conn \<Rightarrow> bool" where
  "server_inv env before d0 = (\<lambda>(t, c).
     length (cn_running c) + cn_ended c \<le> MAX_CONCURRENT_TRANSFERS \<and> length (cn_results c) \<le> MAX_CONCURRENT_TRANSFERS \<and>
     (\<forall>p n. dk_nodes d0 p = Some n \<longrightarrow> dk_nodes (cn_disk c) p = Some n) \<and>
     (\<forall>res. Ok res \<in> set (cn_results c) \<longrightarrow> stored (se_blake3 env) (cn_disk c) (spr_byte_len res) (spr_blake3 res)) \<and>
     (\<exists>ms written rest. wr_bytes (cn_send c) = before @ written \<and> spike_frames (se_codec env) ms = Some (written @ rest) \<and>
        (t = Go \<longrightarrow> rest = []) \<and> justified (se_blake3 env) (cn_disk c) ms))"

section \<open>Example values\<close>

definition example_context :: server_context where
  "example_context = \<lparr>sx_node_id = [2], sx_device_name = ''d'', sx_platform = ''p''\<rparr>"

definition example_env :: spike_env where
  "example_env = \<lparr>se_codec = table_codec (handshake_messages (example_side 1) @ [Spk_Hello 1 [2], Spk_TransferAck 2 (replicate 32 0)]),
     se_metadata_codec = table_codec [example_part], se_blake3 = zero_digest, se_hex = (\<lambda>_. []), se_fuel = 9, se_pid = 7,
     se_receive_dir = ''/in'', se_dir_path = join ''/'' ''in''\<rparr>"

definition example_writer :: writer where
  "example_writer = \<lparr>wr_bytes = [], wr_room = 100, wr_end = Stalls\<rparr>"

section \<open>Lemmas\<close>

lemma stored_keeps:
  "stored blake3 d n h \<Longrightarrow> (\<And>p m. dk_nodes d p = Some m \<Longrightarrow> dk_nodes d' p = Some m) \<Longrightarrow> stored blake3 d' n h"
  unfolding stored_def by blast

lemma spike_frames_append:
  "spike_frames pc ms = Some fs \<Longrightarrow> spike_frames pc ns = Some gs \<Longrightarrow> spike_frames pc (ms @ ns) = Some (fs @ gs)"
  by (induction ms arbitrary: fs) (auto split: sum.splits)

lemma spike_frames_snoc:
  "spike_frames pc ms = Some fs \<Longrightarrow> spike_encode_frame pc m = Ok f \<Longrightarrow> spike_frames pc (ms @ [m]) = Some (fs @ f)"
  by (simp add: spike_frames_append)

lemma receive_task_effect:
  assumes "receive_task env r d = Some (x, d')"
  shows "dk_nodes d p = Some n \<Longrightarrow> dk_nodes d' p = Some n"
    and "x = Ok res \<Longrightarrow> stored (se_blake3 env) d' (spr_byte_len res) (spr_blake3 res)"
proof -
  from assms obtain y r' where run: "receive_file (se_metadata_codec env) (se_blake3 env) (se_hex env) (se_fuel env) (se_pid env)
      (se_receive_dir env) (se_dir_path env) (r, d) = Some (y, r', d')"
    and x: "x = (case y of Pending \<Rightarrow> Err Ste_TimedOut | Ready y \<Rightarrow> map_err Ste_Transfer y)"
    by (auto simp: receive_task_def)
  note effect = receive_file_effect [OF run, THEN conjunct1] receive_file_effect [OF run, THEN conjunct2, THEN conjunct1]
  show "dk_nodes d p = Some n \<Longrightarrow> dk_nodes d' p = Some n" using effect(1) by simp
  show "stored (se_blake3 env) d' (spr_byte_len res) (spr_blake3 res)" if "x = Ok res"
  proof -
    have "y = Ready (Ok res)" using that x by (cases y) (auto simp: map_err_Ok_iff)
    then obtain metadata content where "received_at (se_blake3 env) metadata (join (se_receive_dir env) (sm_file_name metadata)) content d d' res"
      using effect(2) by blast
    then show ?thesis unfolding received_at_def stored_def by auto
  qed
qed

text \<open>Writing keeps all but the stream, and adds a frame or, when the loop stops, part of one.\<close>

lemma send_within_effect:
  assumes "send_within env late failed m c = (t, c')"
  obtains bs where "c' = c\<lparr>cn_send := cn_send c'\<rparr>" and "wr_bytes (cn_send c') = wr_bytes (cn_send c) @ bs"
    and "t = Go \<Longrightarrow> spike_encode_frame (se_codec env) m = Ok bs"
    and "bs = [] \<or> (\<exists>rest. spike_encode_frame (se_codec env) m = Ok (bs @ rest))"
proof -
  obtain x w where run: "spike_write_value (se_codec env) m (cn_send c) = (x, w)" by fastforce
  then have c': "c' = c\<lparr>cn_send := w\<rparr>" "t = Go \<longleftrightarrow> x = Ready (Ok ())"
    using assms by (auto simp: send_within_def io_timeout_def io_map_err_def split: poll.splits sum.splits prod.splits)
  have part: "\<exists>bs. wr_bytes w = wr_bytes (cn_send c) @ bs \<and> (bs = [] \<or> (\<exists>rest. spike_encode_frame (se_codec env) m = Ok (bs @ rest)))"
  proof (cases "spike_encode_frame (se_codec env) m")
    case (Inr f)
    have "\<exists>k. wr_bytes (snd (write_all f v)) = wr_bytes v @ take k f" for v
      by (cases "length f \<le> wr_room v") (auto simp: write_all_def Let_def split: stream_end.splits intro: exI [of _ "length f"])
    then obtain k where "wr_bytes w = wr_bytes (cn_send c) @ take k f"
      using run Inr by (auto simp: spike_write_value_def io_map_err_def io_bind_def split: prod.splits poll.splits) (metis snd_conv)+
    with Inr show ?thesis by (metis append_take_drop_id)
  qed (use run in \<open>auto simp: spike_write_value_def\<close>)
  show ?thesis
  proof (cases "t = Go")
    case True
    then obtain f where "spike_encode_frame (se_codec env) m = Ok f" "wr_bytes w = wr_bytes (cn_send c) @ f"
      using run c' by (auto simp: spike_write_value_Ok)
    then show ?thesis using that [of f] c' by simp
  next
    case False
    with part that c' show ?thesis by auto
  qed
qed

lemma send_within_inv:
  assumes "server_inv env before d0 (Go, c)" and "\<And>n h. m = Spk_TransferAck n h \<Longrightarrow> stored (se_blake3 env) (cn_disk c) n h"
  shows "server_inv env before d0 (send_within env late failed m c)"
proof -
  obtain t c' where run: "send_within env late failed m c = (t, c')" by fastforce
  obtain bs where bs: "c' = c\<lparr>cn_send := cn_send c'\<rparr>" "wr_bytes (cn_send c') = wr_bytes (cn_send c) @ bs"
      "t = Go \<Longrightarrow> spike_encode_frame (se_codec env) m = Ok bs" "bs = [] \<or> (\<exists>rest. spike_encode_frame (se_codec env) m = Ok (bs @ rest))"
    using send_within_effect [OF run] by metis
  obtain ms written where ms: "wr_bytes (cn_send c) = before @ written" "spike_frames (se_codec env) ms = Some written"
      "justified (se_blake3 env) (cn_disk c) ms"
    using assms(1) by (auto simp: server_inv_def)
  have c': "cn_running c' = cn_running c" "cn_ended c' = cn_ended c" "cn_results c' = cn_results c" "cn_disk c' = cn_disk c"
    using bs(1) by (metis spike_conn.select_convs spike_conn.surjective spike_conn.update_convs(1))+
  have just: "justified (se_blake3 env) (cn_disk c) (ms @ [m])" using ms(3) assms(2) by (auto simp: justified_def)
  have "\<exists>ns w rest. wr_bytes (cn_send c') = before @ w \<and> spike_frames (se_codec env) ns = Some (w @ rest) \<and>
      (t = Go \<longrightarrow> rest = []) \<and> justified (se_blake3 env) (cn_disk c) ns"
  proof (cases "spike_encode_frame (se_codec env) m")
    case (Inl e)
    then have "bs = []" "t \<noteq> Go" using bs(3,4) by auto
    with ms bs(2) show ?thesis by (intro exI [of _ ms] exI [of _ written] exI [of _ "[]"]) simp
  next
    case (Inr f)
    then obtain rest where rest: "f = bs @ rest" "t = Go \<longrightarrow> rest = []"
      using bs(3,4) by (cases "t = Go") auto
    with spike_frames_snoc [OF ms(2) Inr] ms(1) bs(2) just show ?thesis
      by (intro exI [of _ "ms @ [m]"] exI [of _ "written @ bs"] exI [of _ rest]) simp
  qed
  with assms(1) c' show ?thesis unfolding run by (auto simp: server_inv_def)
qed

lemma task_ends_inv:
  assumes "server_inv env before d0 (Go, c)" and "task_ends env i c = Some c'"
  shows "server_inv env before d0 (Go, c')"
proof -
  obtain x d where i: "i < length (cn_running c)" "length (cn_results c) < MAX_CONCURRENT_TRANSFERS"
    and run: "receive_task env (cn_running c ! i) (cn_disk c) = Some (x, d)"
    and c': "c' = c\<lparr>cn_running := take i (cn_running c) @ drop (Suc i) (cn_running c), cn_ended := Suc (cn_ended c),
        cn_results := cn_results c @ [x], cn_disk := d\<rparr>"
    using assms(2) by (auto simp: task_ends_def split: if_splits)
  note effect = receive_task_effect [OF run]
  have keep: "stored (se_blake3 env) (cn_disk c) n h \<Longrightarrow> stored (se_blake3 env) d n h" for n h
    by (rule stored_keeps [OF _ effect(1)])
  then have just: "justified (se_blake3 env) (cn_disk c) ms \<Longrightarrow> justified (se_blake3 env) d ms" for ms
    by (auto simp: justified_def)
  have len: "length (cn_running c') + cn_ended c' = length (cn_running c) + cn_ended c" using i(1) c' by simp
  have res: "stored (se_blake3 env) d (spr_byte_len res) (spr_blake3 res)" if "Ok res \<in> set (cn_results c')" for res
    using that assms(1) effect(2) [of res] keep c' by (auto simp: server_inv_def)
  obtain ms where "wr_bytes (cn_send c) = before @ ms" "\<exists>ns. spike_frames (se_codec env) ns = Some ms \<and> justified (se_blake3 env) (cn_disk c) ns"
    using assms(1) by (auto simp: server_inv_def)
  with just have "\<exists>ns written rest. wr_bytes (cn_send c') = before @ written \<and> spike_frames (se_codec env) ns = Some (written @ rest) \<and>
      rest = [] \<and> justified (se_blake3 env) d ns" using c' by auto
  moreover have "\<forall>p n. dk_nodes d0 p = Some n \<longrightarrow> dk_nodes d p = Some n"
    using assms(1) effect(1) by (auto simp: server_inv_def)
  moreover have "length (cn_results c') \<le> MAX_CONCURRENT_TRANSFERS" using i(2) c' by simp
  ultimately show ?thesis using assms(1) len res c' by (auto simp: server_inv_def)
qed

lemma server_inv_stop: "server_inv env before d0 (Go, c) \<Longrightarrow> server_inv env before d0 (t, c)"
  unfolding server_inv_def by simp (metis append_Nil2)

lemma server_step_inv:
  assumes "server_step env s s'" and "server_inv env before d0 s"
  shows "server_inv env before d0 s'"
  using assms
proof (induction rule: server_step.induct)
  case (closed c)
  then show ?case by (rule server_inv_stop)
next
  case (control c message)
  then show ?case
    using send_within_inv [of env before d0 c] server_inv_stop [of env before d0 c] by (auto simp: on_control_def split: option.splits sum.splits spike_message.splits)
next
  case (result c)
  then obtain x rest where x: "cn_results c = x # rest" by (cases "cn_results c") auto
  with result have "server_inv env before d0 (Go, c\<lparr>cn_results := rest\<rparr>)" by (auto simp: server_inv_def)
  moreover have "stored (se_blake3 env) (cn_disk c) (spr_byte_len res) (spr_blake3 res)" if "x = Ok res" for res
    using result x that by (auto simp: server_inv_def)
  ultimately show ?case
    using x by (auto simp: on_transfer_result_def split: sum.splits intro!: send_within_inv)
next
  case (joined c)
  then show ?case by (auto simp: server_inv_def)
next
  case (stream c accepted)
  moreover from this have "server_inv env before d0 (Go, c\<lparr>cn_running := cn_running c @ [recv]\<rparr>)"
    if "length (cn_running c) + cn_ended c < MAX_CONCURRENT_TRANSFERS" for recv
    using that by (auto simp: server_inv_def)
  ultimately show ?case by (auto simp: on_stream_def not_le split: sum.splits intro: server_inv_stop)
next
  case (task i c c')
  then show ?case by (blast intro: task_ends_inv)
qed

interpretation spike_machine: invariant_machine "server_start w d" "server_step env" "server_inv env (wr_bytes w) d" for w d env
proof
  show "server_inv env (wr_bytes w) d s" if "server_start w d s" for s
    using that by (auto simp: server_start_def server_inv_def justified_def intro: exI [of _ "[]"])
qed (blast intro: server_step_inv)

text \<open>What a reader decodes of a stream of frames, as far as it has arrived, are its messages.\<close>

lemma delivers_prefix:
  assumes "postcard_ok pc"
  shows "delivers pc ns bs after \<Longrightarrow> spike_frames pc ms = Some (bs @ later) \<Longrightarrow>
    \<exists>ms'. ms = ns @ ms' \<and> spike_frames pc ms' = Some (after @ later)"
proof (induction ns arbitrary: bs ms)
  case (Cons n ns)
  then obtain payload mid where p: "bs = be_encode 4 (length payload) @ payload @ mid" "length payload \<le> MAX_FRAME_LEN"
      "from_bytes pc payload = Ok n" "delivers pc ns mid after" by auto
  have "length bs \<noteq> 0" using p(1) by simp
  then obtain m ms1 where ms: "ms = m # ms1" using Cons.prems(2) by (cases ms) auto
  then obtain q fs where q: "to_stdvec pc m = Some q" "length q \<le> MAX_FRAME_LEN" "spike_frames pc ms1 = Some fs"
      "bs @ later = be_encode 4 (length q) @ q @ fs"
    using Cons.prems(2) by (auto simp: spike_encode_frame_Ok split: sum.splits)
  have "be_encode 4 (length payload) = be_encode 4 (length q)" and rest: "payload @ mid @ later = q @ fs"
    using q(4) p(1) by (simp_all add: append_eq_append_conv)
  then have "length payload = length q"
    using p(2) q(2) be_encode_inject [of "length payload" 4 "length q"] by (simp add: MAX_FRAME_LEN_def)
  with rest have "payload = q" "mid @ later = fs" by simp_all
  with p(3) from_bytes_encoded [OF assms q(1)] have "n = m" by simp
  with Cons.IH [OF p(4), of ms1] q(3) \<open>mid @ later = fs\<close> ms show ?case by auto
qed simp

lemma spike_send_loop_Ok:
  "spike_send_loop hashed sent f w = (Ready (Ok (h, k)), w') \<Longrightarrow> h = hashed @ rd_bytes f"
proof (induction hashed sent f w rule: spike_send_loop.induct)
  case (1 hashed sent f w)
  obtain bs f' where bs: "read_some SPIKE_STREAM_BUFFER_SIZE f = (Ready (Ok bs), f')"
    using "1.prems" by (auto simp: spike_send_loop.simps [of _ _ f] split: prod.splits poll.splits sum.splits)
  note some = read_some_Ok [OF bs]
  show ?case
  proof (cases "bs = []")
    case True
    with "1.prems" bs some(4) show ?thesis by (simp add: spike_send_loop.simps [of _ _ f] SPIKE_STREAM_BUFFER_SIZE_def)
  next
    case False
    with "1.prems" bs obtain w1 where w1: "io_map_err (\<lambda>_. Spt_Io io_other) (write_all bs) w = (Ready (Ok ()), w1)"
        "spike_send_loop (hashed @ bs) (saturating_add sent (of_nat (length bs))) f' w1 = (Ready (Ok (h, k)), w')"
      by (auto simp: spike_send_loop.simps [of _ _ f] split: prod.splits poll.splits sum.splits)
    from "1.IH" [OF bs [symmetric] refl refl False w1(1) [symmetric] refl refl w1(2)] some(1) show ?thesis by simp
  qed
qed

lemma spike_send_file_Ok:
  assumes "spike_send_file pc blake3 hex opened finished metadata w = (Ready (Ok n), w')"
  obtains f where "opened = Ok f" "blake3 (rd_bytes f) = sm_blake3 metadata"
proof -
  from assms obtain f h k u u' where "opened = Ok f" "blake3 h = sm_blake3 metadata" "spike_send_loop [] 0 f u = (Ready (Ok (h, k)), u')"
    by (auto simp: spike_send_file_def io_bind_Ok verify_payload_def split: if_splits prod.splits)
  with that spike_send_loop_Ok [of "[]" 0 f u h k u'] show ?thesis by auto
qed

lemma io_timeout_fst: "fst (io_timeout e f s) = Ok a \<longleftrightarrow> (\<exists>t. f s = (Ready (Ok a), t))"
  by (auto simp: io_timeout_def split: prod.splits poll.splits)

text \<open>A client that succeeds has received the acknowledgement of what it sent.\<close>

lemma client_send_Ok:
  assumes "spike_client_send env local peer_id metadata data opened finished c = (Ok (), c')"
  obtains peer :: peer_handshake and after f where
    "delivers (se_codec env) [Spk_Hello SPIKE_PROTOCOL_VERSION peer_id, Spk_DeviceMetadata (ph_device_name peer) (ph_platform peer),
        Spk_Capabilities (ph_capabilities peer), Spk_TransferAck (sm_byte_len metadata) (sm_blake3 metadata)] (rd_bytes (ch_recv c)) after"
    and "opened = Ok f" and "se_blake3 env (rd_bytes f) = sm_blake3 metadata"
proof -
  from assms obtain peer c1 w n w' where shake: "exchange_handshake (se_codec env) (se_hex env) local peer_id c = (Ready (Ok peer), c1)"
      and send: "spike_send_file (se_metadata_codec env) (se_blake3 env) (se_hex env) opened finished metadata w = (Ready (Ok n), w')"
      and ack: "receive_ack env metadata c1 = (Ok (), c')"
    by (auto simp: spike_client_send_def st_bind_Ok io_timeout_Ok io_timeout_fst ok_or_Ok_iff split: if_splits)
  from ack obtain a where a: "on_recv (spike_read_value (se_codec env)) c1 = (Ready (Ok a), c')"
      "(case a of Spk_TransferAck byte_len blake3 \<Rightarrow>
          if byte_len \<noteq> sm_byte_len metadata \<or> blake3 \<noteq> sm_blake3 metadata then Err Cle_AckMismatch else Ok ()
        | _ \<Rightarrow> Err (Cle_ExpectedAck a)) = Ok ()"
    by (auto simp: receive_ack_def st_bind_Ok io_timeout_Ok)
  then have "a = Spk_TransferAck (sm_byte_len metadata) (sm_blake3 metadata)" by (cases a) (auto split: if_splits)
  with a(1) obtain after where "delivers (se_codec env) [Spk_TransferAck (sm_byte_len metadata) (sm_blake3 metadata)] (rd_bytes (ch_recv c1)) after"
    by (auto simp: on_recv_Ok spike_read_value_Ok simp del: delivers.simps)
  with exchange_handshake_Ok [OF shake]
  have "delivers (se_codec env) ([Spk_Hello SPIKE_PROTOCOL_VERSION peer_id, Spk_DeviceMetadata (ph_device_name peer) (ph_platform peer),
        Spk_Capabilities (ph_capabilities peer)] @ [Spk_TransferAck (sm_byte_len metadata) (sm_blake3 metadata)]) (rd_bytes (ch_recv c)) after"
    unfolding delivers_append by blast
  then have got: "delivers (se_codec env) [Spk_Hello SPIKE_PROTOCOL_VERSION peer_id, Spk_DeviceMetadata (ph_device_name peer) (ph_platform peer),
        Spk_Capabilities (ph_capabilities peer), Spk_TransferAck (sm_byte_len metadata) (sm_blake3 metadata)] (rd_bytes (ch_recv c)) after"
    by (simp only: append_Cons append_Nil)
  show ?thesis using spike_send_file_Ok [OF send] that [OF got] by blast
qed

lemma example_env_ok: "postcard_ok (se_codec example_env)"
  by (simp add: example_env_def table_codec_ok)

lemma example_env_frames:
  "local_handshake_of example_context = example_side 2"
  "spike_frames (se_codec example_env) (handshake_messages (example_side 1)) = Some [0, 0, 0, 1, 0, 0, 0, 0, 1, 1, 0, 0, 0, 1, 2]"
  "spike_frames (se_codec example_env) (handshake_messages (example_side 2)) = Some [0, 0, 0, 1, 3, 0, 0, 0, 1, 1, 0, 0, 0, 1, 2]"
  "spike_encode_frame (se_codec example_env) (Spk_TransferAck 2 (replicate 32 0)) = Ok [0, 0, 0, 1, 4]"
  by (simp_all add: handshake_messages_def example_side_def example_env_def table_codec_def spike_encode_frame_def
      MAX_FRAME_LEN_def SPIKE_PROTOCOL_VERSION_def be_simps local_handshake_of_def example_context_def)

text \<open>A client that sends its file and gets the acknowledgement.\<close>

lemma example_client_run:
  "\<exists>cc'. spike_client_send example_env (example_side 1) [2] example_part (Some example_writer) (Ok example_source) (Ok ())
     \<lparr>ch_send = example_writer, ch_recv = \<lparr>rd_bytes = [0, 0, 0, 1, 3, 0, 0, 0, 1, 1, 0, 0, 0, 1, 2] @ [0, 0, 0, 1, 4], rd_end = Eof\<rparr>\<rparr> = (Ok (), cc')"
proof -
  let ?ours = "[0, 0, 0, 1, 0, 0, 0, 0, 1, 1, 0, 0, 0, 1, 2] :: bytes"
  have room: "length ?ours \<le> wr_room example_writer" by (simp add: example_writer_def)
  have "lh_node_id (example_side 2) = [2]" by (simp add: example_side_def)
  note shake = exchange_handshake_completes [OF example_env_ok example_env_frames(2,3) room, of "se_hex example_env" "[0, 0, 0, 1, 4]" Eof, unfolded this]
  have "delivers (se_codec example_env) [Spk_TransferAck 2 (replicate 32 0)] [0, 0, 0, 1, 4] []"
    using delivers_frames [OF example_env_ok, of "[Spk_TransferAck 2 (replicate 32 0)]" "[0, 0, 0, 1, 4]" "[]"] example_env_frames(4)
    by (simp del: delivers.simps)
  then have "spike_read_value (se_codec example_env) \<lparr>rd_bytes = [0, 0, 0, 1, 4], rd_end = Eof\<rparr> =
      (Ready (Ok (Spk_TransferAck 2 (replicate 32 0))), \<lparr>rd_bytes = [], rd_end = Eof\<rparr>)"
    by (simp add: spike_read_value_Ok del: delivers.simps)
  then have ack: "\<exists>cc'. receive_ack example_env example_part \<lparr>ch_send = w, ch_recv = \<lparr>rd_bytes = [0, 0, 0, 1, 4], rd_end = Eof\<rparr>\<rparr> = (Ok (), cc')" for w
    by (simp add: receive_ack_def io_timeout_def io_map_err_def on_recv_def st_bind_def example_part_def)
  have "spike_send_file (se_metadata_codec example_env) (se_blake3 example_env) (se_hex example_env) (Ok example_source) (Ok ()) example_part example_writer =
      (Ready (Ok 2), example_writer\<lparr>wr_bytes := wr_bytes example_writer @ [0, 0, 0, 1, 0] @ rd_bytes example_source,
         wr_room := wr_room example_writer - length [0, 0, 0, 1, 0 :: byte] - length (rd_bytes example_source)\<rparr>)"
    using spike_send_file_sends [of example_source example_part zero_digest "table_codec [example_part]" "[0, 0, 0, 1, 0]" example_writer "\<lambda>_. []"]
      example_part_frame
    by (simp add: example_env_def) (simp add: example_source_def example_part_def zero_digest_def example_writer_def)
  then have sent: "\<exists>n. fst (io_timeout Cle_TransferTimedOut (io_map_err Cle_Transfer (spike_send_file (se_metadata_codec example_env)
      (se_blake3 example_env) (se_hex example_env) (Ok example_source) (Ok ()) example_part)) example_writer) = Ok n"
    by (auto simp: io_timeout_fst)
  have "BinaryBlobStream \<in> set (ph_capabilities (presented (example_side 2)))" by (simp add: presented_def example_side_def)
  with shake sent ack show ?thesis by (auto simp: spike_client_send_def io_timeout_def [of Cle_HandshakeTimedOut] io_map_err_def [of Cle_Handshake] st_bind_def)
qed

text \<open>A server that receives one file and acknowledges it.\<close>

lemma example_server_run:
  assumes "5 \<le> wr_room w"
  shows "\<exists>c. reachable (server_start w empty_disk) (server_step example_env) (Go, c) \<and> wr_bytes (cn_send c) = wr_bytes w @ [0, 0, 0, 1, 4]"
proof -
  let ?c0 = "\<lparr>cn_send = w, cn_running = [], cn_ended = 0, cn_results = [], cn_disk = empty_disk\<rparr>"
  let ?c1 = "?c0\<lparr>cn_running := [example_incoming]\<rparr>"
  obtain res d' where run: "receive_task example_env example_incoming empty_disk = Some (Ok res, d')"
      and res: "spr_byte_len res = 2" "spr_blake3 res = replicate 32 0"
    using example_receives [of "\<lambda>_. []"] by (auto simp: receive_task_def example_env_def received_at_def example_part_def)
  let ?c2 = "?c0\<lparr>cn_running := [], cn_ended := 1, cn_results := [Ok res], cn_disk := d'\<rparr>"
  let ?w = "w\<lparr>wr_bytes := wr_bytes w @ [0, 0, 0, 1, 4], wr_room := wr_room w - 5\<rparr>"
  let ?c3 = "?c2\<lparr>cn_results := [], cn_send := ?w\<rparr>"
  have "server_step example_env (Go, ?c0) (on_stream (Ok example_incoming) ?c0)" by (rule server_step.stream)
  then have s1: "server_step example_env (Go, ?c0) (Go, ?c1)" by (simp add: on_stream_def MAX_CONCURRENT_TRANSFERS_def)
  have s2: "server_step example_env (Go, ?c1) (Go, ?c2)"
    by (rule server_step.task [where i = 0]) (use run in \<open>simp add: task_ends_def MAX_CONCURRENT_TRANSFERS_def\<close>)
  have "spike_write_value (se_codec example_env) (Spk_TransferAck 2 (replicate 32 0)) w = (Ready (Ok ()), ?w)"
    unfolding spike_write_value_Ok using example_env_frames(4) assms by auto
  then have "on_transfer_result example_env ?c2 = (Go, ?c3)"
    using res by (simp add: on_transfer_result_def send_within_def io_timeout_def io_map_err_def)
  moreover have "server_step example_env (Go, ?c2) (on_transfer_result example_env ?c2)" by (rule server_step.result) simp
  ultimately have s3: "server_step example_env (Go, ?c2) (Go, ?c3)" by simp
  have "reachable (server_start w empty_disk) (server_step example_env) (Go, ?c0)" by (rule reach_init) (simp add: server_start_def)
  from reach_step [where step = "server_step example_env", OF reach_step [where step = "server_step example_env", OF
      reach_step [where step = "server_step example_env", OF this s1] s2] s3]
  have "reachable (server_start w empty_disk) (server_step example_env) (Go, ?c3)" .
  then show ?thesis by (intro exI [of _ ?c3]) simp
qed

section \<open>Properties\<close>

text \<open>
  The server of the prototype acknowledges only what it stored. In every state its loop can reach, at most four
  transfers are in progress and at most four results wait; every file that was there before is unchanged; and what was
  written to the control stream since the loop started is a sequence of frames, of which the last may be cut off only when
  the loop has ended, and every acknowledgement among them has a file of that length and digest on the disk.
\<close>

theorem spike_server_acknowledges_stored:
  assumes "reachable (server_start w d) (server_step env) (t, c)"
  shows "length (cn_running c) + cn_ended c \<le> MAX_CONCURRENT_TRANSFERS \<and> length (cn_results c) \<le> MAX_CONCURRENT_TRANSFERS \<and>
    (\<forall>p n. dk_nodes d p = Some n \<longrightarrow> dk_nodes (cn_disk c) p = Some n) \<and>
    (\<exists>ms written rest. wr_bytes (cn_send c) = wr_bytes w @ written \<and> spike_frames (se_codec env) ms = Some (written @ rest) \<and>
       (t = Go \<longrightarrow> rest = []) \<and> (\<forall>n h. Spk_TransferAck n h \<in> set ms \<longrightarrow> stored (se_blake3 env) (cn_disk c) n h))"
  using spike_machine.reachable_inv [OF assms] by (simp add: server_inv_def justified_def)

theorem spike_server_acknowledges_stored_witness:
  "\<exists>c. reachable (server_start example_writer empty_disk) (server_step example_env) (Go, c) \<and>
    wr_bytes (cn_send c) = [0, 0, 0, 1, 4] \<and> length (cn_running c) + cn_ended c \<le> MAX_CONCURRENT_TRANSFERS"
proof -
  obtain c where c: "reachable (server_start example_writer empty_disk) (server_step example_env) (Go, c)"
      "wr_bytes (cn_send c) = wr_bytes example_writer @ [0, 0, 0, 1, 4]"
    using example_server_run [of example_writer] by (auto simp: example_writer_def)
  with spike_server_acknowledges_stored [OF c(1)] show ?thesis by (auto simp: example_writer_def)
qed

text \<open>
  C36: a transfer the client reports as done is stored at the server. Let a server do its handshake and run its loop, and
  let a client read what that server wrote, as far as it arrived. If the client's transfer succeeds, then
  the server's disk has a regular file of the announced length whose digest is the one the client computed of the file
  it sent.
\<close>

theorem acknowledged_transfer_stored:
  assumes "postcard_ok (se_codec env)"
    and "exchange_handshake (se_codec env) (se_hex env) (local_handshake_of context) client_id sc = (Ready (Ok client), sc')"
    and "wr_bytes (ch_send sc) = []"
    and "reachable (server_start (ch_send sc') d) (server_step env) (t, c)"
    and "wr_bytes (cn_send c) = rd_bytes (ch_recv cc) @ later"
    and "spike_client_send env local peer_id metadata data opened finished cc = (Ok (), cc')"
  shows "peer_id = sx_node_id context \<and> stored (se_blake3 env) (cn_disk c) (sm_byte_len metadata) (sm_blake3 metadata) \<and>
    (\<exists>f. opened = Ok f \<and> se_blake3 env (rd_bytes f) = sm_blake3 metadata)"
proof -
  let ?hs = "handshake_messages (local_handshake_of context)"
  obtain fs where fs: "spike_frames (se_codec env) ?hs = Some fs" "wr_bytes (ch_send sc') = fs"
    using exchange_handshake_Ok [OF assms(2)] assms(3) by (metis append_Nil)
  obtain ms written rest where ms: "wr_bytes (cn_send c) = fs @ written" "spike_frames (se_codec env) ms = Some (written @ rest)"
      "justified (se_blake3 env) (cn_disk c) ms"
    using spike_machine.reachable_inv [OF assms(4)] fs(2) by (auto simp: server_inv_def)
  have all: "spike_frames (se_codec env) (?hs @ ms) = Some (rd_bytes (ch_recv cc) @ later @ rest)"
    using spike_frames_append [OF fs(1) ms(2)] ms(1) assms(5) by (metis append.assoc)
  obtain peer :: peer_handshake and after f where got: "delivers (se_codec env) [Spk_Hello SPIKE_PROTOCOL_VERSION peer_id,
      Spk_DeviceMetadata (ph_device_name peer) (ph_platform peer), Spk_Capabilities (ph_capabilities peer),
      Spk_TransferAck (sm_byte_len metadata) (sm_blake3 metadata)] (rd_bytes (ch_recv cc)) after" "opened = Ok f"
      "se_blake3 env (rd_bytes f) = sm_blake3 metadata"
    by (rule client_send_Ok [OF assms(6)])
  from delivers_prefix [OF assms(1) got(1) all]
  have "peer_id = sx_node_id context \<and> Spk_TransferAck (sm_byte_len metadata) (sm_blake3 metadata) \<in> set ms"
    by (auto simp: handshake_messages_def local_handshake_of_def)
  with ms(3) got(2,3) show ?thesis by (auto simp: justified_def)
qed

theorem acknowledged_transfer_stored_witness:
  "\<exists>(c :: spike_conn) cc'. spike_client_send example_env (example_side 1) [2] example_part (Some example_writer) (Ok example_source) (Ok ())
       \<lparr>ch_send = example_writer, ch_recv = \<lparr>rd_bytes = wr_bytes (cn_send c), rd_end = Eof\<rparr>\<rparr> = (Ok (), cc') \<and>
     stored zero_digest (cn_disk c) 2 (replicate 32 0)"
proof -
  let ?recv = "[0, 0, 0, 1, 3, 0, 0, 0, 1, 1, 0, 0, 0, 1, 2] :: bytes"
  let ?sent = "example_writer\<lparr>wr_bytes := wr_bytes example_writer @ ?recv, wr_room := wr_room example_writer - length ?recv\<rparr>"
  have ids: "lh_node_id (example_side 1) = [1]" "lh_node_id (example_side 2) = [2]" by (simp_all add: example_side_def)
  have room: "length ?recv \<le> wr_room example_writer" by (simp add: example_writer_def)
  have server: "exchange_handshake (se_codec example_env) (se_hex example_env) (local_handshake_of example_context) [1]
      \<lparr>ch_send = example_writer, ch_recv = \<lparr>rd_bytes = [0, 0, 0, 1, 0, 0, 0, 0, 1, 1, 0, 0, 0, 1, 2] @ [], rd_end = Stalls\<rparr>\<rparr> =
      (Ready (Ok (presented (example_side 1))), \<lparr>ch_send = ?sent, ch_recv = \<lparr>rd_bytes = [], rd_end = Stalls\<rparr>\<rparr>)"
    using exchange_handshake_completes [OF example_env_ok example_env_frames(3,2) room, of "se_hex example_env" "[]" Stalls]
    by (simp only: ids example_env_frames(1))
  obtain c where c: "reachable (server_start ?sent empty_disk) (server_step example_env) (Go, c)"
      "wr_bytes (cn_send c) = wr_bytes ?sent @ [0, 0, 0, 1, 4]"
    using example_server_run [of ?sent] by (auto simp: example_writer_def)
  have bytes: "wr_bytes (cn_send c) = ?recv @ [0, 0, 0, 1, 4]" using c(2) by (simp add: example_writer_def)
  let ?cc = "\<lparr>ch_send = example_writer, ch_recv = \<lparr>rd_bytes = wr_bytes (cn_send c), rd_end = Eof\<rparr>\<rparr>"
  have "\<exists>cc'. spike_client_send example_env (example_side 1) [2] example_part (Some example_writer) (Ok example_source) (Ok ()) ?cc = (Ok (), cc')"
    unfolding bytes by (rule example_client_run)
  then obtain cc' where client: "spike_client_send example_env (example_side 1) [2] example_part (Some example_writer) (Ok example_source) (Ok ()) ?cc = (Ok (), cc')"
    by blast
  have "wr_bytes (cn_send c) = rd_bytes (ch_recv ?cc) @ []" by simp
  from acknowledged_transfer_stored [OF example_env_ok server _ _ this client, of empty_disk Go] c(1)
  have "stored (se_blake3 example_env) (cn_disk c) (sm_byte_len example_part) (sm_blake3 example_part)"
    by (simp add: example_writer_def)
  then have "stored zero_digest (cn_disk c) 2 (replicate 32 0)" by (simp add: example_env_def example_part_def)
  with client show ?thesis by blast
qed

end
