(* ===== verification/Spike_Identity.thy ===== *)
theory Spike_Identity
  imports Identity_Store
begin

text \<open>
  The persistent identity of the networking prototype (\<open>crates/rift-spike/src/identity.rs\<close>): an envelope with a shortened
  checksum, loaded or created in the data directory. As in the production store, another process can create the
  identity just before the link; unlike there, a failure while the temporary file is filled leaves it behind.
\<close>

section \<open>The envelope\<close>

definition SPIKE_MAGIC :: bytes where
  "SPIKE_MAGIC = [82, 70, 84, 73, 68, 48, 48, 49]"

definition SPIKE_FORMAT_VERSION :: byte where
  "SPIKE_FORMAT_VERSION = 1"

definition SPIKE_CHECKSUM_LEN :: nat where
  "SPIKE_CHECKSUM_LEN = 16"

definition STORAGE_LEN :: nat where
  "STORAGE_LEN = length SPIKE_MAGIC + 1 + SECRET_KEY_LEN + SPIKE_CHECKSUM_LEN"

datatype spike_identity_error =
    Spi_Io io_error_kind
  | Spi_MalformedStorage string

record node_identity =
  ni_secret_key :: bytes
  ni_storage_path :: fpath

definition encode_storage :: "(bytes \<Rightarrow> bytes) \<Rightarrow> bytes \<Rightarrow> bytes" where
  "encode_storage blake3 secret_key =
     (let prefix = SPIKE_MAGIC @ [SPIKE_FORMAT_VERSION] @ secret_key in prefix @ take SPIKE_CHECKSUM_LEN (blake3 prefix))"

definition decode_storage :: "(bytes \<Rightarrow> bytes) \<Rightarrow> bytes \<Rightarrow> (spike_identity_error, bytes) result" where
  "decode_storage blake3 bs =
     (let m = length SPIKE_MAGIC; secret_start = m + 1; secret_end = secret_start + SECRET_KEY_LEN in
      if length bs \<noteq> STORAGE_LEN then Err (Spi_MalformedStorage ''unexpected length'')
      else if take m bs \<noteq> SPIKE_MAGIC then Err (Spi_MalformedStorage ''invalid magic'')
      else if bs ! m \<noteq> SPIKE_FORMAT_VERSION then Err (Spi_MalformedStorage ''unsupported format version'')
      else if drop secret_end bs \<noteq> take SPIKE_CHECKSUM_LEN (blake3 (take secret_end bs))
      then Err (Spi_MalformedStorage ''checksum mismatch'')
      else Ok (slice bs secret_start SECRET_KEY_LEN))"

text \<open>\<open>public\<close> derives the endpoint id.\<close>

definition fingerprint :: "(bytes \<Rightarrow> bytes) \<Rightarrow> (bytes \<Rightarrow> string) \<Rightarrow> (bytes \<Rightarrow> bytes) \<Rightarrow> node_identity \<Rightarrow> string" where
  "fingerprint blake3 hex public i = ''blake3:'' @ hex (take SPIKE_CHECKSUM_LEN (blake3 (public (ni_secret_key i))))"

section \<open>Creating and loading\<close>

definition create_temporary_file ::
  "nat \<Rightarrow> nat \<Rightarrow> fpath \<Rightarrow> disk \<Rightarrow> ((spike_identity_error, fpath) result \<times> disk) option" where
  "create_temporary_file fuel pid path d =
     (case fp_name path of
        None \<Rightarrow> Some (Err (Spi_MalformedStorage ''identity path has no file name''), d)
      | Some file_name \<Rightarrow>
          map_option (\<lambda>(r, d'). (map_err Spi_Io r, d'))
            (claim_fresh fuel ''create temporary file'' 438 (\<lambda>c. with_file_name path (temporary_name file_name pid c)) d))"

text \<open>Making the file private, writing it and syncing it.\<close>

definition fill_storage :: "bytes \<Rightarrow> fpath \<Rightarrow> unit fs_call" where
  "fill_storage encoded temporary_path =
     st_bind (fs_set_permissions ''set permissions'' 384 temporary_path) (\<lambda>_.
     st_bind (fs_write ''write temporary file'' encoded temporary_path) (\<lambda>_.
     fs_fault ''sync temporary file''))"

definition create_storage ::
  "(bytes \<Rightarrow> bytes) \<Rightarrow> nat \<Rightarrow> nat \<Rightarrow> fnode option \<Rightarrow> fpath \<Rightarrow> bytes \<Rightarrow> disk \<Rightarrow>
     ((spike_identity_error, bool) result \<times> disk) option" where
  "create_storage blake3 fuel pid other path secret_key d =
     (case create_temporary_file fuel pid path d of
        None \<Rightarrow> None
      | Some (Err e, d1) \<Rightarrow> Some (Err e, d1)
      | Some (Ok t, d1) \<Rightarrow> Some (
          case fill_storage (encode_storage blake3 secret_key) t d1 of
            (Err e, d2) \<Rightarrow> (Err (Spi_Io e), d2)
          | (Ok _, d2) \<Rightarrow>
              (case fs_hard_link ''link identity'' t path (race_in other path d2) of
                 (Ok _, d3) \<Rightarrow> (Ok True, snd (fs_remove_file ''remove temporary file'' t d3))
               | (Err e, d3) \<Rightarrow>
                   (if e = AlreadyExists then Ok False else Err (Spi_Io e), snd (fs_remove_file ''remove temporary file'' t d3)))))"

definition read_storage :: "(bytes \<Rightarrow> bytes) \<Rightarrow> string \<Rightarrow> fpath \<Rightarrow> disk \<Rightarrow> (spike_identity_error, node_identity) result \<times> disk" where
  "read_storage blake3 operation path d =
     (case fs_read operation path d of
        (r, d') \<Rightarrow> (and_then (map_err Spi_Io r) (\<lambda>bs.
           and_then (decode_storage blake3 bs) (\<lambda>secret_key. Ok \<lparr>ni_secret_key = secret_key, ni_storage_path = path\<rparr>)), d'))"

text \<open>\<open>generated\<close> is the key \<open>SecretKey::generate\<close> returns, \<open>dir_path\<close> the data directory itself.\<close>

definition spike_load_or_create ::
  "(bytes \<Rightarrow> bytes) \<Rightarrow> nat \<Rightarrow> nat \<Rightarrow> bytes \<Rightarrow> fnode option \<Rightarrow> string \<Rightarrow> fpath \<Rightarrow> disk \<Rightarrow>
     ((spike_identity_error, node_identity) result \<times> disk) option" where
  "spike_load_or_create blake3 fuel pid generated other data_dir dir_path d =
     (let storage_path = join data_dir ''identity.key'' in
      case fs_create_dir_all dir_path ''create data directory'' d of
        (Err e, d1) \<Rightarrow> Some (Err (Spi_Io e), d1)
      | (Ok _, d1) \<Rightarrow>
          (case read_storage blake3 ''read identity'' storage_path d1 of
             (Err (Spi_Io NotFound), d2) \<Rightarrow>
               (case create_storage blake3 fuel pid other storage_path generated d2 of
                  None \<Rightarrow> None
                | Some (Err e, d3) \<Rightarrow> Some (Err e, d3)
                | Some (Ok created, d3) \<Rightarrow>
                    if created then Some (Ok \<lparr>ni_secret_key = generated, ni_storage_path = storage_path\<rparr>, d3)
                    else Some (read_storage blake3 ''read identity again'' storage_path d3))
           | (r, d2) \<Rightarrow> Some (r, d2)))"

section \<open>Notions of the properties\<close>

text \<open>What \<^const>\<open>create_storage\<close> puts at the path.\<close>

definition storage_node :: "(bytes \<Rightarrow> bytes) \<Rightarrow> bytes \<Rightarrow> fnode" where
  "storage_node blake3 secret_key = \<lparr>fn_kind = Regular, fn_bytes = encode_storage blake3 secret_key, fn_mode = 384\<rparr>"

section \<open>Lemmas\<close>

lemma storage_sizes: "length SPIKE_MAGIC = 8" "STORAGE_LEN = 57" "SECRET_KEY_LEN = 32" "SPIKE_CHECKSUM_LEN = 16"
  by (simp_all add: STORAGE_LEN_def SPIKE_MAGIC_def SECRET_KEY_LEN_def SPIKE_CHECKSUM_LEN_def)

lemma decode_encode_storage:
  assumes "digest_ok blake3" and "length k = 32"
  shows "decode_storage blake3 (encode_storage blake3 k) = Ok k"
  using assms
  by (simp add: decode_storage_def encode_storage_def Let_def storage_sizes slice_def digest_ok_def nth_append min_def)

lemma decode_storage_Ok:
  assumes "digest_ok blake3"
  shows "decode_storage blake3 bs = Ok k \<longleftrightarrow> length k = 32 \<and> bs = encode_storage blake3 k"
proof
  assume "decode_storage blake3 bs = Ok k"
  then have len: "length bs = 57" and magic: "take 8 bs = SPIKE_MAGIC" and version: "bs ! 8 = SPIKE_FORMAT_VERSION"
    and sum: "drop 41 bs = take 16 (blake3 (take 41 bs))" and k: "k = take 32 (drop 9 bs)"
    by (auto simp: decode_storage_def Let_def storage_sizes slice_def split: if_splits)
  have "take 41 bs = take 8 bs @ [bs ! 8] @ k"
    using take_add [of 9 32 bs] take_Suc_conv_app_nth [of 8 bs] len k by simp
  then have "bs = encode_storage blake3 k"
    using append_take_drop_id [of 41 bs] sum magic version by (simp add: encode_storage_def Let_def SPIKE_CHECKSUM_LEN_def)
  then show "length k = 32 \<and> bs = encode_storage blake3 k" using len k by simp
qed (use decode_encode_storage [OF assms] in blast)

lemma fill_storage_effect:
  assumes "fill_storage encoded t d = (r, d')" and "dk_nodes d t = Some n" and "fn_kind n = Regular"
  obtains m where "dk_nodes d' = (dk_nodes d)(t := Some m)" and "fn_kind m = Regular" and "dk_faults d' = dk_faults d"
    and "r = Ok () \<Longrightarrow> m = \<lparr>fn_kind = Regular, fn_bytes = encoded, fn_mode = 384\<rparr>"
proof (rule that [of "the (dk_nodes d' t)"])
  show "dk_nodes d' = (dk_nodes d)(t := Some (the (dk_nodes d' t)))" "fn_kind (the (dk_nodes d' t)) = Regular" "dk_faults d' = dk_faults d"
    "r = Ok () \<Longrightarrow> the (dk_nodes d' t) = \<lparr>fn_kind = Regular, fn_bytes = encoded, fn_mode = 384\<rparr>"
    using assms by (cases n; auto simp: fill_storage_def fs_defs fun_upd_idem split: option.splits)+
qed

lemma create_temporary_file_effect:
  assumes "create_temporary_file fuel pid path d = Some (r, d')"
  shows "dk_faults d' = dk_faults d" and "r = Err e \<Longrightarrow> dk_nodes d' = dk_nodes d"
    and "r = Ok t \<Longrightarrow> t \<noteq> path \<and> dk_nodes d t = None \<and> (\<exists>n. fn_kind n = Regular \<and> dk_nodes d' = (dk_nodes d)(t := Some n))"
  using assms
  by (auto simp: create_temporary_file_def temporary_path_other [symmetric] dest!: claim_fresh_effect split: sum.splits option.splits
      intro!: exI [where P = "\<lambda>n. fn_kind n = Regular \<and> _ n"])

lemma remove_file_effect:
  assumes "dk_nodes d t = Some n" and "fn_kind n = Regular"
  shows "dk_nodes (snd (fs_remove_file operation t d)) \<in> {dk_nodes d, (dk_nodes d)(t := None)}"
    and "dk_faults (snd (fs_remove_file operation t d)) = dk_faults d"
  using assms by (auto simp: fs_defs split: option.splits)

text \<open>Linking the filled file, with whatever another process did before, and removing its temporary name.\<close>

lemma link_storage_effect:
  assumes "fs_hard_link ''link identity'' t path (race_in other path d2) = (z, d4)"
    and d2: "dk_nodes d2 = (dk_nodes d)(t := Some n)" "dk_faults d2 = dk_faults d" "fn_kind n = Regular"
    and t: "t \<noteq> path" "dk_nodes d t = None"
    and d': "d' = snd (fs_remove_file ''remove temporary file'' t d4)"
  shows "dk_nodes d p = Some m \<Longrightarrow> dk_nodes d' p = Some m"
    and "dk_nodes d path = None \<Longrightarrow> dk_nodes d' path \<in> {None, other, Some n}"
    and "z = Ok () \<Longrightarrow> dk_nodes d' path = Some n"
    and "z = Err AlreadyExists \<Longrightarrow> dk_nodes d' path \<noteq> None \<or> dk_faults d ''link identity'' = Some AlreadyExists"
    and "dk_faults d' = dk_faults d"
proof -
  define d3 where "d3 = race_in other path d2"
  have d3: "dk_faults d3 = dk_faults d" "dk_nodes d3 t = Some n" "\<And>p. p \<noteq> t \<Longrightarrow> p \<noteq> path \<Longrightarrow> dk_nodes d3 p = dk_nodes d p"
      "dk_nodes d3 path = (case dk_nodes d path of None \<Rightarrow> other | Some q \<Rightarrow> Some q)"
    using d2 t by (auto simp: d3_def race_in_def split: option.splits)
  note link = assms(1) [folded d3_def]
  have d4: "dk_faults d4 = dk_faults d" "dk_nodes d4 t = Some n" "\<And>p. p \<noteq> t \<Longrightarrow> p \<noteq> path \<Longrightarrow> dk_nodes d4 p = dk_nodes d p"
      "z = Ok () \<Longrightarrow> dk_nodes d3 path = None \<and> dk_nodes d4 path = Some n" "z \<noteq> Ok () \<Longrightarrow> dk_nodes d4 path = dk_nodes d3 path"
      "z = Err AlreadyExists \<Longrightarrow> dk_nodes d4 path \<noteq> None \<or> dk_faults d ''link identity'' = Some AlreadyExists"
    using link d3 t(1) by (auto simp: fs_defs split: option.splits if_splits)
  have rm: "q \<noteq> t \<Longrightarrow> dk_nodes d' q = dk_nodes d4 q" "dk_faults d' = dk_faults d4" for q
    using remove_file_effect [OF d4(2) d2(3), of "''remove temporary file''"] d' by auto
  show "dk_nodes d p = Some m \<Longrightarrow> dk_nodes d' p = Some m"
    using rm(1) [of p] d4(3-5) d3(4) t by (cases "p = t"; cases "p = path"; cases "z = Ok ()") auto
  show "dk_nodes d path = None \<Longrightarrow> dk_nodes d' path \<in> {None, other, Some n}"
    using rm(1) [of path] d4(4,5) d3(4) t(1) by (cases "z = Ok ()") auto
  show "z = Ok () \<Longrightarrow> dk_nodes d' path = Some n"
    and "z = Err AlreadyExists \<Longrightarrow> dk_nodes d' path \<noteq> None \<or> dk_faults d ''link identity'' = Some AlreadyExists"
    using rm(1) [of path] d4(4,6) t(1) by auto
  show "dk_faults d' = dk_faults d" using rm(2) d4(1) by simp
qed

text \<open>Creating adds at most a temporary file and the complete identity.\<close>

lemma create_storage_effect:
  assumes "create_storage blake3 fuel pid other path k d = Some (r, d')"
  shows "dk_nodes d p = Some n \<Longrightarrow> dk_nodes d' p = Some n"
    and "dk_nodes d path = None \<Longrightarrow> dk_nodes d' path \<in> {None, other, Some (storage_node blake3 k)}"
    and "r = Ok True \<Longrightarrow> dk_nodes d' path = Some (storage_node blake3 k)"
    and "r = Ok False \<Longrightarrow> dk_nodes d' path \<noteq> None \<or> dk_faults d ''link identity'' = Some AlreadyExists"
    and "dk_faults d' = dk_faults d"
proof -
  obtain x d1 where temp: "create_temporary_file fuel pid path d = Some (x, d1)"
    using assms by (auto simp: create_storage_def split: option.splits)
  note made = create_temporary_file_effect [OF temp]
  consider (failed) e where "x = Err e" "r = Err e" "d' = d1"
    | (unfilled) t y d2 e where "x = Ok t" "fill_storage (encode_storage blake3 k) t d1 = (Err y, d2)" "r = Err e" "d' = d2"
    | (linked) t d2 z d4 where "x = Ok t" "fill_storage (encode_storage blake3 k) t d1 = (Ok (), d2)"
        "fs_hard_link ''link identity'' t path (race_in other path d2) = (z, d4)"
        "d' = snd (fs_remove_file ''remove temporary file'' t d4)"
        "r = (case z of Ok _ \<Rightarrow> Ok True | Err e \<Rightarrow> if e = AlreadyExists then Ok False else Err (Spi_Io e))"
    using assms temp by (auto simp: create_storage_def split: sum.splits prod.splits)
  then have "(dk_nodes d p = Some n \<longrightarrow> dk_nodes d' p = Some n) \<and>
    (dk_nodes d path = None \<longrightarrow> dk_nodes d' path \<in> {None, other, Some (storage_node blake3 k)}) \<and>
    (r = Ok True \<longrightarrow> dk_nodes d' path = Some (storage_node blake3 k)) \<and>
    (r = Ok False \<longrightarrow> dk_nodes d' path \<noteq> None \<or> dk_faults d ''link identity'' = Some AlreadyExists) \<and> dk_faults d' = dk_faults d"
  proof cases
    case failed
    with made show ?thesis by auto
  next
    case unfilled
    from made(3) [OF unfilled(1)] obtain m where m: "t \<noteq> path" "dk_nodes d t = None" "fn_kind m = Regular"
      "dk_nodes d1 = (dk_nodes d)(t := Some m)" by blast
    obtain m2 where "dk_nodes d2 = (dk_nodes d)(t := Some m2)" "dk_faults d2 = dk_faults d"
      using fill_storage_effect [OF unfilled(2), of m] m made(1) by auto
    with m unfilled(3,4) show ?thesis by auto
  next
    case linked
    from made(3) [OF linked(1)] obtain m where m: "t \<noteq> path" "dk_nodes d t = None" "fn_kind m = Regular"
      "dk_nodes d1 = (dk_nodes d)(t := Some m)" by blast
    have d2: "dk_nodes d2 = (dk_nodes d)(t := Some (storage_node blake3 k))" "dk_faults d2 = dk_faults d"
      using fill_storage_effect [OF linked(2), of m] m made(1) by (auto simp: storage_node_def)
    note eff = link_storage_effect [OF linked(3) d2 _ m(1,2) linked(4)]
    have "fn_kind (storage_node blake3 k) = Regular" by (simp add: storage_node_def)
    note eff = eff [OF this]
    show ?thesis using eff(1) [of p n] eff(2-5) linked(5) by (auto split: sum.splits if_splits)
  qed
  then show "dk_nodes d p = Some n \<Longrightarrow> dk_nodes d' p = Some n"
    and "dk_nodes d path = None \<Longrightarrow> dk_nodes d' path \<in> {None, other, Some (storage_node blake3 k)}"
    and "r = Ok True \<Longrightarrow> dk_nodes d' path = Some (storage_node blake3 k)"
    and "r = Ok False \<Longrightarrow> dk_nodes d' path \<noteq> None \<or> dk_faults d ''link identity'' = Some AlreadyExists"
    and "dk_faults d' = dk_faults d" by blast+
qed

lemma read_storage_Ok:
  assumes "digest_ok blake3"
  shows "read_storage blake3 operation path d = (Ok i, d') \<longleftrightarrow>
    d' = d \<and> dk_faults d operation = None \<and> ni_storage_path i = path \<and> length (ni_secret_key i) = 32 \<and>
    (\<exists>n. dk_nodes d path = Some n \<and> fn_bytes n = encode_storage blake3 (ni_secret_key i))"
  by (cases i) (auto simp: read_storage_def fs_defs and_then_Ok_iff decode_storage_Ok [OF assms] split: option.splits)

lemma read_storage_keeps: "snd (read_storage blake3 operation path d) = d"
  by (auto simp: read_storage_def fs_defs split: option.splits prod.splits)

lemma spike_load_cases:
  assumes "spike_load_or_create blake3 fuel pid generated other dir dir_path d = Some (r, d')"
  obtains (nodir) e x where "r = Err e" "fs_create_dir_all dir_path ''create data directory'' d = (Err x, d')"
    | (present) d1 where "fs_create_dir_all dir_path ''create data directory'' d = (Ok (), d1)"
        "read_storage blake3 ''read identity'' (join dir ''identity.key'') d1 = (r, d1)" "d' = d1"
    | (created) d1 s where "fs_create_dir_all dir_path ''create data directory'' d = (Ok (), d1)"
        "create_storage blake3 fuel pid other (join dir ''identity.key'') generated d1 = Some (s, d')"
        "s = Ok True \<and> r = Ok \<lparr>ni_secret_key = generated, ni_storage_path = join dir ''identity.key''\<rparr> \<or>
         s = Ok False \<and> read_storage blake3 ''read identity again'' (join dir ''identity.key'') d' = (r, d') \<or> (\<exists>e. s = Err e \<and> r = Err e)"
proof -
  let ?path = "join dir ''identity.key''"
  obtain z d1 where dir: "fs_create_dir_all dir_path ''create data directory'' d = (z, d1)" by fastforce
  obtain q where read: "read_storage blake3 ''read identity'' ?path d1 = (q, d1)"
    using read_storage_keeps [of blake3 "''read identity''" ?path d1] by (metis prod.collapse)
  consider (1) e where "z = Err e" | (2) "z = Ok ()" "q \<noteq> Err (Spi_Io NotFound)" | (3) "z = Ok ()" "q = Err (Spi_Io NotFound)"
    by (cases z) auto
  then show thesis
  proof cases
    case (1 e)
    with assms dir nodir show ?thesis by (auto simp: spike_load_or_create_def Let_def)
  next
    case 2
    have "r = q \<and> d' = d1" using assms dir read 2
      by (auto simp: spike_load_or_create_def Let_def split: sum.splits spike_identity_error.splits io_error_kind.splits)
    with present [of d1] dir read 2 show ?thesis by simp
  next
    case 3
    obtain s d3 where s: "create_storage blake3 fuel pid other ?path generated d1 = Some (s, d3)"
      using assms dir read 3 by (auto simp: spike_load_or_create_def Let_def split: option.splits)
    obtain y where y: "read_storage blake3 ''read identity again'' ?path d3 = (y, d3)"
      using read_storage_keeps [of blake3 "''read identity again''" ?path d3] by (metis prod.collapse)
    show ?thesis
      by (rule created [of d1 s]) (use assms dir read 3 s y in \<open>auto simp: spike_load_or_create_def Let_def split: sum.splits if_splits\<close>)
  qed
qed

text \<open>On a disk without faults the first start creates the identity of the generated key.\<close>

lemma create_storage_quiet:
  assumes "dk_faults d = (\<lambda>_. None)" and "dk_nodes d path = None" and "fp_name path = Some f"
    and "finite (dom (dk_nodes d))" "card (dom (dk_nodes d)) < fuel" "fuel \<le> 2 ^ 64"
  shows "\<exists>d'. create_storage blake3 fuel pid None path k d = Some (Ok True, d')"
proof -
  have "inj (\<lambda>c. with_file_name path (temporary_name f pid c))"
    by (auto simp: inj_def with_file_name_inject dest: temporary_name_inject)
  from claim_fresh_terminates [OF this assms(4-6), of "''create temporary file''" 438] assms(1)
  obtain x d1 where claim: "claim_fresh fuel ''create temporary file'' 438 (\<lambda>c. with_file_name path (temporary_name f pid c)) d = Some (x, d1)"
    by auto
  with claim_fresh_quiet [OF claim] assms(1) obtain t where "x = Ok t" by auto
  with claim assms(3) have temp: "create_temporary_file fuel pid path d = Some (Ok t, d1)" by (simp add: create_temporary_file_def)
  note made = create_temporary_file_effect [OF temp]
  from made(3) obtain m where m: "t \<noteq> path" "dk_nodes d t = None" "fn_kind m = Regular" "dk_nodes d1 = (dk_nodes d)(t := Some m)" by blast
  obtain d2 where fill: "fill_storage (encode_storage blake3 k) t d1 = (Ok (), d2)"
    using made(1) assms(1) m by (auto simp: fill_storage_def fs_defs)
  obtain m2 where "dk_nodes d2 = (dk_nodes d)(t := Some m2)" "dk_faults d2 = dk_faults d"
    using fill_storage_effect [OF fill, of m] m made(1) by auto
  then have "\<exists>d4. fs_hard_link ''link identity'' t path (race_in None path d2) = (Ok (), d4)"
    using assms(1,2) m(1) by (auto simp: fs_defs race_in_def)
  with temp fill show ?thesis by (auto simp: create_storage_def)
qed

lemma spike_identity_created:
  assumes "dk_faults d = (\<lambda>_. None)" and "dk_nodes d (join dir ''identity.key'') = None" "dk_nodes d dir_path = None"
    and "dir_path \<noteq> join dir ''identity.key''" and "finite (dom (dk_nodes d))" "Suc (card (dom (dk_nodes d))) < fuel" "fuel \<le> 2 ^ 64"
  shows "\<exists>d'. spike_load_or_create blake3 fuel pid generated None dir dir_path d =
    Some (Ok \<lparr>ni_secret_key = generated, ni_storage_path = join dir ''identity.key''\<rparr>, d')"
proof -
  let ?path = "join dir ''identity.key''"
  define d1 where "d1 = put_node dir_path (Some \<lparr>fn_kind = Directory, fn_bytes = [], fn_mode = 511 AND NOT (dk_umask d)\<rparr>) d"
  have dir: "fs_create_dir_all dir_path ''create data directory'' d = (Ok (), d1)"
    using assms(1,3) by (simp add: fs_create_dir_all_def fs_defs d1_def)
  have read: "read_storage blake3 ''read identity'' ?path d1 = (Err (Spi_Io NotFound), d1)"
    using assms(1,2,4) by (simp add: read_storage_def fs_defs d1_def)
  have "dom (dk_nodes d1) = insert dir_path (dom (dk_nodes d))" by (auto simp: d1_def)
  then have "finite (dom (dk_nodes d1))" "card (dom (dk_nodes d1)) < fuel" using assms(5,6) by (simp_all add: card_insert_if)
  with create_storage_quiet [of d1 ?path "''identity.key''" fuel blake3 pid generated] assms
  obtain d' where "create_storage blake3 fuel pid None ?path generated d1 = Some (Ok True, d')" by (auto simp: d1_def join_def)
  with dir read show ?thesis by (simp add: spike_load_or_create_def Let_def)
qed

text \<open>A failure after the key was written leaves it in the temporary file.\<close>

lemma spike_identity_leftover:
  assumes "create_temporary_file fuel pid path d = Some (Ok t, d1)" and "dk_faults d = (\<lambda>_. None)(''sync temporary file'' := Some e)"
  shows "\<exists>d2 n. create_storage blake3 fuel pid other path k d = Some (Err (Spi_Io e), d2) \<and>
    dk_nodes d2 t = Some n \<and> fn_bytes n = encode_storage blake3 k"
  using assms create_temporary_file_effect [OF assms(1)]
  by (auto simp: create_storage_def fill_storage_def fs_defs)

section \<open>Properties\<close>

text \<open>
  C39: the identity of the prototype persists. Whatever calls fail and even when another process creates the file
  first, nothing on the disk is replaced or changed; a success returns a 32-byte key whose envelope is the file at the
  storage path; and every later start, whatever key it would generate, returns the same identity and changes nothing.
\<close>

theorem spike_identity_persists:
  assumes "digest_ok blake3" and "length generated = 32"
    and "spike_load_or_create blake3 fuel pid generated other dir dir_path d = Some (r, d')"
  shows "(\<forall>p n. dk_nodes d p = Some n \<longrightarrow> dk_nodes d' p = Some n) \<and>
    (\<forall>i. r = Ok i \<longrightarrow> length (ni_secret_key i) = 32 \<and> ni_storage_path i = join dir ''identity.key'' \<and>
      (\<exists>n. dk_nodes d' (join dir ''identity.key'') = Some n \<and> fn_bytes n = encode_storage blake3 (ni_secret_key i)) \<and>
      (\<forall>fuel' pid' generated' other'. dk_faults d ''read identity'' = None \<longrightarrow>
        spike_load_or_create blake3 fuel' pid' generated' other' dir dir_path d' = Some (Ok i, d')))"
proof -
  let ?path = "join dir ''identity.key''"
  have again: "\<forall>fuel' pid' generated' other'. dk_faults d ''read identity'' = None \<longrightarrow>
      spike_load_or_create blake3 fuel' pid' generated' other' dir dir_path d' = Some (Ok i, d')"
    if dir: "fs_create_dir_all dir_path ''create data directory'' d = (Ok (), d1)" and same: "dk_faults d' = dk_faults d1"
      and kept: "\<And>p n. dk_nodes d1 p = Some n \<Longrightarrow> dk_nodes d' p = Some n" and "length (ni_secret_key i) = 32" "ni_storage_path i = ?path"
      and n: "dk_nodes d' ?path = Some n" "fn_bytes n = encode_storage blake3 (ni_secret_key i)" for d1 i n
  proof (intro allI impI)
    fix fuel' pid' generated' other' assume "dk_faults d ''read identity'' = None"
    then have "read_storage blake3 ''read identity'' ?path d' = (Ok i, d')"
      using that create_dir_effect(1) [OF dir] by (simp add: read_storage_Ok [OF assms(1)])
    moreover have "fs_create_dir_all dir_path ''create data directory'' d' = (Ok (), d')"
      using create_dir_again [OF dir _ kept] same create_dir_effect(1) [OF dir] by simp
    ultimately show "spike_load_or_create blake3 fuel' pid' generated' other' dir dir_path d' = Some (Ok i, d')"
      by (simp add: spike_load_or_create_def Let_def)
  qed
  from assms(3) show ?thesis
  proof (cases rule: spike_load_cases)
    case (nodir e x)
    with create_dir_effect(2) [OF nodir(2)] show ?thesis by simp
  next
    case (present d1)
    with create_dir_effect(2) [OF present(1)] again [OF present(1)] show ?thesis by (auto simp: read_storage_Ok [OF assms(1)])
  next
    case (created d1 s)
    note eff = create_storage_effect [OF created(2)]
    have got: "length (ni_secret_key i) = 32 \<and> ni_storage_path i = ?path \<and>
        (\<exists>n. dk_nodes d' ?path = Some n \<and> fn_bytes n = encode_storage blake3 (ni_secret_key i))" if "r = Ok i" for i
      using created(3) that assms(2) eff(3) by (auto simp: read_storage_Ok [OF assms(1)] storage_node_def)
    have "dk_nodes d p = Some n \<Longrightarrow> dk_nodes d' p = Some n" for p n
      using create_dir_effect(2) [OF created(1)] eff(1) by blast
    moreover have "\<forall>fuel' pid' generated' other'. dk_faults d ''read identity'' = None \<longrightarrow>
      spike_load_or_create blake3 fuel' pid' generated' other' dir dir_path d' = Some (Ok i, d')" if "r = Ok i" for i
      using got [OF that] again [OF created(1) eff(5) eff(1)] by blast
    ultimately show ?thesis using got by blast
  qed
qed

theorem spike_identity_persists_witness:
  "\<exists>d'. spike_load_or_create zero_digest 9 7 example_secret None ''/d'' (join ''/'' ''d'') empty_disk =
      Some (Ok \<lparr>ni_secret_key = example_secret, ni_storage_path = join ''/d'' ''identity.key''\<rparr>, d') \<and>
    spike_load_or_create zero_digest 9 8 [] None ''/d'' (join ''/'' ''d'') d' =
      Some (Ok \<lparr>ni_secret_key = example_secret, ni_storage_path = join ''/d'' ''identity.key''\<rparr>, d')"
proof -
  have len: "length example_secret = 32" by (simp add: example_secret_def)
  obtain d' where run: "spike_load_or_create zero_digest 9 7 example_secret None ''/d'' (join ''/'' ''d'') empty_disk =
      Some (Ok \<lparr>ni_secret_key = example_secret, ni_storage_path = join ''/d'' ''identity.key''\<rparr>, d')"
    using spike_identity_created [of empty_disk "''/d''" "join ''/'' ''d''" 9 zero_digest 7 example_secret]
    by (auto simp: empty_disk_def)
  have "dk_faults empty_disk ''read identity'' = None" by (simp add: empty_disk_def)
  with spike_identity_persists [OF zero_digest_ok len run] run show ?thesis by auto
qed

end
