(* ===== verification/Network_Addresses.thy ===== *)
theory Network_Addresses
  imports Transport "HOL-Library.List_Lexorder"
begin

text \<open>
  Addresses and endpoint options: what \<open>RiftEndpoint::bind\<close>, \<open>dial\<close>, \<open>accept\<close> and \<open>local_addr\<close>
  (\<open>crates/rift-transport-iroh/src/lib.rs\<close>) ask of iroh and make of its answers, and of the prototype
  (\<open>crates/rift-spike/src/network.rs\<close>, \<open>main.rs\<close>) the checks of its options, the peer descriptor that users pass on, the
  UDP proxy of its fault injection and the loop of its reconnect experiment. What iroh answers is an argument.
\<close>

section \<open>Addresses\<close>

datatype socket_addr =
    SockV4 "32 word" u16
  | SockV6 "128 word" u16 u32 u32

datatype transport_addr =
    TA_Relay string
  | TA_Ip socket_addr
  | TA_Custom nat

definition LOCALHOST_V4 :: "32 word" where
  "LOCALHOST_V4 = 0x7F000001"

definition LOCALHOST_V6 :: "128 word" where
  "LOCALHOST_V6 = 1"

text \<open>An endpoint's id and its addresses, in the order in which their set lists them.\<close>

record peer_addr =
  pa_id :: bytes
  pa_addrs :: "transport_addr list"

text \<open>\<open>EndpointAddr::from_parts\<close>: \<open>collect\<close> is how an ordered set lists a collection.\<close>

definition from_parts_addr :: "(transport_addr list \<Rightarrow> transport_addr list) \<Rightarrow> bytes \<Rightarrow> transport_addr list \<Rightarrow> peer_addr" where
  "from_parts_addr collect i addresses = \<lparr>pa_id = i, pa_addrs = collect addresses\<rparr>"

definition normalize_local_socket :: "socket_addr \<Rightarrow> socket_addr" where
  "normalize_local_socket socket =
     (case socket of
        SockV4 ip port \<Rightarrow> if ip = 0 then SockV4 LOCALHOST_V4 port else socket
      | SockV6 ip port flow scope \<Rightarrow> if ip = 0 then SockV6 LOCALHOST_V6 port 0 0 else socket)"

definition normalize_local_transport_address :: "transport_addr \<Rightarrow> transport_addr" where
  "normalize_local_transport_address address =
     (case address of TA_Ip socket \<Rightarrow> TA_Ip (normalize_local_socket socket) | _ \<Rightarrow> address)"

text \<open>\<open>address\<close> and \<open>bound\<close> are the address and the bound sockets that iroh reports.\<close>

definition local_addr ::
  "(transport_addr list \<Rightarrow> transport_addr list) \<Rightarrow> peer_addr \<Rightarrow> socket_addr list \<Rightarrow> peer_addr" where
  "local_addr collect address bound =
     from_parts_addr collect (pa_id address)
       (fold (\<lambda>socket addresses. let a = TA_Ip (normalize_local_socket socket) in if a \<in> set addresses then addresses else addresses @ [a])
          bound (map normalize_local_transport_address (pa_addrs address)))"

section \<open>Options of the production endpoint\<close>

datatype relay_configuration = Relay_Disabled | Relay_Default | Relay_Staging | Relay_Custom "string list"

datatype relay_mode = Mode_Disabled | Mode_Default | Mode_Staging | Mode_Custom "string list"

definition as_iroh_mode :: "relay_configuration \<Rightarrow> relay_mode" where
  "as_iroh_mode relay =
     (case relay of
        Relay_Disabled \<Rightarrow> Mode_Disabled
      | Relay_Default \<Rightarrow> Mode_Default
      | Relay_Staging \<Rightarrow> Mode_Staging
      | Relay_Custom relays \<Rightarrow> Mode_Custom relays)"

record bind_config = endpoint_config +
  ec_relay :: relay_configuration
  ec_bind_addr :: "socket_addr option"

datatype lookup_service = Service_Hints | Service_PkarrPublisher | Service_PkarrResolver | Service_Dns | Service_Injected

text \<open>What the builder of iroh is told, call by call.\<close>

datatype builder_call =
    Call_AddressLookup lookup_service
  | Call_RelayMode relay_mode
  | Call_ClearIpTransports
  | Call_BindAddr socket_addr
  | Call_RelayAddressesOnly
  | Call_InsecureSkipVerify

definition default_config :: bind_config where
  "default_config = \<lparr>ec_address_lookup = Lookup_Disabled, ec_connection_timeout = 10 * 10 ^ 9, ec_handshake_timeout = 10 * 10 ^ 9,
     ec_relay = Relay_Disabled, ec_bind_addr = None\<rparr>"

definition direct_config :: bind_config where
  "direct_config = default_config\<lparr>ec_bind_addr := Some (SockV4 LOCALHOST_V4 0)\<rparr>"

definition bind_calls :: "bind_config \<Rightarrow> builder_call list" where
  "bind_calls config =
     [Call_AddressLookup Service_Hints, Call_RelayMode (as_iroh_mode (ec_relay config))] @
     (case ec_address_lookup config of
        Lookup_Disabled \<Rightarrow> []
      | Lookup_N0 \<Rightarrow> map Call_AddressLookup [Service_PkarrPublisher, Service_PkarrResolver, Service_Dns]
      | Lookup_Memory _ \<Rightarrow> [Call_AddressLookup Service_Injected]) @
     (case ec_bind_addr config of None \<Rightarrow> [] | Some a \<Rightarrow> [Call_ClearIpTransports, Call_BindAddr a])"

text \<open>\<open>accepts_address\<close> is whether iroh takes a bind address, \<open>build\<close> the id of the endpoint it builds, if it can.\<close>

definition endpoint_bind ::
  "bind_config \<Rightarrow> (socket_addr \<Rightarrow> bool) \<Rightarrow> (builder_call list \<Rightarrow> device_id option) \<Rightarrow> (transport_error, rift_endpoint) result" where
  "endpoint_bind config accepts_address build =
     and_then (config_validate (endpoint_config.truncate config)) (\<lambda>_.
     if \<not> pred_option accepts_address (ec_bind_addr config) then Err InvalidBindAddress
     else and_then (ok_or (build (bind_calls config)) Bind) (\<lambda>i.
       Ok \<lparr>ep_device_id = i, ep_config = endpoint_config.truncate config, ep_hint_ids = [], ep_hint_poisoned = False\<rparr>))"

text \<open>Dialing and accepting within a deadline; \<open>None\<close> is an operation that did not end in time.\<close>

definition dial_outcome :: "(connect_error, 'c) result option \<Rightarrow> (transport_error, 'c) result" where
  "dial_outcome connected =
     (case connected of None \<Rightarrow> Err ConnectTimeout | Some r \<Rightarrow> map_err Connect r)"

definition accept_outcome ::
  "(connection_error, 'a) result option option \<Rightarrow> ('a \<Rightarrow> (connecting_error, 'c) result option) \<Rightarrow> (transport_error, 'c) result" where
  "accept_outcome incoming accepting =
     and_then (ok_or incoming AcceptTimeout) (\<lambda>next.
     and_then (ok_or next EndpointClosed) (\<lambda>started.
     and_then (map_err AcceptStart started) (\<lambda>a.
     case accepting a of None \<Rightarrow> Err AcceptTimeout | Some r \<Rightarrow> map_err Accept r)))"

section \<open>Options of the prototype\<close>

datatype relay_mode_config = RMC_Disabled | RMC_Default | RMC_Staging

record network_config =
  nc_relay_mode :: relay_mode_config
  nc_relay_only :: bool
  nc_relay_url :: "string option"
  nc_insecure_relay_tls :: bool

datatype network_error =
    Net_InsecureWithoutRelay
  | Net_RelayOnlyWithoutRelay
  | Net_InvalidRelayUrl string
  | Net_EmptyPeer
  | Net_InvalidDescriptor
  | Net_InvalidNodeId string
  | Net_InvalidSocket string
  | Net_UnsupportedAddress string
  | Net_NoDirectAddress
  | Net_TooFewAttempts
  | Net_CloseTimedOut
  | Net_NotReconnected

definition spike_bind_calls :: "network_config \<Rightarrow> socket_addr option \<Rightarrow> (network_error, builder_call list) result" where
  "spike_bind_calls config bind_addr =
     (if nc_insecure_relay_tls config \<and> nc_relay_url config = None then Err Net_InsecureWithoutRelay
      else if nc_relay_only config \<and> nc_relay_mode config = RMC_Disabled \<and> nc_relay_url config = None
      then Err Net_RelayOnlyWithoutRelay
      else Ok ([Call_RelayMode (case nc_relay_url config of
                  Some url \<Rightarrow> Mode_Custom [url]
                | None \<Rightarrow> (case nc_relay_mode config of
                    RMC_Disabled \<Rightarrow> Mode_Disabled | RMC_Default \<Rightarrow> Mode_Default | RMC_Staging \<Rightarrow> Mode_Staging))] @
               (case bind_addr of None \<Rightarrow> [] | Some a \<Rightarrow> [Call_BindAddr a]) @
               (if nc_relay_only config then [Call_ClearIpTransports, Call_RelayAddressesOnly] else []) @
               (if nc_insecure_relay_tls config then [Call_InsecureSkipVerify] else [])))"

section \<open>Peer descriptors\<close>

text \<open>
  The text forms the descriptor is made of: the id, relay URLs and sockets with their parsers, how iroh displays an
  address, and the JSON of a descriptor.
\<close>

record text_forms =
  tf_id :: "bytes \<Rightarrow> string"
  tf_parse_id :: "string \<Rightarrow> bytes option"
  tf_parse_url :: "string \<Rightarrow> string option"
  tf_socket :: "socket_addr \<Rightarrow> string"
  tf_parse_socket :: "string \<Rightarrow> socket_addr option"
  tf_addr :: "transport_addr \<Rightarrow> string"
  tf_to_json :: "string \<times> string list \<Rightarrow> string"
  tf_from_json :: "string \<Rightarrow> (string \<times> string list) option"

definition peer_descriptor :: "text_forms \<Rightarrow> peer_addr \<Rightarrow> string" where
  "peer_descriptor tf address = tf_to_json tf (tf_id tf (pa_id address), map (tf_addr tf) (pa_addrs address))"

definition strip_prefix :: "string \<Rightarrow> string \<Rightarrow> string option" where
  "strip_prefix p s = (if take (length p) s = p then Some (drop (length p) s) else None)"

definition parse_transport_address :: "text_forms \<Rightarrow> string \<Rightarrow> (network_error, transport_addr) result" where
  "parse_transport_address tf input =
     (case strip_prefix ''relay:'' input of
        Some relay \<Rightarrow> and_then (ok_or (tf_parse_url tf relay) (Net_InvalidRelayUrl relay)) (\<lambda>url. Ok (TA_Relay url))
      | None \<Rightarrow>
          (case strip_prefix ''ip:'' input of
             Some ip \<Rightarrow> and_then (ok_or (tf_parse_socket tf ip) (Net_InvalidSocket ip)) (\<lambda>socket. Ok (TA_Ip socket))
           | None \<Rightarrow> Err (Net_UnsupportedAddress input)))"

fun parse_all :: "text_forms \<Rightarrow> string list \<Rightarrow> (network_error, transport_addr list) result" where
  "parse_all tf [] = Ok []"
| "parse_all tf (s # ss) = and_then (parse_transport_address tf s) (\<lambda>a. and_then (parse_all tf ss) (\<lambda>as. Ok (a # as)))"

text \<open>The white space of ASCII, which \<open>trim\<close> removes at both ends.\<close>

definition is_space :: "char \<Rightarrow> bool" where
  "is_space c = (of_char c \<in> {9, 10, 11, 12, 13, 32 :: nat})"

definition trim :: "string \<Rightarrow> string" where
  "trim s = rev (dropWhile is_space (rev (dropWhile is_space s)))"

definition parse_peer_descriptor ::
  "text_forms \<Rightarrow> (transport_addr list \<Rightarrow> transport_addr list) \<Rightarrow> string \<Rightarrow> (network_error, peer_addr) result" where
  "parse_peer_descriptor tf collect text =
     (let input = trim text in
      if input = [] then Err Net_EmptyPeer
      else if hd input = CHR ''{'' then
        and_then (ok_or (tf_from_json tf input) Net_InvalidDescriptor) (\<lambda>(node_id, addresses).
        and_then (ok_or (tf_parse_id tf node_id) (Net_InvalidNodeId node_id)) (\<lambda>i.
        and_then (parse_all tf addresses) (\<lambda>parsed. Ok (from_parts_addr collect i parsed))))
      else and_then (ok_or (tf_parse_id tf input) (Net_InvalidNodeId input)) (\<lambda>i. Ok \<lparr>pa_id = i, pa_addrs = []\<rparr>))"

definition first_ip_address :: "peer_addr \<Rightarrow> (network_error, socket_addr) result" where
  "first_ip_address address =
     (case List.map_filter (\<lambda>a. case a of TA_Ip s \<Rightarrow> Some s | _ \<Rightarrow> None) (pa_addrs address) of
        [] \<Rightarrow> Err Net_NoDirectAddress
      | s # _ \<Rightarrow> Ok s)"

definition is_ip :: "transport_addr \<Rightarrow> bool" where
  "is_ip a = (case a of TA_Ip _ \<Rightarrow> True | _ \<Rightarrow> False)"

definition peer_with_ip_proxy ::
  "(transport_addr list \<Rightarrow> transport_addr list) \<Rightarrow> peer_addr \<Rightarrow> socket_addr \<Rightarrow> (network_error, peer_addr) result" where
  "peer_with_ip_proxy collect address proxy =
     (if \<not> list_ex is_ip (pa_addrs address) then Err Net_NoDirectAddress
      else Ok (from_parts_addr collect (pa_id address) (filter (\<lambda>a. \<not> is_ip a) (pa_addrs address) @ [TA_Ip proxy])))"

definition local_endpoint_addr ::
  "(transport_addr list \<Rightarrow> transport_addr list) \<Rightarrow> peer_addr \<Rightarrow> socket_addr list \<Rightarrow> peer_addr" where
  "local_endpoint_addr collect address bound =
     fold (\<lambda>socket a. from_parts_addr collect (pa_id a) (pa_addrs a @ [TA_Ip (case socket of
         SockV4 _ port \<Rightarrow> SockV4 LOCALHOST_V4 port
       | SockV6 _ port _ _ \<Rightarrow> SockV6 LOCALHOST_V6 port 0 0)])) bound address"

definition loopback_target :: "socket_addr \<Rightarrow> socket_addr" where
  "loopback_target target =
     (case target of
        SockV4 ip port \<Rightarrow> if ip = 0 then SockV4 LOCALHOST_V4 port else target
      | SockV6 ip port flow scope \<Rightarrow> if ip = 0 then SockV6 LOCALHOST_V6 port 0 0 else target)"

section \<open>Experiments\<close>

text \<open>
  The proxy of the fault injection, from what its socket sees: a datagram with whether it could be passed on, a failed
  receive, or the cut. It knows the client that last sent through it.
\<close>

datatype proxy_event =
    Proxy_Datagram socket_addr bytes bool
  | Proxy_ReceiveFails
  | Proxy_Cut

fun forward_datagrams :: "socket_addr \<Rightarrow> socket_addr option \<Rightarrow> proxy_event list \<Rightarrow> (socket_addr \<times> bytes) list" where
  "forward_datagrams target client [] = []"
| "forward_datagrams target client (Proxy_Cut # _) = []"
| "forward_datagrams target client (Proxy_ReceiveFails # _) = []"
| "forward_datagrams target client (Proxy_Datagram source payload sends # es) =
     (if source = target then
        (case client of
           None \<Rightarrow> forward_datagrams target client es
         | Some c \<Rightarrow> if sends then (c, payload) # forward_datagrams target client es else [])
      else if sends then (target, payload) # forward_datagrams target (Some source) es else [])"

definition fault_injector :: "socket_addr \<Rightarrow> proxy_event list \<Rightarrow> (socket_addr \<times> bytes) list" where
  "fault_injector target events = forward_datagrams (loopback_target target) None events"

text \<open>An attempt of the reconnect experiment: it failed, or connected and was then seen closed in time or not.\<close>

datatype attempt = Attempt_Failed | Attempt_Connected bool

fun reconnect_loop :: "attempt list \<Rightarrow> nat \<Rightarrow> (network_error, nat) result" where
  "reconnect_loop [] successful = Ok successful"
| "reconnect_loop (Attempt_Failed # as) successful = reconnect_loop as successful"
| "reconnect_loop (Attempt_Connected closed # as) successful =
     (if successful = 0 then (if closed then reconnect_loop as 1 else Err Net_CloseTimedOut) else Ok (successful + 1))"

text \<open>\<open>outcome\<close> gives what happens at each attempt, counted from one.\<close>

definition reconnect_after_close :: "nat \<Rightarrow> (nat \<Rightarrow> attempt) \<Rightarrow> (network_error, unit) result" where
  "reconnect_after_close attempts outcome =
     (if attempts < 2 then Err Net_TooFewAttempts
      else and_then (reconnect_loop (map outcome [1..<Suc attempts]) 0) (\<lambda>successful.
        if successful < 2 then Err Net_NotReconnected else Ok ()))"

section \<open>Notions of the properties\<close>

text \<open>An ordered set lists its elements once each, and the same elements always in the same way.\<close>

definition collect_ok :: "(transport_addr list \<Rightarrow> transport_addr list) \<Rightarrow> bool" where
  "collect_ok collect \<longleftrightarrow> (\<forall>xs. set (collect xs) = set xs \<and> distinct (collect xs)) \<and>
     (\<forall>xs ys. set xs = set ys \<longrightarrow> collect xs = collect ys)"

text \<open>A socket as its text says it: the flow information of a version 6 socket is not printed, its scope is.\<close>

definition without_flow :: "socket_addr \<Rightarrow> socket_addr" where
  "without_flow s = (case s of SockV4 _ _ \<Rightarrow> s | SockV6 ip port _ scope \<Rightarrow> SockV6 ip port 0 scope)"

definition as_printed :: "transport_addr \<Rightarrow> transport_addr" where
  "as_printed a = (case a of TA_Ip s \<Rightarrow> TA_Ip (without_flow s) | _ \<Rightarrow> a)"

text \<open>
  Parsers read what is printed: sockets up to their flow information and JSON objects; and iroh puts a tag before an
  address.
\<close>

definition text_forms_ok :: "text_forms \<Rightarrow> bool" where
  "text_forms_ok tf \<longleftrightarrow>
     (\<forall>s. tf_parse_socket tf (tf_socket tf s) = Some (without_flow s)) \<and>
     (\<forall>u. tf_addr tf (TA_Relay u) = ''relay:'' @ u) \<and> (\<forall>s. tf_addr tf (TA_Ip s) = ''ip:'' @ tf_socket tf s) \<and>
     (\<forall>d. \<exists>m. tf_to_json tf d = ''{'' @ m @ ''}'') \<and> (\<forall>d. tf_from_json tf (tf_to_json tf d) = Some d)"

text \<open>
  The addresses a descriptor can carry: an id that is a public key, which is read back from its text, and of addresses
  relay URLs in their canonical form and sockets.
\<close>

definition describable_id :: "text_forms \<Rightarrow> bytes \<Rightarrow> bool" where
  "describable_id tf i \<longleftrightarrow> tf_parse_id tf (tf_id tf i) = Some i"

definition describable :: "text_forms \<Rightarrow> transport_addr \<Rightarrow> bool" where
  "describable tf a = (case a of TA_Relay u \<Rightarrow> tf_parse_url tf u = Some u | TA_Ip _ \<Rightarrow> True | TA_Custom _ \<Rightarrow> False)"

definition unspecified :: "transport_addr \<Rightarrow> bool" where
  "unspecified a = (case a of TA_Ip (SockV4 ip _) \<Rightarrow> ip = 0 | TA_Ip (SockV6 ip _ _ _) \<Rightarrow> ip = 0 | _ \<Rightarrow> False)"

section \<open>An instance\<close>

text \<open>Text forms and a listing order for which the assumptions hold.\<close>

definition address_key :: "transport_addr \<Rightarrow> nat list" where
  "address_key a =
     (case a of
        TA_Relay u \<Rightarrow> 0 # map of_char u
      | TA_Ip (SockV4 ip port) \<Rightarrow> [1, unat ip, unat port]
      | TA_Ip (SockV6 ip port flow scope) \<Rightarrow> [2, unat ip, unat port, unat flow, unat scope]
      | TA_Custom n \<Rightarrow> [3, n])"

definition example_collect :: "transport_addr list \<Rightarrow> transport_addr list" where
  "example_collect xs = sort_key address_key (remdups xs)"

definition unary :: "nat \<Rightarrow> string" where
  "unary n = replicate n CHR ''1'' @ '':''"

definition read_unary :: "string \<Rightarrow> nat \<times> string" where
  "read_unary s = (length (takeWhile (\<lambda>c. c = CHR ''1'') s), tl (dropWhile (\<lambda>c. c = CHR ''1'') s))"

definition show_string :: "string \<Rightarrow> string" where
  "show_string s = unary (length s) @ s"

definition read_string :: "string \<Rightarrow> string \<times> string" where
  "read_string s = (case read_unary s of (n, r) \<Rightarrow> (take n r, drop n r))"

fun read_strings :: "nat \<Rightarrow> string \<Rightarrow> string list" where
  "read_strings 0 s = []"
| "read_strings (Suc n) s = (case read_string s of (x, r) \<Rightarrow> x # read_strings n r)"

definition show_socket :: "socket_addr \<Rightarrow> string" where
  "show_socket s = concat (map unary (address_key (TA_Ip (without_flow s))))"

definition read_socket :: "string \<Rightarrow> socket_addr option" where
  "read_socket s =
     (case read_unary s of (k, s1) \<Rightarrow> (case read_unary s1 of (ip, s2) \<Rightarrow> (case read_unary s2 of (port, s3) \<Rightarrow>
      if k = 1 then Some (SockV4 (of_nat ip) (of_nat port))
      else (case read_unary s3 of (flow, s4) \<Rightarrow> (case read_unary s4 of (scope, _) \<Rightarrow>
        Some (SockV6 (of_nat ip) (of_nat port) (of_nat flow) (of_nat scope)))))))"

definition example_forms :: text_forms where
  "example_forms = \<lparr>
     tf_id = map (\<lambda>w. char_of (unat w)),
     tf_parse_id = (\<lambda>s. Some (map (\<lambda>c. of_nat (of_char c)) s)),
     tf_parse_url = Some,
     tf_socket = show_socket,
     tf_parse_socket = read_socket,
     tf_addr = (\<lambda>a. case a of TA_Relay u \<Rightarrow> ''relay:'' @ u | TA_Ip s \<Rightarrow> ''ip:'' @ show_socket s | TA_Custom n \<Rightarrow> ''custom:'' @ unary n),
     tf_to_json = (\<lambda>(i, as). ''{'' @ (show_string i @ unary (length as) @ concat (map show_string as)) @ ''}''),
     tf_from_json = (\<lambda>s. case read_string (tl s) of (i, r) \<Rightarrow> (case read_unary r of (n, r') \<Rightarrow> Some (i, read_strings n r')))\<rparr>"

definition example_address :: peer_addr where
  "example_address = \<lparr>pa_id = [7, 8], pa_addrs = [TA_Relay ''r'', TA_Ip (SockV4 0 5)]\<rparr>"

definition example_flow_address :: peer_addr where
  "example_flow_address = \<lparr>pa_id = [7, 8], pa_addrs = [TA_Ip (SockV6 1 5 9 2)]\<rparr>"

section \<open>Properties\<close>

lemma address_key_inj: "inj address_key"
  by (rule injI)
    (auto simp: address_key_def inj_map_eq_map [OF inj_of_char] word_unat_eq_iff split: transport_addr.splits socket_addr.splits)

lemma example_collect_ok: "collect_ok example_collect"
proof -
  have "sort_key address_key (remdups xs) = sort_key address_key (remdups ys)" if "set xs = set ys" for xs ys
  proof -
    have "map address_key (sort_key address_key (remdups xs)) = map address_key (sort_key address_key (remdups ys))"
      by (rule sorted_distinct_set_unique)
        (auto simp: that distinct_map intro: inj_on_subset [OF address_key_inj])
    then show ?thesis using inj_map_eq_map [OF address_key_inj] by blast
  qed
  moreover have "set (sort_key address_key (remdups xs)) = set xs \<and> distinct (sort_key address_key (remdups xs))" for xs by simp
  ultimately show ?thesis unfolding collect_ok_def example_collect_def by blast
qed

lemma read_unary_unary [simp]: "read_unary (unary n @ s) = (n, s)"
  by (induction n) (simp_all add: read_unary_def unary_def)

lemma read_string_show [simp]: "read_string (show_string x @ s) = (x, s)"
  by (simp add: read_string_def show_string_def)

lemma read_strings_show [simp]: "read_strings (length xs) (concat (map show_string xs) @ s) = xs"
  by (induction xs) simp_all

lemma read_socket_show [simp]: "read_socket (show_socket s) = Some (without_flow s)"
proof -
  have end_read: "read_unary (unary n) = (n, [])" for n using read_unary_unary [of n "[]"] by simp
  show ?thesis by (cases s) (simp_all add: read_socket_def show_socket_def address_key_def without_flow_def end_read)
qed

lemma example_forms_ok: "text_forms_ok example_forms"
  by (auto simp: text_forms_ok_def example_forms_def)

lemma example_id_describable: "describable_id example_forms i"
proof -
  have "of_nat (unat (w :: byte) mod 256) = w" for w
    using unsigned_less [where 'a = nat, of w] by simp
  then show ?thesis by (simp add: describable_id_def example_forms_def comp_def map_idI)
qed

lemma example_address_collected: "example_collect (pa_addrs example_address) = pa_addrs example_address"
  by (simp add: example_collect_def example_address_def address_key_def)

lemma example_address_describable:
  "list_all (describable example_forms) (pa_addrs example_address)" "list_all (\<lambda>a. as_printed a = a) (pa_addrs example_address)"
  by (simp_all add: example_address_def describable_def example_forms_def as_printed_def without_flow_def)

lemma example_collect_one: "example_collect [a] = [a]"
  by (simp add: example_collect_def)

lemma example_flow_address_collected: "example_collect (pa_addrs example_flow_address) = pa_addrs example_flow_address"
  by (simp add: example_collect_one example_flow_address_def)

lemma collect_ok_set [simp]: "collect_ok collect \<Longrightarrow> set (collect xs) = set xs"
  unfolding collect_ok_def by blast

lemma loopback_target_normalizes: "loopback_target = normalize_local_socket"
  by (rule ext) (simp add: loopback_target_def normalize_local_socket_def)

lemma normalized_specified [simp]: "\<not> unspecified (TA_Ip (normalize_local_socket s))"
  by (cases s) (simp_all add: unspecified_def normalize_local_socket_def LOCALHOST_V4_def LOCALHOST_V6_def)

lemma normalized_address_specified [simp]: "\<not> unspecified (normalize_local_transport_address a)"
  by (cases a) (simp_all add: normalize_local_transport_address_def, simp_all add: unspecified_def)

lemma normalize_specified: "\<not> unspecified a \<Longrightarrow> normalize_local_transport_address a = a"
  by (auto simp: unspecified_def normalize_local_transport_address_def normalize_local_socket_def
      split: transport_addr.splits socket_addr.splits)

lemma push_absent_set:
  "set (fold (\<lambda>s as. let a = f s in if a \<in> set as then as else as @ [a]) ss as) = set as \<union> f ` set ss"
  by (induction ss arbitrary: as) (auto simp: Let_def)

lemma local_addr_set:
  "collect_ok collect \<Longrightarrow> set (pa_addrs (local_addr collect address bound)) =
     normalize_local_transport_address ` set (pa_addrs address) \<union> (TA_Ip \<circ> normalize_local_socket) ` set bound"
  by (simp add: local_addr_def from_parts_addr_def push_absent_set image_comp comp_def)

text \<open>
  The address an endpoint gives out for local use keeps its id, has no unspecified socket, keeps every address that
  was concrete, and has for every bound socket the address under which it is reached on this machine.
\<close>

theorem local_addr_concrete:
  assumes "collect_ok collect"
  shows "pa_id (local_addr collect address bound) = pa_id address \<and>
    (\<forall>a \<in> set (pa_addrs (local_addr collect address bound)). \<not> unspecified a) \<and>
    (\<forall>a \<in> set (pa_addrs address). \<not> unspecified a \<longrightarrow> a \<in> set (pa_addrs (local_addr collect address bound))) \<and>
    (\<forall>s \<in> set bound. TA_Ip (loopback_target s) \<in> set (pa_addrs (local_addr collect address bound)))"
proof (intro conjI ballI impI)
  show "pa_id (local_addr collect address bound) = pa_id address"
    by (simp add: local_addr_def from_parts_addr_def)
  show "a \<in> set (pa_addrs (local_addr collect address bound))" if "a \<in> set (pa_addrs address)" "\<not> unspecified a" for a
    using that normalize_specified [of a] imageI [of a "set (pa_addrs address)" normalize_local_transport_address]
    by (simp add: local_addr_set [OF assms])
qed (auto simp: local_addr_set [OF assms] loopback_target_normalizes)

theorem local_addr_concrete_witness:
  "TA_Ip (loopback_target (SockV4 0 9)) \<in> set (pa_addrs (local_addr example_collect example_address [SockV4 0 9])) \<and>
   (\<forall>a \<in> set (pa_addrs (local_addr example_collect example_address [SockV4 0 9])). \<not> unspecified a)"
  using local_addr_concrete [OF example_collect_ok, of example_address "[SockV4 0 9]"] by simp

lemma strip_prefix_append [simp]: "strip_prefix p (p @ s) = Some s"
  by (simp add: strip_prefix_def)

lemma parse_printed_address:
  assumes "text_forms_ok tf" "describable tf a"
  shows "parse_transport_address tf (tf_addr tf a) = Ok (as_printed a)"
proof (cases a)
  case (TA_Ip s)
  then show ?thesis
    using assms by (simp add: parse_transport_address_def text_forms_ok_def strip_prefix_def as_printed_def)
next
  case (TA_Relay u)
  then show ?thesis
    using assms by (simp add: parse_transport_address_def text_forms_ok_def strip_prefix_def describable_def as_printed_def)
next
  case (TA_Custom n)
  then show ?thesis using assms by (simp add: describable_def)
qed

lemma parse_all_printed:
  "text_forms_ok tf \<Longrightarrow> list_all (describable tf) as \<Longrightarrow> parse_all tf (map (tf_addr tf) as) = Ok (map as_printed as)"
  by (induction as) (simp_all add: parse_printed_address)

lemma trim_object: "trim (''{'' @ m @ ''}'') = ''{'' @ m @ ''}''"
  by (simp add: trim_def is_space_def)

text \<open>
  C40: a peer descriptor of relay URLs and sockets is read back as the same id and the same addresses, except that the
  flow information of a version 6 socket, which no text form carries, is read as zero. So an address without flow
  information is read back as it was.
\<close>

theorem peer_descriptor_roundtrip:
  assumes "text_forms_ok tf" "collect_ok collect" "describable_id tf (pa_id address)"
    and "pa_addrs address = collect (pa_addrs address)" "list_all (describable tf) (pa_addrs address)"
  shows "parse_peer_descriptor tf collect (peer_descriptor tf address) =
      Ok (from_parts_addr collect (pa_id address) (map as_printed (pa_addrs address))) \<and>
    (list_all (\<lambda>a. as_printed a = a) (pa_addrs address) \<longrightarrow>
      parse_peer_descriptor tf collect (peer_descriptor tf address) = Ok address)"
proof -
  obtain m where m: "peer_descriptor tf address = ''{'' @ m @ ''}''"
    using assms(1) unfolding text_forms_ok_def peer_descriptor_def by blast
  have read: "tf_from_json tf (peer_descriptor tf address) = Some (tf_id tf (pa_id address), map (tf_addr tf) (pa_addrs address))"
    "tf_parse_id tf (tf_id tf (pa_id address)) = Some (pa_id address)"
    using assms(1,3) by (simp_all add: text_forms_ok_def peer_descriptor_def describable_id_def)
  have "trim (peer_descriptor tf address) = peer_descriptor tf address" "hd (peer_descriptor tf address) = CHR ''{''"
    "peer_descriptor tf address \<noteq> []"
    using m trim_object [of m] by simp_all
  then have "parse_peer_descriptor tf collect (peer_descriptor tf address) =
      Ok (from_parts_addr collect (pa_id address) (map as_printed (pa_addrs address)))"
    using read parse_all_printed [OF assms(1,5)] by (simp add: parse_peer_descriptor_def Let_def)
  moreover have "map as_printed (pa_addrs address) = pa_addrs address" if "list_all (\<lambda>a. as_printed a = a) (pa_addrs address)"
    using that by (simp add: list_all_iff map_idI)
  ultimately show ?thesis using assms(4) by (simp add: from_parts_addr_def)
qed

theorem peer_descriptor_roundtrip_witness:
  "parse_peer_descriptor example_forms example_collect (peer_descriptor example_forms example_address) = Ok example_address \<and>
   parse_peer_descriptor example_forms example_collect (peer_descriptor example_forms example_flow_address) =
     Ok \<lparr>pa_id = [7, 8], pa_addrs = [TA_Ip (SockV6 1 5 0 2)]\<rparr>"
proof
  show "parse_peer_descriptor example_forms example_collect (peer_descriptor example_forms example_address) = Ok example_address"
    using peer_descriptor_roundtrip [OF example_forms_ok example_collect_ok example_id_describable
        example_address_collected [symmetric] example_address_describable(1)] example_address_describable(2) by blast
  show "parse_peer_descriptor example_forms example_collect (peer_descriptor example_forms example_flow_address) =
      Ok \<lparr>pa_id = [7, 8], pa_addrs = [TA_Ip (SockV6 1 5 0 2)]\<rparr>"
    using peer_descriptor_roundtrip [OF example_forms_ok example_collect_ok example_id_describable
        example_flow_address_collected [symmetric]]
    by (simp add: example_flow_address_def describable_def as_printed_def without_flow_def from_parts_addr_def example_collect_one)
qed

lemma reconnect_loop_one:
  "reconnect_loop as (Suc n) = Ok (if \<exists>c. Attempt_Connected c \<in> set as then Suc (Suc n) else Suc n)"
  by (induction as "Suc n" rule: reconnect_loop.induct) auto

text \<open>The reconnect experiment succeeds exactly when the first connection closes in time and a later one is made.\<close>

lemma reconnect_loop_two:
  "reconnect_loop as 0 = Ok (Suc (Suc 0)) \<longleftrightarrow>
     (\<exists>ys c. dropWhile (\<lambda>a. a = Attempt_Failed) as = Attempt_Connected True # ys \<and> Attempt_Connected c \<in> set ys)"
proof (induction as)
  case (Cons a as)
  then show ?case by (cases a) (auto simp: reconnect_loop_one)
qed simp

lemma reconnect_loop_bound: "n \<le> 1 \<Longrightarrow> reconnect_loop as n = Ok m \<Longrightarrow> m \<le> 2"
  by (induction as n rule: reconnect_loop.induct) (auto split: if_splits)

lemma reconnect_after_close_succeeds:
  "reconnect_after_close attempts outcome = Ok () \<longleftrightarrow> attempts \<ge> 2 \<and>
     (\<exists>ys c. dropWhile (\<lambda>a. a = Attempt_Failed) (map outcome [1..<Suc attempts]) = Attempt_Connected True # ys \<and>
        Attempt_Connected c \<in> set ys)"
proof -
  have "reconnect_loop as 0 = Ok 2 \<longleftrightarrow> (\<exists>m \<ge> 2. reconnect_loop as 0 = Ok m)" for as
    using reconnect_loop_bound [of 0 as] by (auto intro: le_antisym)
  then show ?thesis
    unfolding reconnect_after_close_def reconnect_loop_two [symmetric]
    by (auto simp: and_then_Ok_iff numeral_2_eq_2 not_less split: if_splits simp del: upt_Suc)
qed

text \<open>Behind a cut the proxy passes nothing on, and it sends only to its target and to clients it heard from.\<close>

lemma forward_datagrams_cut:
  "forward_datagrams target client (es @ Proxy_Cut # fs) = forward_datagrams target client es"
  by (induction target client es rule: forward_datagrams.induct) (simp_all split: option.split)

lemma accepted_options_safe:
  assumes "spike_bind_calls config bind_addr = Ok calls"
  shows "(Call_InsecureSkipVerify \<in> set calls \<longrightarrow> (\<exists>url. Call_RelayMode (Mode_Custom [url]) \<in> set calls)) \<and>
    (nc_relay_only config \<longrightarrow> Call_RelayMode Mode_Disabled \<notin> set calls)"
  using assms by (auto simp: spike_bind_calls_def split: if_splits option.splits relay_mode_config.splits)

text \<open>A production endpoint never turns off the checks of the relay's certificate and has no relay unless told so.\<close>

lemma bind_calls_safe:
  "Call_InsecureSkipVerify \<notin> set (bind_calls config) \<and>
   (Call_RelayMode m \<in> set (bind_calls config) \<longleftrightarrow> m = as_iroh_mode (ec_relay config)) \<and>
   (ec_address_lookup config \<noteq> Lookup_N0 \<longrightarrow> Call_AddressLookup Service_PkarrPublisher \<notin> set (bind_calls config))"
  by (auto simp: bind_calls_def split: option.splits address_lookup.splits)

end
