(* ===== verification/Spec2Isabelle.thy ===== *)
theory Spec2Isabelle
  imports Transfer_State Transfer_Store Daemon_Safety Daemon_Tasks Daemon_Start Architecture_Policy
    Spike_Server Spike_Identity Network_Addresses
begin

text \<open>
  A verification development for Rift, a daemon that pairs devices and keeps authorized sessions between them over the
  iroh transport. This header says how the program and the theories correspond, what the lemmas
  show and what is left out. Paths are relative to \<open>src/crates\<close>.

  \<^bold>\<open>The program.\<close> A device has a persistent identity (\<open>rift-identity\<close>) and a journal of its decisions to trust or to revoke
  other devices (\<open>rift-trust\<close>). Connections are authenticated by iroh; \<open>rift-transport-iroh\<close> exchanges Hello
  and the purpose of a connection on a control stream of length-prefixed frames (\<open>rift-protocol\<close>), and
  \<open>rift-session\<close> admits it as a session of a trusted peer or runs the pairing protocol, at whose end both users
  compare a code. The daemon (\<open>rift-daemon\<close>) owns all of it: its event loop keeps the registries of sessions, pending
  pairings and dials, reconnects to known peers, and serves local clients that speak \<open>rift-ipc\<close>. \<open>rift-transfer\<close>
  holds the state, the files and the streams of file transfers; the daemon does not call it yet.

  \<^bold>\<open>Conventions.\<close> \<open>Result\<close> is a sum with \<open>Ok\<close> and \<open>Err\<close>; an operation on \<open>&mut self\<close> returns its result and the new state, and
  \<open>?\<close> is \<open>st_bind\<close>, \<open>and_then\<close> or, for stream operations that may have to wait, the monad of \<open>Io_Streams\<close>. Integers whose
  overflow the code handles are words of their width; lengths and instants are natural numbers, the latter in
  nanoseconds. Postcard, BLAKE3, serde_json, hex and the random source are arguments; what is relied on
  about them is named: \<open>postcard_ok\<close>, \<open>digest_ok\<close>, \<open>json_ok\<close>, \<open>hex_encode_ok\<close>, and each has a concrete instance that the
  witnesses use. Failures of I/O calls are inputs, so that every error path is a value of the model.

  \<^bold>\<open>Theories, and the code they model.\<close>
  \<^item> \<open>Rift_Prelude\<close>: results, codecs, ordered maps, slices and big-endian numbers, \<open>reachable\<close>, and the locales of the
    interfaces: \<open>invariant_machine\<close>, \<open>id_allocator\<close>, \<open>cursor_listing\<close> and \<open>generation_fence\<close>, each interpreted on the
    definitions of the components that provide it.
  \<^item> \<open>Rift_Core\<close> (\<open>rift-core\<close>): \<open>DeviceId\<close>, \<open>TransferId\<close>, \<open>TrustedPeer\<close>, \<open>SourcePath\<close>.
  \<^item> \<open>Io_Streams\<close>: readers and writers that deliver, end, fail or wait, as the streams of tokio do.
  \<^item> \<open>Trust_Journal\<close> (\<open>rift-trust\<close>): \<open>replay\<close>, \<open>open_store\<close>, \<open>commit\<close> with rollback and poisoning, every query and mutation of
    \<open>TrustStore\<close>. The lemmas show that the file always replays to the decisions in memory, that a commit cut at any byte
    replays to the old or the new decisions, and that a revocation is never undone by pairing.
  \<^item> \<open>Wire_Protocol\<close> (\<open>rift-protocol/src/lib.rs\<close>) and \<open>Transfer_Wire\<close> (\<open>transfer.rs\<close>, \<open>data.rs\<close>): Hello, pairing
    commitments and codes, control messages and frames, transfer headers; round trips and bounds.
  \<^item> \<open>Transport\<close> (\<open>rift-transport-iroh\<close>): peer hints, bootstrap, intent, pairing and ping operations and
    \<open>serve_control\<close>; a connection that failed once is not used again.
  \<^item> \<open>Session_Pairing\<close> (\<open>rift-session\<close>): the pairing machine, \<open>accept_inbound\<close>, \<open>prepare_outbound\<close>, \<open>admit\<close>, both pairing
    roles and \<open>confirm\<close>; the admission policy, agreement of honest devices, and trust only for what both users accepted.
  \<^item> \<open>Transfer_State\<close>, \<open>Transfer_Stream\<close>, \<open>Transfer_Record\<close>, \<open>Transfer_Store\<close> (\<open>rift-transfer\<close>: \<open>state.rs\<close>,
    \<open>streaming.rs\<close> and \<open>source.rs\<close>, \<open>record.rs\<close>, \<open>store.rs\<close>): the life of a transfer refines an abstract lifecycle, a
    reception that succeeds produced exactly the promised file, and the startup scan finds what was stored.
  \<^item> \<open>Local_Files\<close>: the file system as a disk of nodes with modes and a fault for each named operation, and the
    predicate \<open>within\<close>, by which each operation is shown to touch only the paths it names.
  \<^item> \<open>Identity_Store\<close> (\<open>rift-identity\<close>): \<open>load_or_create\<close> and all it calls, including a second process that creates the
    identity in between; nothing is ever replaced, and the search for a temporary name ends.
  \<^item> \<open>Connectivity\<close> (\<open>rift-daemon/src/connectivity.rs\<close>): the retry delay and the scheduler.
  \<^item> \<open>Ipc_Messages\<close> (\<open>rift-ipc\<close>) and \<open>Ipc_Server\<close> (\<open>rift-daemon/src/ipc_server.rs\<close>, \<open>AuthToken\<close>): JSON frames, the gate of
    the token, and \<open>serve_client\<close> as a transition system with exact bookkeeping of its requests. Two lemmas
    show what happens to a frame whose read is interrupted.
  \<^item> \<open>Daemon_Runtime\<close> (\<open>rift-daemon/src/lib.rs\<close>): every handler of the event loop, with the connections it closes by dropping them, and the relation \<open>loop_step\<close>;
    \<open>Daemon_Registry\<close> has the invariant of the registries and its preservation by each handler, and \<open>Daemon_Safety\<close> the
    properties of all reachable states, of withdrawal of trust, of simultaneous dials, of what the waiters of a dial are told and of
    the shutdown. One lemma shows that an inbound session answers a pairing dial with an internal error.
  \<^item> \<open>Daemon_Tasks\<close> (the tasks of \<open>lib.rs\<close>: \<open>accept_incoming\<close>, \<open>prepare_outbound\<close>, \<open>run_pending_pairing\<close>,
    \<open>resolve_pending_pairing\<close>, \<open>run_session\<close>): what they do on a connection, the confirmation of a pairing and its commit included, and what they hand to
    the event loop.
  \<^item> \<open>Daemon_Start\<close> (\<open>local.rs\<close> and \<open>Daemon::start\<close>): the directory, the lock, the descriptor and the socket; one daemon for
    each directory, no remains of a failed start, and a state from which the event loop runs.
  \<^item> \<open>Architecture_Policy\<close> (\<open>../xtask/src/main.rs\<close>, \<open>DependencyPolicy\<close>): the check of the crates' dependencies; its search is
    the transitive closure of the resolved graph, and a workspace that passes is layered.
  \<^item> \<open>Network_Addresses\<close> (\<open>rift-transport-iroh\<close>: \<open>bind\<close>, \<open>dial\<close>, \<open>accept\<close>, \<open>local_addr\<close>; \<open>rift-spike/src/network.rs\<close>): the calls an
    endpoint's configuration makes of iroh's builder, local addresses, and the descriptors users pass on, which are read back up to
    the flow information that the text of a socket does not carry.
  \<^item> \<open>Spike_Protocol\<close>, \<open>Spike_Transfer\<close>, \<open>Spike_Identity\<close>, \<open>Spike_Server\<close> (\<open>rift-spike\<close>: \<open>protocol.rs\<close>, \<open>transfer.rs\<close>,
    \<open>identity.rs\<close>, \<open>main.rs\<close>): the prototype that moves one file between two devices. The handshake authenticates, a
    reception replaces nothing and leaves remains only where a removal fails, the identity persists, and an acknowledged transfer is stored.
  \<^item> This theory: the properties that span components, from an accepted connection to the registry, from the
    user's decision to the durable trust, and from the descriptor on disk to the client that is served.

  \<^bold>\<open>Bounds and fuel.\<close> \<open>load_peers\<close> gets one more unit of fuel than the journal has decisions, and is shown to return. The
  loop of \<open>create_temporary\<close> gets \<open>sv_fuel\<close>; one more than the number of files suffices, up to the \<open>2 ^ 64\<close> names its
  counter can form; it and the searches of the prototype are one loop, \<open>claim_fresh\<close> of \<open>Local_Files\<close>. \<open>serve_control\<close> waits for its peer as long as the peer likes; its fuel counts the turns taken, and a run
  that is cut short is no result. All other loops are structural recursions or have a termination proof.

  \<^bold>\<open>Not modelled.\<close> What iroh does inside (sockets, relays, address lookup, the cryptographic handshake): its
  outcomes are arguments, with the authenticated identity as it reports it. The runtime of tokio: tasks are sequences of the steps
  above, a task ends in one step of the loop with its whole outcome, whether the tasks could be joined in time at shutdown is an
  argument, deadlines surface as waiting that ends, and a \<open>select\<close> as the branch that wins. \<open>DaemonHandle\<close>, which only sends
  a command and awaits the reply. The named pipe and access checks of Windows; paths are those of Unix, and the limit
  of a socket path is that of Linux. Logging and \<open>Debug\<close>. The binary \<open>riftd\<close>, the benchmarks, of \<open>rift-spike\<close> the
  command line, the accept loop, the benchmark and the waiting for relays and paths (a transfer task of its server is one step, so that
  two receptions do not interleave in the model), and the commands of \<open>xtask\<close> other than the dependency policy, which run or measure the rest and hold no state of it.
\<close>

section \<open>Lemmas across components\<close>

lemma pending_unchanged:
  "dm_pending (open_session env h c orig i d) = dm_pending d" "dm_pending (retire_session env k i closed d) = dm_pending d"
proof -
  have "dm_pending (emit e (if b then cancel_outbound k y z else z)) = dm_pending z" for e b k y z
    using same_emit [of e] same_cancel_outbound [of k y z] by (simp add: same_registries_def)
  moreover have "dm_pending (emit_connectivity now k z) = dm_pending z" for now k z
    using same_emit_connectivity [of now k z] by (simp add: same_registries_def)
  ultimately show "dm_pending (open_session env h c orig i d) = dm_pending d" unfolding open_session_def Let_def by simp
  show "dm_pending (retire_session env k i closed d) = dm_pending d"
    by (simp add: retire_session_def Let_def emit_def close_conn_def adjust_peer_def split: option.split)
qed

lemma retire_session_get:
  "bt_get (dm_sessions (retire_session env k i closed d)) j \<in> {None, bt_get (dm_sessions d) j}"
  by (simp add: retire_session_def Let_def emit_def close_conn_def adjust_peer_def split: option.split)

text \<open>What registering a session or a pending pairing adds to the registries.\<close>

lemma register_session_adds:
  assumes "register_session env h c orig d = (r, d')"
  shows "dm_pending d' = dm_pending d"
    and "bt_get (dm_sessions d') i = Some q \<Longrightarrow> bt_get (dm_sessions d) i \<noteq> Some q \<Longrightarrow>
      si_device_id (sr_info q) = tp_device_id (ac_peer c) \<and> sr_origin q = orig \<and> sr_closer q = h"
proof -
  have "dm_pending d' = dm_pending d \<and> (bt_get (dm_sessions d') i = Some q \<longrightarrow> bt_get (dm_sessions d) i \<noteq> Some q \<longrightarrow>
      si_device_id (sr_info q) = tp_device_id (ac_peer c) \<and> sr_origin q = orig \<and> sr_closer q = h)"
    using assms
  proof (cases rule: register_session_elim)
    case (opened sc n b)
    let ?e = "case existing_session b (tp_device_id (ac_peer c)) of
         None \<Rightarrow> b\<lparr>dm_next_session_id := n\<rparr>
       | Some (i, _, closed) \<Rightarrow> retire_session env (tp_device_id (ac_peer c)) i closed (b\<lparr>dm_next_session_id := n\<rparr>)"
    have "bt_get (dm_sessions ?e) i \<in> {None, bt_get (dm_sessions d) i}" "dm_pending ?e = dm_pending d"
      using retire_session_get [of env _ _ _ "b\<lparr>dm_next_session_id := n\<rparr>" i] opened(3)
      by (auto simp: pending_unchanged split: option.splits)
    with opened(10) show ?thesis by (auto simp: open_session_effect pending_unchanged)
  qed (simp_all add: same_registries_def)
  then show "dm_pending d' = dm_pending d"
    and "bt_get (dm_sessions d') i = Some q \<Longrightarrow> bt_get (dm_sessions d) i \<noteq> Some q \<Longrightarrow>
      si_device_id (sr_info q) = tp_device_id (ac_peer c) \<and> sr_origin q = orig \<and> sr_closer q = h" by blast+
qed

lemma register_pending_adds:
  assumes "register_pending env h p orig d = (r, d')"
  shows "dm_sessions d' = dm_sessions d"
    and "bt_get (dm_pending d') i = Some q \<Longrightarrow> bt_get (dm_pending d) i \<noteq> Some q \<Longrightarrow>
      ppi_device_id (pr_info q) = tp_device_id (pp_peer p) \<and> pr_origin q = orig \<and> pr_closer q = h"
  using assms
  by (auto simp: register_pending_def drop_candidate_def Let_def st_bind_def allocate_pairing_id_def else_close_def emit_def close_conn_def
      split: if_splits option.splits)

lemma example_registers:
  assumes "candidate_ok example_task_env 4 example_id (Cand_Authorized 4 a)"
  shows "\<exists>d'. register_candidate example_denv (Cand_Authorized 4 a) example_daemon = (Ok (), d')"
  using assms
  by (simp add: candidate_ok_def register_candidate_def discard_def
        register_session_def Let_def example_daemon_def daemon_ready_def trust_state_of_def entry_def trusted_store_def
        current_generation_def empty_store_def from_parts_def is_closed_def scheduler_insert_def example_task_env_def
        bt_contains_def existing_session_def st_bind_def allocate_session_id_def else_close_def checked_add_def example_config_def
        HARD_MAX_OWNED_TASKS_def bt_get_def)

section \<open>Properties across components\<close>

text \<open>
  C4: from the wire to the registry. Let a connection be accepted from the identity the transport authenticated, run
  through the handshake, the purpose exchange and the admission of the session manager, and its candidate be registered by
  the event loop, which may do so much later. At that moment the store holds for that identity what the
  candidate stands for, trust for a session and no decision for a pairing, under the same trust generation as before the first
  exchange; and whatever the registration adds is a session or a pending pairing of that identity on that connection.
\<close>

theorem accepted_connection_registered_for_peer:
  assumes "accept_incoming te h ep name platform (Ok (remote, control)) = (Ok cand, c)"
    and "decisions_wf (ts_decisions (tk_store4 te))" and "register_candidate env cand d = (Ok u, d')"
  shows "trust_state_of (dm_trust d) remote =
      (case cand of Cand_Authorized _ _ \<Rightarrow> Some TrustState_Trusted | Cand_Pending _ _ \<Rightarrow> None) \<and>
    current_generation (dm_trust d) remote = current_generation (tk_store1 te) remote \<and>
    (\<forall>i q. bt_get (dm_sessions d') i = Some q \<and> bt_get (dm_sessions d) i \<noteq> Some q \<longrightarrow>
       si_device_id (sr_info q) = remote \<and> sr_origin q = Inbound \<and> sr_closer q = h) \<and>
    (\<forall>i q. bt_get (dm_pending d') i = Some q \<and> bt_get (dm_pending d) i \<noteq> Some q \<longrightarrow>
       ppi_device_id (pr_info q) = remote \<and> pr_origin q = Inbound \<and> pr_closer q = h \<and> tk_permit te)"
proof -
  have cand: "candidate_ok te h remote cand" by (rule accept_incoming_ok [OF assms(1,2)])
  show ?thesis
  proof (cases cand)
    case (Cand_Authorized h' a)
    with assms(3) obtain i where run: "register_session env h a Inbound d = (Ok i, d')"
      using cand by (auto simp: register_candidate_def discard_Ok candidate_ok_def)
    with register_session_adds [OF run] registered_candidate [OF cand assms(3)] cand Cand_Authorized show ?thesis
      by (auto simp: candidate_ok_def)
  next
    case (Cand_Pending h' p)
    with assms(3) obtain i where run: "register_pending env h p Inbound d = (Ok i, d')"
      using cand by (auto simp: register_candidate_def discard_Ok candidate_ok_def)
    with register_pending_adds [OF run] registered_candidate [OF cand assms(3)] cand Cand_Pending show ?thesis
      by (auto simp: candidate_ok_def)
  qed
qed

theorem accepted_connection_registered_for_peer_witness:
  "\<exists>a c d'. accept_incoming example_task_env 4 example_endpoint ''alice'' ''linux'' (Ok (example_id, Ok example_control)) =
      (Ok (Cand_Authorized 4 a), Some c) \<and> register_candidate example_denv (Cand_Authorized 4 a) example_daemon = (Ok (), d') \<and>
    trust_state_of (dm_trust example_daemon) example_id = Some TrustState_Trusted"
proof -
  obtain a c where run: "accept_incoming example_task_env 4 example_endpoint ''alice'' ''linux'' (Ok (example_id, Ok example_control)) =
      (Ok (Cand_Authorized 4 a), Some c)" using example_accept by blast
  have wf: "decisions_wf (ts_decisions (tk_store4 example_task_env))" using example_store_wf by (simp add: example_task_env_def)
  obtain d' where reg: "register_candidate example_denv (Cand_Authorized 4 a) example_daemon = (Ok (), d')"
    using example_registers [OF accept_incoming_ok [OF run wf]] by blast
  from accepted_connection_registered_for_peer [OF run wf reg] run reg show ?thesis by auto
qed

text \<open>
  C5: no pairing becomes a session without both users. If the task that waits for the user's decision ends with an
  authorized connection, then the user of this device sent an acceptance in time, the peer's acceptance and completion of the
  same pairing were read, and the peer the code was shown for is durably trusted when the event loop is told.
\<close>

theorem pairing_needs_both_users:
  assumes "run_pending_pairing te ce h attempt_id pp event resolution store =
      (Task_PairingEnded i device_id (Ptr_Authorized h' ac) channel, store')"
    and "pm_pairing_id (pp_machine pp) = Some pid"
  shows "i = attempt_id \<and> device_id = tp_device_id (pp_peer pp) \<and> h' = h \<and> ac_peer ac = pp_peer pp \<and>
    (\<exists>ch. event = Pend_Command (Some (Pcmd_Confirm True ch)) \<and> channel = Some ch) \<and> cf_now ce < pp_deadline pp \<and>
    (\<exists>c0 ctl r r'. pp_connection pp = Some c0 \<and> bc_control c0 = Some ctl \<and>
       read_message (tk_codec te) (ch_recv ctl) = (Ready (Ok (PairingDecision pid True)), r) \<and>
       read_message (tk_codec te) r = (Ready (Ok (PairingComplete pid)), r')) \<and>
    entry store' device_id = Some (Entry_Trusted (pp_peer pp))"
proof -
  obtain accepted ch c where ev: "event = Pend_Command (Some (Pcmd_Confirm accepted ch))" "channel = Some ch" "i = attempt_id" "h' = h"
      "device_id = tp_device_id (pp_peer pp)"
      "confirm (tk_codec te) (cf_codec ce) (tk_blake3 te) (cf_persist ce) (cf_now ce) accepted pp store = (Ok ac, c, store')"
    using assms(1)
    by (auto simp: run_pending_pairing_def resolve_pending_pairing_def confirmation_result_def Let_def
        split: pending_event.splits option.splits pairing_command.splits resolve_event.splits prod.splits sum.splits pairing_error.splits)
  from confirm_Ok [OF ev(6) assms(2) ev(5)] ev show ?thesis by blast
qed

theorem pairing_needs_both_users_witness:
  "\<exists>ac s. run_pending_pairing (example_task_env\<lparr>tk_codec := session_codec\<rparr>)
      \<lparr>cf_codec = session_trust_codec, cf_persist = quiet_env, cf_now = 0\<rparr> 4 1 example_pending
      (Pend_Command (Some (Pcmd_Confirm True 9))) Res_Confirmed empty_store =
      (Task_PairingEnded 1 (tp_device_id (pp_peer example_pending)) (Ptr_Authorized 4 ac) (Some 9), s) \<and>
    entry s (tp_device_id (pp_peer example_pending)) = Some (Entry_Trusted (pp_peer example_pending))"
proof -
  obtain ac c s where conf: "confirm session_codec session_trust_codec zero_digest quiet_env 0 True example_pending empty_store = (Ok ac, c, s)"
    using example_confirm by blast
  have run: "run_pending_pairing (example_task_env\<lparr>tk_codec := session_codec\<rparr>)
      \<lparr>cf_codec = session_trust_codec, cf_persist = quiet_env, cf_now = 0\<rparr> 4 1 example_pending
      (Pend_Command (Some (Pcmd_Confirm True 9))) Res_Confirmed empty_store =
      (Task_PairingEnded 1 (tp_device_id (pp_peer example_pending)) (Ptr_Authorized 4 ac) (Some 9), s)"
    using conf by (simp add: run_pending_pairing_def resolve_pending_pairing_def confirmation_result_def example_task_env_def)
  have "entry s (tp_device_id (pp_peer example_pending)) = Some (Entry_Trusted (pp_peer example_pending))"
    using pairing_needs_both_users [OF run, of example_pid] by simp
  with run show ?thesis by blast
qed

text \<open>
  C13: only who can read the runtime descriptor is served. When a daemon has started, a local client is admitted only if
  its first frame presents the token that the descriptor on disk carries, and that descriptor is a regular file
  whose mode gives access to its owner alone.
\<close>

theorem only_descriptor_readers_served:
  assumes "start sv config data_dir dir h = Some (Ok s, h')" and "fp_parent dir \<noteq> Some data_dir" and "honest h"
    and "hex_encode_ok (sv_hex_encode sv)"
    and "authenticate_client jc js flushed (sd_auth_token s) r w = (Ok (), r', w')"
  shows "read_json_frame jc r = (Ready (Ok (Client_Authenticate IPC_PROTOCOL_VERSION (rd_auth_token (sd_descriptor s)))), r') \<and>
    (\<exists>n. dk_nodes (hs_disk h') (join data_dir DESCRIPTOR_FILE_NAME) = Some n \<and> fn_kind n = Regular \<and> fn_mode n = 384 \<and>
       sv_to_vec_pretty sv (sd_descriptor s) = Some (fn_bytes n))"
proof -
  note ready = started_ready [OF assms(1-3)]
  then have token: "auth_generate (sv_hex_encode sv) (sv_fill_token sv) = Ok (sd_auth_token s)" "rd_auth_token (sd_descriptor s) = sd_auth_token s"
    by blast+
  from authentication_gate [OF assms(4) token(1) assms(5)] ready token(2) show ?thesis by (auto simp: private_node_def)
qed

theorem only_descriptor_readers_served_witness:
  "\<exists>s h' r' w'. start example_start start_config ''/rift'' example_dir example_host = Some (Ok s, h') \<and>
    authenticate_client example_hello_codec (digit_codec [Server_Authenticated 1]) (Ready (Ok ())) (sd_auth_token s) example_stream example_sink =
      (Ok (), r', w') \<and>
    (\<exists>n. dk_nodes (hs_disk h') (join ''/rift'' DESCRIPTOR_FILE_NAME) = Some n \<and> fn_mode n = 384)"
proof -
  obtain s h' where run: "start example_start start_config ''/rift'' example_dir example_host = Some (Ok s, h')"
    using quiet_start [OF _ _ _ start_config_ok example_start_willing example_dir_outside, of example_host]
    by (auto simp: example_host_def empty_disk_def)
  have hex: "hex_encode_ok (sv_hex_encode example_start)" by (simp add: hex_encode_ok_def example_start_def)
  have "sd_auth_token s = example_token"
    using started_ready [OF run example_dir_outside example_honest(1)] example_authenticates(1) by (simp add: example_start_def)
  then obtain r' w' where auth: "authenticate_client example_hello_codec (digit_codec [Server_Authenticated 1]) (Ready (Ok ())) (sd_auth_token s)
      example_stream example_sink = (Ok (), r', w')" using example_authenticates(2) by auto
  from only_descriptor_readers_served [OF run example_dir_outside example_honest(1) hex auth] run auth show ?thesis by blast
qed

end
